(* ===== verification/Prelude.thy ===== *)
theory Prelude
  imports Main "HOL-Library.Word" "HOL-Library.Monad_Syntax"
begin

text \<open>
  Shared vocabulary of the development.

  \<^item> Machine integers are words of the source's width (\<open>u8\<close>, \<open>u16\<close>, \<open>u32\<close>, \<open>u64\<close>), and
    \<open>usize\<close> is \<open>nat\<close> where it only indexes buffers.  Arithmetic on words wraps, which is
    what the release profile of the Rust compiler does.
  \<^item> A fallible function returns \<open>'e + 'a\<close>: \<open>Inl\<close> is \<open>Err\<close>, \<open>Inr\<close> is \<open>Ok\<close>.
    A function that may panic returns \<open>'a option\<close> and \<open>None\<close> is the panic.
  \<^item> Byte buffers are lists of bytes with in-place writes (\<open>put_bytes\<close>) and slice reads
    (\<open>get_bytes\<close>), plus the little-endian codecs of \<open>to_le_bytes\<close> / \<open>from_le_bytes\<close>.
  \<^item> \<open>codec\<close> is the interface every on-disk structure implements; its client lemmas show that
    a table of such structures can be read back slot by slot.
\<close>

unbundle bit_operations_syntax

type_synonym u8 = "8 word"
type_synonym u16 = "16 word"
type_synonym u32 = "32 word"
type_synonym u64 = "64 word"
type_synonym bytes = "u8 list"

abbreviation Err :: "'e \<Rightarrow> 'e + 'a" where "Err \<equiv> Inl"
abbreviation Ok :: "'a \<Rightarrow> 'e + 'a" where "Ok \<equiv> Inr"

named_theorems buf_simps \<open>reading a buffer after writing it\<close>

subsection \<open>Words in range\<close>

lemma unat_below: "unat (w :: 'a::len word) < 2 ^ LENGTH('a)"
  by (rule unsigned_less)

lemma unat_ucast_small:
  "unat (w :: 'a::len word) < 2 ^ LENGTH('b) \<Longrightarrow> unat (ucast w :: 'b::len word) = unat w"
  by (simp add: unsigned_ucast_eq take_bit_nat_eq_self)

lemma unat_add_small:
  "unat (a :: 'a::len word) + unat b < 2 ^ LENGTH('a) \<Longrightarrow> unat (a + b) = unat a + unat b"
  by (simp add: unat_word_ariths)

lemma unat_mult_small:
  "unat (a :: 'a::len word) * unat b < 2 ^ LENGTH('a) \<Longrightarrow> unat (a * b) = unat a * unat b"
  by (simp add: unat_word_ariths)

lemma unat_of_nat_small: "n < 2 ^ LENGTH('a) \<Longrightarrow> unat (of_nat n :: 'a::len word) = n"
  by (simp add: unsigned_of_nat take_bit_nat_eq_self)

lemma unat_diff_le: "(b :: 'a::len word) \<le> a \<Longrightarrow> unat (a - b) = unat a - unat b"
  by (simp add: unat_sub word_le_nat_alt)

subsection \<open>Results\<close>

definition bind_result :: "'e + 'a \<Rightarrow> ('a \<Rightarrow> 'e + 'b) \<Rightarrow> 'e + 'b" where
  "bind_result r f = (case r of Inl e \<Rightarrow> Inl e | Inr a \<Rightarrow> f a)"

lemma bind_result_simps [simp]:
  "bind_result (Inl e) f = Inl e"
  "bind_result (Inr a) f = f a"
  by (simp_all add: bind_result_def)

lemma bind_result_Inr_iff [simp]:
  "bind_result r f = Inr b \<longleftrightarrow> (\<exists>a. r = Inr a \<and> f a = Inr b)"
  by (cases r) auto

lemma bind_result_assoc: "bind_result (bind_result r f) g = bind_result r (\<lambda>x. bind_result (f x) g)"
  by (cases r) auto

subsection \<open>Little-endian integers\<close>

primrec le_bytes :: "nat \<Rightarrow> 'a::len word \<Rightarrow> bytes" where
  "le_bytes 0 w = []"
| "le_bytes (Suc n) w = ucast w # le_bytes n (drop_bit 8 w)"

primrec of_le :: "bytes \<Rightarrow> 'a::len word" where
  "of_le [] = 0"
| "of_le (b # bs) = ucast b OR push_bit 8 (of_le bs)"

lemma length_le_bytes [simp]: "length (le_bytes n w) = n"
  by (induction n arbitrary: w) auto

lemma of_le_le_bytes: "of_le (le_bytes n w) = take_bit (8 * n) w"
proof (induction n arbitrary: w)
  case 0
  then show ?case by simp
next
  case (Suc n)
  show ?case
    by (rule bit_word_eqI)
      (auto simp: Suc bit_simps not_le)
qed

lemma le_bytes_zero: "le_bytes n 0 = replicate n 0"
  by (induction n) auto

lemma drop_bit_of_le:
  assumes "8 * Suc (length bs) \<le> LENGTH('a::len)"
  shows "drop_bit 8 (of_le (b # bs) :: 'a word) = of_le bs"
proof (rule bit_word_eqI)
  fix n assume "n < LENGTH('a)"
  have high: "bit (of_le cs :: 'a word) m \<Longrightarrow> m < 8 * length cs" for cs m
  proof (induction cs arbitrary: m)
    case (Cons c cs)
    then consider "m < 8" | "8 \<le> m" "bit (of_le cs :: 'a word) (m - 8)"
      by (auto simp: bit_simps not_le dest: bit_imp_le_length)
    then show ?case using Cons.IH [of "m - 8"] by cases auto
  qed simp
  show "bit (drop_bit 8 (of_le (b # bs) :: 'a word)) n \<longleftrightarrow> bit (of_le bs :: 'a word) n"
    using assms high [of bs n] by (auto simp: bit_simps dest: bit_imp_le_length)
qed

lemma ucast_of_le_Cons:
  assumes "8 \<le> LENGTH('a::len)"
  shows "ucast (of_le (b # bs) :: 'a word) = b"
  by (rule bit_word_eqI) (use assms in \<open>auto simp: bit_simps\<close>)

lemma le_bytes_of_le:
  "8 * length bs \<le> LENGTH('a::len) \<Longrightarrow> le_bytes (length bs) (of_le bs :: 'a word) = bs"
proof (induction bs)
  case Nil
  then show ?case by simp
next
  case (Cons b bs)
  then show ?case
    using drop_bit_of_le [where 'a = 'a, of bs b] ucast_of_le_Cons [where 'a = 'a, of b bs]
    by simp
qed

subsection \<open>Byte buffers\<close>

text \<open>
  \<open>get_bytes n buf off\<close> is \<open>buf[off..off + n]\<close> and \<open>put_bytes buf off src\<close> is
  \<open>buf[off..off + src.len()].copy_from_slice(src)\<close>.  Both panic in the source when the range
  leaves the buffer; the operations that use them check the length first, as the source's
  assertions do, and return \<open>None\<close> there.
\<close>

definition get_bytes :: "nat \<Rightarrow> bytes \<Rightarrow> nat \<Rightarrow> bytes" where
  "get_bytes n buf off = take n (drop off buf)"

primrec put_bytes :: "bytes \<Rightarrow> nat \<Rightarrow> bytes \<Rightarrow> bytes" where
  "put_bytes buf off [] = buf"
| "put_bytes buf off (b # bs) = put_bytes (buf[off := b]) (Suc off) bs"

lemma put_bytes_Cons_commute:
  "off < n \<or> n + length bs \<le> off \<Longrightarrow>
     put_bytes (buf[off := b]) n bs = (put_bytes buf n bs)[off := b]"
  by (induction bs arbitrary: n buf) (auto simp: list_update_swap)

lemma length_put_bytes [simp]: "length (put_bytes buf off src) = length buf"
  by (induction src arbitrary: buf off) auto

lemma length_get_bytes [simp]: "off + n \<le> length buf \<Longrightarrow> length (get_bytes n buf off) = n"
  by (simp add: get_bytes_def)

lemma nth_put_bytes:
  "i < length buf \<Longrightarrow> put_bytes buf off src ! i =
     (if off \<le> i \<and> i < off + length src then src ! (i - off) else buf ! i)"
proof (induction src arbitrary: buf off)
  case Nil
  then show ?case by (auto simp: not_less)
next
  case (Cons b src)
  then show ?case
    by (cases "i = off") (auto simp: nth_list_update nth_Cons' Suc_le_eq)
qed

lemma put_bytes_splice:
  assumes "off + length src \<le> length buf"
  shows "put_bytes buf off src = take off buf @ src @ drop (off + length src) buf"
  by (rule nth_equalityI) (use assms in \<open>auto simp: nth_put_bytes nth_append\<close>)

lemma get_put_bytes_same [buf_simps]:
  "off + length src \<le> length buf \<Longrightarrow> n = length src \<Longrightarrow> get_bytes n (put_bytes buf off src) off = src"
  by (simp add: put_bytes_splice get_bytes_def)

lemma get_put_bytes_other [buf_simps]:
  assumes "off' + n \<le> off \<or> off + length src \<le> off'"
  shows "get_bytes n (put_bytes buf off src) off' = get_bytes n buf off'"
  by (rule nth_equalityI) (use assms in \<open>auto simp: get_bytes_def nth_put_bytes\<close>)

lemma get_bytes_split:
  "get_bytes (m + n) buf off = get_bytes m buf off @ get_bytes n buf (off + m)"
  by (simp add: get_bytes_def take_add add.commute)

lemma get_bytes_get_bytes:
  "off + n \<le> m \<Longrightarrow> get_bytes n (get_bytes m buf base) off = get_bytes n buf (base + off)"
  by (simp add: get_bytes_def drop_take min_def add.commute)

lemma get_bytes_replicate [simp]: "off + n \<le> m \<Longrightarrow> get_bytes n (replicate m x) off = replicate n x"
  by (simp add: get_bytes_def min_def)

lemma put_bytes_append:
  "put_bytes buf off (xs @ ys) = put_bytes (put_bytes buf off xs) (off + length xs) ys"
  by (induction xs arbitrary: buf off) auto

lemma put_bytes_twice_same:
  assumes "length src = length src'"
  shows "put_bytes (put_bytes buf off src) off src' = put_bytes buf off src'"
  by (rule nth_equalityI) (use assms in \<open>auto simp: nth_put_bytes\<close>)


declare put_bytes.simps(2) [simp del]

lemma get_bytes_take [simp]: "off + n \<le> m \<Longrightarrow> get_bytes n (take m buf) off = get_bytes n buf off"
  by (simp add: get_bytes_def drop_take min_def)

lemma drop_put_bytes [simp]:
  "off + length src \<le> n \<Longrightarrow> drop n (put_bytes buf off src) = drop n buf"
  by (rule nth_equalityI) (auto simp: nth_put_bytes)

lemma take_put_bytes [simp]: "n \<le> off \<Longrightarrow> take n (put_bytes buf off src) = take n buf"
  by (rule nth_equalityI) (auto simp: nth_put_bytes)

lemma get_bytes_drop [simp]: "get_bytes n (drop m buf) off = get_bytes n buf (m + off)"
  by (simp add: get_bytes_def add.commute)

text \<open>
  A wide structure is written as a run of fields at increasing offsets; \<open>laid_out lo fs hi\<close>
  says that the fields do not overlap and stay inside \<open>lo..hi\<close>.
\<close>

primrec put_fields :: "bytes \<Rightarrow> (nat \<times> bytes) list \<Rightarrow> bytes" where
  "put_fields buf [] = buf"
| "put_fields buf (f # fs) = put_fields (put_bytes buf (fst f) (snd f)) fs"

primrec laid_out :: "nat \<Rightarrow> (nat \<times> bytes) list \<Rightarrow> nat \<Rightarrow> bool" where
  "laid_out lo [] hi \<longleftrightarrow> lo \<le> hi"
| "laid_out lo (f # fs) hi \<longleftrightarrow> lo \<le> fst f \<and> laid_out (fst f + length (snd f)) fs hi"

lemma length_put_fields [simp]: "length (put_fields buf fs) = length buf"
  by (induction fs arbitrary: buf) auto

lemma laid_out_bounds: "laid_out lo fs hi \<Longrightarrow> lo \<le> hi"
  by (induction fs arbitrary: lo) fastforce+

lemma put_fields_below:
  "laid_out lo fs hi \<Longrightarrow> off + n \<le> lo \<Longrightarrow> get_bytes n (put_fields buf fs) off = get_bytes n buf off"
  by (induction fs arbitrary: lo buf) (auto simp: get_put_bytes_other)

lemma get_put_fields:
  assumes "laid_out lo fs hi" "hi \<le> length buf" "(off, src) \<in> set fs"
  shows "get_bytes (length src) (put_fields buf fs) off = src"
  using assms
proof (induction fs arbitrary: lo buf)
  case (Cons f fs)
  show ?case
  proof (cases "f = (off, src)")
    case True
    with Cons.prems laid_out_bounds [of "off + length src" fs hi] show ?thesis
      using put_fields_below [of "off + length src" fs hi off "length src" "put_bytes buf off src"]
      by (simp add: get_put_bytes_same)
  next
    case False
    with Cons show ?thesis by auto
  qed
qed simp

definition write_slice :: "nat \<Rightarrow> (bytes \<Rightarrow> bytes option) \<Rightarrow> nat \<Rightarrow> bytes \<Rightarrow> bytes option" where
  "write_slice n w off buf =
     (if off + n \<le> length buf then map_option (put_bytes buf off) (w (get_bytes n buf off)) else None)"

primrec write_table ::
  "nat \<Rightarrow> ('a \<Rightarrow> bytes \<Rightarrow> bytes option) \<Rightarrow> nat \<Rightarrow> 'a list \<Rightarrow> bytes \<Rightarrow> bytes option" where
  "write_table n w off [] buf = Some buf"
| "write_table n w off (x # xs) buf =
     (case write_slice n (w x) off buf of None \<Rightarrow> None | Some buf' \<Rightarrow> write_table n w (off + n) xs buf')"

subsection \<open>The interface of an on-disk structure\<close>

text \<open>
  A structure of \<open>SIZE\<close> bytes is written into the front of a buffer and read back from it.
  \<open>wf\<close> is the type invariant of its array fields, which are lists in the model.
\<close>

locale codec =
  fixes SIZE :: nat
    and wf :: "'a \<Rightarrow> bool"
    and write_to :: "'a \<Rightarrow> bytes \<Rightarrow> bytes option"
    and read_from :: "bytes \<Rightarrow> 'a option"
  assumes write_short: "length buf < SIZE \<Longrightarrow> write_to x buf = None"
    and write_total: "wf x \<Longrightarrow> SIZE \<le> length buf \<Longrightarrow> \<exists>buf'. write_to x buf = Some buf'"
    and write_length: "write_to x buf = Some buf' \<Longrightarrow> length buf' = length buf"
    and write_frame: "wf x \<Longrightarrow> write_to x buf = Some buf' \<Longrightarrow> drop SIZE buf' = drop SIZE buf"
    and read_short: "length buf < SIZE \<Longrightarrow> read_from buf = None"
    and read_prefix: "SIZE \<le> length buf \<Longrightarrow> read_from (take SIZE buf) = read_from buf"
    and read_wf: "read_from buf = Some x \<Longrightarrow> wf x"
    and roundtrip: "wf x \<Longrightarrow> write_to x buf = Some buf' \<Longrightarrow> read_from buf' = Some x"
begin

lemma read_cong:
  assumes "get_bytes SIZE buf off = get_bytes SIZE buf' off'"
    and "off + SIZE \<le> length buf" "off' + SIZE \<le> length buf'"
  shows "read_from (drop off buf) = read_from (drop off' buf')"
  using assms read_prefix [of "drop off buf"] read_prefix [of "drop off' buf'"]
  by (simp add: get_bytes_def)

lemma write_slice_total:
  assumes "wf x" "off + SIZE \<le> length buf"
  shows "\<exists>buf'. write_slice SIZE (write_to x) off buf = Some buf'"
  using assms write_total [of x "get_bytes SIZE buf off"] by (auto simp: write_slice_def)

lemma write_slice_ok:
  assumes "wf x" "write_slice SIZE (write_to x) off buf = Some buf'"
  shows "length buf' = length buf"
    and "read_from (drop off buf') = Some x"
    and "\<And>n o'. o' + n \<le> off \<or> off + SIZE \<le> o' \<Longrightarrow> get_bytes n buf' o' = get_bytes n buf o'"
proof -
  from assms(2) obtain s where len: "off + SIZE \<le> length buf"
    and s: "write_to x (get_bytes SIZE buf off) = Some s" and buf': "buf' = put_bytes buf off s"
    by (auto simp: write_slice_def split: if_splits)
  from s len have ls: "length s = SIZE" by (simp add: write_length)
  show "length buf' = length buf" by (simp add: buf')
  show "read_from (drop off buf') = Some x"
    using read_cong [of s 0 buf' off] ls len roundtrip [OF assms(1) s]
    by (simp add: buf' get_put_bytes_same) (simp add: get_bytes_def)
  show "\<And>n o'. o' + n \<le> off \<or> off + SIZE \<le> o' \<Longrightarrow> get_bytes n buf' o' = get_bytes n buf o'"
    by (simp add: buf' get_put_bytes_other ls)
qed

lemma write_table_total:
  assumes "list_all wf xs" "off + length xs * SIZE \<le> length buf"
  shows "\<exists>buf'. write_table SIZE write_to off xs buf = Some buf'"
  using assms
proof (induction xs arbitrary: off buf)
  case (Cons x xs)
  then obtain b where b: "write_slice SIZE (write_to x) off buf = Some b"
    using write_slice_total [of x off buf] by auto
  with Cons.prems have "length b = length buf" using write_slice_ok(1) by auto
  with Cons b show ?case by (simp add: algebra_simps)
qed simp

lemma write_table_ok:
  assumes "list_all wf xs" "write_table SIZE write_to off xs buf = Some buf'"
  shows "length buf' = length buf"
    and "\<And>n o'. o' + n \<le> off \<or> off + length xs * SIZE \<le> o' \<Longrightarrow>
           get_bytes n buf' o' = get_bytes n buf o'"
    and "\<And>i. i < length xs \<Longrightarrow> read_from (drop (off + i * SIZE) buf') = Some (xs ! i)"
proof -
  have "length buf' = length buf \<and>
    (\<forall>n o'. o' + n \<le> off \<or> off + length xs * SIZE \<le> o' \<longrightarrow> get_bytes n buf' o' = get_bytes n buf o') \<and>
    (\<forall>i < length xs. read_from (drop (off + i * SIZE) buf') = Some (xs ! i))"
    using assms
  proof (induction xs arbitrary: off buf)
    case (Cons x xs)
    then obtain b where b: "write_slice SIZE (write_to x) off buf = Some b"
      and r: "write_table SIZE write_to (off + SIZE) xs b = Some buf'"
      by (auto split: option.splits)
    from Cons.prems(1) have wf: "wf x" "list_all wf xs" by auto
    note IH = Cons.IH [OF wf(2) r] and S = write_slice_ok [OF wf(1) b]
    have fit: "off + SIZE \<le> length b"
      using b S(1) by (auto simp: write_slice_def split: if_splits)
    have "read_from (drop off buf') = read_from (drop off b)"
      using IH fit by (intro read_cong) (auto simp: S(1))
    then have hd: "read_from (drop off buf') = Some x" using S(2) by simp
    have "read_from (drop (off + i * SIZE) buf') = Some ((x # xs) ! i)"
      if "i < length (x # xs)" for i
      using that IH hd by (cases i) (auto simp: add.assoc)
    with IH S show ?case by (auto simp: algebra_simps)
  qed simp
  then show "length buf' = length buf"
    and "\<And>n o'. o' + n \<le> off \<or> off + length xs * SIZE \<le> o' \<Longrightarrow>
           get_bytes n buf' o' = get_bytes n buf o'"
    and "\<And>i. i < length xs \<Longrightarrow> read_from (drop (off + i * SIZE) buf') = Some (xs ! i)"
    by auto
qed

end

end
