(* ===== verification/Ext4_Types.thy ===== *)
theory Ext4_Types
  imports Prelude
begin

text \<open>
  \<open>common/ext4/src/types.rs\<close> and \<open>constants.rs\<close>: the on-disk structures of an ext4 image,
  apart from the superblock (theory \<open>Ext4_Superblock\<close>).  Each structure is a record with the
  fields of the source, \<open>T_write_to\<close> performs the source's writes in their order, and
  \<open>T_read_from\<close> reads the same offsets.  Every structure is a \<open>codec\<close>.
\<close>

section \<open>Constants\<close>

definition SUPERBLOCK_MAGIC :: u16 where "SUPERBLOCK_MAGIC = 0xEF53"
definition EXTENT_HEADER_MAGIC :: u16 where "EXTENT_HEADER_MAGIC = 0xF30A"
definition ROOT_INODE :: u32 where "ROOT_INODE = 2"
definition FIRST_INODE :: u32 where "FIRST_INODE = 11"
definition LOST_AND_FOUND_INODE :: u32 where "LOST_AND_FOUND_INODE = 11"
definition INODE_ACTUAL_SIZE :: u32 where "INODE_ACTUAL_SIZE = 160"
definition INODE_EXTRA_SIZE :: u32 where "INODE_EXTRA_SIZE = 96"
definition INODE_SIZE :: u32 where "INODE_SIZE = 256"
definition EXTRA_ISIZE :: u16 where "EXTRA_ISIZE = ucast (INODE_ACTUAL_SIZE - 128)"
definition MAX_LINKS :: u32 where "MAX_LINKS = 65000"
definition EXT4_NAME_LEN :: nat where "EXT4_NAME_LEN = 255"
definition MAX_BLOCKS_PER_EXTENT :: u32 where "MAX_BLOCKS_PER_EXTENT = 0x8000"
definition MAX_FILE_SIZE :: u64 where "MAX_FILE_SIZE = 128 * 1024 * 1024 * 1024"
definition INODE_BLOCK_SIZE :: nat where "INODE_BLOCK_SIZE = 60"

definition HUGE_FILE_flag :: u32 where "HUGE_FILE_flag = 0x40000"
definition EXTENTS_flag :: u32 where "EXTENTS_flag = 0x80000"
definition INODE_UNINIT :: u16 where "INODE_UNINIT = 0x1"
definition BLOCK_UNINIT :: u16 where "BLOCK_UNINIT = 0x2"

definition S_IFIFO :: u16 where "S_IFIFO = 0x1000"
definition S_IFCHR :: u16 where "S_IFCHR = 0x2000"
definition S_IFDIR :: u16 where "S_IFDIR = 0x4000"
definition S_IFBLK :: u16 where "S_IFBLK = 0x6000"
definition S_IFREG :: u16 where "S_IFREG = 0x8000"
definition S_IFLNK :: u16 where "S_IFLNK = 0xA000"
definition S_IFSOCK :: u16 where "S_IFSOCK = 0xC000"
definition TYPE_MASK :: u16 where "TYPE_MASK = 0xF000"

lemmas mode_defs = S_IFIFO_def S_IFCHR_def S_IFDIR_def S_IFBLK_def S_IFREG_def S_IFLNK_def
  S_IFSOCK_def TYPE_MASK_def

datatype FileType =
    Unknown | Regular | Directory | Character | Block | Fifo | Socket | SymbolicLink

primrec FileType_code :: "FileType \<Rightarrow> u8" where
  "FileType_code Unknown = 0"
| "FileType_code Regular = 1"
| "FileType_code Directory = 2"
| "FileType_code Character = 3"
| "FileType_code Block = 4"
| "FileType_code Fifo = 5"
| "FileType_code Socket = 6"
| "FileType_code SymbolicLink = 7"

definition from_mode :: "u16 \<Rightarrow> FileType" where
  "from_mode mode =
     (let t = mode AND TYPE_MASK in
      if t = S_IFREG then Regular
      else if t = S_IFDIR then Directory
      else if t = S_IFCHR then Character
      else if t = S_IFBLK then Block
      else if t = S_IFIFO then Fifo
      else if t = S_IFSOCK then Socket
      else if t = S_IFLNK then SymbolicLink
      else Unknown)"

definition make_mode :: "u16 \<Rightarrow> u16 \<Rightarrow> u16" where
  "make_mode file_type perm = file_type OR perm"

definition is_dir :: "u16 \<Rightarrow> bool" where
  "is_dir mode \<longleftrightarrow> mode AND TYPE_MASK = S_IFDIR"

definition is_reg :: "u16 \<Rightarrow> bool" where
  "is_reg mode \<longleftrightarrow> mode AND TYPE_MASK = S_IFREG"

definition is_link :: "u16 \<Rightarrow> bool" where
  "is_link mode \<longleftrightarrow> mode AND TYPE_MASK = S_IFLNK"

section \<open>Little-endian accessors\<close>

definition get_u8 :: "bytes \<Rightarrow> nat \<Rightarrow> u8" where
  "get_u8 buf off = of_le (get_bytes 1 buf off)"

definition put_u8 :: "bytes \<Rightarrow> nat \<Rightarrow> u8 \<Rightarrow> bytes" where
  "put_u8 buf off v = put_bytes buf off (le_bytes 1 v)"

definition get_u16 :: "bytes \<Rightarrow> nat \<Rightarrow> u16" where
  "get_u16 buf off = of_le (get_bytes 2 buf off)"

definition put_u16 :: "bytes \<Rightarrow> nat \<Rightarrow> u16 \<Rightarrow> bytes" where
  "put_u16 buf off v = put_bytes buf off (le_bytes 2 v)"

definition get_u32 :: "bytes \<Rightarrow> nat \<Rightarrow> u32" where
  "get_u32 buf off = of_le (get_bytes 4 buf off)"

definition put_u32 :: "bytes \<Rightarrow> nat \<Rightarrow> u32 \<Rightarrow> bytes" where
  "put_u32 buf off v = put_bytes buf off (le_bytes 4 v)"

definition get_u64 :: "bytes \<Rightarrow> nat \<Rightarrow> u64" where
  "get_u64 buf off = of_le (get_bytes 8 buf off)"

definition put_u64 :: "bytes \<Rightarrow> nat \<Rightarrow> u64 \<Rightarrow> bytes" where
  "put_u64 buf off v = put_bytes buf off (le_bytes 8 v)"

text \<open>The loops that read and write an array of 32-bit words.\<close>

definition get_u32s :: "nat \<Rightarrow> bytes \<Rightarrow> nat \<Rightarrow> u32 list" where
  "get_u32s n buf off = map (\<lambda>i. get_u32 buf (off + i * 4)) [0..<n]"

primrec put_u32s :: "bytes \<Rightarrow> nat \<Rightarrow> u32 list \<Rightarrow> bytes" where
  "put_u32s buf off [] = buf"
| "put_u32s buf off (v # vs) = put_u32s (put_u32 buf off v) (off + 4) vs"

lemma length_get_u32s [simp]: "length (get_u32s n buf off) = n"
  by (simp add: get_u32s_def)

lemma get_u8_nth: "off < length buf \<Longrightarrow> get_u8 buf off = buf ! off"
  by (simp add: get_u8_def get_bytes_def take_Suc_conv_app_nth hd_drop_conv_nth take_Suc)

lemma put_u8_update: "put_u8 buf off v = buf[off := v]"
  by (simp add: put_u8_def put_bytes.simps)

lemma of_le_le_bytes_full [simp]:
  "of_le (le_bytes (Suc 0) w) = (w :: u8)"
  "of_le (le_bytes 2 v) = (v :: u16)"
  "of_le (le_bytes 4 x) = (x :: u32)"
  "of_le (le_bytes 8 y) = (y :: u64)"
  using of_le_le_bytes [of "Suc 0" w] of_le_le_bytes [of 2 v] of_le_le_bytes [of 4 x]
    of_le_le_bytes [of 8 y]
  by (simp_all add: take_bit_word_eq_self)

lemma put_u32s_bytes: "put_u32s buf off vs = put_bytes buf off (concat (map (le_bytes 4) vs))"
proof (induction vs arbitrary: buf off)
  case (Cons v vs)
  then show ?case by (simp add: put_u32_def put_bytes_append)
qed simp

lemma length_concat_le4 [simp]: "length (concat (map (le_bytes 4) vs)) = 4 * length vs"
  by (induction vs) auto

lemma get_bytes_concat_le4:
  "i < length vs \<Longrightarrow> get_bytes 4 (concat (map (le_bytes 4) vs)) (i * 4) = le_bytes 4 (vs ! i)"
proof (induction vs arbitrary: i)
  case (Cons v vs)
  then show ?case by (cases i) (auto simp: get_bytes_def)
qed simp

lemma get_u32s_of_bytes:
  assumes "get_bytes (4 * length vs) buf off = concat (map (le_bytes 4) vs)"
  shows "get_u32s (length vs) buf off = vs"
proof (rule nth_equalityI)
  fix i assume "i < length (get_u32s (length vs) buf off)"
  then have i: "i < length vs" by simp
  have "get_bytes 4 buf (off + i * 4) = get_bytes 4 (get_bytes (4 * length vs) buf off) (i * 4)"
    using i by (simp add: get_bytes_get_bytes)
  also have "\<dots> = le_bytes 4 (vs ! i)"
    unfolding assms by (rule get_bytes_concat_le4 [OF i])
  finally show "get_u32s (length vs) buf off ! i = vs ! i"
    using i by (simp add: get_u32s_def get_u32_def)
qed simp

lemma get_put_u32s_same [buf_simps]:
  "off + 4 * length vs \<le> length buf \<Longrightarrow> n = length vs \<Longrightarrow>
     get_u32s n (put_bytes buf off (concat (map (le_bytes 4) vs))) off = vs"
  by (simp add: get_u32s_of_bytes get_put_bytes_same)

lemma get_put_u32s_other [buf_simps]:
  assumes "off' + 4 * n \<le> off \<or> off + length src \<le> off'"
  shows "get_u32s n (put_bytes buf off src) off' = get_u32s n buf off'"
proof -
  have "get_bytes 4 (put_bytes buf off src) (off' + i * 4) = get_bytes 4 buf (off' + i * 4)"
    if "i < n" for i
    using assms that by (intro get_put_bytes_other) auto
  then show ?thesis by (simp add: get_u32s_def get_u32_def)
qed

lemma get_u32s_take [simp]: "off + 4 * n \<le> m \<Longrightarrow> get_u32s n (take m buf) off = get_u32s n buf off"
  by (auto simp: get_u32s_def get_u32_def)

lemmas acc_defs = get_u8_def put_u8_def get_u16_def put_u16_def get_u32_def put_u32_def
  get_u64_def put_u64_def put_u32s_bytes

section \<open>GroupDescriptor\<close>

record GroupDescriptor =
  gd_block_bitmap_lo :: u32
  gd_inode_bitmap_lo :: u32
  gd_inode_table_lo :: u32
  gd_free_blocks_count_lo :: u16
  gd_free_inodes_count_lo :: u16
  gd_used_dirs_count_lo :: u16
  gd_flags :: u16
  gd_exclude_bitmap_lo :: u32
  gd_block_bitmap_csum_lo :: u16
  gd_inode_bitmap_csum_lo :: u16
  gd_itable_unused_lo :: u16
  gd_checksum :: u16

definition GroupDescriptor_SIZE :: nat where
  "GroupDescriptor_SIZE = 32"

definition GroupDescriptor_read_from :: "bytes \<Rightarrow> GroupDescriptor option" where
  "GroupDescriptor_read_from buf =
     (if length buf < GroupDescriptor_SIZE then None
      else Some \<lparr>
        gd_block_bitmap_lo = get_u32 buf 0x00,
        gd_inode_bitmap_lo = get_u32 buf 0x04,
        gd_inode_table_lo = get_u32 buf 0x08,
        gd_free_blocks_count_lo = get_u16 buf 0x0C,
        gd_free_inodes_count_lo = get_u16 buf 0x0E,
        gd_used_dirs_count_lo = get_u16 buf 0x10,
        gd_flags = get_u16 buf 0x12,
        gd_exclude_bitmap_lo = get_u32 buf 0x14,
        gd_block_bitmap_csum_lo = get_u16 buf 0x18,
        gd_inode_bitmap_csum_lo = get_u16 buf 0x1A,
        gd_itable_unused_lo = get_u16 buf 0x1C,
        gd_checksum = get_u16 buf 0x1E\<rparr>)"

definition GroupDescriptor_write_to :: "GroupDescriptor \<Rightarrow> bytes \<Rightarrow> bytes option" where
  "GroupDescriptor_write_to x buf =
     (if length buf < GroupDescriptor_SIZE then None
      else
        let buf = put_bytes buf 0 (replicate GroupDescriptor_SIZE 0);
            buf = put_u32 buf 0x00 (gd_block_bitmap_lo x);
            buf = put_u32 buf 0x04 (gd_inode_bitmap_lo x);
            buf = put_u32 buf 0x08 (gd_inode_table_lo x);
            buf = put_u16 buf 0x0C (gd_free_blocks_count_lo x);
            buf = put_u16 buf 0x0E (gd_free_inodes_count_lo x);
            buf = put_u16 buf 0x10 (gd_used_dirs_count_lo x);
            buf = put_u16 buf 0x12 (gd_flags x);
            buf = put_u32 buf 0x14 (gd_exclude_bitmap_lo x);
            buf = put_u16 buf 0x18 (gd_block_bitmap_csum_lo x);
            buf = put_u16 buf 0x1A (gd_inode_bitmap_csum_lo x);
            buf = put_u16 buf 0x1C (gd_itable_unused_lo x);
            buf = put_u16 buf 0x1E (gd_checksum x)
        in Some buf)"

lemmas GroupDescriptor_codec_defs =
  GroupDescriptor_read_from_def GroupDescriptor_write_to_def
  GroupDescriptor_SIZE_def acc_defs Let_def

interpretation gd_codec: codec GroupDescriptor_SIZE "\<lambda>_. True"
  GroupDescriptor_write_to GroupDescriptor_read_from
  by unfold_locales (auto simp: GroupDescriptor_codec_defs buf_simps split: if_splits)

section \<open>Inode\<close>

record Inode =
  i_mode :: u16
  i_uid :: u16
  i_size_lo :: u32
  i_atime :: u32
  i_ctime :: u32
  i_mtime :: u32
  i_dtime :: u32
  i_gid :: u16
  i_links_count :: u16
  i_blocks_lo :: u32
  i_flags :: u32
  i_version :: u32
  i_block :: bytes
  i_generation :: u32
  i_xattr_block_lo :: u32
  i_size_hi :: u32
  i_obsolete_fragment_addr :: u32
  i_blocks_hi :: u16
  i_xattr_block_hi :: u16
  i_uid_hi :: u16
  i_gid_hi :: u16
  i_checksum_lo :: u16
  i_reserved :: u16
  i_extra_isize :: u16
  i_checksum_hi :: u16
  i_ctime_extra :: u32
  i_mtime_extra :: u32
  i_atime_extra :: u32
  i_crtime :: u32
  i_crtime_extra :: u32
  i_version_hi :: u32
  i_projid :: u32
  i_inline_xattrs :: bytes

definition Inode_SIZE :: nat where
  "Inode_SIZE = 256"

definition wf_Inode :: "Inode \<Rightarrow> bool" where
  "wf_Inode x \<longleftrightarrow> length (i_block x) = 60 \<and>
     length (i_inline_xattrs x) = 96"

definition Inode_read_from :: "bytes \<Rightarrow> Inode option" where
  "Inode_read_from buf =
     (if length buf < Inode_SIZE then None
      else Some \<lparr>
        i_mode = get_u16 buf 0x00,
        i_uid = get_u16 buf 0x02,
        i_size_lo = get_u32 buf 0x04,
        i_atime = get_u32 buf 0x08,
        i_ctime = get_u32 buf 0x0C,
        i_mtime = get_u32 buf 0x10,
        i_dtime = get_u32 buf 0x14,
        i_gid = get_u16 buf 0x18,
        i_links_count = get_u16 buf 0x1A,
        i_blocks_lo = get_u32 buf 0x1C,
        i_flags = get_u32 buf 0x20,
        i_version = get_u32 buf 0x24,
        i_block = get_bytes 60 buf 0x28,
        i_generation = get_u32 buf 0x64,
        i_xattr_block_lo = get_u32 buf 0x68,
        i_size_hi = get_u32 buf 0x6C,
        i_obsolete_fragment_addr = get_u32 buf 0x70,
        i_blocks_hi = get_u16 buf 0x74,
        i_xattr_block_hi = get_u16 buf 0x76,
        i_uid_hi = get_u16 buf 0x78,
        i_gid_hi = get_u16 buf 0x7A,
        i_checksum_lo = get_u16 buf 0x7C,
        i_reserved = get_u16 buf 0x7E,
        i_extra_isize = get_u16 buf 0x80,
        i_checksum_hi = get_u16 buf 0x82,
        i_ctime_extra = get_u32 buf 0x84,
        i_mtime_extra = get_u32 buf 0x88,
        i_atime_extra = get_u32 buf 0x8C,
        i_crtime = get_u32 buf 0x90,
        i_crtime_extra = get_u32 buf 0x94,
        i_version_hi = get_u32 buf 0x98,
        i_projid = get_u32 buf 0x9C,
        i_inline_xattrs = get_bytes 96 buf 160\<rparr>)"

definition Inode_write_to :: "Inode \<Rightarrow> bytes \<Rightarrow> bytes option" where
  "Inode_write_to x buf =
     (if length buf < Inode_SIZE then None
      else
        let buf = put_bytes buf 0 (replicate Inode_SIZE 0);
            buf = put_u16 buf 0x00 (i_mode x);
            buf = put_u16 buf 0x02 (i_uid x);
            buf = put_u32 buf 0x04 (i_size_lo x);
            buf = put_u32 buf 0x08 (i_atime x);
            buf = put_u32 buf 0x0C (i_ctime x);
            buf = put_u32 buf 0x10 (i_mtime x);
            buf = put_u32 buf 0x14 (i_dtime x);
            buf = put_u16 buf 0x18 (i_gid x);
            buf = put_u16 buf 0x1A (i_links_count x);
            buf = put_u32 buf 0x1C (i_blocks_lo x);
            buf = put_u32 buf 0x20 (i_flags x);
            buf = put_u32 buf 0x24 (i_version x);
            buf = put_bytes buf 0x28 (i_block x);
            buf = put_u32 buf 0x64 (i_generation x);
            buf = put_u32 buf 0x68 (i_xattr_block_lo x);
            buf = put_u32 buf 0x6C (i_size_hi x);
            buf = put_u32 buf 0x70 (i_obsolete_fragment_addr x);
            buf = put_u16 buf 0x74 (i_blocks_hi x);
            buf = put_u16 buf 0x76 (i_xattr_block_hi x);
            buf = put_u16 buf 0x78 (i_uid_hi x);
            buf = put_u16 buf 0x7A (i_gid_hi x);
            buf = put_u16 buf 0x7C (i_checksum_lo x);
            buf = put_u16 buf 0x7E (i_reserved x);
            buf = put_u16 buf 0x80 (i_extra_isize x);
            buf = put_u16 buf 0x82 (i_checksum_hi x);
            buf = put_u32 buf 0x84 (i_ctime_extra x);
            buf = put_u32 buf 0x88 (i_mtime_extra x);
            buf = put_u32 buf 0x8C (i_atime_extra x);
            buf = put_u32 buf 0x90 (i_crtime x);
            buf = put_u32 buf 0x94 (i_crtime_extra x);
            buf = put_u32 buf 0x98 (i_version_hi x);
            buf = put_u32 buf 0x9C (i_projid x);
            buf = put_bytes buf 160 (i_inline_xattrs x)
        in Some buf)"

lemmas Inode_codec_defs =
  Inode_read_from_def Inode_write_to_def
  Inode_SIZE_def wf_Inode_def acc_defs Let_def

interpretation ino_codec: codec Inode_SIZE "wf_Inode"
  Inode_write_to Inode_read_from
  by unfold_locales (auto simp: Inode_codec_defs buf_simps split: if_splits)

definition Inode_default :: Inode where
  "Inode_default = \<lparr>
     i_mode = 0, i_uid = 0, i_size_lo = 0, i_atime = 0, i_ctime = 0, i_mtime = 0, i_dtime = 0,
     i_gid = 0, i_links_count = 0, i_blocks_lo = 0, i_flags = 0, i_version = 0,
     i_block = replicate 60 0, i_generation = 0, i_xattr_block_lo = 0, i_size_hi = 0,
     i_obsolete_fragment_addr = 0, i_blocks_hi = 0, i_xattr_block_hi = 0, i_uid_hi = 0,
     i_gid_hi = 0, i_checksum_lo = 0, i_reserved = 0, i_extra_isize = 0, i_checksum_hi = 0,
     i_ctime_extra = 0, i_mtime_extra = 0, i_atime_extra = 0, i_crtime = 0, i_crtime_extra = 0,
     i_version_hi = 0, i_projid = 0, i_inline_xattrs = replicate 96 0\<rparr>"

text \<open>
  \<open>timestamp_now\<close> for a wall clock that reads \<open>secs\<close> seconds and \<open>nanos\<close> nanoseconds past
  the epoch: the low word of the seconds, and two epoch bits below the nanoseconds.
\<close>

definition timestamp_now :: "u64 \<Rightarrow> u32 \<Rightarrow> u32 \<times> u32" where
  "timestamp_now secs nanos =
     (let lo = ucast secs;
          epoch_bits = ucast (drop_bit 32 secs AND 0x3);
          extra = epoch_bits OR push_bit 2 nanos
      in (lo, extra))"

text \<open>Octal permission bits of the source are written in hex: \<open>0o755\<close> is \<open>0x1ED\<close>.\<close>

definition root_inode :: "u32 \<times> u32 \<Rightarrow> Inode" where
  "root_inode now =
     (let (time_lo, time_extra) = now in
      Inode_default\<lparr>
        i_mode := S_IFDIR OR 0x1ED, i_links_count := 2, i_flags := HUGE_FILE_flag,
        i_extra_isize := EXTRA_ISIZE,
        i_atime := time_lo, i_ctime := time_lo, i_mtime := time_lo, i_crtime := time_lo,
        i_atime_extra := time_extra, i_ctime_extra := time_extra,
        i_mtime_extra := time_extra, i_crtime_extra := time_extra\<rparr>)"

definition Inode_is_dir :: "Inode \<Rightarrow> bool" where
  "Inode_is_dir x = is_dir (i_mode x)"

definition Inode_is_reg :: "Inode \<Rightarrow> bool" where
  "Inode_is_reg x = is_reg (i_mode x)"

definition Inode_is_link :: "Inode \<Rightarrow> bool" where
  "Inode_is_link x = is_link (i_mode x)"

definition file_size :: "Inode \<Rightarrow> u64" where
  "file_size x = ucast (i_size_lo x) OR push_bit 32 (ucast (i_size_hi x))"

definition set_file_size :: "Inode \<Rightarrow> u64 \<Rightarrow> Inode" where
  "set_file_size x sz = x\<lparr>i_size_lo := ucast sz, i_size_hi := ucast (drop_bit 32 sz)\<rparr>"

definition uid_full :: "Inode \<Rightarrow> u32" where
  "uid_full x = ucast (i_uid x) OR push_bit 16 (ucast (i_uid_hi x))"

definition gid_full :: "Inode \<Rightarrow> u32" where
  "gid_full x = ucast (i_gid x) OR push_bit 16 (ucast (i_gid_hi x))"

definition set_uid :: "Inode \<Rightarrow> u32 \<Rightarrow> Inode" where
  "set_uid x uid = x\<lparr>i_uid := ucast uid, i_uid_hi := ucast (drop_bit 16 uid)\<rparr>"

definition set_gid :: "Inode \<Rightarrow> u32 \<Rightarrow> Inode" where
  "set_gid x gid = x\<lparr>i_gid := ucast gid, i_gid_hi := ucast (drop_bit 16 gid)\<rparr>"

text \<open>A word is rebuilt from its low half and its high half.\<close>

lemma join_halves_u64: "ucast (ucast w :: u32) OR push_bit 32 (ucast (ucast (drop_bit 32 w) :: u32)) = (w :: u64)"
  by (rule bit_word_eqI) (auto simp: bit_simps)

lemma join_halves_u32: "ucast (ucast w :: u16) OR push_bit 16 (ucast (ucast (drop_bit 16 w) :: u16)) = (w :: u32)"
  by (rule bit_word_eqI) (auto simp: bit_simps)

lemma file_size_set [simp]: "file_size (set_file_size x sz) = sz"
  by (simp add: file_size_def set_file_size_def join_halves_u64)

lemma uid_full_set [simp]: "uid_full (set_uid x uid) = uid"
  by (simp add: uid_full_def set_uid_def join_halves_u32)

lemma gid_full_set [simp]: "gid_full (set_gid x gid) = gid"
  by (simp add: gid_full_def set_gid_def join_halves_u32)

lemma wf_Inode_intros [simp, intro]:
  "wf_Inode Inode_default"
  "wf_Inode (root_inode now)"
  "wf_Inode x \<Longrightarrow> wf_Inode (set_file_size x s)"
  "wf_Inode x \<Longrightarrow> wf_Inode (set_uid x u)"
  "wf_Inode x \<Longrightarrow> wf_Inode (set_gid x u)"
  by (simp_all add: wf_Inode_def Inode_default_def root_inode_def set_file_size_def set_uid_def
      set_gid_def split: prod.splits)

section \<open>ExtentHeader\<close>

record ExtentHeader =
  eh_magic :: u16
  eh_entries :: u16
  eh_max :: u16
  eh_depth :: u16
  eh_generation :: u32

definition ExtentHeader_SIZE :: nat where
  "ExtentHeader_SIZE = 12"

definition ExtentHeader_read_from :: "bytes \<Rightarrow> ExtentHeader option" where
  "ExtentHeader_read_from buf =
     (if length buf < ExtentHeader_SIZE then None
      else Some \<lparr>
        eh_magic = get_u16 buf 0,
        eh_entries = get_u16 buf 2,
        eh_max = get_u16 buf 4,
        eh_depth = get_u16 buf 6,
        eh_generation = get_u32 buf 8\<rparr>)"

definition ExtentHeader_write_to :: "ExtentHeader \<Rightarrow> bytes \<Rightarrow> bytes option" where
  "ExtentHeader_write_to x buf =
     (if length buf < ExtentHeader_SIZE then None
      else
        let buf = put_u16 buf 0 (eh_magic x);
            buf = put_u16 buf 2 (eh_entries x);
            buf = put_u16 buf 4 (eh_max x);
            buf = put_u16 buf 6 (eh_depth x);
            buf = put_u32 buf 8 (eh_generation x)
        in Some buf)"

lemmas ExtentHeader_codec_defs =
  ExtentHeader_read_from_def ExtentHeader_write_to_def
  ExtentHeader_SIZE_def acc_defs Let_def

interpretation eh_codec: codec ExtentHeader_SIZE "\<lambda>_. True"
  ExtentHeader_write_to ExtentHeader_read_from
  by unfold_locales (auto simp: ExtentHeader_codec_defs buf_simps split: if_splits)

section \<open>ExtentLeaf\<close>

record ExtentLeaf =
  el_block :: u32
  el_len :: u16
  el_start_hi :: u16
  el_start_lo :: u32

definition ExtentLeaf_SIZE :: nat where
  "ExtentLeaf_SIZE = 12"

definition ExtentLeaf_read_from :: "bytes \<Rightarrow> ExtentLeaf option" where
  "ExtentLeaf_read_from buf =
     (if length buf < ExtentLeaf_SIZE then None
      else Some \<lparr>
        el_block = get_u32 buf 0,
        el_len = get_u16 buf 4,
        el_start_hi = get_u16 buf 6,
        el_start_lo = get_u32 buf 8\<rparr>)"

definition ExtentLeaf_write_to :: "ExtentLeaf \<Rightarrow> bytes \<Rightarrow> bytes option" where
  "ExtentLeaf_write_to x buf =
     (if length buf < ExtentLeaf_SIZE then None
      else
        let buf = put_u32 buf 0 (el_block x);
            buf = put_u16 buf 4 (el_len x);
            buf = put_u16 buf 6 (el_start_hi x);
            buf = put_u32 buf 8 (el_start_lo x)
        in Some buf)"

lemmas ExtentLeaf_codec_defs =
  ExtentLeaf_read_from_def ExtentLeaf_write_to_def
  ExtentLeaf_SIZE_def acc_defs Let_def

interpretation el_codec: codec ExtentLeaf_SIZE "\<lambda>_. True"
  ExtentLeaf_write_to ExtentLeaf_read_from
  by unfold_locales (auto simp: ExtentLeaf_codec_defs buf_simps split: if_splits)

definition ExtentLeaf_start :: "ExtentLeaf \<Rightarrow> u64" where
  "ExtentLeaf_start x = ucast (el_start_lo x) OR push_bit 32 (ucast (el_start_hi x))"

section \<open>ExtentIndex\<close>

record ExtentIndex =
  ei_block :: u32
  ei_leaf_lo :: u32
  ei_leaf_hi :: u16
  ei_unused :: u16

definition ExtentIndex_SIZE :: nat where
  "ExtentIndex_SIZE = 12"

definition ExtentIndex_read_from :: "bytes \<Rightarrow> ExtentIndex option" where
  "ExtentIndex_read_from buf =
     (if length buf < ExtentIndex_SIZE then None
      else Some \<lparr>
        ei_block = get_u32 buf 0,
        ei_leaf_lo = get_u32 buf 4,
        ei_leaf_hi = get_u16 buf 8,
        ei_unused = get_u16 buf 10\<rparr>)"

definition ExtentIndex_write_to :: "ExtentIndex \<Rightarrow> bytes \<Rightarrow> bytes option" where
  "ExtentIndex_write_to x buf =
     (if length buf < ExtentIndex_SIZE then None
      else
        let buf = put_u32 buf 0 (ei_block x);
            buf = put_u32 buf 4 (ei_leaf_lo x);
            buf = put_u16 buf 8 (ei_leaf_hi x);
            buf = put_u16 buf 10 (ei_unused x)
        in Some buf)"

lemmas ExtentIndex_codec_defs =
  ExtentIndex_read_from_def ExtentIndex_write_to_def
  ExtentIndex_SIZE_def acc_defs Let_def

interpretation ei_codec: codec ExtentIndex_SIZE "\<lambda>_. True"
  ExtentIndex_write_to ExtentIndex_read_from
  by unfold_locales (auto simp: ExtentIndex_codec_defs buf_simps split: if_splits)

definition ExtentIndex_leaf :: "ExtentIndex \<Rightarrow> u64" where
  "ExtentIndex_leaf x = ucast (ei_leaf_lo x) OR push_bit 32 (ucast (ei_leaf_hi x))"

section \<open>ExtentTail\<close>

record ExtentTail =
  et_checksum :: u32

definition ExtentTail_SIZE :: nat where
  "ExtentTail_SIZE = 4"

definition ExtentTail_read_from :: "bytes \<Rightarrow> ExtentTail option" where
  "ExtentTail_read_from buf =
     (if length buf < ExtentTail_SIZE then None
      else Some \<lparr>
        et_checksum = get_u32 buf 0\<rparr>)"

definition ExtentTail_write_to :: "ExtentTail \<Rightarrow> bytes \<Rightarrow> bytes option" where
  "ExtentTail_write_to x buf =
     (if length buf < ExtentTail_SIZE then None
      else
        let buf = put_u32 buf 0 (et_checksum x)
        in Some buf)"

lemmas ExtentTail_codec_defs =
  ExtentTail_read_from_def ExtentTail_write_to_def
  ExtentTail_SIZE_def acc_defs Let_def

interpretation et_codec: codec ExtentTail_SIZE "\<lambda>_. True"
  ExtentTail_write_to ExtentTail_read_from
  by unfold_locales (auto simp: ExtentTail_codec_defs buf_simps split: if_splits)

section \<open>DirectoryEntry\<close>

record DirectoryEntry =
  de_inode :: u32
  de_rec_len :: u16
  de_name_len :: u8
  de_file_type :: u8

definition DirectoryEntry_SIZE :: nat where
  "DirectoryEntry_SIZE = 8"

definition DirectoryEntry_read_from :: "bytes \<Rightarrow> DirectoryEntry option" where
  "DirectoryEntry_read_from buf =
     (if length buf < DirectoryEntry_SIZE then None
      else Some \<lparr>
        de_inode = get_u32 buf 0,
        de_rec_len = get_u16 buf 4,
        de_name_len = get_u8 buf 6,
        de_file_type = get_u8 buf 7\<rparr>)"

definition DirectoryEntry_write_to :: "DirectoryEntry \<Rightarrow> bytes \<Rightarrow> bytes option" where
  "DirectoryEntry_write_to x buf =
     (if length buf < DirectoryEntry_SIZE then None
      else
        let buf = put_u32 buf 0 (de_inode x);
            buf = put_u16 buf 4 (de_rec_len x);
            buf = put_u8 buf 6 (de_name_len x);
            buf = put_u8 buf 7 (de_file_type x)
        in Some buf)"

lemmas DirectoryEntry_codec_defs =
  DirectoryEntry_read_from_def DirectoryEntry_write_to_def
  DirectoryEntry_SIZE_def acc_defs Let_def

interpretation de_codec: codec DirectoryEntry_SIZE "\<lambda>_. True"
  DirectoryEntry_write_to DirectoryEntry_read_from
  by unfold_locales (auto simp: DirectoryEntry_codec_defs buf_simps split: if_splits)

section \<open>XAttrEntry\<close>

record XAttrEntry =
  xe_name_len :: u8
  xe_name_index :: u8
  xe_value_offset :: u16
  xe_value_inum :: u32
  xe_value_size :: u32
  xe_hash :: u32

definition XAttrEntry_SIZE :: nat where
  "XAttrEntry_SIZE = 16"

definition XAttrEntry_read_from :: "bytes \<Rightarrow> XAttrEntry option" where
  "XAttrEntry_read_from buf =
     (if length buf < XAttrEntry_SIZE then None
      else Some \<lparr>
        xe_name_len = get_u8 buf 0,
        xe_name_index = get_u8 buf 1,
        xe_value_offset = get_u16 buf 2,
        xe_value_inum = get_u32 buf 4,
        xe_value_size = get_u32 buf 8,
        xe_hash = get_u32 buf 12\<rparr>)"

definition XAttrEntry_write_to :: "XAttrEntry \<Rightarrow> bytes \<Rightarrow> bytes option" where
  "XAttrEntry_write_to x buf =
     (if length buf < XAttrEntry_SIZE then None
      else
        let buf = put_u8 buf 0 (xe_name_len x);
            buf = put_u8 buf 1 (xe_name_index x);
            buf = put_u16 buf 2 (xe_value_offset x);
            buf = put_u32 buf 4 (xe_value_inum x);
            buf = put_u32 buf 8 (xe_value_size x);
            buf = put_u32 buf 12 (xe_hash x)
        in Some buf)"

lemmas XAttrEntry_codec_defs =
  XAttrEntry_read_from_def XAttrEntry_write_to_def
  XAttrEntry_SIZE_def acc_defs Let_def

interpretation xe_codec: codec XAttrEntry_SIZE "\<lambda>_. True"
  XAttrEntry_write_to XAttrEntry_read_from
  by unfold_locales (auto simp: XAttrEntry_codec_defs buf_simps split: if_splits)

end
