(* ===== verification/Ext4_Superblock.thy ===== *)
theory Ext4_Superblock
  imports Ext4_Types
begin

text \<open>
  The 1024-byte superblock of \<open>common/ext4/src/types.rs\<close>: all fields of the source, the
  default value, and the reads and writes of \<open>SuperBlock::read_from\<close> and
  \<open>SuperBlock::write_to\<close>.
\<close>

record SuperBlock =
  sb_inodes_count :: u32
  sb_blocks_count_lo :: u32
  sb_r_blocks_count_lo :: u32
  sb_free_blocks_count_lo :: u32
  sb_free_inodes_count :: u32
  sb_first_data_block :: u32
  sb_log_block_size :: u32
  sb_log_cluster_size :: u32
  sb_blocks_per_group :: u32
  sb_clusters_per_group :: u32
  sb_inodes_per_group :: u32
  sb_mtime :: u32
  sb_wtime :: u32
  sb_mount_count :: u16
  sb_max_mount_count :: u16
  sb_magic :: u16
  sb_state :: u16
  sb_errors :: u16
  sb_minor_rev_level :: u16
  sb_lastcheck :: u32
  sb_check_interval :: u32
  sb_creator_os :: u32
  sb_rev_level :: u32
  sb_def_resuid :: u16
  sb_def_resgid :: u16
  sb_first_ino :: u32
  sb_inode_size :: u16
  sb_block_group_nr :: u16
  sb_feature_compat :: u32
  sb_feature_incompat :: u32
  sb_feature_ro_compat :: u32
  sb_uuid :: bytes
  sb_volume_name :: bytes
  sb_last_mounted :: bytes
  sb_algorithm_usage_bitmap :: u32
  sb_prealloc_blocks :: u8
  sb_prealloc_dir_blocks :: u8
  sb_reserved_gdt_blocks :: u16
  sb_journal_uuid :: bytes
  sb_journal_inum :: u32
  sb_journal_dev :: u32
  sb_last_orphan :: u32
  sb_hash_seed :: "u32 list"
  sb_def_hash_version :: u8
  sb_journal_backup_type :: u8
  sb_desc_size :: u16
  sb_default_mount_opts :: u32
  sb_first_meta_bg :: u32
  sb_mkfs_time :: u32
  sb_journal_blocks :: "u32 list"
  sb_blocks_count_hi :: u32
  sb_r_blocks_count_hi :: u32
  sb_free_blocks_count_hi :: u32
  sb_min_extra_isize :: u16
  sb_want_extra_isize :: u16
  sb_flags :: u32
  sb_raid_stride :: u16
  sb_mmp_interval :: u16
  sb_mmp_block :: u64
  sb_raid_stripe_width :: u32
  sb_log_groups_per_flex :: u8
  sb_checksum_type :: u8
  sb_reserved_pad :: u16
  sb_kbytes_written :: u64
  sb_snapshot_inum :: u32
  sb_snapshot_id :: u32
  sb_snapshot_r_blocks_count :: u64
  sb_snapshot_list :: u32
  sb_error_count :: u32
  sb_first_error_time :: u32
  sb_first_error_ino :: u32
  sb_first_error_block :: u64
  sb_first_error_func :: bytes
  sb_first_error_line :: u32
  sb_last_error_time :: u32
  sb_last_error_ino :: u32
  sb_last_error_line :: u32
  sb_last_error_block :: u64
  sb_last_error_func :: bytes
  sb_mount_opts :: bytes
  sb_usr_quota_inum :: u32
  sb_grp_quota_inum :: u32
  sb_overhead_blocks :: u32
  sb_backup_bgs :: "u32 list"
  sb_encrypt_algos :: bytes
  sb_encrypt_pw_salt :: bytes
  sb_lpf_ino :: u32
  sb_prj_quota_inum :: u32
  sb_checksum_seed :: u32
  sb_wtime_hi :: u8
  sb_mtime_hi :: u8
  sb_mkfs_time_hi :: u8
  sb_lastcheck_hi :: u8
  sb_first_error_time_hi :: u8
  sb_last_error_time_hi :: u8
  sb_pad :: bytes
  sb_reserved :: "u32 list"
  sb_checksum :: u32

definition SuperBlock_SIZE :: nat where
  "SuperBlock_SIZE = 1024"

definition wf_SuperBlock :: "SuperBlock \<Rightarrow> bool" where
  "wf_SuperBlock x \<longleftrightarrow> length (sb_uuid x) = 16 \<and>
     length (sb_volume_name x) = 16 \<and>
     length (sb_last_mounted x) = 64 \<and>
     length (sb_journal_uuid x) = 16 \<and>
     length (sb_hash_seed x) = 4 \<and>
     length (sb_journal_blocks x) = 17 \<and>
     length (sb_first_error_func x) = 32 \<and>
     length (sb_last_error_func x) = 32 \<and>
     length (sb_mount_opts x) = 64 \<and>
     length (sb_backup_bgs x) = 2 \<and>
     length (sb_encrypt_algos x) = 4 \<and>
     length (sb_encrypt_pw_salt x) = 16 \<and>
     length (sb_pad x) = 2 \<and>
     length (sb_reserved x) = 96"

definition SuperBlock_read_from :: "bytes \<Rightarrow> SuperBlock option" where
  "SuperBlock_read_from buf =
     (if length buf < SuperBlock_SIZE then None
      else Some \<lparr>
        sb_inodes_count = get_u32 buf 0x00,
        sb_blocks_count_lo = get_u32 buf 0x04,
        sb_r_blocks_count_lo = get_u32 buf 0x08,
        sb_free_blocks_count_lo = get_u32 buf 0x0C,
        sb_free_inodes_count = get_u32 buf 0x10,
        sb_first_data_block = get_u32 buf 0x14,
        sb_log_block_size = get_u32 buf 0x18,
        sb_log_cluster_size = get_u32 buf 0x1C,
        sb_blocks_per_group = get_u32 buf 0x20,
        sb_clusters_per_group = get_u32 buf 0x24,
        sb_inodes_per_group = get_u32 buf 0x28,
        sb_mtime = get_u32 buf 0x2C,
        sb_wtime = get_u32 buf 0x30,
        sb_mount_count = get_u16 buf 0x34,
        sb_max_mount_count = get_u16 buf 0x36,
        sb_magic = get_u16 buf 0x38,
        sb_state = get_u16 buf 0x3A,
        sb_errors = get_u16 buf 0x3C,
        sb_minor_rev_level = get_u16 buf 0x3E,
        sb_lastcheck = get_u32 buf 0x40,
        sb_check_interval = get_u32 buf 0x44,
        sb_creator_os = get_u32 buf 0x48,
        sb_rev_level = get_u32 buf 0x4C,
        sb_def_resuid = get_u16 buf 0x50,
        sb_def_resgid = get_u16 buf 0x52,
        sb_first_ino = get_u32 buf 0x54,
        sb_inode_size = get_u16 buf 0x58,
        sb_block_group_nr = get_u16 buf 0x5A,
        sb_feature_compat = get_u32 buf 0x5C,
        sb_feature_incompat = get_u32 buf 0x60,
        sb_feature_ro_compat = get_u32 buf 0x64,
        sb_uuid = get_bytes 16 buf 0x68,
        sb_volume_name = get_bytes 16 buf 0x78,
        sb_last_mounted = get_bytes 64 buf 0x88,
        sb_algorithm_usage_bitmap = get_u32 buf 0xC8,
        sb_prealloc_blocks = get_u8 buf 0xCC,
        sb_prealloc_dir_blocks = get_u8 buf 0xCD,
        sb_reserved_gdt_blocks = get_u16 buf 0xCE,
        sb_journal_uuid = get_bytes 16 buf 0xD0,
        sb_journal_inum = get_u32 buf 0xE0,
        sb_journal_dev = get_u32 buf 0xE4,
        sb_last_orphan = get_u32 buf 0xE8,
        sb_hash_seed = get_u32s 4 buf 0xEC,
        sb_def_hash_version = get_u8 buf 0xFC,
        sb_journal_backup_type = get_u8 buf 0xFD,
        sb_desc_size = get_u16 buf 0xFE,
        sb_default_mount_opts = get_u32 buf 0x100,
        sb_first_meta_bg = get_u32 buf 0x104,
        sb_mkfs_time = get_u32 buf 0x108,
        sb_journal_blocks = get_u32s 17 buf 0x10C,
        sb_blocks_count_hi = get_u32 buf 0x150,
        sb_r_blocks_count_hi = get_u32 buf 0x154,
        sb_free_blocks_count_hi = get_u32 buf 0x158,
        sb_min_extra_isize = get_u16 buf 0x15C,
        sb_want_extra_isize = get_u16 buf 0x15E,
        sb_flags = get_u32 buf 0x160,
        sb_raid_stride = get_u16 buf 0x164,
        sb_mmp_interval = get_u16 buf 0x166,
        sb_mmp_block = get_u64 buf 0x168,
        sb_raid_stripe_width = get_u32 buf 0x170,
        sb_log_groups_per_flex = get_u8 buf 0x174,
        sb_checksum_type = get_u8 buf 0x175,
        sb_reserved_pad = get_u16 buf 0x176,
        sb_kbytes_written = get_u64 buf 0x178,
        sb_snapshot_inum = get_u32 buf 0x180,
        sb_snapshot_id = get_u32 buf 0x184,
        sb_snapshot_r_blocks_count = get_u64 buf 0x188,
        sb_snapshot_list = get_u32 buf 0x190,
        sb_error_count = get_u32 buf 0x194,
        sb_first_error_time = get_u32 buf 0x198,
        sb_first_error_ino = get_u32 buf 0x19C,
        sb_first_error_block = get_u64 buf 0x1A0,
        sb_first_error_func = get_bytes 32 buf 0x1A8,
        sb_first_error_line = get_u32 buf 0x1C8,
        sb_last_error_time = get_u32 buf 0x1CC,
        sb_last_error_ino = get_u32 buf 0x1D0,
        sb_last_error_line = get_u32 buf 0x1D4,
        sb_last_error_block = get_u64 buf 0x1D8,
        sb_last_error_func = get_bytes 32 buf 0x1E0,
        sb_mount_opts = get_bytes 64 buf 0x200,
        sb_usr_quota_inum = get_u32 buf 0x240,
        sb_grp_quota_inum = get_u32 buf 0x244,
        sb_overhead_blocks = get_u32 buf 0x248,
        sb_backup_bgs = [get_u32 buf 0x24C, get_u32 buf 0x250],
        sb_encrypt_algos = get_bytes 4 buf 0x254,
        sb_encrypt_pw_salt = get_bytes 16 buf 0x258,
        sb_lpf_ino = get_u32 buf 0x268,
        sb_prj_quota_inum = get_u32 buf 0x26C,
        sb_checksum_seed = get_u32 buf 0x270,
        sb_wtime_hi = get_u8 buf 0x274,
        sb_mtime_hi = get_u8 buf 0x275,
        sb_mkfs_time_hi = get_u8 buf 0x276,
        sb_lastcheck_hi = get_u8 buf 0x277,
        sb_first_error_time_hi = get_u8 buf 0x278,
        sb_last_error_time_hi = get_u8 buf 0x279,
        sb_pad = get_bytes 2 buf 0x27A,
        sb_reserved = get_u32s 96 buf 0x27C,
        sb_checksum = get_u32 buf 0x3FC\<rparr>)"

definition SuperBlock_write_to :: "SuperBlock \<Rightarrow> bytes \<Rightarrow> bytes option" where
  "SuperBlock_write_to x buf =
     (if length buf < SuperBlock_SIZE then None
      else
        let buf = put_bytes buf 0 (replicate SuperBlock_SIZE 0);
            buf = put_u32 buf 0x00 (sb_inodes_count x);
            buf = put_u32 buf 0x04 (sb_blocks_count_lo x);
            buf = put_u32 buf 0x08 (sb_r_blocks_count_lo x);
            buf = put_u32 buf 0x0C (sb_free_blocks_count_lo x);
            buf = put_u32 buf 0x10 (sb_free_inodes_count x);
            buf = put_u32 buf 0x14 (sb_first_data_block x);
            buf = put_u32 buf 0x18 (sb_log_block_size x);
            buf = put_u32 buf 0x1C (sb_log_cluster_size x);
            buf = put_u32 buf 0x20 (sb_blocks_per_group x);
            buf = put_u32 buf 0x24 (sb_clusters_per_group x);
            buf = put_u32 buf 0x28 (sb_inodes_per_group x);
            buf = put_u32 buf 0x2C (sb_mtime x);
            buf = put_u32 buf 0x30 (sb_wtime x);
            buf = put_u16 buf 0x34 (sb_mount_count x);
            buf = put_u16 buf 0x36 (sb_max_mount_count x);
            buf = put_u16 buf 0x38 (sb_magic x);
            buf = put_u16 buf 0x3A (sb_state x);
            buf = put_u16 buf 0x3C (sb_errors x);
            buf = put_u16 buf 0x3E (sb_minor_rev_level x);
            buf = put_u32 buf 0x40 (sb_lastcheck x);
            buf = put_u32 buf 0x44 (sb_check_interval x);
            buf = put_u32 buf 0x48 (sb_creator_os x);
            buf = put_u32 buf 0x4C (sb_rev_level x);
            buf = put_u16 buf 0x50 (sb_def_resuid x);
            buf = put_u16 buf 0x52 (sb_def_resgid x);
            buf = put_u32 buf 0x54 (sb_first_ino x);
            buf = put_u16 buf 0x58 (sb_inode_size x);
            buf = put_u16 buf 0x5A (sb_block_group_nr x);
            buf = put_u32 buf 0x5C (sb_feature_compat x);
            buf = put_u32 buf 0x60 (sb_feature_incompat x);
            buf = put_u32 buf 0x64 (sb_feature_ro_compat x);
            buf = put_bytes buf 0x68 (sb_uuid x);
            buf = put_bytes buf 0x78 (sb_volume_name x);
            buf = put_bytes buf 0x88 (sb_last_mounted x);
            buf = put_u32 buf 0xC8 (sb_algorithm_usage_bitmap x);
            buf = put_u8 buf 0xCC (sb_prealloc_blocks x);
            buf = put_u8 buf 0xCD (sb_prealloc_dir_blocks x);
            buf = put_u16 buf 0xCE (sb_reserved_gdt_blocks x);
            buf = put_bytes buf 0xD0 (sb_journal_uuid x);
            buf = put_u32 buf 0xE0 (sb_journal_inum x);
            buf = put_u32 buf 0xE4 (sb_journal_dev x);
            buf = put_u32 buf 0xE8 (sb_last_orphan x);
            buf = put_u32s buf 0xEC (sb_hash_seed x);
            buf = put_u8 buf 0xFC (sb_def_hash_version x);
            buf = put_u8 buf 0xFD (sb_journal_backup_type x);
            buf = put_u16 buf 0xFE (sb_desc_size x);
            buf = put_u32 buf 0x100 (sb_default_mount_opts x);
            buf = put_u32 buf 0x104 (sb_first_meta_bg x);
            buf = put_u32 buf 0x108 (sb_mkfs_time x);
            buf = put_u32s buf 0x10C (sb_journal_blocks x);
            buf = put_u32 buf 0x150 (sb_blocks_count_hi x);
            buf = put_u32 buf 0x154 (sb_r_blocks_count_hi x);
            buf = put_u32 buf 0x158 (sb_free_blocks_count_hi x);
            buf = put_u16 buf 0x15C (sb_min_extra_isize x);
            buf = put_u16 buf 0x15E (sb_want_extra_isize x);
            buf = put_u32 buf 0x160 (sb_flags x);
            buf = put_u16 buf 0x164 (sb_raid_stride x);
            buf = put_u16 buf 0x166 (sb_mmp_interval x);
            buf = put_u64 buf 0x168 (sb_mmp_block x);
            buf = put_u32 buf 0x170 (sb_raid_stripe_width x);
            buf = put_u8 buf 0x174 (sb_log_groups_per_flex x);
            buf = put_u8 buf 0x175 (sb_checksum_type x);
            buf = put_u16 buf 0x176 (sb_reserved_pad x);
            buf = put_u64 buf 0x178 (sb_kbytes_written x);
            buf = put_u32 buf 0x180 (sb_snapshot_inum x);
            buf = put_u32 buf 0x184 (sb_snapshot_id x);
            buf = put_u64 buf 0x188 (sb_snapshot_r_blocks_count x);
            buf = put_u32 buf 0x190 (sb_snapshot_list x);
            buf = put_u32 buf 0x194 (sb_error_count x);
            buf = put_u32 buf 0x198 (sb_first_error_time x);
            buf = put_u32 buf 0x19C (sb_first_error_ino x);
            buf = put_u64 buf 0x1A0 (sb_first_error_block x);
            buf = put_bytes buf 0x1A8 (sb_first_error_func x);
            buf = put_u32 buf 0x1C8 (sb_first_error_line x);
            buf = put_u32 buf 0x1CC (sb_last_error_time x);
            buf = put_u32 buf 0x1D0 (sb_last_error_ino x);
            buf = put_u32 buf 0x1D4 (sb_last_error_line x);
            buf = put_u64 buf 0x1D8 (sb_last_error_block x);
            buf = put_bytes buf 0x1E0 (sb_last_error_func x);
            buf = put_bytes buf 0x200 (sb_mount_opts x);
            buf = put_u32 buf 0x240 (sb_usr_quota_inum x);
            buf = put_u32 buf 0x244 (sb_grp_quota_inum x);
            buf = put_u32 buf 0x248 (sb_overhead_blocks x);
            buf = put_u32 buf 0x24C (sb_backup_bgs x ! 0);
            buf = put_u32 buf 0x250 (sb_backup_bgs x ! 1);
            buf = put_bytes buf 0x254 (sb_encrypt_algos x);
            buf = put_bytes buf 0x258 (sb_encrypt_pw_salt x);
            buf = put_u32 buf 0x268 (sb_lpf_ino x);
            buf = put_u32 buf 0x26C (sb_prj_quota_inum x);
            buf = put_u32 buf 0x270 (sb_checksum_seed x);
            buf = put_u8 buf 0x274 (sb_wtime_hi x);
            buf = put_u8 buf 0x275 (sb_mtime_hi x);
            buf = put_u8 buf 0x276 (sb_mkfs_time_hi x);
            buf = put_u8 buf 0x277 (sb_lastcheck_hi x);
            buf = put_u8 buf 0x278 (sb_first_error_time_hi x);
            buf = put_u8 buf 0x279 (sb_last_error_time_hi x);
            buf = put_bytes buf 0x27A (sb_pad x);
            buf = put_u32s buf 0x27C (sb_reserved x);
            buf = put_u32 buf 0x3FC (sb_checksum x)
        in Some buf)"

definition SuperBlock_default :: SuperBlock where
  "SuperBlock_default = \<lparr>
    sb_inodes_count = 0, sb_blocks_count_lo = 0, sb_r_blocks_count_lo = 0,
    sb_free_blocks_count_lo = 0, sb_free_inodes_count = 0, sb_first_data_block = 0,
    sb_log_block_size = 0, sb_log_cluster_size = 0, sb_blocks_per_group = 0,
    sb_clusters_per_group = 0, sb_inodes_per_group = 0, sb_mtime = 0, sb_wtime = 0,
    sb_mount_count = 0, sb_max_mount_count = 0, sb_magic = 0, sb_state = 0, sb_errors = 0,
    sb_minor_rev_level = 0, sb_lastcheck = 0, sb_check_interval = 0, sb_creator_os = 0,
    sb_rev_level = 0, sb_def_resuid = 0, sb_def_resgid = 0, sb_first_ino = 0,
    sb_inode_size = 0, sb_block_group_nr = 0, sb_feature_compat = 0, sb_feature_incompat = 0,
    sb_feature_ro_compat = 0, sb_uuid = replicate 16 0, sb_volume_name = replicate 16 0,
    sb_last_mounted = replicate 64 0, sb_algorithm_usage_bitmap = 0, sb_prealloc_blocks = 0,
    sb_prealloc_dir_blocks = 0, sb_reserved_gdt_blocks = 0, sb_journal_uuid = replicate 16 0,
    sb_journal_inum = 0, sb_journal_dev = 0, sb_last_orphan = 0,
    sb_hash_seed = replicate 4 0, sb_def_hash_version = 0, sb_journal_backup_type = 0,
    sb_desc_size = 0, sb_default_mount_opts = 0, sb_first_meta_bg = 0, sb_mkfs_time = 0,
    sb_journal_blocks = replicate 17 0, sb_blocks_count_hi = 0, sb_r_blocks_count_hi = 0,
    sb_free_blocks_count_hi = 0, sb_min_extra_isize = 0, sb_want_extra_isize = 0,
    sb_flags = 0, sb_raid_stride = 0, sb_mmp_interval = 0, sb_mmp_block = 0,
    sb_raid_stripe_width = 0, sb_log_groups_per_flex = 0, sb_checksum_type = 0,
    sb_reserved_pad = 0, sb_kbytes_written = 0, sb_snapshot_inum = 0, sb_snapshot_id = 0,
    sb_snapshot_r_blocks_count = 0, sb_snapshot_list = 0, sb_error_count = 0,
    sb_first_error_time = 0, sb_first_error_ino = 0, sb_first_error_block = 0,
    sb_first_error_func = replicate 32 0, sb_first_error_line = 0, sb_last_error_time = 0,
    sb_last_error_ino = 0, sb_last_error_line = 0, sb_last_error_block = 0,
    sb_last_error_func = replicate 32 0, sb_mount_opts = replicate 64 0,
    sb_usr_quota_inum = 0, sb_grp_quota_inum = 0, sb_overhead_blocks = 0,
    sb_backup_bgs = replicate 2 0, sb_encrypt_algos = replicate 4 0,
    sb_encrypt_pw_salt = replicate 16 0, sb_lpf_ino = 0, sb_prj_quota_inum = 0,
    sb_checksum_seed = 0, sb_wtime_hi = 0, sb_mtime_hi = 0, sb_mkfs_time_hi = 0,
    sb_lastcheck_hi = 0, sb_first_error_time_hi = 0, sb_last_error_time_hi = 0,
    sb_pad = replicate 2 0, sb_reserved = replicate 96 0, sb_checksum = 0\<rparr>"

text \<open>The layout the writes produce: offset and bytes of every field.\<close>

definition SuperBlock_fields :: "SuperBlock \<Rightarrow> (nat \<times> bytes) list" where
  "SuperBlock_fields x = [
     (0x00, le_bytes 4 (sb_inodes_count x)),
     (0x04, le_bytes 4 (sb_blocks_count_lo x)),
     (0x08, le_bytes 4 (sb_r_blocks_count_lo x)),
     (0x0C, le_bytes 4 (sb_free_blocks_count_lo x)),
     (0x10, le_bytes 4 (sb_free_inodes_count x)),
     (0x14, le_bytes 4 (sb_first_data_block x)),
     (0x18, le_bytes 4 (sb_log_block_size x)),
     (0x1C, le_bytes 4 (sb_log_cluster_size x)),
     (0x20, le_bytes 4 (sb_blocks_per_group x)),
     (0x24, le_bytes 4 (sb_clusters_per_group x)),
     (0x28, le_bytes 4 (sb_inodes_per_group x)),
     (0x2C, le_bytes 4 (sb_mtime x)),
     (0x30, le_bytes 4 (sb_wtime x)),
     (0x34, le_bytes 2 (sb_mount_count x)),
     (0x36, le_bytes 2 (sb_max_mount_count x)),
     (0x38, le_bytes 2 (sb_magic x)),
     (0x3A, le_bytes 2 (sb_state x)),
     (0x3C, le_bytes 2 (sb_errors x)),
     (0x3E, le_bytes 2 (sb_minor_rev_level x)),
     (0x40, le_bytes 4 (sb_lastcheck x)),
     (0x44, le_bytes 4 (sb_check_interval x)),
     (0x48, le_bytes 4 (sb_creator_os x)),
     (0x4C, le_bytes 4 (sb_rev_level x)),
     (0x50, le_bytes 2 (sb_def_resuid x)),
     (0x52, le_bytes 2 (sb_def_resgid x)),
     (0x54, le_bytes 4 (sb_first_ino x)),
     (0x58, le_bytes 2 (sb_inode_size x)),
     (0x5A, le_bytes 2 (sb_block_group_nr x)),
     (0x5C, le_bytes 4 (sb_feature_compat x)),
     (0x60, le_bytes 4 (sb_feature_incompat x)),
     (0x64, le_bytes 4 (sb_feature_ro_compat x)),
     (0x68, sb_uuid x),
     (0x78, sb_volume_name x),
     (0x88, sb_last_mounted x),
     (0xC8, le_bytes 4 (sb_algorithm_usage_bitmap x)),
     (0xCC, le_bytes 1 (sb_prealloc_blocks x)),
     (0xCD, le_bytes 1 (sb_prealloc_dir_blocks x)),
     (0xCE, le_bytes 2 (sb_reserved_gdt_blocks x)),
     (0xD0, sb_journal_uuid x),
     (0xE0, le_bytes 4 (sb_journal_inum x)),
     (0xE4, le_bytes 4 (sb_journal_dev x)),
     (0xE8, le_bytes 4 (sb_last_orphan x)),
     (0xEC, concat (map (le_bytes 4) (sb_hash_seed x))),
     (0xFC, le_bytes 1 (sb_def_hash_version x)),
     (0xFD, le_bytes 1 (sb_journal_backup_type x)),
     (0xFE, le_bytes 2 (sb_desc_size x)),
     (0x100, le_bytes 4 (sb_default_mount_opts x)),
     (0x104, le_bytes 4 (sb_first_meta_bg x)),
     (0x108, le_bytes 4 (sb_mkfs_time x)),
     (0x10C, concat (map (le_bytes 4) (sb_journal_blocks x))),
     (0x150, le_bytes 4 (sb_blocks_count_hi x)),
     (0x154, le_bytes 4 (sb_r_blocks_count_hi x)),
     (0x158, le_bytes 4 (sb_free_blocks_count_hi x)),
     (0x15C, le_bytes 2 (sb_min_extra_isize x)),
     (0x15E, le_bytes 2 (sb_want_extra_isize x)),
     (0x160, le_bytes 4 (sb_flags x)),
     (0x164, le_bytes 2 (sb_raid_stride x)),
     (0x166, le_bytes 2 (sb_mmp_interval x)),
     (0x168, le_bytes 8 (sb_mmp_block x)),
     (0x170, le_bytes 4 (sb_raid_stripe_width x)),
     (0x174, le_bytes 1 (sb_log_groups_per_flex x)),
     (0x175, le_bytes 1 (sb_checksum_type x)),
     (0x176, le_bytes 2 (sb_reserved_pad x)),
     (0x178, le_bytes 8 (sb_kbytes_written x)),
     (0x180, le_bytes 4 (sb_snapshot_inum x)),
     (0x184, le_bytes 4 (sb_snapshot_id x)),
     (0x188, le_bytes 8 (sb_snapshot_r_blocks_count x)),
     (0x190, le_bytes 4 (sb_snapshot_list x)),
     (0x194, le_bytes 4 (sb_error_count x)),
     (0x198, le_bytes 4 (sb_first_error_time x)),
     (0x19C, le_bytes 4 (sb_first_error_ino x)),
     (0x1A0, le_bytes 8 (sb_first_error_block x)),
     (0x1A8, sb_first_error_func x),
     (0x1C8, le_bytes 4 (sb_first_error_line x)),
     (0x1CC, le_bytes 4 (sb_last_error_time x)),
     (0x1D0, le_bytes 4 (sb_last_error_ino x)),
     (0x1D4, le_bytes 4 (sb_last_error_line x)),
     (0x1D8, le_bytes 8 (sb_last_error_block x)),
     (0x1E0, sb_last_error_func x),
     (0x200, sb_mount_opts x),
     (0x240, le_bytes 4 (sb_usr_quota_inum x)),
     (0x244, le_bytes 4 (sb_grp_quota_inum x)),
     (0x248, le_bytes 4 (sb_overhead_blocks x)),
     (0x24C, le_bytes 4 (sb_backup_bgs x ! 0)),
     (0x250, le_bytes 4 (sb_backup_bgs x ! 1)),
     (0x254, sb_encrypt_algos x),
     (0x258, sb_encrypt_pw_salt x),
     (0x268, le_bytes 4 (sb_lpf_ino x)),
     (0x26C, le_bytes 4 (sb_prj_quota_inum x)),
     (0x270, le_bytes 4 (sb_checksum_seed x)),
     (0x274, le_bytes 1 (sb_wtime_hi x)),
     (0x275, le_bytes 1 (sb_mtime_hi x)),
     (0x276, le_bytes 1 (sb_mkfs_time_hi x)),
     (0x277, le_bytes 1 (sb_lastcheck_hi x)),
     (0x278, le_bytes 1 (sb_first_error_time_hi x)),
     (0x279, le_bytes 1 (sb_last_error_time_hi x)),
     (0x27A, sb_pad x),
     (0x27C, concat (map (le_bytes 4) (sb_reserved x))),
     (0x3FC, le_bytes 4 (sb_checksum x))]"

lemma list_of_length_2: "length xs = 2 \<Longrightarrow> [xs ! 0, xs ! Suc 0] = xs"
  by (cases xs) (auto simp: length_Suc_conv numeral_2_eq_2)

lemma SuperBlock_laid_out: "wf_SuperBlock x \<Longrightarrow> laid_out 0 (SuperBlock_fields x) 1024"
  by (simp add: SuperBlock_fields_def wf_SuperBlock_def)

lemma SuperBlock_write_fields:
  "SuperBlock_write_to x buf = (if length buf < SuperBlock_SIZE then None
     else Some (put_fields (put_bytes buf 0 (replicate SuperBlock_SIZE 0)) (SuperBlock_fields x)))"
  unfolding SuperBlock_write_to_def SuperBlock_fields_def Let_def acc_defs
  by simp

lemma SuperBlock_field_facts:
  assumes "wf_SuperBlock x" "SuperBlock_write_to x buf = Some buf'"
  shows "\<forall>(off, src) \<in> set (SuperBlock_fields x). get_bytes (length src) buf' off = src"
  using assms get_put_fields [OF SuperBlock_laid_out [OF assms(1)]]
  by (auto simp: SuperBlock_write_fields SuperBlock_SIZE_def split: if_splits)

lemma SuperBlock_roundtrip:
  assumes wf: "wf_SuperBlock x" and w: "SuperBlock_write_to x buf = Some buf'"
  shows "SuperBlock_read_from buf' = Some x"
proof -
  have len: "\<not> length buf' < SuperBlock_SIZE"
    using w by (auto simp: SuperBlock_write_fields split: if_splits)
  note F = SuperBlock_field_facts [OF assms]
  note W = wf [unfolded wf_SuperBlock_def]
  have "get_u32s 4 buf' 0xEC = sb_hash_seed x" "get_u32s 17 buf' 0x10C = sb_journal_blocks x"
    "get_u32s 96 buf' 0x27C = sb_reserved x"
    using F W get_u32s_of_bytes [of "sb_hash_seed x" buf' "0xEC"]
      get_u32s_of_bytes [of "sb_journal_blocks x" buf' "0x10C"]
      get_u32s_of_bytes [of "sb_reserved x" buf' "0x27C"]
    by (simp_all add: SuperBlock_fields_def)
  then show ?thesis
    using F W
    by (simp add: SuperBlock_fields_def SuperBlock_read_from_def len get_u8_def get_u16_def
      get_u32_def get_u64_def list_of_length_2)
qed

lemma wf_SuperBlock_default: "wf_SuperBlock SuperBlock_default"
  by (simp add: wf_SuperBlock_def SuperBlock_default_def)

lemma SuperBlock_write_frame:
  "wf_SuperBlock x \<Longrightarrow> SuperBlock_write_to x buf = Some buf' \<Longrightarrow>
     drop SuperBlock_SIZE buf' = drop SuperBlock_SIZE buf"
  by (auto simp: SuperBlock_write_to_def SuperBlock_SIZE_def wf_SuperBlock_def acc_defs Let_def
      split: if_splits)

lemma SuperBlock_read_wf: "SuperBlock_read_from buf = Some x \<Longrightarrow> wf_SuperBlock x"
  by (auto simp: SuperBlock_read_from_def SuperBlock_SIZE_def wf_SuperBlock_def split: if_splits)

lemma SuperBlock_read_prefix:
  "SuperBlock_SIZE \<le> length buf \<Longrightarrow>
     SuperBlock_read_from (take SuperBlock_SIZE buf) = SuperBlock_read_from buf"
  by (simp add: SuperBlock_read_from_def SuperBlock_SIZE_def acc_defs)

lemma SuperBlock_write_short: "length buf < SuperBlock_SIZE \<Longrightarrow> SuperBlock_write_to x buf = None"
  by (simp add: SuperBlock_write_fields)

lemma SuperBlock_write_total:
  "wf_SuperBlock x \<Longrightarrow> SuperBlock_SIZE \<le> length buf \<Longrightarrow> \<exists>buf'. SuperBlock_write_to x buf = Some buf'"
  by (simp add: SuperBlock_write_fields)

lemma SuperBlock_write_length: "SuperBlock_write_to x buf = Some buf' \<Longrightarrow> length buf' = length buf"
  by (auto simp: SuperBlock_write_fields split: if_splits)

lemma SuperBlock_read_short: "length buf < SuperBlock_SIZE \<Longrightarrow> SuperBlock_read_from buf = None"
  by (simp add: SuperBlock_read_from_def)

interpretation sb_codec: codec SuperBlock_SIZE wf_SuperBlock
  SuperBlock_write_to SuperBlock_read_from
  by unfold_locales
    (fact SuperBlock_write_short SuperBlock_write_total SuperBlock_write_length
      SuperBlock_write_frame SuperBlock_read_short SuperBlock_read_prefix SuperBlock_read_wf
      SuperBlock_roundtrip)+

section \<open>Property\<close>

text \<open>
  C26: Writing a well-formed superblock into any buffer of at least 1024 bytes succeeds, keeps the
  length and every byte behind the structure, and reading the buffer gives back all 98 fields.
\<close>

theorem superblock_roundtrip:
  assumes "wf_SuperBlock x" and "SuperBlock_SIZE \<le> length buf"
  shows "\<exists>buf'. SuperBlock_write_to x buf = Some buf' \<and> length buf' = length buf
    \<and> drop SuperBlock_SIZE buf' = drop SuperBlock_SIZE buf
    \<and> SuperBlock_read_from buf' = Some x"
  using sb_codec.write_total [OF assms] sb_codec.write_length sb_codec.write_frame [OF assms(1)]
    sb_codec.roundtrip [OF assms(1)]
  by blast

theorem superblock_roundtrip_witness:
  "wf_SuperBlock (SuperBlock_default\<lparr>sb_magic := 0xEF53, sb_backup_bgs := [1, 2]\<rparr>)
   \<and> (\<exists>buf'. SuperBlock_write_to (SuperBlock_default\<lparr>sb_magic := 0xEF53, sb_backup_bgs := [1, 2]\<rparr>)
           (replicate 2000 7) = Some buf'
      \<and> SuperBlock_read_from buf'
        = Some (SuperBlock_default\<lparr>sb_magic := 0xEF53, sb_backup_bgs := [1, 2]\<rparr>))"
proof -
  have wf: "wf_SuperBlock (SuperBlock_default\<lparr>sb_magic := 0xEF53, sb_backup_bgs := [1, 2]\<rparr>)"
    by (simp add: wf_SuperBlock_def SuperBlock_default_def)
  moreover have "SuperBlock_SIZE \<le> length (replicate 2000 (7 :: u8))"
    by (simp add: SuperBlock_SIZE_def)
  ultimately show ?thesis
    using superblock_roundtrip [OF wf] by blast
qed

end
