(* ===== verification/Ext4_Checksum.thy ===== *)
theory Ext4_Checksum
  imports Ext4_Types
begin

text \<open>
  \<open>common/ext4/src/checksum.rs\<close>: CRC-16/ARC and the group descriptor checksum.  The lemmas
  show that the checksum is an injective linear function of each input byte, so that it detects
  every corruption confined to one byte, and that it does not read the checksum field itself.
\<close>

section \<open>CRC-16\<close>

definition crc16_bit :: "u16 \<Rightarrow> u16" where
  "crc16_bit crc = (if crc AND 1 \<noteq> 0 then drop_bit 1 crc XOR 0xA001 else drop_bit 1 crc)"

definition crc16_byte :: "u16 \<Rightarrow> u8 \<Rightarrow> u16" where
  "crc16_byte crc b = (crc16_bit ^^ 8) (crc XOR ucast b)"

fun crc16 :: "u16 \<Rightarrow> bytes \<Rightarrow> u16" where
  "crc16 crc [] = crc"
| "crc16 crc (b # buf) = crc16 (crc16_byte crc b) buf"

definition group_descriptor_checksum :: "bytes \<Rightarrow> u32 \<Rightarrow> GroupDescriptor \<Rightarrow> u16 option" where
  "group_descriptor_checksum uuid group_nr gd =
     (case GroupDescriptor_write_to gd (replicate GroupDescriptor_SIZE 0) of
        None \<Rightarrow> None
      | Some tmp \<Rightarrow>
          (let crc = 0xFFFF;
               crc = crc16 crc uuid;
               crc = crc16 crc (le_bytes 4 group_nr);
               crc = crc16 crc (take 0x1E tmp)
           in Some crc))"

subsection \<open>One bit of the shift register\<close>

lemma crc16_bit_if: "crc16_bit crc = (if bit crc 0 then drop_bit 1 crc XOR 0xA001 else drop_bit 1 crc)"
  by (simp add: crc16_bit_def and_one_eq bit_0 odd_iff_mod_2_eq_one)

lemma crc16_bit_xor: "crc16_bit (x XOR y) = crc16_bit x XOR crc16_bit y"
  by (simp add: crc16_bit_if bit_xor_iff drop_bit_xor xor.left_commute xor.commute xor.assoc)

definition crc16_bit_inv :: "u16 \<Rightarrow> u16" where
  "crc16_bit_inv y = (if bit y 15 then push_bit 1 (y XOR 0xA001) OR 1 else push_bit 1 y)"

lemma push_drop_low_bit:
  "push_bit 1 (drop_bit 1 x) OR (if bit x 0 then 1 else 0) = (x :: u16)"
proof (rule bit_word_eqI)
  fix m
  show "bit (push_bit 1 (drop_bit 1 x) OR (if bit x 0 then 1 else 0)) m \<longleftrightarrow> bit x m"
    by (cases m) (auto simp: bit_simps simp del: push_bit_Suc dest: bit_imp_le_length)
qed

lemma crc16_bit_inv: "crc16_bit_inv (crc16_bit x) = x"
proof (cases "bit x 0")
  case True
  then have "crc16_bit x = drop_bit 1 x XOR 0xA001" by (simp add: crc16_bit_if)
  moreover have "bit (drop_bit 1 x XOR 0xA001) 15"
    by (auto simp: bit_xor_iff bit_drop_bit_eq dest: bit_imp_le_length)
  moreover have "(drop_bit 1 x XOR 0xA001) XOR 0xA001 = drop_bit 1 x"
    by (simp only: xor.assoc xor_self_eq xor.right_neutral)
  ultimately show ?thesis
    using push_drop_low_bit [of x] True by (simp only: crc16_bit_inv_def if_True)
next
  case False
  then have "crc16_bit x = drop_bit 1 x" by (simp add: crc16_bit_if)
  moreover have "\<not> bit (drop_bit 1 x) 15"
    by (auto simp: bit_drop_bit_eq dest: bit_imp_le_length)
  ultimately show ?thesis
    using push_drop_low_bit [of x] False
    by (simp only: crc16_bit_inv_def if_False or.right_neutral)
qed

lemma inj_crc16_bit: "inj crc16_bit"
  by (rule inj_on_inverseI) (rule crc16_bit_inv)

subsection \<open>Bytes and buffers\<close>

lemma crc16_bit_pow_xor: "(crc16_bit ^^ n) (x XOR y) = (crc16_bit ^^ n) x XOR (crc16_bit ^^ n) y"
  by (induction n) (auto simp: crc16_bit_xor)

lemma inj_crc16_bit_pow: "inj (crc16_bit ^^ n)"
  by (induction n) (auto intro: inj_compose [OF inj_crc16_bit, unfolded comp_def])

lemma xor_left_cancel: "(x :: 'a::len word) XOR a = x XOR b \<longleftrightarrow> a = b"
proof
  assume "x XOR a = x XOR b"
  then have "x XOR (x XOR a) = x XOR (x XOR b)" by (rule arg_cong)
  then show "a = b" by (simp flip: xor.assoc)
qed simp

lemma crc16_byte_eq_iff: "crc16_byte x a = crc16_byte y b \<longleftrightarrow> x XOR ucast a = y XOR ucast b"
  unfolding crc16_byte_def by (rule inj_eq [OF inj_crc16_bit_pow])

lemma crc16_byte_inj_state: "crc16_byte x b = crc16_byte y b \<Longrightarrow> x = y"
  unfolding crc16_byte_eq_iff xor.commute [of _ "ucast b"] xor_left_cancel .

lemma crc16_byte_inj_byte: "crc16_byte x a = crc16_byte x b \<Longrightarrow> a = b"
  unfolding crc16_byte_eq_iff xor_left_cancel
  by (auto simp: bit_eq_iff bit_simps)

lemma crc16_inj_state: "crc16 x buf = crc16 y buf \<Longrightarrow> x = y"
  by (induction buf arbitrary: x y) (auto dest: crc16_byte_inj_state)

lemma crc16_append: "crc16 crc (xs @ ys) = crc16 (crc16 crc xs) ys"
  by (induction xs arbitrary: crc) auto

lemma crc16_detects_byte:
  assumes "a \<noteq> b"
  shows "crc16 crc (xs @ a # ys) \<noteq> crc16 crc (xs @ b # ys)"
proof
  assume "crc16 crc (xs @ a # ys) = crc16 crc (xs @ b # ys)"
  then have "crc16_byte (crc16 crc xs) a = crc16_byte (crc16 crc xs) b"
    unfolding crc16_append crc16.simps by (rule crc16_inj_state)
  with assms show False by (auto dest: crc16_byte_inj_byte)
qed

section \<open>Group descriptor checksum\<close>

lemma group_descriptor_checksum_total: "\<exists>crc. group_descriptor_checksum uuid group_nr gd = Some crc"
  using gd_codec.write_total [where x = gd and buf = "replicate GroupDescriptor_SIZE 0"]
  by (auto simp: group_descriptor_checksum_def Let_def)

lemma GroupDescriptor_write_body:
  "GroupDescriptor_write_to gd (replicate GroupDescriptor_SIZE 0) = Some tmp \<Longrightarrow>
   GroupDescriptor_write_to (gd\<lparr>gd_checksum := c\<rparr>) (replicate GroupDescriptor_SIZE 0) = Some tmp' \<Longrightarrow>
   take 0x1E tmp' = take 0x1E tmp"
  by (auto simp: GroupDescriptor_write_to_def GroupDescriptor_SIZE_def acc_defs Let_def)

lemma group_descriptor_checksum_field:
  "group_descriptor_checksum uuid group_nr (gd\<lparr>gd_checksum := c\<rparr>) =
   group_descriptor_checksum uuid group_nr gd"
proof -
  obtain t t' where t: "GroupDescriptor_write_to gd (replicate GroupDescriptor_SIZE 0) = Some t"
    and t': "GroupDescriptor_write_to (gd\<lparr>gd_checksum := c\<rparr>) (replicate GroupDescriptor_SIZE 0) = Some t'"
    using gd_codec.write_total by fastforce
  with GroupDescriptor_write_body [OF t t'] show ?thesis
    by (simp add: group_descriptor_checksum_def)
qed

lemma crc16_byte_eight:
  "crc16_byte crc b =
     crc16_bit (crc16_bit (crc16_bit (crc16_bit (crc16_bit (crc16_bit (crc16_bit (crc16_bit
       (crc XOR ucast b))))))))"
  by (simp add: crc16_byte_def numeral_eq_Suc)

lemma crc16_check_vector: "crc16 0 [0x31, 0x32, 0x33, 0x34, 0x35, 0x36, 0x37, 0x38, 0x39] = 0xBB3D"
  by (simp add: crc16_byte_eight crc16_bit_if)

section \<open>Property\<close>

lemma single_byte_split:
  assumes "i < length xs" "xs ! i \<noteq> b"
  shows "\<exists>as a cs. xs = as @ a # cs \<and> xs[i := b] = as @ b # cs \<and> a \<noteq> b"
  using assms id_take_nth_drop [of i xs] upd_conv_take_nth_drop [of i xs b] by metis

text \<open>
  C27: Two group descriptors whose serialized bodies differ in exactly one of the 30 bytes before
  the checksum field have different checksums, for the same file system and group number; the
  checksum field itself never changes the result.
\<close>

theorem group_descriptor_checksum_detects:
  assumes "GroupDescriptor_write_to gd (replicate GroupDescriptor_SIZE 0) = Some tmp"
    and "GroupDescriptor_write_to gd' (replicate GroupDescriptor_SIZE 0) = Some tmp'"
    and "i < 0x1E" and "b \<noteq> tmp ! i" and "take 0x1E tmp' = (take 0x1E tmp)[i := b]"
  shows "group_descriptor_checksum uuid group_nr gd \<noteq> group_descriptor_checksum uuid group_nr gd'
    \<and> group_descriptor_checksum uuid group_nr (gd\<lparr>gd_checksum := c\<rparr>)
      = group_descriptor_checksum uuid group_nr gd"
proof -
  have "length tmp = GroupDescriptor_SIZE" using gd_codec.write_length [OF assms(1)] by simp
  then have i: "i < length (take 0x1E tmp)" "take 0x1E tmp ! i = tmp ! i"
    using assms(3) by (simp_all add: GroupDescriptor_SIZE_def)
  from single_byte_split [of i "take 0x1E tmp" b] i assms(4)
  obtain as a cs where "take 0x1E tmp = as @ a # cs" "take 0x1E tmp' = as @ b # cs" "a \<noteq> b"
    using assms(5) by auto
  then show ?thesis
    using assms(1, 2) crc16_detects_byte [of a b _ as cs]
    by (intro conjI group_descriptor_checksum_field)
      (simp add: group_descriptor_checksum_def Let_def)
qed

theorem group_descriptor_checksum_detects_witness:
  "group_descriptor_checksum (replicate 16 0xAB) 3
     \<lparr>gd_block_bitmap_lo = 65, gd_inode_bitmap_lo = 66, gd_inode_table_lo = 1,
      gd_free_blocks_count_lo = 5, gd_free_inodes_count_lo = 9, gd_used_dirs_count_lo = 2,
      gd_flags = 0, gd_exclude_bitmap_lo = 0, gd_block_bitmap_csum_lo = 0,
      gd_inode_bitmap_csum_lo = 0, gd_itable_unused_lo = 0, gd_checksum = 0\<rparr>
   \<noteq> group_descriptor_checksum (replicate 16 0xAB) 3
     \<lparr>gd_block_bitmap_lo = 64, gd_inode_bitmap_lo = 66, gd_inode_table_lo = 1,
      gd_free_blocks_count_lo = 5, gd_free_inodes_count_lo = 9, gd_used_dirs_count_lo = 2,
      gd_flags = 0, gd_exclude_bitmap_lo = 0, gd_block_bitmap_csum_lo = 0,
      gd_inode_bitmap_csum_lo = 0, gd_itable_unused_lo = 0, gd_checksum = 0\<rparr>"
proof -
  have "map_option (take 0x1E) (GroupDescriptor_write_to
     \<lparr>gd_block_bitmap_lo = 65, gd_inode_bitmap_lo = 66, gd_inode_table_lo = 1,
      gd_free_blocks_count_lo = 5, gd_free_inodes_count_lo = 9, gd_used_dirs_count_lo = 2,
      gd_flags = 0, gd_exclude_bitmap_lo = 0, gd_block_bitmap_csum_lo = 0,
      gd_inode_bitmap_csum_lo = 0, gd_itable_unused_lo = 0, gd_checksum = 0\<rparr>
     (replicate GroupDescriptor_SIZE 0)) = Some
       [65, 0, 0, 0, 66, 0, 0, 0, 1, 0, 0, 0, 5, 0, 9, 0, 2, 0, 0, 0, 0, 0, 0, 0, 0, 0, 0, 0, 0, 0]"
    by code_simp
  moreover have "map_option (take 0x1E) (GroupDescriptor_write_to
     \<lparr>gd_block_bitmap_lo = 64, gd_inode_bitmap_lo = 66, gd_inode_table_lo = 1,
      gd_free_blocks_count_lo = 5, gd_free_inodes_count_lo = 9, gd_used_dirs_count_lo = 2,
      gd_flags = 0, gd_exclude_bitmap_lo = 0, gd_block_bitmap_csum_lo = 0,
      gd_inode_bitmap_csum_lo = 0, gd_itable_unused_lo = 0, gd_checksum = 0\<rparr>
     (replicate GroupDescriptor_SIZE 0)) = Some
       [64, 0, 0, 0, 66, 0, 0, 0, 1, 0, 0, 0, 5, 0, 9, 0, 2, 0, 0, 0, 0, 0, 0, 0, 0, 0, 0, 0, 0, 0]"
    by code_simp
  moreover have "t ! 0 = 65" if "take 0x1E t = 65 # r" for t :: bytes and r
    using that by (cases t) auto
  ultimately show ?thesis
    using group_descriptor_checksum_detects [where i = 0 and b = 64] by fastforce
qed

end
