(* ===== verification/Rust_File.thy ===== *)
theory Rust_File
  imports Prelude
begin

text \<open>
  What the ext4 crate uses of \<open>std::fs::File\<close>: contents, length and stream position.  Bytes past
  the length are zero, so that seeking over a gap and writing leaves a hole that reads as zeros.
  The host file system is assumed not to fail; a read past the end is the error the code sees.
\<close>

record File =
  fl_data :: "nat \<Rightarrow> u8"
  fl_len :: nat
  fl_pos :: nat

definition wf_File :: "File \<Rightarrow> bool" where
  "wf_File f \<longleftrightarrow> (\<forall>i \<ge> fl_len f. fl_data f i = 0)"

definition empty_file :: File where
  "empty_file = \<lparr>fl_data = (\<lambda>_. 0), fl_len = 0, fl_pos = 0\<rparr>"

definition set_len :: "nat \<Rightarrow> File \<Rightarrow> File" where
  "set_len n f = f\<lparr>fl_data := (\<lambda>i. if i < n then fl_data f i else 0), fl_len := n\<rparr>"

definition seek_start :: "nat \<Rightarrow> File \<Rightarrow> File" where
  "seek_start off f = f\<lparr>fl_pos := off\<rparr>"

definition write_all :: "bytes \<Rightarrow> File \<Rightarrow> File" where
  "write_all bs f =
     f\<lparr>fl_data := (\<lambda>i. if fl_pos f \<le> i \<and> i < fl_pos f + length bs
                        then bs ! (i - fl_pos f) else fl_data f i),
       fl_len := (if bs = [] then fl_len f else max (fl_len f) (fl_pos f + length bs)),
       fl_pos := fl_pos f + length bs\<rparr>"

definition read_exact :: "nat \<Rightarrow> File \<Rightarrow> (bytes \<times> File) option" where
  "read_exact n f =
     (if n = 0 \<or> fl_pos f + n \<le> fl_len f
      then Some (map (fl_data f) [fl_pos f..<fl_pos f + n], f\<lparr>fl_pos := fl_pos f + n\<rparr>)
      else None)"

definition file_bytes :: "File \<Rightarrow> nat \<Rightarrow> nat \<Rightarrow> bytes" where
  "file_bytes f off n = map (fl_data f) [off..<off + n]"

subsection \<open>Laws\<close>

lemma length_file_bytes [simp]: "length (file_bytes f off n) = n"
  by (simp add: file_bytes_def)

lemma nth_file_bytes [simp]: "i < n \<Longrightarrow> file_bytes f off n ! i = fl_data f (off + i)"
  by (simp add: file_bytes_def)

lemma file_sel_simps [simp]:
  "fl_len (seek_start off f) = fl_len f"
  "fl_data (seek_start off f) = fl_data f"
  "fl_pos (seek_start off f) = off"
  "fl_pos (write_all bs f) = fl_pos f + length bs"
  "fl_len (set_len n f) = n"
  "fl_pos (set_len n f) = fl_pos f"
  by (simp_all add: seek_start_def write_all_def set_len_def)

lemma fl_len_write_all: "bs \<noteq> [] \<Longrightarrow> fl_len (write_all bs f) = max (fl_len f) (fl_pos f + length bs)"
  by (simp add: write_all_def)

lemma fl_data_write_all_in:
  "fl_pos f \<le> i \<Longrightarrow> i < fl_pos f + length bs \<Longrightarrow> fl_data (write_all bs f) i = bs ! (i - fl_pos f)"
  by (simp add: write_all_def)

lemma fl_data_write_all_out:
  "i < fl_pos f \<or> fl_pos f + length bs \<le> i \<Longrightarrow> fl_data (write_all bs f) i = fl_data f i"
  by (auto simp: write_all_def)

lemma file_bytes_write_same:
  assumes "n = length bs" "off = fl_pos f"
  shows "file_bytes (write_all bs f) off n = bs"
  by (rule nth_equalityI) (use assms in \<open>auto simp: fl_data_write_all_in\<close>)

lemma file_bytes_write_other:
  assumes "off + n \<le> fl_pos f \<or> fl_pos f + length bs \<le> off"
  shows "file_bytes (write_all bs f) off n = file_bytes f off n"
  by (rule nth_equalityI) (use assms in \<open>auto simp: fl_data_write_all_out\<close>)

lemma file_bytes_seek [simp]: "file_bytes (seek_start o' f) off n = file_bytes f off n"
  by (simp add: file_bytes_def)

lemma wf_empty_file [simp]: "wf_File empty_file"
  by (simp add: wf_File_def empty_file_def)

lemma wf_set_len [simp]: "wf_File (set_len n f)"
  by (simp add: wf_File_def set_len_def)

lemma wf_seek [simp]: "wf_File (seek_start off f) = wf_File f"
  by (simp add: wf_File_def)

lemma wf_write_all [simp]: "wf_File f \<Longrightarrow> wf_File (write_all bs f)"
  by (auto simp: wf_File_def write_all_def)

lemma read_exact_Some:
  "fl_pos f + n \<le> fl_len f \<Longrightarrow>
     read_exact n f = Some (file_bytes f (fl_pos f) n, f\<lparr>fl_pos := fl_pos f + n\<rparr>)"
  by (simp add: read_exact_def file_bytes_def)

end
