(* ===== verification/Rust_Path.thy ===== *)
theory Rust_Path
  imports Prelude
begin

text \<open>
  What the code uses of \<open>std::path::Path\<close> and of \<open>str\<close> on UTF-8 strings, which are lists of
  bytes (\<open>string\<close>): splitting, \<open>components()\<close> with its normalisation of repeated separators and
  of \<open>.\<close>, and \<open>PathBuf::push\<close>.
\<close>

fun split_char :: "char \<Rightarrow> string \<Rightarrow> string list" where
  "split_char c [] = [[]]"
| "split_char c (x # xs) =
     (if x = c then [] # split_char c xs
      else case split_char c xs of [] \<Rightarrow> [[x]] | y # ys \<Rightarrow> (x # y) # ys)"

definition starts_with :: "string \<Rightarrow> string \<Rightarrow> bool" where
  "starts_with s pre \<longleftrightarrow> take (length pre) s = pre"

definition ends_with :: "string \<Rightarrow> string \<Rightarrow> bool" where
  "ends_with s suf \<longleftrightarrow> length suf \<le> length s \<and> drop (length s - length suf) s = suf"

text \<open>
  \<open>Path::components\<close>: the root of an absolute path, a leading \<open>.\<close> of a relative one, then the
  segments that are neither empty nor \<open>.\<close>; each component by its \<open>as_os_str\<close>.
\<close>

definition components :: "string \<Rightarrow> string list" where
  "components path =
     (let segs = filter (\<lambda>s. s \<noteq> []) (split_char (CHR ''/'') path) in
      (if starts_with path ''/'' then [''/'']
       else if segs \<noteq> [] \<and> hd segs = ''.'' then [''.''] else []) @
      filter (\<lambda>s. s \<noteq> ''.'') segs)"

definition path_push :: "string \<Rightarrow> string \<Rightarrow> string" where
  "path_push path part =
     (if starts_with part ''/'' then part
      else if path = [] \<or> ends_with path ''/'' then path @ part
      else path @ ''/'' @ part)"

definition trim_end_matches :: "char \<Rightarrow> string \<Rightarrow> string" where
  "trim_end_matches c s = rev (dropWhile (\<lambda>x. x = c) (rev s))"

fun rfind :: "char \<Rightarrow> string \<Rightarrow> nat option" where
  "rfind c [] = None"
| "rfind c (x # xs) =
     (case rfind c xs of Some i \<Rightarrow> Some (Suc i) | None \<Rightarrow> if x = c then Some 0 else None)"

text \<open>A name that \<open>components()\<close> returns unchanged: not empty, not \<open>.\<close>, no separator.\<close>

definition plain_name :: "string \<Rightarrow> bool" where
  "plain_name s \<longleftrightarrow> s \<noteq> [] \<and> s \<noteq> ''.'' \<and> CHR ''/'' \<notin> set s"

definition abs_path :: "string list \<Rightarrow> string" where
  "abs_path names = (if names = [] then ''/'' else concat (map (\<lambda>n. CHR ''/'' # n) names))"

subsection \<open>Splitting\<close>

lemma split_char_nonempty [simp]: "split_char c s \<noteq> []"
  by (cases s) (auto split: list.splits)

lemma split_char_no_sep: "c \<notin> set s \<Longrightarrow> split_char c s = [s]"
  by (induction s) auto

lemma split_char_append_sep: "c \<notin> set s \<Longrightarrow> split_char c (s @ c # t) = s # split_char c t"
  by (induction s) auto

lemma split_char_parts: "p \<in> set (split_char c s) \<Longrightarrow> c \<notin> set p"
proof (induction s arbitrary: p)
  case (Cons x s)
  then show ?case by (cases "split_char c s") (auto split: if_splits)
qed simp

lemma split_abs_path:
  "list_all plain_name ns \<Longrightarrow>
     split_char (CHR ''/'') (concat (map (\<lambda>n. CHR ''/'' # n) (n # ns))) =
       (if CHR ''/'' \<in> set n then split_char (CHR ''/'') (concat (map (\<lambda>n. CHR ''/'' # n) (n # ns)))
        else [] # n # ns)"
proof (induction ns arbitrary: n)
  case Nil
  then show ?case by (simp add: split_char_no_sep)
next
  case (Cons m ns)
  have m: "CHR ''/'' \<notin> set m" using Cons.prems by (simp add: plain_name_def)
  have "split_char (CHR ''/'') (concat (map (\<lambda>n. CHR ''/'' # n) (m # ns))) = [] # m # ns"
    using Cons.IH [of m] Cons.prems m by simp
  then have "split_char (CHR ''/'') (m @ concat (map (\<lambda>n. CHR ''/'' # n) ns)) = m # ns"
    by simp
  then show ?case by (simp add: split_char_append_sep)
qed

lemma components_abs_path:
  assumes "list_all plain_name ns"
  shows "components (abs_path ns) = ''/'' # ns"
proof (cases ns)
  case Nil
  then show ?thesis by (simp add: components_def abs_path_def starts_with_def Let_def)
next
  case (Cons n ms)
  have keep: "filter (\<lambda>s. s \<noteq> []) (n # ms) = n # ms" "filter (\<lambda>s. s \<noteq> ''.'') (n # ms) = n # ms"
    using assms Cons by (auto simp: filter_id_conv list_all_iff plain_name_def)
  have "split_char (CHR ''/'') (abs_path ns) = [] # n # ms"
    using split_abs_path [of ms n] assms Cons by (auto simp: abs_path_def plain_name_def)
  then have "filter (\<lambda>s. s \<noteq> []) (split_char (CHR ''/'') (abs_path ns)) = n # ms"
    using keep by simp
  moreover have "starts_with (abs_path ns) ''/''"
    using Cons by (simp add: abs_path_def starts_with_def)
  ultimately show ?thesis
    using keep Cons by (simp only: components_def Let_def if_True append_Cons append_Nil)
qed

lemma abs_path_snoc:
  "abs_path (ns @ [n]) = (if ns = [] then ''/'' @ n else abs_path ns @ ''/'' @ n)"
  by (simp add: abs_path_def)

lemma ends_with_abs_path:
  assumes "list_all plain_name ns" "ns \<noteq> []"
  shows "\<not> ends_with (abs_path ns) ''/''"
proof -
  obtain ms n where ns: "ns = ms @ [n]" using assms(2) by (metis rev_exhaust)
  with assms have n: "n \<noteq> []" "CHR ''/'' \<notin> set n" by (auto simp: plain_name_def)
  then obtain n' c where "n = n' @ [c]" "c \<noteq> CHR ''/''" by (cases n rule: rev_cases) auto
  then show ?thesis by (simp add: ns abs_path_snoc ends_with_def)
qed

lemma path_push_abs:
  assumes "list_all plain_name ns" "plain_name n"
  shows "path_push (abs_path ns) n = abs_path (ns @ [n])"
proof -
  have "\<not> starts_with n ''/''"
    using assms(2) by (cases n) (auto simp: plain_name_def starts_with_def)
  then show ?thesis
    using assms ends_with_abs_path [of ns]
    by (cases "ns = []") (auto simp: path_push_def abs_path_def ends_with_def)
qed

subsection \<open>Last separator\<close>

lemma rfind_bound: "rfind c s = Some i \<Longrightarrow> i < length s"
  by (induction s arbitrary: i) (auto split: option.splits if_splits)

lemma rfind_None: "c \<notin> set s \<Longrightarrow> rfind c s = None"
  by (induction s) auto

lemma rfind_last: "c \<notin> set t \<Longrightarrow> rfind c (s @ c # t) = Some (length s)"
  by (induction s) (auto simp: rfind_None)

lemma trim_end_length: "length (trim_end_matches c s) \<le> length s"
  by (metis length_dropWhile_le length_rev trim_end_matches_def)

lemma trim_end_plain:
  assumes "t \<noteq> []" "c \<notin> set t"
  shows "trim_end_matches c (s @ t) = s @ t"
proof -
  obtain t' x where "t = t' @ [x]" "x \<noteq> c" using assms by (cases t rule: rev_cases) auto
  then show ?thesis by (simp add: trim_end_matches_def)
qed

end
