(* ===== verification/Rust_Str.thy ===== *)
theory Rust_Str
  imports Rust_Path
begin

text \<open>
  UTF-8 strings as the code moves them between \<open>str\<close> and byte buffers.  A \<open>string\<close> holds the
  bytes of a Rust string; \<open>utf8_lossy\<close> is \<open>String::from_utf8_lossy\<close>, which replaces every maximal
  ill-formed part by U+FFFD and leaves well-formed input alone.
\<close>

definition str_bytes :: "string \<Rightarrow> bytes" where
  "str_bytes s = map (\<lambda>c. of_nat (of_char c)) s"

definition bytes_str :: "bytes \<Rightarrow> string" where
  "bytes_str bs = map (\<lambda>b. char_of (unat b)) bs"

lemma length_str_bytes [simp]: "length (str_bytes s) = length s"
  by (simp add: str_bytes_def)

lemma length_bytes_str [simp]: "length (bytes_str s) = length s"
  by (simp add: bytes_str_def)

lemma bytes_str_str_bytes [simp]: "bytes_str (str_bytes s) = s"
proof -
  have "char_of (unat (of_nat (of_char c) :: u8)) = c" for c
  proof -
    have "(of_char c :: nat) mod 256 < 256" by simp
    then have "(of_char c :: nat) < 256" by (simp only: of_char_mod_256)
    then have "unat (of_nat (of_char c) :: u8) = of_char c" by (intro unat_of_nat_small) simp
    then show ?thesis by simp
  qed
  then show ?thesis by (simp add: bytes_str_def str_bytes_def comp_def)
qed

lemma str_bytes_inj: "str_bytes s = str_bytes t \<longleftrightarrow> s = t"
  by (metis bytes_str_str_bytes)

text \<open>
  One step of the decoder on non-empty input: \<open>Inr n\<close> is a well-formed character of \<open>n\<close> bytes,
  \<open>Inl n\<close> an ill-formed part of \<open>n\<close> bytes.
\<close>

definition byte_at :: "bytes \<Rightarrow> nat \<Rightarrow> u8" where
  "byte_at bs i = (if i < length bs then bs ! i else 0)"

definition utf8_cont :: "u8 \<Rightarrow> bool" where
  "utf8_cont b \<longleftrightarrow> 0x80 \<le> b \<and> b \<le> 0xBF"

definition utf8_step :: "bytes \<Rightarrow> nat + nat" where
  "utf8_step bs =
     (let b = byte_at bs 0; b1 = byte_at bs 1 in
      if b < 0x80 then Inr 1
      else if 0xC2 \<le> b \<and> b \<le> 0xDF then (if utf8_cont b1 then Inr 2 else Inl 1)
      else if 0xE0 \<le> b \<and> b \<le> 0xEF then
        (if (if b = 0xE0 then 0xA0 \<le> b1 \<and> b1 \<le> 0xBF
             else if b = 0xED then 0x80 \<le> b1 \<and> b1 \<le> 0x9F else utf8_cont b1)
         then if utf8_cont (byte_at bs 2) then Inr 3 else Inl 2
         else Inl 1)
      else if 0xF0 \<le> b \<and> b \<le> 0xF4 then
        (if (if b = 0xF0 then 0x90 \<le> b1 \<and> b1 \<le> 0xBF
             else if b = 0xF4 then 0x80 \<le> b1 \<and> b1 \<le> 0x8F else utf8_cont b1)
         then if utf8_cont (byte_at bs 2)
              then if utf8_cont (byte_at bs 3) then Inr 4 else Inl 3
              else Inl 2
         else Inl 1)
      else Inl 1)"

lemma utf8_step_pos:
  assumes "utf8_step bs = r"
  shows "0 < (case r of Inl n \<Rightarrow> n | Inr n \<Rightarrow> n)"
  using assms unfolding utf8_step_def Let_def by (auto split: if_splits)

definition utf8_replacement :: bytes where
  "utf8_replacement = [0xEF, 0xBF, 0xBD]"

function utf8_lossy :: "bytes \<Rightarrow> bytes" where
  "utf8_lossy bs =
     (if bs = [] then []
      else case utf8_step bs of
        Inl n \<Rightarrow> utf8_replacement @ utf8_lossy (drop n bs)
      | Inr n \<Rightarrow> take n bs @ utf8_lossy (drop n bs))"
  by pat_completeness auto
termination
  by (relation "measure length") (auto dest: utf8_step_pos)

function utf8_valid :: "bytes \<Rightarrow> bool" where
  "utf8_valid bs \<longleftrightarrow>
     (if bs = [] then True
      else case utf8_step bs of Inl n \<Rightarrow> False | Inr n \<Rightarrow> utf8_valid (drop n bs))"
  by pat_completeness auto
termination
  by (relation "measure length") (auto dest: utf8_step_pos)

declare utf8_lossy.simps [simp del] utf8_valid.simps [simp del]

lemma utf8_lossy_valid: "utf8_valid bs \<Longrightarrow> utf8_lossy bs = bs"
proof (induction bs rule: utf8_valid.induct)
  case (1 bs)
  show ?case
  proof (cases "bs = []")
    case False
    with "1.prems" obtain n where n: "utf8_step bs = Inr n" "utf8_valid (drop n bs)"
      by (subst (asm) utf8_valid.simps) (auto split: sum.splits)
    with "1.IH" False show ?thesis by (subst utf8_lossy.simps) simp
  qed (simp add: utf8_lossy.simps)
qed

lemma utf8_valid_ascii: "\<forall>b \<in> set bs. b < 0x80 \<Longrightarrow> utf8_valid bs"
proof (induction bs)
  case (Cons b bs)
  then have "utf8_step (b # bs) = Inr 1" by (simp add: utf8_step_def byte_at_def)
  with Cons show ?case by (subst utf8_valid.simps) simp
qed (simp add: utf8_valid.simps)

subsection \<open>Suffixes of well-formed text\<close>

lemma utf8_step_chars:
  assumes "utf8_step bs = Inr n"
  shows "n \<le> 4 \<and> (\<forall>i. 0 < i \<longrightarrow> i < n \<longrightarrow> utf8_cont (byte_at bs i))"
proof -
  have w: "0x80 \<le> b" if "0x90 \<le> b \<or> 0xA0 \<le> b" for b :: u8
    using that by (auto intro: order_trans [of "0x80" "0x90"] order_trans [of "0x80" "0xA0"])
  have w2: "b \<le> 0xBF" if "b \<le> 0x8F \<or> b \<le> 0x9F" for b :: u8
    using that by (auto intro: order_trans [of b "0x8F"] order_trans [of b "0x9F"])
  have "i < n \<Longrightarrow> 0 < i \<Longrightarrow> n \<le> 4 \<Longrightarrow> i = 1 \<or> i = 2 \<or> i = 3" for i by arith
  then show ?thesis
    using assms unfolding utf8_step_def Let_def
    by (auto split: if_splits simp: less_Suc_eq numeral_eq_Suc utf8_cont_def intro: w w2)
qed

lemma utf8_step_length:
  assumes "utf8_step bs = Inr n" "bs \<noteq> []"
  shows "n \<le> length bs"
proof (rule ccontr)
  assume n: "\<not> n \<le> length bs"
  then have "utf8_cont (byte_at bs (length bs))" using utf8_step_chars [OF assms(1)] assms(2) by simp
  then show False by (simp add: byte_at_def utf8_cont_def)
qed

lemma utf8_lossy_conts:
  "list_all utf8_cont cs \<Longrightarrow> utf8_lossy (cs @ bs) = concat (replicate (length cs) utf8_replacement) @ utf8_lossy bs"
proof (induction cs)
  case (Cons c cs)
  then have c: "0x80 \<le> c" "c \<le> 0xBF" by (auto simp: utf8_cont_def)
  from c(2) have "\<not> 0xC2 \<le> c" "\<not> 0xE0 \<le> c" "\<not> 0xF0 \<le> c"
    by (auto dest: order_trans)
  moreover have "byte_at (c # cs @ bs) 0 = c" by (simp add: byte_at_def)
  moreover have "\<not> c < 0x80" using c(1) by simp
  ultimately have "utf8_step (c # cs @ bs) = Inl 1" unfolding utf8_step_def Let_def by (simp only: if_False simp_thms)
  with Cons show ?case by (subst utf8_lossy.simps) simp
qed simp

lemma utf8_lossy_suffix:
  assumes "utf8_valid bs"
  shows "length (utf8_lossy (drop k bs)) \<le> length (drop k bs) + 6"
  using assms
proof (induction bs arbitrary: k rule: utf8_valid.induct)
  case (1 bs)
  show ?case
  proof (cases "bs = [] \<or> k = 0")
    case True
    with "1.prems" show ?thesis by (auto simp: utf8_lossy_valid utf8_lossy.simps [of "[]"])
  next
    case False
    with "1.prems" obtain n where n: "utf8_step bs = Inr n" "utf8_valid (drop n bs)"
      by (subst (asm) utf8_valid.simps) (auto split: sum.splits)
    show ?thesis
    proof (cases "n \<le> k")
      case True
      with "1.IH" [of n "k - n"] False n show ?thesis by simp
    next
      case small: False
      have len: "n \<le> 4" "n \<le> length bs"
        using utf8_step_chars [OF n(1)] utf8_step_length [OF n(1)] False by auto
      have cont: "list_all utf8_cont (take (n - k) (drop k bs))"
        using utf8_step_chars [OF n(1)] False len by (auto simp: list_all_length byte_at_def)
      have "drop (n - k) (drop k bs) = drop n bs" using small by simp
      then have "drop k bs = take (n - k) (drop k bs) @ drop n bs" by (metis append_take_drop_id)
      then have "utf8_lossy (drop k bs) = concat (replicate (n - k) utf8_replacement) @ drop n bs"
        using utf8_lossy_conts [OF cont, of "drop n bs"] len small n(2) by (simp add: utf8_lossy_valid)
      then have "length (utf8_lossy (drop k bs)) = (n - k) * 3 + (length bs - n)"
        by (simp add: length_concat utf8_replacement_def sum_list_replicate)
      moreover have "n - k \<le> 3" using len small False by linarith
      ultimately show ?thesis using len(2) small by simp
    qed
  qed
qed

end
