(* ===== verification/Ext4_FileTree.thy ===== *)
theory Ext4_FileTree
  imports Ext4_Types Rust_Path
begin

text \<open>
  \<open>common/ext4/src/file_tree.rs\<close>: the flat vector of nodes in which the formatter keeps the
  directory structure.  \<open>None\<close> in a result is a panic (an index out of bounds); \<open>lookup\<close> returns
  an option of its own inside it.  The locale \<open>namespace\<close> is what the formatter relies on: how
  resolution of a path behaves when children are added and removed.
\<close>

section \<open>Data\<close>

record BlockRange =
  br_start :: u32
  br_end :: u32

record FileTreeNode =
  n_inode :: u32
  n_name :: string
  n_children :: "nat list"
  n_parent :: "nat option"
  n_blocks :: "BlockRange option"
  n_additional_blocks :: "BlockRange list"
  n_link :: "u32 option"

record FileTree =
  t_nodes :: "FileTreeNode list"
  t_root :: nat

section \<open>Operations\<close>

definition FileTree_new :: "u32 \<Rightarrow> string \<Rightarrow> FileTree" where
  "FileTree_new root_ino name =
     \<lparr>t_nodes = [\<lparr>n_inode = root_ino, n_name = name, n_children = [], n_parent = None,
                 n_blocks = None, n_additional_blocks = [], n_link = None\<rparr>],
      t_root = 0\<rparr>"

definition node :: "FileTree \<Rightarrow> nat \<Rightarrow> FileTreeNode option" where
  "node t idx = (if idx < length (t_nodes t) then Some (t_nodes t ! idx) else None)"

definition node_mut :: "FileTree \<Rightarrow> nat \<Rightarrow> (FileTreeNode \<Rightarrow> FileTreeNode) \<Rightarrow> FileTree option" where
  "node_mut t idx f =
     (if idx < length (t_nodes t) then Some (t\<lparr>t_nodes := (t_nodes t)[idx := f (t_nodes t ! idx)]\<rparr>)
      else None)"

fun find_child :: "FileTreeNode list \<Rightarrow> nat list \<Rightarrow> string \<Rightarrow> nat option option" where
  "find_child nodes [] name = Some None"
| "find_child nodes (c # cs) name =
     (if c < length nodes
      then if n_name (nodes ! c) = name then Some (Some c) else find_child nodes cs name
      else None)"

fun lookup_from :: "FileTree \<Rightarrow> nat \<Rightarrow> string list \<Rightarrow> nat option option" where
  "lookup_from t current [] = Some (Some current)"
| "lookup_from t current (name # names) =
     (if name = ''/'' \<or> name = [] then lookup_from t current names
      else case node t current of
        None \<Rightarrow> None
      | Some nd \<Rightarrow>
          (case find_child (t_nodes t) (n_children nd) name of
             None \<Rightarrow> None
           | Some None \<Rightarrow> Some None
           | Some (Some child_idx) \<Rightarrow> lookup_from t child_idx names))"

definition lookup :: "FileTree \<Rightarrow> string \<Rightarrow> nat option option" where
  "lookup t path = lookup_from t (t_root t) (components path)"

definition add_child :: "FileTree \<Rightarrow> nat \<Rightarrow> FileTreeNode \<Rightarrow> (FileTree \<times> nat) option" where
  "add_child t parent nd =
     (let idx = length (t_nodes t);
          t1 = t\<lparr>t_nodes := t_nodes t @ [nd\<lparr>n_parent := Some parent\<rparr>]\<rparr>
      in map_option (\<lambda>t2. (t2, idx))
           (node_mut t1 parent (\<lambda>p. p\<lparr>n_children := n_children p @ [idx]\<rparr>)))"

fun child_position :: "FileTreeNode list \<Rightarrow> nat list \<Rightarrow> string \<Rightarrow> nat option option" where
  "child_position nodes [] name = Some None"
| "child_position nodes (c # cs) name =
     (if c < length nodes
      then if n_name (nodes ! c) = name then Some (Some 0)
           else map_option (map_option Suc) (child_position nodes cs name)
      else None)"

definition remove_at :: "nat \<Rightarrow> 'a list \<Rightarrow> 'a list" where
  "remove_at i xs = take i xs @ drop (Suc i) xs"

definition remove_child :: "FileTree \<Rightarrow> nat \<Rightarrow> string \<Rightarrow> FileTree option" where
  "remove_child t parent name =
     (case node t parent of
        None \<Rightarrow> None
      | Some p \<Rightarrow>
          (case child_position (t_nodes t) (n_children p) name of
             None \<Rightarrow> None
           | Some None \<Rightarrow> Some t
           | Some (Some pos) \<Rightarrow>
               node_mut t parent (\<lambda>p. p\<lparr>n_children := remove_at pos (n_children p)\<rparr>)))"

text \<open>
  \<open>node_path\<close> climbs the parent chain.  \<open>climb\<close> collects the names from the node upwards; a
  parent cycle never returns.
\<close>

partial_function (option) climb :: "FileTree \<Rightarrow> nat \<Rightarrow> string list \<Rightarrow> string list option" where
  "climb t current parts =
     (if current < length (t_nodes t)
      then case n_parent (t_nodes t ! current) of
             None \<Rightarrow> Some (n_name (t_nodes t ! current) # parts)
           | Some parent \<Rightarrow> climb t parent (n_name (t_nodes t ! current) # parts)
      else None)"

definition node_path :: "FileTree \<Rightarrow> nat \<Rightarrow> string option" where
  "node_path t idx = map_option (foldl path_push []) (climb t idx [])"

section \<open>Invariant\<close>

definition wf_tree :: "FileTree \<Rightarrow> bool" where
  "wf_tree t \<longleftrightarrow>
     t_root t = 0 \<and> 0 < length (t_nodes t) \<and> n_parent (t_nodes t ! 0) = None \<and>
     (\<forall>i < length (t_nodes t). 0 < i \<longrightarrow>
        (\<exists>p < i. n_parent (t_nodes t ! i) = Some p)) \<and>
     (\<forall>i < length (t_nodes t).
        distinct (map (\<lambda>c. n_name (t_nodes t ! c)) (n_children (t_nodes t ! i))) \<and>
        (\<forall>c \<in> set (n_children (t_nodes t ! i)).
           i < c \<and> c < length (t_nodes t) \<and> n_parent (t_nodes t ! c) = Some i))"

inductive attached :: "FileTree \<Rightarrow> nat \<Rightarrow> bool" for t where
  attached_root: "attached t (t_root t)"
| attached_child: "attached t i \<Longrightarrow> i < length (t_nodes t) \<Longrightarrow> c \<in> set (n_children (t_nodes t ! i))
    \<Longrightarrow> attached t c"

text \<open>The first child of a node with a given name, for indices in bounds.\<close>

definition child :: "FileTree \<Rightarrow> nat \<Rightarrow> string \<Rightarrow> nat option" where
  "child t i name =
     (if i < length (t_nodes t)
      then find (\<lambda>c. n_name (t_nodes t ! c) = name) (n_children (t_nodes t ! i)) else None)"

subsection \<open>The operations do not panic on a well-formed tree\<close>

lemma wf_treeD:
  assumes "wf_tree t"
  shows "t_root t = 0" "0 < length (t_nodes t)" "n_parent (t_nodes t ! 0) = None"
    "\<And>i. i < length (t_nodes t) \<Longrightarrow> 0 < i \<Longrightarrow> \<exists>p < i. n_parent (t_nodes t ! i) = Some p"
    "\<And>i. i < length (t_nodes t) \<Longrightarrow>
       distinct (map (\<lambda>c. n_name (t_nodes t ! c)) (n_children (t_nodes t ! i)))"
    "\<And>i c. i < length (t_nodes t) \<Longrightarrow> c \<in> set (n_children (t_nodes t ! i)) \<Longrightarrow>
       i < c \<and> c < length (t_nodes t) \<and> n_parent (t_nodes t ! c) = Some i"
  using assms unfolding wf_tree_def by blast+

lemma find_child_find:
  "\<forall>c \<in> set cs. c < length nodes \<Longrightarrow>
     find_child nodes cs name = Some (find (\<lambda>c. n_name (nodes ! c) = name) cs)"
  by (induction cs) auto

lemma children_bounded:
  "wf_tree t \<Longrightarrow> i < length (t_nodes t) \<Longrightarrow> \<forall>c \<in> set (n_children (t_nodes t ! i)). c < length (t_nodes t)"
  using wf_treeD(6) by blast

lemma find_child_child:
  "wf_tree t \<Longrightarrow> i < length (t_nodes t) \<Longrightarrow>
     find_child (t_nodes t) (n_children (t_nodes t ! i)) name = Some (child t i name)"
  using find_child_find [OF children_bounded, of t i name] by (simp add: child_def)

lemma find_SomeD: "find P xs = Some x \<Longrightarrow> x \<in> set xs \<and> P x"
  by (induction xs) (auto split: if_splits)

lemma find_distinct:
  assumes "distinct (map f xs)" "x \<in> set xs"
  shows "find (\<lambda>y. f y = f x) xs = Some x"
  using assms by (induction xs) (auto intro: rev_image_eqI)

lemma child_SomeD:
  assumes "child t i name = Some c"
  shows "i < length (t_nodes t)" "c \<in> set (n_children (t_nodes t ! i))" "n_name (t_nodes t ! c) = name"
  using assms by (auto simp: child_def split: if_splits dest: find_SomeD)

lemma child_bounds: "wf_tree t \<Longrightarrow> child t i name = Some c \<Longrightarrow> i < c \<and> c < length (t_nodes t)"
  using child_SomeD [of t i name c] wf_treeD(6) [of t i c] by blast

lemma child_name:
  "wf_tree t \<Longrightarrow> i < length (t_nodes t) \<Longrightarrow> c \<in> set (n_children (t_nodes t ! i)) \<Longrightarrow>
     child t i (n_name (t_nodes t ! c)) = Some c"
  using find_distinct [OF wf_treeD(5)] by (simp add: child_def)

lemma attached_bounds: "attached t i \<Longrightarrow> wf_tree t \<Longrightarrow> i < length (t_nodes t)"
proof (induction rule: attached.induct)
  case attached_root
  then show ?case using wf_treeD(1, 2) by metis
next
  case (attached_child i c)
  then show ?case using wf_treeD(6) by blast
qed

lemma attached_child_step: "attached t i \<Longrightarrow> child t i name = Some c \<Longrightarrow> attached t c"
  using child_SomeD by (blast intro: attached_child)

section \<open>The interface of a namespace\<close>

text \<open>
  Nodes are numbers, \<open>chld\<close> resolves one name in one node, \<open>add\<close> and \<open>rm\<close> change one entry
  of one node.  The client's view is \<open>walk\<close>: the resolution of a sequence of names.
\<close>

locale namespace =
  fixes inv :: "'t \<Rightarrow> bool"
    and valid :: "'t \<Rightarrow> nat \<Rightarrow> bool"
    and chld :: "'t \<Rightarrow> nat \<Rightarrow> string \<Rightarrow> nat option"
    and add :: "'t \<Rightarrow> nat \<Rightarrow> 'd \<Rightarrow> ('t \<times> nat) option"
    and entry_ok :: "'d \<Rightarrow> bool"
    and entry_name :: "'d \<Rightarrow> string"
    and rm :: "'t \<Rightarrow> nat \<Rightarrow> string \<Rightarrow> 't option"
  assumes chld_valid: "inv t \<Longrightarrow> chld t i n = Some c \<Longrightarrow> valid t c \<and> i < c"
    and add_total: "inv t \<Longrightarrow> valid t p \<Longrightarrow> \<exists>t' i. add t p d = Some (t', i)"
    and add_inv: "inv t \<Longrightarrow> valid t p \<Longrightarrow> entry_ok d \<Longrightarrow> chld t p (entry_name d) = None \<Longrightarrow>
      add t p d = Some (t', i) \<Longrightarrow> inv t'"
    and add_fresh: "inv t \<Longrightarrow> valid t p \<Longrightarrow> add t p d = Some (t', i) \<Longrightarrow>
      \<not> valid t i \<and> (\<forall>j. valid t' j \<longleftrightarrow> valid t j \<or> j = i)"
    and chld_add: "inv t \<Longrightarrow> valid t p \<Longrightarrow> entry_ok d \<Longrightarrow> chld t p (entry_name d) = None \<Longrightarrow>
      add t p d = Some (t', i) \<Longrightarrow>
      chld t' q n = (if q = p \<and> n = entry_name d then Some i else if q = i then None else chld t q n)"
    and rm_total: "inv t \<Longrightarrow> valid t p \<Longrightarrow> \<exists>t'. rm t p n = Some t'"
    and rm_inv: "inv t \<Longrightarrow> rm t p n = Some t' \<Longrightarrow> inv t' \<and> (\<forall>j. valid t' j = valid t j)"
    and chld_rm: "inv t \<Longrightarrow> rm t p n = Some t' \<Longrightarrow>
      chld t' q m = (if q = p \<and> m = n then None else chld t q m)"
begin

primrec walk :: "'t \<Rightarrow> nat \<Rightarrow> string list \<Rightarrow> nat option" where
  "walk t i [] = Some i"
| "walk t i (n # ns) = (case chld t i n of None \<Rightarrow> None | Some c \<Rightarrow> walk t c ns)"

lemma walk_append: "walk t i (ns @ ms) = (case walk t i ns of None \<Rightarrow> None | Some j \<Rightarrow> walk t j ms)"
  by (induction ns arbitrary: i) (auto split: option.splits)

lemma walk_valid: "inv t \<Longrightarrow> valid t i \<Longrightarrow> walk t i ns = Some j \<Longrightarrow> valid t j \<and> i \<le> j"
proof (induction ns arbitrary: i)
  case (Cons n ns)
  then obtain c where c: "chld t i n = Some c" "walk t c ns = Some j" by (auto split: option.splits)
  with Cons.prems have "valid t c" "i < c" by (auto dest: chld_valid)
  with Cons.IH [OF Cons.prems(1) _ c(2)] show ?case by simp
qed simp

lemma walk_increasing: "inv t \<Longrightarrow> walk t i ns = Some j \<Longrightarrow> i = j \<longleftrightarrow> ns = []"
proof (induction ns arbitrary: i)
  case (Cons n ns)
  from Cons.prems obtain c where c: "chld t i n = Some c" "walk t c ns = Some j"
    by (auto split: option.splits)
  with Cons.prems(1) have "i < c" "valid t c" by (auto dest: chld_valid)
  moreover from walk_valid [OF Cons.prems(1) \<open>valid t c\<close> c(2)] have "c \<le> j" by simp
  ultimately show ?case by simp
qed simp

text \<open>Adding an entry keeps every resolution that succeeded and makes the new path resolve.\<close>

lemma walk_add_old:
  assumes "inv t" "valid t p" "entry_ok d" "chld t p (entry_name d) = None" "add t p d = Some (t', i)"
    and "valid t r" "walk t r ns = Some j"
  shows "walk t' r ns = Some j"
  using assms(6, 7)
proof (induction ns arbitrary: r)
  case (Cons n ns)
  from Cons.prems obtain c where c: "chld t r n = Some c" "walk t c ns = Some j"
    by (auto split: option.splits)
  have "r \<noteq> i" using add_fresh [OF assms(1, 2, 5)] Cons.prems(1) by auto
  moreover have "\<not> (r = p \<and> n = entry_name d)" using c(1) assms(4) by auto
  ultimately have "chld t' r n = Some c"
    using c(1) chld_add [OF assms(1-5), of r n] by (simp split: if_splits) blast
  moreover have "valid t c" using chld_valid [OF assms(1) c(1)] by simp
  ultimately show ?case using Cons.IH c(2) by simp
qed simp

lemma walk_add_new:
  assumes "inv t" "valid t p" "entry_ok d" "chld t p (entry_name d) = None" "add t p d = Some (t', i)"
    and "valid t r" "walk t r ns = Some p"
  shows "walk t' r (ns @ [entry_name d]) = Some i"
  using walk_add_old [OF assms] chld_add [OF assms(1-5), of p "entry_name d"]
  by (simp add: walk_append)

text \<open>A path that resolves after the addition and not before ends at the new entry.\<close>

lemma walk_add_only:
  assumes "inv t" "valid t p" "entry_ok d" "chld t p (entry_name d) = None" "add t p d = Some (t', i)"
    and "valid t r" "walk t' r ns = Some j"
  shows "walk t r ns = Some j \<or> j = i \<and> (\<exists>ms. ns = ms @ [entry_name d] \<and> walk t r ms = Some p)"
  using assms(6, 7)
proof (induction ns arbitrary: r)
  case (Cons n ns)
  from Cons.prems obtain c where c: "chld t' r n = Some c" "walk t' c ns = Some j"
    by (auto split: option.splits)
  have r: "r \<noteq> i" using add_fresh [OF assms(1, 2, 5)] Cons.prems(1) by auto
  show ?case
  proof (cases "r = p \<and> n = entry_name d")
    case True
    then have ci: "c = i" using c(1) chld_add [OF assms(1-5), of r n] by simp
    have "chld t' i m = None" for m
      using chld_add [OF assms(1-5), of i m] add_fresh [OF assms(1, 2, 5)] assms(2) by auto
    then have "ns = [] \<and> j = i" using c(2) ci by (cases ns) auto
    with True show ?thesis by (intro disjI2) (auto intro!: exI [of _ "[]"])
  next
    case False
    with r have tc: "chld t r n = Some c" using c(1) chld_add [OF assms(1-5), of r n] by auto
    then have "valid t c" using chld_valid [OF assms(1)] by blast
    from Cons.IH [OF this c(2)] show ?thesis
    proof
      assume "j = i \<and> (\<exists>ms. ns = ms @ [entry_name d] \<and> walk t c ms = Some p)"
      then obtain ms where "j = i" "ns = ms @ [entry_name d]" "walk t c ms = Some p" by blast
      with tc show ?thesis by (intro disjI2 conjI exI [of _ "n # ms"]) auto
    qed (simp add: tc)
  qed
qed simp

text \<open>Removing an entry only takes resolutions away, and those are the paths through it.\<close>

lemma walk_rm_sub:
  assumes "inv t" "rm t p n = Some t'"
  shows "walk t' r ns = Some j \<Longrightarrow> walk t r ns = Some j"
proof (induction ns arbitrary: r)
  case (Cons m ns)
  then obtain c where "chld t' r m = Some c" "walk t' c ns = Some j" by (auto split: option.splits)
  moreover from this have "chld t r m = Some c"
    using chld_rm [OF assms, of r m] by (auto split: if_splits)
  ultimately show ?case using Cons.IH by simp
qed simp

lemma walk_rm_gone:
  assumes "inv t" "rm t p n = Some t'" "walk t r ms = Some p"
  shows "walk t' r (ms @ n # ks) = None"
proof (cases "walk t' r ms")
  case (Some q)
  with walk_rm_sub [OF assms(1, 2) this] assms(3) have "q = p" by simp
  with Some chld_rm [OF assms(1, 2), of p n] show ?thesis by (simp add: walk_append)
qed (simp add: walk_append)

lemma walk_rm_keep:
  assumes "inv t" "rm t p n = Some t'"
  shows "walk t r ns = Some j \<Longrightarrow> \<forall>ms ks. ns = ms @ n # ks \<longrightarrow> walk t r ms \<noteq> Some p \<Longrightarrow>
    walk t' r ns = Some j"
proof (induction ns arbitrary: r)
  case (Cons m ns)
  from Cons.prems(1) obtain c where c: "chld t r m = Some c" "walk t c ns = Some j"
    by (auto split: option.splits)
  have "\<not> (r = p \<and> m = n)" using Cons.prems(2) [rule_format, of "[]" ns] by auto
  then have "chld t' r m = Some c" using c(1) chld_rm [OF assms, of r m] by auto
  moreover have "\<forall>ms ks. ns = ms @ n # ks \<longrightarrow> walk t c ms \<noteq> Some p"
    using Cons.prems(2) [rule_format, of "m # ms" for ms] c(1) by simp
  ultimately show ?case using Cons.IH c(2) by simp
qed simp

end

section \<open>The file tree is a namespace\<close>

lemma node_mut_simps:
  "node_mut t p f = Some t' \<longleftrightarrow>
     p < length (t_nodes t) \<and> t' = t\<lparr>t_nodes := (t_nodes t)[p := f (t_nodes t ! p)]\<rparr>"
  by (auto simp: node_mut_def)

lemma add_childD:
  assumes "add_child t p d = Some (t', i)" "p < length (t_nodes t)"
  shows "i = length (t_nodes t)" "t_root t' = t_root t" "length (t_nodes t') = Suc i"
    "t_nodes t' ! i = d\<lparr>n_parent := Some p\<rparr>"
    "\<And>j. j < i \<Longrightarrow> t_nodes t' ! j = (if j = p
       then (t_nodes t ! p)\<lparr>n_children := n_children (t_nodes t ! p) @ [i]\<rparr> else t_nodes t ! j)"
  using assms by (auto simp: add_child_def Let_def node_mut_simps nth_append nth_list_update)

lemma add_child_names:
  assumes "add_child t p d = Some (t', i)" "p < length (t_nodes t)" "j < length (t_nodes t)"
  shows "n_name (t_nodes t' ! j) = n_name (t_nodes t ! j)"
    "n_parent (t_nodes t' ! j) = n_parent (t_nodes t ! j)"
  using add_childD(1) [OF assms(1, 2)] add_childD(5) [OF assms(1, 2), of j] assms(3) by auto

lemma find_append:
  "find P (xs @ ys) = (case find P xs of None \<Rightarrow> find P ys | Some x \<Rightarrow> Some x)"
  by (induction xs) auto

lemma find_cong_set: "(\<And>x. x \<in> set xs \<Longrightarrow> P x = Q x) \<Longrightarrow> find P xs = find Q xs"
  by (rule find_cong) auto

lemma child_add_child:
  assumes wf: "wf_tree t" and p: "p < length (t_nodes t)" and leaf: "n_children d = []"
    and new: "child t p (n_name d) = None" and add: "add_child t p d = Some (t', i)"
  shows "child t' q n = (if q = p \<and> n = n_name d then Some i else if q = i then None else child t q n)"
proof -
  note A = add_childD [OF add p]
  consider "q = i" | "q = p" | "q < i" "q \<noteq> p" | "i < q" by linarith
  then show ?thesis
  proof cases
    case 1
    then show ?thesis using A p leaf by (simp add: child_def)
  next
    case 2
    have cs: "find (\<lambda>c. n_name (t_nodes t' ! c) = n) (n_children (t_nodes t ! p)) = child t p n"
      using p children_bounded [OF wf p] add_child_names(1) [OF add p]
      by (auto simp: child_def intro: find_cong_set)
    have "child t' p n = (case child t p n of
        None \<Rightarrow> find (\<lambda>c. n_name (t_nodes t' ! c) = n) [i] | Some x \<Rightarrow> Some x)"
      using p A(3, 5) A(1) [symmetric] by (simp add: child_def [of t'] find_append cs)
    then show ?thesis using 2 A(1, 4) p new by (auto split: option.split)
  next
    case 3
    then show ?thesis
      using A children_bounded [OF wf, of q] add_child_names(1) [OF add p]
      by (auto simp: child_def intro: find_cong_set)
  next
    case 4
    then show ?thesis using A p by (auto simp: child_def)
  qed
qed

lemma wf_add_child:
  assumes wf: "wf_tree t" and p: "p < length (t_nodes t)" and leaf: "n_children d = []"
    and new: "child t p (n_name d) = None" and add: "add_child t p d = Some (t', i)"
  shows "wf_tree t'"
proof -
  note A = add_childD [OF add p] and N = add_child_names [OF add p]
  have cs: "c < length (t_nodes t)" if "j < length (t_nodes t)" "c \<in> set (n_children (t_nodes t ! j))" for j c
    using children_bounded [OF wf that(1)] that(2) by blast
  have names: "map (\<lambda>c. n_name (t_nodes t' ! c)) (n_children (t_nodes t ! j))
      = map (\<lambda>c. n_name (t_nodes t ! c)) (n_children (t_nodes t ! j))" if "j < length (t_nodes t)" for j
    using cs [OF that] N(1) by simp
  have notin: "n_name d \<notin> (\<lambda>c. n_name (t_nodes t ! c)) ` set (n_children (t_nodes t ! p))"
    using new p by (auto simp: child_def find_None_iff)
  have kids: "distinct (map (\<lambda>c. n_name (t_nodes t' ! c)) (n_children (t_nodes t' ! j))) \<and>
      (\<forall>c \<in> set (n_children (t_nodes t' ! j)).
         j < c \<and> c < length (t_nodes t') \<and> n_parent (t_nodes t' ! c) = Some j)"
    if "j < length (t_nodes t')" for j
  proof (cases "j = i")
    case True
    then show ?thesis using A(4) leaf by simp
  next
    case False
    then have j: "j < length (t_nodes t)" using that A(1, 3) by simp
    note D = wf_treeD(5) [OF wf j]
    have C: "\<forall>c \<in> set (n_children (t_nodes t ! j)).
        j < c \<and> c < length (t_nodes t') \<and> n_parent (t_nodes t' ! c) = Some j"
    proof
      fix c
      assume "c \<in> set (n_children (t_nodes t ! j))"
      from wf_treeD(6) [OF wf j this] N(2) [of c] A(1, 3)
      show "j < c \<and> c < length (t_nodes t') \<and> n_parent (t_nodes t' ! c) = Some j" by simp
    qed
    show ?thesis
    proof (cases "j = p")
      case True
      have "distinct (map (\<lambda>c. n_name (t_nodes t' ! c)) (n_children (t_nodes t ! p) @ [i]))"
        unfolding map_append names [OF p] using D notin True A(4) by simp
      moreover have "n_children (t_nodes t' ! p) = n_children (t_nodes t ! p) @ [i]"
        using A(1, 5) p by simp
      ultimately show ?thesis using C p A(1, 3, 4) unfolding True by simp
    next
      case False
      then have same: "n_children (t_nodes t' ! j) = n_children (t_nodes t ! j)" using A(1, 5) j by simp
      show ?thesis
        unfolding same names [OF j] using C D by (rule conjI [rotated])
    qed
  qed
  have parents: "\<exists>q < j. n_parent (t_nodes t' ! j) = Some q" if "j < length (t_nodes t')" "0 < j" for j
  proof (cases "j = i")
    case True
    then show ?thesis using A(1, 4) p by simp
  next
    case False
    then have "j < length (t_nodes t)" using that(1) A(1, 3) by simp
    from wf_treeD(4) [OF wf this that(2)] N(2) [OF this] show ?thesis by metis
  qed
  have "t_root t' = 0" "0 < length (t_nodes t')" "n_parent (t_nodes t' ! 0) = None"
    using A(2, 3) wf_treeD(1, 2, 3) [OF wf] N(2) [of 0] by simp_all
  with parents kids show ?thesis unfolding wf_tree_def by blast
qed

lemma child_position_total:
  "\<forall>c \<in> set cs. c < length nodes \<Longrightarrow> \<exists>r. child_position nodes cs name = Some r"
  by (induction cs) auto

lemma child_position_None:
  "child_position nodes cs name = Some None \<Longrightarrow> find (\<lambda>c. n_name (nodes ! c) = name) cs = None"
  by (induction cs) (auto split: if_splits)

lemma child_position_Some:
  "child_position nodes cs name = Some (Some pos) \<Longrightarrow>
     pos < length cs \<and> n_name (nodes ! (cs ! pos)) = name"
  by (induction cs arbitrary: pos) (auto split: if_splits)

lemma remove_at_map: "map f (remove_at i xs) = remove_at i (map f xs)"
  by (simp add: remove_at_def take_map drop_map)

lemma distinct_remove_at: "distinct xs \<Longrightarrow> distinct (remove_at i xs)"
  using set_take_disj_set_drop_if_distinct [of xs i "Suc i"] by (simp add: remove_at_def)

lemma find_remove_at:
  assumes "distinct (map f xs)" "i < length xs" "f (xs ! i) = n"
  shows "find (\<lambda>x. f x = m) (remove_at i xs) = (if m = n then None else find (\<lambda>x. f x = m) xs)"
proof -
  have xs: "xs = take i xs @ xs ! i # drop (Suc i) xs"
    using assms(2) by (rule id_take_nth_drop)
  have "n \<notin> f ` set (take i xs)" "n \<notin> f ` set (drop (Suc i) xs)"
    using assms(1, 3) by (subst (asm) xs, auto)+
  then have "find (\<lambda>x. f x = n) (remove_at i xs) = None"
    by (auto simp: remove_at_def find_None_iff)
  moreover have "find (\<lambda>x. f x = m) (remove_at i xs) = find (\<lambda>x. f x = m) xs" if "m \<noteq> n"
    using that assms(3) by (subst (2) xs) (auto simp: remove_at_def find_append split: option.split)
  ultimately show ?thesis by simp
qed

lemma remove_child_bound: "remove_child t p name = Some t' \<Longrightarrow> p < length (t_nodes t)"
  by (auto simp: remove_child_def node_def split: if_splits)

lemma remove_child_cases:
  assumes "wf_tree t" "remove_child t p name = Some t'"
  obtains (same) "t' = t" "child t p name = None"
  | (removed) pos where "pos < length (n_children (t_nodes t ! p))"
      "n_name (t_nodes t ! (n_children (t_nodes t ! p) ! pos)) = name"
      "t' = t\<lparr>t_nodes := (t_nodes t)[p := (t_nodes t ! p)
         \<lparr>n_children := remove_at pos (n_children (t_nodes t ! p))\<rparr>]\<rparr>"
proof -
  have p: "p < length (t_nodes t)" by (rule remove_child_bound [OF assms(2)])
  then obtain r where r: "child_position (t_nodes t) (n_children (t_nodes t ! p)) name = Some r"
    using child_position_total [OF children_bounded [OF assms(1)]] by blast
  show thesis
  proof (cases r)
    case None
    then have "t' = t" using assms(2) p r by (simp add: remove_child_def node_def)
    moreover have "child t p name = None"
      using child_position_None [of "t_nodes t"] r None p by (simp add: child_def)
    ultimately show thesis by (rule same)
  next
    case (Some pos)
    then have "t' = t\<lparr>t_nodes := (t_nodes t)[p := (t_nodes t ! p)
         \<lparr>n_children := remove_at pos (n_children (t_nodes t ! p))\<rparr>]\<rparr>"
      using assms(2) p r by (simp add: remove_child_def node_def node_mut_def)
    with child_position_Some [of "t_nodes t"] r Some show thesis by (intro removed) auto
  qed
qed

lemma remove_child_nodes:
  assumes "wf_tree t" "remove_child t p name = Some t'"
  shows "t_root t' = t_root t" "length (t_nodes t') = length (t_nodes t)"
    "n_name (t_nodes t' ! j) = n_name (t_nodes t ! j)"
    "n_parent (t_nodes t' ! j) = n_parent (t_nodes t ! j)"
    "n_inode (t_nodes t' ! j) = n_inode (t_nodes t ! j)"
    "n_link (t_nodes t' ! j) = n_link (t_nodes t ! j)"
    "n_blocks (t_nodes t' ! j) = n_blocks (t_nodes t ! j)"
    "n_additional_blocks (t_nodes t' ! j) = n_additional_blocks (t_nodes t ! j)"
    "j \<noteq> p \<Longrightarrow> t_nodes t' ! j = t_nodes t ! j"
  by (rule remove_child_cases [OF assms]; use remove_child_bound [OF assms(2)] in
      \<open>auto simp: nth_list_update\<close>)+

lemma child_remove_child:
  assumes wf: "wf_tree t" and rm: "remove_child t p name = Some t'"
  shows "child t' q n = (if q = p \<and> n = name then None else child t q n)"
proof -
  note p = remove_child_bound [OF rm] and N = remove_child_nodes [OF assms]
  show ?thesis
  proof (rule remove_child_cases [OF assms])
    fix pos
    assume rmv: "pos < length (n_children (t_nodes t ! p))"
      "n_name (t_nodes t ! (n_children (t_nodes t ! p) ! pos)) = name"
      "t' = t\<lparr>t_nodes := (t_nodes t)[p := (t_nodes t ! p)
         \<lparr>n_children := remove_at pos (n_children (t_nodes t ! p))\<rparr>]\<rparr>"
    have "find (\<lambda>c. n_name (t_nodes t' ! c) = n) = find (\<lambda>c. n_name (t_nodes t ! c) = n)"
      by (simp add: N(3))
    with rmv(3) p find_remove_at [OF wf_treeD(5) [OF wf p] rmv(1, 2), of n] show ?thesis
      by (cases "q = p") (auto simp: child_def)
  qed auto
qed

lemma set_remove_at_subset: "set (remove_at i xs) \<subseteq> set xs"
  by (auto simp: remove_at_def dest: in_set_takeD in_set_dropD)

lemma wf_remove_child:
  assumes wf: "wf_tree t" and rm: "remove_child t p name = Some t'"
  shows "wf_tree t'"
proof -
  note p = remove_child_bound [OF rm] and N = remove_child_nodes [OF assms]
  have kids: "n_children (t_nodes t' ! j) = n_children (t_nodes t ! j) \<or>
      (\<exists>pos. n_children (t_nodes t' ! j) = remove_at pos (n_children (t_nodes t ! j)))" for j
    by (rule remove_child_cases [OF assms]; cases "j = p") (use p in auto)
  have "distinct (map (\<lambda>c. n_name (t_nodes t' ! c)) (n_children (t_nodes t' ! j))) \<and>
      set (n_children (t_nodes t' ! j)) \<subseteq> set (n_children (t_nodes t ! j))"
    if "j < length (t_nodes t)" for j
    using kids [of j] wf_treeD(5) [OF wf that]
    by (auto simp: N(3) remove_at_map distinct_remove_at dest: subsetD [OF set_remove_at_subset])
  then show ?thesis
    using wf unfolding wf_tree_def N by (meson subsetD)
qed

interpretation tree: namespace wf_tree "\<lambda>t i. i < length (t_nodes t)" child add_child
  "\<lambda>d. n_children d = []" n_name remove_child
proof unfold_locales
  fix t i n c
  assume "wf_tree t" "child t i n = Some c"
  then show "c < length (t_nodes t) \<and> i < c" by (auto dest: child_bounds)
next
  fix t p d
  assume "wf_tree t" "p < length (t_nodes t)"
  then show "\<exists>t' i. add_child t p d = Some (t', i)"
    by (simp add: add_child_def node_mut_def Let_def)
next
  fix t p d t' i
  assume "p < length (t_nodes t)" "add_child t p d = Some (t', i)"
  then show "\<not> i < length (t_nodes t) \<and> (\<forall>j. j < length (t_nodes t') \<longleftrightarrow> j < length (t_nodes t) \<or> j = i)"
    using add_childD(1, 3) [of t p d t' i] by (simp add: less_Suc_eq)
next
  fix t p n
  assume "wf_tree t" "p < length (t_nodes t)"
  then show "\<exists>t'. remove_child t p n = Some t'"
    using child_position_total [OF children_bounded, of t p n]
    by (auto simp: remove_child_def node_def node_mut_def split: option.split)
next
  fix t p n t'
  assume "wf_tree t" "remove_child t p n = Some t'"
  then show "wf_tree t' \<and> (\<forall>j. (j < length (t_nodes t')) = (j < length (t_nodes t)))"
    using wf_remove_child remove_child_nodes(2) by metis
qed (fact wf_add_child child_add_child child_remove_child)+

section \<open>Paths\<close>

lemma lookup_from_walk:
  "wf_tree t \<Longrightarrow> i < length (t_nodes t) \<Longrightarrow>
     lookup_from t i names = Some (tree.walk t i (filter (\<lambda>n. n \<noteq> ''/'' \<and> n \<noteq> []) names))"
proof (induction names arbitrary: i)
  case (Cons n names)
  show ?case
  proof (cases "n = ''/'' \<or> n = []")
    case True
    then show ?thesis using Cons by auto
  next
    case False
    have step: "find_child (t_nodes t) (n_children (t_nodes t ! i)) n = Some (child t i n)"
      by (rule find_child_child [OF Cons.prems])
    show ?thesis
    proof (cases "child t i n")
      case None
      then show ?thesis using False step Cons.prems by (simp add: node_def)
    next
      case (Some c)
      then have "c < length (t_nodes t)" using child_bounds [OF Cons.prems(1)] by blast
      with Some False step Cons show ?thesis by (simp add: node_def)
    qed
  qed
qed simp

lemma lookup_total: "wf_tree t \<Longrightarrow> \<exists>r. lookup t path = Some r"
  using lookup_from_walk wf_treeD(1, 2) by (simp add: lookup_def)

lemma lookup_abs_path:
  assumes "wf_tree t" "list_all plain_name ns"
  shows "lookup t (abs_path ns) = Some (tree.walk t 0 ns)"
proof -
  have "filter (\<lambda>n. n \<noteq> ''/'' \<and> n \<noteq> []) ns = ns"
    using assms(2) by (auto simp: filter_id_conv list_all_iff plain_name_def)
  then show ?thesis
    using assms wf_treeD(1, 2) [OF assms(1)]
    by (simp add: lookup_def components_abs_path lookup_from_walk)
qed

lemma lookup_attached:
  assumes "wf_tree t" "lookup t path = Some (Some i)"
  shows "attached t i"
proof -
  have walk: "attached t j" if "attached t k" "tree.walk t k ns = Some j" for k j ns
    using that by (induction ns arbitrary: k) (auto split: option.splits dest: attached_child_step)
  have "attached t 0" using attached_root [of t] wf_treeD(1) [OF assms(1)] by simp
  then show ?thesis
    using assms lookup_from_walk wf_treeD(1, 2) [OF assms(1)] walk by (auto simp: lookup_def)
qed

text \<open>The names below the root are ordinary entry names, and the root is \<open>/\<close>.\<close>

definition plain_tree :: "FileTree \<Rightarrow> bool" where
  "plain_tree t \<longleftrightarrow> n_name (t_nodes t ! 0) = ''/'' \<and>
     (\<forall>i < length (t_nodes t). 0 < i \<longrightarrow> plain_name (n_name (t_nodes t ! i)))"

lemma climb_total:
  assumes wf: "wf_tree t"
  shows "i < length (t_nodes t) \<Longrightarrow> \<exists>names. climb t i parts = Some names"
proof (induction i arbitrary: parts rule: less_induct)
  case (less i)
  show ?case
  proof (cases "i = 0")
    case True
    then show ?thesis using wf_treeD(2, 3) [OF wf] by (subst climb.simps) simp
  next
    case False
    then obtain p where p: "p < i" "n_parent (t_nodes t ! i) = Some p"
      using wf_treeD(4) [OF wf less.prems] by blast
    with less show ?thesis by (subst climb.simps) simp
  qed
qed

lemma climb_attached:
  assumes "attached t i" and wf: "wf_tree t" and plain: "plain_tree t"
  shows "\<exists>ns. list_all plain_name ns \<and> tree.walk t 0 ns = Some i
    \<and> (\<forall>parts. climb t i parts = Some (''/'' # ns @ parts))"
  using assms(1)
proof (induction rule: attached.induct)
  case attached_root
  then show ?case
    using wf_treeD(1, 2, 3) [OF wf] plain
    by (intro exI [of _ "[]"]) (simp add: plain_tree_def climb.simps)
next
  case (attached_child i c)
  then obtain ns where ns: "list_all plain_name ns" "tree.walk t 0 ns = Some i"
    "\<forall>parts. climb t i parts = Some (''/'' # ns @ parts)" by blast
  note c = wf_treeD(6) [OF wf attached_child(2, 3)]
  have "child t i (n_name (t_nodes t ! c)) = Some c"
    by (rule child_name [OF wf attached_child(2, 3)])
  then have "tree.walk t 0 (ns @ [n_name (t_nodes t ! c)]) = Some c"
    using ns(2) by (simp add: tree.walk_append)
  moreover have "climb t c parts = Some (''/'' # (ns @ [n_name (t_nodes t ! c)]) @ parts)" for parts
    using c ns(3) by (subst climb.simps) simp
  moreover have "plain_name (n_name (t_nodes t ! c))" using c plain by (auto simp: plain_tree_def)
  ultimately show ?case using ns(1) by (intro exI [of _ "ns @ [n_name (t_nodes t ! c)]"]) simp
qed

lemma push_all:
  "list_all plain_name (ms @ ns) \<Longrightarrow> foldl path_push (abs_path ms) ns = abs_path (ms @ ns)"
proof (induction ns arbitrary: ms)
  case (Cons n ns)
  then have "foldl path_push (abs_path ms) (n # ns) = foldl path_push (abs_path (ms @ [n])) ns"
    by (simp add: path_push_abs)
  also have "\<dots> = abs_path (ms @ n # ns)" using Cons.IH [of "ms @ [n]"] Cons.prems by simp
  finally show ?case .
qed simp

lemma node_path_attached:
  assumes "attached t i" "wf_tree t" "plain_tree t"
  shows "\<exists>ns. list_all plain_name ns \<and> tree.walk t 0 ns = Some i \<and> node_path t i = Some (abs_path ns)"
proof -
  obtain ns where ns: "list_all plain_name ns" "tree.walk t 0 ns = Some i"
    "climb t i [] = Some (''/'' # ns)" using climb_attached [OF assms] by fastforce
  have "path_push [] ''/'' = abs_path []"
    by (simp add: path_push_def starts_with_def abs_path_def)
  with ns push_all [of "[]" ns] have "node_path t i = Some (abs_path ns)"
    by (simp add: node_path_def)
  with ns show ?thesis by blast
qed

section \<open>Properties\<close>

text \<open>
  C28: In a well-formed tree with ordinary names, \<open>node_path\<close> of every node that hangs off the
  root returns, and looking that path up finds the node again.
\<close>

theorem node_path_lookup:
  assumes "wf_tree t" "plain_tree t" "attached t i"
  shows "\<exists>path. node_path t i = Some path \<and> lookup t path = Some (Some i)"
  using node_path_attached [OF assms(3, 1, 2)] lookup_abs_path [OF assms(1)] by fastforce

definition sample_tree :: FileTree where
  "sample_tree =
     \<lparr>t_nodes =
       [\<lparr>n_inode = 2, n_name = ''/'', n_children = [1], n_parent = None, n_blocks = None,
         n_additional_blocks = [], n_link = None\<rparr>,
        \<lparr>n_inode = 12, n_name = ''etc'', n_children = [2], n_parent = Some 0, n_blocks = None,
         n_additional_blocks = [], n_link = None\<rparr>,
        \<lparr>n_inode = 13, n_name = ''passwd'', n_children = [], n_parent = Some 1, n_blocks = None,
         n_additional_blocks = [], n_link = None\<rparr>],
      t_root = 0\<rparr>"

lemma wf_sample_tree: "wf_tree sample_tree" "plain_tree sample_tree"
  by (auto simp: wf_tree_def plain_tree_def plain_name_def sample_tree_def less_Suc_eq
      numeral_3_eq_3)

lemma attached_sample: "attached sample_tree 2"
proof -
  have "attached sample_tree 0"
    using attached_root [of sample_tree] by (simp add: sample_tree_def)
  then have "attached sample_tree 1"
    by (rule attached_child) (simp_all add: sample_tree_def)
  then show ?thesis
    by (rule attached_child) (simp_all add: sample_tree_def)
qed

theorem node_path_lookup_witness:
  "(\<exists>path. node_path sample_tree 2 = Some path \<and> lookup sample_tree path = Some (Some 2))
   \<and> lookup sample_tree ''//etc/./passwd/'' = Some (Some 2)"
proof
  show "\<exists>path. node_path sample_tree 2 = Some path \<and> lookup sample_tree path = Some (Some 2)"
    by (rule node_path_lookup [OF wf_sample_tree attached_sample])
qed code_simp

end
