(* ===== verification/Ext4_Error.thy ===== *)
theory Ext4_Error
  imports Prelude
begin

text \<open>
  \<open>common/ext4/src/error.rs\<close>: the two error enumerations, with an \<open>R_\<close> or \<open>F_\<close> prefix because they
  share variant names.  Host I/O errors carry no data in the model.
\<close>

datatype ReadError =
    R_NotFound string
  | R_CouldNotReadSuperBlock string u64 nat
  | R_InvalidSuperBlock
  | R_DeepExtentsUnsupported
  | R_InvalidExtents
  | R_InvalidXattrEntry
  | R_CouldNotReadBlock u32
  | R_CouldNotReadInode u32
  | R_CouldNotReadGroup u32
  | R_PathNotFound string
  | R_NotAFile string
  | R_IsDirectory string
  | R_NotADirectory string
  | R_SymlinkLoop string
  | R_InvalidPath string
  | R_Io

datatype FormatError =
    F_NotDirectory string
  | F_NotFile string
  | F_NotFound string
  | F_AlreadyExists string
  | F_UnsupportedFiletype
  | F_MaximumLinksExceeded string
  | F_FileTooBig u64
  | F_InvalidLink string
  | F_InvalidName string
  | F_NoSpaceForTrailingDirEntry
  | F_InsufficientSpaceForGroupDescriptorBlocks
  | F_CannotHardlinkDirectory string
  | F_UnsupportedBlockSize u32
  | F_InvalidLabel string
  | F_CannotTruncateFile string
  | F_CannotCreateSparseFile string
  | F_CannotResizeFs u64
  | F_XattrInsufficientSpace u32
  | F_MalformedXattrBuffer
  | F_InvalidAsciiString string
  | F_CircularLinks
  | F_InvalidPathEncoding string
  | F_Io

end
