(* ===== verification/Ext4_Extent.thy ===== *)
theory Ext4_Extent
  imports Ext4_Types Ext4_Error Ext4_FileTree Rust_File
begin

text \<open>
  \<open>common/ext4/src/extent.rs\<close>: the extent tree of an inode.  The write path turns the block ranges
  of a file into leaves of at most 32768 blocks and stores them in the inode (depth 0) or in blocks
  of their own behind up to four index entries (depth 1); the read path parses both.  The lemmas
  show that the leaves cover the ranges exactly, in order, and that parsing returns them.
\<close>

section \<open>Leaves\<close>

definition div_ceil :: "u32 \<Rightarrow> u32 \<Rightarrow> u32 option" where
  "div_ceil n d = (if d = 0 then None else Some (if n mod d = 0 then n div d else n div d + 1))"

function fill_range :: "u32 \<Rightarrow> u32 \<Rightarrow> u32 \<Rightarrow> ExtentLeaf list \<times> u32" where
  "fill_range logical phys remaining =
     (if remaining > 0 then
        let len = min remaining MAX_BLOCKS_PER_EXTENT;
            (leaves, logical') = fill_range (logical + len) (phys + len) (remaining - len)
        in (\<lparr>el_block = logical, el_len = ucast len, el_start_hi = 0, el_start_lo = phys\<rparr> # leaves,
            logical')
      else ([], logical))"
  by auto

lemma remaining_decreases:
  assumes "remaining > 0" "len = min remaining MAX_BLOCKS_PER_EXTENT"
  shows "unat (remaining - len) = unat remaining - unat len" "0 < unat len" "unat len \<le> unat remaining"
    "unat len \<le> 0x8000"
proof -
  have "len \<le> remaining" "len \<le> 0x8000" "len \<noteq> 0"
    using assms by (auto simp: min_def MAX_BLOCKS_PER_EXTENT_def word_not_simps)
  then show "unat (remaining - len) = unat remaining - unat len" "0 < unat len"
    "unat len \<le> unat remaining" "unat len \<le> 0x8000"
    by (auto simp: unat_sub word_le_nat_alt unat_gt_0)
qed

termination fill_range
proof (relation "measure (\<lambda>(_, _, r). unat r)")
  fix logical phys remaining len :: u32
  assume "0 < remaining" "len = min remaining MAX_BLOCKS_PER_EXTENT"
  from remaining_decreases [OF this]
  show "((logical + len, phys + len, remaining - len), logical, phys, remaining)
      \<in> measure (\<lambda>(_, _, r). unat r)" by simp
qed simp

declare fill_range.simps [simp del]

fun fill_ranges :: "u32 \<Rightarrow> BlockRange list \<Rightarrow> ExtentLeaf list" where
  "fill_ranges logical [] = []"
| "fill_ranges logical (rng # blocks) =
     (let (leaves, logical') = fill_range logical (br_start rng) (br_end rng - br_start rng)
      in leaves @ fill_ranges logical' blocks)"

definition fill_extent_leaves_from_ranges :: "BlockRange list \<Rightarrow> ExtentLeaf list" where
  "fill_extent_leaves_from_ranges blocks = fill_ranges 0 blocks"

section \<open>Write path\<close>

definition add_inode_blocks :: "Inode \<Rightarrow> u32 \<Rightarrow> u32 \<Rightarrow> Inode" where
  "add_inode_blocks inode filesystem_blocks block_size =
     (let blocks = if i_flags inode AND HUGE_FILE_flag \<noteq> 0 then filesystem_blocks
                   else filesystem_blocks * (block_size div 512)
      in inode\<lparr>i_blocks_lo := i_blocks_lo inode + blocks\<rparr>)"

definition write_inline_extents :: "Inode \<Rightarrow> u32 \<Rightarrow> ExtentLeaf list \<Rightarrow> u32 \<Rightarrow> Inode option" where
  "write_inline_extents inode data_blocks leaves block_size =
     do {
       let buf = replicate INODE_BLOCK_SIZE 0;
       let header = \<lparr>eh_magic = EXTENT_HEADER_MAGIC, eh_entries = of_nat (length leaves), eh_max = 4,
                     eh_depth = 0, eh_generation = 0\<rparr>;
       buf \<leftarrow> write_slice ExtentHeader_SIZE (ExtentHeader_write_to header) 0 buf;
       buf \<leftarrow> write_table ExtentLeaf_SIZE ExtentLeaf_write_to ExtentHeader_SIZE leaves buf;
       let inode = inode\<lparr>i_block := buf\<rparr>;
       let inode = add_inode_blocks inode data_blocks block_size;
       Some (inode\<lparr>i_flags := i_flags inode OR EXTENTS_flag\<rparr>)
     }"

primrec build_indices :: "nat \<Rightarrow> nat \<Rightarrow> nat \<Rightarrow> u32 \<Rightarrow> ExtentLeaf list \<Rightarrow> ExtentIndex list option" where
  "build_indices 0 i leaves_per_block index_block_start all_leaves = Some []"
| "build_indices (Suc k) i leaves_per_block index_block_start all_leaves =
     (let first_leaf_in_block = i * leaves_per_block in
      if first_leaf_in_block < length all_leaves then
        map_option (\<lambda>rest.
            \<lparr>ei_block = el_block (all_leaves ! first_leaf_in_block),
             ei_leaf_lo = index_block_start + of_nat i, ei_leaf_hi = 0, ei_unused = 0\<rparr> # rest)
          (build_indices k (Suc i) leaves_per_block index_block_start all_leaves)
      else None)"

definition leaf_block :: "u32 \<Rightarrow> nat \<Rightarrow> ExtentLeaf list \<Rightarrow> bytes option" where
  "leaf_block block_size leaves_per_block block_leaves =
     do {
       let block_buf = replicate (unat block_size) 0;
       let leaf_header = \<lparr>eh_magic = EXTENT_HEADER_MAGIC, eh_entries = of_nat (length block_leaves),
                          eh_max = of_nat leaves_per_block, eh_depth = 0, eh_generation = 0\<rparr>;
       block_buf \<leftarrow> write_slice ExtentHeader_SIZE (ExtentHeader_write_to leaf_header) 0 block_buf;
       block_buf \<leftarrow> write_table ExtentLeaf_SIZE ExtentLeaf_write_to ExtentHeader_SIZE block_leaves block_buf;
       let tail = \<lparr>et_checksum = 0\<rparr>;
       let tail_off = unat block_size - ExtentTail_SIZE;
       write_slice ExtentTail_SIZE (ExtentTail_write_to tail) tail_off block_buf
     }"

primrec write_leaf_blocks ::
  "nat \<Rightarrow> nat \<Rightarrow> nat \<Rightarrow> u32 \<Rightarrow> ExtentLeaf list \<Rightarrow> File \<Rightarrow> u32 \<Rightarrow> (File \<times> u32) option" where
  "write_leaf_blocks 0 i leaves_per_block block_size all_leaves writer current_block =
     Some (writer, current_block)"
| "write_leaf_blocks (Suc k) i leaves_per_block block_size all_leaves writer current_block =
     (let leaf_start = i * leaves_per_block;
          leaf_end = min ((i + 1) * leaves_per_block) (length all_leaves)
      in if leaf_start \<le> leaf_end then
           do {
             block_buf \<leftarrow> leaf_block block_size leaves_per_block
               (take (leaf_end - leaf_start) (drop leaf_start all_leaves));
             let byte_offset = (ucast current_block :: u64) * ucast block_size;
             let writer = write_all block_buf (seek_start (unat byte_offset) writer);
             write_leaf_blocks k (Suc i) leaves_per_block block_size all_leaves writer (current_block + 1)
           }
         else None)"

definition write_indexed_extents ::
  "Inode \<Rightarrow> u32 \<Rightarrow> ExtentLeaf list \<Rightarrow> u32 \<Rightarrow> File \<Rightarrow> u32 \<Rightarrow> (Inode \<times> File \<times> u32) option" where
  "write_indexed_extents inode data_blocks all_leaves block_size writer current_block =
     (if unat block_size < ExtentHeader_SIZE + ExtentTail_SIZE then None
      else do {
        let leaves_per_block = (unat block_size - ExtentHeader_SIZE - ExtentTail_SIZE) div ExtentLeaf_SIZE;
        num_index_blocks \<leftarrow> div_ceil (of_nat (length all_leaves)) (of_nat leaves_per_block);
        let index_block_start = current_block;
        indices \<leftarrow> build_indices (unat num_index_blocks) 0 leaves_per_block index_block_start all_leaves;
        let buf = replicate INODE_BLOCK_SIZE 0;
        let header = \<lparr>eh_magic = EXTENT_HEADER_MAGIC, eh_entries = ucast num_index_blocks, eh_max = 4,
                      eh_depth = 1, eh_generation = 0\<rparr>;
        buf \<leftarrow> write_slice ExtentHeader_SIZE (ExtentHeader_write_to header) 0 buf;
        buf \<leftarrow> write_table ExtentIndex_SIZE ExtentIndex_write_to ExtentHeader_SIZE indices buf;
        let inode = inode\<lparr>i_block := buf\<rparr>;
        (writer, current_block) \<leftarrow>
          write_leaf_blocks (unat num_index_blocks) 0 leaves_per_block block_size all_leaves writer current_block;
        let total_blocks = data_blocks + num_index_blocks;
        let inode = add_inode_blocks inode total_blocks block_size;
        Some (inode\<lparr>i_flags := i_flags inode OR EXTENTS_flag\<rparr>, writer, current_block)
      })"

definition data_blocks_of :: "BlockRange list \<Rightarrow> u32" where
  "data_blocks_of blocks = sum_list (map (\<lambda>rng. br_end rng - br_start rng) blocks)"

definition write_extents ::
  "Inode \<Rightarrow> BlockRange list \<Rightarrow> u32 \<Rightarrow> File \<Rightarrow> u32 \<Rightarrow> (Inode \<times> File \<times> u32) option" where
  "write_extents inode blocks block_size writer current_block =
     (let data_blocks = data_blocks_of blocks in
      if data_blocks = 0 then Some (inode, writer, current_block)
      else
        let leaves = fill_extent_leaves_from_ranges blocks;
            num_extents = (of_nat (length leaves) :: u32)
        in if num_extents \<le> 4
           then map_option (\<lambda>inode. (inode, writer, current_block))
                  (write_inline_extents inode data_blocks leaves block_size)
           else write_indexed_extents inode data_blocks leaves block_size writer current_block)"

section \<open>Read path\<close>

text \<open>
  The entries loop of \<open>parse_depth0\<close>, which is also the inner loop of \<open>parse_depth1\<close>: \<open>k\<close> entries
  are left, starting with entry \<open>i\<close>.
\<close>

primrec parse_leaves :: "nat \<Rightarrow> nat \<Rightarrow> bytes \<Rightarrow> (ReadError + (u32 \<times> u32) list) option" where
  "parse_leaves 0 i buf = Some (Ok [])"
| "parse_leaves (Suc k) i buf =
     (let off = ExtentHeader_SIZE + i * ExtentLeaf_SIZE in
      if off + ExtentLeaf_SIZE > length buf then Some (Err R_InvalidExtents)
      else do {
        leaf \<leftarrow> ExtentLeaf_read_from (drop off buf);
        let phys_start = el_start_lo leaf;
        let phys_end = phys_start + ucast (el_len leaf);
        rest \<leftarrow> parse_leaves k (Suc i) buf;
        Some (bind_result rest (\<lambda>ranges. Ok ((phys_start, phys_end) # ranges)))
      })"

definition parse_depth0 :: "bytes \<Rightarrow> ExtentHeader \<Rightarrow> (ReadError + (u32 \<times> u32) list) option" where
  "parse_depth0 block_field header = parse_leaves (unat (eh_entries header)) 0 block_field"

definition read_at :: "File \<Rightarrow> nat \<Rightarrow> nat \<Rightarrow> bytes option" where
  "read_at reader off n = map_option fst (read_exact n (seek_start off reader))"

primrec parse_indices ::
  "nat \<Rightarrow> nat \<Rightarrow> bytes \<Rightarrow> u64 \<Rightarrow> File \<Rightarrow> (ReadError + (u32 \<times> u32) list) option" where
  "parse_indices 0 i block_field block_size reader = Some (Ok [])"
| "parse_indices (Suc k) i block_field block_size reader =
     (let off = ExtentHeader_SIZE + i * ExtentIndex_SIZE in
      if off + ExtentIndex_SIZE > length block_field then Some (Err R_InvalidExtents)
      else do {
        index \<leftarrow> ExtentIndex_read_from (drop off block_field);
        let phys_block = ExtentIndex_leaf index;
        let byte_offset = phys_block * block_size;
        case read_at reader (unat byte_offset) (unat block_size) of
          None \<Rightarrow> Some (Err (R_CouldNotReadBlock (ucast phys_block)))
        | Some leaf_buf \<Rightarrow> do {
            leaf_header \<leftarrow> ExtentHeader_read_from leaf_buf;
            if eh_magic leaf_header \<noteq> EXTENT_HEADER_MAGIC \<or> eh_depth leaf_header \<noteq> 0
            then Some (Err R_InvalidExtents)
            else do {
              here \<leftarrow> parse_leaves (unat (eh_entries leaf_header)) 0 leaf_buf;
              case here of
                Inl e \<Rightarrow> Some (Err e)
              | Inr ranges \<Rightarrow> do {
                  rest \<leftarrow> parse_indices k (Suc i) block_field block_size reader;
                  Some (bind_result rest (\<lambda>more. Ok (ranges @ more)))
                }
            }
          }
      })"

definition parse_depth1 ::
  "bytes \<Rightarrow> ExtentHeader \<Rightarrow> u64 \<Rightarrow> File \<Rightarrow> (ReadError + (u32 \<times> u32) list) option" where
  "parse_depth1 block_field header block_size reader =
     parse_indices (unat (eh_entries header)) 0 block_field block_size reader"

definition parse_extents :: "Inode \<Rightarrow> u64 \<Rightarrow> File \<Rightarrow> (ReadError + (u32 \<times> u32) list) option" where
  "parse_extents inode block_size reader =
     do {
       header \<leftarrow> ExtentHeader_read_from (i_block inode);
       if eh_magic header \<noteq> EXTENT_HEADER_MAGIC then Some (Ok [])
       else if eh_depth header = 0 then parse_depth0 (i_block inode) header
       else if eh_depth header = 1 then parse_depth1 (i_block inode) header block_size reader
       else Some (Err R_DeepExtentsUnsupported)
     }"

section \<open>The leaves cover the ranges\<close>

definition range_ok :: "BlockRange \<Rightarrow> bool" where
  "range_ok r \<longleftrightarrow> br_start r \<le> br_end r"

definition range_blocks :: "BlockRange \<Rightarrow> nat list" where
  "range_blocks r = [unat (br_start r)..<unat (br_end r)]"

definition leaf_blocks :: "ExtentLeaf \<Rightarrow> nat list" where
  "leaf_blocks l = [unat (el_start_lo l)..<unat (el_start_lo l) + unat (el_len l)]"

definition leaf_ok :: "ExtentLeaf \<Rightarrow> bool" where
  "leaf_ok l \<longleftrightarrow> 0 < unat (el_len l) \<and> unat (el_len l) \<le> 0x8000 \<and> el_start_hi l = 0 \<and>
     unat (el_start_lo l) + unat (el_len l) < 2 ^ 32"

primrec logical_run :: "nat \<Rightarrow> ExtentLeaf list \<Rightarrow> bool" where
  "logical_run n [] \<longleftrightarrow> True"
| "logical_run n (l # ls) \<longleftrightarrow> unat (el_block l) = n \<and> logical_run (n + unat (el_len l)) ls"

lemma logical_run_append:
  "logical_run n (ls @ ms) \<longleftrightarrow>
     logical_run n ls \<and> logical_run (n + length (concat (map leaf_blocks ls))) ms"
  by (induction ls arbitrary: n) (auto simp: leaf_blocks_def add.assoc)

lemma fill_range_spec:
  assumes "unat phys + unat remaining < 2 ^ 32" "unat logical + unat remaining < 2 ^ 32"
    "fill_range logical phys remaining = (ls, l')"
  shows "concat (map leaf_blocks ls) = [unat phys..<unat phys + unat remaining] \<and>
    list_all leaf_ok ls \<and> logical_run (unat logical) ls \<and> unat l' = unat logical + unat remaining"
  using assms
proof (induction logical phys remaining arbitrary: ls rule: fill_range.induct)
  case (1 logical phys remaining)
  show ?case
  proof (cases "remaining > 0")
    case False
    then have "remaining = 0" by (simp add: word_gt_0)
    with "1.prems" show ?thesis by (simp add: fill_range.simps)
  next
    case True
    define len where "len = min remaining MAX_BLOCKS_PER_EXTENT"
    note len = remaining_decreases [OF True len_def]
    obtain ms where ms: "fill_range (logical + len) (phys + len) (remaining - len) = (ms, l')"
      and ls: "ls = \<lparr>el_block = logical, el_len = ucast len, el_start_hi = 0, el_start_lo = phys\<rparr> # ms"
      using "1.prems"(3) True by (subst (asm) fill_range.simps) (auto simp: len_def Let_def split: prod.splits)
    have add: "unat (phys + len) = unat phys + unat len" "unat (logical + len) = unat logical + unat len"
      using len "1.prems" by (auto intro!: unat_add_small)
    have u16: "unat (ucast len :: u16) = unat len"
      using len(4) by (intro unat_ucast_small) simp
    have IH: "concat (map leaf_blocks ms) = [unat phys + unat len..<unat phys + unat remaining] \<and>
        list_all leaf_ok ms \<and> logical_run (unat logical + unat len) ms
        \<and> unat l' = unat logical + unat remaining"
      using "1.IH" [OF True len_def _ _ ms] "1.prems"(1, 2) len add by simp
    have "[unat phys..<unat phys + unat remaining]
        = [unat phys..<unat phys + unat len] @ [unat phys + unat len..<unat phys + unat remaining]"
      using len(3) upt_add_eq_append [of "unat phys" "unat phys + unat len" "unat remaining - unat len"]
      by simp
    moreover have "leaf_blocks (hd ls) = [unat phys..<unat phys + unat len]" "leaf_ok (hd ls)"
      using len "1.prems"(1) by (simp_all add: ls leaf_blocks_def leaf_ok_def u16)
    ultimately show ?thesis using IH by (simp add: ls u16)
  qed
qed

lemma fill_ranges_spec:
  assumes "list_all range_ok rs" "unat logical + length (concat (map range_blocks rs)) < 2 ^ 32"
  shows "concat (map leaf_blocks (fill_ranges logical rs)) = concat (map range_blocks rs) \<and>
    list_all leaf_ok (fill_ranges logical rs) \<and> logical_run (unat logical) (fill_ranges logical rs)"
  using assms
proof (induction rs arbitrary: logical)
  case (Cons r rs)
  obtain ls l' where f: "fill_range logical (br_start r) (br_end r - br_start r) = (ls, l')"
    by fastforce
  have r: "unat (br_end r - br_start r) = unat (br_end r) - unat (br_start r)"
    "unat (br_start r) \<le> unat (br_end r)"
    using Cons.prems(1) by (auto simp: range_ok_def unat_diff_le word_le_nat_alt)
  have len: "length (range_blocks r) = unat (br_end r) - unat (br_start r)"
    by (simp add: range_blocks_def)
  have "unat (br_end r) < 2 ^ 32" using unat_below [of "br_end r"] by simp
  then have S: "concat (map leaf_blocks ls) = range_blocks r \<and> list_all leaf_ok ls \<and>
      logical_run (unat logical) ls \<and> unat l' = unat logical + length (range_blocks r)"
    using fill_range_spec [OF _ _ f] r len Cons.prems(2) by (simp add: range_blocks_def)
  with Cons.IH [of l'] Cons.prems f show ?case
    by (auto simp: logical_run_append)
qed simp

lemmas extent_leaves_spec =
  fill_ranges_spec [of _ 0, folded fill_extent_leaves_from_ranges_def, simplified]

text \<open>A range needs a leaf for every 32768 blocks, and one more for the rest.\<close>

lemma fill_range_length: "length (fst (fill_range logical phys remaining)) \<le> unat remaining div 32768 + 1"
proof (induction logical phys remaining rule: fill_range.induct)
  case (1 logical phys remaining)
  show ?case
  proof (cases "remaining > 0")
    case True
    define len where "len = min remaining MAX_BLOCKS_PER_EXTENT"
    note len = remaining_decreases [OF True len_def]
    have IH: "length (fst (fill_range (logical + len) (phys + len) (remaining - len)))
        \<le> unat (remaining - len) div 32768 + 1"
      using "1.IH" [OF True len_def] .
    have step: "length (fst (fill_range logical phys remaining))
        = Suc (length (fst (fill_range (logical + len) (phys + len) (remaining - len))))"
      using True by (subst fill_range.simps) (simp add: len_def Let_def split: prod.splits)
    show ?thesis
    proof (cases "remaining \<le> MAX_BLOCKS_PER_EXTENT")
      case True
      then have "remaining - len = 0" by (simp add: len_def min_def)
      then have "fst (fill_range (logical + len) (phys + len) (remaining - len)) = []"
        by (subst fill_range.simps) simp
      then show ?thesis using step by simp
    next
      case False
      then have "unat (remaining - len) = unat remaining - 32768" "32768 \<le> unat remaining"
        by (auto simp: len_def min_def MAX_BLOCKS_PER_EXTENT_def unat_diff_le word_le_nat_alt)
      then show ?thesis using step IH by (simp add: le_div_geq)
    qed
  qed (simp add: fill_range.simps)
qed

lemma fill_ranges_length:
  assumes "list_all range_ok rs"
  shows "length (fill_ranges logical rs) \<le> length (concat (map range_blocks rs)) div 32768 + length rs"
  using assms
proof (induction rs arbitrary: logical)
  case (Cons r rs)
  obtain ls l' where f: "fill_range logical (br_start r) (br_end r - br_start r) = (ls, l')" by fastforce
  have "unat (br_end r - br_start r) = length (range_blocks r)"
    using Cons.prems by (simp add: range_ok_def unat_diff_le range_blocks_def)
  then have "length ls \<le> length (range_blocks r) div 32768 + 1"
    using fill_range_length [of logical "br_start r" "br_end r - br_start r"] f by simp
  moreover have "length (fill_ranges l' rs) \<le> length (concat (map range_blocks rs)) div 32768 + length rs"
    using Cons by simp
  moreover have "a div 32768 + b div 32768 \<le> (a + b) div 32768" for a b :: nat by simp
  ultimately show ?case using f by (fastforce intro: order_trans)
qed simp

lemma extent_leaves_length:
  "list_all range_ok rs \<Longrightarrow>
     length (fill_extent_leaves_from_ranges rs) \<le> length (concat (map range_blocks rs)) div 32768 + length rs"
  using fill_ranges_length by (simp add: fill_extent_leaves_from_ranges_def)

lemma data_blocks_of_unat:
  assumes "list_all range_ok rs" "length (concat (map range_blocks rs)) < 2 ^ 32"
  shows "unat (data_blocks_of rs) = length (concat (map range_blocks rs))"
  using assms
proof (induction rs)
  case (Cons r rs)
  have "unat (br_end r - br_start r) = length (range_blocks r)"
    using Cons.prems(1) by (simp add: range_ok_def range_blocks_def unat_diff_le)
  with Cons show ?case
    by (simp add: data_blocks_of_def unat_add_small)
qed (simp add: data_blocks_of_def)

section \<open>Parsing what was written\<close>

definition leaf_range :: "ExtentLeaf \<Rightarrow> u32 \<times> u32" where
  "leaf_range l = (el_start_lo l, el_start_lo l + ucast (el_len l))"

lemma leaf_range_blocks:
  assumes "leaf_ok l"
  shows "[unat (fst (leaf_range l))..<unat (snd (leaf_range l))] = leaf_blocks l"
proof -
  have "unat (ucast (el_len l) :: u32) = unat (el_len l)"
    using unat_below [of "el_len l"] by (intro unat_ucast_small) simp
  then show ?thesis
    using assms by (simp add: leaf_range_def leaf_blocks_def leaf_ok_def unat_add_small)
qed

lemma leaf_ranges_cover:
  "list_all leaf_ok ls \<Longrightarrow>
     concat (map (\<lambda>(a, b). [unat a..<unat b]) (map leaf_range ls)) = concat (map leaf_blocks ls)"
  by (induction ls) (auto simp: case_prod_unfold leaf_range_blocks)

lemma parse_leaves_table:
  assumes "\<And>i. i < length xs \<Longrightarrow>
      ExtentLeaf_read_from (drop (ExtentHeader_SIZE + i * ExtentLeaf_SIZE) buf) = Some (xs ! i)"
    and "ExtentHeader_SIZE + length xs * ExtentLeaf_SIZE \<le> length buf"
    and "i + k = length xs"
  shows "parse_leaves k i buf = Some (Ok (map leaf_range (drop i xs)))"
  using assms(3)
proof (induction k arbitrary: i)
  case (Suc k)
  then have i: "i < length xs" by simp
  then have "(i + 1) * ExtentLeaf_SIZE \<le> length xs * ExtentLeaf_SIZE" by (intro mult_le_mono1) simp
  then have "\<not> ExtentHeader_SIZE + i * ExtentLeaf_SIZE + ExtentLeaf_SIZE > length buf"
    using assms(2) by simp
  with Suc.IH [of "Suc i"] Suc.prems assms(1) [OF i] i show ?case
    by (simp add: Let_def leaf_range_def Cons_nth_drop_Suc [symmetric])
qed simp

text \<open>
  A node of the tree: a header in front of a table.  Both the inode's block field and a leaf block
  have this shape, which is why one lemma serves them.
\<close>

lemma header_then_table:
  assumes "write_slice ExtentHeader_SIZE (ExtentHeader_write_to h) 0 buf0 = Some buf1"
    and "ExtentHeader_SIZE \<le> off"
    and "\<And>n o'. o' + n \<le> off \<Longrightarrow> get_bytes n buf2 o' = get_bytes n buf1 o'"
    and "length buf2 = length buf1"
  shows "ExtentHeader_read_from buf2 = Some h"
proof -
  have "ExtentHeader_read_from (drop 0 buf1) = Some h" "length buf1 = length buf0"
    using eh_codec.write_slice_ok [OF _ assms(1)] by auto
  moreover have "ExtentHeader_SIZE \<le> length buf1"
    using assms(1) calculation(2) by (auto simp: write_slice_def split: if_splits)
  moreover have "get_bytes ExtentHeader_SIZE buf2 0 = get_bytes ExtentHeader_SIZE buf1 0"
    using assms(2, 3) by simp
  ultimately show ?thesis
    using eh_codec.read_cong [of buf2 0 buf1 0] assms(4) by simp
qed

lemma list_all_True [simp]: "list_all (\<lambda>_. True) xs"
  by (simp add: list_all_iff)

lemma write_inline_total:
  assumes "length leaves \<le> 4"
  shows "\<exists>ino'. write_inline_extents ino n leaves bs = Some ino'"
proof -
  define h where "h = \<lparr>eh_magic = EXTENT_HEADER_MAGIC, eh_entries = (of_nat (length leaves) :: u16),
    eh_max = 4, eh_depth = 0, eh_generation = 0\<rparr>"
  obtain b1 where b1: "write_slice ExtentHeader_SIZE (ExtentHeader_write_to h) 0
      (replicate INODE_BLOCK_SIZE 0) = Some b1"
    using eh_codec.write_slice_total [where x = h and off = 0 and buf = "replicate INODE_BLOCK_SIZE 0"]
    by (auto simp: ExtentHeader_SIZE_def INODE_BLOCK_SIZE_def)
  have "length b1 = 60" using eh_codec.write_slice_ok(1) [OF _ b1] by (simp add: INODE_BLOCK_SIZE_def)
  then obtain b2 where "write_table ExtentLeaf_SIZE ExtentLeaf_write_to ExtentHeader_SIZE leaves b1 = Some b2"
    using el_codec.write_table_total [where xs = leaves and off = ExtentHeader_SIZE and buf = b1] assms
    by (auto simp: ExtentHeader_SIZE_def ExtentLeaf_SIZE_def)
  then show ?thesis using b1 by (simp add: write_inline_extents_def h_def Let_def)
qed

lemma write_inline_parse:
  assumes "length leaves \<le> 4" "write_inline_extents ino n leaves bs = Some ino'"
  shows "parse_extents ino' bs' f = Some (Ok (map leaf_range leaves))"
proof -
  define h where "h = \<lparr>eh_magic = EXTENT_HEADER_MAGIC, eh_entries = (of_nat (length leaves) :: u16),
    eh_max = 4, eh_depth = 0, eh_generation = 0\<rparr>"
  from assms(2) obtain b1 b2 where
    b1: "write_slice ExtentHeader_SIZE (ExtentHeader_write_to h) 0 (replicate INODE_BLOCK_SIZE 0) = Some b1"
    and b2: "write_table ExtentLeaf_SIZE ExtentLeaf_write_to ExtentHeader_SIZE leaves b1 = Some b2"
    and ino': "i_block ino' = b2"
    by (auto simp: write_inline_extents_def h_def add_inode_blocks_def Let_def bind_eq_Some_conv)
  note T = el_codec.write_table_ok [OF _ b2]
  have hd: "ExtentHeader_read_from b2 = Some h"
    by (rule header_then_table [OF b1 order_refl]) (use T in auto)
  have "length b2 = 60"
    using T(1) eh_codec.write_slice_ok(1) [OF _ b1] by (simp add: INODE_BLOCK_SIZE_def)
  then have "parse_leaves (length leaves) 0 b2 = Some (Ok (map leaf_range leaves))"
    using parse_leaves_table [of leaves b2 0 "length leaves"] T(3) assms(1)
    by (simp add: ExtentHeader_SIZE_def ExtentLeaf_SIZE_def)
  moreover have "unat (of_nat (length leaves) :: u16) = length leaves"
    using assms(1) by (intro unat_of_nat_small) simp
  ultimately show ?thesis
    by (simp add: parse_extents_def ino' hd h_def parse_depth0_def)
qed

text \<open>What storing extents changes of an inode.\<close>

definition extent_update :: "Inode \<Rightarrow> Inode \<Rightarrow> bool" where
  "extent_update ino ino' \<longleftrightarrow>
     ino' = ino\<lparr>i_block := i_block ino', i_blocks_lo := i_blocks_lo ino', i_flags := i_flags ino'\<rparr> \<and>
     (length (i_block ino) = 60 \<longrightarrow> length (i_block ino') = 60)"

lemma extent_update_refl [simp]: "extent_update ino ino"
  by (simp add: extent_update_def)

lemma extent_updateD:
  assumes "extent_update ino ino'"
  shows "i_mode ino' = i_mode ino" "i_links_count ino' = i_links_count ino" "i_xattr_block_lo ino' = i_xattr_block_lo ino"
    "file_size ino' = file_size ino" "wf_Inode ino \<Longrightarrow> wf_Inode ino'" "Inode_is_dir ino' = Inode_is_dir ino"
proof -
  obtain b n fl where e: "ino' = ino\<lparr>i_block := b, i_blocks_lo := n, i_flags := fl\<rparr>"
    "length (i_block ino) = 60 \<longrightarrow> length b = 60"
    using assms unfolding extent_update_def by metis
  show "i_mode ino' = i_mode ino" "i_links_count ino' = i_links_count ino"
    "i_xattr_block_lo ino' = i_xattr_block_lo ino" "file_size ino' = file_size ino"
    "wf_Inode ino \<Longrightarrow> wf_Inode ino'" "Inode_is_dir ino' = Inode_is_dir ino"
    using e(2) by (simp_all add: e(1) file_size_def wf_Inode_def Inode_is_dir_def)
qed

lemma write_inline_update:
  assumes "write_inline_extents ino n leaves bs = Some ino'"
  shows "extent_update ino ino'"
proof -
  define h where "h = \<lparr>eh_magic = EXTENT_HEADER_MAGIC, eh_entries = (of_nat (length leaves) :: u16),
    eh_max = 4, eh_depth = 0, eh_generation = 0\<rparr>"
  from assms obtain b1 b2 where
    b1: "write_slice ExtentHeader_SIZE (ExtentHeader_write_to h) 0 (replicate INODE_BLOCK_SIZE 0) = Some b1"
    and b2: "write_table ExtentLeaf_SIZE ExtentLeaf_write_to ExtentHeader_SIZE leaves b1 = Some b2"
    and ino': "ino' = (add_inode_blocks (ino\<lparr>i_block := b2\<rparr>) n bs)
      \<lparr>i_flags := i_flags (add_inode_blocks (ino\<lparr>i_block := b2\<rparr>) n bs) OR EXTENTS_flag\<rparr>"
    by (auto simp: write_inline_extents_def h_def Let_def bind_eq_Some_conv)
  have "length b2 = 60"
    using el_codec.write_table_ok(1) [OF _ b2] eh_codec.write_slice_ok(1) [OF _ b1] by (simp add: INODE_BLOCK_SIZE_def)
  then show ?thesis by (simp add: extent_update_def ino' add_inode_blocks_def)
qed

subsection \<open>Leaf blocks\<close>

definition chunk :: "nat \<Rightarrow> nat \<Rightarrow> 'a list \<Rightarrow> 'a list" where
  "chunk n i xs = take n (drop (i * n) xs)"

lemma chunk_slice:
  "take (min ((i + 1) * n) (length xs) - i * n) (drop (i * n) xs) = chunk n i xs"
  by (simp add: chunk_def min_def)

lemma concat_chunks: "concat (map (\<lambda>i. chunk n i xs) [0..<k]) = take (k * n) xs"
  by (induction k) (simp_all add: chunk_def take_add [symmetric] add.commute)

lemma div_ceil_spec:
  assumes "d \<noteq> 0"
  shows "\<exists>q. div_ceil n d = Some q \<and> unat n \<le> unat q * unat d \<and> (\<forall>j < unat q. j * unat d < unat n)"
proof -
  have d: "0 < unat d" using assms by (simp add: unat_gt_0)
  define q r where "q = unat n div unat d" and "r = unat n mod unat d"
  have n: "unat n = q * unat d + r" "r < unat d" using d by (simp_all add: q_def r_def)
  have below: "j * unat d < unat n" if "j \<le> q" "0 < r \<or> j < q" for j
    using that mult_le_mono1 [OF that(1), of "unat d"] d n(1)
    by (cases "j < q") (auto simp: mult_less_cancel2 intro: order.strict_trans2 [OF mult_strict_right_mono])
  show ?thesis
  proof (cases "n mod d = 0")
    case True
    then have "r = 0" unfolding r_def by (metis unat_eq_zero unat_mod_distrib)
    then show ?thesis
      using assms True below n(1) by (auto simp: div_ceil_def unat_div_distrib q_def [symmetric])
  next
    case False
    then have r: "0 < r" unfolding r_def by (metis unat_eq_zero unat_mod_distrib gr0I)
    then have "q * 2 \<le> q * unat d" using n(2) by (intro mult_le_mono2) simp
    moreover have "unat n < 4294967296" using unat_below [of n] by simp
    ultimately have "q < 4294967295" using n(1) by linarith
    then have "unat (n div d + 1) = q + 1"
      by (simp add: unat_add_small unat_div_distrib q_def [symmetric])
    then show ?thesis
      using assms False below n r by (auto simp: div_ceil_def less_Suc_eq_le)
  qed
qed

lemma leaf_block_ok:
  assumes lpb: "lpb = (unat bs - ExtentHeader_SIZE - ExtentTail_SIZE) div ExtentLeaf_SIZE"
    and bs: "ExtentHeader_SIZE + ExtentTail_SIZE \<le> unat bs" "unat bs \<le> 2 ^ 16"
    and ls: "length ls \<le> lpb"
  shows "\<exists>buf h. leaf_block bs lpb ls = Some buf \<and> length buf = unat bs \<and>
    ExtentHeader_read_from buf = Some h \<and> eh_magic h = EXTENT_HEADER_MAGIC \<and> eh_depth h = 0 \<and>
    parse_leaves (unat (eh_entries h)) 0 buf = Some (Ok (map leaf_range ls))"
proof -
  define h where "h = \<lparr>eh_magic = EXTENT_HEADER_MAGIC, eh_entries = (of_nat (length ls) :: u16),
    eh_max = of_nat lpb, eh_depth = 0, eh_generation = 0\<rparr>"
  have "lpb * ExtentLeaf_SIZE \<le> unat bs - ExtentHeader_SIZE - ExtentTail_SIZE"
    unfolding lpb by (rule div_times_less_eq_dividend)
  with mult_le_mono1 [OF ls, of ExtentLeaf_SIZE] bs
  have fit: "ExtentHeader_SIZE + length ls * ExtentLeaf_SIZE \<le> unat bs - ExtentTail_SIZE"
    "ExtentHeader_SIZE + length ls * ExtentLeaf_SIZE \<le> unat bs" by linarith+
  obtain b1 where b1: "write_slice ExtentHeader_SIZE (ExtentHeader_write_to h) 0
      (replicate (unat bs) 0) = Some b1"
    using eh_codec.write_slice_total [where x = h and off = 0 and buf = "replicate (unat bs) 0"] bs
    by auto
  note S1 = eh_codec.write_slice_ok [OF _ b1]
  have l1: "length b1 = unat bs" using S1(1) by simp
  obtain b2 where b2: "write_table ExtentLeaf_SIZE ExtentLeaf_write_to ExtentHeader_SIZE ls b1 = Some b2"
    using el_codec.write_table_total [where xs = ls and off = ExtentHeader_SIZE and buf = b1] fit l1
    by auto
  note S2 = el_codec.write_table_ok [OF _ b2]
  have l2: "length b2 = unat bs" using S2(1) l1 by simp
  obtain b3 where b3: "write_slice ExtentTail_SIZE (ExtentTail_write_to \<lparr>et_checksum = 0\<rparr>)
      (unat bs - ExtentTail_SIZE) b2 = Some b3"
    using et_codec.write_slice_total [where x = "\<lparr>et_checksum = 0\<rparr>" and buf = b2
        and off = "unat bs - ExtentTail_SIZE"] l2 bs by auto
  note S3 = et_codec.write_slice_ok [OF _ b3]
  have l3: "length b3 = unat bs" using S3(1) l2 by simp
  have hd: "ExtentHeader_read_from b3 = Some h"
    by (rule header_then_table [OF b1 order_refl])
      (use S2 S3 l1 l3 fit bs in \<open>auto simp: ExtentTail_SIZE_def\<close>)
  have "ExtentLeaf_read_from (drop (ExtentHeader_SIZE + i * ExtentLeaf_SIZE) b3) = Some (ls ! i)"
    if "i < length ls" for i
  proof -
    have "(i + 1) * ExtentLeaf_SIZE \<le> length ls * ExtentLeaf_SIZE"
      using that by (intro mult_le_mono1) simp
    then have "ExtentHeader_SIZE + i * ExtentLeaf_SIZE + ExtentLeaf_SIZE \<le> unat bs - ExtentTail_SIZE"
      using fit by simp
    then show ?thesis
      using S2(3) [OF _ that] S3(3) l2 l3
        el_codec.read_cong [of b3 "ExtentHeader_SIZE + i * ExtentLeaf_SIZE" b2
          "ExtentHeader_SIZE + i * ExtentLeaf_SIZE"]
      by simp
  qed
  then have "parse_leaves (length ls) 0 b3 = Some (Ok (map leaf_range ls))"
    using parse_leaves_table [of ls b3 0 "length ls"] fit l3 by simp
  moreover have "unat (of_nat (length ls) :: u16) = length ls"
    using fit bs by (intro unat_of_nat_small) (simp add: ExtentHeader_SIZE_def ExtentLeaf_SIZE_def)
  ultimately show ?thesis
    using b1 b2 b3 l3 hd by (intro exI [of _ b3] exI [of _ h]) (simp add: leaf_block_def h_def Let_def)
qed

lemma write_leaf_blocks_ok:
  assumes lpb: "lpb = (unat bs - ExtentHeader_SIZE - ExtentTail_SIZE) div ExtentLeaf_SIZE"
    and bs: "ExtentHeader_SIZE + ExtentTail_SIZE \<le> unat bs" "unat bs \<le> 2 ^ 16"
    and room: "\<forall>j < i + k. j * lpb \<le> length xs" and cur: "unat cur + k < 2 ^ 32"
  shows "\<exists>f'. write_leaf_blocks k i lpb bs xs f cur = Some (f', cur + of_nat k) \<and>
    fl_len f \<le> fl_len f' \<and> (0 < k \<longrightarrow> (unat cur + k) * unat bs \<le> fl_len f') \<and>
    fl_pos f' = (if k = 0 then fl_pos f else (unat cur + k) * unat bs) \<and>
    (\<forall>off n. off + n \<le> unat cur * unat bs \<or> (unat cur + k) * unat bs \<le> off \<longrightarrow>
       file_bytes f' off n = file_bytes f off n) \<and>
    (\<forall>j < k. leaf_block bs lpb (chunk lpb (i + j) xs)
       = Some (file_bytes f' ((unat cur + j) * unat bs) (unat bs)))"
  using room cur
proof (induction k arbitrary: i f cur)
  case (Suc k)
  obtain buf where buf: "leaf_block bs lpb (chunk lpb i xs) = Some buf" "length buf = unat bs"
    using leaf_block_ok [OF lpb bs, of "chunk lpb i xs"] by (auto simp: chunk_def)
  have off: "unat ((ucast cur :: u64) * ucast bs) = unat cur * unat bs"
  proof -
    have "unat cur \<le> 2 ^ 32" "unat bs \<le> 2 ^ 16" using unat_below [of cur] bs(2) by auto
    then have "unat cur * unat bs < 2 ^ 64"
      using mult_le_mono [of "unat cur" "2 ^ 32" "unat bs" "2 ^ 16"] by simp
    then show ?thesis using unat_below [of cur] unat_below [of bs]
      by (simp add: unat_mult_small unat_ucast_small)
  qed
  define f1 where "f1 = write_all buf (seek_start (unat cur * unat bs) f)"
  have nxt: "unat (cur + 1) = unat cur + 1" using Suc.prems(2) by (simp add: unat_add_small)
  have start: "i * lpb \<le> min ((i + 1) * lpb) (length xs)" using Suc.prems(1) by auto
  have pos: "buf \<noteq> []" using buf(2) bs(1) by (auto simp: ExtentHeader_SIZE_def)
  obtain f' where f': "write_leaf_blocks k (Suc i) lpb bs xs f1 (cur + 1) = Some (f', cur + 1 + of_nat k)"
    and len: "fl_len f1 \<le> fl_len f'" "0 < k \<longrightarrow> (unat cur + 1 + k) * unat bs \<le> fl_len f'"
    and pos': "fl_pos f' = (if k = 0 then fl_pos f1 else (unat cur + 1 + k) * unat bs)"
    and frame: "\<forall>off n. off + n \<le> (unat cur + 1) * unat bs \<or> (unat cur + 1 + k) * unat bs \<le> off \<longrightarrow>
       file_bytes f' off n = file_bytes f1 off n"
    and blocks: "\<forall>j < k. leaf_block bs lpb (chunk lpb (Suc i + j) xs)
       = Some (file_bytes f' ((unat cur + 1 + j) * unat bs) (unat bs))"
    using Suc.IH [of "Suc i" "cur + 1" f1] Suc.prems nxt by auto
  have w: "write_leaf_blocks (Suc k) i lpb bs xs f cur = Some (f', cur + of_nat (Suc k))"
    using start f' unfolding write_leaf_blocks.simps Let_def chunk_slice buf(1) off f1_def
    by (simp add: add.assoc)
  have f1len: "fl_len f1 = max (fl_len f) ((unat cur + 1) * unat bs)"
    using pos buf(2) by (simp add: f1_def fl_len_write_all algebra_simps)
  have first: "file_bytes f' (unat cur * unat bs) (unat bs) = buf"
    using frame buf(2) by (simp add: f1_def file_bytes_write_same algebra_simps)
  have "leaf_block bs lpb (chunk lpb (i + j) xs)
       = Some (file_bytes f' ((unat cur + j) * unat bs) (unat bs))" if "j < Suc k" for j
    using that first buf(1) blocks by (cases j) (simp_all add: add.assoc)
  moreover have "file_bytes f' off n = file_bytes f off n"
    if "off + n \<le> unat cur * unat bs \<or> (unat cur + Suc k) * unat bs \<le> off" for off n
  proof -
    have far: "(unat cur + 1) * unat bs \<le> (unat cur + Suc k) * unat bs" by (intro mult_le_mono1) simp
    then have "file_bytes f1 off n = file_bytes f off n"
      using that buf(2) by (auto simp: f1_def file_bytes_write_other algebra_simps)
    moreover have "file_bytes f' off n = file_bytes f1 off n" using that frame by auto
    ultimately show ?thesis by simp
  qed
  moreover have "fl_len f \<le> fl_len f'" "(unat cur + Suc k) * unat bs \<le> fl_len f'"
    using len f1len by (cases k; auto)+
  moreover have "fl_pos f' = (unat cur + Suc k) * unat bs"
    using pos' buf(2) by (simp add: f1_def algebra_simps)
  ultimately show ?case using w by (metis nat.distinct(1))
qed simp

lemma build_indices_ok:
  assumes "\<forall>j < i + k. j * lpb < length xs"
  shows "\<exists>ixs. build_indices k i lpb start xs = Some ixs \<and> length ixs = k \<and>
    (\<forall>j < k. ei_leaf_lo (ixs ! j) = start + of_nat (i + j) \<and> ei_leaf_hi (ixs ! j) = 0)"
  using assms
proof (induction k arbitrary: i)
  case (Suc k)
  then obtain ixs where "build_indices k (Suc i) lpb start xs = Some ixs" "length ixs = k"
    "\<forall>j < k. ei_leaf_lo (ixs ! j) = start + of_nat (Suc i + j) \<and> ei_leaf_hi (ixs ! j) = 0"
    using Suc.IH [of "Suc i"] by auto
  then show ?case using Suc.prems by (auto simp: Let_def nth_Cons split: nat.split)
qed simp

lemma unat_byte_offset:
  assumes "unat blk < 2 ^ 32" "unat bs \<le> 2 ^ 16"
  shows "unat ((blk :: u64) * bs) = unat blk * unat bs"
proof -
  have "unat blk * unat bs < 2 ^ 64"
    using mult_le_mono [of "unat blk" "2 ^ 32" "unat bs" "2 ^ 16"] assms by simp
  then show ?thesis by (intro unat_mult_small) simp
qed

lemma parse_indices_ok:
  assumes lpb: "lpb = (unat bs - ExtentHeader_SIZE - ExtentTail_SIZE) div ExtentLeaf_SIZE"
    and bs: "ExtentHeader_SIZE + ExtentTail_SIZE \<le> unat bs" "unat bs \<le> 2 ^ 16"
    and field: "ExtentHeader_SIZE + n * ExtentIndex_SIZE \<le> length bf"
    and table: "\<And>j. j < n \<Longrightarrow>
      ExtentIndex_read_from (drop (ExtentHeader_SIZE + j * ExtentIndex_SIZE) bf) = Some (ixs ! j)"
    and ixs: "\<forall>j < n. ei_leaf_lo (ixs ! j) = start + of_nat j \<and> ei_leaf_hi (ixs ! j) = 0"
    and start: "unat start + n < 2 ^ 32" and disk: "(unat start + n) * unat bs \<le> fl_len f"
    and blocks: "\<forall>j < n. leaf_block bs lpb (chunk lpb j xs)
      = Some (file_bytes f ((unat start + j) * unat bs) (unat bs))"
    and ik: "i + k = n"
  shows "parse_indices k i bf (ucast bs) f
    = Some (Ok (map leaf_range (concat (map (\<lambda>j. chunk lpb j xs) [i..<n]))))"
  using ik
proof (induction k arbitrary: i)
  case (Suc k)
  then have i: "i < n" by simp
  then have "(i + 1) * ExtentIndex_SIZE \<le> n * ExtentIndex_SIZE" by (intro mult_le_mono1) simp
  then have fit: "\<not> ExtentHeader_SIZE + i * ExtentIndex_SIZE + ExtentIndex_SIZE > length bf"
    using field by simp
  have u: "unat (start + of_nat i) = unat start + i"
    using start i by (simp add: unat_add_small unat_of_nat_small)
  have leaf: "ExtentIndex_leaf (ixs ! i) = ucast (start + of_nat i)"
    using ixs i by (simp add: ExtentIndex_leaf_def)
  have un: "unat (ucast (start + of_nat i) :: u64) = unat start + i"
    using u start i by (simp add: unat_ucast_small)
  have ub: "unat (ucast bs :: u64) = unat bs" using bs by (simp add: unat_ucast_small)
  have off: "unat ((ucast (start + of_nat i) :: u64) * ucast bs) = (unat start + i) * unat bs"
    using unat_byte_offset [of "ucast (start + of_nat i)" "ucast bs"] un ub start i bs by simp
  define buf where "buf = file_bytes f ((unat start + i) * unat bs) (unat bs)"
  have "(unat start + i + 1) * unat bs \<le> (unat start + n) * unat bs" using i by (intro mult_le_mono1) simp
  then have rd: "read_at f ((unat start + i) * unat bs) (unat bs) = Some buf"
    using disk by (simp add: read_at_def read_exact_Some buf_def)
  obtain h where h: "ExtentHeader_read_from buf = Some h" "eh_magic h = EXTENT_HEADER_MAGIC"
    "eh_depth h = 0" "parse_leaves (unat (eh_entries h)) 0 buf = Some (Ok (map leaf_range (chunk lpb i xs)))"
    using leaf_block_ok [OF lpb bs, of "chunk lpb i xs"] blocks i by (auto simp: buf_def chunk_def)
  have "[i..<n] = i # [Suc i..<n]" using i by (rule upt_conv_Cons)
  then show ?case
    using Suc.IH [of "Suc i"] Suc.prems fit table [OF i] off rd h ub
    by (simp add: Let_def leaf)
qed simp

lemma index_field:
  assumes "length ixs \<le> 4"
  shows "\<exists>b1 b2. write_slice ExtentHeader_SIZE (ExtentHeader_write_to h) 0
      (replicate INODE_BLOCK_SIZE 0) = Some b1 \<and>
    write_table ExtentIndex_SIZE ExtentIndex_write_to ExtentHeader_SIZE ixs b1 = Some b2 \<and>
    length b2 = 60 \<and> ExtentHeader_read_from b2 = Some h \<and>
    (\<forall>j < length ixs.
       ExtentIndex_read_from (drop (ExtentHeader_SIZE + j * ExtentIndex_SIZE) b2) = Some (ixs ! j))"
proof -
  obtain b1 where b1: "write_slice ExtentHeader_SIZE (ExtentHeader_write_to h) 0
      (replicate INODE_BLOCK_SIZE 0) = Some b1"
    using eh_codec.write_slice_total [where x = h and off = 0 and buf = "replicate INODE_BLOCK_SIZE 0"]
    by (auto simp: ExtentHeader_SIZE_def INODE_BLOCK_SIZE_def)
  have l1: "length b1 = 60" using eh_codec.write_slice_ok(1) [OF _ b1] by (simp add: INODE_BLOCK_SIZE_def)
  then obtain b2 where b2: "write_table ExtentIndex_SIZE ExtentIndex_write_to ExtentHeader_SIZE ixs b1 = Some b2"
    using ei_codec.write_table_total [where xs = ixs and off = ExtentHeader_SIZE and buf = b1] assms
    by (auto simp: ExtentHeader_SIZE_def ExtentIndex_SIZE_def)
  note T = ei_codec.write_table_ok [OF _ b2]
  have "ExtentHeader_read_from b2 = Some h"
    by (rule header_then_table [OF b1 order_refl]) (use T in auto)
  with b1 b2 l1 T show ?thesis by auto
qed

lemma index_block_count:
  assumes "1 \<le> lpb" "lpb < 2 ^ 30" "length xs \<le> 4 * lpb"
  shows "\<exists>q. div_ceil (of_nat (length xs)) (of_nat lpb) = Some q \<and> unat q \<le> 4 \<and>
    length xs \<le> unat q * lpb \<and> (\<forall>j < unat q. j * lpb < length xs)"
proof -
  have small: "unat (of_nat (length xs) :: u32) = length xs" "unat (of_nat lpb :: u32) = lpb"
    using assms by (auto intro!: unat_of_nat_small)
  then have "(of_nat lpb :: u32) \<noteq> 0" using assms(1) by (metis unat_0 not_one_le_zero)
  from div_ceil_spec [OF this, of "of_nat (length xs)"] small obtain q where
    q: "div_ceil (of_nat (length xs)) (of_nat lpb) = Some q" "length xs \<le> unat q * lpb"
      "\<forall>j < unat q. j * lpb < length xs" by auto
  then have "unat q \<le> 4"
    using q(3) [rule_format, of 4] assms(3) by (cases "4 < unat q") auto
  with q show ?thesis by blast
qed

text \<open>\<open>g\<close> is at least as long as \<open>f\<close> and has its first \<open>p\<close> bytes.\<close>

definition keeps_bytes :: "nat \<Rightarrow> File \<Rightarrow> File \<Rightarrow> bool" where
  "keeps_bytes p f g \<longleftrightarrow> fl_len f \<le> fl_len g \<and> (\<forall>i < p. fl_data g i = fl_data f i)"

lemma keeps_bytes_refl [simp]: "keeps_bytes p f f"
  by (simp add: keeps_bytes_def)

lemma keeps_bytes_trans: "keeps_bytes p f g \<Longrightarrow> keeps_bytes q g h \<Longrightarrow> p \<le> q \<Longrightarrow> keeps_bytes p f h"
  by (auto simp: keeps_bytes_def)

lemma keeps_file_bytes: "keeps_bytes p f g \<Longrightarrow> off + n \<le> p \<Longrightarrow> file_bytes g off n = file_bytes f off n"
  by (auto simp: keeps_bytes_def file_bytes_def)

lemma write_indexed_parse:
  assumes bs: "28 \<le> unat bs" "unat bs \<le> 2 ^ 16"
    and len: "length xs \<le> 4 * ((unat bs - 16) div 12)"
    and cur: "unat cur + 4 < 2 ^ 32"
  shows "\<exists>ino' f' cur'. write_indexed_extents ino m xs bs f cur = Some (ino', f', cur') \<and>
    (\<forall>g. keeps_bytes (unat cur' * unat bs) f' g \<longrightarrow> parse_extents ino' (ucast bs) g = Some (Ok (map leaf_range xs))) \<and>
    extent_update ino ino' \<and> length xs \<le> (unat cur' - unat cur) * ((unat bs - 16) div 12) \<and>
    unat cur \<le> unat cur' \<and> (\<forall>j. unat cur + j < unat cur' \<longrightarrow> j * ((unat bs - 16) div 12) < length xs) \<and>
    fl_pos f' = (if cur' = cur then fl_pos f else unat cur' * unat bs) \<and> fl_len f \<le> fl_len f' \<and>
    (\<forall>off n. off + n \<le> unat cur * unat bs \<or> unat cur' * unat bs \<le> off \<longrightarrow>
       file_bytes f' off n = file_bytes f off n)"
proof -
  define lpb where "lpb = (unat bs - ExtentHeader_SIZE - ExtentTail_SIZE) div ExtentLeaf_SIZE"
  have bs': "ExtentHeader_SIZE + ExtentTail_SIZE \<le> unat bs" "lpb = (unat bs - 16) div 12"
    using bs by (simp_all add: lpb_def ExtentHeader_SIZE_def ExtentTail_SIZE_def ExtentLeaf_SIZE_def)
  have "1 \<le> lpb" "lpb < 2 ^ 30" using bs by (auto simp: bs'(2))
  with len obtain q where q: "div_ceil (of_nat (length xs)) (of_nat lpb) = Some q" "unat q \<le> 4"
    "length xs \<le> unat q * lpb" "\<forall>j < unat q. j * lpb < length xs"
    using index_block_count [of lpb xs] by (auto simp: bs'(2))
  then have room: "\<forall>j < 0 + unat q. j * lpb \<le> length xs" by auto
  obtain ixs where ixs: "build_indices (unat q) 0 lpb cur xs = Some ixs" "length ixs = unat q"
    "\<forall>j < unat q. ei_leaf_lo (ixs ! j) = cur + of_nat j \<and> ei_leaf_hi (ixs ! j) = 0"
    using build_indices_ok [of 0 "unat q" lpb xs cur] q(4) by auto
  define h where "h = \<lparr>eh_magic = EXTENT_HEADER_MAGIC, eh_entries = (ucast q :: u16), eh_max = 4,
    eh_depth = 1, eh_generation = 0\<rparr>"
  obtain b1 b2 where b: "write_slice ExtentHeader_SIZE (ExtentHeader_write_to h) 0
      (replicate INODE_BLOCK_SIZE 0) = Some b1"
    "write_table ExtentIndex_SIZE ExtentIndex_write_to ExtentHeader_SIZE ixs b1 = Some b2"
    "length b2 = 60" "ExtentHeader_read_from b2 = Some h" "\<And>j. j < unat q \<Longrightarrow>
       ExtentIndex_read_from (drop (ExtentHeader_SIZE + j * ExtentIndex_SIZE) b2) = Some (ixs ! j)"
    using index_field [of ixs h] q(2) ixs(2) by auto
  obtain f' where w: "write_leaf_blocks (unat q) 0 lpb bs xs f cur = Some (f', cur + of_nat (unat q))"
    and fl: "0 < unat q \<longrightarrow> (unat cur + unat q) * unat bs \<le> fl_len f'" "fl_len f \<le> fl_len f'"
    and pos: "fl_pos f' = (if unat q = 0 then fl_pos f else (unat cur + unat q) * unat bs)"
    and frame: "\<forall>off n. off + n \<le> unat cur * unat bs \<or> (unat cur + unat q) * unat bs \<le> off \<longrightarrow>
       file_bytes f' off n = file_bytes f off n"
    and blocks: "\<forall>j < unat q. leaf_block bs lpb (chunk lpb (0 + j) xs)
       = Some (file_bytes f' ((unat cur + j) * unat bs) (unat bs))"
    using write_leaf_blocks_ok [OF lpb_def bs'(1) bs(2) room, of cur f] q(2) cur by auto
  define ino' where "ino' = (add_inode_blocks (ino\<lparr>i_block := b2\<rparr>) (m + q) bs)
    \<lparr>i_flags := i_flags (add_inode_blocks (ino\<lparr>i_block := b2\<rparr>) (m + q) bs) OR EXTENTS_flag\<rparr>"
  have W: "write_indexed_extents ino m xs bs f cur = Some (ino', f', cur + of_nat (unat q))"
    unfolding write_indexed_extents_def Let_def lpb_def [symmetric]
    using bs'(1) q(1) ixs(1) b(1, 2) w by (simp add: h_def ino'_def)
  have c: "unat (cur + of_nat (unat q)) = unat cur + unat q"
    using q(2) cur by (simp add: unat_add_small)
  have "parse_indices (unat q) 0 b2 (ucast bs) g = Some (Ok (map leaf_range xs))"
    if g: "keeps_bytes ((unat cur + unat q) * unat bs) f' g" for g
  proof (cases "unat q = 0")
    case False
    have "file_bytes g ((unat cur + j) * unat bs) (unat bs) = file_bytes f' ((unat cur + j) * unat bs) (unat bs)"
      if "j < unat q" for j
      using that mult_le_mono1 [of "unat cur + Suc j" "unat cur + unat q" "unat bs"]
      by (intro keeps_file_bytes [OF g]) (simp add: algebra_simps)
    then have "\<forall>j < unat q. leaf_block bs lpb (chunk lpb j xs)
        = Some (file_bytes g ((unat cur + j) * unat bs) (unat bs))"
      using blocks by simp
    moreover have "(unat cur + unat q) * unat bs \<le> fl_len g"
      using False fl(1) g by (simp add: keeps_bytes_def)
    ultimately show ?thesis
      using parse_indices_ok [OF lpb_def bs'(1) bs(2) _ b(5) ixs(3), where f = g and xs = xs and k = "unat q" and i = 0]
        b(3) q(2, 3) cur by (simp add: concat_chunks ExtentHeader_SIZE_def ExtentIndex_SIZE_def)
  qed (use q(3) in simp)
  moreover have "unat (ucast q :: u16) = unat q" using q(2) by (intro unat_ucast_small) simp
  ultimately have "parse_extents ino' (ucast bs) g = Some (Ok (map leaf_range xs))"
    if "keeps_bytes (unat (cur + of_nat (unat q)) * unat bs) f' g" for g
    using that unfolding c
    by (simp add: parse_extents_def ino'_def add_inode_blocks_def b(4) h_def parse_depth1_def Let_def)
  moreover have "extent_update ino ino'" using b(3) by (simp add: extent_update_def ino'_def add_inode_blocks_def)
  moreover have "fl_pos f' = (if cur + of_nat (unat q) = cur then fl_pos f else unat (cur + of_nat (unat q)) * unat bs)"
    using pos c by (cases "q = 0") (simp_all add: unat_eq_zero)
  ultimately show ?thesis
    using W c frame fl(2) q(3, 4) unfolding bs'(2) [symmetric]
    by (intro exI [of _ ino'] exI [of _ f'] exI [of _ "cur + of_nat (unat q)"]) simp
qed

text \<open>
  Storing extents: the inode parses back to the blocks, the leaf blocks are the only bytes written,
  and there is no leaf block for at most four leaves.
\<close>

lemma write_extents_ok:
  assumes ok: "list_all range_ok blocks" and total: "length (concat (map range_blocks blocks)) < 2 ^ 32"
    and data: "concat (map range_blocks blocks) \<noteq> []"
    and bs: "28 \<le> unat bs" "unat bs \<le> 2 ^ 16" and cur: "unat cur + 4 < 2 ^ 32"
    and len: "length (fill_extent_leaves_from_ranges blocks) \<le> 4 * ((unat bs - 16) div 12)"
  shows "\<exists>ino' f' cur' ranges. write_extents ino blocks bs f cur = Some (ino', f', cur') \<and>
    (\<forall>g. keeps_bytes (unat cur' * unat bs) f' g \<longrightarrow> parse_extents ino' (ucast bs) g = Some (Ok ranges)) \<and>
    concat (map (\<lambda>(a, b). [unat a..<unat b]) ranges) = concat (map range_blocks blocks) \<and>
    extent_update ino ino' \<and> unat cur \<le> unat cur' \<and> fl_len f \<le> fl_len f' \<and>
    (\<forall>j. unat cur + j < unat cur' \<longrightarrow>
       j * ((unat bs - 16) div 12) < length (fill_extent_leaves_from_ranges blocks)) \<and>
    fl_pos f' = (if cur' = cur then fl_pos f else unat cur' * unat bs) \<and>
    (\<forall>off n. off + n \<le> unat cur * unat bs \<or> unat cur' * unat bs \<le> off \<longrightarrow>
       file_bytes f' off n = file_bytes f off n)"
proof -
  define xs where "xs = fill_extent_leaves_from_ranges blocks"
  have cover: "concat (map (\<lambda>(a, b). [unat a..<unat b]) (map leaf_range xs)) = concat (map range_blocks blocks)"
    using extent_leaves_spec [of blocks] ok total leaf_ranges_cover [of xs] by (simp add: xs_def)
  have nz: "data_blocks_of blocks \<noteq> 0"
    using data_blocks_of_unat [OF ok total] data by (metis length_0_conv unat_0)
  have "(unat bs - 16) div 12 \<le> 65536 div 12" using bs by (intro div_le_mono) simp
  then have "length xs < 2 ^ 32" using len by (simp add: xs_def)
  then have num: "(of_nat (length xs) :: u32) \<le> 4 \<longleftrightarrow> length xs \<le> 4"
    by (simp add: word_le_nat_alt unat_of_nat_small)
  show ?thesis
  proof (cases "length xs \<le> 4")
    case True
    then obtain ino' where w: "write_inline_extents ino (data_blocks_of blocks) xs bs = Some ino'"
      using write_inline_total by blast
    then have "write_extents ino blocks bs f cur = Some (ino', f, cur)"
      using nz num True by (simp add: write_extents_def xs_def [symmetric] Let_def)
    with write_inline_parse [OF True w] write_inline_update [OF w] cover show ?thesis
      by (intro exI [of _ ino'] exI [of _ f] exI [of _ cur] exI [of _ "map leaf_range xs"]) simp
  next
    case False
    then have "write_extents ino blocks bs f cur
        = write_indexed_extents ino (data_blocks_of blocks) xs bs f cur"
      using nz num by (simp add: write_extents_def xs_def [symmetric] Let_def)
    with write_indexed_parse [OF bs len [folded xs_def] cur, of ino "data_blocks_of blocks" f] cover
    show ?thesis unfolding xs_def [symmetric] by metis
  qed
qed

section \<open>Properties\<close>

text \<open>
  C29: The extent leaves of a file cover the blocks of its ranges exactly once and in order, their
  logical block numbers run without gaps from 0, and no leaf is empty or longer than 32768 blocks.
\<close>

theorem extent_leaves_cover:
  assumes "list_all range_ok blocks" and "length (concat (map range_blocks blocks)) < 2 ^ 32"
  shows "concat (map leaf_blocks (fill_extent_leaves_from_ranges blocks)) = concat (map range_blocks blocks)
    \<and> list_all leaf_ok (fill_extent_leaves_from_ranges blocks)
    \<and> logical_run 0 (fill_extent_leaves_from_ranges blocks)"
  using extent_leaves_spec [of blocks] assms by simp

theorem extent_leaves_cover_witness:
  "concat (map leaf_blocks (fill_extent_leaves_from_ranges
      [\<lparr>br_start = 100, br_end = 102\<rparr>, \<lparr>br_start = 7, br_end = 8\<rparr>])) = [100, 101, 7]
   \<and> logical_run 0 (fill_extent_leaves_from_ranges
      [\<lparr>br_start = 100, br_end = 102\<rparr>, \<lparr>br_start = 7, br_end = 8\<rparr>])"
  using extent_leaves_cover [of "[\<lparr>br_start = 100, br_end = 102\<rparr>, \<lparr>br_start = 7, br_end = 8\<rparr>]"]
  by (simp add: range_ok_def range_blocks_def upt_rec)

text \<open>
  C15: Writing the extents of a non-empty file succeeds whenever its leaves fit behind four index
  entries, and parsing the inode afterwards returns ranges that name exactly the blocks written, in
  order.  Apart from the leaf blocks allocated at the current block the image is unchanged.
\<close>

theorem extents_roundtrip:
  assumes ok: "list_all range_ok blocks" and total: "length (concat (map range_blocks blocks)) < 2 ^ 32"
    and data: "concat (map range_blocks blocks) \<noteq> []"
    and bs: "28 \<le> unat bs" "unat bs \<le> 2 ^ 16" and cur: "unat cur + 4 < 2 ^ 32"
    and len: "length (fill_extent_leaves_from_ranges blocks) \<le> 4 * ((unat bs - 16) div 12)"
  shows "\<exists>ino' f' cur' ranges. write_extents ino blocks bs f cur = Some (ino', f', cur') \<and>
    parse_extents ino' (ucast bs) f' = Some (Ok ranges) \<and>
    concat (map (\<lambda>(a, b). [unat a..<unat b]) ranges) = concat (map range_blocks blocks) \<and>
    (\<forall>off n. off + n \<le> unat cur * unat bs \<or> unat cur' * unat bs \<le> off \<longrightarrow>
       file_bytes f' off n = file_bytes f off n)"
  using write_extents_ok [OF assms, of ino f] keeps_bytes_refl by blast

theorem extents_roundtrip_witness:
  "\<exists>ino' f' cur' ranges.
     write_extents Inode_default [\<lparr>br_start = 100, br_end = 102\<rparr>, \<lparr>br_start = 7, br_end = 8\<rparr>] 4096
       empty_file 9 = Some (ino', f', cur') \<and>
     parse_extents ino' 4096 f' = Some (Ok ranges) \<and>
     concat (map (\<lambda>(a, b). [unat a..<unat b]) ranges) = [100, 101, 7]"
proof -
  have "length (fill_extent_leaves_from_ranges
      [\<lparr>br_start = 100, br_end = 102\<rparr>, \<lparr>br_start = 7, br_end = 8\<rparr>]) = 2"
    by (simp add: fill_extent_leaves_from_ranges_def fill_range.simps MAX_BLOCKS_PER_EXTENT_def)
  then show ?thesis
    using extents_roundtrip [of "[\<lparr>br_start = 100, br_end = 102\<rparr>, \<lparr>br_start = 7, br_end = 8\<rparr>]"
        4096 9 Inode_default empty_file]
    by (auto simp: range_ok_def range_blocks_def upt_rec)
qed

end
