(* ===== verification/Ext4_Dir.thy ===== *)
theory Ext4_Dir
  imports Ext4_Types Rust_Str
begin

text \<open>
  \<open>common/ext4/src/dir.rs\<close>: directory entries, packed into blocks.  The writer appends to a buffer
  and keeps \<open>left\<close>, the bytes that remain in the current block; the model returns the appended
  bytes.  The lemmas show that a finished directory is a whole number of blocks and that parsing it
  returns the entries written, hard links with the inode and type of their target.
\<close>

section \<open>Write path\<close>

definition align_up :: "nat \<Rightarrow> nat \<Rightarrow> nat" where
  "align_up n align = unat (of_nat (n + align - 1) AND NOT (of_nat (align - 1)) :: u64)"

definition dir_file_type :: "u16 \<Rightarrow> u8" where
  "dir_file_type mode = FileType_code (from_mode mode)"

text \<open>\<open>left\<close> is an \<open>i32\<close>; the cast to \<open>usize\<close> sign-extends.\<close>

definition as_usize :: "int \<Rightarrow> nat" where
  "as_usize i = nat (i mod 2 ^ 64)"

definition finish_dir_entry_block :: "int \<Rightarrow> u32 \<Rightarrow> (bytes \<times> int) option" where
  "finish_dir_entry_block left block_size =
     (if left \<le> 0 then Some ([], sint block_size)
      else
        let remaining = as_usize left;
            term = \<lparr>de_inode = 0, de_rec_len = of_nat remaining, de_name_len = 0, de_file_type = 0\<rparr>
        in case DirectoryEntry_write_to term (replicate DirectoryEntry_SIZE 0) of
             None \<Rightarrow> None
           | Some header_buf \<Rightarrow>
               if remaining < DirectoryEntry_SIZE then None
               else Some (header_buf @ replicate (remaining - DirectoryEntry_SIZE) 0,
                          sint block_size))"

definition write_dir_entry ::
  "string \<Rightarrow> u32 \<Rightarrow> u16 \<Rightarrow> u32 option \<Rightarrow> u16 option \<Rightarrow> u32 \<Rightarrow> int \<Rightarrow> (bytes \<times> int) option" where
  "write_dir_entry name inode mode link_inode link_mode block_size left =
     do {
       let name_bytes = str_bytes name;
       let entry_size = align_up (DirectoryEntry_SIZE + length name_bytes) 4;
       let min_trailing = 12;
       (finished, left) \<leftarrow>
         (if as_usize left < entry_size + min_trailing then finish_dir_entry_block left block_size
          else Some ([], left));
       let actual_inode = (case link_inode of Some i \<Rightarrow> i | None \<Rightarrow> inode);
       let actual_mode = (case link_mode of Some m \<Rightarrow> m | None \<Rightarrow> mode);
       let entry = \<lparr>de_inode = actual_inode, de_rec_len = of_nat entry_size,
                    de_name_len = of_nat (length name_bytes), de_file_type = dir_file_type actual_mode\<rparr>;
       header_buf \<leftarrow> DirectoryEntry_write_to entry (replicate DirectoryEntry_SIZE 0);
       let padding = entry_size - DirectoryEntry_SIZE - length name_bytes;
       Some (finished @ header_buf @ name_bytes @ replicate padding 0, left - int entry_size)
     }"

section \<open>Read path\<close>

function parse_dir_from :: "bytes \<Rightarrow> nat \<Rightarrow> (string \<times> u32) list option" where
  "parse_dir_from data offset =
     (if offset + DirectoryEntry_SIZE \<le> length data then
        case DirectoryEntry_read_from (drop offset data) of
          None \<Rightarrow> None
        | Some entry \<Rightarrow>
            if de_rec_len entry = 0 then Some []
            else
              let name_start = offset + DirectoryEntry_SIZE;
                  name_end = name_start + unat (de_name_len entry);
                  here = (if de_inode entry \<noteq> 0 \<and> de_name_len entry > 0 \<and> name_end \<le> length data
                          then [(bytes_str (utf8_lossy (get_bytes (name_end - name_start) data name_start)),
                                 de_inode entry)]
                          else [])
              in map_option ((@) here) (parse_dir_from data (offset + unat (de_rec_len entry)))
      else Some [])"
  by auto

termination
proof (relation "measure (\<lambda>(data, offset). length data - offset)")
  fix data :: bytes and offset :: nat and entry :: DirectoryEntry
  assume "offset + DirectoryEntry_SIZE \<le> length data" "de_rec_len entry \<noteq> 0"
  then have "0 < unat (de_rec_len entry)" "offset < length data"
    by (auto simp: unat_gt_0 DirectoryEntry_SIZE_def)
  then show "((data, offset + unat (de_rec_len entry)), data, offset)
      \<in> measure (\<lambda>(data, offset). length data - offset)" by simp
qed simp

declare parse_dir_from.simps [simp del]

definition parse_dir_entries :: "bytes \<Rightarrow> (string \<times> u32) list option" where
  "parse_dir_entries data = parse_dir_from data 0"

section \<open>A whole directory\<close>

text \<open>The entries of one directory, as the loop over its children writes them.\<close>

type_synonym dir_item = "string \<times> u32 \<times> u16 \<times> u32 option \<times> u16 option"

primrec write_dir_entries :: "dir_item list \<Rightarrow> u32 \<Rightarrow> int \<Rightarrow> (bytes \<times> int) option" where
  "write_dir_entries [] block_size left = Some ([], left)"
| "write_dir_entries (e # es) block_size left =
     (case e of (name, inode, mode, link_inode, link_mode) \<Rightarrow>
        do {
          (out, left) \<leftarrow> write_dir_entry name inode mode link_inode link_mode block_size left;
          (outs, left) \<leftarrow> write_dir_entries es block_size left;
          Some (out @ outs, left)
        })"

definition item_target :: "dir_item \<Rightarrow> string \<times> u32" where
  "item_target e = (case e of (name, inode, _, link_inode, _) \<Rightarrow>
     (name, case link_inode of Some i \<Rightarrow> i | None \<Rightarrow> inode))"

definition item_ok :: "dir_item \<Rightarrow> bool" where
  "item_ok e \<longleftrightarrow> fst (item_target e) \<noteq> [] \<and> length (fst (item_target e)) \<le> EXT4_NAME_LEN
     \<and> utf8_valid (str_bytes (fst (item_target e))) \<and> snd (item_target e) \<noteq> 0"

subsection \<open>Parsing is compositional\<close>

lemma parse_dir_from_drop: "parse_dir_from (drop m data) k = parse_dir_from data (m + k)"
proof (induction "drop m data" k rule: parse_dir_from.induct)
  case (1 k)
  show ?case
  proof (cases "k + DirectoryEntry_SIZE \<le> length (drop m data)")
    case False
    then show ?thesis by (auto simp: parse_dir_from.simps DirectoryEntry_SIZE_def)
  next
    case True
    then obtain entry where e: "DirectoryEntry_read_from (drop k (drop m data)) = Some entry"
      by (cases "DirectoryEntry_read_from (drop k (drop m data))")
        (auto simp: DirectoryEntry_read_from_def split: if_splits)
    have fits: "m + k + DirectoryEntry_SIZE \<le> length data"
      "n \<le> length data - m \<longleftrightarrow> m + n \<le> length data" for n
      using True by (auto simp: DirectoryEntry_SIZE_def)
    note IH = "1" [OF True e]
    show ?thesis
      using True e IH fits
      by (subst (1 2) parse_dir_from.simps) (simp add: Let_def ac_simps)
  qed
qed

lemma DirectoryEntry_header:
  "\<exists>hdr. DirectoryEntry_write_to e (replicate DirectoryEntry_SIZE 0) = Some hdr \<and>
     length hdr = DirectoryEntry_SIZE \<and> DirectoryEntry_read_from (hdr @ rest) = Some e"
proof -
  obtain hdr where hdr: "DirectoryEntry_write_to e (replicate DirectoryEntry_SIZE 0) = Some hdr"
    using de_codec.write_total [where x = e and buf = "replicate DirectoryEntry_SIZE 0"] by auto
  then have len: "length hdr = DirectoryEntry_SIZE" using de_codec.write_length by fastforce
  have "DirectoryEntry_read_from hdr = Some e" using de_codec.roundtrip [OF _ hdr] by simp
  then have "DirectoryEntry_read_from (hdr @ rest) = Some e"
    using de_codec.read_prefix [of "hdr @ rest"] len by simp
  with hdr len show ?thesis by blast
qed

lemma parse_record:
  assumes "DirectoryEntry_read_from (rec @ rest) = Some e" "length rec = unat (de_rec_len e)"
    and "DirectoryEntry_SIZE + unat (de_name_len e) \<le> length rec"
  shows "parse_dir_entries (rec @ rest) = map_option ((@)
    (if de_inode e \<noteq> 0 \<and> de_name_len e > 0
     then [(bytes_str (utf8_lossy (get_bytes (unat (de_name_len e)) rec DirectoryEntry_SIZE)), de_inode e)]
     else [])) (parse_dir_entries rest)"
proof -
  have "de_rec_len e \<noteq> 0" using assms(2, 3) by (auto simp: DirectoryEntry_SIZE_def)
  moreover have "get_bytes (unat (de_name_len e)) (rec @ rest) DirectoryEntry_SIZE
      = get_bytes (unat (de_name_len e)) rec DirectoryEntry_SIZE"
    using assms(3) by (simp add: get_bytes_def)
  moreover have "parse_dir_from (rec @ rest) (unat (de_rec_len e)) = parse_dir_entries rest"
    using parse_dir_from_drop [of "length rec" "rec @ rest" 0] assms(2)
    by (simp add: parse_dir_entries_def)
  ultimately show ?thesis
    using assms unfolding parse_dir_entries_def
    by (subst (1) parse_dir_from.simps) (simp add: Let_def)
qed

subsection \<open>Blocks\<close>

lemma and_not_mask: "(x :: 'a::len word) AND NOT (mask k) = push_bit k (drop_bit k x)"
  by (rule bit_word_eqI) (auto simp: bit_simps)

lemma align_up_4:
  assumes "n < 2 ^ 32"
  shows "align_up n 4 = (n + 3) div 4 * 4"
proof -
  have m: "(3 :: u64) = mask 2" by (simp add: mask_eq_decr_exp)
  have small: "take_bit 64 (n + 3) = n + 3" using assms by (intro take_bit_nat_eq_self) simp
  have "unat ((of_nat (n + 3) :: u64) AND NOT 3) = take_bit 64 (push_bit 2 (drop_bit 2 (n + 3)))"
    unfolding m and_not_mask
    by (simp add: unsigned_push_bit_eq unsigned_drop_bit_eq unsigned_of_nat small del: of_nat_add)
  also have "\<dots> = push_bit 2 (drop_bit 2 (n + 3))"
    using assms by (intro take_bit_nat_eq_self) (simp add: push_bit_eq_mult drop_bit_eq_div)
  finally show ?thesis by (simp add: align_up_def push_bit_eq_mult drop_bit_eq_div add.commute)
qed

definition block_size_ok :: "u32 \<Rightarrow> bool" where
  "block_size_ok bs \<longleftrightarrow> 276 \<le> unat bs \<and> unat bs < 2 ^ 16"

lemma block_size_int:
  assumes "block_size_ok bs"
  shows "276 \<le> uint bs" "uint bs < 65536"
proof -
  have "276 \<le> unat bs" "unat bs < 65536" using assms by (simp_all add: block_size_ok_def)
  then show "276 \<le> uint bs" "uint bs < 65536" unfolding uint_nat by linarith+
qed

lemma block_size_sint:
  assumes "block_size_ok bs"
  shows "sint bs = uint bs"
proof -
  have "signed_take_bit 31 (uint bs) = uint bs"
    using block_size_int [OF assms] by (intro signed_take_bit_int_eq_self) simp_all
  then show ?thesis by (simp add: sint_uint)
qed

lemma as_usize_pos: "0 \<le> i \<Longrightarrow> i < 2 ^ 64 \<Longrightarrow> as_usize i = nat i"
  by (simp add: as_usize_def)

lemma finish_block_ok:
  assumes "block_size_ok bs" "12 \<le> left" "left \<le> uint bs"
  shows "\<exists>fin. finish_dir_entry_block left bs = Some (fin, uint bs) \<and> int (length fin) = left \<and>
    (\<forall>rest. parse_dir_entries (fin @ rest) = parse_dir_entries rest)"
proof -
  define r where "r = nat left"
  have r: "as_usize left = r" "12 \<le> r" "r < 2 ^ 16" "int r = left"
    using assms(2, 3) block_size_int [OF assms(1)] by (auto simp: r_def as_usize_pos)
  define e where "e = \<lparr>de_inode = 0 :: u32, de_rec_len = of_nat r :: u16, de_name_len = 0 :: u8, de_file_type = 0 :: u8\<rparr>"
  obtain hdr where hdr: "DirectoryEntry_write_to e (replicate DirectoryEntry_SIZE 0) = Some hdr"
      "length hdr = DirectoryEntry_SIZE"
    using DirectoryEntry_header by blast
  define fin where "fin = hdr @ replicate (r - DirectoryEntry_SIZE) 0"
  have len: "length fin = r" using r(2) hdr(2) by (simp add: fin_def DirectoryEntry_SIZE_def)
  have "unat (de_rec_len e) = r" using r(3) by (simp add: e_def unat_of_nat_small)
  moreover have "DirectoryEntry_read_from (fin @ rest) = Some e" for rest
    using DirectoryEntry_header [of e "replicate (r - DirectoryEntry_SIZE) 0 @ rest"] hdr(1)
    by (simp add: fin_def)
  ultimately have "parse_dir_entries (fin @ rest) = parse_dir_entries rest" for rest
    using parse_record [of fin rest e] len r(2)
    by (simp add: e_def DirectoryEntry_SIZE_def option.map_ident_strong)
  moreover have "finish_dir_entry_block left bs = Some (fin, uint bs)"
    using r hdr(1) assms(2) block_size_sint [OF assms(1)]
    by (simp add: finish_dir_entry_block_def e_def [symmetric] fin_def Let_def DirectoryEntry_SIZE_def)
  ultimately show ?thesis using len r(4) by auto
qed

lemma align_up_bounds:
  assumes "n < 2 ^ 32"
  shows "n \<le> align_up n 4" "align_up n 4 \<le> n + 3"
  unfolding align_up_4 [OF assms] by linarith+

lemma write_entry_at:
  assumes name: "name \<noteq> []" "length name \<le> EXT4_NAME_LEN" "utf8_valid (str_bytes name)"
    and ino: "(case li of Some i \<Rightarrow> i | None \<Rightarrow> ino) \<noteq> 0"
    and room: "align_up (DirectoryEntry_SIZE + length name) 4 + 12 \<le> nat left" "left < 65536"
  shows "\<exists>out. write_dir_entry name ino mode li lm bs left
      = Some (out, left - int (align_up (DirectoryEntry_SIZE + length name) 4)) \<and>
    length out = align_up (DirectoryEntry_SIZE + length name) 4 \<and>
    (\<forall>rest. parse_dir_entries (out @ rest)
       = map_option ((@) [(name, case li of Some i \<Rightarrow> i | None \<Rightarrow> ino)]) (parse_dir_entries rest))"
proof -
  define sz where "sz = align_up (DirectoryEntry_SIZE + length name) 4"
  have len: "length name \<le> 255" using name(2) by (simp add: EXT4_NAME_LEN_def)
  then have sz: "DirectoryEntry_SIZE + length name \<le> sz" "sz \<le> DirectoryEntry_SIZE + length name + 3"
    using align_up_bounds [of "DirectoryEntry_SIZE + length name"]
    by (simp_all add: sz_def DirectoryEntry_SIZE_def)
  define e where "e = \<lparr>de_inode = (case li of Some i \<Rightarrow> i | None \<Rightarrow> ino), de_rec_len = (of_nat sz :: u16),
    de_name_len = (of_nat (length name) :: u8),
    de_file_type = dir_file_type (case lm of Some m \<Rightarrow> m | None \<Rightarrow> mode)\<rparr>"
  obtain hdr where hdr: "DirectoryEntry_write_to e (replicate DirectoryEntry_SIZE 0) = Some hdr"
      "length hdr = DirectoryEntry_SIZE"
    using DirectoryEntry_header by blast
  define out where "out = hdr @ str_bytes name @ replicate (sz - DirectoryEntry_SIZE - length name) 0"
  have read: "DirectoryEntry_read_from (out @ rest) = Some e" for rest
    using DirectoryEntry_header [of e "drop DirectoryEntry_SIZE out @ rest"] hdr by (simp add: out_def)
  have u: "unat (de_rec_len e) = sz" "unat (de_name_len e) = length name"
    using sz len by (simp_all add: e_def unat_of_nat_small DirectoryEntry_SIZE_def)
  have lo: "length out = sz" using hdr(2) sz by (simp add: out_def)
  have nm: "get_bytes (length name) out DirectoryEntry_SIZE = str_bytes name"
    using hdr(2) by (simp add: out_def get_bytes_def)
  have pos: "de_name_len e > 0" "de_inode e \<noteq> 0"
    using u(2) name(1) ino by (auto simp: word_gt_0 e_def)
  have "parse_dir_entries (out @ rest)
       = map_option ((@) [(name, case li of Some i \<Rightarrow> i | None \<Rightarrow> ino)]) (parse_dir_entries rest)" for rest
    using parse_record [OF read] u lo sz nm pos utf8_lossy_valid [OF name(3)] by (simp add: e_def)
  moreover have "write_dir_entry name ino mode li lm bs left = Some (out, left - int sz)"
  proof -
    have "as_usize left = nat left" using room by (intro as_usize_pos) simp_all
    then have "\<not> as_usize left < sz + 12" using room(1) by (simp add: sz_def)
    then show ?thesis
      using hdr(1) by (simp add: write_dir_entry_def sz_def [symmetric] e_def [symmetric] out_def Let_def)
  qed
  ultimately show ?thesis using lo by (auto simp: sz_def)
qed

lemma write_entry_after_finish:
  assumes "as_usize left < align_up (DirectoryEntry_SIZE + length name) 4 + 12"
    and "finish_dir_entry_block left bs = Some (fin, left1)"
    and "\<not> as_usize left1 < align_up (DirectoryEntry_SIZE + length name) 4 + 12"
  shows "write_dir_entry name ino mode li lm bs left
    = map_option (\<lambda>(out, l). (fin @ out, l)) (write_dir_entry name ino mode li lm bs left1)"
  using assms by (simp add: write_dir_entry_def Let_def split: option.split Option.bind_split)

lemma write_entry_ok:
  assumes bs: "block_size_ok bs" and left: "12 \<le> left" "left \<le> uint bs"
    and name: "name \<noteq> []" "length name \<le> EXT4_NAME_LEN" "utf8_valid (str_bytes name)"
    and ino: "(case li of Some i \<Rightarrow> i | None \<Rightarrow> ino) \<noteq> 0"
  shows "\<exists>out left' k. write_dir_entry name ino mode li lm bs left = Some (out, left') \<and>
    12 \<le> left' \<and> left' \<le> uint bs \<and> int (length out) + left' = left + k * uint bs \<and>
    (\<forall>rest. parse_dir_entries (out @ rest)
       = map_option ((@) [(name, case li of Some i \<Rightarrow> i | None \<Rightarrow> ino)]) (parse_dir_entries rest))"
proof -
  define sz where "sz = align_up (DirectoryEntry_SIZE + length name) 4"
  have "(DirectoryEntry_SIZE + length name + 3) div 4 \<le> 266 div 4"
    using name(2) by (intro div_le_mono) (simp add: EXT4_NAME_LEN_def DirectoryEntry_SIZE_def)
  then have sz: "sz \<le> 264"
    using name(2) by (simp add: sz_def align_up_4 EXT4_NAME_LEN_def DirectoryEntry_SIZE_def)
  note B = block_size_int [OF bs] and at = write_entry_at [OF name ino, folded sz_def]
  show ?thesis
  proof (cases "sz + 12 \<le> nat left")
    case True
    with at [of left mode lm bs] left B obtain out where
      out: "write_dir_entry name ino mode li lm bs left = Some (out, left - int sz)" "length out = sz"
      "\<forall>rest. parse_dir_entries (out @ rest)
       = map_option ((@) [(name, case li of Some i \<Rightarrow> i | None \<Rightarrow> ino)]) (parse_dir_entries rest)" by auto
    moreover have "12 \<le> left - int sz" "left - int sz \<le> uint bs" using True left(2) by linarith+
    moreover have "int (length out) + (left - int sz) = left + 0 * uint bs" using out(2) by simp
    ultimately show ?thesis by blast
  next
    case False
    obtain fin where fin: "finish_dir_entry_block left bs = Some (fin, uint bs)" "int (length fin) = left"
      "\<forall>rest. parse_dir_entries (fin @ rest) = parse_dir_entries rest"
      using finish_block_ok [OF bs left] by blast
    have room: "sz + 12 \<le> nat (uint bs)" using sz B(1) by linarith
    with at [of "uint bs" mode lm bs] B obtain out where
      out: "write_dir_entry name ino mode li lm bs (uint bs) = Some (out, uint bs - int sz)" "length out = sz"
      "\<forall>rest. parse_dir_entries (out @ rest)
       = map_option ((@) [(name, case li of Some i \<Rightarrow> i | None \<Rightarrow> ino)]) (parse_dir_entries rest)" by auto
    have "as_usize left = nat left" by (rule as_usize_pos) (use left B in simp_all)
    moreover have "as_usize (uint bs) = nat (uint bs)" by (rule as_usize_pos) (use B in simp_all)
    ultimately have "write_dir_entry name ino mode li lm bs left = Some (fin @ out, uint bs - int sz)"
      using write_entry_after_finish [OF _ fin(1), of name ino mode li lm] False room out(1)
      by (simp add: sz_def)
    moreover have "12 \<le> uint bs - int sz" using sz B(1) by linarith
    moreover have "int (length (fin @ out)) + (uint bs - int sz) = left + 1 * uint bs"
      using fin(2) out(2) by simp
    moreover have "uint bs - int sz \<le> uint bs" by simp
    moreover have "\<forall>rest. parse_dir_entries ((fin @ out) @ rest)
       = map_option ((@) [(name, case li of Some i \<Rightarrow> i | None \<Rightarrow> ino)]) (parse_dir_entries rest)"
      using fin(3) out(3) by simp
    ultimately show ?thesis by blast
  qed
qed

lemma write_entries_ok:
  assumes "block_size_ok bs" "12 \<le> left" "left \<le> uint bs" "list_all item_ok es"
  shows "\<exists>out left' k. write_dir_entries es bs left = Some (out, left') \<and>
    12 \<le> left' \<and> left' \<le> uint bs \<and> int (length out) + left' = left + k * uint bs \<and>
    (\<forall>rest. parse_dir_entries (out @ rest) = map_option ((@) (map item_target es)) (parse_dir_entries rest))"
  using assms(2-)
proof (induction es arbitrary: left)
  case Nil
  then show ?case by (auto simp: option.map_ident_strong intro!: exI [of _ 0])
next
  case (Cons e es)
  obtain name ino mode li lm where e: "e = (name, ino, mode, li, lm)" by (cases e) auto
  have ok: "name \<noteq> []" "length name \<le> EXT4_NAME_LEN" "utf8_valid (str_bytes name)"
    "(case li of Some i \<Rightarrow> i | None \<Rightarrow> ino) \<noteq> 0"
    using Cons.prems(3) by (auto simp: item_ok_def item_target_def e)
  obtain o1 l1 k1 where 1: "write_dir_entry name ino mode li lm bs left = Some (o1, l1)"
    "12 \<le> l1" "l1 \<le> uint bs" "int (length o1) + l1 = left + k1 * uint bs"
    "\<forall>rest. parse_dir_entries (o1 @ rest)
       = map_option ((@) [(name, case li of Some i \<Rightarrow> i | None \<Rightarrow> ino)]) (parse_dir_entries rest)"
    using write_entry_ok [OF assms(1) Cons.prems(1, 2) ok] by blast
  obtain o2 l2 k2 where 2: "write_dir_entries es bs l1 = Some (o2, l2)"
    "12 \<le> l2" "l2 \<le> uint bs" "int (length o2) + l2 = l1 + k2 * uint bs"
    "\<forall>rest. parse_dir_entries (o2 @ rest) = map_option ((@) (map item_target es)) (parse_dir_entries rest)"
    using Cons.IH [OF 1(2, 3)] Cons.prems(3) by auto
  have "int (length (o1 @ o2)) + l2 = left + (k1 + k2) * uint bs"
    using 1(4) 2(4) by (simp add: distrib_right)
  moreover have "parse_dir_entries ((o1 @ o2) @ rest)
      = map_option ((@) (map item_target (e # es))) (parse_dir_entries rest)" for rest
    using 1(5) 2(5) by (cases "parse_dir_entries rest") (auto simp: item_target_def e)
  moreover have "write_dir_entries (e # es) bs left = Some (o1 @ o2, l2)" using 1(1) 2(1) by (simp add: e)
  ultimately show ?case using 2(2, 3) by blast
qed

section \<open>Properties\<close>

text \<open>
  C16: Writing any sequence of entries with names of 1 to 255 bytes from the start of a block, and
  finishing the last block, succeeds; the result is a whole number of blocks, and parsing it
  returns the names in order, each with the inode it refers to (the link target for hard links).
\<close>

theorem dir_roundtrip:
  assumes "block_size_ok bs" and "list_all item_ok es"
  shows "\<exists>out left fin. write_dir_entries es bs (uint bs) = Some (out, left) \<and>
    finish_dir_entry_block left bs = Some (fin, uint bs) \<and>
    unat bs dvd length (out @ fin) \<and> parse_dir_entries (out @ fin) = Some (map item_target es)"
proof -
  obtain out left k where out: "write_dir_entries es bs (uint bs) = Some (out, left)"
    "12 \<le> left" "left \<le> uint bs" "int (length out) + left = uint bs + k * uint bs"
    "\<forall>rest. parse_dir_entries (out @ rest) = map_option ((@) (map item_target es)) (parse_dir_entries rest)"
    using write_entries_ok [OF assms(1) _ _ assms(2), of "uint bs"] block_size_int [OF assms(1)] by auto
  obtain fin where fin: "finish_dir_entry_block left bs = Some (fin, uint bs)" "int (length fin) = left"
    "\<forall>rest. parse_dir_entries (fin @ rest) = parse_dir_entries rest"
    using finish_block_ok [OF assms(1) out(2, 3)] by blast
  have "int (length (out @ fin)) = int (unat bs) * (1 + k)"
    using out(4) fin(2) by (simp add: distrib_left)
  then have "int (unat bs) dvd int (length (out @ fin))" by (rule dvdI)
  then have "unat bs dvd length (out @ fin)" by (simp only: int_dvd_int_iff)
  moreover have "parse_dir_entries [] = Some []"
    by (simp add: parse_dir_entries_def parse_dir_from.simps DirectoryEntry_SIZE_def)
  then have "parse_dir_entries (out @ fin) = Some (map item_target es)"
    using out(5) fin(3) [rule_format, of "[]"] by simp
  ultimately show ?thesis using out(1) fin(1) by blast
qed

theorem dir_roundtrip_witness:
  "\<exists>out left fin.
     write_dir_entries [(''.'', 2, 0x41ED, None, None), (''a'', 12, 0x81A4, None, None),
       (''b'', 2, 0x41ED, Some 12, Some 0x81A4)] 4096 4096 = Some (out, left) \<and>
     finish_dir_entry_block left 4096 = Some (fin, 4096) \<and> 4096 dvd length (out @ fin) \<and>
     parse_dir_entries (out @ fin) = Some [(''.'', 2), (''a'', 12), (''b'', 12)]"
proof -
  have "utf8_valid (str_bytes s)" if "s \<in> {''.'', ''a'', ''b''}" for s
    using that by (intro utf8_valid_ascii) (auto simp: str_bytes_def)
  then show ?thesis
    using dir_roundtrip [of 4096 "[(''.'', 2, 0x41ED, None, None), (''a'', 12, 0x81A4, None, None),
       (''b'', 2, 0x41ED, Some 12, Some 0x81A4)]"]
    by (simp add: block_size_ok_def item_ok_def item_target_def EXT4_NAME_LEN_def)
qed

end
