(* ===== verification/Ext4_Xattr.thy ===== *)
theory Ext4_Xattr
  imports Ext4_Dir Ext4_Error "HOL-Library.Product_Lexorder" "HOL-Library.List_Lexorder" "HOL-Library.Char_ord" "HOL-Library.Multiset"
begin

text \<open>
  \<open>common/ext4/src/xattr.rs\<close>: extended attributes.  Names are stored without a known prefix;
  attributes go into the inode while they fit and into one block otherwise; entries grow from the
  front of the area and values from the back.  The lemmas show that the prefix table loses nothing
  and that entries and values never overlap, so that each attribute can be read back.
\<close>

section \<open>Attributes\<close>

definition XATTR_HEADER_MAGIC :: u32 where "XATTR_HEADER_MAGIC = 0xEA020000"
definition XATTR_INODE_HEADER_SIZE :: u32 where "XATTR_INODE_HEADER_SIZE = 4"
definition XATTR_BLOCK_HEADER_SIZE :: u32 where "XATTR_BLOCK_HEADER_SIZE = 32"

definition XATTR_PREFIXES :: "(u8 \<times> string) list" where
  "XATTR_PREFIXES =
     [(1, ''user.''),
      (2, ''system.posix_acl_access''),
      (3, ''system.posix_acl_default''),
      (4, ''trusted.''),
      (6, ''security.''),
      (7, ''system.''),
      (8, ''system.richacl'')]"

record ExtendedAttribute =
  xa_name :: string
  xa_index :: u8
  xa_value :: bytes

fun best_prefix :: "string \<Rightarrow> (u8 \<times> string) list \<Rightarrow> u8 \<Rightarrow> nat \<Rightarrow> u8 \<times> nat" where
  "best_prefix name [] best_index best_prefix_len = (best_index, best_prefix_len)"
| "best_prefix name ((idx, prefix) # ps) best_index best_prefix_len =
     (if starts_with name prefix \<and> length prefix > best_prefix_len
      then best_prefix name ps idx (length prefix)
      else best_prefix name ps best_index best_prefix_len)"

definition compress_name :: "string \<Rightarrow> u8 \<times> string" where
  "compress_name name =
     (let (best_index, best_prefix_len) = best_prefix name XATTR_PREFIXES 0 0
      in (best_index, drop best_prefix_len name))"

definition decompress_name :: "u8 \<Rightarrow> string \<Rightarrow> string" where
  "decompress_name index suffix =
     (case find (\<lambda>(idx, prefix). idx = index) XATTR_PREFIXES of
        Some (idx, prefix) \<Rightarrow> prefix @ suffix
      | None \<Rightarrow> suffix)"

definition ExtendedAttribute_new :: "string \<Rightarrow> bytes \<Rightarrow> ExtendedAttribute" where
  "ExtendedAttribute_new full_name value =
     (let (index, suffix) = compress_name full_name
      in \<lparr>xa_name = suffix, xa_index = index, xa_value = value\<rparr>)"

definition entry_size :: "ExtendedAttribute \<Rightarrow> u32" where
  "entry_size a = of_nat (align_up (length (xa_name a) + 16) 4)"

definition value_size :: "ExtendedAttribute \<Rightarrow> u32" where
  "value_size a = of_nat (align_up (length (xa_value a)) 4)"

definition total_size :: "ExtendedAttribute \<Rightarrow> u32" where
  "total_size a = entry_size a + value_size a"

definition NAME_HASH_SHIFT :: nat where "NAME_HASH_SHIFT = 5"
definition VALUE_HASH_SHIFT :: nat where "VALUE_HASH_SHIFT = 16"

fun hash_name :: "u32 \<Rightarrow> bytes \<Rightarrow> u32" where
  "hash_name h [] = h"
| "hash_name h (b # bs) =
     hash_name (push_bit NAME_HASH_SHIFT h XOR drop_bit (8 * 4 - NAME_HASH_SHIFT) h XOR ucast b) bs"

text \<open>The words of the value; the last one is padded with zeros, and \<open>of_le\<close> reads a short list so.\<close>

fun hash_value :: "u32 \<Rightarrow> bytes \<Rightarrow> u32" where
  "hash_value h [] = h"
| "hash_value h (b # bs) =
     hash_value (push_bit VALUE_HASH_SHIFT h XOR drop_bit (8 * 4 - VALUE_HASH_SHIFT) h XOR of_le (take 4 (b # bs)))
       (drop 4 (b # bs))"

definition xattr_hash :: "ExtendedAttribute \<Rightarrow> u32" where
  "xattr_hash a = hash_value (hash_name 0 (str_bytes (xa_name a))) (xa_value a)"

section \<open>Placement\<close>

record XattrState =
  xs_inode_capacity :: u32
  xs_block_capacity :: u32
  xs_inline_attrs :: "ExtendedAttribute list"
  xs_block_attrs :: "ExtendedAttribute list"
  xs_used_inline :: u32
  xs_used_block :: u32
  xs_inode_number :: u32

definition XattrState_new :: "u32 \<Rightarrow> u32 \<Rightarrow> u32 \<Rightarrow> XattrState" where
  "XattrState_new inode inode_capacity block_capacity =
     \<lparr>xs_inode_capacity = inode_capacity, xs_block_capacity = block_capacity,
      xs_inline_attrs = [], xs_block_attrs = [],
      xs_used_inline = XATTR_INODE_HEADER_SIZE, xs_used_block = XATTR_BLOCK_HEADER_SIZE,
      xs_inode_number = inode\<rparr>"

definition xattr_add :: "ExtendedAttribute \<Rightarrow> XattrState \<Rightarrow> FormatError + XattrState" where
  "xattr_add attr st =
     (if length (xa_name attr) > EXT4_NAME_LEN
      then Err (F_InvalidName (decompress_name (xa_index attr) (xa_name attr)))
      else
        let total = total_size attr in
        if xs_used_inline st + total + 4 \<le> xs_inode_capacity st
        then Ok (st\<lparr>xs_used_inline := xs_used_inline st + total,
                    xs_inline_attrs := xs_inline_attrs st @ [attr]\<rparr>)
        else if xs_used_block st + total + 4 \<le> xs_block_capacity st
        then Ok (st\<lparr>xs_used_block := xs_used_block st + total,
                    xs_block_attrs := xs_block_attrs st @ [attr]\<rparr>)
        else Err (F_XattrInsufficientSpace (xs_inode_number st)))"

definition has_inline :: "XattrState \<Rightarrow> bool" where
  "has_inline st \<longleftrightarrow> xs_inline_attrs st \<noteq> []"

definition has_block :: "XattrState \<Rightarrow> bool" where
  "has_block st \<longleftrightarrow> xs_block_attrs st \<noteq> []"

section \<open>Serialization\<close>

definition write_xattr_entry :: "bytes \<Rightarrow> string \<Rightarrow> u8 \<Rightarrow> u16 \<Rightarrow> u32 \<Rightarrow> u32 \<Rightarrow> bytes option" where
  "write_xattr_entry buf name name_index value_offset sz hash =
     (let name_bytes = str_bytes name in
      if length buf < 16 + length name_bytes then None
      else
        let buf = put_bytes buf 0 [of_nat (length name_bytes)];
            buf = put_bytes buf 1 [name_index];
            buf = put_bytes buf 2 (le_bytes 2 value_offset);
            buf = put_bytes buf 4 (le_bytes 4 (0 :: u32));
            buf = put_bytes buf 8 (le_bytes 4 sz);
            buf = put_bytes buf 12 (le_bytes 4 hash);
            buf = put_bytes buf 16 name_bytes
        in Some buf)"

text \<open>
  The loop that \<open>write_inline\<close> and \<open>write_block\<close> share: \<open>base\<close> is subtracted from the position of
  a value, \<open>hash_of\<close> gives the hash field.
\<close>

fun write_attrs ::
  "nat \<Rightarrow> (ExtendedAttribute \<Rightarrow> u32) \<Rightarrow> ExtendedAttribute list \<Rightarrow> bytes \<Rightarrow> nat \<Rightarrow> nat
     \<Rightarrow> (FormatError + bytes) option" where
  "write_attrs base hash_of [] buf entry_offset value_end = Some (Ok buf)"
| "write_attrs base hash_of (attr # attrs) buf entry_offset value_end =
     (let val_size_aligned = align_up (length (xa_value attr)) 4 in
      if value_end < val_size_aligned + base then None
      else
        let value_end = value_end - val_size_aligned;
            rel_value_offset = value_end - base
        in if entry_offset + 16 + length (xa_name attr) > length buf then Some (Err F_MalformedXattrBuffer)
           else do {
             entry \<leftarrow> write_xattr_entry (drop entry_offset buf) (xa_name attr) (xa_index attr)
               (of_nat rel_value_offset) (of_nat (length (xa_value attr))) (hash_of attr);
             let buf = take entry_offset buf @ entry;
             let entry_offset = entry_offset + align_up (16 + length (xa_name attr)) 4;
             if value_end + length (xa_value attr) > length buf then None
             else write_attrs base hash_of attrs (put_bytes buf value_end (xa_value attr)) entry_offset value_end
           })"

definition write_inline :: "XattrState \<Rightarrow> (FormatError + bytes) option" where
  "write_inline st =
     (let capacity = unat (xs_inode_capacity st) in
      if capacity < 4 then None
      else
        let buf = put_bytes (replicate capacity 0) 0 (le_bytes 4 XATTR_HEADER_MAGIC)
        in write_attrs (unat XATTR_INODE_HEADER_SIZE) (\<lambda>_. 0) (xs_inline_attrs st) buf
             (unat XATTR_INODE_HEADER_SIZE) capacity)"

definition write_block :: "XattrState \<Rightarrow> (FormatError + bytes) option" where
  "write_block st =
     (let capacity = unat (xs_block_capacity st) in
      if capacity < 12 then None
      else
        let buf = put_bytes (replicate capacity 0) 0 (le_bytes 4 XATTR_HEADER_MAGIC);
            buf = put_bytes buf 4 (le_bytes 4 (1 :: u32));
            buf = put_bytes buf 8 (le_bytes 4 (1 :: u32));
            sorted = sort_key (\<lambda>a. (xa_index a, length (xa_name a), xa_name a)) (xs_block_attrs st)
        in write_attrs 0 xattr_hash sorted buf (unat XATTR_BLOCK_HEADER_SIZE) capacity)"

section \<open>Names\<close>

lemma best_prefix_sound:
  assumes "best_prefix name ps i n = (j, m)"
  shows "(j, m) = (i, n) \<or> (\<exists>p. (j, p) \<in> set ps \<and> starts_with name p \<and> length p = m)"
  using assms by (induction name ps i n rule: best_prefix.induct) (auto split: if_splits)

lemma prefix_table_keys: "find (\<lambda>(idx, prefix). idx = 0) XATTR_PREFIXES = None"
  "(i, p) \<in> set XATTR_PREFIXES \<Longrightarrow> find (\<lambda>(idx, prefix). idx = i) XATTR_PREFIXES = Some (i, p)"
  by (auto simp: XATTR_PREFIXES_def)

lemma starts_with_drop: "starts_with s p \<Longrightarrow> p @ drop (length p) s = s"
  by (metis append_take_drop_id starts_with_def)

lemma decompress_compress:
  assumes "compress_name name = (i, suffix)"
  shows "decompress_name i suffix = name"
proof -
  obtain m where m: "best_prefix name XATTR_PREFIXES 0 0 = (i, m)" "suffix = drop m name"
    using assms by (auto simp: compress_name_def split: prod.splits)
  from best_prefix_sound [OF m(1)] consider "i = 0" "m = 0"
    | p where "(i, p) \<in> set XATTR_PREFIXES" "starts_with name p" "length p = m" by auto
  then show ?thesis
    using m(2) prefix_table_keys starts_with_drop by cases (auto simp: decompress_name_def)
qed

section \<open>Layout of an area\<close>

definition entry_of :: "nat \<Rightarrow> (ExtendedAttribute \<Rightarrow> u32) \<Rightarrow> ExtendedAttribute \<Rightarrow> nat \<Rightarrow> XAttrEntry" where
  "entry_of base hash_of a pos =
     \<lparr>xe_name_len = of_nat (length (xa_name a)), xe_name_index = xa_index a,
      xe_value_offset = of_nat (pos - base), xe_value_inum = 0,
      xe_value_size = of_nat (length (xa_value a)), xe_hash = hash_of a\<rparr>"

text \<open>Where the loop puts the entry and the value of each attribute.\<close>

fun attr_positions :: "ExtendedAttribute list \<Rightarrow> nat \<Rightarrow> nat \<Rightarrow> (ExtendedAttribute \<times> nat \<times> nat) list" where
  "attr_positions [] entry_offset value_end = []"
| "attr_positions (a # attrs) entry_offset value_end =
     (a, entry_offset, value_end - align_up (length (xa_value a)) 4)
       # attr_positions attrs (entry_offset + align_up (16 + length (xa_name a)) 4)
           (value_end - align_up (length (xa_value a)) 4)"

definition attr_stored :: "nat \<Rightarrow> (ExtendedAttribute \<Rightarrow> u32) \<Rightarrow> bytes \<Rightarrow> ExtendedAttribute \<times> nat \<times> nat \<Rightarrow> bool" where
  "attr_stored base hash_of buf = (\<lambda>(a, eo, vo).
     XAttrEntry_read_from (drop eo buf) = Some (entry_of base hash_of a vo) \<and>
     get_bytes (length (xa_name a)) buf (eo + 16) = str_bytes (xa_name a) \<and>
     get_bytes (length (xa_value a)) buf vo = xa_value a)"

definition entries_span :: "ExtendedAttribute list \<Rightarrow> nat" where
  "entries_span attrs = (\<Sum>a\<leftarrow>attrs. align_up (16 + length (xa_name a)) 4)"

definition values_span :: "ExtendedAttribute list \<Rightarrow> nat" where
  "values_span attrs = (\<Sum>a\<leftarrow>attrs. align_up (length (xa_value a)) 4)"

definition attr_small :: "ExtendedAttribute \<Rightarrow> bool" where
  "attr_small a \<longleftrightarrow> length (xa_name a) \<le> EXT4_NAME_LEN \<and> length (xa_value a) < 2 ^ 31"

lemma attr_small_sizes:
  assumes "attr_small a"
  shows "16 + length (xa_name a) \<le> align_up (16 + length (xa_name a)) 4"
    "length (xa_value a) \<le> align_up (length (xa_value a)) 4"
    "align_up (16 + length (xa_name a)) 4 \<le> 274" "align_up (length (xa_value a)) 4 < 2 ^ 31 + 4"
  using assms align_up_bounds [of "16 + length (xa_name a)"] align_up_bounds [of "length (xa_value a)"]
  by (simp_all add: attr_small_def EXT4_NAME_LEN_def)

lemma write_xattr_entry_ok:
  assumes "16 + length name \<le> length buf"
  shows "\<exists>buf'. write_xattr_entry buf name i vo sz h = Some buf' \<and> length buf' = length buf \<and>
    XAttrEntry_read_from buf' = Some \<lparr>xe_name_len = of_nat (length name), xe_name_index = i,
      xe_value_offset = vo, xe_value_inum = 0, xe_value_size = sz, xe_hash = h\<rparr> \<and>
    get_bytes (length name) buf' 16 = str_bytes name \<and>
    drop (16 + length name) buf' = drop (16 + length name) buf"
proof -
  have one: "[b] = le_bytes 1 b" for b :: u8 by simp
  show ?thesis
    unfolding write_xattr_entry_def Let_def one
    using assms
    by (auto simp: XAttrEntry_read_from_def XAttrEntry_SIZE_def get_u8_def get_u16_def get_u32_def buf_simps)
qed

lemma attr_stored_frame:
  assumes "attr_stored base h buf (a, eo, vo)" "length buf' = length buf"
    and "eo + 16 + length (xa_name a) \<le> length buf"
    and "get_bytes 16 buf' eo = get_bytes 16 buf eo"
    and "get_bytes (length (xa_name a)) buf' (eo + 16) = get_bytes (length (xa_name a)) buf (eo + 16)"
    and "get_bytes (length (xa_value a)) buf' vo = get_bytes (length (xa_value a)) buf vo"
  shows "attr_stored base h buf' (a, eo, vo)"
proof -
  have "XAttrEntry_read_from (drop eo buf') = XAttrEntry_read_from (drop eo buf)"
    using assms(2-4) by (intro xe_codec.read_cong) (simp_all add: XAttrEntry_SIZE_def)
  with assms show ?thesis by (simp add: attr_stored_def)
qed

lemma splice_get:
  assumes "eo \<le> length buf"
  shows "get_bytes n (take eo buf @ ent) (eo + k) = get_bytes n ent k"
    and "off + n \<le> eo \<Longrightarrow> get_bytes n (take eo buf @ ent) off = get_bytes n buf off"
    and "drop k ent = drop k (drop eo buf) \<Longrightarrow> eo + k \<le> off \<Longrightarrow>
      get_bytes n (take eo buf @ ent) off = get_bytes n buf off"
proof -
  show a: "get_bytes n (take eo buf @ ent) (eo + k) = get_bytes n ent k" for k
    using assms by (simp add: get_bytes_def)
  show "off + n \<le> eo \<Longrightarrow> get_bytes n (take eo buf @ ent) off = get_bytes n buf off"
    using assms by (simp add: get_bytes_def take_drop)
  assume d: "drop k ent = drop k (drop eo buf)" "eo + k \<le> off"
  then obtain j where j: "off = eo + (k + j)" by (metis add.assoc le_Suc_ex)
  have "drop (k + j) ent = drop (eo + (k + j)) buf"
    using arg_cong [OF d(1), of "drop j"] by (simp add: add.commute add.left_commute)
  then show "get_bytes n (take eo buf @ ent) off = get_bytes n buf off"
    unfolding j a by (simp add: get_bytes_def)
qed

text \<open>One round of the loop: the attribute is stored and everything else is kept.\<close>

lemma write_attr_step:
  assumes "eo + 16 + length (xa_name a) \<le> ve'" "ve' + length (xa_value a) \<le> length buf"
  shows "\<exists>ent buf'. write_xattr_entry (drop eo buf) (xa_name a) (xa_index a) (of_nat (ve' - base))
      (of_nat (length (xa_value a))) (h a) = Some ent \<and>
    length (take eo buf @ ent) = length buf \<and> length buf' = length buf \<and>
    buf' = put_bytes (take eo buf @ ent) ve' (xa_value a) \<and> attr_stored base h buf' (a, eo, ve') \<and>
    (\<forall>n off. off + n \<le> eo \<or> eo + 16 + length (xa_name a) \<le> off \<and> off + n \<le> ve' \<or>
       ve' + length (xa_value a) \<le> off \<longrightarrow> get_bytes n buf' off = get_bytes n buf off)"
proof -
  have fit: "16 + length (xa_name a) \<le> length (drop eo buf)" "eo \<le> length buf"
    using assms by simp_all
  obtain ent where ent: "write_xattr_entry (drop eo buf) (xa_name a) (xa_index a) (of_nat (ve' - base))
        (of_nat (length (xa_value a))) (h a) = Some ent" "length ent = length (drop eo buf)"
      "XAttrEntry_read_from ent = Some (entry_of base h a ve')"
      "get_bytes (length (xa_name a)) ent 16 = str_bytes (xa_name a)"
      "drop (16 + length (xa_name a)) ent = drop (16 + length (xa_name a)) (drop eo buf)"
    using write_xattr_entry_ok [OF fit(1)] unfolding entry_of_def by blast
  define b where "b = take eo buf @ ent"
  have len: "length b = length buf" using fit(2) ent(2) by (simp add: b_def)
  define buf' where "buf' = put_bytes b ve' (xa_value a)"
  have low: "get_bytes n buf' (eo + k) = get_bytes n ent k" if "eo + k + n \<le> ve'" for n k
    using that splice_get(1) [OF fit(2)] by (simp add: buf'_def b_def get_put_bytes_other)
  have "XAttrEntry_read_from (drop eo buf') = XAttrEntry_read_from (drop 0 ent)"
    using low [of 0 16] assms fit len ent(2)
    by (intro xe_codec.read_cong) (simp_all add: XAttrEntry_SIZE_def buf'_def)
  moreover have "get_bytes (length (xa_name a)) buf' (eo + 16) = str_bytes (xa_name a)"
    using low [of 16 "length (xa_name a)"] assms(1) ent(4) by simp
  moreover have "get_bytes (length (xa_value a)) buf' ve' = xa_value a"
    using assms(2) len by (simp add: buf'_def get_put_bytes_same)
  ultimately have "attr_stored base h buf' (a, eo, ve')" using ent(3) by (simp add: attr_stored_def)
  moreover have "get_bytes n buf' off = get_bytes n buf off"
    if "off + n \<le> eo \<or> eo + 16 + length (xa_name a) \<le> off \<and> off + n \<le> ve' \<or>
       ve' + length (xa_value a) \<le> off" for n off
  proof -
    have "get_bytes n buf' off = get_bytes n b off"
      using that assms(1) by (auto simp: buf'_def get_put_bytes_other)
    also have "\<dots> = get_bytes n buf off"
      using that assms(1) splice_get(2) [OF fit(2)] splice_get(3) [OF fit(2) ent(5)] by (auto simp: b_def add.assoc)
    finally show ?thesis .
  qed
  ultimately show ?thesis using ent(1) len by (auto simp: b_def buf'_def)
qed

lemma write_attrs_ok:
  assumes "list_all attr_small attrs" "base \<le> eo" "ve \<le> length buf"
    "eo + entries_span attrs + values_span attrs \<le> ve"
  shows "\<exists>buf'. write_attrs base h attrs buf eo ve = Some (Ok buf') \<and> length buf' = length buf \<and>
    list_all (attr_stored base h buf') (attr_positions attrs eo ve) \<and>
    (\<forall>n off. off + n \<le> eo \<or> eo + entries_span attrs \<le> off \<and> off + n \<le> ve - values_span attrs \<or> ve \<le> off
       \<longrightarrow> get_bytes n buf' off = get_bytes n buf off)"
  using assms
proof (induction attrs arbitrary: buf eo ve)
  case (Cons a attrs)
  define en vn where "en = align_up (16 + length (xa_name a)) 4" and "vn = align_up (length (xa_value a)) 4"
  have small: "16 + length (xa_name a) \<le> en" "length (xa_value a) \<le> vn"
    using Cons.prems(1) attr_small_sizes [of a] by (auto simp: en_def vn_def)
  have spans: "entries_span (a # attrs) = en + entries_span attrs"
    "values_span (a # attrs) = vn + values_span attrs"
    by (simp_all add: entries_span_def values_span_def en_def vn_def)
  define ve' where "ve' = ve - vn"
  have room: "(eo + en) + entries_span attrs + values_span attrs \<le> ve'" "ve' + vn = ve"
    using Cons.prems(4) by (simp_all add: spans ve'_def)
  obtain ent b where ent: "write_xattr_entry (drop eo buf) (xa_name a) (xa_index a) (of_nat (ve' - base))
      (of_nat (length (xa_value a))) (h a) = Some ent" "length (take eo buf @ ent) = length buf"
    and b: "length b = length buf" "b = put_bytes (take eo buf @ ent) ve' (xa_value a)"
    "attr_stored base h b (a, eo, ve')"
    "\<forall>n off. off + n \<le> eo \<or> eo + 16 + length (xa_name a) \<le> off \<and> off + n \<le> ve' \<or>
       ve' + length (xa_value a) \<le> off \<longrightarrow> get_bytes n b off = get_bytes n buf off"
    using write_attr_step [of eo a ve' buf base h] room small Cons.prems(3) by auto
  obtain buf' where buf': "write_attrs base h attrs b (eo + en) ve' = Some (Ok buf')" "length buf' = length b"
    "list_all (attr_stored base h buf') (attr_positions attrs (eo + en) ve')"
    "\<forall>n off. off + n \<le> eo + en \<or> (eo + en) + entries_span attrs \<le> off \<and> off + n \<le> ve' - values_span attrs
       \<or> ve' \<le> off \<longrightarrow> get_bytes n buf' off = get_bytes n b off"
    using Cons.IH [of "eo + en" ve' b] Cons.prems room b(1) by auto
  have "attr_stored base h buf' (a, eo, ve')"
    using b(1) room small Cons.prems(3) by (intro attr_stored_frame [OF b(3) buf'(2)]) (auto simp: buf'(4))
  moreover have "get_bytes n buf' off = get_bytes n buf off"
    if "off + n \<le> eo \<or> eo + entries_span (a # attrs) \<le> off \<and> off + n \<le> ve - values_span (a # attrs) \<or> ve \<le> off"
    for n off
    using that buf'(4) b(4) room small by (auto simp: spans)
  moreover have "write_attrs base h (a # attrs) buf eo ve = Some (Ok buf')"
    using buf'(1) ent b(2) room small Cons.prems(2, 3)
    by (simp add: Let_def vn_def [symmetric] en_def [symmetric] ve'_def [symmetric])
  ultimately show ?case using buf'(2, 3) b(1) by (auto simp: en_def vn_def ve'_def)
qed (simp add: entries_span_def values_span_def)

section \<open>Adding attributes\<close>

fun xattr_add_all :: "ExtendedAttribute list \<Rightarrow> XattrState \<Rightarrow> FormatError + XattrState" where
  "xattr_add_all [] st = Ok st"
| "xattr_add_all (a # attrs) st = bind_result (xattr_add a st) (xattr_add_all attrs)"

text \<open>\<open>used\<close> bytes of a capacity hold a header and the attributes, and leave room for a terminator.\<close>

definition area_ok :: "nat \<Rightarrow> ExtendedAttribute list \<Rightarrow> u32 \<Rightarrow> u32 \<Rightarrow> bool" where
  "area_ok header attrs used capacity \<longleftrightarrow>
     list_all attr_small attrs \<and> unat used = header + entries_span attrs + values_span attrs \<and>
     unat used + 4 \<le> unat capacity \<and> unat capacity \<le> 2 ^ 16"

definition xattr_inv :: "XattrState \<Rightarrow> bool" where
  "xattr_inv st \<longleftrightarrow>
     area_ok 4 (xs_inline_attrs st) (xs_used_inline st) (xs_inode_capacity st) \<and>
     area_ok 32 (xs_block_attrs st) (xs_used_block st) (xs_block_capacity st)"

lemma total_size_unat:
  assumes "attr_small a"
  shows "unat (total_size a) = align_up (16 + length (xa_name a)) 4 + align_up (length (xa_value a)) 4"
    "unat (total_size a) < 2 ^ 31 + 300"
proof -
  define en vn where "en = align_up (16 + length (xa_name a)) 4" and "vn = align_up (length (xa_value a)) 4"
  have sz: "en \<le> 274" "vn < 2147483652" using attr_small_sizes [OF assms] by (simp_all add: en_def vn_def)
  have "unat (entry_size a) = en"
    unfolding entry_size_def add.commute [of _ 16] en_def [symmetric]
    by (rule unat_of_nat_small) (use sz in simp)
  moreover have "unat (value_size a) = vn"
    unfolding value_size_def vn_def [symmetric] by (rule unat_of_nat_small) (use sz in simp)
  ultimately have "unat (total_size a) = en + vn"
    unfolding total_size_def using sz by (subst unat_add_small) simp_all
  with sz show "unat (total_size a) = align_up (16 + length (xa_name a)) 4 + align_up (length (xa_value a)) 4"
    "unat (total_size a) < 2 ^ 31 + 300"
    by (simp_all add: en_def vn_def)
qed

lemma area_add:
  assumes "area_ok hdr attrs used cap" "attr_small a" "used + total_size a + 4 \<le> cap"
  shows "area_ok hdr (attrs @ [a]) (used + total_size a) cap"
proof -
  define t where "t = total_size a"
  have t: "unat t < 2147483948" using total_size_unat(2) [OF assms(2)] by (simp add: t_def)
  have u: "unat used \<le> 65536" using assms(1) by (simp add: area_ok_def)
  have sum: "unat (used + t) = unat used + unat t" using t u by (intro unat_add_small) simp
  then have "unat (used + t + 4) = unat used + unat t + 4"
    using t u by (subst unat_add_small) simp_all
  then have "unat used + unat t + 4 \<le> unat cap" using assms(3) by (simp add: word_le_nat_alt t_def)
  moreover have "unat used + unat t = hdr + entries_span (attrs @ [a]) + values_span (attrs @ [a])"
    using assms(1) total_size_unat(1) [OF assms(2)]
    by (simp add: area_ok_def entries_span_def values_span_def t_def)
  ultimately show ?thesis
    using assms(1, 2) sum unfolding area_ok_def t_def by simp
qed

lemma xattr_add_inv:
  assumes "xattr_inv st" "length (xa_value a) < 2 ^ 31" "xattr_add a st = Ok st'"
  shows "xattr_inv st'"
proof -
  have name: "length (xa_name a) \<le> EXT4_NAME_LEN"
    using assms(3) by (cases "length (xa_name a) > EXT4_NAME_LEN") (simp_all add: xattr_add_def)
  with assms(2) have small: "attr_small a" by (simp add: attr_small_def)
  have areas: "area_ok 4 (xs_inline_attrs st) (xs_used_inline st) (xs_inode_capacity st)"
    "area_ok 32 (xs_block_attrs st) (xs_used_block st) (xs_block_capacity st)"
    using assms(1) by (simp_all add: xattr_inv_def)
  show ?thesis
  proof (cases "xs_used_inline st + total_size a + 4 \<le> xs_inode_capacity st")
    case True
    then have "st' = st\<lparr>xs_used_inline := xs_used_inline st + total_size a,
        xs_inline_attrs := xs_inline_attrs st @ [a]\<rparr>"
      using assms(3) name by (simp add: xattr_add_def Let_def)
    with area_add [OF areas(1) small True] areas(2) show ?thesis by (simp add: xattr_inv_def)
  next
    case False
    then have blk: "xs_used_block st + total_size a + 4 \<le> xs_block_capacity st"
      "st' = st\<lparr>xs_used_block := xs_used_block st + total_size a,
        xs_block_attrs := xs_block_attrs st @ [a]\<rparr>"
      using assms(3) name
      by (cases "xs_used_block st + total_size a + 4 \<le> xs_block_capacity st";
          simp add: xattr_add_def Let_def)+
    with area_add [OF areas(2) small blk(1)] areas(1) show ?thesis by (simp add: xattr_inv_def)
  qed
qed

lemma xattr_add_keeps:
  assumes "xattr_add a st = Ok st'"
  shows "mset (xs_inline_attrs st' @ xs_block_attrs st') = mset (xs_inline_attrs st @ xs_block_attrs st) + {#a#}"
    "xs_inode_capacity st' = xs_inode_capacity st" "xs_block_capacity st' = xs_block_capacity st"
  using assms by (auto simp: xattr_add_def Let_def split: if_splits)

lemma xattr_add_all_ok:
  assumes "xattr_inv st" "\<forall>a \<in> set attrs. length (xa_value a) < 2 ^ 31" "xattr_add_all attrs st = Ok st'"
  shows "xattr_inv st' \<and>
    mset (xs_inline_attrs st' @ xs_block_attrs st') = mset (xs_inline_attrs st @ xs_block_attrs st) + mset attrs \<and>
    xs_inode_capacity st' = xs_inode_capacity st \<and> xs_block_capacity st' = xs_block_capacity st"
  using assms
proof (induction attrs arbitrary: st)
  case (Cons a attrs)
  then obtain st1 where st1: "xattr_add a st = Ok st1" "xattr_add_all attrs st1 = Ok st'" by auto
  note K = xattr_add_keeps [OF st1(1)]
  have "xattr_inv st1" using xattr_add_inv [OF Cons.prems(1) _ st1(1)] Cons.prems(2) by simp
  from Cons.IH [OF this _ st1(2)] Cons.prems(2) K show ?case by simp
qed simp

lemma area_written:
  assumes "area_ok hdr attrs used cap" "base \<le> hdr" "length buf = unat cap" "mset attrs' = mset attrs"
    and zero: "\<forall>n off. hdr \<le> off \<and> off + n \<le> length buf \<longrightarrow> get_bytes n buf off = replicate n 0"
  shows "\<exists>buf'. write_attrs base h attrs' buf hdr (unat cap) = Some (Ok buf') \<and> length buf' = unat cap \<and>
    get_bytes hdr buf' 0 = get_bytes hdr buf 0 \<and>
    get_bytes 4 buf' (hdr + entries_span attrs') = [0, 0, 0, 0] \<and>
    list_all (attr_stored base h buf') (attr_positions attrs' hdr (unat cap))"
proof -
  have same: "entries_span attrs' = entries_span attrs" "values_span attrs' = values_span attrs"
    using assms(4) by (simp_all add: entries_span_def values_span_def flip: sum_mset_sum_list)
  have "set attrs' = set attrs" using assms(4) by (rule mset_eq_setD)
  with assms(1) have small: "list_all attr_small attrs'" by (simp add: area_ok_def list_all_iff)
  have room: "hdr + entries_span attrs' + values_span attrs' + 4 \<le> unat cap"
    using assms(1) by (simp add: area_ok_def same)
  obtain buf' where buf': "write_attrs base h attrs' buf hdr (unat cap) = Some (Ok buf')"
    "length buf' = length buf" "list_all (attr_stored base h buf') (attr_positions attrs' hdr (unat cap))"
    "\<forall>n off. off + n \<le> hdr \<or> hdr + entries_span attrs' \<le> off \<and> off + n \<le> unat cap - values_span attrs'
       \<or> unat cap \<le> off \<longrightarrow> get_bytes n buf' off = get_bytes n buf off"
    using write_attrs_ok [OF small assms(2), of "unat cap" buf h] assms(3) room by auto
  have "get_bytes 4 buf' (hdr + entries_span attrs') = replicate 4 0"
    using buf'(4) zero room assms(3) by simp
  with buf' assms(3) show ?thesis by (simp add: numeral_eq_Suc)
qed

lemma attr_positions_attrs: "map fst (attr_positions attrs eo ve) = attrs"
  by (induction attrs arbitrary: eo ve) auto

lemma xattr_areas_written:
  assumes "\<forall>a \<in> set attrs. length (xa_value a) < 2 ^ 31"
    and "8 \<le> unat ic" "unat ic \<le> 2 ^ 16" "36 \<le> unat bc" "unat bc \<le> 2 ^ 16"
    and "xattr_add_all attrs (XattrState_new ino ic bc) = Ok st"
  shows "\<exists>inl blk pin pbl.
    write_inline st = Some (Ok inl) \<and> length inl = unat ic \<and>
    write_block st = Some (Ok blk) \<and> length blk = unat bc \<and>
    list_all (attr_stored 4 (\<lambda>_. 0) inl) pin \<and> list_all (attr_stored 0 xattr_hash blk) pbl \<and>
    mset (map fst (pin @ pbl)) = mset attrs \<and>
    get_bytes 4 inl (4 + entries_span (map fst pin)) = [0, 0, 0, 0] \<and>
    get_bytes 4 blk (32 + entries_span (map fst pbl)) = [0, 0, 0, 0]"
proof -
  have "xattr_inv (XattrState_new ino ic bc)"
    using assms(2-5) by (simp add: xattr_inv_def area_ok_def XattrState_new_def entries_span_def
        values_span_def XATTR_INODE_HEADER_SIZE_def XATTR_BLOCK_HEADER_SIZE_def)
  from xattr_add_all_ok [OF this assms(1, 6)] have st: "xattr_inv st"
    "mset (xs_inline_attrs st @ xs_block_attrs st) = mset attrs"
    "xs_inode_capacity st = ic" "xs_block_capacity st = bc"
    by (simp_all add: XattrState_new_def)
  define sorted where
    "sorted = sort_key (\<lambda>a. (xa_index a, length (xa_name a), xa_name a)) (xs_block_attrs st)"
  have m: "mset sorted = mset (xs_block_attrs st)" by (simp add: sorted_def)
  define b1 where "b1 = put_bytes (replicate (unat ic) 0) 0 (le_bytes 4 XATTR_HEADER_MAGIC)"
  define b2 where "b2 = put_bytes (put_bytes (put_bytes (replicate (unat bc) 0) 0
    (le_bytes 4 XATTR_HEADER_MAGIC)) 4 (le_bytes 4 (1 :: u32))) 8 (le_bytes 4 (1 :: u32))"
  have z: "\<forall>n off. 4 \<le> off \<and> off + n \<le> length b1 \<longrightarrow> get_bytes n b1 off = replicate n 0"
    "\<forall>n off. 32 \<le> off \<and> off + n \<le> length b2 \<longrightarrow> get_bytes n b2 off = replicate n 0"
    by (auto simp: b1_def b2_def get_put_bytes_other get_bytes_replicate)
  obtain inl where inl: "write_attrs 4 (\<lambda>_. 0) (xs_inline_attrs st) b1 4 (unat ic) = Some (Ok inl)"
    "length inl = unat ic" "get_bytes 4 inl (4 + entries_span (xs_inline_attrs st)) = [0, 0, 0, 0]"
    "list_all (attr_stored 4 (\<lambda>_. 0) inl) (attr_positions (xs_inline_attrs st) 4 (unat ic))"
    using area_written [of 4 "xs_inline_attrs st" "xs_used_inline st" ic 4 b1 _ "\<lambda>_. 0", OF _ _ _ refl z(1)]
      st(1, 3) by (auto simp: xattr_inv_def b1_def)
  obtain blk where blk: "write_attrs 0 xattr_hash sorted b2 32 (unat bc) = Some (Ok blk)"
    "length blk = unat bc" "get_bytes 4 blk (32 + entries_span sorted) = [0, 0, 0, 0]"
    "list_all (attr_stored 0 xattr_hash blk) (attr_positions sorted 32 (unat bc))"
    using area_written [of 32 "xs_block_attrs st" "xs_used_block st" bc 0 b2 sorted xattr_hash, OF _ _ _ m z(2)]
      st(1, 4) by (auto simp: xattr_inv_def b2_def)
  show ?thesis
    by (rule exI [of _ inl], rule exI [of _ blk], rule exI [of _ "attr_positions (xs_inline_attrs st) 4 (unat ic)"],
        rule exI [of _ "attr_positions sorted 32 (unat bc)"])
      (use inl blk assms(2, 4) st(2-4) m in \<open>simp add: write_inline_def write_block_def b1_def b2_def sorted_def
        attr_positions_attrs XATTR_INODE_HEADER_SIZE_def XATTR_BLOCK_HEADER_SIZE_def Let_def\<close>)
qed

section \<open>Properties\<close>

text \<open>
  Compressing an attribute name and decompressing the result gives the name back, whatever
  prefix of the table matches.
\<close>

theorem xattr_name_roundtrip: "case compress_name name of (i, suffix) \<Rightarrow> decompress_name i suffix = name"
  by (cases "compress_name name") (simp add: decompress_compress)

text \<open>
  C25: When a list of attributes was accepted into an inode area and a block area of at most 64 KiB,
  both areas serialize without error; every accepted attribute lies in exactly one of them, where its
  entry, its name and its value can be read back at the recorded positions; and each list of entries
  ends with a zero word.
\<close>

theorem xattr_areas_readable:
  assumes "\<forall>a \<in> set attrs. length (xa_value a) < 2 ^ 31"
    and "8 \<le> unat ic" "unat ic \<le> 2 ^ 16" "36 \<le> unat bc" "unat bc \<le> 2 ^ 16"
    and "xattr_add_all attrs (XattrState_new ino ic bc) = Ok st"
  shows "\<exists>inl blk pin pbl.
    write_inline st = Some (Ok inl) \<and> length inl = unat ic \<and>
    write_block st = Some (Ok blk) \<and> length blk = unat bc \<and>
    list_all (attr_stored 4 (\<lambda>_. 0) inl) pin \<and> list_all (attr_stored 0 xattr_hash blk) pbl \<and>
    mset (map fst (pin @ pbl)) = mset attrs \<and>
    get_bytes 4 inl (4 + entries_span (map fst pin)) = [0, 0, 0, 0] \<and>
    get_bytes 4 blk (32 + entries_span (map fst pbl)) = [0, 0, 0, 0]"
  by (rule xattr_areas_written [OF assms])

theorem xattr_areas_readable_witness:
  "\<exists>st inl blk pin pbl.
    xattr_add_all [ExtendedAttribute_new ''user.a'' [1, 2], ExtendedAttribute_new ''security.b'' (replicate 100 7)]
      (XattrState_new 12 96 4096) = Ok st \<and>
    write_inline st = Some (Ok inl) \<and> write_block st = Some (Ok blk) \<and>
    list_all (attr_stored 4 (\<lambda>_. 0) inl) pin \<and> list_all (attr_stored 0 xattr_hash blk) pbl \<and>
    mset (map fst (pin @ pbl)) = mset [ExtendedAttribute_new ''user.a'' [1, 2],
      ExtendedAttribute_new ''security.b'' (replicate 100 7)]"
proof -
  have new: "ExtendedAttribute_new ''user.a'' [1, 2] = \<lparr>xa_name = ''a'', xa_index = 1, xa_value = [1, 2]\<rparr>"
    "ExtendedAttribute_new ''security.b'' v = \<lparr>xa_name = ''b'', xa_index = 6, xa_value = v\<rparr>" for v
    by (simp_all add: ExtendedAttribute_new_def compress_name_def XATTR_PREFIXES_def starts_with_def)
  obtain st where st: "xattr_add_all [ExtendedAttribute_new ''user.a'' [1, 2],
      ExtendedAttribute_new ''security.b'' (replicate 100 7)] (XattrState_new 12 96 4096) = Ok st"
    by (simp add: new xattr_add_def XattrState_new_def total_size_def entry_size_def value_size_def align_up_4
        EXT4_NAME_LEN_def XATTR_INODE_HEADER_SIZE_def XATTR_BLOCK_HEADER_SIZE_def)
  have small: "\<forall>a \<in> set [ExtendedAttribute_new ''user.a'' [1, 2],
      ExtendedAttribute_new ''security.b'' (replicate 100 7)]. length (xa_value a) < 2 ^ 31"
    by (simp add: new)
  have caps: "8 \<le> unat (96 :: u32)" "unat (96 :: u32) \<le> 2 ^ 16" "36 \<le> unat (4096 :: u32)"
    "unat (4096 :: u32) \<le> 2 ^ 16" by simp_all
  from xattr_areas_readable [OF small caps st] st show ?thesis by blast
qed

end
