(* ===== verification/Ext4_Layout.thy ===== *)
theory Ext4_Layout
  imports Ext4_Extent Ext4_Xattr
begin

text \<open>
  \<open>common/ext4/src/formatter.rs\<close>, first part: the \<open>Formatter\<close> state, the arithmetic of block groups
  and reserved metadata, and the sequential payload writer.  The lemmas show which groups carry
  superblock copies, that skipping reserved blocks terminates, and that a payload can be read back
  from the blocks recorded for it, none of which is reserved metadata.

  The divisors below are the block size and values derived from it; \<open>with_options\<close> accepts no block
  size but 4096.
\<close>

section \<open>State\<close>

record Formatter =
  f_file :: File
  f_block_size :: u32
  f_size :: u64
  f_inodes :: "Inode list"
  f_tree :: FileTree
  f_deleted_blocks :: "BlockRange list"
  f_deferred_blocks :: "u32 \<Rightarrow> BlockRange list option"
  f_uuid :: "bytes option"
  f_label :: "string option"

section \<open>Block groups\<close>

definition RESERVED_GDT_MULTIPLIER :: u32 where "RESERVED_GDT_MULTIPLIER = 32"

definition saturating_mul :: "u32 \<Rightarrow> u32 \<Rightarrow> u32" where
  "saturating_mul a b = (if unat a * unat b < 2 ^ 32 then a * b else - 1)"

definition saturating_sub :: "'a::len word \<Rightarrow> 'a word \<Rightarrow> 'a word" where
  "saturating_sub a b = (if b \<le> a then a - b else 0)"

definition blocks_per_group :: "Formatter \<Rightarrow> u32" where
  "blocks_per_group f = f_block_size f * 8"

definition max_inodes_per_group :: "Formatter \<Rightarrow> u32" where
  "max_inodes_per_group f = f_block_size f * 8"

definition groups_per_descriptor_block :: "Formatter \<Rightarrow> u32" where
  "groups_per_descriptor_block f = f_block_size f div 32"

definition block_count :: "Formatter \<Rightarrow> u32" where
  "block_count f = ucast ((f_size f - 1) div ucast (f_block_size f) + 1)"

definition group_count :: "Formatter \<Rightarrow> u32" where
  "group_count f = (block_count f - 1) div blocks_per_group f + 1"

definition descriptor_blocks_for_groups :: "Formatter \<Rightarrow> u32 \<Rightarrow> u32" where
  "descriptor_blocks_for_groups f groups = (groups - 1) div groups_per_descriptor_block f + 1"

definition reserved_gdt_blocks_for_descriptor_blocks :: "Formatter \<Rightarrow> u32 \<Rightarrow> u32" where
  "reserved_gdt_blocks_for_descriptor_blocks f descriptor_blocks =
     (let addr_per_block = f_block_size f div 4
      in min (saturating_mul descriptor_blocks (RESERVED_GDT_MULTIPLIER - 1))
             (saturating_sub addr_per_block descriptor_blocks))"

definition group_descriptor_area_blocks_for_groups :: "Formatter \<Rightarrow> u32 \<Rightarrow> u32" where
  "group_descriptor_area_blocks_for_groups f groups =
     (let descriptor_blocks = descriptor_blocks_for_groups f groups
      in descriptor_blocks + reserved_gdt_blocks_for_descriptor_blocks f descriptor_blocks)"

definition group_descriptor_blocks :: "Formatter \<Rightarrow> u32" where
  "group_descriptor_blocks f = group_descriptor_area_blocks_for_groups f (group_count f)"

text \<open>
  \<open>is_power_of\<close> divides while the remainder is zero.  With a base below 2 the loop does not end (or
  divides by zero), which is \<open>None\<close>; the code calls it with 3, 5 and 7.
\<close>

partial_function (option) strip_factor :: "u32 \<Rightarrow> u32 \<Rightarrow> u32 option" where
  "strip_factor n base =
     (if base = 0 then None else if n mod base = 0 then strip_factor (n div base) base else Some n)"

definition is_power_of :: "u32 \<Rightarrow> u32 \<Rightarrow> bool option" where
  "is_power_of n base = (if n < base then Some False else map_option (\<lambda>m. m = 1) (strip_factor n base))"

definition has_sparse_super :: "u32 \<Rightarrow> bool" where
  "has_sparse_super grp \<longleftrightarrow>
     grp = 0 \<or> grp = 1 \<or> is_power_of grp 3 = Some True \<or> is_power_of grp 5 = Some True
       \<or> is_power_of grp 7 = Some True"

definition has_sparse_super_backup :: "u32 \<Rightarrow> bool" where
  "has_sparse_super_backup grp \<longleftrightarrow> grp \<noteq> 0 \<and> has_sparse_super grp"

definition static_metadata_blocks_in_group :: "Formatter \<Rightarrow> u32 \<Rightarrow> u32" where
  "static_metadata_blocks_in_group f grp =
     (if has_sparse_super grp then 1 + group_descriptor_blocks f else 0)"

definition reserved_metadata_end_for_block :: "Formatter \<Rightarrow> u32 \<Rightarrow> u32" where
  "reserved_metadata_end_for_block f block =
     (let grp = block div blocks_per_group f;
          group_start = grp * blocks_per_group f;
          metadata_blocks = static_metadata_blocks_in_group f grp;
          metadata_end = group_start + metadata_blocks
      in if block \<ge> group_start \<and> block < metadata_end then metadata_end else block)"

definition backup_groups :: "u32 \<Rightarrow> u32 list" where
  "backup_groups total_groups = filter has_sparse_super_backup (map of_nat [1..<unat total_groups])"

section \<open>Position\<close>

definition pos :: "Formatter \<Rightarrow> u64" where
  "pos f = of_nat (fl_pos (f_file f))"

definition current_block :: "Formatter \<Rightarrow> u32" where
  "current_block f = ucast (pos f div ucast (f_block_size f))"

definition seek_to_block :: "u32 \<Rightarrow> Formatter \<Rightarrow> Formatter" where
  "seek_to_block block f =
     f\<lparr>f_file := seek_start (unat ((ucast block :: u64) * ucast (f_block_size f))) (f_file f)\<rparr>"

definition align_to_block :: "Formatter \<Rightarrow> Formatter" where
  "align_to_block f =
     (if pos f mod ucast (f_block_size f) \<noteq> 0 then seek_to_block (current_block f + 1) f else f)"

partial_function (option) skip_loop :: "Formatter \<Rightarrow> Formatter option" where
  "skip_loop f =
     (let block = current_block f;
          nxt = reserved_metadata_end_for_block f block
      in if nxt = block then Some f else skip_loop (seek_to_block nxt f))"

definition skip_reserved_metadata_blocks :: "Formatter \<Rightarrow> Formatter option" where
  "skip_reserved_metadata_blocks f =
     (if pos f mod ucast (f_block_size f) \<noteq> 0 then Some f else skip_loop f)"

section \<open>Payload\<close>

definition record_block_range :: "BlockRange list \<Rightarrow> u32 \<Rightarrow> BlockRange list" where
  "record_block_range ranges block =
     (if ranges = [] then [\<lparr>br_start = block, br_end = block + 1\<rparr>]
      else
        let lst = last ranges in
        if block \<ge> br_start lst \<and> block < br_end lst then ranges
        else if br_end lst = block then butlast ranges @ [lst\<lparr>br_end := br_end lst + 1\<rparr>]
        else ranges @ [\<lparr>br_start = block, br_end = block + 1\<rparr>])"

definition write_and_grow :: "bytes \<Rightarrow> Formatter \<Rightarrow> Formatter" where
  "write_and_grow bs f =
     (let f = f\<lparr>f_file := write_all bs (f_file f)\<rparr>
      in f\<lparr>f_size := max (f_size f) (pos f)\<rparr>)"

function write_payload_bytes :: "Formatter \<Rightarrow> bytes \<Rightarrow> BlockRange list \<Rightarrow> (Formatter \<times> BlockRange list) option" where
  "write_payload_bytes f bytes ranges =
     (if bytes = [] then Some (f, ranges)
      else if f_block_size f = 0 then None
      else
        case skip_reserved_metadata_blocks f of
          None \<Rightarrow> None
        | Some f1 \<Rightarrow>
            let block = current_block f1;
                block_offset = unat (pos f1 mod ucast (f_block_size f1));
                writable = min (unat (f_block_size f) - block_offset) (length bytes)
            in if writable = 0 then None
               else write_payload_bytes (write_and_grow (take writable bytes) f1) (drop writable bytes)
                      (record_block_range ranges block))"
  by pat_completeness auto

termination
  by (relation "measure (\<lambda>(_, bytes, _). length bytes)") auto

declare write_payload_bytes.simps [simp del]

text \<open>
  A reader is the list of chunks its \<open>read\<close> calls return, each at most one block long; an empty chunk
  or the end of the list is end of file.
\<close>

fun write_payload_chunks ::
  "Formatter \<Rightarrow> bytes list \<Rightarrow> u64 \<Rightarrow> BlockRange list \<Rightarrow> ((FormatError + u64) \<times> Formatter \<times> BlockRange list) option" where
  "write_payload_chunks f [] sz ranges = Some (Ok sz, f, ranges)"
| "write_payload_chunks f (buf # reader) sz ranges =
     (if buf = [] then Some (Ok sz, f, ranges)
      else
        let sz = sz + of_nat (length buf) in
        if sz > MAX_FILE_SIZE then Some (Err (F_FileTooBig sz), f, ranges)
        else case write_payload_bytes f buf ranges of
               None \<Rightarrow> None
             | Some (f, ranges) \<Rightarrow> write_payload_chunks f reader sz ranges)"

definition write_payload_from_reader ::
  "Formatter \<Rightarrow> bytes list \<Rightarrow> BlockRange list \<Rightarrow> ((FormatError + u64) \<times> Formatter \<times> BlockRange list) option" where
  "write_payload_from_reader f reader ranges = write_payload_chunks f reader 0 ranges"

definition write_aligned_payload_bytes :: "Formatter \<Rightarrow> bytes \<Rightarrow> (Formatter \<times> BlockRange list) option" where
  "write_aligned_payload_bytes f bytes =
     do {
       let f = align_to_block f;
       f \<leftarrow> skip_reserved_metadata_blocks f;
       (f, ranges) \<leftarrow> write_payload_bytes f bytes [];
       Some (align_to_block f, ranges)
     }"

definition assign_node_ranges :: "FileTreeNode \<Rightarrow> BlockRange list \<Rightarrow> FileTreeNode" where
  "assign_node_ranges nd ranges =
     nd\<lparr>n_blocks := (case ranges of [] \<Rightarrow> None | r # _ \<Rightarrow> Some r), n_additional_blocks := drop 1 ranges\<rparr>"

section \<open>Sparse superblock groups\<close>

lemma strip_factor_spec:
  assumes "2 \<le> base" "n \<noteq> 0"
  shows "\<exists>m k. strip_factor n base = Some m \<and> unat n = unat m * unat base ^ k \<and> \<not> unat base dvd unat m"
  using assms(2)
proof (induction "unat n" arbitrary: n rule: less_induct)
  case less
  have b: "2 \<le> unat base" using assms(1) by (simp add: word_le_nat_alt)
  then have b0: "base \<noteq> 0" by auto
  have n0: "0 < unat n" using less.prems by (simp add: unat_gt_0)
  show ?case
  proof (cases "n mod base = 0")
    case True
    then have "unat n mod unat base = 0" by (metis unat_0 unat_mod_distrib)
    then obtain q where q: "unat n = unat base * q" by (auto elim: dvdE)
    have d: "unat (n div base) = q" using q b by (simp add: unat_div_distrib)
    have "q < unat n" "q \<noteq> 0" using q b n0 by auto
    then have "unat (n div base) < unat n" "n div base \<noteq> 0" using d by auto
    from less.hyps [OF this] obtain m k where
      mk: "strip_factor (n div base) base = Some m" "q = unat m * unat base ^ k" "\<not> unat base dvd unat m"
      using d by auto
    have "strip_factor n base = Some m" using mk(1) True b0 by (subst strip_factor.simps) simp
    moreover have "unat n = unat m * unat base ^ Suc k" using q mk(2) by simp
    ultimately show ?thesis using mk(3) by blast
  next
    case False
    then have "strip_factor n base = Some n" using b0 by (subst strip_factor.simps) simp
    moreover have "\<not> unat base dvd unat n"
      using False by (metis dvd_imp_mod_0 unat_eq_zero unat_mod_distrib)
    ultimately show ?thesis by (intro exI [of _ n] exI [of _ 0]) simp
  qed
qed

lemma unat_one_iff: "unat (w :: 'a::len word) = 1 \<longleftrightarrow> w = 1"
  by (metis unsigned_1 unsigned_word_eqI)

lemma power_factor:
  fixes b :: nat
  assumes "2 \<le> b" "m * b ^ k = b ^ j" "\<not> b dvd m"
  shows "m = 1"
proof (cases "k \<le> j")
  case True
  then have "b ^ j = b ^ (j - k) * b ^ k" by (simp flip: power_add)
  then have "m = b ^ (j - k)" using assms(1, 2) by simp
  with assms(3) show ?thesis by (cases "j - k") auto
next
  case False
  then have "b ^ j < b ^ k" using assms(1) by (intro power_strict_increasing) auto
  moreover have "0 < m" using assms(3) by (cases m) auto
  ultimately show ?thesis using assms(2) by (cases m) auto
qed

lemma is_power_of_spec:
  assumes "2 \<le> base"
  shows "is_power_of n base = Some (\<exists>k \<ge> 1. unat n = unat base ^ k)"
proof (cases "n < base")
  case True
  have "unat base \<le> unat base ^ k" if "1 \<le> k" for k
    using assms that by (intro self_le_power) (auto simp: word_le_nat_alt)
  with True show ?thesis by (fastforce simp: is_power_of_def word_less_nat_alt)
next
  case False
  have b: "2 \<le> unat base" using assms by (simp add: word_le_nat_alt)
  have n: "unat base \<le> unat n" using False by (simp add: word_less_nat_alt)
  then have "n \<noteq> 0" using b by auto
  from strip_factor_spec [OF assms this] obtain m k where
    m: "strip_factor n base = Some m" "unat n = unat m * unat base ^ k" "\<not> unat base dvd unat m" by blast
  have "m = 1 \<longleftrightarrow> (\<exists>k \<ge> 1. unat n = unat base ^ k)"
  proof
    assume "m = 1"
    then have "unat n = unat base ^ k" using m(2) by simp
    moreover from this have "1 \<le> k" using n b by (cases k) auto
    ultimately show "\<exists>k \<ge> 1. unat n = unat base ^ k" by blast
  next
    assume "\<exists>k \<ge> 1. unat n = unat base ^ k"
    then obtain j where "unat m * unat base ^ k = unat base ^ j" using m(2) by auto
    from power_factor [OF b this m(3)] show "m = 1" by (simp add: unat_one_iff [simplified])
  qed
  with False m(1) show ?thesis by (simp add: is_power_of_def)
qed

lemma has_sparse_super_iff:
  "has_sparse_super g \<longleftrightarrow> g = 0 \<or> (\<exists>k. unat g = 3 ^ k \<or> unat g = 5 ^ k \<or> unat g = 7 ^ k)"
proof -
  have one: "g = 1 \<longleftrightarrow> unat g = b ^ 0" for b :: nat by (simp add: unat_one_iff [simplified])
  have ex: "(\<exists>k. unat g = b ^ k) \<longleftrightarrow> g = 1 \<or> (\<exists>k \<ge> 1. unat g = b ^ k)" for b :: nat
    by (metis one less_one not_le)
  show ?thesis
    unfolding ex_disj_distrib ex has_sparse_super_def
    by (auto simp: is_power_of_spec)
qed

text \<open>
  \<open>has_sparse_super\<close>, which strips factors in a loop, accepts exactly group 0 and the groups whose
  number is a power of 3, 5 or 7 (1 included): the groups ext4's \<open>sparse_super\<close> feature names.
\<close>

theorem sparse_super_groups:
  "has_sparse_super g \<longleftrightarrow> g = 0 \<or> (\<exists>k. unat g = 3 ^ k \<or> unat g = 5 ^ k \<or> unat g = 7 ^ k)"
  by (rule has_sparse_super_iff)

section \<open>Reserved blocks\<close>

lemma ucast_4096 [simp]: "(ucast (4096 :: u32) :: u64) = 4096"
  by simp

lemma descriptor_area_bounds:
  assumes "f_block_size f = 4096"
  shows "1 \<le> unat (group_descriptor_blocks f)" "unat (group_descriptor_blocks f) \<le> 1024"
proof -
  define g where "g = group_count f"
  define d where "d = descriptor_blocks_for_groups f g"
  have g: "unat ((block_count f - 1) div 32768) \<le> 131071"
    using unat_below [of "block_count f - 1"] div_le_mono [of "unat (block_count f - 1)" 4294967295 32768]
    by (simp add: unat_div_distrib)
  then have "unat g = unat ((block_count f - 1) div 32768) + 1"
    using assms by (simp add: g_def group_count_def blocks_per_group_def unat_add_small)
  then have g1: "1 \<le> unat g" "unat g \<le> 131072" using g by auto
  then have "unat (g - 1) = unat g - 1" by (simp add: unat_diff_le word_le_nat_alt)
  then have "unat ((g - 1) div 128) \<le> 1023"
    using g1 div_le_mono [of "unat g - 1" 131071 128] by (simp add: unat_div_distrib)
  then have d: "1 \<le> unat d" "unat d \<le> 1024"
    using assms by (simp_all add: d_def descriptor_blocks_for_groups_def groups_per_descriptor_block_def
        unat_add_small)
  have "unat (saturating_sub 1024 d) = 1024 - unat d"
    using d by (simp add: saturating_sub_def unat_diff_le word_le_nat_alt)
  then have r: "unat (reserved_gdt_blocks_for_descriptor_blocks f d) \<le> 1024 - unat d"
    using assms by (simp add: reserved_gdt_blocks_for_descriptor_blocks_def Let_def min_def word_le_nat_alt)
  then have "unat (group_descriptor_blocks f) = unat d + unat (reserved_gdt_blocks_for_descriptor_blocks f d)"
    using d by (simp add: group_descriptor_blocks_def group_descriptor_area_blocks_for_groups_def
        g_def [symmetric] d_def [symmetric] Let_def unat_add_small)
  with d r show "1 \<le> unat (group_descriptor_blocks f)" "unat (group_descriptor_blocks f) \<le> 1024" by auto
qed

text \<open>\<open>reserved G b\<close>: block \<open>b\<close> holds a superblock copy or one of the \<open>G\<close> descriptor blocks after it.\<close>

definition reserved :: "nat \<Rightarrow> nat \<Rightarrow> bool" where
  "reserved G b \<longleftrightarrow> has_sparse_super (of_nat (b div 32768)) \<and> b mod 32768 < 1 + G"

definition first_usable :: "nat \<Rightarrow> nat \<Rightarrow> nat" where
  "first_usable G b = (if reserved G b then b div 32768 * 32768 + 1 + G else b)"

lemma first_usable_bounds:
  assumes "G \<le> 1024"
  shows "b \<le> first_usable G b" "\<not> reserved G (first_usable G b)"
    "first_usable G b div 32768 = b div 32768" "first_usable G b = b \<longleftrightarrow> \<not> reserved G b"
proof -
  define q r where "q = b div 32768" and "r = b mod 32768"
  have b: "b = q * 32768 + r" "r < 32768" by (simp_all add: q_def r_def)
  have e: "(q * 32768 + 1 + G) div 32768 = q" "(q * 32768 + 1 + G) mod 32768 = 1 + G" using assms by simp_all
  have dm: "b div 32768 = q" "b mod 32768 = r" by (simp_all add: q_def r_def)
  show "b \<le> first_usable G b" "\<not> reserved G (first_usable G b)"
    "first_usable G b div 32768 = b div 32768" "first_usable G b = b \<longleftrightarrow> \<not> reserved G b"
    using e b by (auto simp: first_usable_def reserved_def dm)
qed

lemma reserved_end:
  assumes "f_block_size f = 4096" "b < 2 ^ 32" "G = unat (group_descriptor_blocks f)"
  shows "reserved_metadata_end_for_block f (of_nat b) = of_nat (first_usable G b)" "first_usable G b < 2 ^ 32"
proof -
  have G: "G \<le> 1024" using descriptor_area_bounds(2) [OF assms(1)] assms(3) by simp
  have ub: "unat (of_nat b :: u32) = b" using assms(2) by (intro unat_of_nat_small) simp
  define q where "q = b div 32768"
  have q: "q \<le> 131071" using assms(2) div_le_mono [of b 4294967295 32768] by (simp add: q_def)
  have bq: "b = q * 32768 + b mod 32768" by (simp add: q_def)
  have "unat ((of_nat b :: u32) div 32768) = unat (of_nat q :: u32)"
    using ub q by (simp add: unat_div_distrib q_def [symmetric] unat_of_nat_small)
  then have grp: "(of_nat b :: u32) div 32768 = of_nat q" by (rule unsigned_word_eqI)
  have start: "unat ((of_nat q :: u32) * 32768) = q * 32768"
    using q by (subst unat_mult_small) (simp_all add: unat_of_nat_small)
  have "q * 32768 \<le> 4294934528" using q by linarith
  then show lt: "first_usable G b < 2 ^ 32"
    using G assms(2) by (simp add: first_usable_def q_def [symmetric])
  have fin: "unat ((of_nat q :: u32) * 32768 + (1 + group_descriptor_blocks f)) = q * 32768 + (1 + G)"
    using q G start assms(3) by (subst unat_add_small) (simp_all add: unat_add_small)
  have sparse: "has_sparse_super (of_nat b div 32768) \<longleftrightarrow> has_sparse_super (of_nat q)" by (simp add: grp)
  have "unat (reserved_metadata_end_for_block f (of_nat b)) = first_usable G b"
    using assms(1) bq ub
    by (auto simp: reserved_metadata_end_for_block_def static_metadata_blocks_in_group_def blocks_per_group_def
        Let_def grp word_le_nat_alt word_less_nat_alt start fin first_usable_def reserved_def q_def [symmetric])
  then have "unat (reserved_metadata_end_for_block f (of_nat b)) = unat (of_nat (first_usable G b) :: u32)"
    using lt by (simp add: unat_of_nat_small)
  then show "reserved_metadata_end_for_block f (of_nat b) = of_nat (first_usable G b)"
    by (rule unsigned_word_eqI)
qed

lemma of_nat_word_inj:
  "m < 2 ^ LENGTH('a) \<Longrightarrow> n < 2 ^ LENGTH('a) \<Longrightarrow> (of_nat m :: 'a::len word) = of_nat n \<longleftrightarrow> m = n"
  by (metis unat_of_nat_small)

lemma pos_block:
  assumes "f_block_size f = 4096" "fl_pos (f_file f) = 4096 * b + r" "r < 4096" "b < 2 ^ 32"
  shows "current_block f = of_nat b" "unat (pos f) = fl_pos (f_file f)"
    "unat (pos f mod ucast (f_block_size f)) = r" "pos f mod ucast (f_block_size f) = 0 \<longleftrightarrow> r = 0"
proof -
  have "fl_pos (f_file f) < 2 ^ 64" using assms(2-4) by simp
  then show p: "unat (pos f) = fl_pos (f_file f)" by (simp add: pos_def unat_of_nat_small)
  show m: "unat (pos f mod ucast (f_block_size f)) = r"
    using assms by (simp add: unat_mod_distrib p)
  show "pos f mod ucast (f_block_size f) = 0 \<longleftrightarrow> r = 0" using m by (metis unat_0 unat_eq_zero)
  have "unat (pos f div 4096) = b" using assms(2, 3) by (simp add: unat_div_distrib p)
  then have "unat (ucast (pos f div 4096) :: u32) = b" using assms(4) by (simp add: unat_ucast_small)
  then have "unat (current_block f) = unat (of_nat b :: u32)"
    using assms(1, 4) by (simp add: current_block_def unat_of_nat_small)
  then show "current_block f = of_nat b" by (rule unsigned_word_eqI)
qed

lemma seek_to_block_pos:
  assumes "f_block_size f = 4096" "b < 2 ^ 32"
  shows "seek_to_block (of_nat b) f = f\<lparr>f_file := seek_start (4096 * b) (f_file f)\<rparr>"
proof -
  have "unat ((ucast (of_nat b :: u32) :: u64) * 4096) = 4096 * b"
    using assms(2) by (subst unat_mult_small) (simp_all add: unat_ucast_small unat_of_nat_small)
  then show ?thesis using assms(1) by (simp add: seek_to_block_def)
qed

lemma seek_same: "fl_pos (f_file f) = p \<Longrightarrow> f\<lparr>f_file := seek_start p (f_file f)\<rparr> = f"
  by (simp add: seek_start_def)

lemma group_descriptor_blocks_file [simp]:
  "group_descriptor_blocks (f\<lparr>f_file := x\<rparr>) = group_descriptor_blocks f"
  by (simp add: group_descriptor_blocks_def group_descriptor_area_blocks_for_groups_def
      descriptor_blocks_for_groups_def reserved_gdt_blocks_for_descriptor_blocks_def group_count_def
      block_count_def blocks_per_group_def groups_per_descriptor_block_def)

text \<open>Skipping reserved blocks returns, at the first usable block.\<close>

lemma skip_loop_ok:
  assumes bs: "f_block_size f = 4096" and p: "fl_pos (f_file f) = 4096 * b" and b: "b < 2 ^ 32"
    and G: "G = unat (group_descriptor_blocks f)"
  shows "skip_loop f = Some (f\<lparr>f_file := seek_start (4096 * first_usable G b) (f_file f)\<rparr>)"
proof -
  have G1: "G \<le> 1024" using descriptor_area_bounds(2) [OF bs] G by simp
  note R = reserved_end [OF bs b G] and U = first_usable_bounds [OF G1, of b]
  have cur: "current_block f = of_nat b" using pos_block(1) [OF bs, of b 0] p b by simp
  show ?thesis
  proof (cases "reserved G b")
    case False
    then have "first_usable G b = b" using U(4) by simp
    then show ?thesis using R(1) cur seek_same [OF p] by (subst skip_loop.simps) (simp add: Let_def)
  next
    case True
    define u where "u = first_usable G b"
    have ne: "(of_nat u :: u32) \<noteq> of_nat b"
      using U(4) True R(2) b of_nat_word_inj [of u b, where 'a = 32] by (simp add: u_def)
    define f1 where "f1 = f\<lparr>f_file := seek_start (4096 * u) (f_file f)\<rparr>"
    have s: "seek_to_block (of_nat u) f = f1" using seek_to_block_pos [OF bs R(2)] by (simp add: u_def f1_def)
    have "first_usable G u = u" using first_usable_bounds(2, 4) [OF G1] U(2) by (simp add: u_def)
    then have "reserved_metadata_end_for_block f1 (of_nat u) = of_nat u"
      using reserved_end(1) [of f1 u G] bs R(2) G by (simp add: f1_def u_def)
    moreover have "current_block f1 = of_nat u"
      using pos_block(1) [of f1 u 0] bs R(2) by (simp add: f1_def u_def)
    ultimately have "skip_loop f1 = Some f1" by (subst skip_loop.simps) (simp add: Let_def)
    then show ?thesis
      using R(1) cur ne s by (subst skip_loop.simps) (simp add: Let_def u_def [symmetric] f1_def)
  qed
qed

section \<open>Payload blocks\<close>

definition ranges_blocks :: "BlockRange list \<Rightarrow> nat list" where
  "ranges_blocks ranges = concat (map range_blocks ranges)"

definition ranges_ok :: "BlockRange list \<Rightarrow> bool" where
  "ranges_ok ranges \<longleftrightarrow> list_all (\<lambda>r. br_start r < br_end r) ranges"

lemma ranges_ok_range_ok: "ranges_ok ranges \<Longrightarrow> list_all range_ok ranges"
  by (auto simp: ranges_ok_def range_ok_def list_all_iff)

lemma ranges_blocks_last:
  assumes "ranges_ok ranges" "ranges \<noteq> []"
  shows "ranges_blocks ranges \<noteq> []" "last (ranges_blocks ranges) = unat (br_end (last ranges)) - 1"
    "unat (br_start (last ranges)) \<le> last (ranges_blocks ranges)"
    "last (ranges_blocks ranges) < unat (br_end (last ranges))"
proof -
  obtain rs r where r: "ranges = rs @ [r]" using assms(2) by (metis rev_exhaust)
  then have "unat (br_start r) < unat (br_end r)" using assms(1) by (simp add: ranges_ok_def word_less_nat_alt)
  then show "ranges_blocks ranges \<noteq> []" "last (ranges_blocks ranges) = unat (br_end (last ranges)) - 1"
    "unat (br_start (last ranges)) \<le> last (ranges_blocks ranges)"
    "last (ranges_blocks ranges) < unat (br_end (last ranges))"
    by (auto simp: ranges_blocks_def r range_blocks_def last_append)
qed

lemma record_same_block:
  assumes "ranges_ok ranges" "ranges \<noteq> []" "b = last (ranges_blocks ranges)" "b < 2 ^ 32"
  shows "record_block_range ranges (of_nat b) = ranges"
proof -
  have "unat (of_nat b :: u32) = b" using assms(4) by (intro unat_of_nat_small) simp
  with ranges_blocks_last(3, 4) [OF assms(1, 2), folded assms(3)]
  have "br_start (last ranges) \<le> of_nat b" "of_nat b < br_end (last ranges)"
    by (simp_all add: word_le_nat_alt word_less_nat_alt)
  with assms(2) show ?thesis by (simp add: record_block_range_def Let_def)
qed

lemma record_new_block:
  assumes ok: "ranges_ok ranges" and new: "\<forall>c \<in> set (ranges_blocks ranges). c < b" and b: "b < 2 ^ 32 - 1"
  shows "ranges_ok (record_block_range ranges (of_nat b))"
    "ranges_blocks (record_block_range ranges (of_nat b)) = ranges_blocks ranges @ [b]"
proof -
  have u: "unat (of_nat b :: u32) = b" "unat (of_nat b + 1 :: u32) = b + 1"
    using b by (simp_all add: unat_of_nat_small unat_add_small)
  have one: "range_blocks \<lparr>br_start = of_nat b, br_end = of_nat b + 1\<rparr> = [b]"
    "(of_nat b :: u32) < of_nat b + 1"
    using u by (simp_all add: range_blocks_def word_less_nat_alt)
  show "ranges_ok (record_block_range ranges (of_nat b))"
    "ranges_blocks (record_block_range ranges (of_nat b)) = ranges_blocks ranges @ [b]"
  proof (atomize (full), cases "ranges = []")
    case True
    then show "ranges_ok (record_block_range ranges (of_nat b)) \<and>
      ranges_blocks (record_block_range ranges (of_nat b)) = ranges_blocks ranges @ [b]"
      using one by (simp add: record_block_range_def ranges_ok_def ranges_blocks_def)
  next
    case False
    note L = ranges_blocks_last [OF ok False]
    have "last (ranges_blocks ranges) < b" using new L(1) by simp
    then have "\<not> b < unat (br_end (last ranges))" using L(2) by linarith
    then have out: "\<not> (of_nat b \<ge> br_start (last ranges) \<and> of_nat b < br_end (last ranges))"
      using u(1) by (simp add: word_less_nat_alt)
    show "ranges_ok (record_block_range ranges (of_nat b)) \<and>
      ranges_blocks (record_block_range ranges (of_nat b)) = ranges_blocks ranges @ [b]"
    proof (cases "br_end (last ranges) = of_nat b")
      case True
      obtain rs r where r: "ranges = rs @ [r]" using False by (metis rev_exhaust)
      have lt: "unat (br_start r) < b"
        using ok True u(1) by (simp add: r ranges_ok_def word_less_nat_alt)
      then have "range_blocks (r\<lparr>br_end := of_nat b + 1\<rparr>) = range_blocks r @ [b]"
        using True u by (simp add: r range_blocks_def)
      moreover have "br_start r < of_nat b + 1" using lt u(2) by (simp add: word_less_nat_alt)
      ultimately show ?thesis
        using ok out True by (auto simp: record_block_range_def Let_def r ranges_ok_def ranges_blocks_def)
    next
      case False
      then show ?thesis
        using ok out one \<open>ranges \<noteq> []\<close>
        by (auto simp: record_block_range_def Let_def ranges_ok_def ranges_blocks_def)
    qed
  qed
qed

text \<open>Two ranges that follow each other are separated by reserved blocks.\<close>

definition gap :: "nat \<Rightarrow> BlockRange \<Rightarrow> BlockRange \<Rightarrow> bool" where
  "gap G r s \<longleftrightarrow> reserved G (unat (br_end r)) \<and> br_end r < br_start s"

lemma record_gap:
  assumes gaps: "successively (gap G) ranges" and u: "u = first_usable G b" "u < 2 ^ 32 - 1"
    and lst: "ranges \<noteq> [] \<Longrightarrow> unat (br_end (last ranges)) = b"
  shows "successively (gap G) (record_block_range ranges (of_nat u))"
proof (cases "ranges = []")
  case True
  then show ?thesis by (simp add: record_block_range_def)
next
  case False
  then obtain rs r where r: "ranges = rs @ [r]" by (metis rev_exhaust)
  have uu: "unat (of_nat u :: u32) = u" using u(2) by (intro unat_of_nat_small) simp
  have e: "unat (br_end r) = b" using lst r by simp
  have ext: "successively (gap G) (rs @ [r\<lparr>br_end := x\<rparr>])" for x
    using gaps by (auto simp: r successively_append_iff gap_def)
  show ?thesis
  proof (cases "br_end r = of_nat u")
    case True
    then show ?thesis using gaps ext by (auto simp: record_block_range_def Let_def r)
  next
    case ne: False
    then have "u \<noteq> b" using e uu by (metis unsigned_word_eqI)
    then have res: "reserved G b" and ub: "u = b div 32768 * 32768 + (1 + G)"
      using u(1) by (auto simp: first_usable_def split: if_splits)
    then have "b < u" using div_mult_mod_eq [of b 32768] unfolding reserved_def by linarith
    then have "br_end r < of_nat u" using e uu by (simp add: word_less_nat_alt)
    then have "successively (gap G) (rs @ [r] @ [\<lparr>br_start = of_nat u, br_end = of_nat u + 1\<rparr>])"
      using gaps res e by (auto simp: r successively_append_iff gap_def)
    then show ?thesis using gaps ne by (auto simp: record_block_range_def Let_def r)
  qed
qed

text \<open>
  \<open>payload_inv\<close>: \<open>written\<close> lies in the recorded blocks in order, the position is behind it, the
  blocks are ascending, not reserved and not below \<open>p0\<close>, and nothing below \<open>p0\<close> was touched.
\<close>

definition payload_inv :: "nat \<Rightarrow> nat \<Rightarrow> (nat \<Rightarrow> u8) \<Rightarrow> Formatter \<Rightarrow> BlockRange list \<Rightarrow> bytes \<Rightarrow> bool" where
  "payload_inv G p0 d0 f ranges written \<longleftrightarrow>
     f_block_size f = 4096 \<and> unat (group_descriptor_blocks f) = G \<and> ranges_ok ranges \<and>
     successively (gap G) ranges \<and>
     (let bl = ranges_blocks ranges in
        sorted_wrt (<) bl \<and> (\<forall>b \<in> set bl. \<not> reserved G b \<and> b < 2 ^ 32 - 1 \<and> p0 \<le> 4096 * b) \<and>
        (if written = [] then bl = [] \<and> p0 \<le> fl_pos (f_file f) \<and> fl_pos (f_file f) mod 4096 = 0
         else bl \<noteq> [] \<and> 4096 * (length bl - 1) < length written \<and> length written \<le> 4096 * length bl \<and>
              fl_pos (f_file f) = 4096 * last bl + (length written - 4096 * (length bl - 1))) \<and>
        (\<forall>i < length written. fl_data (f_file f) (4096 * bl ! (i div 4096) + i mod 4096) = written ! i)) \<and>
     (\<forall>i < p0. fl_data (f_file f) i = d0 i)"

subsection \<open>Room\<close>

text \<open>
  \<open>budget p n\<close> bounds the block that the writer reaches when it stores \<open>n\<close> bytes from position \<open>p\<close>:
  a block is charged twice, which pays for the reserved blocks that are skipped.
\<close>

definition slack :: "nat \<Rightarrow> nat" where
  "slack o' = (if o' \<le> 1025 then 1025 - o' else min 1025 (o' - 1025))"

definition budget :: "nat \<Rightarrow> nat \<Rightarrow> nat" where
  "budget p n =
     (let q = (p + 4095) div 4096; n' = n - (4096 * q - p)
      in q + 2 * ((n' + 4095) div 4096) + slack (q mod 32768))"

lemma slack_step: "slack ((b + 1) mod 32768) \<le> slack (b mod 32768) + 1"
proof -
  have "(b + 1) mod 32768 = (if b mod 32768 = 32767 then 0 else b mod 32768 + 1)"
    using mod_Suc [of b 32768] by simp
  moreover have "slack 0 \<le> slack 32767 + 1" "slack (r + 1) \<le> slack r + 1" for r
    by (auto simp: slack_def min_def)
  ultimately show ?thesis by simp
qed

lemma slack_usable:
  assumes "G \<le> 1024"
  shows "first_usable G b + slack ((first_usable G b + 1) mod 32768) \<le> b + slack (b mod 32768) + 1"
proof (cases "reserved G b")
  case False
  then show ?thesis using slack_step [of b] by (simp add: first_usable_def)
next
  case True
  define q r where "q = b div 32768" and "r = b mod 32768"
  have b: "b = q * 32768 + r" by (simp add: q_def r_def)
  have r: "r < 1 + G" using True by (simp add: reserved_def r_def)
  have u: "first_usable G b = q * 32768 + 1 + G" using True by (simp add: first_usable_def q_def)
  have "first_usable G b + 1 = (2 + G) + q * 32768" by (simp add: u)
  then have "(first_usable G b + 1) mod 32768 = 2 + G" using assms by (simp only: mod_mult_self1) simp
  moreover have "slack r = 1025 - r" "slack (2 + G) \<le> 1025 - G" using r assms by (auto simp: slack_def)
  moreover have "first_usable G b + (1025 - G) \<le> b + (1025 - r) + 1" using u b r assms by linarith
  ultimately show ?thesis unfolding r_def by simp
qed

lemma budget_new_block:
  assumes "G \<le> 1024" "0 < w" "w \<le> 4096" "w \<le> n"
  shows "budget (4096 * first_usable G b + w) (n - w) \<le> budget (4096 * b) n"
    "first_usable G b + 1 \<le> budget (4096 * b) n"
proof -
  define u where "u = first_usable G b"
  have q: "(4096 * u + w + 4095) div 4096 = u + 1" using assms(2, 3) by (simp add: div_nat_eqI)
  have n': "n - w - (4096 * (u + 1) - (4096 * u + w)) = n - 4096" using assms by simp
  have "budget (4096 * u + w) (n - w) = u + 1 + 2 * ((n - 4096 + 4095) div 4096) + slack ((u + 1) mod 32768)"
    using q n' by (simp add: budget_def Let_def)
  moreover have "budget (4096 * b) n = b + 2 * ((n + 4095) div 4096) + slack (b mod 32768)"
    by (simp add: budget_def Let_def)
  moreover have "(n + 4095) div 4096 \<ge> 1" using assms(2, 4) by (simp add: div_greater_zero_iff Suc_le_eq)
  moreover have "(n - 4096 + 4095) div 4096 + 1 \<le> (n + 4095) div 4096"
    using assms(2, 4) by (cases "4096 \<le> n") (auto simp: div_le_mono Suc_le_eq div_greater_zero_iff le_div_geq)
  ultimately show "budget (4096 * first_usable G b + w) (n - w) \<le> budget (4096 * b) n"
    "first_usable G b + 1 \<le> budget (4096 * b) n"
    using slack_usable [OF assms(1), of b] unfolding u_def [symmetric] by linarith+
qed

lemma budget_same_block:
  assumes "0 < r" "r < 4096" "w \<le> 4096 - r" "w \<le> n"
  shows "budget (4096 * b + r + w) (n - w) = budget (4096 * b + r) n" "b + 1 \<le> budget (4096 * b + r) n"
proof -
  have q: "(4096 * b + r + w + 4095) div 4096 = b + 1" "(4096 * b + r + 4095) div 4096 = b + 1"
    using assms by (simp_all add: div_nat_eqI)
  have n': "n - w - (4096 * (b + 1) - (4096 * b + r + w)) = n - (4096 * (b + 1) - (4096 * b + r))"
    using assms by simp
  show "budget (4096 * b + r + w) (n - w) = budget (4096 * b + r) n" "b + 1 \<le> budget (4096 * b + r) n"
    using q n' by (simp_all add: budget_def Let_def)
qed

subsection \<open>One block\<close>

definition area_stable :: "Formatter \<Rightarrow> nat \<Rightarrow> bool" where
  "area_stable f lim \<longleftrightarrow>
     (\<forall>s. f_size f \<le> s \<and> unat s \<le> lim \<longrightarrow>
        group_descriptor_blocks (f\<lparr>f_size := s\<rparr>) = group_descriptor_blocks f)"

lemma group_descriptor_blocks_cong:
  assumes "f_block_size f = f_block_size g" "f_size f = f_size g"
  shows "group_descriptor_blocks f = group_descriptor_blocks g"
  using assms by (simp add: group_descriptor_blocks_def group_descriptor_area_blocks_for_groups_def
      descriptor_blocks_for_groups_def reserved_gdt_blocks_for_descriptor_blocks_def group_count_def
      block_count_def blocks_per_group_def groups_per_descriptor_block_def)

lemma write_and_grow_fields:
  "f_block_size (write_and_grow bs f) = f_block_size f" "f_inodes (write_and_grow bs f) = f_inodes f"
  "f_tree (write_and_grow bs f) = f_tree f" "f_deleted_blocks (write_and_grow bs f) = f_deleted_blocks f"
  "f_deferred_blocks (write_and_grow bs f) = f_deferred_blocks f"
  "f_uuid (write_and_grow bs f) = f_uuid f" "f_label (write_and_grow bs f) = f_label f"
  "f_file (write_and_grow bs f) = write_all bs (f_file f)"
  "f_size (write_and_grow bs f) = max (f_size f) (of_nat (fl_pos (f_file f) + length bs))"
  by (simp_all add: write_and_grow_def pos_def)

lemma area_stable_grow:
  assumes "area_stable f lim" "fl_pos (f_file f) + length bs \<le> lim" "lim < 2 ^ 64"
  shows "group_descriptor_blocks (write_and_grow bs f) = group_descriptor_blocks f"
    "area_stable (write_and_grow bs f) lim"
proof -
  define s where "s = f_size (write_and_grow bs f)"
  have s: "f_size f \<le> s" by (simp add: s_def write_and_grow_fields)
  have "unat (of_nat (fl_pos (f_file f) + length bs) :: u64) \<le> lim"
    using assms(2, 3) by (subst unat_of_nat_small) auto
  then have "s = f_size f \<or> unat s \<le> lim" by (auto simp: s_def write_and_grow_fields max_def)
  then have g: "group_descriptor_blocks (f\<lparr>f_size := s\<rparr>) = group_descriptor_blocks f"
    using assms(1) s by (auto simp: area_stable_def)
  have c: "group_descriptor_blocks (write_and_grow bs f\<lparr>f_size := t\<rparr>) = group_descriptor_blocks (f\<lparr>f_size := t\<rparr>)"
    for t by (rule group_descriptor_blocks_cong) (simp_all add: write_and_grow_fields)
  show e: "group_descriptor_blocks (write_and_grow bs f) = group_descriptor_blocks f"
    using g group_descriptor_blocks_cong [of "write_and_grow bs f" "f\<lparr>f_size := s\<rparr>"]
    by (simp add: s_def write_and_grow_fields)
  show "area_stable (write_and_grow bs f) lim"
    using assms(1) s unfolding area_stable_def c e s_def [symmetric] by (meson order_trans)
qed

lemma area_stable_file [simp]: "area_stable (f\<lparr>f_file := x\<rparr>) lim = area_stable f lim"
  by (simp add: area_stable_def group_descriptor_blocks_cong [of "f\<lparr>f_file := x, f_size := s\<rparr>" "f\<lparr>f_size := s\<rparr>" for s])

lemma payload_invD:
  assumes "payload_inv G p0 d0 f ranges written"
  shows "f_block_size f = 4096" "unat (group_descriptor_blocks f) = G" "ranges_ok ranges"
    "sorted_wrt (<) (ranges_blocks ranges)"
    "\<And>b. b \<in> set (ranges_blocks ranges) \<Longrightarrow> \<not> reserved G b \<and> b < 2 ^ 32 - 1 \<and> p0 \<le> 4096 * b"
    "written = [] \<Longrightarrow> ranges_blocks ranges = [] \<and> p0 \<le> fl_pos (f_file f) \<and> fl_pos (f_file f) mod 4096 = 0"
    "written \<noteq> [] \<Longrightarrow> ranges_blocks ranges \<noteq> [] \<and> 4096 * (length (ranges_blocks ranges) - 1) < length written \<and>
       length written \<le> 4096 * length (ranges_blocks ranges) \<and>
       fl_pos (f_file f) = 4096 * last (ranges_blocks ranges)
         + (length written - 4096 * (length (ranges_blocks ranges) - 1))"
    "\<And>i. i < length written \<Longrightarrow>
       fl_data (f_file f) (4096 * ranges_blocks ranges ! (i div 4096) + i mod 4096) = written ! i"
    "\<And>i. i < p0 \<Longrightarrow> fl_data (f_file f) i = d0 i"
    "successively (gap G) ranges"
  using assms unfolding payload_inv_def Let_def by (auto split: if_splits)

lemma ranges_empty: "ranges_ok ranges \<Longrightarrow> ranges_blocks ranges = [] \<longleftrightarrow> ranges = []"
  using ranges_blocks_last(1) by (auto simp: ranges_blocks_def)

text \<open>The position inside the current block, when it is not full.\<close>

lemma payload_open_block:
  assumes inv: "payload_inv G p0 d0 f ranges written" and m: "length written mod 4096 \<noteq> 0"
  defines "bl \<equiv> ranges_blocks ranges"
  shows "bl \<noteq> []" "fl_pos (f_file f) = 4096 * last bl + length written mod 4096"
    "length written = 4096 * (length bl - 1) + length written mod 4096" "last bl < 2 ^ 32 - 1" "p0 \<le> 4096 * last bl"
proof -
  have ne: "written \<noteq> []" using m by auto
  note P = payload_invD(7) [OF inv ne, folded bl_def]
  define k where "k = length bl - 1"
  have k: "4096 * k < length written" "length written \<le> 4096 * (k + 1)"
    using P by (auto simp: k_def)
  have "length written \<noteq> 4096 * (k + 1)" using m by auto
  with k have lt: "length written - 4096 * k < 4096" by simp
  then have "(4096 * k + (length written - 4096 * k)) mod 4096 = length written - 4096 * k"
    by (simp only: mod_mult_self4) simp
  then have md: "length written mod 4096 = length written - 4096 * k" using k(1) by simp
  show "bl \<noteq> []" using P by simp
  show "fl_pos (f_file f) = 4096 * last bl + length written mod 4096" using P md by (simp add: k_def)
  show "length written = 4096 * (length bl - 1) + length written mod 4096" using md k(1) by (simp add: k_def)
  show "last bl < 2 ^ 32 - 1" "p0 \<le> 4096 * last bl"
    using payload_invD(5) [OF inv, of "last bl"] P by (auto simp: bl_def)
qed

lemma payload_same_block:
  assumes inv: "payload_inv G p0 d0 f ranges written" and m: "length written mod 4096 \<noteq> 0"
    and cs: "length written mod 4096 + length cs \<le> 4096"
    and G': "unat (group_descriptor_blocks (write_and_grow cs f)) = G"
  shows "payload_inv G p0 d0 (write_and_grow cs f) ranges (written @ cs)"
proof -
  define bl where "bl = ranges_blocks ranges"
  note P = payload_invD [OF inv, folded bl_def] and O = payload_open_block [OF inv m, folded bl_def]
  define r where "r = length written mod 4096"
  have r: "r < 4096" "length written = 4096 * (length bl - 1) + r" "0 < r" "r + length cs \<le> 4096"
    "fl_pos (f_file f) = 4096 * last bl + r"
    using O(2, 3) m cs by (simp_all add: r_def)
  have below: "4096 * c + d < fl_pos (f_file f)"
    if "c \<in> set (butlast bl)" "d < 4096" for c d
  proof -
    have "bl = butlast bl @ [last bl]" using O(1) by simp
    then have "c < last bl" using P(4) that(1) by (metis in_set_conv_decomp sorted_wrt_append list.set_intros(1))
    then show ?thesis using that(2) O(2) by simp
  qed
  have data: "fl_data (f_file (write_and_grow cs f)) (4096 * bl ! (i div 4096) + i mod 4096) = (written @ cs) ! i"
    if i: "i < length (written @ cs)" for i
  proof (cases "i < length written")
    case True
    have "4096 * bl ! (i div 4096) + i mod 4096 < fl_pos (f_file f)"
    proof (cases "i div 4096 < length bl - 1")
      case True
      then have "bl ! (i div 4096) \<in> set (butlast bl)"
        by (metis length_butlast nth_butlast nth_mem)
      then show ?thesis by (rule below) simp
    next
      case False
      have "i div 4096 = length bl - 1" "i mod 4096 < r"
        using False True r div_mult_mod_eq [of i 4096] mod_less_divisor [of 4096 i] by linarith+
      then show ?thesis using O(1) r(5) by (simp add: last_conv_nth)
    qed
    then have "fl_data (f_file (write_and_grow cs f)) (4096 * bl ! (i div 4096) + i mod 4096)
        = fl_data (f_file f) (4096 * bl ! (i div 4096) + i mod 4096)"
      unfolding write_and_grow_fields(8) by (intro fl_data_write_all_out disjI1)
    also have "\<dots> = written ! i" by (rule P(8) [OF True])
    finally show ?thesis using True by (simp only: nth_append if_True)
  next
    case False
    define k where "k = i - length written"
    have k: "i = 4096 * (length bl - 1) + (r + k)" "k < length cs" "r + k < 4096"
      using False i r(2, 4) by (simp_all add: k_def)
    then have "i div 4096 = length bl - 1" "i mod 4096 = r + k" by simp_all
    then have "4096 * bl ! (i div 4096) + i mod 4096 = fl_pos (f_file f) + k"
      using O(1) r(5) by (simp add: last_conv_nth)
    then show ?thesis using False k(2) by (simp add: write_and_grow_fields fl_data_write_all_in nth_append k_def)
  qed
  have pos: "fl_pos (f_file (write_and_grow cs f))
      = 4096 * last bl + (length (written @ cs) - 4096 * (length bl - 1))"
    using r(2, 5) by (simp add: write_and_grow_fields)
  have len: "4096 * (length bl - 1) < length (written @ cs)" "length (written @ cs) \<le> 4096 * length bl"
    using r(2, 3, 4) O(1) by (cases bl; simp)+
  have low: "fl_data (f_file (write_and_grow cs f)) i = d0 i" if "i < p0" for i
    using that P(9) [OF that] r(5) O(5) by (simp add: write_and_grow_fields fl_data_write_all_out)
  show ?thesis
    unfolding payload_inv_def Let_def bl_def [symmetric]
    using P(1, 3, 4, 5, 10) G' O(1) pos len data low m by (cases "written = []") (simp_all add: write_and_grow_fields)
qed

lemma payload_full_blocks:
  assumes inv: "payload_inv G p0 d0 f ranges written" and m: "length written mod 4096 = 0"
  defines "bl \<equiv> ranges_blocks ranges"
  shows "length written = 4096 * length bl"
    "\<exists>b. fl_pos (f_file f) = 4096 * b \<and> p0 \<le> 4096 * b \<and> (\<forall>c \<in> set bl. c < b) \<and>
       (ranges \<noteq> [] \<longrightarrow> unat (br_end (last ranges)) = b)"
proof -
  note P = payload_invD [OF inv, folded bl_def]
  show "length written = 4096 * length bl"
  proof (cases "written = []")
    case True
    then show ?thesis using P(6) by simp
  next
    case False
    from m obtain k where k: "length written = 4096 * k" by (auto elim: dvdE)
    with P(7) [OF False] have "length bl - 1 < k" "k \<le> length bl" by auto
    then have "k = length bl" by linarith
    with k show ?thesis by simp
  qed
  show "\<exists>b. fl_pos (f_file f) = 4096 * b \<and> p0 \<le> 4096 * b \<and> (\<forall>c \<in> set bl. c < b) \<and>
       (ranges \<noteq> [] \<longrightarrow> unat (br_end (last ranges)) = b)"
  proof (cases "written = []")
    case True
    then have "ranges = []" using P(3, 6) ranges_empty by (simp add: bl_def)
    then show ?thesis using P(6) True by (auto elim: dvdE)
  next
    case False
    then have bl: "bl \<noteq> []" "fl_pos (f_file f) = 4096 * (last bl + 1)"
      using P(7) \<open>length written = 4096 * length bl\<close> by (cases bl; simp)+
    have "c \<le> last bl" if "c \<in> set bl" for c
      using that P(4) bl(1)
      by (metis append_butlast_last_id in_set_conv_decomp less_imp_le list.set_intros(1) order_refl
          rotate1.simps(2) set_ConsD set_rotate1 sorted_wrt_append)
    moreover have "p0 \<le> 4096 * last bl" using P(5) [of "last bl"] bl(1) by simp
    moreover have "ranges \<noteq> []" using bl(1) by (auto simp: bl_def ranges_blocks_def)
    note L = ranges_blocks_last(2, 4) [OF P(3) this, folded bl_def]
    have "unat (br_end (last ranges)) = last bl + 1" using L by linarith
    ultimately show ?thesis using bl(2) by (intro exI [of _ "last bl + 1"]) (auto simp: less_Suc_eq_le)
  qed
qed

lemma payload_new_block:
  assumes inv: "payload_inv G p0 d0 f ranges written" and m: "length written mod 4096 = 0"
    and cs: "cs \<noteq> []" "length cs \<le> 4096"
    and u: "\<not> reserved G u" "u < 2 ^ 32 - 1" "p0 \<le> 4096 * u" "\<forall>c \<in> set (ranges_blocks ranges). c < u"
      "u = first_usable G b" "ranges \<noteq> [] \<Longrightarrow> unat (br_end (last ranges)) = b"
    and f1: "f1 = f\<lparr>f_file := seek_start (4096 * u) (f_file f)\<rparr>"
    and G': "unat (group_descriptor_blocks (write_and_grow cs f1)) = G"
  shows "payload_inv G p0 d0 (write_and_grow cs f1) (record_block_range ranges (of_nat u)) (written @ cs)"
proof -
  define bl where "bl = ranges_blocks ranges"
  note P = payload_invD [OF inv, folded bl_def] and F = payload_full_blocks(1) [OF inv m, folded bl_def]
  note R = record_new_block [OF P(3) u(4) u(2), folded bl_def]
  have pos: "fl_pos (f_file f1) = 4096 * u" by (simp add: f1)
  have data: "fl_data (f_file (write_and_grow cs f1)) (4096 * (bl @ [u]) ! (i div 4096) + i mod 4096)
      = (written @ cs) ! i" if i: "i < length (written @ cs)" for i
  proof (cases "i < length written")
    case True
    then have d: "i div 4096 < length bl" using F by (simp add: less_mult_imp_div_less)
    then have "bl ! (i div 4096) < u" using u(4) by (simp add: bl_def)
    then have "4096 * bl ! (i div 4096) + i mod 4096 < 4096 * u"
      using mod_less_divisor [of 4096 i] by linarith
    then have "fl_data (f_file (write_and_grow cs f1)) (4096 * bl ! (i div 4096) + i mod 4096)
        = fl_data (f_file f1) (4096 * bl ! (i div 4096) + i mod 4096)"
      unfolding write_and_grow_fields(8) pos [symmetric] by (intro fl_data_write_all_out disjI1)
    also have "\<dots> = written ! i" using P(8) [OF True] by (simp add: f1)
    finally show ?thesis using True d by (simp only: nth_append if_True)
  next
    case False
    define k where "k = i - length written"
    have k: "i = 4096 * length bl + k" "k < length cs" "k < 4096" using False i F cs(2) by (simp_all add: k_def)
    then have "i div 4096 = length bl" "i mod 4096 = k" by simp_all
    then show ?thesis
      using False k(2) pos by (simp add: write_and_grow_fields fl_data_write_all_in nth_append k_def [symmetric])
  qed
  have low: "fl_data (f_file (write_and_grow cs f1)) i = d0 i" if "i < p0" for i
    using that P(9) [OF that] pos u(3) by (simp add: write_and_grow_fields fl_data_write_all_out) (simp add: f1)
  have sorted: "sorted_wrt (<) (bl @ [u])" using P(4) u(4) by (simp add: sorted_wrt_append bl_def)
  show ?thesis
    unfolding payload_inv_def Let_def R(2)
    using P(1, 5) G' R(1) sorted data low u(1, 2, 3) cs F pos record_gap [OF P(10) u(5, 2, 6)]
    by (auto simp: write_and_grow_fields f1)
qed

subsection \<open>The whole payload\<close>

definition payload_only :: "Formatter \<Rightarrow> Formatter \<Rightarrow> bool" where
  "payload_only f f' \<longleftrightarrow> f' = f\<lparr>f_file := f_file f', f_size := f_size f'\<rparr> \<and> f_size f \<le> f_size f' \<and>
     fl_len (f_file f) \<le> fl_len (f_file f')"

lemma payload_only_refl [simp]: "payload_only f f"
  by (simp add: payload_only_def)

lemma payload_only_trans: "payload_only f g \<Longrightarrow> payload_only g h \<Longrightarrow> payload_only f h"
  unfolding payload_only_def by (cases f; cases g; cases h) auto

lemma payload_only_grow: "fl_len (f_file f) \<le> fl_len x \<Longrightarrow> payload_only f (write_and_grow bs (f\<lparr>f_file := x\<rparr>))"
  unfolding payload_only_def by (cases f) (auto simp: write_and_grow_def Let_def write_all_def)

lemma payload_only_seek [simp]: "fl_len (f_file f) \<le> fl_len x \<Longrightarrow> payload_only f (f\<lparr>f_file := x\<rparr>)"
  unfolding payload_only_def by (cases f) simp

definition payload_room :: "Formatter \<Rightarrow> nat \<Rightarrow> nat \<Rightarrow> bool" where
  "payload_room f n lim \<longleftrightarrow>
     area_stable f lim \<and> budget (fl_pos (f_file f)) n < 2 ^ 32 \<and>
     4096 * budget (fl_pos (f_file f)) n \<le> lim \<and> lim < 2 ^ 64"

lemma payload_step:
  assumes inv: "payload_inv G p0 d0 f ranges written" and room: "payload_room f (length bytes + m) lim"
    and ne: "bytes \<noteq> []"
  shows "\<exists>w f1 ranges1. 0 < w \<and> w \<le> length bytes \<and>
     write_payload_bytes f bytes ranges = write_payload_bytes f1 (drop w bytes) ranges1 \<and>
     payload_inv G p0 d0 f1 ranges1 (written @ take w bytes) \<and>
     payload_room f1 (length bytes - w + m) lim \<and> payload_only f f1"
proof (cases "length written mod 4096 = 0")
  case False
  have le: "4096 * budget (fl_pos (f_file f)) (length bytes + m) \<le> lim" using room by (simp add: payload_room_def)
  define b r where "b = last (ranges_blocks ranges)" and "r = length written mod 4096"
  note P = payload_invD [OF inv] and O = payload_open_block [OF inv False]
  have p: "fl_pos (f_file f) = 4096 * b + r" "0 < r" "r < 4096" "b < 2 ^ 32"
    using O(2, 4) False by (simp_all add: b_def r_def)
  define w where "w = min (4096 - r) (length bytes)"
  have w: "0 < w" "w \<le> length bytes" "w \<le> 4096 - r" using p(3) ne by (simp_all add: w_def)
  define f1 where "f1 = write_and_grow (take w bytes) f"
  have wn: "w \<le> length bytes + m" using w(2) by simp
  note B = budget_same_block [OF p(2, 3) w(3) wn, of b]
  note Q = pos_block [OF P(1) p(1, 3, 4)]
  have len: "fl_pos (f_file f) + length (take w bytes) \<le> lim"
    using le B(2) w p(3) unfolding p(1) length_take by linarith
  note A = area_stable_grow [OF _ len, folded f1_def]
  have rec: "record_block_range ranges (current_block f) = ranges"
    unfolding Q(1) using record_same_block [OF P(3)] O(1) P(3) p(4) by (simp add: b_def ranges_empty)
  have "write_payload_bytes f bytes ranges = write_payload_bytes f1 (drop w bytes) ranges"
    using ne P(1) Q(3, 4) p(2) w(1) rec
    by (subst write_payload_bytes.simps)
      (simp add: skip_reserved_metadata_blocks_def Let_def f1_def w_def [symmetric])
  moreover have "payload_inv G p0 d0 f1 ranges (written @ take w bytes)"
    unfolding f1_def
    using payload_same_block [OF inv False, of "take w bytes"] w p(3) A(1) room P(2)
    by (simp add: r_def f1_def payload_room_def)
  moreover have "payload_room f1 (length bytes - w + m) lim"
    using room B w A(2) p(1)
    by (simp add: payload_room_def f1_def write_and_grow_fields)
  moreover have "payload_only f f1"
    using payload_only_grow [of f "f_file f" "take w bytes"] by (simp add: f1_def)
  ultimately show ?thesis using w(1, 2) by blast
next
  case True
  have le: "4096 * budget (fl_pos (f_file f)) (length bytes + m) \<le> lim" using room by (simp add: payload_room_def)
  note P = payload_invD [OF inv]
  from payload_full_blocks(2) [OF inv True] obtain b where
    b: "fl_pos (f_file f) = 4096 * b" "p0 \<le> 4096 * b" "\<forall>c \<in> set (ranges_blocks ranges). c < b"
      "ranges \<noteq> [] \<longrightarrow> unat (br_end (last ranges)) = b" by blast
  have G: "G \<le> 1024" using descriptor_area_bounds(2) [OF P(1)] P(2) by simp
  define u where "u = first_usable G b"
  note U = first_usable_bounds [OF G, of b, folded u_def]
  define w where "w = min 4096 (length bytes)"
  have w: "0 < w" "w \<le> length bytes" "w \<le> 4096" using ne by (simp_all add: w_def)
  have wn: "w \<le> length bytes + m" using w(2) by simp
  note B = budget_new_block [OF G w(1, 3) wn, of b, folded u_def]
  have u: "u < 2 ^ 32 - 1" "b < 2 ^ 32" using room B(2) w(2) b(1) U(1) by (simp_all add: payload_room_def)
  define f0 where "f0 = f\<lparr>f_file := seek_start (4096 * u) (f_file f)\<rparr>"
  define f1 where "f1 = write_and_grow (take w bytes) f0"
  have p0: "fl_pos (f_file f0) = 4096 * u + 0" "f_block_size f0 = 4096" using P(1) by (simp_all add: f0_def)
  have skip: "skip_reserved_metadata_blocks f = Some f0"
    using skip_loop_ok [OF P(1) b(1) u(2), of G] pos_block(4) [OF P(1), of b 0] b(1) u(2) P(2)
    by (simp add: skip_reserved_metadata_blocks_def f0_def u_def)
  note Q = pos_block [OF p0(2, 1)]
  have len: "fl_pos (f_file f0) + length (take w bytes) \<le> lim"
    using le B(2) w unfolding b(1) p0(1) length_take by linarith
  have st: "area_stable f0 lim" "lim < 2 ^ 64" using room by (simp_all add: payload_room_def f0_def)
  note A = area_stable_grow [OF st(1) len st(2), folded f1_def]
  have "write_payload_bytes f bytes ranges = write_payload_bytes f1 (drop w bytes) (record_block_range ranges (of_nat u))"
    using ne P(1) Q(1, 3) u(1) w(1) p0(2) skip
    by (subst write_payload_bytes.simps) (simp add: Let_def f1_def w_def [symmetric])
  moreover have "payload_inv G p0 d0 f1 (record_block_range ranges (of_nat u)) (written @ take w bytes)"
    unfolding f1_def
  proof (rule payload_new_block [OF inv True _ _ U(2) u(1) _ _ u_def _ f0_def])
    show "ranges \<noteq> [] \<Longrightarrow> unat (br_end (last ranges)) = b" using b(4) by blast
    show "take w bytes \<noteq> []" "length (take w bytes) \<le> 4096" using w ne by simp_all
    show "p0 \<le> 4096 * u" "\<forall>c \<in> set (ranges_blocks ranges). c < u" using b U(1) by fastforce+
    show "unat (group_descriptor_blocks (write_and_grow (take w bytes) f0)) = G"
      using A(1) P(2) by (simp add: f1_def f0_def)
  qed
  moreover have "payload_room f1 (length bytes - w + m) lim"
    using room B w A(2) b(1) p0(1)
    by (simp add: payload_room_def f1_def write_and_grow_fields)
  moreover have "payload_only f f1" by (simp add: f1_def f0_def payload_only_grow)
  ultimately show ?thesis using w(1, 2) by blast
qed

lemma write_payload_ok:
  assumes "payload_inv G p0 d0 f ranges written" and "payload_room f (length bytes + m) lim"
  shows "\<exists>f' ranges'. write_payload_bytes f bytes ranges = Some (f', ranges') \<and>
     payload_inv G p0 d0 f' ranges' (written @ bytes) \<and> payload_room f' m lim \<and> payload_only f f'"
  using assms
proof (induction "length bytes" arbitrary: f ranges written bytes rule: less_induct)
  case less
  show ?case
  proof (cases "bytes = []")
    case True
    then have "write_payload_bytes f bytes ranges = Some (f, ranges)" by (subst write_payload_bytes.simps) simp
    then show ?thesis using less.prems True by auto
  next
    case False
    from payload_step [OF less.prems False] obtain w f1 ranges1 where
      w: "0 < w" "w \<le> length bytes" and
      e: "write_payload_bytes f bytes ranges = write_payload_bytes f1 (drop w bytes) ranges1" and
      i: "payload_inv G p0 d0 f1 ranges1 (written @ take w bytes)" and
      r: "payload_room f1 (length bytes - w + m) lim" and o: "payload_only f f1" by blast
    have "length (drop w bytes) < length bytes" "payload_room f1 (length (drop w bytes) + m) lim"
      using w r by simp_all
    from less.hyps [OF this(1) i this(2)] obtain f' ranges' where
      *: "write_payload_bytes f1 (drop w bytes) ranges1 = Some (f', ranges')"
      "payload_inv G p0 d0 f' ranges' ((written @ take w bytes) @ drop w bytes)"
      "payload_room f' m lim" "payload_only f1 f'" by blast
    have "payload_inv G p0 d0 f' ranges' (written @ bytes)" using *(2) by simp
    then show ?thesis using *(1, 3) e payload_only_trans [OF o *(4)] by auto
  qed
qed

definition reader_data :: "bytes list \<Rightarrow> bytes" where
  "reader_data reader = concat (takeWhile (\<lambda>buf. buf \<noteq> []) reader)"

lemma reader_data_simps [simp]:
  "reader_data [] = []" "reader_data ([] # reader) = []" "buf \<noteq> [] \<Longrightarrow> reader_data (buf # reader) = buf @ reader_data reader"
  by (simp_all add: reader_data_def)

lemma write_payload_chunks_ok:
  assumes "payload_inv G p0 d0 f ranges written" and "payload_room f (length (reader_data reader) + m) lim"
    and "unat sz + length (reader_data reader) \<le> unat MAX_FILE_SIZE"
  shows "\<exists>f' ranges'. write_payload_chunks f reader sz ranges
       = Some (Ok (sz + of_nat (length (reader_data reader))), f', ranges') \<and>
     payload_inv G p0 d0 f' ranges' (written @ reader_data reader) \<and> payload_room f' m lim \<and> payload_only f f'"
  using assms
proof (induction f reader sz ranges arbitrary: written rule: write_payload_chunks.induct)
  case (1 f sz ranges)
  then show ?case by simp
next
  case (2 f buf reader sz ranges)
  show ?case
  proof (cases "buf = []")
    case True
    then show ?thesis using "2.prems" by simp
  next
    case False
    define sz' where "sz' = sz + of_nat (length buf)"
    have "length buf < 2 ^ 64" "unat sz + length buf < 2 ^ 64"
      using "2.prems"(3) False by (simp_all add: MAX_FILE_SIZE_def)
    then have sz': "unat sz' = unat sz + length buf" by (simp add: sz'_def unat_add_small unat_of_nat_small)
    then have small: "\<not> sz' > MAX_FILE_SIZE" using "2.prems"(3) False by (simp add: word_less_nat_alt)
    have "payload_room f (length buf + (length (reader_data reader) + m)) lim"
      using "2.prems"(2) False by (simp add: add.assoc)
    from write_payload_ok [OF "2.prems"(1) this] obtain f1 r1 where
      1: "write_payload_bytes f buf ranges = Some (f1, r1)" "payload_inv G p0 d0 f1 r1 (written @ buf)"
      "payload_room f1 (length (reader_data reader) + m) lim" "payload_only f f1" by blast
    have "unat sz' + length (reader_data reader) \<le> unat MAX_FILE_SIZE"
      using "2.prems"(3) False sz' by simp
    from "2.IH" [OF False sz'_def small 1(1) refl 1(2, 3) this] obtain f' r' where
      "write_payload_chunks f1 reader sz' r1 = Some (Ok (sz' + of_nat (length (reader_data reader))), f', r')"
      "payload_inv G p0 d0 f' r' ((written @ buf) @ reader_data reader)" "payload_room f' m lim" "payload_only f1 f'"
      by blast
    then show ?thesis
      using False small 1(1) payload_only_trans [OF 1(4)]
      by (simp add: Let_def sz'_def [symmetric] add.assoc)
  qed
qed

text \<open>A payload over \<open>MAX_FILE_SIZE\<close> is refused.\<close>

lemma write_payload_chunks_too_big:
  assumes "payload_inv G p0 d0 f ranges written" and "payload_room f (length (reader_data reader) + m) lim"
    and "unat sz + length (reader_data reader) > unat MAX_FILE_SIZE" "list_all (\<lambda>buf. length buf \<le> 4096) reader"
    and "unat sz \<le> unat MAX_FILE_SIZE"
  shows "\<exists>sz' f' ranges'. write_payload_chunks f reader sz ranges = Some (Err (F_FileTooBig sz'), f', ranges')"
  using assms
proof (induction f reader sz ranges arbitrary: written rule: write_payload_chunks.induct)
  case (1 f sz ranges)
  then show ?case by simp
next
  case (2 f buf reader sz ranges)
  show ?case
  proof (cases "buf = []")
    case True
    then show ?thesis using "2.prems" by simp
  next
    case False
    define sz' where "sz' = sz + of_nat (length buf)"
    have "length buf < 2 ^ 64" "unat sz + length buf < 2 ^ 64"
      using "2.prems"(4, 5) False by (simp_all add: MAX_FILE_SIZE_def)
    then have sz': "unat sz' = unat sz + length buf" by (simp add: sz'_def unat_add_small unat_of_nat_small)
    show ?thesis
    proof (cases "sz' > MAX_FILE_SIZE")
      case True
      then show ?thesis using False by (simp add: Let_def sz'_def [symmetric])
    next
      case small: False
      have "payload_room f (length buf + (length (reader_data reader) + m)) lim"
        using "2.prems"(2) False by (simp add: add.assoc)
      from write_payload_ok [OF "2.prems"(1) this] obtain f1 r1 where
        1: "write_payload_bytes f buf ranges = Some (f1, r1)" "payload_inv G p0 d0 f1 r1 (written @ buf)"
        "payload_room f1 (length (reader_data reader) + m) lim" by blast
      have "unat sz' + length (reader_data reader) > unat MAX_FILE_SIZE" "unat sz' \<le> unat MAX_FILE_SIZE"
        "list_all (\<lambda>buf. length buf \<le> 4096) reader"
        using "2.prems"(3, 4) False sz' small by (simp_all add: word_less_nat_alt)
      from "2.IH" [OF False sz'_def small 1(1) refl 1(2, 3) this(1, 3, 2)] show ?thesis
        using False small 1(1) by (simp add: Let_def sz'_def [symmetric])
    qed
  qed
qed

subsection \<open>Aligned payloads\<close>

definition payload_at :: "File \<Rightarrow> nat list \<Rightarrow> nat \<Rightarrow> bytes" where
  "payload_at file bl n = map (\<lambda>i. fl_data file (4096 * bl ! (i div 4096) + i mod 4096)) [0..<n]"

lemma payload_at_seek [simp]: "payload_at (seek_start p file) = payload_at file"
  by (simp add: payload_at_def fun_eq_iff)

lemma ceil_block: "(p + 4095) div 4096 = (if p mod 4096 = 0 then p div 4096 else p div 4096 + 1)" for p :: nat
proof -
  define q r where "q = p div 4096" and "r = p mod 4096"
  have "p = 4096 * q + r" "r < 4096" by (simp_all add: q_def r_def)
  then show ?thesis unfolding q_def [symmetric] r_def [symmetric] by (auto intro: div_nat_eqI)
qed

lemma align_to_block_pos:
  assumes "f_block_size f = 4096" "(fl_pos (f_file f) + 4095) div 4096 < 2 ^ 32"
  shows "align_to_block f = f\<lparr>f_file := seek_start (4096 * ((fl_pos (f_file f) + 4095) div 4096)) (f_file f)\<rparr>"
proof -
  define b r where "b = fl_pos (f_file f) div 4096" and "r = fl_pos (f_file f) mod 4096"
  have p: "fl_pos (f_file f) = 4096 * b + r" "r < 4096" by (simp_all add: b_def r_def)
  have c: "(fl_pos (f_file f) + 4095) div 4096 = (if r = 0 then b else b + 1)"
    by (simp add: ceil_block b_def r_def)
  then have b: "b < 2 ^ 32" using assms(2) by (simp split: if_splits)
  note Q = pos_block [OF assms(1) p b]
  show ?thesis
  proof (cases "r = 0")
    case True
    then show ?thesis using Q(4) p seek_same [of f "4096 * b"] by (simp add: align_to_block_def c)
  next
    case False
    then have "b + 1 < 2 ^ 32" using assms(2) c by simp
    from seek_to_block_pos [OF assms(1) this] show ?thesis
      using Q(1, 4) False c by (simp add: align_to_block_def add.commute)
  qed
qed

lemma skip_aligned_ok:
  assumes "f_block_size f = 4096" "fl_pos (f_file f) = 4096 * b" "b < 2 ^ 32"
  shows "skip_reserved_metadata_blocks f
    = Some (f\<lparr>f_file := seek_start (4096 * first_usable (unat (group_descriptor_blocks f)) b) (f_file f)\<rparr>)"
  using skip_loop_ok [of f b "unat (group_descriptor_blocks f)"] pos_block(4) [of f b 0] assms
  by (simp add: skip_reserved_metadata_blocks_def)

lemma align_skip_ok:
  assumes bs: "f_block_size f = 4096" and q: "q = (fl_pos (f_file f) + 4095) div 4096" "q < 2 ^ 32"
    and G: "G = unat (group_descriptor_blocks f)"
  shows "skip_reserved_metadata_blocks (align_to_block f)
    = Some (f\<lparr>f_file := seek_start (4096 * first_usable G q) (f_file f)\<rparr>)"
proof -
  define f1 where "f1 = f\<lparr>f_file := seek_start (4096 * q) (f_file f)\<rparr>"
  have a: "align_to_block f = f1" using align_to_block_pos [OF bs] q by (simp add: f1_def)
  have "skip_loop f1 = Some (f1\<lparr>f_file := seek_start (4096 * first_usable G q) (f_file f1)\<rparr>)"
    using q(2) bs G by (intro skip_loop_ok) (simp_all add: f1_def)
  moreover have "pos f1 mod ucast (f_block_size f1) = 0"
    using pos_block(4) [of f1 q 0] q(2) bs by (simp add: f1_def)
  ultimately show ?thesis by (simp add: a skip_reserved_metadata_blocks_def) (simp add: f1_def)
qed

lemma payload_inv_start:
  assumes "f_block_size f = 4096" "unat (group_descriptor_blocks f) = G" "fl_pos (f_file f) = 4096 * u"
  shows "payload_inv G (4096 * u) (fl_data (f_file f)) f [] []"
  using assms by (simp add: payload_inv_def ranges_ok_def ranges_blocks_def)

lemma payload_inv_at:
  assumes "payload_inv G p0 d0 f ranges written"
  shows "payload_at (f_file f) (ranges_blocks ranges) (length written) = written"
  using payload_invD(8) [OF assms] by (intro nth_equalityI) (simp_all add: payload_at_def)

text \<open>
  \<open>advance f f'\<close>: the formatter moved forward to an aligned position, and every byte before the old
  position is as it was.
\<close>

definition advance :: "Formatter \<Rightarrow> Formatter \<Rightarrow> bool" where
  "advance f f' \<longleftrightarrow>
     payload_only f f' \<and> group_descriptor_blocks f' = group_descriptor_blocks f \<and>
     fl_pos (f_file f) \<le> fl_pos (f_file f') \<and> fl_pos (f_file f') mod 4096 = 0 \<and>
     (\<forall>i < fl_pos (f_file f). fl_data (f_file f') i = fl_data (f_file f) i)"

lemma advance_keeps: "advance f f' \<Longrightarrow> keeps_bytes (fl_pos (f_file f)) (f_file f) (f_file f')"
  by (auto simp: advance_def keeps_bytes_def payload_only_def)

lemma advance_trans: "advance f g \<Longrightarrow> advance g h \<Longrightarrow> advance f h"
  unfolding advance_def using payload_only_trans by fastforce

text \<open>
  \<open>stored f f' ranges bytes\<close>: what storing \<open>bytes\<close> from an aligned position promises.  The recorded blocks
  are ascending, behind every byte written before, free of reserved metadata and before the new
  position; they hold \<open>bytes\<close>, and only reserved blocks separate the ranges.
\<close>

definition stored :: "Formatter \<Rightarrow> Formatter \<Rightarrow> BlockRange list \<Rightarrow> bytes \<Rightarrow> bool" where
  "stored f f' ranges bytes \<longleftrightarrow>
     (let bl = ranges_blocks ranges; G = unat (group_descriptor_blocks f) in
        ranges_ok ranges \<and> successively (gap G) ranges \<and>
        length bl = (length bytes + 4095) div 4096 \<and> sorted_wrt (<) bl \<and>
        list_all (\<lambda>b. \<not> reserved G b \<and> fl_pos (f_file f) \<le> 4096 * b
                    \<and> 4096 * b < fl_pos (f_file f') \<and> b < 2 ^ 32 - 1) bl \<and>
        payload_at (f_file f') bl (length bytes) = bytes) \<and>
     advance f f'"

lemma payload_at_cong:
  assumes "\<And>b k. b \<in> set bl \<Longrightarrow> k < 4096 \<Longrightarrow> fl_data file' (4096 * b + k) = fl_data file (4096 * b + k)"
    and "n \<le> 4096 * length bl"
  shows "payload_at file' bl n = payload_at file bl n"
proof -
  have "fl_data file' (4096 * bl ! (i div 4096) + i mod 4096) = fl_data file (4096 * bl ! (i div 4096) + i mod 4096)"
    if "i < n" for i
    using assms(2) that by (intro assms(1) nth_mem) (simp_all add: less_mult_imp_div_less mult.commute)
  then show ?thesis by (simp add: payload_at_def)
qed

text \<open>What was stored stays while the formatter moves on.\<close>

lemma stored_advance:
  assumes st: "stored f f' ranges bytes" and adv: "advance f' f''"
  shows "stored f f'' ranges bytes"
proof -
  define bl where "bl = ranges_blocks ranges"
  have bl: "length bl = (length bytes + 4095) div 4096" "\<forall>b \<in> set bl. 4096 * b < fl_pos (f_file f')"
    "fl_pos (f_file f') mod 4096 = 0"
    using st by (auto simp: stored_def advance_def Let_def bl_def list_all_iff)
  have "fl_data (f_file f'') (4096 * b + k) = fl_data (f_file f') (4096 * b + k)" if "b \<in> set bl" "k < 4096" for b k
  proof -
    obtain p where p: "fl_pos (f_file f') = 4096 * p" using bl(3) by (auto elim: dvdE)
    then have "b < p" using bl(2) that(1) by auto
    then have "4096 * b + k < fl_pos (f_file f')" using p that(2) by linarith
    then show ?thesis using adv by (simp add: advance_def)
  qed
  then have "payload_at (f_file f'') bl (length bytes) = payload_at (f_file f') bl (length bytes)"
    using bl(1) by (intro payload_at_cong) simp_all
  moreover have "fl_pos (f_file f') \<le> fl_pos (f_file f'')" using adv by (simp add: advance_def)
  moreover have "advance f f''" using st adv advance_trans by (auto simp: stored_def)
  ultimately show ?thesis
    using st by (auto simp: stored_def Let_def bl_def list_all_iff)
qed

lemma sorted_le_last:
  "sorted_wrt (<) xs \<Longrightarrow> x \<in> set xs \<Longrightarrow> x \<le> last xs" for x :: nat
  by (induction xs) (auto split: if_splits intro: less_imp_le dest: last_in_set)

lemma payload_inv_end:
  assumes inv: "payload_inv G p0 d0 f ranges written"
  shows "length (ranges_blocks ranges) = (length written + 4095) div 4096"
    "\<And>b. b \<in> set (ranges_blocks ranges) \<Longrightarrow> 4096 * b < fl_pos (f_file f)" "p0 \<le> fl_pos (f_file f)"
proof -
  define bl where "bl = ranges_blocks ranges"
  note P = payload_invD [OF inv, folded bl_def]
  have *: "length bl = (length written + 4095) div 4096 \<and> (\<forall>b \<in> set bl. 4096 * b < fl_pos (f_file f)) \<and> p0 \<le> fl_pos (f_file f)"
  proof (cases "written = []")
    case True
    then show ?thesis using P(6) by simp
  next
    case False
    note Q = P(7) [OF False]
    then obtain k where k: "length bl = Suc k" by (cases bl) auto
    have "(length written + 4095) div 4096 = Suc k" using Q k by (intro div_nat_eqI) simp_all
    moreover have "4096 * b < fl_pos (f_file f)" if "b \<in> set bl" for b
      using sorted_le_last [OF P(4) that] Q unfolding k by simp linarith
    moreover have "p0 \<le> 4096 * last bl" using P(5) [of "last bl"] Q by simp
    ultimately show ?thesis using k Q by simp
  qed
  then show "length (ranges_blocks ranges) = (length written + 4095) div 4096" "p0 \<le> fl_pos (f_file f)"
    "\<And>b. b \<in> set (ranges_blocks ranges) \<Longrightarrow> 4096 * b < fl_pos (f_file f)"
    by (simp_all add: bl_def)
qed

lemma budget_mono: "n \<le> n' \<Longrightarrow> budget p n \<le> budget p n'"
  unfolding budget_def Let_def by (intro add_mono mult_le_mono div_le_mono) simp_all

lemma budget_align: "budget (4096 * ((p + 4095) div 4096)) n \<le> budget p (n + 4096)"
proof -
  define q where "q = (p + 4095) div 4096"
  have "4096 * q \<le> p + 4095" by (simp add: q_def)
  then have "(n + 4095) div 4096 \<le> (n + 4096 - (4096 * q - p) + 4095) div 4096" by (intro div_le_mono) simp
  then show ?thesis by (simp add: budget_def Let_def q_def [symmetric])
qed

lemma budget_skip:
  assumes "G \<le> 1024"
  shows "budget (4096 * first_usable G b) n \<le> budget (4096 * b) n"
proof -
  have "first_usable G b + slack (first_usable G b mod 32768) \<le> b + slack (b mod 32768)"
  proof (cases "reserved G b")
    case True
    define q r where "q = b div 32768" and "r = b mod 32768"
    have b: "b = q * 32768 + r" "r < 1 + G" using True by (simp_all add: q_def r_def reserved_def)
    have "first_usable G b = (1 + G) + q * 32768" using True by (simp add: first_usable_def q_def)
    moreover have "((1 + G) + q * 32768) mod 32768 = 1 + G" using assms by (simp only: mod_mult_self1) simp
    moreover have "slack (1 + G) = 1024 - G" "slack r = 1025 - r" using b(2) assms by (simp_all add: slack_def)
    ultimately show ?thesis using b assms unfolding r_def [symmetric] by simp
  qed (simp add: first_usable_def)
  then show ?thesis by (simp add: budget_def Let_def)
qed

lemma payload_room_block: "payload_room f n lim \<Longrightarrow> (fl_pos (f_file f) + 4095) div 4096 < 2 ^ 32"
  by (simp add: payload_room_def budget_def Let_def)

lemma payload_room_mono: "payload_room f n lim \<Longrightarrow> k \<le> n \<Longrightarrow> payload_room f k lim"
  using budget_mono [of k n "fl_pos (f_file f)"] by (auto simp: payload_room_def)

lemma payload_room_seek:
  assumes "payload_room f n lim" "budget p' n' \<le> budget (fl_pos (f_file f)) n"
  shows "payload_room (f\<lparr>f_file := seek_start p' (f_file f)\<rparr>) n' lim"
  using assms by (auto simp: payload_room_def)

lemma aligned_start:
  assumes bs: "f_block_size f = 4096" and room: "payload_room f (n + 8192 + m) lim"
  shows "\<exists>u. skip_reserved_metadata_blocks (align_to_block f)
      = Some (f\<lparr>f_file := seek_start (4096 * u) (f_file f)\<rparr>) \<and>
    payload_inv (unat (group_descriptor_blocks f)) (4096 * u) (fl_data (f_file f))
      (f\<lparr>f_file := seek_start (4096 * u) (f_file f)\<rparr>) [] [] \<and>
    payload_room (f\<lparr>f_file := seek_start (4096 * u) (f_file f)\<rparr>) (n + (4096 + m)) lim \<and>
    fl_pos (f_file f) \<le> 4096 * u"
proof -
  define G q u where "G = unat (group_descriptor_blocks f)" and "q = (fl_pos (f_file f) + 4095) div 4096"
    and "u = first_usable G q"
  have G: "G \<le> 1024" using descriptor_area_bounds(2) [OF bs] by (simp add: G_def)
  have q: "q < 2 ^ 32" "fl_pos (f_file f) \<le> 4096 * q" using payload_room_block [OF room] by (simp_all add: q_def)
  have u: "q \<le> u" using first_usable_bounds(1) [OF G] by (simp add: u_def)
  define f1 where "f1 = f\<lparr>f_file := seek_start (4096 * u) (f_file f)\<rparr>"
  have 1: "skip_reserved_metadata_blocks (align_to_block f) = Some f1"
    using align_skip_ok [OF bs q_def q(1) G_def] by (simp add: f1_def u_def)
  have n: "n + (4096 + m) + 4096 = n + 8192 + m" by simp
  have "budget (4096 * u) (n + (4096 + m)) \<le> budget (fl_pos (f_file f)) (n + 8192 + m)"
    using order_trans [OF budget_skip [OF G, of q] budget_align [of "fl_pos (f_file f)", folded q_def]]
    unfolding u_def n [symmetric] .
  then have "payload_room f1 (n + (4096 + m)) lim"
    unfolding f1_def by (rule payload_room_seek [OF room])
  moreover have "payload_inv G (4096 * u) (fl_data (f_file f1)) f1 [] []"
    by (rule payload_inv_start) (simp_all add: f1_def bs G_def)
  ultimately show ?thesis
    using 1 q(2) u by (intro exI [of _ u]) (simp add: f1_def G_def)
qed

lemma aligned_finish:
  assumes inv: "payload_inv (unat (group_descriptor_blocks f)) (4096 * u) (fl_data (f_file f)) f2 ranges bytes"
    and room: "payload_room f2 (4096 + m) lim" and o2: "payload_only f f2" and u: "fl_pos (f_file f) \<le> 4096 * u"
  shows "stored f (align_to_block f2) ranges bytes" "payload_room (align_to_block f2) m lim"
proof -
  note P = payload_invD [OF inv] and E = payload_inv_end [OF inv]
  define f3 where "f3 = f2\<lparr>f_file := seek_start (4096 * ((fl_pos (f_file f2) + 4095) div 4096)) (f_file f2)\<rparr>"
  have 3: "align_to_block f2 = f3"
    using align_to_block_pos [OF P(1) payload_room_block [OF room]] by (simp add: f3_def)
  have p3: "fl_pos (f_file f2) \<le> fl_pos (f_file f3)" "fl_pos (f_file f3) mod 4096 = 0" by (simp_all add: f3_def)
  show "payload_room (align_to_block f2) m lim"
    unfolding 3 f3_def using budget_align [of "fl_pos (f_file f2)" m]
    by (intro payload_room_seek [OF room]) (simp add: add.commute)
  have o: "payload_only f f3" using payload_only_trans [OF o2] by (simp add: f3_def)
  have G3: "group_descriptor_blocks f3 = group_descriptor_blocks f"
    using P(2) by (simp add: f3_def) (metis unsigned_word_eqI)
  have blocks: "list_all (\<lambda>b. \<not> reserved (unat (group_descriptor_blocks f)) b \<and> fl_pos (f_file f) \<le> 4096 * b \<and>
      4096 * b < fl_pos (f_file f3) \<and> b < 2 ^ 32 - 1) (ranges_blocks ranges)"
    unfolding list_all_iff
  proof
    fix b assume b: "b \<in> set (ranges_blocks ranges)"
    from P(5) [OF b] E(2) [OF b] show "\<not> reserved (unat (group_descriptor_blocks f)) b \<and>
        fl_pos (f_file f) \<le> 4096 * b \<and> 4096 * b < fl_pos (f_file f3) \<and> b < 2 ^ 32 - 1"
      using u p3(1) by linarith
  qed
  have "advance f f3"
    unfolding advance_def using o G3 p3 P(9) E(3) u by (auto simp: f3_def)
  then show "stored f (align_to_block f2) ranges bytes"
    unfolding stored_def Let_def 3
    using blocks P(3, 4, 10) E(1) payload_inv_at [OF inv] by (simp add: f3_def)
qed

lemma aligned_payload_ok:
  assumes bs: "f_block_size f = 4096" and room: "payload_room f (length bytes + 8192 + m) lim"
  shows "\<exists>f' ranges. write_aligned_payload_bytes f bytes = Some (f', ranges) \<and> stored f f' ranges bytes \<and>
    payload_room f' m lim"
proof -
  obtain u where 1: "skip_reserved_metadata_blocks (align_to_block f)
      = Some (f\<lparr>f_file := seek_start (4096 * u) (f_file f)\<rparr>)"
    and inv: "payload_inv (unat (group_descriptor_blocks f)) (4096 * u) (fl_data (f_file f))
      (f\<lparr>f_file := seek_start (4096 * u) (f_file f)\<rparr>) [] []"
    and r1: "payload_room (f\<lparr>f_file := seek_start (4096 * u) (f_file f)\<rparr>) (length bytes + (4096 + m)) lim"
    and u: "fl_pos (f_file f) \<le> 4096 * u"
    using aligned_start [OF bs room] by blast
  from write_payload_ok [OF inv r1] obtain f2 ranges where
    2: "write_payload_bytes (f\<lparr>f_file := seek_start (4096 * u) (f_file f)\<rparr>) bytes [] = Some (f2, ranges)"
    and i2: "payload_inv (unat (group_descriptor_blocks f)) (4096 * u) (fl_data (f_file f)) f2 ranges bytes"
    and r2: "payload_room f2 (4096 + m) lim"
    and o2: "payload_only (f\<lparr>f_file := seek_start (4096 * u) (f_file f)\<rparr>) f2" by auto
  have "payload_only f f2" by (rule payload_only_trans [OF payload_only_seek o2]) simp
  from aligned_finish [OF i2 r2 this u] 1 2 show ?thesis by (auto simp: write_aligned_payload_bytes_def Let_def)
qed

subsection \<open>Number of ranges\<close>

text \<open>A payload is broken only at block groups that carry reserved blocks.\<close>

lemma gap_group:
  assumes "gap G r s" "br_start r < br_end r" "\<forall>b \<in> set (range_blocks r). \<not> reserved G b"
  shows "unat (br_start r) div 32768 < unat (br_start s) div 32768"
proof -
  define e where "e = unat (br_end r)"
  have lt: "unat (br_start r) \<le> e - 1" "1 \<le> e" using assms(2) by (auto simp: e_def word_less_nat_alt)
  then have "e - 1 \<in> set (range_blocks r)" by (auto simp: range_blocks_def e_def)
  then have free: "\<not> reserved G (e - 1)" using assms(3) by blast
  have res: "reserved G e" "e < unat (br_start s)" using assms(1) by (auto simp: gap_def e_def word_less_nat_alt)
  have "e mod 32768 = 0"
  proof (rule ccontr)
    assume nz: "e mod 32768 \<noteq> 0"
    define q k where "q = e div 32768" and "k = e mod 32768"
    have k: "0 < k" "k < 32768" "e = q * 32768 + k" using nz by (simp_all add: q_def k_def)
    obtain k' where k': "k = Suc k'" using k(1) by (cases k) auto
    have "(q * 32768 + k') div 32768 = q" "(q * 32768 + k') mod 32768 = k'" using k(2) k' by simp_all
    moreover have "e - 1 = q * 32768 + k'" using k(3) k' by simp
    ultimately have "(e - 1) div 32768 = q" "(e - 1) mod 32768 = k'" by simp_all
    moreover have "k < 1 + G" "has_sparse_super (of_nat q)" using res(1) by (simp_all add: reserved_def q_def k_def)
    ultimately show False using free k' by (simp add: reserved_def)
  qed
  then obtain q where q: "e = 32768 * q" by (auto elim: dvdE)
  then have "(e - 1) div 32768 < q" using lt(2) by (simp add: less_mult_imp_div_less mult.commute)
  moreover have "unat (br_start r) div 32768 \<le> (e - 1) div 32768" by (rule div_le_mono [OF lt(1)])
  moreover have "q \<le> unat (br_start s) div 32768" using res(2) q div_le_mono [of e "unat (br_start s)" 32768] by simp
  ultimately show ?thesis by linarith
qed

lemma ranges_groups:
  assumes "successively (gap G) ranges" "ranges_ok ranges" "\<forall>b \<in> set (ranges_blocks ranges). \<not> reserved G b"
  shows "sorted_wrt (<) (map (\<lambda>r. unat (br_start r) div 32768) ranges)"
proof -
  have "successively (<) (map (\<lambda>r. unat (br_start r) div 32768) ranges)"
    using assms
  proof (induction ranges rule: induct_list012)
    case (3 r s rs)
    then have "unat (br_start r) div 32768 < unat (br_start s) div 32768"
      by (intro gap_group [of G]) (auto simp: ranges_ok_def ranges_blocks_def)
    with 3 show ?case by (simp add: ranges_ok_def ranges_blocks_def)
  qed simp_all
  then show ?thesis by (simp add: successively_conv_sorted_wrt)
qed

lemma few_ranges:
  assumes "successively (gap G) ranges" "ranges_ok ranges" "\<forall>b \<in> set (ranges_blocks ranges). \<not> reserved G b"
    and "\<forall>b \<in> set (ranges_blocks ranges). b < 32768 * N"
  shows "length ranges \<le> N"
proof -
  define gs where "gs = map (\<lambda>r. unat (br_start r) div 32768) ranges"
  have "distinct gs" using ranges_groups [OF assms(1-3)] strict_sorted_iff by (auto simp: gs_def)
  moreover have "set gs \<subseteq> {..<N}"
  proof
    fix g assume "g \<in> set gs"
    then obtain r where r: "r \<in> set ranges" "g = unat (br_start r) div 32768" by (auto simp: gs_def)
    then have "unat (br_start r) \<in> set (ranges_blocks ranges)"
      using assms(2) by (auto simp: ranges_blocks_def range_blocks_def ranges_ok_def list_all_iff word_less_nat_alt)
    then show "g \<in> {..<N}" using assms(4) r(2) by (simp add: less_mult_imp_div_less mult.commute)
  qed
  ultimately have "length gs \<le> card {..<N}" by (metis card_mono distinct_card finite_lessThan)
  then show ?thesis by (simp add: gs_def)
qed
subsection \<open>Images up to 16 GiB\<close>

text \<open>Up to 16 GiB one block holds every group descriptor, and 31 more are reserved for growth.\<close>

lemma small_area:
  assumes "f_block_size f = 4096" "0 < f_size f" "f_size f \<le> 2 ^ 34"
  shows "group_descriptor_blocks f = 32"
proof -
  define k where "k = unat (f_size f - 1) div 4096"
  have "unat (f_size f) \<le> 2 ^ 34" "0 < unat (f_size f)"
    using assms(2, 3) by (simp_all add: word_le_nat_alt unat_gt_0)
  moreover have "unat (f_size f - 1) = unat (f_size f) - 1"
    using assms(2) by (intro unat_minus_one) auto
  ultimately have "unat (f_size f - 1) \<le> 17179869183" by simp
  then have k: "k \<le> 4194303" using div_le_mono [of _ 17179869183 4096] by (simp add: k_def)
  have "unat ((f_size f - 1) div 4096 + 1) = k + 1"
    using k by (simp add: unat_add_small unat_div_distrib k_def)
  then have "unat (block_count f) = k + 1"
    using k assms(1) by (simp add: block_count_def unat_ucast_small)
  then have "unat (block_count f - 1) = k" using unat_minus_one [of "block_count f"] by fastforce
  then have "unat ((block_count f - 1) div 32768) \<le> 127"
    using k div_le_mono [of k 4194303 32768] by (simp add: unat_div_distrib)
  then have "unat (group_count f - 1) \<le> 127" using assms(1) by (simp add: group_count_def blocks_per_group_def)
  then have "unat ((group_count f - 1) div 128) = unat (0 :: u32)" by (simp add: unat_div_distrib)
  then have "(group_count f - 1) div 128 = 0" by (rule unsigned_word_eqI)
  then have "descriptor_blocks_for_groups f (group_count f) = 1"
    using assms(1) by (simp add: descriptor_blocks_for_groups_def groups_per_descriptor_block_def)
  then show ?thesis
    using assms(1)
    by (simp add: group_descriptor_blocks_def group_descriptor_area_blocks_for_groups_def
        reserved_gdt_blocks_for_descriptor_blocks_def saturating_mul_def saturating_sub_def
        RESERVED_GDT_MULTIPLIER_def)
qed

lemma small_room:
  assumes "f_block_size f = 4096" "0 < f_size f" "f_size f \<le> 2 ^ 34"
    and "fl_pos (f_file f) + 2 * n + 2 ^ 23 \<le> 2 ^ 34"
  shows "payload_room f n (2 ^ 34)"
proof -
  define q where "q = (fl_pos (f_file f) + 4095) div 4096"
  have q: "4096 * q \<le> fl_pos (f_file f) + 4095" by (simp add: q_def)
  have d: "4096 * ((k + 4095) div 4096) \<le> k + 4095" for k :: nat by simp
  define e s where "e = (n - (4096 * q - fl_pos (f_file f)) + 4095) div 4096" and "s = slack (q mod 32768)"
  have "s \<le> 1025" by (simp add: s_def slack_def)
  moreover have "4096 * e \<le> n + 4095"
    unfolding e_def using d [of "n - (4096 * q - fl_pos (f_file f))"] by linarith
  moreover have "budget (fl_pos (f_file f)) n = q + 2 * e + s" by (simp add: budget_def Let_def q_def e_def s_def)
  ultimately have "4096 * budget (fl_pos (f_file f)) n \<le> 2 ^ 34" using q assms(4) by simp
  moreover have "area_stable f (2 ^ 34)"
  proof -
    have "group_descriptor_blocks (f\<lparr>f_size := s\<rparr>) = 32" if "f_size f \<le> s" "unat s \<le> 2 ^ 34" for s
      using assms(1, 2) that by (intro small_area) (simp_all add: word_le_nat_alt word_less_nat_alt)
    then show ?thesis using small_area [OF assms(1-3)] by (simp add: area_stable_def)
  qed
  ultimately show ?thesis by (simp add: payload_room_def)
qed

text \<open>
  C23: On an image of up to 16 GiB with room left, \<open>write_aligned_payload_bytes\<close> returns; the blocks
  it records hold the bytes in order, are ascending, lie behind everything written before and avoid
  every superblock copy and descriptor block, and nothing written earlier changes.
\<close>

theorem aligned_payload_stored:
  assumes "f_block_size f = 4096" "0 < f_size f" "f_size f \<le> 2 ^ 34"
    and "fl_pos (f_file f) + 2 * (length bytes + 8192) + 2 ^ 23 \<le> 2 ^ 34"
  shows "\<exists>f' ranges. write_aligned_payload_bytes f bytes = Some (f', ranges) \<and> stored f f' ranges bytes"
  using aligned_payload_ok [OF assms(1), of bytes 0 "2 ^ 34"] small_room [OF assms] by auto

definition blank_formatter :: "u64 \<Rightarrow> nat \<Rightarrow> Formatter" where
  "blank_formatter sz p =
     \<lparr>f_file = seek_start p (set_len (unat sz) empty_file), f_block_size = 4096, f_size = sz, f_inodes = [],
      f_tree = FileTree_new ROOT_INODE ''/'', f_deleted_blocks = [], f_deferred_blocks = (\<lambda>_. None),
      f_uuid = None, f_label = None\<rparr>"

theorem aligned_payload_stored_witness:
  "\<exists>f' ranges. write_aligned_payload_bytes (blank_formatter 1048576 135168) [1, 2, 3] = Some (f', ranges) \<and>
     stored (blank_formatter 1048576 135168) f' ranges [1, 2, 3]"
  using aligned_payload_stored [of "blank_formatter 1048576 135168" "[1, 2, 3]"]
  by (simp add: blank_formatter_def)

text \<open>
  C24: Skipping reserved metadata terminates from every aligned position: it stops at the first block
  at or behind the position that is not reserved, in the same block group, and leaves the rest of
  the state alone.
\<close>

theorem skip_reserved_terminates:
  assumes "f_block_size f = 4096" "fl_pos (f_file f) = 4096 * b" "b < 2 ^ 32"
  shows "\<exists>u. skip_reserved_metadata_blocks f = Some (f\<lparr>f_file := seek_start (4096 * u) (f_file f)\<rparr>) \<and>
     b \<le> u \<and> u div 32768 = b div 32768 \<and> \<not> reserved (unat (group_descriptor_blocks f)) u \<and>
     (\<forall>c. b \<le> c \<and> c < u \<longrightarrow> reserved (unat (group_descriptor_blocks f)) c)"
proof -
  define G where "G = unat (group_descriptor_blocks f)"
  have G: "G \<le> 1024" using descriptor_area_bounds(2) [OF assms(1)] by (simp add: G_def)
  note U = first_usable_bounds [OF G, of b]
  have "reserved G c" if c: "b \<le> c" "c < first_usable G b" for c
  proof -
    have r: "reserved G b" "first_usable G b = b div 32768 * 32768 + (1 + G)"
      using c U(4) by (auto simp: first_usable_def)
    have "b div 32768 \<le> c div 32768" "c div 32768 \<le> first_usable G b div 32768"
      using c by (simp_all add: div_le_mono)
    then have d: "c div 32768 = b div 32768" using U(3) by simp
    then have "c mod 32768 < 1 + G" using c(2) r(2) div_mult_mod_eq [of c 32768] by linarith
    then show ?thesis using r(1) d by (simp add: reserved_def)
  qed
  moreover have "skip_reserved_metadata_blocks f
      = Some (f\<lparr>f_file := seek_start (4096 * first_usable G b) (f_file f)\<rparr>)"
    using skip_aligned_ok [OF assms] by (simp add: G_def)
  ultimately show ?thesis using U(1-3) unfolding G_def [symmetric] by blast
qed

theorem skip_reserved_terminates_witness:
  "\<exists>u. skip_reserved_metadata_blocks (blank_formatter 1048576 0)
      = Some (blank_formatter 1048576 0\<lparr>f_file := seek_start (4096 * u) (f_file (blank_formatter 1048576 0))\<rparr>) \<and>
     0 \<le> u \<and> u div 32768 = 0 \<and> \<not> reserved (unat (group_descriptor_blocks (blank_formatter 1048576 0))) u"
  using skip_reserved_terminates [of "blank_formatter 1048576 0" 0]
  by (auto simp: blank_formatter_def)

end
