(* ===== verification/Rust_Effect.thy ===== *)
theory Rust_Effect
  imports Prelude
begin

text \<open>
  Methods on \<open>&mut self\<close> that return a \<open>Result\<close>.  An action maps a state to a result and the state
  it leaves, and to \<open>None\<close> when the call panics or does not return; an error keeps the changes made
  before it.  \<open>act_wp\<close> is the weakest precondition of total correctness: the call returns, and its
  value or its error satisfies the given condition.  The equations in \<open>wp\<close> compute it.
\<close>

type_synonym ('s, 'e, 'a) act = "'s \<Rightarrow> (('e + 'a) \<times> 's) option"

named_theorems wp \<open>weakest preconditions of actions\<close>

definition act_return :: "'a \<Rightarrow> ('s, 'e, 'a) act" where
  "act_return x s = Some (Ok x, s)"

definition act_throw :: "'e \<Rightarrow> ('s, 'e, 'a) act" where
  "act_throw e s = Some (Err e, s)"

definition act_panic :: "('s, 'e, 'a) act" where
  "act_panic s = None"

definition act_bind :: "('s, 'e, 'a) act \<Rightarrow> ('a \<Rightarrow> ('s, 'e, 'b) act) \<Rightarrow> ('s, 'e, 'b) act" where
  "act_bind m k s =
     (case m s of
        None \<Rightarrow> None
      | Some (Inl e, s') \<Rightarrow> Some (Inl e, s')
      | Some (Inr x, s') \<Rightarrow> k x s')"

definition act_seq :: "('s, 'e, unit) act \<Rightarrow> ('s, 'e, 'b) act \<Rightarrow> ('s, 'e, 'b) act" where
  "act_seq m k = act_bind m (\<lambda>_. k)"

definition act_gets :: "('s \<Rightarrow> 'a) \<Rightarrow> ('s, 'e, 'a) act" where
  "act_gets g s = Some (Ok (g s), s)"

definition act_modify :: "('s \<Rightarrow> 's) \<Rightarrow> ('s, 'e, unit) act" where
  "act_modify h s = Some (Ok (), h s)"

text \<open>A computation that may panic, one that may fail, and one that changes the state or panics.\<close>

definition act_option :: "'a option \<Rightarrow> ('s, 'e, 'a) act" where
  "act_option r s = map_option (\<lambda>x. (Ok x, s)) r"

definition act_result :: "'e + 'a \<Rightarrow> ('s, 'e, 'a) act" where
  "act_result r s = Some (r, s)"

definition act_state :: "('s \<Rightarrow> ('s \<times> 'a) option) \<Rightarrow> ('s, 'e, 'a) act" where
  "act_state g s = map_option (\<lambda>(s', x). (Ok x, s')) (g s)"

primrec act_each :: "('b \<Rightarrow> ('s, 'e, unit) act) \<Rightarrow> 'b list \<Rightarrow> ('s, 'e, unit) act" where
  "act_each body [] = act_return ()"
| "act_each body (x # xs) = act_seq (body x) (act_each body xs)"

definition act_when :: "bool \<Rightarrow> ('s, 'e, unit) act \<Rightarrow> ('s, 'e, unit) act" where
  "act_when b m = (if b then m else act_return ())"

definition act_wp ::
  "('s, 'e, 'a) act \<Rightarrow> ('a \<Rightarrow> 's \<Rightarrow> bool) \<Rightarrow> ('e \<Rightarrow> 's \<Rightarrow> bool) \<Rightarrow> 's \<Rightarrow> bool" where
  "act_wp m Q E s =
     (case m s of
        None \<Rightarrow> False
      | Some (Inl e, s') \<Rightarrow> E e s'
      | Some (Inr x, s') \<Rightarrow> Q x s')"

subsection \<open>Laws\<close>

lemma act_wp_simps [wp]:
  "act_wp (act_return x) Q E s = Q x s"
  "act_wp (act_throw e) Q E s = E e s"
  "act_wp act_panic Q E s = False"
  "act_wp (act_bind m k) Q E s = act_wp m (\<lambda>x. act_wp (k x) Q E) E s"
  "act_wp (act_seq m1 m2) R E s = act_wp m1 (\<lambda>_. act_wp m2 R E) E s"
  "act_wp (act_gets g) Q E s = Q (g s) s"
  "act_wp (act_modify h) U E s = U () (h s)"
  "act_wp (act_option r) Q E s = (\<exists>x. r = Some x \<and> Q x s)"
  "act_wp (act_result q) Q E s = (case q of Inl e \<Rightarrow> E e s | Inr x \<Rightarrow> Q x s)"
  "act_wp (act_state t) Q E s = (\<exists>s' x. t s = Some (s', x) \<and> Q x s')"
  "act_wp (act_when b m3) U E s = (if b then act_wp m3 U E s else U () s)"
  by (auto simp: act_wp_def act_return_def act_throw_def act_panic_def act_bind_def act_seq_def act_gets_def
      act_modify_def act_option_def act_result_def act_state_def act_when_def
      split: option.splits prod.splits sum.splits)

lemma act_wp_if [wp]: "act_wp (if b then m else k) Q E s = (if b then act_wp m Q E s else act_wp k Q E s)"
  by simp

lemma act_wp_option_case [wp]:
  "act_wp (case r of None \<Rightarrow> m | Some x \<Rightarrow> k x) Q E s
     = (case r of None \<Rightarrow> act_wp m Q E s | Some x \<Rightarrow> act_wp (k x) Q E s)"
  by (cases r) simp_all

lemma act_wp_let [wp]: "act_wp (let x = v in m x) Q E s = act_wp (m v) Q E s"
  by (simp add: Let_def)

lemma act_wp_mono:
  "act_wp m Q E s \<Longrightarrow> (\<And>x s'. Q x s' \<Longrightarrow> Q' x s') \<Longrightarrow> (\<And>e s'. E e s' \<Longrightarrow> E' e s') \<Longrightarrow> act_wp m Q' E' s"
  by (auto simp: act_wp_def split: option.splits prod.splits sum.splits)

lemma act_wp_conj:
  "act_wp m Q E s \<Longrightarrow> act_wp m Q' E' s \<Longrightarrow> act_wp m (\<lambda>x t. Q x t \<and> Q' x t) (\<lambda>e t. E e t \<and> E' e t) s"
  by (auto simp: act_wp_def split: option.splits prod.splits sum.splits)

lemma act_wp_OkD:
  "act_wp m Q E s \<Longrightarrow> (\<And>e s'. \<not> E e s') \<Longrightarrow> \<exists>x s'. m s = Some (Ok x, s') \<and> Q x s'"
  by (auto simp: act_wp_def split: option.splits prod.splits sum.splits)

lemma act_wp_returns: "act_wp m (\<lambda>_ _. True) (\<lambda>_ _. True) s \<longleftrightarrow> (\<exists>r s'. m s = Some (r, s'))"
  by (auto simp: act_wp_def split: option.splits prod.splits sum.splits)

lemma act_wp_OkI: "m s = Some (Ok x, s') \<Longrightarrow> Q x s' \<Longrightarrow> act_wp m Q E s"
  by (simp add: act_wp_def)

text \<open>A loop keeps what its body keeps.\<close>

lemma act_each_inv:
  assumes "\<And>x s. x \<in> set xs \<Longrightarrow> I s \<Longrightarrow> act_wp (body x) (\<lambda>_. I) E s" "I s"
  shows "act_wp (act_each body xs) (\<lambda>_. I) E s"
  using assms
proof (induction xs arbitrary: s)
  case Nil
  then show ?case by (simp add: wp)
next
  case (Cons x xs)
  show ?case
    unfolding act_each.simps wp
    by (rule act_wp_mono [OF Cons.prems(1)]) (use Cons in auto)
qed

section \<open>Release on every path\<close>

text \<open>A guard whose \<open>drop\<close> runs when the body returns, with a value or with an error.\<close>

definition act_finally :: "('s, 'e, 'a) act \<Rightarrow> ('s \<Rightarrow> 's) \<Rightarrow> ('s, 'e, 'a) act" where
  "act_finally m f s = map_option (\<lambda>(r, s'). (r, f s')) (m s)"

text \<open>\<open>match body { Err(err) => handler, ok => ok }\<close>.\<close>

definition act_catch :: "('s, 'e, 'a) act \<Rightarrow> ('e \<Rightarrow> ('s, 'e, 'a) act) \<Rightarrow> ('s, 'e, 'a) act" where
  "act_catch m h s = (case m s of Some (Inl e, s') \<Rightarrow> h e s' | r \<Rightarrow> r)"

lemma act_wp_finally [wp]: "act_wp (act_finally m f) Q E s = act_wp m (\<lambda>x s. Q x (f s)) (\<lambda>e s. E e (f s)) s"
  by (auto simp: act_wp_def act_finally_def split: option.splits prod.splits sum.splits)

lemma act_wp_catch [wp]: "act_wp (act_catch m h) Q E s = act_wp m Q (\<lambda>e. act_wp (h e) Q E) s"
  by (auto simp: act_wp_def act_catch_def split: option.splits prod.splits sum.splits)

section \<open>Conditions that a call keeps\<close>

text \<open>\<open>keeps I m\<close>: from a state with \<open>I\<close>, the call returns and \<open>I\<close> holds again, after a value and after an error.\<close>

definition keeps :: "('s \<Rightarrow> bool) \<Rightarrow> ('s, 'e, 'a) act \<Rightarrow> bool" where
  "keeps I m \<longleftrightarrow> (\<forall>s. I s \<longrightarrow> act_wp m (\<lambda>_. I) (\<lambda>_. I) s)"

named_theorems keep \<open>introduction rules for keeps\<close>

lemma keepsI: "(\<And>s. I s \<Longrightarrow> act_wp m (\<lambda>_. I) (\<lambda>_. I) s) \<Longrightarrow> keeps I m"
  by (simp add: keeps_def)

lemma keepsD: "keeps I m \<Longrightarrow> I s \<Longrightarrow> act_wp m (\<lambda>_. I) (\<lambda>_. I) s"
  by (simp add: keeps_def)

lemma keeps_wp:
  assumes "keeps I m" "I s" "\<And>x s'. I s' \<Longrightarrow> Q x s'" "\<And>e s'. I s' \<Longrightarrow> E e s'"
  shows "act_wp m Q E s"
  using keepsD [OF assms(1, 2)] by (rule act_wp_mono) (use assms(3, 4) in auto)

lemma keeps_bind [keep]: "keeps I m \<Longrightarrow> (\<And>x. keeps I (k x)) \<Longrightarrow> keeps I (act_bind m k)"
  by (rule keepsI) (auto simp: wp intro: keeps_wp keepsD)

lemma keeps_seq [keep]: "keeps I m \<Longrightarrow> keeps I k \<Longrightarrow> keeps I (act_seq m k)"
  by (rule keepsI) (auto simp: wp intro: keeps_wp keepsD)

lemma keeps_catch [keep]: "keeps I m \<Longrightarrow> (\<And>e. keeps I (h e)) \<Longrightarrow> keeps I (act_catch m h)"
  by (rule keepsI) (auto simp: wp intro: keeps_wp keepsD)

lemma keeps_finally [keep]: "keeps I m \<Longrightarrow> (\<And>s. I s \<Longrightarrow> I (f s)) \<Longrightarrow> keeps I (act_finally m f)"
  by (rule keepsI) (auto simp: wp intro: keeps_wp)

lemma keeps_simple [keep]:
  "keeps I (act_return x)" "keeps I (act_throw e)" "keeps I (act_gets g)" "keeps I (act_result r)"
  by (auto simp: keeps_def wp split: sum.split)

lemma keeps_modify [keep]: "(\<And>s. I s \<Longrightarrow> I (h s)) \<Longrightarrow> keeps I (act_modify h)"
  by (auto simp: keeps_def wp)

lemma keeps_state [keep]: "(\<And>s. I s \<Longrightarrow> \<exists>s' x. t s = Some (s', x) \<and> I s') \<Longrightarrow> keeps I (act_state t)"
  by (auto simp: keeps_def wp)

lemma keeps_when [keep]: "(b \<Longrightarrow> keeps I m) \<Longrightarrow> keeps I (act_when b m)"
  by (auto simp: keeps_def wp)

lemma keeps_if [keep]: "(b \<Longrightarrow> keeps I m) \<Longrightarrow> (\<not> b \<Longrightarrow> keeps I k) \<Longrightarrow> keeps I (if b then m else k)"
  by simp

lemma keeps_option [keep]: "(r = None \<Longrightarrow> keeps I m) \<Longrightarrow> (\<And>x. r = Some x \<Longrightarrow> keeps I (k x)) \<Longrightarrow> keeps I (case r of None \<Rightarrow> m | Some x \<Rightarrow> k x)"
  by (cases r) simp_all

lemma keeps_sum [keep]: "(\<And>e. r = Inl e \<Longrightarrow> keeps I (h e)) \<Longrightarrow> (\<And>x. r = Inr x \<Longrightarrow> keeps I (k x)) \<Longrightarrow> keeps I (case r of Inl e \<Rightarrow> h e | Inr x \<Rightarrow> k x)"
  by (cases r) simp_all

lemma keeps_prod [keep]: "(\<And>a b. p = (a, b) \<Longrightarrow> keeps I (f a b)) \<Longrightarrow> keeps I (case p of (a, b) \<Rightarrow> f a b)"
  by (cases p) simp

lemma keeps_let [keep]: "keeps I (f v) \<Longrightarrow> keeps I (let x = v in f x)"
  by (simp add: Let_def)

lemma keeps_each [keep]: "(\<And>x. x \<in> set xs \<Longrightarrow> keeps I (body x)) \<Longrightarrow> keeps I (act_each body xs)"
  by (rule keepsI, rule act_each_inv) (auto dest: keepsD)


text \<open>\<open>gives I m P\<close>: as \<open>keeps\<close>, and a returned value satisfies \<open>P\<close>.\<close>

definition gives :: "('s \<Rightarrow> bool) \<Rightarrow> ('s, 'e, 'a) act \<Rightarrow> ('a \<Rightarrow> bool) \<Rightarrow> bool" where
  "gives I m P \<longleftrightarrow> (\<forall>s. I s \<longrightarrow> act_wp m (\<lambda>x s'. I s' \<and> P x) (\<lambda>_. I) s)"

lemma givesI: "(\<And>s. I s \<Longrightarrow> act_wp m (\<lambda>x s'. I s' \<and> P x) (\<lambda>_. I) s) \<Longrightarrow> gives I m P"
  by (simp add: gives_def)

lemma givesD: "gives I m P \<Longrightarrow> I s \<Longrightarrow> act_wp m (\<lambda>x s'. I s' \<and> P x) (\<lambda>_. I) s"
  by (simp add: gives_def)

lemma gives_keeps: "gives I m P \<Longrightarrow> keeps I m"
  by (rule keepsI, drule (1) givesD, erule act_wp_mono) auto

lemma keeps_gives_bind: "gives I m P \<Longrightarrow> (\<And>x. P x \<Longrightarrow> keeps I (k x)) \<Longrightarrow> keeps I (act_bind m k)"
  unfolding keeps_def gives_def wp by (blast intro: act_wp_mono)

lemma gives_bind: "keeps I m \<Longrightarrow> (\<And>x. gives I (k x) P) \<Longrightarrow> gives I (act_bind m k) P"
  unfolding keeps_def gives_def wp by (blast intro: act_wp_mono)

lemma gives_result: "(\<And>x. r = Inr x \<Longrightarrow> P x) \<Longrightarrow> gives I (act_result r) P"
  by (auto simp: gives_def wp split: sum.split)


lemma keeps_iff_gives: "keeps I m \<longleftrightarrow> gives I m (\<lambda>_. True)"
  by (simp add: keeps_def gives_def)

lemma gives_wp:
  assumes "gives I m P" "I s" "\<And>x s'. I s' \<Longrightarrow> P x \<Longrightarrow> Q x s'" "\<And>e s'. I s' \<Longrightarrow> E e s'"
  shows "act_wp m Q E s"
  using givesD [OF assms(1, 2)] by (rule act_wp_mono) (use assms(3, 4) in auto)

lemma gives_if: "(b \<Longrightarrow> gives I m P) \<Longrightarrow> (\<not> b \<Longrightarrow> gives I k P) \<Longrightarrow> gives I (if b then m else k) P"
  by simp

lemma gives_return: "P x \<Longrightarrow> gives I (act_return x) P"
  by (simp add: gives_def wp)

lemma gives_throw: "gives I (act_throw e) P"
  by (simp add: gives_def wp)

end
