(* ===== verification/Ext4_Formatter.thy ===== *)
theory Ext4_Formatter
  imports Ext4_Layout Rust_Effect
begin

text \<open>
  \<open>common/ext4/src/formatter.rs\<close>, second part: the operations that build an image in memory
  (\<open>with_options\<close>, \<open>create\<close>, \<open>link\<close>, \<open>unlink\<close> and the small queries and updates), each an action
  on the \<open>Formatter\<close>.

  The clock is an argument \<open>now\<close> of the operations that read it, one reading for one call.  The
  attribute map of \<open>create\<close> is the list of its entries in iteration order, and the data reader the
  list of the chunks it returns.  A panic is \<open>None\<close>.
\<close>

type_synonym 'a fmt = "(Formatter, FormatError, 'a) act"
type_synonym stamp = "u32 \<times> u32"

section \<open>Options and paths\<close>

definition VOLUME_NAME_LEN :: nat where "VOLUME_NAME_LEN = 16"

record FormatOptions =
  fo_block_size :: u32
  fo_size :: u64
  fo_uuid :: "bytes option"
  fo_label :: "string option"

definition FormatOptions_new :: "u64 \<Rightarrow> FormatOptions" where
  "FormatOptions_new sz = \<lparr>fo_block_size = 4096, fo_size = sz, fo_uuid = None, fo_label = None\<rparr>"

definition validate_label :: "string \<Rightarrow> FormatError + unit" where
  "validate_label label =
     (if length label > VOLUME_NAME_LEN then Err (F_InvalidLabel label)
      else if CHR 0x00 \<in> set label then Err (F_InvalidLabel label)
      else Ok ())"

text \<open>The components that are \<open>Component::Normal\<close>.\<close>

definition normal_components :: "string \<Rightarrow> string list" where
  "normal_components path = filter (\<lambda>c. c \<noteq> ''/'' \<and> c \<noteq> ''.'' \<and> c \<noteq> ''..'') (components path)"

definition validate_path_component_names :: "string \<Rightarrow> FormatError + unit" where
  "validate_path_component_names path =
     (case find (\<lambda>name. length name > EXT4_NAME_LEN) (normal_components path) of
        Some name \<Rightarrow> Err (F_InvalidName name)
      | None \<Rightarrow> Ok ())"

definition parent_of :: "string \<Rightarrow> string" where
  "parent_of path =
     (if path = ''/'' then ''/''
      else
        let trimmed = trim_end_matches (CHR ''/'') path in
        case rfind (CHR ''/'') trimmed of
          Some p \<Rightarrow> if p = 0 then ''/'' else take p trimmed
        | None \<Rightarrow> ''/'')"

definition basename :: "string \<Rightarrow> string" where
  "basename path =
     (if path = ''/'' then ''/''
      else
        let trimmed = trim_end_matches (CHR ''/'') path in
        case rfind (CHR ''/'') trimmed of
          Some p \<Rightarrow> drop (p + 1) trimmed
        | None \<Rightarrow> trimmed)"

record FileTimestamps =
  access_lo :: u32
  access_hi :: u32
  modification_lo :: u32
  modification_hi :: u32
  creation_lo :: u32
  creation_hi :: u32
  now_lo :: u32
  now_hi :: u32

definition FileTimestamps_default :: "stamp \<Rightarrow> FileTimestamps" where
  "FileTimestamps_default now =
     (let (lo, hi) = now in
      \<lparr>access_lo = lo, access_hi = hi, modification_lo = lo, modification_hi = hi,
       creation_lo = lo, creation_hi = hi, now_lo = lo, now_hi = hi\<rparr>)"

section \<open>Access to inodes and nodes\<close>

text \<open>\<open>self.inodes[(ino - 1) as usize]\<close>, read and written; out of bounds panics.\<close>

definition inode_at :: "u32 \<Rightarrow> Inode fmt" where
  "inode_at ino f =
     (let i = unat (ino - 1) in
      if i < length (f_inodes f) then Some (Ok (f_inodes f ! i), f) else None)"

definition inode_update :: "u32 \<Rightarrow> (Inode \<Rightarrow> Inode) \<Rightarrow> unit fmt" where
  "inode_update ino g f =
     (let i = unat (ino - 1) in
      if i < length (f_inodes f) then Some (Ok (), f\<lparr>f_inodes := (f_inodes f)[i := g (f_inodes f ! i)]\<rparr>)
      else None)"

definition tree_lookup :: "string \<Rightarrow> nat option fmt" where
  "tree_lookup path f = map_option (\<lambda>r. (Ok r, f)) (lookup (f_tree f) path)"

definition tree_node :: "nat \<Rightarrow> FileTreeNode fmt" where
  "tree_node idx f = map_option (\<lambda>nd. (Ok nd, f)) (node (f_tree f) idx)"

definition tree_add_child :: "nat \<Rightarrow> FileTreeNode \<Rightarrow> unit fmt" where
  "tree_add_child parent nd f =
     map_option (\<lambda>(t, idx). (Ok (), f\<lparr>f_tree := t\<rparr>)) (add_child (f_tree f) parent nd)"

definition tree_remove_child :: "nat \<Rightarrow> string \<Rightarrow> unit fmt" where
  "tree_remove_child parent name f =
     map_option (\<lambda>t. (Ok (), f\<lparr>f_tree := t\<rparr>)) (remove_child (f_tree f) parent name)"

definition skip_reserved :: "unit fmt" where
  "skip_reserved = act_state (\<lambda>f. map_option (\<lambda>f. (f, ())) (skip_reserved_metadata_blocks f))"

definition payload_aligned :: "bytes \<Rightarrow> BlockRange list fmt" where
  "payload_aligned bytes = act_state (\<lambda>f. write_aligned_payload_bytes f bytes)"

text \<open>\<open>write_extents\<close> on the formatter's file, at its current block.\<close>

definition store_extents :: "Inode \<Rightarrow> BlockRange list \<Rightarrow> Inode fmt" where
  "store_extents inode ranges =
     act_seq skip_reserved
       (act_state (\<lambda>f.
          map_option (\<lambda>(inode, file, cur). (f\<lparr>f_file := file\<rparr>, inode))
            (write_extents inode ranges (f_block_size f) (f_file f) (current_block f))))"

section \<open>Removing entries\<close>

definition child_path :: "string \<Rightarrow> string \<Rightarrow> string" where
  "child_path path child_name = (if path = ''/'' then ''/'' @ child_name else path @ ''/'' @ child_name)"

definition detach_from_parent :: "string \<Rightarrow> bool \<Rightarrow> unit fmt" where
  "detach_from_parent path node_is_dir =
     act_bind (tree_lookup (parent_of path)) (\<lambda>parent.
       case parent of
         None \<Rightarrow> act_return ()
       | Some parent_idx \<Rightarrow>
           act_bind (tree_node parent_idx) (\<lambda>parent_node.
           act_seq
             (act_when node_is_dir
               (act_bind (inode_at (n_inode parent_node)) (\<lambda>inode.
                act_when (i_links_count inode > 2)
                  (inode_update (n_inode parent_node)
                     (\<lambda>inode. inode\<lparr>i_links_count := i_links_count inode - 1\<rparr>)))))
             (tree_remove_child parent_idx (basename path))))"

definition node_block_ranges :: "FileTreeNode \<Rightarrow> BlockRange list" where
  "node_block_ranges nd =
     (case n_blocks nd of
        Some b \<Rightarrow> if br_start b \<noteq> br_end b then [b] else []
      | None \<Rightarrow> []) @ n_additional_blocks nd"

definition reclaim :: "u32 \<Rightarrow> BlockRange list \<Rightarrow> u32 \<Rightarrow> Formatter \<Rightarrow> Formatter" where
  "reclaim target_ino node_blocks xattr_block f =
     (let deferred = (case f_deferred_blocks f target_ino of Some bs \<Rightarrow> bs | None \<Rightarrow> []);
          xattr = if xattr_block \<noteq> 0 then [\<lparr>br_start = xattr_block, br_end = xattr_block + 1\<rparr>] else []
      in f\<lparr>f_deleted_blocks := f_deleted_blocks f @ node_blocks @ deferred @ xattr,
           f_deferred_blocks := (f_deferred_blocks f)(target_ino := None)\<rparr>)"

definition defer_blocks :: "u32 \<Rightarrow> BlockRange list \<Rightarrow> Formatter \<Rightarrow> Formatter" where
  "defer_blocks target_ino node_blocks f =
     (let old = (case f_deferred_blocks f target_ino of Some bs \<Rightarrow> bs | None \<Rightarrow> [])
      in f\<lparr>f_deferred_blocks := (f_deferred_blocks f)(target_ino \<mapsto> old @ node_blocks)\<rparr>)"

definition release_target :: "stamp \<Rightarrow> u32 \<Rightarrow> nat \<Rightarrow> unit fmt" where
  "release_target now target_ino node_idx =
     act_when (target_ino > FIRST_INODE - 1)
       (act_seq
         (inode_update target_ino
           (\<lambda>inode. if i_links_count inode > 0 then inode\<lparr>i_links_count := i_links_count inode - 1\<rparr> else inode))
         (act_bind (tree_node node_idx) (\<lambda>nd.
          let node_blocks = node_block_ranges nd in
          act_bind (inode_at target_ino) (\<lambda>inode.
            if i_links_count inode = 0 then
              act_seq (act_modify (reclaim target_ino node_blocks (i_xattr_block_lo inode)))
                (inode_update target_ino (\<lambda>_. Inode_default\<lparr>i_dtime := fst now\<rparr>))
            else act_when (node_blocks \<noteq> []) (act_modify (defer_blocks target_ino node_blocks))))))"

text \<open>
  \<open>unlink\<close> calls itself on the paths of the children.  The first argument bounds the depth of the
  calls; \<open>unlink\<close> starts with the number of nodes, and a chain of nested directories is not longer.
\<close>

primrec unlink_depth :: "nat \<Rightarrow> stamp \<Rightarrow> string \<Rightarrow> bool \<Rightarrow> unit fmt" where
  "unlink_depth 0 now path directory_whiteout = act_panic"
| "unlink_depth (Suc n) now path directory_whiteout =
     act_bind (tree_lookup path) (\<lambda>found.
       case found of
         None \<Rightarrow> act_return ()
       | Some node_idx \<Rightarrow>
           act_bind (tree_node node_idx) (\<lambda>nd.
           act_bind (case n_link nd of
                       Some _ \<Rightarrow> act_return False
                     | None \<Rightarrow> act_bind (inode_at (n_inode nd)) (\<lambda>inode. act_return (Inode_is_dir inode)))
             (\<lambda>node_is_dir.
              let target_ino = (case n_link nd of Some linked_ino \<Rightarrow> linked_ino | None \<Rightarrow> n_inode nd) in
              if directory_whiteout \<and> \<not> node_is_dir then act_throw (F_NotDirectory path)
              else
                act_bind (act_gets (\<lambda>f. those (map (node (f_tree f)) (n_children nd)))) (\<lambda>children.
                act_bind (act_option children) (\<lambda>children.
                act_seq (act_each (\<lambda>child_node. unlink_depth n now (child_path path (n_name child_node)) False) children)
                  (if directory_whiteout then act_return ()
                   else act_seq (detach_from_parent path node_is_dir)
                          (release_target now target_ino node_idx)))))))"

definition unlink :: "stamp \<Rightarrow> string \<Rightarrow> bool \<Rightarrow> unit fmt" where
  "unlink now path directory_whiteout f =
     unlink_depth (Suc (length (t_nodes (f_tree f)))) now path directory_whiteout f"

section \<open>Creating entries\<close>

text \<open>The \<open>already exists\<close> cases of \<open>create\<close>; the result says whether the call is finished.\<close>

definition create_over_existing :: "stamp \<Rightarrow> string \<Rightarrow> u16 \<Rightarrow> u32 option \<Rightarrow> u32 option \<Rightarrow> bool fmt" where
  "create_over_existing now path mode uid gid =
     act_bind (tree_lookup path) (\<lambda>found.
       case found of
         None \<Rightarrow> act_return False
       | Some existing_idx \<Rightarrow>
           act_bind (tree_node existing_idx) (\<lambda>nd.
           act_bind (inode_at (n_inode nd)) (\<lambda>existing_inode.
             if is_dir mode then
               if Inode_is_dir existing_inode then
                 if n_name nd = basename path then
                   act_seq
                     (act_when (uid \<noteq> None \<or> gid \<noteq> None)
                       (inode_update (n_inode nd) (\<lambda>inode.
                          let inode = inode\<lparr>i_mode := mode\<rparr>;
                              inode = (case uid of Some u \<Rightarrow> set_uid inode u | None \<Rightarrow> inode)
                          in case gid of Some g \<Rightarrow> set_gid inode g | None \<Rightarrow> inode)))
                     (act_return True)
                 else act_return False
               else act_throw (F_NotDirectory path)
             else if n_link nd \<noteq> None then
               act_seq (unlink now path False) (act_return False)
             else if Inode_is_dir existing_inode \<and> \<not> is_link mode then act_throw (F_NotFile path)
             else act_seq (unlink now path False) (act_return False))))"

definition new_child_inode :: "u16 \<Rightarrow> u32 option \<Rightarrow> u32 option \<Rightarrow> Inode \<Rightarrow> Inode" where
  "new_child_inode mode uid gid parent_inode =
     (let child_inode = Inode_default\<lparr>i_mode := mode, i_flags := HUGE_FILE_flag\<rparr>;
          child_inode = (case uid of
                     Some u \<Rightarrow> set_uid child_inode u
                   | None \<Rightarrow> child_inode\<lparr>i_uid := i_uid parent_inode, i_uid_hi := i_uid_hi parent_inode\<rparr>)
      in case gid of
           Some g \<Rightarrow> set_gid child_inode g
         | None \<Rightarrow> child_inode\<lparr>i_gid := i_gid parent_inode, i_gid_hi := i_gid_hi parent_inode\<rparr>)"

definition child_xattr_state :: "u32 \<Rightarrow> u32 \<Rightarrow> (string \<times> bytes) list \<Rightarrow> FormatError + XattrState" where
  "child_xattr_state child_ino block_size xattr_map =
     xattr_add_all
       (ExtendedAttribute_new ''system.data'' [] # map (\<lambda>(name, value). ExtendedAttribute_new name value) xattr_map)
       (XattrState_new child_ino INODE_EXTRA_SIZE block_size)"

definition store_xattr_block :: "bytes \<Rightarrow> Inode \<Rightarrow> Inode fmt" where
  "store_xattr_block block_buf child_inode =
     act_bind (payload_aligned block_buf) (\<lambda>ranges.
       let child_inode = (case ranges of
                      r # _ \<Rightarrow> child_inode\<lparr>i_xattr_block_lo := br_start r\<rparr>
                    | [] \<Rightarrow> child_inode)
       in if i_flags child_inode AND HUGE_FILE_flag \<noteq> 0
          then act_return (child_inode\<lparr>i_blocks_lo := i_blocks_lo child_inode + 1\<rparr>)
          else act_bind (act_gets f_block_size) (\<lambda>block_size.
                 act_return (child_inode\<lparr>i_blocks_lo := i_blocks_lo child_inode + block_size div 512\<rparr>)))"

definition create_xattrs :: "(string \<times> bytes) list option \<Rightarrow> Inode \<Rightarrow> Inode fmt" where
  "create_xattrs xattrs child_inode =
     (case xattrs of
        None \<Rightarrow> act_return child_inode
      | Some xattr_map \<Rightarrow>
          if xattr_map = [] then act_return child_inode
          else
            act_bind (act_gets (\<lambda>f.
                child_xattr_state (of_nat (length (f_inodes f)) + 1) (f_block_size f) xattr_map)) (\<lambda>added.
            act_bind (act_result added) (\<lambda>state.
            act_bind
              (if has_inline state then
                 act_bind (act_option (write_inline state)) (\<lambda>written.
                 act_bind (act_result written) (\<lambda>buf.
                   if length buf = length (i_inline_xattrs child_inode)
                   then act_return (child_inode\<lparr>i_inline_xattrs := buf\<rparr>) else act_panic))
               else act_return child_inode) (\<lambda>child_inode.
              if has_block state then
                act_bind (act_option (write_block state)) (\<lambda>written.
                act_bind (act_result written) (\<lambda>block_buf. store_xattr_block block_buf child_inode))
              else act_return child_inode))))"

definition stamp_inode :: "FileTimestamps \<Rightarrow> Inode \<Rightarrow> Inode" where
  "stamp_inode ts child_inode =
     child_inode\<lparr>i_atime := access_lo ts, i_atime_extra := access_hi ts,
           i_ctime := now_lo ts, i_ctime_extra := now_hi ts,
           i_mtime := modification_lo ts, i_mtime_extra := modification_hi ts,
           i_crtime := creation_lo ts, i_crtime_extra := creation_hi ts,
           i_links_count := 1, i_extra_isize := EXTRA_ISIZE\<rparr>"

definition create_symlink :: "string \<Rightarrow> Inode \<Rightarrow> (Inode \<times> BlockRange list) fmt" where
  "create_symlink link_target child_inode =
     (let link_bytes = str_bytes link_target;
          sz = (of_nat (length link_bytes) :: u64)
      in if length link_bytes < 60 then
           let child_inode = child_inode\<lparr>i_block := put_bytes (i_block child_inode) 0 link_bytes\<rparr>;
               child_inode = set_file_size child_inode sz;
               child_inode = child_inode\<lparr>i_mode := i_mode child_inode OR 0x1FF, i_flags := 0\<rparr>
           in act_return (child_inode\<lparr>i_blocks_lo := 0\<rparr>, [])
         else
           act_bind (payload_aligned link_bytes) (\<lambda>ranges.
             let child_inode = set_file_size child_inode sz;
                 child_inode = child_inode\<lparr>i_mode := i_mode child_inode OR 0x1FF, i_flags := 0\<rparr>
             in act_bind (store_extents child_inode ranges) (\<lambda>child_inode. act_return (child_inode, ranges))))"

definition payload_from_reader :: "bytes list \<Rightarrow> (u64 \<times> BlockRange list) fmt" where
  "payload_from_reader reader f =
     map_option (\<lambda>(r, f, ranges). (map_sum id (\<lambda>sz. (sz, ranges)) r, f)) (write_payload_from_reader f reader [])"

definition create_regular :: "bytes list option \<Rightarrow> Inode \<Rightarrow> (Inode \<times> BlockRange list) fmt" where
  "create_regular data child_inode =
     act_bind
       (case data of
          None \<Rightarrow> act_return (0, [])
        | Some reader \<Rightarrow>
            act_seq (act_modify align_to_block)
              (act_seq skip_reserved
                (act_bind (payload_from_reader reader) (\<lambda>written.
                 act_seq (act_modify align_to_block) (act_return written)))))
       (\<lambda>(sz, ranges).
          act_bind (store_extents (set_file_size child_inode sz) ranges) (\<lambda>child_inode. act_return (child_inode, ranges)))"

definition register_child :: "string \<Rightarrow> nat \<Rightarrow> Inode \<Rightarrow> BlockRange list \<Rightarrow> unit fmt" where
  "register_child path parent_idx child_inode ranges =
     act_seq (act_modify (\<lambda>f. f\<lparr>f_inodes := f_inodes f @ [child_inode]\<rparr>))
       (act_bind (act_gets (\<lambda>f. of_nat (length (f_inodes f)))) (\<lambda>child_inode_num.
          tree_add_child parent_idx
            (assign_node_ranges
               \<lparr>n_inode = child_inode_num, n_name = basename path, n_children = [], n_parent = None,
                n_blocks = None, n_additional_blocks = [], n_link = None\<rparr> ranges)))"

text \<open>\<open>create\<close> once the parent directories exist.\<close>

definition create_child ::
  "stamp \<Rightarrow> string \<Rightarrow> u16 \<Rightarrow> string option \<Rightarrow> FileTimestamps option \<Rightarrow> bytes list option \<Rightarrow> u32 option \<Rightarrow> u32 option
     \<Rightarrow> (string \<times> bytes) list option \<Rightarrow> unit fmt" where
  "create_child now path mode link ts data uid gid xattrs =
     act_bind (tree_lookup (parent_of path)) (\<lambda>parent.
       case parent of
         None \<Rightarrow> act_throw (F_NotFound (parent_of path))
       | Some parent_idx \<Rightarrow>
           act_bind (tree_node parent_idx) (\<lambda>parent_node.
           act_bind (inode_at (n_inode parent_node)) (\<lambda>parent_inode.
             if (ucast (i_links_count parent_inode) :: u32) \<ge> MAX_LINKS
             then act_throw (F_MaximumLinksExceeded (parent_of path))
             else
               act_bind (create_xattrs xattrs (new_child_inode mode uid gid parent_inode)) (\<lambda>child_inode.
                 let child_inode = stamp_inode (case ts of Some t \<Rightarrow> t | None \<Rightarrow> FileTimestamps_default now) child_inode in
                 act_bind
                   (if is_dir mode then
                      act_seq (inode_update (n_inode parent_node)
                                 (\<lambda>inode. inode\<lparr>i_links_count := i_links_count inode + 1\<rparr>))
                        (act_return (child_inode\<lparr>i_links_count := 2\<rparr>, []))
                    else
                      case link of
                        Some link_target \<Rightarrow> create_symlink link_target child_inode
                      | None \<Rightarrow>
                          if is_reg mode then create_regular data child_inode
                          else act_throw F_UnsupportedFiletype)
                   (\<lambda>(child_inode, ranges). register_child path parent_idx child_inode ranges)))))"

definition path_rank :: "string \<Rightarrow> nat" where
  "path_rank path = (if path = ''/'' then 0 else Suc (length path))"

lemma parent_of_rank: "parent_of path \<noteq> path \<Longrightarrow> path_rank (parent_of path) < path_rank path"
proof -
  assume ne: "parent_of path \<noteq> path"
  then have p: "path \<noteq> ''/''" by (auto simp: parent_of_def)
  show ?thesis
  proof (cases "parent_of path = ''/''")
    case True
    then show ?thesis using p by (simp add: path_rank_def)
  next
    case False
    then obtain i where "rfind (CHR ''/'') (trim_end_matches (CHR ''/'') path) = Some i"
      "parent_of path = take i (trim_end_matches (CHR ''/'') path)"
      using p by (auto simp: parent_of_def Let_def split: option.splits if_splits)
    then have "length (parent_of path) < length path"
      using rfind_bound [of "CHR ''/''" _ i] trim_end_length [of "CHR ''/''" path] by fastforce
    then show ?thesis using p by (simp add: path_rank_def)
  qed
qed

function create ::
  "stamp \<Rightarrow> string \<Rightarrow> u16 \<Rightarrow> string option \<Rightarrow> FileTimestamps option \<Rightarrow> bytes list option \<Rightarrow> u32 option \<Rightarrow> u32 option
     \<Rightarrow> (string \<times> bytes) list option \<Rightarrow> unit fmt" where
  "create now path mode link ts data uid gid xattrs =
     act_bind (act_result (validate_path_component_names path)) (\<lambda>_.
     act_bind (create_over_existing now path mode uid gid) (\<lambda>finished.
       if finished then act_return ()
       else
         act_seq
           (if parent_of path \<noteq> path
            then create now (parent_of path) (make_mode S_IFDIR 0x1ED) None None None None None None
            else act_return ())
           (create_child now path mode link ts data uid gid xattrs)))"
  by pat_completeness auto

termination
  by (relation "measure (\<lambda>(_, path, _). path_rank path)") (simp_all add: parent_of_rank)

declare create.simps [simp del]

section \<open>Queries, updates, hard links\<close>

definition exists_path :: "string \<Rightarrow> bool fmt" where
  "exists_path path = act_bind (tree_lookup path) (\<lambda>found. act_return (found \<noteq> None))"

definition path_is_dir :: "string \<Rightarrow> bool fmt" where
  "path_is_dir path =
     act_bind (tree_lookup path) (\<lambda>found.
       case found of
         Some idx \<Rightarrow>
           act_bind (tree_node idx) (\<lambda>nd.
           act_bind (inode_at (n_inode nd)) (\<lambda>inode. act_return (Inode_is_dir inode)))
       | None \<Rightarrow> act_return False)"

definition list_dir :: "string \<Rightarrow> string list fmt" where
  "list_dir path =
     act_bind (tree_lookup path) (\<lambda>found.
       case found of
         None \<Rightarrow> act_return []
       | Some idx \<Rightarrow>
           act_bind (tree_node idx) (\<lambda>nd.
           act_bind (act_gets (\<lambda>f. those (map (node (f_tree f)) (n_children nd)))) (\<lambda>children.
           act_bind (act_option children) (\<lambda>children. act_return (map n_name children)))))"

definition set_permissions :: "string \<Rightarrow> u16 \<Rightarrow> unit fmt" where
  "set_permissions path mode =
     act_bind (tree_lookup path) (\<lambda>found.
       case found of
         None \<Rightarrow> act_throw (F_NotFound path)
       | Some idx \<Rightarrow>
           act_bind (tree_node idx) (\<lambda>nd.
             inode_update (n_inode nd)
               (\<lambda>inode. inode\<lparr>i_mode := (i_mode inode AND TYPE_MASK) OR (mode AND NOT TYPE_MASK)\<rparr>)))"

definition set_owner :: "string \<Rightarrow> u32 \<Rightarrow> u32 \<Rightarrow> unit fmt" where
  "set_owner path uid gid =
     act_bind (tree_lookup path) (\<lambda>found.
       case found of
         None \<Rightarrow> act_throw (F_NotFound path)
       | Some idx \<Rightarrow>
           act_bind (tree_node idx) (\<lambda>nd.
             inode_update (n_inode nd) (\<lambda>inode. set_gid (set_uid inode uid) gid)))"

definition link :: "stamp \<Rightarrow> string \<Rightarrow> string \<Rightarrow> unit fmt" where
  "link now link_path target_path =
     act_bind (act_result (validate_path_component_names link_path)) (\<lambda>_.
     act_bind (tree_lookup target_path) (\<lambda>target.
       case target of
         None \<Rightarrow> act_throw (F_NotFound target_path)
       | Some target_idx \<Rightarrow>
     act_bind (tree_node target_idx) (\<lambda>target_node.
     act_bind (inode_at (n_inode target_node)) (\<lambda>target_inode.
       if Inode_is_dir target_inode then act_throw (F_CannotHardlinkDirectory target_path)
       else
     act_bind (tree_lookup link_path) (\<lambda>existing.
     act_bind (case existing of
                 None \<Rightarrow> act_return None
               | Some idx \<Rightarrow> act_bind (tree_node idx) (\<lambda>nd.
                   act_return (Some (case n_link nd of Some l \<Rightarrow> l | None \<Rightarrow> n_inode nd)))) (\<lambda>existing_target.
       if existing_target = Some (n_inode target_node) then act_return ()
       else
     act_bind (tree_lookup (parent_of link_path)) (\<lambda>parent.
       case parent of
         None \<Rightarrow> act_throw (F_NotFound (parent_of link_path))
       | Some parent_idx \<Rightarrow>
     act_bind (tree_node parent_idx) (\<lambda>parent_node.
     act_bind (inode_at (n_inode parent_node)) (\<lambda>parent_inode.
       if (ucast (i_links_count parent_inode) :: u32) \<ge> MAX_LINKS
       then act_throw (F_MaximumLinksExceeded (parent_of link_path))
       else
     act_seq (act_when (existing_target \<noteq> None) (unlink now link_path False))
     (act_seq (inode_update (n_inode target_node) (\<lambda>inode. inode\<lparr>i_links_count := i_links_count inode + 1\<rparr>))
       (tree_add_child parent_idx
          \<lparr>n_inode = ROOT_INODE, n_name = basename link_path, n_children = [], n_parent = None,
           n_blocks = None, n_additional_blocks = [], n_link = Some (n_inode target_node)\<rparr>)))))))))))"

section \<open>Construction\<close>

definition fresh_formatter :: "stamp \<Rightarrow> FormatOptions \<Rightarrow> Formatter" where
  "fresh_formatter now opts =
     \<lparr>f_file = set_len (unat (fo_size opts)) empty_file, f_block_size = fo_block_size opts,
      f_size = fo_size opts,
      f_inodes = [Inode_default, root_inode now] @ replicate 8 Inode_default,
      f_tree = FileTree_new ROOT_INODE ''/'', f_deleted_blocks = [], f_deferred_blocks = (\<lambda>_. None),
      f_uuid = fo_uuid opts, f_label = fo_label opts\<rparr>"

definition with_options :: "stamp \<Rightarrow> FormatOptions \<Rightarrow> (FormatError + Formatter) option" where
  "with_options now opts =
     (if fo_block_size opts \<noteq> 4096 then Some (Err (F_UnsupportedBlockSize (fo_block_size opts)))
      else
        case (case fo_label opts of Some label \<Rightarrow> validate_label label | None \<Rightarrow> Ok ()) of
          Inl e \<Rightarrow> Some (Err e)
        | Inr _ \<Rightarrow>
            let fmt = fresh_formatter now opts;
                fmt = seek_to_block (group_descriptor_blocks fmt + 1) fmt
            in map_option (\<lambda>(r, fmt). bind_result r (\<lambda>_. Ok fmt))
                 (create now ''/lost+found'' (make_mode S_IFDIR 0x1C0) None None None None None None fmt))"

definition Formatter_new :: "stamp \<Rightarrow> u32 \<Rightarrow> u64 \<Rightarrow> (FormatError + Formatter) option" where
  "Formatter_new now block_size min_disk_size =
     with_options now \<lparr>fo_block_size = block_size, fo_size = min_disk_size, fo_uuid = None, fo_label = None\<rparr>"

end
