(* ===== verification/Ext4_Commit.thy ===== *)
theory Ext4_Commit
  imports Ext4_Formatter Ext4_Dir Ext4_Superblock Ext4_Checksum
begin

text \<open>
  \<open>common/ext4/src/formatter.rs\<close>, third part: \<open>close\<close> and what it calls.  The directories are
  written in breadth-first order, then the resize inode, the inode table, the bitmaps, the group
  descriptors and the superblock with its copies.

  Bitmap loops run over indices below \<open>8 * block_size\<close>, so the byte index is in bounds.
\<close>

section \<open>Directories\<close>

text \<open>The work list of \<open>commit_directories\<close>; hard-link nodes are not descended into.\<close>

partial_function (option) bfs_order ::
  "FileTree \<Rightarrow> (nat option \<times> nat) list \<Rightarrow> (nat option \<times> nat) list \<Rightarrow> (nat option \<times> nat) list option" where
  "bfs_order t queue order =
     (case queue of
        [] \<Rightarrow> Some order
      | item # rest \<Rightarrow>
          (case node t (snd item) of
             None \<Rightarrow> None
           | Some nd \<Rightarrow>
               if n_link nd \<noteq> None then bfs_order t rest (order @ [item])
               else bfs_order t (rest @ map (\<lambda>c. (Some (snd item), c)) (n_children nd)) (order @ [item])))"

text \<open>One entry of a directory, or nothing when the inode it names was deleted.\<close>

definition child_item :: "FileTreeNode \<Rightarrow> dir_item option fmt" where
  "child_item nd =
     (case n_link nd of
        Some linked_ino \<Rightarrow>
          act_bind (inode_at linked_ino) (\<lambda>linked.
            if i_links_count linked = 0 then act_return None
            else act_bind (inode_at (max (n_inode nd) 1)) (\<lambda>inode.
              act_return (Some (n_name nd, n_inode nd, i_mode inode, Some linked_ino, Some (i_mode linked)))))
      | None \<Rightarrow>
          act_bind (inode_at (n_inode nd)) (\<lambda>own.
            if i_links_count own = 0 then act_return None
            else act_bind (inode_at (max (n_inode nd) 1)) (\<lambda>inode.
              act_return (Some (n_name nd, n_inode nd, i_mode inode, None, None)))))"

primrec child_items :: "FileTreeNode list \<Rightarrow> dir_item list fmt" where
  "child_items [] = act_return []"
| "child_items (nd # nds) =
     act_bind (child_item nd) (\<lambda>item.
     act_bind (child_items nds) (\<lambda>items.
       act_return (case item of None \<Rightarrow> items | Some e \<Rightarrow> e # items)))"

definition dir_block_bytes :: "dir_item list \<Rightarrow> u32 \<Rightarrow> bytes option" where
  "dir_block_bytes items block_size =
     do {
       (out, left) \<leftarrow> write_dir_entries items block_size (sint block_size);
       (fin, left) \<leftarrow> finish_dir_entry_block left block_size;
       Some (out @ fin)
     }"

definition commit_directory :: "nat option \<times> nat \<Rightarrow> unit fmt" where
  "commit_directory item =
     (case item of (parent_opt, node_idx) \<Rightarrow>
      act_bind (tree_node node_idx) (\<lambda>nd.
      act_bind (inode_at (n_inode nd)) (\<lambda>inode.
        if i_links_count inode = 0 then act_return ()
        else if n_link nd \<noteq> None then act_return ()
        else if \<not> Inode_is_dir inode then act_return ()
        else
      act_bind (case parent_opt of
                  Some pidx \<Rightarrow> act_bind (tree_node pidx) (\<lambda>p. act_return (n_inode p))
                | None \<Rightarrow> act_return (n_inode nd)) (\<lambda>parent_ino.
      act_bind (inode_at parent_ino) (\<lambda>parent_inode.
      act_bind (act_gets (\<lambda>f. those (map (node (f_tree f)) (n_children nd)))) (\<lambda>children.
      act_bind (act_option children) (\<lambda>children.
      act_bind (child_items (sort_key n_inode children)) (\<lambda>entries.
      act_bind (act_gets f_block_size) (\<lambda>block_size.
      act_bind (act_option (dir_block_bytes
          ([(''.'', n_inode nd, i_mode inode, None, None), (''..'', parent_ino, i_mode parent_inode, None, None)]
            @ entries) block_size)) (\<lambda>dir_buf.
      act_bind (payload_aligned dir_buf) (\<lambda>ranges.
      act_seq (inode_update (n_inode nd) (\<lambda>i. set_file_size i (of_nat (length dir_buf))))
     (act_seq (act_state (\<lambda>f. map_option (\<lambda>t. (f\<lparr>f_tree := t\<rparr>, ()))
                 (node_mut (f_tree f) node_idx (\<lambda>nd. assign_node_ranges nd ranges))))
     (act_bind (inode_at (n_inode nd)) (\<lambda>inode.
      act_bind (store_extents inode ranges) (\<lambda>inode.
        inode_update (n_inode nd) (\<lambda>_. inode))))))))))))))))"

definition commit_directories :: "unit fmt" where
  "commit_directories =
     act_bind (act_gets (\<lambda>f. bfs_order (f_tree f) [(None, t_root (f_tree f))] [])) (\<lambda>order.
     act_bind (act_option order) (act_each commit_directory))"

section \<open>Inode table\<close>

text \<open>One buffer is reused for all inodes.\<close>

fun write_inodes :: "Inode list \<Rightarrow> bytes \<Rightarrow> File \<Rightarrow> File option" where
  "write_inodes [] inode_buf file = Some file"
| "write_inodes (inode # inodes) inode_buf file =
     (case Inode_write_to inode inode_buf of
        None \<Rightarrow> None
      | Some inode_buf \<Rightarrow> write_inodes inodes inode_buf (write_all inode_buf file))"

definition write_zeros :: "u64 \<Rightarrow> u32 \<Rightarrow> File \<Rightarrow> File" where
  "write_zeros rest block_size file =
     (if rest > 0 then
        let zero_block = replicate (unat block_size) 0;
            full_blocks = rest div ucast block_size;
            file = (write_all zero_block ^^ unat full_blocks) file;
            remainder = unat (rest mod ucast block_size)
        in if remainder > 0 then write_all (replicate remainder 0) file else file
      else file)"

definition commit_inode_table :: "u32 \<Rightarrow> u32 \<Rightarrow> u64 fmt" where
  "commit_inode_table block_groups inodes_per_group =
     act_seq (act_modify align_to_block)
    (act_bind (act_gets (\<lambda>f. pos f div ucast (f_block_size f))) (\<lambda>inode_table_offset.
     act_seq (act_state (\<lambda>f.
         map_option (\<lambda>file. (f\<lparr>f_file := file\<rparr>, ()))
           (write_inodes (f_inodes f) (replicate Inode_SIZE 0) (f_file f))))
    (act_seq (act_modify (\<lambda>f.
         let table_size = (ucast INODE_SIZE :: u64) * ucast block_groups * ucast inodes_per_group;
             written = of_nat (length (f_inodes f)) * ucast INODE_SIZE
         in f\<lparr>f_file := write_zeros (table_size - written) (f_block_size f) (f_file f)\<rparr>))
    (act_return inode_table_offset))))"

section \<open>Resize inode\<close>

definition RESIZE_INODE_NUMBER :: u32 where "RESIZE_INODE_NUMBER = 7"
definition EXT2_DIND_BLOCK :: nat where "EXT2_DIND_BLOCK = 13"
definition EXT2_NDIR_BLOCKS :: u64 where "EXT2_NDIR_BLOCKS = 12"

definition allocate_resize_inode_dind_block :: "u32 fmt" where
  "allocate_resize_inode_dind_block =
     act_bind (act_gets f_block_size) (\<lambda>block_size.
     act_bind (payload_aligned (replicate (unat block_size) 0)) (\<lambda>ranges.
       case ranges of
         [] \<Rightarrow> act_throw F_InsufficientSpaceForGroupDescriptorBlocks
       | rng # _ \<Rightarrow> act_return (br_start rng)))"

definition resize_inode :: "stamp \<Rightarrow> u32 \<Rightarrow> u32 \<Rightarrow> u32 \<Rightarrow> u32 \<Rightarrow> Inode" where
  "resize_inode now block_size dind_block reserved_gdt_blocks backup_group_count =
     (let (time_lo, time_extra) = now;
          addr_per_block = (ucast (block_size div 4) :: u64);
          inode_size = (addr_per_block * addr_per_block + addr_per_block + EXT2_NDIR_BLOCKS) * ucast block_size;
          owned_blocks = 1 + reserved_gdt_blocks * (1 + backup_group_count);
          inode = Inode_default\<lparr>
            i_mode := S_IFREG OR 0x180, i_links_count := 1, i_extra_isize := EXTRA_ISIZE,
            i_atime := time_lo, i_ctime := time_lo, i_mtime := time_lo, i_crtime := time_lo,
            i_atime_extra := time_extra, i_ctime_extra := time_extra,
            i_mtime_extra := time_extra, i_crtime_extra := time_extra\<rparr>;
          inode = set_file_size inode inode_size;
          inode = inode\<lparr>i_blocks_lo := owned_blocks * (block_size div 512)\<rparr>
      in inode\<lparr>i_block := put_u32 (i_block inode) (EXT2_DIND_BLOCK * 4) dind_block\<rparr>)"

definition configure_resize_inode :: "stamp \<Rightarrow> u32 \<Rightarrow> u32 \<Rightarrow> u32 \<Rightarrow> unit fmt" where
  "configure_resize_inode now dind_block reserved_gdt_blocks backup_group_count =
     act_bind (act_gets f_block_size) (\<lambda>block_size.
       inode_update RESIZE_INODE_NUMBER
         (\<lambda>_. resize_inode now block_size dind_block reserved_gdt_blocks backup_group_count))"

text \<open>A slice write of one little-endian word; out of bounds panics.\<close>

definition put_u32_at :: "bytes \<Rightarrow> nat \<Rightarrow> u32 \<Rightarrow> bytes option" where
  "put_u32_at buf off v = (if off + 4 \<le> length buf then Some (put_u32 buf off v) else None)"

fun backup_gdt_pointers :: "u32 \<Rightarrow> u32 \<Rightarrow> nat \<Rightarrow> u32 list \<Rightarrow> bytes \<Rightarrow> bytes option" where
  "backup_gdt_pointers gdt_blk blocks_per_grp idx [] gdt_buf = Some gdt_buf"
| "backup_gdt_pointers gdt_blk blocks_per_grp idx (grp # groups) gdt_buf =
     (case put_u32_at gdt_buf (idx * 4) (gdt_blk + grp * blocks_per_grp) of
        None \<Rightarrow> None
      | Some gdt_buf \<Rightarrow> backup_gdt_pointers gdt_blk blocks_per_grp (Suc idx) groups gdt_buf)"

primrec reserved_gdt_loop :: "nat \<Rightarrow> u32 \<Rightarrow> u32 \<Rightarrow> u32 list \<Rightarrow> bytes \<Rightarrow> bytes fmt" where
  "reserved_gdt_loop 0 rsv_off descriptor_blocks groups dind_buf = act_return dind_buf"
| "reserved_gdt_loop (Suc k) rsv_off descriptor_blocks groups dind_buf =
     (let gdt_blk = 1 + descriptor_blocks + rsv_off;
          dind_index = descriptor_blocks + rsv_off
      in act_bind (act_option (put_u32_at dind_buf (unat dind_index * 4) gdt_blk)) (\<lambda>dind_buf.
         act_bind (act_gets (\<lambda>f. backup_gdt_pointers gdt_blk (blocks_per_group f) 0 groups
                     (replicate (unat (f_block_size f)) 0))) (\<lambda>gdt_buf.
         act_bind (act_option gdt_buf) (\<lambda>gdt_buf.
         act_seq (act_modify (\<lambda>f. let f = seek_to_block gdt_blk f
                                   in f\<lparr>f_file := write_all gdt_buf (f_file f)\<rparr>))
           (reserved_gdt_loop k (rsv_off + 1) descriptor_blocks groups dind_buf)))))"

definition write_resize_inode_blocks :: "u32 \<Rightarrow> u32 \<Rightarrow> u32 \<Rightarrow> u32 list \<Rightarrow> unit fmt" where
  "write_resize_inode_blocks dind_block descriptor_blocks reserved_gdt_blocks groups =
     act_bind (act_gets (\<lambda>f. replicate (unat (f_block_size f)) 0)) (\<lambda>dind_buf.
     act_bind (reserved_gdt_loop (unat reserved_gdt_blocks) 0 descriptor_blocks groups dind_buf) (\<lambda>dind_buf.
       act_modify (\<lambda>f.
         let f = seek_to_block dind_block f;
             f = f\<lparr>f_file := write_all dind_buf (f_file f)\<rparr>
         in seek_to_block (dind_block + 1) f)))"

section \<open>Block group layout\<close>

definition layout_group_count :: "Formatter \<Rightarrow> u32 \<Rightarrow> u32 \<Rightarrow> u32 \<Rightarrow> u32 option" where
  "layout_group_count f blocks inodes ipg =
     (let inode_blocks_per_group = ipg * INODE_SIZE div f_block_size f;
          data_blocks_per_group = blocks_per_group f - inode_blocks_per_group - 2;
          min_blocks = saturating_sub inodes 1 div ipg * data_blocks_per_group + 1;
          effective_blocks = max blocks min_blocks
      in if ipg = 0 then None else div_ceil effective_blocks data_blocks_per_group)"

function layout_loop ::
  "Formatter \<Rightarrow> u32 \<Rightarrow> u32 \<Rightarrow> nat \<Rightarrow> nat \<Rightarrow> u32 \<Rightarrow> u32 \<Rightarrow> (u32 \<times> u32) option" where
  "layout_loop f blocks inodes inc ipg best_groups best_ipg =
     (if ipg \<le> unat (max_inodes_per_group f) then
        if inc = 0 then None
        else
          case layout_group_count f blocks inodes (of_nat ipg) of
            None \<Rightarrow> None
          | Some g \<Rightarrow>
              if g < best_groups then layout_loop f blocks inodes inc (ipg + inc) g (of_nat ipg)
              else layout_loop f blocks inodes inc (ipg + inc) best_groups best_ipg
      else Some (best_groups, best_ipg))"
  by pat_completeness auto

termination
  by (relation "measure (\<lambda>(f, _, _, _, ipg, _, _). Suc (unat (max_inodes_per_group f)) - ipg)") auto

declare layout_loop.simps [simp del]

definition optimize_block_group_layout :: "Formatter \<Rightarrow> u32 \<Rightarrow> u32 \<Rightarrow> (u32 \<times> u32) option" where
  "optimize_block_group_layout f blocks inodes =
     (let inc = unat (f_block_size f * 512 div INODE_SIZE)
      in layout_loop f blocks inodes inc inc (- 1) (of_nat inc))"

section \<open>Bitmaps\<close>

definition bm_get :: "bytes \<Rightarrow> nat \<Rightarrow> bool" where
  "bm_get bm i \<longleftrightarrow> drop_bit (i mod 8) (bm ! (i div 8)) AND 1 \<noteq> 0"

definition bm_set :: "nat \<Rightarrow> bytes \<Rightarrow> bytes" where
  "bm_set i bm = bm[i div 8 := bm ! (i div 8) OR push_bit (i mod 8) 1]"

definition bm_clear :: "nat \<Rightarrow> bytes \<Rightarrow> bytes" where
  "bm_clear i bm = bm[i div 8 := bm ! (i div 8) AND NOT (push_bit (i mod 8) 1)]"

text \<open>The block bitmap of a group before metadata and deletions, with the number of used blocks.\<close>

definition data_bitmap :: "Formatter \<Rightarrow> u32 \<Rightarrow> u32 \<Rightarrow> bytes \<times> u32" where
  "data_bitmap f grp data_size =
     (let bitmap = replicate (unat (f_block_size f)) 0;
          group_start = grp * blocks_per_group f;
          group_end = group_start + blocks_per_group f
      in if group_end \<le> data_size then (replicate (unat (f_block_size f)) 0xFF, blocks_per_group f)
         else if group_start < data_size then
           let used = data_size - group_start
           in (fold bm_set [0..<unat used] bitmap, used)
         else (bitmap, 0))"

fun mark_metadata :: "nat list \<Rightarrow> bytes \<times> u32 \<Rightarrow> bytes \<times> u32" where
  "mark_metadata [] acc = acc"
| "mark_metadata (i # is) (bitmap, used_blocks) =
     mark_metadata is
       (bm_set i bitmap, if bm_get bitmap i then used_blocks else used_blocks + 1)"

definition range_numbers :: "BlockRange \<Rightarrow> nat list" where
  "range_numbers rng = [unat (br_start rng)..<unat (br_end rng)]"

fun free_deleted :: "u32 \<Rightarrow> u32 \<Rightarrow> nat list \<Rightarrow> bytes \<times> u32 \<Rightarrow> bytes \<times> u32" where
  "free_deleted blocks_per_grp grp [] acc = acc"
| "free_deleted blocks_per_grp grp (blk # blks) (bitmap, used_blocks) =
     (if blk div unat blocks_per_grp = unat grp then
        let j = blk mod unat blocks_per_grp
        in free_deleted blocks_per_grp grp blks
             (bm_clear j bitmap, if bm_get bitmap j then used_blocks - 1 else used_blocks)
      else free_deleted blocks_per_grp grp blks (bitmap, used_blocks))"

definition block_bitmap :: "Formatter \<Rightarrow> u32 \<Rightarrow> u32 \<Rightarrow> bytes \<times> u32" where
  "block_bitmap f grp data_size =
     free_deleted (blocks_per_group f) grp (concat (map range_numbers (f_deleted_blocks f)))
       (mark_metadata [0..<unat (min (static_metadata_blocks_in_group f grp) (blocks_per_group f))]
         (data_bitmap f grp data_size))"

record InodeUsage =
  iu_bitmap :: bytes
  iu_used :: u32
  iu_last :: u32
  iu_dirs :: u32

definition mark_inode :: "Formatter \<Rightarrow> u32 \<Rightarrow> u32 \<Rightarrow> nat \<Rightarrow> InodeUsage \<Rightarrow> InodeUsage" where
  "mark_inode f grp inodes_per_group i usage =
     (let ino = 1 + grp * inodes_per_group + of_nat i in
      if ino > of_nat (length (f_inodes f)) then usage
      else
        let inode = f_inodes f ! unat (ino - 1) in
        if ino > 10 \<and> i_links_count inode = 0 then usage
        else usage\<lparr>iu_bitmap := bm_set i (iu_bitmap usage), iu_used := iu_used usage + 1,
                   iu_last := of_nat i + 1,
                   iu_dirs := (if Inode_is_dir inode then iu_dirs usage + 1 else iu_dirs usage)\<rparr>)"

definition inode_bitmap :: "Formatter \<Rightarrow> u32 \<Rightarrow> u32 \<Rightarrow> InodeUsage" where
  "inode_bitmap f grp inodes_per_group =
     (let usage = fold (mark_inode f grp inodes_per_group) [0..<unat inodes_per_group]
            \<lparr>iu_bitmap = replicate (unat (f_block_size f)) 0, iu_used = 0, iu_last = 0, iu_dirs = 0\<rparr>
      in usage\<lparr>iu_bitmap := fold (\<lambda>i bm. bm[i := 0xFF])
                 [unat (inodes_per_group div 8)..<unat (f_block_size f)] (iu_bitmap usage)\<rparr>)"

section \<open>Group descriptors\<close>

record Totals =
  to_descriptors :: "GroupDescriptor list"
  to_used_blocks :: u32
  to_used_inodes :: u32

definition data_group_descriptor :: "Formatter \<Rightarrow> u32 \<Rightarrow> u32 \<Rightarrow> u32 \<Rightarrow> u32 \<Rightarrow> u32 \<Rightarrow> u32 \<Rightarrow> InodeUsage \<Rightarrow> GroupDescriptor" where
  "data_group_descriptor f grp inodes_per_group bitmap_offset inode_table_offset inode_table_size_per_group
       used_blocks usage =
     (let free_blocks = if blocks_per_group f \<ge> used_blocks then blocks_per_group f - used_blocks else 0;
          block_bitmap_lo = bitmap_offset + 2 * grp
      in \<lparr>gd_block_bitmap_lo = block_bitmap_lo, gd_inode_bitmap_lo = block_bitmap_lo + 1,
          gd_inode_table_lo = inode_table_offset + grp * inode_table_size_per_group,
          gd_free_blocks_count_lo = ucast free_blocks,
          gd_free_inodes_count_lo = ucast (inodes_per_group - iu_used usage),
          gd_used_dirs_count_lo = ucast (iu_dirs usage), gd_flags = 0, gd_exclude_bitmap_lo = 0,
          gd_block_bitmap_csum_lo = 0, gd_inode_bitmap_csum_lo = 0,
          gd_itable_unused_lo = ucast (inodes_per_group - iu_last usage), gd_checksum = 0\<rparr>)"

primrec data_groups :: "nat \<Rightarrow> u32 \<Rightarrow> u32 \<Rightarrow> u32 \<Rightarrow> u32 \<Rightarrow> u32 \<Rightarrow> u32 \<Rightarrow> Totals \<Rightarrow> Totals fmt" where
  "data_groups 0 grp inodes_per_group data_size bitmap_offset inode_table_offset inode_table_size_per_group tot =
     act_return tot"
| "data_groups (Suc k) grp inodes_per_group data_size bitmap_offset inode_table_offset inode_table_size_per_group tot =
     act_bind (act_gets (\<lambda>f. (block_bitmap f grp data_size, inode_bitmap f grp inodes_per_group))) (\<lambda>((bitmap, used_blocks), usage).
     act_seq (act_modify (\<lambda>f. f\<lparr>f_file := write_all (bitmap @ iu_bitmap usage) (f_file f)\<rparr>))
    (act_bind (act_gets (\<lambda>f. data_group_descriptor f grp inodes_per_group bitmap_offset inode_table_offset
                 inode_table_size_per_group used_blocks usage)) (\<lambda>gd.
     data_groups k (grp + 1) inodes_per_group data_size bitmap_offset inode_table_offset inode_table_size_per_group
       \<lparr>to_descriptors = to_descriptors tot @ [gd], to_used_blocks = to_used_blocks tot + used_blocks,
        to_used_inodes = to_used_inodes tot + iu_used usage\<rparr>)))"

definition empty_inode_bitmap :: "Formatter \<Rightarrow> u32 \<Rightarrow> bytes" where
  "empty_inode_bitmap f inodes_per_group =
     fold bm_clear [0..<unat (ucast inodes_per_group :: u16)] (replicate (unat (blocks_per_group f) div 8) 0xFF)"

definition blocks_in_empty_group :: "Formatter \<Rightarrow> u32 \<Rightarrow> u32 \<Rightarrow> u32" where
  "blocks_in_empty_group f grp total_groups =
     (if grp = total_groups - 1 then
        let rem = (f_size f div ucast (f_block_size f)) mod ucast (blocks_per_group f)
        in if rem = 0 then blocks_per_group f else ucast rem
      else blocks_per_group f)"

definition empty_group_descriptor :: "Formatter \<Rightarrow> u32 \<Rightarrow> u32 \<Rightarrow> u32 \<Rightarrow> u32 \<Rightarrow> GroupDescriptor \<times> u32 \<times> u32" where
  "empty_group_descriptor f grp total_groups inodes_per_group inode_table_size_per_group =
     (let blocks_in_group = blocks_in_empty_group f grp total_groups;
          group_start = grp * blocks_per_group f;
          metadata_blocks = min (static_metadata_blocks_in_group f grp) blocks_in_group;
          used_empty_blocks = metadata_blocks + inode_table_size_per_group + 2;
          it_offset = group_start + metadata_blocks;
          bb_offset = it_offset + inode_table_size_per_group;
          ib_offset = bb_offset + 1;
          flags = if grp \<noteq> total_groups - 1 then INODE_UNINIT OR BLOCK_UNINIT else INODE_UNINIT
      in (\<lparr>gd_block_bitmap_lo = bb_offset, gd_inode_bitmap_lo = ib_offset, gd_inode_table_lo = it_offset,
           gd_free_blocks_count_lo = ucast (saturating_sub blocks_in_group used_empty_blocks),
           gd_free_inodes_count_lo = ucast inodes_per_group, gd_used_dirs_count_lo = 0, gd_flags = flags,
           gd_exclude_bitmap_lo = 0, gd_block_bitmap_csum_lo = 0, gd_inode_bitmap_csum_lo = 0,
           gd_itable_unused_lo = ucast inodes_per_group, gd_checksum = 0\<rparr>,
          used_empty_blocks, blocks_in_group))"

definition empty_block_bitmap :: "Formatter \<Rightarrow> u32 \<Rightarrow> u32 \<Rightarrow> u32 \<Rightarrow> u32 \<Rightarrow> bytes" where
  "empty_block_bitmap f grp total_groups used_empty_blocks blocks_in_group =
     (let bm = fold bm_set [0..<unat (min used_empty_blocks blocks_in_group)]
                 (replicate (unat (blocks_per_group f) div 8) 0)
      in if grp = total_groups - 1 \<and> blocks_in_group < blocks_per_group f
         then fold bm_set [unat blocks_in_group..<unat (blocks_per_group f)] bm else bm)"

primrec empty_groups :: "nat \<Rightarrow> u32 \<Rightarrow> u32 \<Rightarrow> u32 \<Rightarrow> u32 \<Rightarrow> Totals \<Rightarrow> Totals fmt" where
  "empty_groups 0 grp total_groups inodes_per_group inode_table_size_per_group tot = act_return tot"
| "empty_groups (Suc k) grp total_groups inodes_per_group inode_table_size_per_group tot =
     act_bind (act_gets (\<lambda>f. (empty_group_descriptor f grp total_groups inodes_per_group inode_table_size_per_group,
                               empty_inode_bitmap f inodes_per_group)))
       (\<lambda>((gd, used_empty_blocks, blocks_in_group), inode_bm).
     act_seq (act_modify (\<lambda>f.
         let block_bm = empty_block_bitmap f grp total_groups used_empty_blocks blocks_in_group;
             f = seek_to_block (gd_block_bitmap_lo gd) f
         in f\<lparr>f_file := write_all inode_bm (write_all block_bm (f_file f))\<rparr>))
       (empty_groups k (grp + 1) total_groups inodes_per_group inode_table_size_per_group
          \<lparr>to_descriptors = to_descriptors tot @ [gd],
           to_used_blocks = to_used_blocks tot + min used_empty_blocks blocks_in_group,
           to_used_inodes = to_used_inodes tot\<rparr>))"

primrec descriptor_table :: "bytes \<Rightarrow> nat \<Rightarrow> GroupDescriptor list \<Rightarrow> bytes \<Rightarrow> bytes option" where
  "descriptor_table uuid group_nr [] buf = Some buf"
| "descriptor_table uuid group_nr (gd # gds) buf =
     (case group_descriptor_checksum uuid (of_nat group_nr) gd of
        None \<Rightarrow> None
      | Some csum \<Rightarrow>
          (case write_slice GroupDescriptor_SIZE (GroupDescriptor_write_to (gd\<lparr>gd_checksum := csum\<rparr>))
                  (group_nr * GroupDescriptor_SIZE) buf of
             None \<Rightarrow> None
           | Some buf \<Rightarrow> descriptor_table uuid (Suc group_nr) gds buf))"

section \<open>Superblock\<close>

definition compat_EXT_ATTR :: u32 where "compat_EXT_ATTR = 0x8"
definition compat_RESIZE_INODE :: u32 where "compat_RESIZE_INODE = 0x10"
definition incompat_FILETYPE :: u32 where "incompat_FILETYPE = 0x2"
definition incompat_EXTENTS :: u32 where "incompat_EXTENTS = 0x40"
definition incompat_FLEX_BG :: u32 where "incompat_FLEX_BG = 0x200"
definition ro_compat_SPARSE_SUPER :: u32 where "ro_compat_SPARSE_SUPER = 0x1"
definition ro_compat_LARGE_FILE :: u32 where "ro_compat_LARGE_FILE = 0x2"
definition ro_compat_HUGE_FILE :: u32 where "ro_compat_HUGE_FILE = 0x8"
definition ro_compat_GDT_CSUM :: u32 where "ro_compat_GDT_CSUM = 0x10"
definition ro_compat_EXTRA_ISIZE :: u32 where "ro_compat_EXTRA_ISIZE = 0x40"

text \<open>\<open>u32::trailing_zeros\<close>.\<close>

definition trailing_zeros :: "u32 \<Rightarrow> nat" where
  "trailing_zeros w = length (takeWhile (\<lambda>i. \<not> bit w i) [0..<32])"

definition image_superblock :: "Formatter \<Rightarrow> bytes \<Rightarrow> u32 \<Rightarrow> u32 \<Rightarrow> u32 \<Rightarrow> u32 \<Rightarrow> u32 \<Rightarrow> SuperBlock" where
  "image_superblock f uuid_bytes total_groups inodes_per_group total_used_blocks total_used_inodes reserved_gdt_blocks =
     (let computed_inodes = (ucast total_groups :: u64) * ucast inodes_per_group;
          blocks_count = (ucast total_groups :: u64) * ucast (blocks_per_group f);
          blocks_count = (if blocks_count < ucast total_used_blocks then ucast total_used_blocks else blocks_count);
          total_free_blocks = saturating_sub blocks_count (ucast total_used_blocks);
          free_inodes = ucast computed_inodes - total_used_inodes;
          log_bs = of_nat (trailing_zeros (f_block_size f div 1024))
      in SuperBlock_default\<lparr>
           sb_inodes_count := ucast computed_inodes,
           sb_blocks_count_lo := ucast blocks_count,
           sb_blocks_count_hi := ucast (drop_bit 32 blocks_count),
           sb_free_blocks_count_lo := ucast total_free_blocks,
           sb_free_blocks_count_hi := ucast (drop_bit 32 total_free_blocks),
           sb_free_inodes_count := free_inodes,
           sb_first_data_block := 0,
           sb_log_block_size := log_bs,
           sb_log_cluster_size := log_bs,
           sb_blocks_per_group := blocks_per_group f,
           sb_clusters_per_group := blocks_per_group f,
           sb_inodes_per_group := inodes_per_group,
           sb_magic := SUPERBLOCK_MAGIC,
           sb_state := 1,
           sb_errors := 1,
           sb_creator_os := 0,
           sb_rev_level := 1,
           sb_first_ino := FIRST_INODE,
           sb_lpf_ino := LOST_AND_FOUND_INODE,
           sb_inode_size := ucast INODE_SIZE,
           sb_feature_compat := compat_EXT_ATTR OR compat_RESIZE_INODE,
           sb_feature_incompat := incompat_FILETYPE OR incompat_EXTENTS OR incompat_FLEX_BG,
           sb_feature_ro_compat := ro_compat_LARGE_FILE OR ro_compat_HUGE_FILE OR ro_compat_SPARSE_SUPER
             OR ro_compat_EXTRA_ISIZE OR ro_compat_GDT_CSUM,
           sb_reserved_gdt_blocks := ucast reserved_gdt_blocks,
           sb_min_extra_isize := EXTRA_ISIZE,
           sb_want_extra_isize := EXTRA_ISIZE,
           sb_log_groups_per_flex := 31,
           sb_uuid := uuid_bytes,
           sb_volume_name := (case f_label f of
               Some label \<Rightarrow> put_bytes (sb_volume_name SuperBlock_default) 0 (str_bytes label)
             | None \<Rightarrow> sb_volume_name SuperBlock_default)\<rparr>)"

definition file_write :: "bytes \<Rightarrow> Formatter \<Rightarrow> Formatter" where
  "file_write bs f = f\<lparr>f_file := write_all bs (f_file f)\<rparr>"

definition write_superblock :: "SuperBlock \<Rightarrow> bytes fmt" where
  "write_superblock sb =
     act_seq (act_modify (\<lambda>f. file_write (replicate 1024 0) (seek_to_block 0 f)))
    (act_bind (act_option (SuperBlock_write_to sb (replicate SuperBlock_SIZE 0))) (\<lambda>sb_buf.
     act_seq (act_modify (\<lambda>f. file_write (replicate 2048 0) (file_write sb_buf f)))
       (act_return sb_buf)))"

primrec write_backups :: "u32 list \<Rightarrow> SuperBlock \<Rightarrow> bytes \<Rightarrow> bytes \<Rightarrow> unit fmt" where
  "write_backups [] sb sb_buf gd_table_buf = act_return ()"
| "write_backups (grp # groups) sb sb_buf gd_table_buf =
     act_bind (act_option (SuperBlock_write_to (sb\<lparr>sb_block_group_nr := ucast grp\<rparr>) sb_buf)) (\<lambda>sb_buf.
     act_seq (act_modify (\<lambda>f.
         let group_start = grp * blocks_per_group f;
             f = file_write sb_buf (seek_to_block group_start f)
         in file_write gd_table_buf (seek_to_block (group_start + 1) f)))
       (write_backups groups sb sb_buf gd_table_buf))"

section \<open>close\<close>

definition grow_image :: "u64 \<Rightarrow> Formatter \<Rightarrow> Formatter" where
  "grow_image sz f =
     (if f_size f < sz then f\<lparr>f_size := sz, f_file := set_len (unat sz) (f_file f)\<rparr> else f)"

text \<open>The size of the image is raised until it covers the data and ends at a group boundary.\<close>

definition settle_size :: "u32 \<Rightarrow> u32 \<Rightarrow> Formatter \<Rightarrow> Formatter" where
  "settle_size block_groups data_size f =
     (let bpg = (ucast (blocks_per_group f) :: u64);
          bs = (ucast (f_block_size f) :: u64);
          minimum_disk_size = if block_groups = 1 then blocks_per_group f
                              else (block_groups - 1) * blocks_per_group f + 1;
          f = grow_image (ucast minimum_disk_size * bs) f;
          min_groups = (ucast data_size - 1) div bpg + 1;
          f = grow_image (min_groups * bpg * bs) f;
          total_groups = (f_size f div bs - 1) div bpg + 1
      in grow_image (total_groups * bpg * bs) f)"

definition settled_groups :: "Formatter \<Rightarrow> u32" where
  "settled_groups f =
     ucast ((f_size f div ucast (f_block_size f) - 1) div ucast (blocks_per_group f) + 1)"

definition close_resize :: "stamp \<Rightarrow> u32 \<Rightarrow> u32 \<Rightarrow> u32 \<Rightarrow> (u32 \<times> u32 \<times> u32 list) fmt" where
  "close_resize now dind_block allocated total_groups =
     act_bind (act_gets (\<lambda>f. (descriptor_blocks_for_groups f total_groups,
                               group_descriptor_area_blocks_for_groups f total_groups)))
       (\<lambda>(gd_block_count, gd_area_blocks).
        if gd_area_blocks > allocated then act_throw F_InsufficientSpaceForGroupDescriptorBlocks
        else
          let reserved_gdt_blocks = gd_area_blocks - gd_block_count;
              backups = backup_groups total_groups
          in act_seq (configure_resize_inode now dind_block reserved_gdt_blocks (of_nat (length backups)))
            (act_seq (write_resize_inode_blocks dind_block gd_block_count reserved_gdt_blocks backups)
              (act_return (gd_block_count, reserved_gdt_blocks, backups))))"

definition close_metadata ::
  "bytes \<Rightarrow> u32 \<Rightarrow> u32 \<Rightarrow> u32 \<Rightarrow> u32 \<Rightarrow> u32 \<times> u32 \<times> u32 list \<Rightarrow> unit fmt" where
  "close_metadata new_uuid block_groups inodes_per_group data_size total_groups resize =
     (case resize of (gd_block_count, reserved_gdt_blocks, backups) \<Rightarrow>
      act_bind (commit_inode_table block_groups inodes_per_group) (\<lambda>inode_table_offset.
      act_seq (act_modify align_to_block)
     (act_bind (act_gets (\<lambda>f. (current_block f, inodes_per_group * INODE_SIZE div f_block_size f)))
       (\<lambda>(bitmap_offset, inode_table_size_per_group).
      act_bind (data_groups (unat block_groups) 0 inodes_per_group data_size bitmap_offset
                  (ucast inode_table_offset) inode_table_size_per_group
                  \<lparr>to_descriptors = [], to_used_blocks = 0, to_used_inodes = 0\<rparr>) (\<lambda>tot.
      act_bind (empty_groups (unat total_groups - unat block_groups) block_groups total_groups inodes_per_group
                  inode_table_size_per_group tot) (\<lambda>tot.
      act_bind (act_gets (\<lambda>f. case f_uuid f of Some u \<Rightarrow> u | None \<Rightarrow> new_uuid)) (\<lambda>uuid_bytes.
      act_bind (act_gets (\<lambda>f. descriptor_table uuid_bytes 0 (to_descriptors tot)
                  (replicate (unat gd_block_count * unat (f_block_size f)) 0))) (\<lambda>table.
      act_bind (act_option table) (\<lambda>gd_table_buf.
      act_seq (act_modify (\<lambda>f. file_write gd_table_buf (seek_to_block 1 f)))
     (act_bind (act_gets (\<lambda>f. image_superblock f uuid_bytes total_groups inodes_per_group
                  (to_used_blocks tot) (to_used_inodes tot) reserved_gdt_blocks)) (\<lambda>sb.
      act_bind (write_superblock sb) (\<lambda>sb_buf. write_backups backups sb sb_buf gd_table_buf))))))))))))"

definition close :: "stamp \<Rightarrow> bytes \<Rightarrow> unit fmt" where
  "close now new_uuid =
     act_seq commit_directories
    (act_bind (act_gets group_descriptor_blocks) (\<lambda>allocated_descriptor_area_blocks.
     act_bind allocate_resize_inode_dind_block (\<lambda>resize_dind_block.
     act_seq (act_modify (\<lambda>f. f\<lparr>f_size := max (f_size f) (of_nat (fl_len (f_file f)))\<rparr>))
    (act_bind (act_gets (\<lambda>f. optimize_block_group_layout f (current_block f) (of_nat (length (f_inodes f)))))
       (\<lambda>layout.
     act_bind (act_option layout) (\<lambda>(block_groups, inodes_per_group).
     act_seq (act_modify align_to_block)
    (act_bind (act_gets (\<lambda>f. (current_block f, inodes_per_group * INODE_SIZE div f_block_size f)))
       (\<lambda>(inode_table_offset, inode_table_size_per_group).
     let bitmap_offset = inode_table_offset + block_groups * inode_table_size_per_group;
         data_size = bitmap_offset + block_groups * 2
     in act_seq (act_modify (settle_size block_groups data_size))
       (act_bind (act_gets settled_groups) (\<lambda>total_groups.
        act_bind (close_resize now resize_dind_block allocated_descriptor_area_blocks total_groups) (\<lambda>resize.
        act_seq (act_modify (seek_to_block inode_table_offset))
          (close_metadata new_uuid block_groups inodes_per_group data_size total_groups resize))))))))))))"

end
