(* ===== verification/Ext4_Image.thy ===== *)
theory Ext4_Image
  imports Ext4_Formatter "HOL-Library.Sublist"
begin

text \<open>
  Correctness of the operations of the formatter on canonical paths: absolute, with ordinary names.
  \<open>image_inv\<close> is the invariant of an image under construction; the lemmas show that \<open>create\<close>, \<open>link\<close>
  and \<open>unlink\<close> return, keep it, and do to the name space, the link counts and the ownership of blocks
  what their names say.
\<close>

section \<open>Canonical paths\<close>

lemma abs_path_root: "abs_path [] = ''/''"
  by (simp add: abs_path_def)

lemma abs_path_single [simp]: "abs_path [n] = CHR ''/'' # n"
  by (simp add: abs_path_def)

lemma abs_path_not_root:
  assumes "list_all plain_name ns" "ns \<noteq> []"
  shows "abs_path ns \<noteq> ''/''"
proof -
  have "\<not> ends_with (abs_path ns) ''/''" by (rule ends_with_abs_path [OF assms])
  then show ?thesis by (auto simp: ends_with_def)
qed

lemma abs_path_snoc_split:
  obtains pre where "abs_path (ns @ [n]) = pre @ CHR ''/'' # n"
    "pre = (if ns = [] then [] else abs_path ns)"
  by (cases "ns = []") (auto simp: abs_path_snoc)

lemma trimmed_snoc:
  assumes "plain_name n"
  shows "trim_end_matches (CHR ''/'') (abs_path (ns @ [n])) = abs_path (ns @ [n])"
    "rfind (CHR ''/'') (abs_path (ns @ [n])) = Some (length (if ns = [] then [] else abs_path ns))"
proof -
  obtain pre where e: "abs_path (ns @ [n]) = pre @ CHR ''/'' # n" "pre = (if ns = [] then [] else abs_path ns)"
    by (rule abs_path_snoc_split)
  have n: "n \<noteq> []" "CHR ''/'' \<notin> set n" using assms by (auto simp: plain_name_def)
  show "trim_end_matches (CHR ''/'') (abs_path (ns @ [n])) = abs_path (ns @ [n])"
    using trim_end_plain [OF n, of "pre @ ''/''"] e(1) by simp
  show "rfind (CHR ''/'') (abs_path (ns @ [n])) = Some (length (if ns = [] then [] else abs_path ns))"
    using rfind_last [OF n(2), of pre] e by simp
qed

lemma parent_of_snoc:
  assumes "list_all plain_name (ns @ [n])"
  shows "parent_of (abs_path (ns @ [n])) = abs_path ns"
proof -
  have "abs_path (ns @ [n]) \<noteq> ''/''" using assms by (intro abs_path_not_root) simp_all
  moreover have "plain_name n" using assms by simp
  note T = trimmed_snoc [OF this, of ns]
  moreover have "ns \<noteq> [] \<Longrightarrow> abs_path ns \<noteq> []" by (cases ns) (simp_all add: abs_path_def)
  ultimately show ?thesis
    by (cases "ns = []") (auto simp: parent_of_def Let_def abs_path_snoc abs_path_root)
qed

lemma basename_snoc:
  assumes "list_all plain_name (ns @ [n])"
  shows "basename (abs_path (ns @ [n])) = n"
proof -
  have "abs_path (ns @ [n]) \<noteq> ''/''" using assms by (intro abs_path_not_root) simp_all
  moreover have "plain_name n" using assms by simp
  note T = trimmed_snoc [OF this, of ns]
  ultimately show ?thesis
    by (cases "ns = []") (auto simp: basename_def Let_def abs_path_snoc)
qed

lemma root_path_simps [simp]: "parent_of ''/'' = ''/''" "basename ''/'' = ''/''"
  by (simp_all add: parent_of_def basename_def)

lemma child_path_abs:
  assumes "list_all plain_name ns" "plain_name n"
  shows "child_path (abs_path ns) n = abs_path (ns @ [n])"
  using assms abs_path_not_root [of ns] by (cases "ns = []") (auto simp: child_path_def abs_path_snoc abs_path_root)

definition short_names :: "string list \<Rightarrow> bool" where
  "short_names ns \<longleftrightarrow> list_all (\<lambda>n. plain_name n \<and> length n \<le> EXT4_NAME_LEN) ns"

lemma short_names_plain: "short_names ns \<Longrightarrow> list_all plain_name ns"
  by (auto simp: short_names_def list_all_iff)

lemma validate_short: "short_names ns \<Longrightarrow> validate_path_component_names (abs_path ns) = Ok ()"
proof -
  assume ns: "short_names ns"
  have "\<forall>c \<in> set (normal_components (abs_path ns)). \<not> length c > EXT4_NAME_LEN"
    using ns components_abs_path [OF short_names_plain [OF ns]]
    by (auto simp: normal_components_def short_names_def list_all_iff)
  then have "find (\<lambda>name. length name > EXT4_NAME_LEN) (normal_components (abs_path ns)) = None"
    by (simp add: find_None_iff)
  then show ?thesis by (simp add: validate_path_component_names_def)
qed

section \<open>Weakest preconditions of the primitives\<close>

lemma primitive_wp [wp]:
  "act_wp (inode_at ino) Qi E f =
     (unat (ino - 1) < length (f_inodes f) \<and> Qi (f_inodes f ! unat (ino - 1)) f)"
  "act_wp (inode_update ino g) Q E f =
     (unat (ino - 1) < length (f_inodes f) \<and>
      Q () (f\<lparr>f_inodes := (f_inodes f)[unat (ino - 1) := g (f_inodes f ! unat (ino - 1))]\<rparr>))"
  "act_wp (tree_lookup path) Ql E f = (\<exists>r. lookup (f_tree f) path = Some r \<and> Ql r f)"
  "act_wp (tree_node idx) Qn E f =
     (idx < length (t_nodes (f_tree f)) \<and> Qn (t_nodes (f_tree f) ! idx) f)"
  "act_wp (tree_add_child p nd) Q E f =
     (\<exists>t i. add_child (f_tree f) p nd = Some (t, i) \<and> Q () (f\<lparr>f_tree := t\<rparr>))"
  "act_wp (tree_remove_child p name) Q E f =
     (\<exists>t. remove_child (f_tree f) p name = Some t \<and> Q () (f\<lparr>f_tree := t\<rparr>))"
  by (auto simp: act_wp_def inode_at_def inode_update_def tree_lookup_def tree_node_def tree_add_child_def
      tree_remove_child_def node_def Let_def split: option.splits)

section \<open>Paths and nodes\<close>

lemma walk_climb:
  assumes wf: "wf_tree t"
  shows "tree.walk t 0 ns = Some i \<Longrightarrow> climb t i parts = Some (n_name (t_nodes t ! 0) # ns @ parts)"
proof (induction ns arbitrary: i parts rule: rev_induct)
  case Nil
  then show ?case using wf_treeD(2, 3) [OF wf] by (subst climb.simps) simp
next
  case (snoc n ns)
  then obtain p where p: "tree.walk t 0 ns = Some p" "child t p n = Some i"
    by (auto simp: tree.walk_append split: option.splits)
  note c = child_SomeD [OF p(2)] and w = wf_treeD(6) [OF wf child_SomeD(1, 2) [OF p(2)]]
  show ?case using snoc.IH [OF p(1)] c(3) w by (subst climb.simps) simp
qed

lemma walk_inj:
  "wf_tree t \<Longrightarrow> tree.walk t 0 ns = Some i \<Longrightarrow> tree.walk t 0 ms = Some i \<Longrightarrow> ns = ms"
  using walk_climb [of t ns i "[]"] walk_climb [of t ms i "[]"] by simp

lemma walk_bound: "wf_tree t \<Longrightarrow> tree.walk t 0 ns = Some i \<Longrightarrow> i < length (t_nodes t)"
  using tree.walk_valid [of t 0 ns i] wf_treeD(2) by simp

lemma attached_iff_walk: "wf_tree t \<Longrightarrow> attached t i \<longleftrightarrow> (\<exists>ns. tree.walk t 0 ns = Some i)"
proof
  assume wf: "wf_tree t" and "attached t i"
  from this(2) show "\<exists>ns. tree.walk t 0 ns = Some i"
  proof (induction rule: attached.induct)
    case attached_root
    then show ?case using wf_treeD(1) [OF wf] by (metis tree.walk.simps(1))
  next
    case (attached_child i c)
    then obtain ns where "tree.walk t 0 ns = Some i" by blast
    then have "tree.walk t 0 (ns @ [n_name (t_nodes t ! c)]) = Some c"
      using child_name [OF wf attached_child(2, 3)] by (simp add: tree.walk_append)
    then show ?case by blast
  qed
next
  assume wf: "wf_tree t" and "\<exists>ns. tree.walk t 0 ns = Some i"
  then obtain ns where "tree.walk t 0 ns = Some i" by blast
  moreover have "attached t 0" using attached_root [of t] wf_treeD(1) [OF wf] by simp
  moreover have "attached t j" if "attached t k" "tree.walk t k ns = Some j" for k j ns
    using that by (induction ns arbitrary: k) (auto split: option.splits dest: attached_child_step)
  ultimately show "attached t i" by blast
qed

lemma walk_names:
  assumes "wf_tree t" "plain_tree t" "tree.walk t 0 ns = Some i"
  shows "list_all plain_name ns"
  using assms(3)
proof (induction ns arbitrary: i rule: rev_induct)
  case (snoc n ns)
  then obtain p where p: "tree.walk t 0 ns = Some p" "child t p n = Some i"
    by (auto simp: tree.walk_append split: option.splits)
  have "0 < i" "i < length (t_nodes t)" using child_bounds [OF assms(1) p(2)] by auto
  then have "plain_name n" using assms(2) child_SomeD(3) [OF p(2)] by (auto simp: plain_tree_def)
  with snoc.IH [OF p(1)] show ?case by simp
qed simp

text \<open>Removing the entry \<open>n\<close> of the node at \<open>ps\<close> cuts off the paths through it, and no others.\<close>

lemma walk_remove_child:
  assumes wf: "wf_tree t" and rm: "remove_child t p n = Some t'" and ps: "tree.walk t 0 ps = Some p"
  shows "tree.walk t' 0 ms = (if prefix (ps @ [n]) ms then None else tree.walk t 0 ms)"
proof (cases "prefix (ps @ [n]) ms")
  case True
  then obtain ks where "ms = ps @ n # ks" by (auto elim: prefixE)
  with tree.walk_rm_gone [OF wf rm ps] True show ?thesis by simp
next
  case False
  show ?thesis
  proof (cases "tree.walk t 0 ms")
    case None
    then show ?thesis using tree.walk_rm_sub [OF wf rm, of 0 ms] False by (cases "tree.walk t' 0 ms") auto
  next
    case (Some j)
    have "\<forall>ms' ks. ms = ms' @ n # ks \<longrightarrow> tree.walk t 0 ms' \<noteq> Some p"
      using False walk_inj [OF wf ps] by auto
    with tree.walk_rm_keep [OF wf rm Some] Some False show ?thesis by simp
  qed
qed

definition prunes :: "FileTree \<Rightarrow> FileTree \<Rightarrow> bool" where
  "prunes t t' \<longleftrightarrow> t_root t' = t_root t \<and> length (t_nodes t') = length (t_nodes t) \<and>
     (\<forall>j < length (t_nodes t). \<exists>cs. t_nodes t' ! j = (t_nodes t ! j)\<lparr>n_children := cs\<rparr>)"

lemma children_self [simp]: "\<exists>cs. nd = (nd :: FileTreeNode)\<lparr>n_children := cs\<rparr>"
  by (rule exI [of _ "n_children nd"]) simp

lemma prunes_refl [simp]: "prunes t t"
  by (simp add: prunes_def)

lemma prunes_trans: "prunes t u \<Longrightarrow> prunes u v \<Longrightarrow> prunes t v"
  unfolding prunes_def by (auto, metis FileTreeNode.update_convs(3) FileTreeNode.surjective)

lemma prunesD:
  assumes "prunes t t'"
  shows "length (t_nodes t') = length (t_nodes t)" "t_root t' = t_root t"
    and "j < length (t_nodes t) \<Longrightarrow> n_inode (t_nodes t' ! j) = n_inode (t_nodes t ! j)"
    and "j < length (t_nodes t) \<Longrightarrow> n_name (t_nodes t' ! j) = n_name (t_nodes t ! j)"
    and "j < length (t_nodes t) \<Longrightarrow> n_parent (t_nodes t' ! j) = n_parent (t_nodes t ! j)"
    and "j < length (t_nodes t) \<Longrightarrow> n_link (t_nodes t' ! j) = n_link (t_nodes t ! j)"
    and "j < length (t_nodes t) \<Longrightarrow> n_blocks (t_nodes t' ! j) = n_blocks (t_nodes t ! j)"
    and "j < length (t_nodes t) \<Longrightarrow> n_additional_blocks (t_nodes t' ! j) = n_additional_blocks (t_nodes t ! j)"
  using assms unfolding prunes_def by fastforce+

lemma prunes_remove_child:
  assumes "wf_tree t" "remove_child t p n = Some t'"
  shows "prunes t t'"
proof (rule remove_child_cases [OF assms])
  fix pos
  assume t': "t' = t\<lparr>t_nodes := (t_nodes t)[p := (t_nodes t ! p)
      \<lparr>n_children := remove_at pos (n_children (t_nodes t ! p))\<rparr>]\<rparr>"
  have "\<exists>cs. t_nodes t' ! j = (t_nodes t ! j)\<lparr>n_children := cs\<rparr>" if "j < length (t_nodes t)" for j
  proof (cases "j = p")
    case True
    then have "t_nodes t' ! j = (t_nodes t ! j)\<lparr>n_children := remove_at pos (n_children (t_nodes t ! p))\<rparr>"
      using that by (simp add: t')
    then show ?thesis by blast
  qed (simp add: t')
  then show ?thesis by (simp add: prunes_def t')
qed simp

section \<open>Invariant\<close>

definition valid_ino :: "Formatter \<Rightarrow> u32 \<Rightarrow> bool" where
  "valid_ino f ino \<longleftrightarrow> 0 < unat ino \<and> unat ino \<le> length (f_inodes f)"

definition inode_of :: "Formatter \<Rightarrow> u32 \<Rightarrow> Inode" where
  "inode_of f ino = f_inodes f ! unat (ino - 1)"

text \<open>The inode an entry stands for.\<close>

definition target :: "FileTreeNode \<Rightarrow> u32" where
  "target nd = (case n_link nd of Some l \<Rightarrow> l | None \<Rightarrow> n_inode nd)"

abbreviation nodes_of :: "Formatter \<Rightarrow> FileTreeNode list" where
  "nodes_of f \<equiv> t_nodes (f_tree f)"

definition refs :: "Formatter \<Rightarrow> u32 \<Rightarrow> nat set" where
  "refs f ino = {i. attached (f_tree f) i \<and> target (nodes_of f ! i) = ino}"

definition nodes_inv :: "Formatter \<Rightarrow> bool" where
  "nodes_inv f \<longleftrightarrow>
     n_link (nodes_of f ! 0) = None \<and> n_inode (nodes_of f ! 0) = ROOT_INODE \<and>
     (\<forall>i < length (nodes_of f). n_link (nodes_of f ! i) \<noteq> None \<longrightarrow> n_inode (nodes_of f ! i) = ROOT_INODE) \<and>
     (\<forall>i < length (nodes_of f). valid_ino f (n_inode (nodes_of f ! i))) \<and>
     (\<forall>i < length (nodes_of f). 0 < i \<longrightarrow> valid_ino f (target (nodes_of f ! i)) \<and> 10 < target (nodes_of f ! i)) \<and>
     (\<forall>i < length (nodes_of f). \<forall>j < length (nodes_of f).
        n_link (nodes_of f ! i) = None \<and> n_link (nodes_of f ! j) = None \<and>
        n_inode (nodes_of f ! i) = n_inode (nodes_of f ! j) \<longrightarrow> i = j) \<and>
     (\<forall>i < length (nodes_of f). \<forall>p. n_parent (nodes_of f ! i) = Some p \<and> n_link (nodes_of f ! i) = None \<and>
        Inode_is_dir (inode_of f (n_inode (nodes_of f ! i))) \<longrightarrow>
        Inode_is_dir (inode_of f (n_inode (nodes_of f ! p))))"

definition inodes_inv :: "Formatter \<Rightarrow> bool" where
  "inodes_inv f \<longleftrightarrow> 10 \<le> length (f_inodes f) \<and> length (f_inodes f) < 2 ^ 32 \<and> list_all wf_Inode (f_inodes f) \<and>
     Inode_is_dir (inode_of f ROOT_INODE)"

text \<open>
  A file has as many links as entries that stand for it.  A directory has one entry, which is not a
  hard link, and while the entry is attached at least two links.
\<close>

definition link_ok :: "Formatter \<Rightarrow> u32 \<Rightarrow> bool" where
  "link_ok f ino \<longleftrightarrow>
     (if Inode_is_dir (inode_of f ino)
      then (\<forall>i \<in> refs f ino. n_link (nodes_of f ! i) = None) \<and>
           (refs f ino \<noteq> {} \<longrightarrow> 2 \<le> i_links_count (inode_of f ino))
      else unat (i_links_count (inode_of f ino)) = card (refs f ino))"

definition link_inv :: "Formatter \<Rightarrow> bool" where
  "link_inv f \<longleftrightarrow> (\<forall>ino. valid_ino f ino \<and> 10 < ino \<longrightarrow> link_ok f ino)"

text \<open>
  The blocks of an image have one owner each: an attached entry, the entry that an unlinked original
  deferred to the remaining hard links of an inode, the attribute block of an inode, or the list of
  deleted blocks.
\<close>

datatype owner = ONode nat | ODeferred u32 | OXattr nat | ODeleted

fun owns :: "Formatter \<Rightarrow> owner \<Rightarrow> nat set" where
  "owns f (ONode i) =
     (if attached (f_tree f) i then set (ranges_blocks (node_block_ranges (nodes_of f ! i))) else {})"
| "owns f (ODeferred ino) = (case f_deferred_blocks f ino of None \<Rightarrow> {} | Some bs \<Rightarrow> set (ranges_blocks bs))"
| "owns f (OXattr k) =
     (if k < length (f_inodes f) \<and> i_xattr_block_lo (f_inodes f ! k) \<noteq> 0
      then {unat (i_xattr_block_lo (f_inodes f ! k))} else {})"
| "owns f ODeleted = set (ranges_blocks (f_deleted_blocks f))"

definition own_inv :: "Formatter \<Rightarrow> bool" where
  "own_inv f \<longleftrightarrow>
     (\<forall>x y. x \<noteq> y \<longrightarrow> owns f x \<inter> owns f y = {}) \<and>
     (\<forall>x. \<forall>b \<in> owns f x. 4096 * b < fl_pos (f_file f) \<and> b < 2 ^ 32 - 1 \<and>
        \<not> reserved (unat (group_descriptor_blocks f)) b)"

definition image_inv :: "Formatter \<Rightarrow> bool" where
  "image_inv f \<longleftrightarrow>
     f_block_size f = 4096 \<and> fl_pos (f_file f) mod 4096 = 0 \<and> wf_tree (f_tree f) \<and> plain_tree (f_tree f) \<and>
     nodes_inv f \<and> inodes_inv f \<and> link_inv f \<and> own_inv f"

subsection \<open>Facts\<close>

lemma own_merge:
  assumes "\<And>x y. x \<noteq> y \<Longrightarrow> owns f x \<inter> owns f y = {}" "z \<in> S" "owns f' z \<subseteq> (\<Union>x \<in> S. owns f x)"
    and "\<And>x. x \<in> S \<Longrightarrow> x \<noteq> z \<Longrightarrow> owns f' x = {}" "\<And>x. x \<notin> S \<Longrightarrow> owns f' x \<subseteq> owns f x"
    and "x \<noteq> y"
  shows "owns f' x \<inter> owns f' y = {}"
proof -
  have one: "owns f' z \<inter> owns f' w = {}" if "w \<noteq> z" for w
  proof (cases "w \<in> S")
    case False
    then have "owns f v \<inter> owns f w = {}" if "v \<in> S" for v using that assms(1) by metis
    then show ?thesis using assms(3) assms(5) [OF False] by blast
  qed (use assms(4) that in simp)
  show ?thesis
  proof (cases "x = z \<or> y = z")
    case True
    then show ?thesis using one [of x] one [of y] assms(6) by (auto simp: Int_commute)
  next
    case False
    then have "owns f' x \<subseteq> owns f x" "owns f' y \<subseteq> owns f y" using assms(4, 5) by blast+
    then show ?thesis using assms(1) [OF assms(6)] by blast
  qed
qed

lemma unat_pred: "0 < unat (ino :: u32) \<Longrightarrow> unat (ino - 1) = unat ino - 1"
  by (rule unat_minus_one) auto

lemma valid_ino_index: "valid_ino f ino \<Longrightarrow> unat (ino - 1) < length (f_inodes f)"
  by (auto simp: valid_ino_def unat_pred)

lemma valid_ino_inj:
  "valid_ino f a \<Longrightarrow> valid_ino f b \<Longrightarrow> unat (a - 1) = unat (b - 1) \<longleftrightarrow> a = b"
  by (auto simp: valid_ino_def unat_pred word_unat_eq_iff)

lemma nodes_invD:
  assumes "nodes_inv f"
  shows "n_link (nodes_of f ! 0) = None" "n_inode (nodes_of f ! 0) = ROOT_INODE"
    "\<And>i. i < length (nodes_of f) \<Longrightarrow> n_link (nodes_of f ! i) \<noteq> None \<Longrightarrow> n_inode (nodes_of f ! i) = ROOT_INODE"
    "\<And>i. i < length (nodes_of f) \<Longrightarrow> valid_ino f (n_inode (nodes_of f ! i))"
    "\<And>i. i < length (nodes_of f) \<Longrightarrow> 0 < i \<Longrightarrow> valid_ino f (target (nodes_of f ! i)) \<and> 10 < target (nodes_of f ! i)"
    "\<And>i j. i < length (nodes_of f) \<Longrightarrow> j < length (nodes_of f) \<Longrightarrow> n_link (nodes_of f ! i) = None \<Longrightarrow>
       n_link (nodes_of f ! j) = None \<Longrightarrow> n_inode (nodes_of f ! i) = n_inode (nodes_of f ! j) \<Longrightarrow> i = j"
    "\<And>i p. i < length (nodes_of f) \<Longrightarrow> n_parent (nodes_of f ! i) = Some p \<Longrightarrow> n_link (nodes_of f ! i) = None \<Longrightarrow>
       Inode_is_dir (inode_of f (n_inode (nodes_of f ! i))) \<Longrightarrow> Inode_is_dir (inode_of f (n_inode (nodes_of f ! p)))"
  using assms unfolding nodes_inv_def by blast+

lemma image_invD:
  assumes "image_inv f"
  shows "f_block_size f = 4096" "fl_pos (f_file f) mod 4096 = 0" "wf_tree (f_tree f)" "plain_tree (f_tree f)"
    "nodes_inv f" "inodes_inv f" "link_inv f" "own_inv f"
  using assms by (simp_all add: image_inv_def)

lemma link_okD: "link_inv f \<Longrightarrow> valid_ino f ino \<Longrightarrow> 10 < ino \<Longrightarrow> link_ok f ino"
  by (simp add: link_inv_def)

lemma finite_refs: "wf_tree (f_tree f) \<Longrightarrow> finite (refs f ino)"
  by (rule finite_subset [of _ "{..<length (nodes_of f)}"]) (auto simp: refs_def dest: attached_bounds)

lemma Inode_is_dir_update [simp]:
  "Inode_is_dir (inode\<lparr>i_links_count := n\<rparr>) = Inode_is_dir inode"
  "\<not> Inode_is_dir (Inode_default\<lparr>i_dtime := d\<rparr>)"
  by (simp_all add: Inode_is_dir_def is_dir_def Inode_default_def mode_defs)

lemma wf_Inode_update [simp]:
  "wf_Inode (inode\<lparr>i_links_count := n\<rparr>) = wf_Inode inode"
  "wf_Inode (Inode_default\<lparr>i_dtime := d\<rparr>)"
  by (simp_all add: wf_Inode_def Inode_default_def)

section \<open>Removing one entry\<close>

definition same_store :: "Formatter \<Rightarrow> Formatter \<Rightarrow> bool" where
  "same_store f f' \<longleftrightarrow> f_file f' = f_file f \<and> f_block_size f' = f_block_size f \<and> f_size f' = f_size f \<and>
     f_uuid f' = f_uuid f \<and> f_label f' = f_label f \<and> length (f_inodes f') = length (f_inodes f)"

lemma same_store_refl [simp]: "same_store f f"
  by (simp add: same_store_def)

lemma same_store_trans: "same_store f g \<Longrightarrow> same_store g h \<Longrightarrow> same_store f h"
  by (simp add: same_store_def)

lemma same_store_area: "same_store f f' \<Longrightarrow> group_descriptor_blocks f' = group_descriptor_blocks f"
  by (rule group_descriptor_blocks_cong) (simp_all add: same_store_def)

text \<open>
  What removing entry \<open>i\<close> does to the inodes: its target loses a link and is cleared with the last one;
  a parent directory may lose the link that the removed directory held.
\<close>

definition links_released :: "Formatter \<Rightarrow> Formatter \<Rightarrow> u32 \<Rightarrow> bool" where
  "links_released f f' tg \<longleftrightarrow>
     (if i_links_count (inode_of f tg) - 1 = 0 then \<exists>d. inode_of f' tg = Inode_default\<lparr>i_dtime := d\<rparr>
      else inode_of f' tg = (inode_of f tg)\<lparr>i_links_count := i_links_count (inode_of f tg) - 1\<rparr>) \<and>
     (\<forall>ino. valid_ino f ino \<and> ino \<noteq> tg \<longrightarrow>
        inode_of f' ino = inode_of f ino \<or>
        Inode_is_dir (inode_of f ino) \<and> 2 < i_links_count (inode_of f ino) \<and>
        inode_of f' ino = (inode_of f ino)\<lparr>i_links_count := i_links_count (inode_of f ino) - 1\<rparr>)"

definition blocks_released :: "Formatter \<Rightarrow> Formatter \<Rightarrow> u32 \<Rightarrow> nat \<Rightarrow> bool" where
  "blocks_released f f' tg i \<longleftrightarrow>
     (let bs = node_block_ranges (nodes_of f ! i) in
      if i_links_count (inode_of f tg) - 1 = 0 then
        f_deleted_blocks f' = f_deleted_blocks (reclaim tg bs (i_xattr_block_lo (inode_of f tg)) f) \<and>
        f_deferred_blocks f' = (f_deferred_blocks f)(tg := None)
      else f_deleted_blocks f' = f_deleted_blocks f \<and>
        f_deferred_blocks f' = (if bs = [] then f_deferred_blocks f else f_deferred_blocks (defer_blocks tg bs f)))"

definition entry_removed :: "Formatter \<Rightarrow> Formatter \<Rightarrow> nat \<Rightarrow> bool" where
  "entry_removed f f' i \<longleftrightarrow>
     same_store f f' \<and> prunes (f_tree f) (f_tree f') \<and> wf_tree (f_tree f') \<and>
     (\<forall>j. attached (f_tree f') j \<longleftrightarrow> attached (f_tree f) j \<and> j \<noteq> i) \<and>
     links_released f f' (target (nodes_of f ! i)) \<and> blocks_released f f' (target (nodes_of f ! i)) i"

lemma index_ino:
  assumes "k < length (f_inodes f)" "length (f_inodes f) < 2 ^ 32"
  shows "valid_ino f (of_nat (Suc k))" "inode_of f (of_nat (Suc k)) = f_inodes f ! k"
    "unat (of_nat (Suc k) - 1 :: u32) = k"
proof -
  have u: "unat (of_nat (Suc k) :: u32) = Suc k" using assms by (intro unat_of_nat_small) simp
  then show v: "valid_ino f (of_nat (Suc k))" using assms(1) by (simp add: valid_ino_def)
  have "unat (of_nat (Suc k) - 1 :: u32) = k" using u unat_pred [of "of_nat (Suc k)"] by (simp del: of_nat_Suc)
  then show "inode_of f (of_nat (Suc k)) = f_inodes f ! k" "unat (of_nat (Suc k) - 1 :: u32) = k"
    by (simp_all add: inode_of_def)
qed

lemma all_inodes:
  assumes "length (f_inodes f) < 2 ^ 32"
  shows "list_all P (f_inodes f) \<longleftrightarrow> (\<forall>ino. valid_ino f ino \<longrightarrow> P (inode_of f ino))"
proof
  assume "list_all P (f_inodes f)"
  then show "\<forall>ino. valid_ino f ino \<longrightarrow> P (inode_of f ino)"
    using valid_ino_index by (auto simp: list_all_length inode_of_def)
next
  assume "\<forall>ino. valid_ino f ino \<longrightarrow> P (inode_of f ino)"
  then show "list_all P (f_inodes f)"
    using index_ino [OF _ assms] by (fastforce simp: list_all_length)
qed

lemma entry_removedD:
  assumes "entry_removed f f' i"
  shows "same_store f f'" "prunes (f_tree f) (f_tree f')" "wf_tree (f_tree f')"
    "\<And>j. attached (f_tree f') j \<longleftrightarrow> attached (f_tree f) j \<and> j \<noteq> i"
    "links_released f f' (target (nodes_of f ! i))" "blocks_released f f' (target (nodes_of f ! i)) i"
    "length (f_inodes f') = length (f_inodes f)" "\<And>ino. valid_ino f' ino \<longleftrightarrow> valid_ino f ino"
  using assms by (auto simp: entry_removed_def same_store_def valid_ino_def)

lemma prunes_target:
  "prunes (f_tree f) (f_tree f') \<Longrightarrow> j < length (nodes_of f) \<Longrightarrow> target (nodes_of f' ! j) = target (nodes_of f ! j)"
  using prunesD(3, 6) [of "f_tree f" "f_tree f'" j] by (simp add: target_def split: option.splits)

definition removal :: "Formatter \<Rightarrow> Formatter \<Rightarrow> nat \<Rightarrow> bool" where
  "removal f f' i \<longleftrightarrow> image_inv f \<and> attached (f_tree f) i \<and> 0 < i \<and> entry_removed f f' i"

lemma removalD:
  assumes "removal f f' i"
  shows "image_inv f" "attached (f_tree f) i" "0 < i" "entry_removed f f' i" "i < length (nodes_of f)"
    "valid_ino f (target (nodes_of f ! i))" "10 < target (nodes_of f ! i)" "link_ok f (target (nodes_of f ! i))"
    "i \<in> refs f (target (nodes_of f ! i))"
proof -
  show R: "image_inv f" "attached (f_tree f) i" "0 < i" "entry_removed f f' i"
    using assms by (simp_all add: removal_def)
  note I = image_invD [OF R(1)]
  show b: "i < length (nodes_of f)" using attached_bounds [OF R(2) I(3)] .
  then show t: "valid_ino f (target (nodes_of f ! i))" "10 < target (nodes_of f ! i)"
    using nodes_invD(5) [OF I(5) b R(3)] by simp_all
  show "link_ok f (target (nodes_of f ! i))" using link_okD [OF I(7) t] .
  show "i \<in> refs f (target (nodes_of f ! i))" using R(2) by (simp add: refs_def)
qed

lemma removal_refs:
  assumes "removal f f' i"
  shows "refs f' ino = refs f ino - {i}"
  using entry_removedD(2, 4) [OF removalD(4) [OF assms]] prunes_target
    attached_bounds [OF _ image_invD(3) [OF removalD(1) [OF assms]]] by (auto simp: refs_def)

lemma removal_cleared:
  assumes "removal f f' i" "i_links_count (inode_of f (target (nodes_of f ! i))) - 1 = 0"
  shows "\<not> Inode_is_dir (inode_of f (target (nodes_of f ! i)))"
proof
  assume "Inode_is_dir (inode_of f (target (nodes_of f ! i)))"
  then have "2 \<le> i_links_count (inode_of f (target (nodes_of f ! i)))"
    using removalD(8, 9) [OF assms(1)] by (auto simp: link_ok_def)
  moreover have "i_links_count (inode_of f (target (nodes_of f ! i))) = 1" using assms(2) by simp
  ultimately show False by (simp add: word_le_nat_alt)
qed

lemma removal_dirs:
  assumes "removal f f' i" "valid_ino f ino"
  shows "Inode_is_dir (inode_of f' ino) = Inode_is_dir (inode_of f ino)"
proof (cases "ino = target (nodes_of f ! i)")
  case True
  then show ?thesis
    using entry_removedD(5) [OF removalD(4) [OF assms(1)]] removal_cleared [OF assms(1)] unfolding links_released_def
    by (cases "i_links_count (inode_of f (target (nodes_of f ! i))) - 1 = 0") auto
next
  case False
  then show ?thesis using entry_removedD(5) [OF removalD(4) [OF assms(1)]] assms(2) by (auto simp: links_released_def)
qed

lemma parent_bound:
  assumes "wf_tree t" "j < length (t_nodes t)" "n_parent (t_nodes t ! j) = Some p"
  shows "p < length (t_nodes t)"
  using wf_treeD(3, 4) [OF assms(1)] assms(2, 3) by (cases "j = 0") fastforce+

lemma removal_nodes:
  assumes rm: "removal f f' i"
  shows "nodes_inv f'"
proof -
  note I = image_invD [OF removalD(1) [OF rm]] and R = entry_removedD [OF removalD(4) [OF rm]]
  note N = nodes_invD [OF I(5)] and D = prunesD(3, 5, 6) [OF R(2)]
  have len: "length (nodes_of f') = length (nodes_of f)" using prunesD(1) [OF R(2)] .
  have z: "0 < length (nodes_of f)" using removalD(5) [OF rm] by (meson le0 le_less_trans)
  have dirs: "Inode_is_dir (inode_of f' (n_inode (nodes_of f ! p)))"
    if "j < length (nodes_of f)" "n_parent (nodes_of f ! j) = Some p" "n_link (nodes_of f ! j) = None"
      "Inode_is_dir (inode_of f' (n_inode (nodes_of f ! j)))" for j p
  proof -
    have "Inode_is_dir (inode_of f (n_inode (nodes_of f ! j)))"
      using that(4) removal_dirs [OF rm N(4) [OF that(1)]] by simp
    then have "Inode_is_dir (inode_of f (n_inode (nodes_of f ! p)))" by (rule N(7) [OF that(1-3)])
    then show ?thesis using removal_dirs [OF rm N(4) [OF parent_bound [OF I(3) that(1, 2)]]] by simp
  qed
  show ?thesis
    unfolding nodes_inv_def len
  proof (intro conjI allI impI, goal_cases)
    case (6 j)
    then show ?case using N(5) [of j] prunes_target [OF R(2), of j] by simp
  next
    case (7 j k)
    then show ?case using N(6) [of j k] by (simp add: D)
  next
    case (8 j q)
    then have "j < length (nodes_of f)" "n_parent (nodes_of f ! j) = Some q" by (simp_all add: D)
    then show ?case using dirs [of j q] 8 parent_bound [OF I(3), of j q] by (simp add: D)
  qed (use N(1-4) N(5) z prunes_target [OF R(2)] R(8) in \<open>simp_all add: D\<close>)
qed

lemma removal_inodes:
  assumes rm: "removal f f' i"
  shows "inodes_inv f'"
proof -
  note I = image_invD [OF removalD(1) [OF rm]] and R = entry_removedD [OF removalD(4) [OF rm]]
  have l: "length (f_inodes f) < 2 ^ 32" "10 \<le> length (f_inodes f)" and w: "list_all wf_Inode (f_inodes f)"
    and d: "Inode_is_dir (inode_of f ROOT_INODE)" using I(6) by (simp_all add: inodes_inv_def)
  have "wf_Inode (inode_of f' ino)" if "valid_ino f ino" for ino
  proof -
    have "wf_Inode (inode_of f ino)" using w that all_inodes [OF l(1)] by blast
    then show ?thesis
      using R(5) that unfolding links_released_def
      by (cases "ino = target (nodes_of f ! i)"; cases "i_links_count (inode_of f (target (nodes_of f ! i))) - 1 = 0") auto
  qed
  then have "list_all wf_Inode (f_inodes f')" using all_inodes [of f' wf_Inode] l(1) R(7, 8) by simp
  moreover have "valid_ino f ROOT_INODE" using l by (simp add: valid_ino_def ROOT_INODE_def)
  ultimately show ?thesis using l d R(7) removal_dirs [OF rm] by (simp add: inodes_inv_def)
qed

lemma removal_links:
  assumes rm: "removal f f' i"
  shows "link_inv f'"
  unfolding link_inv_def
proof (intro allI impI)
  fix ino assume "valid_ino f' ino \<and> 10 < ino"
  note I = image_invD [OF removalD(1) [OF rm]] and R = entry_removedD [OF removalD(4) [OF rm]]
  define tg where "tg = target (nodes_of f ! i)"
  note T = removalD(6, 8, 9) [OF rm, folded tg_def] and L = R(5) [folded tg_def]
  from \<open>valid_ino f' ino \<and> 10 < ino\<close> have v: "valid_ino f ino" "10 < ino" using R(8) by auto
  note ok = link_okD [OF I(7) v]
  have refs': "refs f' k = refs f k - {i}" for k by (rule removal_refs [OF rm])
  have link_same: "n_link (nodes_of f' ! j) = n_link (nodes_of f ! j)" if "j \<in> refs f k" for j k
    using that prunesD(6) [OF R(2)] attached_bounds [OF _ I(3)] by (auto simp: refs_def)
  show "link_ok f' ino"
  proof (cases "ino = tg")
    case ne: False
    then have same: "refs f' ino = refs f ino" using refs' T(3) by (auto simp: refs_def tg_def)
    have "inode_of f' ino = inode_of f ino \<or>
        Inode_is_dir (inode_of f ino) \<and> 2 < i_links_count (inode_of f ino) \<and>
        inode_of f' ino = (inode_of f ino)\<lparr>i_links_count := i_links_count (inode_of f ino) - 1\<rparr>"
      using L v(1) ne by (simp add: links_released_def)
    moreover have "2 \<le> i_links_count (inode_of f ino) - 1" if "2 < i_links_count (inode_of f ino)"
      using that unat_diff_le [of 1 "i_links_count (inode_of f ino)"] by (simp add: word_less_nat_alt word_le_nat_alt)
    ultimately show ?thesis using ok same link_same unfolding link_ok_def by auto
  next
    case True
    show ?thesis
    proof (cases "Inode_is_dir (inode_of f tg)")
      case dir: True
      then have nl: "n_link (nodes_of f ! j) = None \<and> n_inode (nodes_of f ! j) = tg \<and> j < length (nodes_of f)"
        if "j \<in> refs f tg" for j
        using T(2) that attached_bounds [OF _ I(3)] by (auto simp: link_ok_def refs_def target_def)
      then have "j = i" if "j \<in> refs f tg" for j
        using that nodes_invD(6) [OF I(5), of j i] nl [OF that] nl [OF T(3)] by simp
      then have "refs f' tg = {}" using refs' by blast
      then show ?thesis using removal_dirs [OF rm T(1)] dir True by (simp add: link_ok_def)
    next
      case reg: False
      then have c: "unat (i_links_count (inode_of f tg)) = card (refs f tg)" using T(2) by (simp add: link_ok_def)
      have fin: "finite (refs f tg)" by (rule finite_refs [OF I(3)])
      then have "0 < card (refs f tg)" using T(3) by (auto simp: card_gt_0_iff)
      then have u: "unat (i_links_count (inode_of f tg) - 1) = card (refs f tg) - 1"
        using c by (metis unat_minus_one unat_0 less_irrefl)
      have r: "card (refs f' tg) = card (refs f tg) - 1" using refs' T(3) fin by simp
      have "\<not> Inode_is_dir (inode_of f' tg)" using removal_dirs [OF rm T(1)] reg by simp
      moreover have "unat (i_links_count (inode_of f' tg)) = card (refs f tg) - 1"
        using L u unfolding links_released_def
        by (cases "i_links_count (inode_of f tg) - 1 = 0") (auto simp: Inode_default_def)
      ultimately show ?thesis using True r by (simp add: link_ok_def)
    qed
  qed
qed

lemma ranges_blocks_append [simp]: "ranges_blocks (xs @ ys) = ranges_blocks xs @ ranges_blocks ys"
  by (simp add: ranges_blocks_def)

lemma ranges_blocks_Nil [simp]: "ranges_blocks [] = []"
  by (simp add: ranges_blocks_def)

lemma owns_reclaim:
  assumes "x \<noteq> 0 \<Longrightarrow> unat x < 2 ^ 32 - 1"
  shows "set (ranges_blocks (f_deleted_blocks (reclaim tg bs x f))) =
    owns f ODeleted \<union> set (ranges_blocks bs) \<union> owns f (ODeferred tg) \<union> (if x \<noteq> 0 then {unat x} else {})"
proof -
  have "x \<noteq> 0 \<Longrightarrow> range_blocks \<lparr>br_start = x, br_end = x + 1\<rparr> = [unat x]"
    using assms by (simp add: range_blocks_def unat_add_small)
  then show ?thesis by (auto simp: reclaim_def Let_def ranges_blocks_def split: option.splits)
qed

lemma owns_defer:
  "owns (defer_blocks tg bs f) (ODeferred tg) = owns f (ODeferred tg) \<union> set (ranges_blocks bs)"
  by (auto simp: defer_blocks_def Let_def split: option.splits)

lemma removal_xattr:
  assumes rm: "removal f f' i"
  shows "owns f' (OXattr k) \<subseteq> owns f (OXattr k)"
    "i_links_count (inode_of f (target (nodes_of f ! i))) - 1 = 0 \<Longrightarrow> owns f' (OXattr (unat (target (nodes_of f ! i) - 1))) = {}"
proof -
  note I = image_invD [OF removalD(1) [OF rm]] and R = entry_removedD [OF removalD(4) [OF rm]]
  define tg where "tg = target (nodes_of f ! i)"
  have l: "length (f_inodes f) < 2 ^ 32" using I(6) by (simp add: inodes_inv_def)
  show "owns f' (OXattr k) \<subseteq> owns f (OXattr k)"
  proof (cases "k < length (f_inodes f)")
    case True
    define ino :: u32 where "ino = of_nat (Suc k)"
    note K = index_ino [OF True l, folded ino_def]
    have "inode_of f' ino = f_inodes f' ! k" using K(3) by (simp add: inode_of_def)
    moreover have "i_xattr_block_lo (inode_of f' ino) = 0 \<or> i_xattr_block_lo (inode_of f' ino) = i_xattr_block_lo (inode_of f ino)"
      using R(5) K(1) unfolding links_released_def tg_def [symmetric]
      by (cases "ino = tg"; cases "i_links_count (inode_of f tg) - 1 = 0") (auto simp: Inode_default_def)
    ultimately show ?thesis using K(2) True R(7) by auto
  qed (use R(7) in simp)
  assume "i_links_count (inode_of f (target (nodes_of f ! i))) - 1 = 0"
  then have "i_xattr_block_lo (inode_of f' tg) = 0"
    using R(5) by (auto simp: links_released_def tg_def Inode_default_def)
  then show "owns f' (OXattr (unat (target (nodes_of f ! i) - 1))) = {}"
    by (simp add: inode_of_def tg_def)
qed

lemma removal_nodes_owned:
  assumes rm: "removal f f' i"
  shows "owns f' (ONode i) = {}" "owns f' (ONode j) \<subseteq> owns f (ONode j)"
proof -
  note I = image_invD [OF removalD(1) [OF rm]] and R = entry_removedD [OF removalD(4) [OF rm]]
  show "owns f' (ONode i) = {}" using R(4) by simp
  show "owns f' (ONode j) \<subseteq> owns f (ONode j)"
  proof (cases "attached (f_tree f') j")
    case True
    then have j: "attached (f_tree f) j" using R(4) by simp
    note D = prunesD(7, 8) [OF R(2) attached_bounds [OF j I(3)]]
    show ?thesis using True j D by (simp add: node_block_ranges_def)
  qed simp
qed

lemma removal_own:
  assumes rm: "removal f f' i"
  shows "own_inv f'"
proof -
  note I = image_invD [OF removalD(1) [OF rm]] and R = entry_removedD [OF removalD(4) [OF rm]]
  define tg where "tg = target (nodes_of f ! i)"
  define bs where "bs = node_block_ranges (nodes_of f ! i)"
  define S where "S = {ONode i, ODeferred tg, OXattr (unat (tg - 1)), ODeleted}"
  have O: "\<And>x y. x \<noteq> y \<Longrightarrow> owns f x \<inter> owns f y = {}"
    and B: "\<And>x b. b \<in> owns f x \<Longrightarrow> 4096 * b < fl_pos (f_file f) \<and> b < 2 ^ 32 - 1 \<and>
        \<not> reserved (unat (group_descriptor_blocks f)) b"
    using I(8) unfolding own_inv_def by blast+
  have n: "owns f (ONode i) = set (ranges_blocks bs)" using removalD(2) [OF rm] by (simp add: bs_def)
  have idx: "unat (tg - 1) < length (f_inodes f)"
    using valid_ino_index [OF removalD(6) [OF rm]] by (simp add: tg_def)
  note X = removal_xattr [OF rm] and W = removal_nodes_owned [OF rm]
  have "\<exists>z T. z \<in> T \<and> T \<subseteq> S \<and> owns f' z \<subseteq> (\<Union>x \<in> T. owns f x) \<and>
      (\<forall>x \<in> T. x \<noteq> z \<longrightarrow> owns f' x = {}) \<and> (\<forall>x. x \<notin> T \<longrightarrow> owns f' x \<subseteq> owns f x)"
  proof (cases "i_links_count (inode_of f tg) - 1 = 0")
    case True
    define x where "x = i_xattr_block_lo (inode_of f tg)"
    have xo: "x \<noteq> 0 \<Longrightarrow> owns f (OXattr (unat (tg - 1))) = {unat x}" using idx by (simp add: x_def inode_of_def)
    then have xs: "x \<noteq> 0 \<Longrightarrow> unat x < 2 ^ 32 - 1" using B by blast
    have d: "f_deleted_blocks f' = f_deleted_blocks (reclaim tg bs x f)" "f_deferred_blocks f' = (f_deferred_blocks f)(tg := None)"
      using R(6) True by (simp_all add: blocks_released_def tg_def [symmetric] bs_def x_def Let_def)
    have del: "owns f' ODeleted \<subseteq> (\<Union>x \<in> S. owns f x)"
      using owns_reclaim [OF xs] xo n unfolding S_def owns.simps(4) d(1) by auto
    have rest: "owns f' y = {}" if "y \<in> S" "y \<noteq> ODeleted" for y
      using that W(1) X(2) True d(2) by (auto simp: S_def tg_def simp del: owns.simps(1, 3))
    have other: "owns f' y \<subseteq> owns f y" if "y \<notin> S" for y
      using that W(2) X(1) d(2) by (cases y) (auto simp: S_def simp del: owns.simps(1, 3))
    have "ODeleted \<in> S" by (simp add: S_def)
    then show ?thesis using del rest other by (intro exI [of _ ODeleted] exI [of _ S]) blast
  next
    case False
    define T where "T = {ONode i, ODeferred tg}"
    have d: "f_deleted_blocks f' = f_deleted_blocks f"
      "f_deferred_blocks f' = (if bs = [] then f_deferred_blocks f else f_deferred_blocks (defer_blocks tg bs f))"
      using R(6) False by (simp_all add: blocks_released_def tg_def [symmetric] bs_def Let_def)
    have def: "owns f' (ODeferred tg) \<subseteq> (\<Union>x \<in> T. owns f x)"
      using owns_defer [of tg bs f] n d(2) by (cases "bs = []") (auto simp: T_def simp del: owns.simps(1))
    have other: "owns f' y \<subseteq> owns f y" if "y \<notin> T" for y
      using that W(2) X(1) d by (cases y) (auto simp: T_def defer_blocks_def Let_def simp del: owns.simps(1, 3))
    have "ODeferred tg \<in> T" "T \<subseteq> S" by (auto simp: T_def S_def)
    moreover have "owns f' x = {}" if "x \<in> T" "x \<noteq> ODeferred tg" for x
      using that W(1) by (auto simp: T_def simp del: owns.simps(1))
    ultimately show ?thesis using def other by (intro exI [of _ "ODeferred tg"] exI [of _ T]) blast
  qed
  then obtain z T where z: "z \<in> T" "owns f' z \<subseteq> (\<Union>x \<in> T. owns f x)"
    "\<And>x. x \<in> T \<Longrightarrow> x \<noteq> z \<Longrightarrow> owns f' x = {}" "\<And>x. x \<notin> T \<Longrightarrow> owns f' x \<subseteq> owns f x" by blast
  have "owns f' x \<inter> owns f' y = {}" if "x \<noteq> y" for x y
    by (rule own_merge [OF O z that]) simp
  moreover have "\<exists>y. b \<in> owns f y" if "b \<in> owns f' x" for x b
    using that z by (cases "x \<in> T"; cases "x = z") blast+
  then have "4096 * b < fl_pos (f_file f') \<and> b < 2 ^ 32 - 1 \<and> \<not> reserved (unat (group_descriptor_blocks f')) b"
    if "b \<in> owns f' x" for x b
    using that B same_store_area [OF R(1)] R(1) unfolding same_store_def by metis
  ultimately show ?thesis unfolding own_inv_def by blast
qed

lemma removal_inv:
  assumes rm: "removal f f' i"
  shows "image_inv f'"
proof -
  note I = image_invD [OF removalD(1) [OF rm]] and R = entry_removedD [OF removalD(4) [OF rm]]
  have "plain_tree (f_tree f')"
    using I(3, 4) prunesD(1, 4) [OF R(2)] wf_treeD(2) [OF I(3)] by (auto simp: plain_tree_def)
  then show ?thesis
    using I(1, 2) R(1, 3) removal_nodes [OF rm] removal_inodes [OF rm] removal_links [OF rm] removal_own [OF rm]
    by (simp add: image_inv_def same_store_def)
qed

section \<open>unlink\<close>

definition drop_parent_link :: "Formatter \<Rightarrow> u32 \<Rightarrow> bool \<Rightarrow> Formatter" where
  "drop_parent_link f ino d =
     (if d \<and> 2 < i_links_count (inode_of f ino)
      then f\<lparr>f_inodes := (f_inodes f)[unat (ino - 1) :=
             (inode_of f ino)\<lparr>i_links_count := i_links_count (inode_of f ino) - 1\<rparr>]\<rparr>
      else f)"

lemma drop_parent_link_simps [simp]:
  "f_tree (drop_parent_link f ino d) = f_tree f" "length (f_inodes (drop_parent_link f ino d)) = length (f_inodes f)"
  "f_deleted_blocks (drop_parent_link f ino d) = f_deleted_blocks f"
  "f_deferred_blocks (drop_parent_link f ino d) = f_deferred_blocks f"
  "same_store f (drop_parent_link f ino d)"
  by (simp_all add: drop_parent_link_def same_store_def)

lemma drop_parent_link_inode:
  assumes "valid_ino f ino" "valid_ino f k"
  shows "inode_of (drop_parent_link f ino d) k =
    (if k = ino \<and> d \<and> 2 < i_links_count (inode_of f ino)
     then (inode_of f ino)\<lparr>i_links_count := i_links_count (inode_of f ino) - 1\<rparr> else inode_of f k)"
  using assms valid_ino_index [OF assms(1)] valid_ino_inj [OF assms]
  by (auto simp: drop_parent_link_def inode_of_def nth_list_update)

lemma detach_wp:
  assumes inv: "image_inv f" and plain: "list_all plain_name (ps @ [n])"
    and p: "tree.walk (f_tree f) 0 ps = Some p" and rm: "remove_child (f_tree f) p n = Some t1"
  shows "act_wp (detach_from_parent (abs_path (ps @ [n])) d) Q E f =
    Q () (drop_parent_link f (n_inode (nodes_of f ! p)) d\<lparr>f_tree := t1\<rparr>)"
proof -
  note I = image_invD [OF inv]
  have pb: "p < length (nodes_of f)" using walk_bound [OF I(3) p] .
  have "lookup (f_tree f) (abs_path ps) = Some (Some p)" using lookup_abs_path [OF I(3), of ps] plain p by simp
  moreover have "unat (n_inode (nodes_of f ! p) - 1) < length (f_inodes f)"
    by (rule valid_ino_index [OF nodes_invD(4) [OF I(5) pb]])
  ultimately show ?thesis
    using pb rm unfolding detach_from_parent_def parent_of_snoc [OF plain] basename_snoc [OF plain]
    by (auto simp: wp drop_parent_link_def inode_of_def)
qed

definition drop_target_link :: "stamp \<Rightarrow> Formatter \<Rightarrow> u32 \<Rightarrow> nat \<Rightarrow> Formatter" where
  "drop_target_link now f tg i =
     (let inode = inode_of f tg;
          l = i_links_count inode - 1;
          bs = node_block_ranges (nodes_of f ! i);
          g = f\<lparr>f_inodes := (f_inodes f)[unat (tg - 1) :=
                (if l = 0 then Inode_default\<lparr>i_dtime := fst now\<rparr> else inode\<lparr>i_links_count := l\<rparr>)]\<rparr>
      in if l = 0 then reclaim tg bs (i_xattr_block_lo inode) g
         else if bs = [] then g else defer_blocks tg bs g)"

lemma reclaim_fields [simp]:
  "f_inodes (reclaim tg bs x f) = f_inodes f" "f_tree (reclaim tg bs x f) = f_tree f"
  "same_store f (reclaim tg bs x f)" "f_deferred_blocks (reclaim tg bs x f) = (f_deferred_blocks f)(tg := None)"
  "f_deleted_blocks (reclaim tg bs x (f\<lparr>f_inodes := ins\<rparr>)) = f_deleted_blocks (reclaim tg bs x f)"
  by (simp_all add: reclaim_def Let_def same_store_def)

lemma defer_fields [simp]:
  "f_inodes (defer_blocks tg bs f) = f_inodes f" "f_tree (defer_blocks tg bs f) = f_tree f"
  "same_store f (defer_blocks tg bs f)" "f_deleted_blocks (defer_blocks tg bs f) = f_deleted_blocks f"
  "f_deferred_blocks (defer_blocks tg bs (f\<lparr>f_inodes := ins\<rparr>)) = f_deferred_blocks (defer_blocks tg bs f)"
  by (simp_all add: defer_blocks_def Let_def same_store_def)

lemma release_wp:
  assumes "valid_ino f tg" "10 < tg" "i < length (nodes_of f)" "0 < i_links_count (inode_of f tg)"
  shows "act_wp (release_target now tg i) Q E f = Q () (drop_target_link now f tg i)"
proof -
  have k: "unat (tg - 1) < length (f_inodes f)" by (rule valid_ino_index [OF assms(1)])
  have ten: "tg > FIRST_INODE - 1" using assms(2) by (simp add: FIRST_INODE_def)
  have comm: "(reclaim tg bs x (f\<lparr>f_inodes := a\<rparr>))\<lparr>f_inodes := b\<rparr> = reclaim tg bs x (f\<lparr>f_inodes := b\<rparr>)" for bs x a b
    by (simp add: reclaim_def Let_def)
  show ?thesis
    using k ten assms(3, 4)
    by (simp add: release_target_def wp drop_target_link_def inode_of_def Let_def comm)
qed

lemma attached_remove_leaf:
  assumes wf: "wf_tree t" and p: "tree.walk t 0 ps = Some p" and c: "child t p n = Some i"
    and leaf: "\<And>m. child t i m = None" and rm: "remove_child t p n = Some t'"
  shows "attached t' j \<longleftrightarrow> attached t j \<and> j \<noteq> i"
proof -
  note W = walk_remove_child [OF wf rm p] and wf' = wf_remove_child [OF wf rm]
  have i: "tree.walk t 0 (ps @ [n]) = Some i" using p c by (simp add: tree.walk_append)
  have "tree.walk t 0 ms = Some i" if pre: "prefix (ps @ [n]) ms" and wk: "tree.walk t 0 ms = Some j" for ms j
  proof -
    obtain ks where ks: "ms = (ps @ [n]) @ ks" using pre unfolding prefix_def by blast
    then have "tree.walk t i ks = Some j" using wk i by (simp only: tree.walk_append option.case)
    then have "ks = []" using leaf by (cases ks) simp_all
    then show ?thesis using ks i by simp
  qed
  then have "(\<exists>ms. \<not> prefix (ps @ [n]) ms \<and> tree.walk t 0 ms = Some j) \<longleftrightarrow> (\<exists>ms. tree.walk t 0 ms = Some j) \<and> j \<noteq> i"
    using walk_inj [OF wf i] by (metis option.inject prefix_order.refl)
  then show ?thesis
    unfolding attached_iff_walk [OF wf] attached_iff_walk [OF wf'] W by (metis option.distinct(1))
qed

definition node_is_directory :: "Formatter \<Rightarrow> nat \<Rightarrow> bool" where
  "node_is_directory f i \<longleftrightarrow> n_link (nodes_of f ! i) = None \<and> Inode_is_dir (inode_of f (n_inode (nodes_of f ! i)))"

lemma drop_target_link_fields:
  "f_tree (drop_target_link now f tg i) = f_tree f" "same_store f (drop_target_link now f tg i)"
  "f_inodes (drop_target_link now f tg i) = (f_inodes f)[unat (tg - 1) :=
     (if i_links_count (inode_of f tg) - 1 = 0 then Inode_default\<lparr>i_dtime := fst now\<rparr>
      else (inode_of f tg)\<lparr>i_links_count := i_links_count (inode_of f tg) - 1\<rparr>)]"
  by (simp_all add: drop_target_link_def Let_def) (simp_all add: same_store_def reclaim_def defer_blocks_def Let_def)

lemma entry_unlinked:
  assumes inv: "image_inv f" and p: "tree.walk (f_tree f) 0 ps = Some p" and c: "child (f_tree f) p n = Some i"
    and leaf: "\<And>m. child (f_tree f) i m = None" and rm: "remove_child (f_tree f) p n = Some t1"
  defines "f1 \<equiv> drop_parent_link f (n_inode (nodes_of f ! p)) (node_is_directory f i)\<lparr>f_tree := t1\<rparr>"
  shows "removal f (drop_target_link now f1 (target (nodes_of f ! i)) i) i"
    "0 < i_links_count (inode_of f1 (target (nodes_of f ! i)))"
proof -
  note I = image_invD [OF inv] and N = nodes_invD [OF image_invD(5) [OF inv]]
  define pin tg where "pin = n_inode (nodes_of f ! p)" and "tg = target (nodes_of f ! i)"
  have ib: "p < i" "i < length (nodes_of f)" "p < length (nodes_of f)" using child_bounds [OF I(3) c] by auto
  have par: "n_parent (nodes_of f ! i) = Some p"
    using wf_treeD(6) [OF I(3) child_SomeD(1, 2) [OF c]] by simp
  have att: "attached (f_tree f) i"
    unfolding attached_iff_walk [OF I(3)] using p c by (intro exI [of _ "ps @ [n]"]) (simp add: tree.walk_append)
  have v: "valid_ino f tg" "10 < tg" "valid_ino f pin" using N(4, 5) ib by (auto simp: tg_def pin_def)
  have ne: "tg \<noteq> pin" if "node_is_directory f i"
  proof
    assume e: "tg = pin"
    have li: "n_link (nodes_of f ! i) = None" "n_inode (nodes_of f ! i) = tg"
      using that by (simp_all add: node_is_directory_def tg_def target_def)
    show False
    proof (cases "n_link (nodes_of f ! p)")
      case None
      then show False using N(6) [OF ib(3, 2) None li(1)] li(2) e ib(1) by (simp add: pin_def)
    next
      case (Some l)
      then show False using N(3) [OF ib(3)] e v(2) by (simp add: pin_def ROOT_INODE_def)
    qed
  qed
  have in1: "inode_of f1 k = inode_of (drop_parent_link f pin (node_is_directory f i)) k" for k
    by (simp add: f1_def inode_of_def pin_def)
  have tg1: "inode_of f1 tg = inode_of f tg"
    using ne unfolding in1 drop_parent_link_inode [OF v(3, 1)] by auto
  have nd1: "nodes_of f1 ! i = nodes_of f ! i \<or> node_block_ranges (nodes_of f1 ! i) = node_block_ranges (nodes_of f ! i)"
    using remove_child_nodes(7, 8) [OF I(3) rm, of i] by (simp add: f1_def node_block_ranges_def)
  then have bs: "node_block_ranges (nodes_of f1 ! i) = node_block_ranges (nodes_of f ! i)" by auto
  have s1: "same_store f f1" "f_deleted_blocks f1 = f_deleted_blocks f" "f_deferred_blocks f1 = f_deferred_blocks f"
    "length (f_inodes f1) = length (f_inodes f)"
    using drop_parent_link_simps(5) [of f pin] by (simp_all add: f1_def pin_def same_store_def)
  define f2 where "f2 = drop_target_link now f1 tg i"
  note F = drop_target_link_fields [where now = now and f = f1 and tg = tg and i = i, folded f2_def]
  have k: "unat (tg - 1) < length (f_inodes f1)" using valid_ino_index [OF v(1)] s1(4) by simp
  have in2: "inode_of f2 ino = (if ino = tg then if i_links_count (inode_of f tg) - 1 = 0 then Inode_default\<lparr>i_dtime := fst now\<rparr>
      else (inode_of f tg)\<lparr>i_links_count := i_links_count (inode_of f tg) - 1\<rparr> else inode_of f1 ino)"
    if "valid_ino f ino" for ino
    using k valid_ino_inj [OF that v(1)] unfolding inode_of_def [of f2] F(3) tg1
    by (auto simp: nth_list_update inode_of_def [of f1])
  have "inode_of f1 ino = inode_of f ino \<or> Inode_is_dir (inode_of f ino) \<and> 2 < i_links_count (inode_of f ino) \<and>
      inode_of f1 ino = (inode_of f ino)\<lparr>i_links_count := i_links_count (inode_of f ino) - 1\<rparr>" if "valid_ino f ino" for ino
    using N(7) [OF ib(2) par] unfolding in1 drop_parent_link_inode [OF v(3) that]
    by (auto simp: pin_def node_is_directory_def)
  then have links: "links_released f f2 tg"
    unfolding links_released_def using in2 v(1) by auto
  have blocks: "blocks_released f f2 tg i"
    using s1(2, 3) bs tg1 unfolding blocks_released_def f2_def drop_target_link_def
    by (simp add: Let_def reclaim_def defer_blocks_def)
  have att2: "attached (f_tree f2) j \<longleftrightarrow> attached (f_tree f) j \<and> j \<noteq> i" for j
    using attached_remove_leaf [OF I(3) p c leaf rm] F(1) by (simp add: f1_def)
  have "entry_removed f f2 i"
    unfolding entry_removed_def
    using same_store_trans [OF s1(1) F(2)] prunes_remove_child [OF I(3) rm] wf_remove_child [OF I(3) rm] F(1)
      att2 links blocks by (simp add: f1_def tg_def)
  then show R: "removal f (drop_target_link now f1 (target (nodes_of f ! i)) i) i"
    using inv att ib(1) by (simp add: removal_def f2_def tg_def)
  have "0 < i_links_count (inode_of f tg)"
  proof (cases "Inode_is_dir (inode_of f tg)")
    case True
    then have "2 \<le> i_links_count (inode_of f tg)" using removalD(8, 9) [OF R] by (auto simp: link_ok_def tg_def)
    then show ?thesis by (simp add: word_le_nat_alt word_less_nat_alt)
  next
    case False
    then have "unat (i_links_count (inode_of f tg)) = card (refs f tg)"
      using removalD(8) [OF R] by (simp add: link_ok_def tg_def)
    moreover have "0 < card (refs f tg)"
      using removalD(9) [OF R] finite_refs [OF I(3)] by (auto simp: card_gt_0_iff tg_def)
    ultimately show ?thesis by (simp add: word_less_nat_alt)
  qed
  then show "0 < i_links_count (inode_of f1 (target (nodes_of f ! i)))" using tg1 by (simp add: tg_def)
qed

text \<open>Up to its link count an inode that still has an entry is as it was; none becomes a directory.\<close>

definition inode_kept :: "Formatter \<Rightarrow> Formatter \<Rightarrow> bool" where
  "inode_kept f f' \<longleftrightarrow>
     (\<forall>ino. valid_ino f ino \<longrightarrow> Inode_is_dir (inode_of f' ino) = Inode_is_dir (inode_of f ino)) \<and>
     (\<forall>ino. valid_ino f ino \<and> refs f' ino \<noteq> {} \<longrightarrow>
        refs f ino \<noteq> {} \<and> (\<exists>l. inode_of f' ino = (inode_of f ino)\<lparr>i_links_count := l\<rparr>))"

lemma inode_links_self [simp]: "\<exists>l. inode = (inode :: Inode)\<lparr>i_links_count := l\<rparr>"
  by (rule exI [of _ "i_links_count inode"]) simp

lemma inode_kept_refl [simp]: "inode_kept f f"
  by (simp add: inode_kept_def)

lemma inode_kept_trans:
  assumes "inode_kept f g" "inode_kept g h" "length (f_inodes g) = length (f_inodes f)"
  shows "inode_kept f h"
  unfolding inode_kept_def
proof (intro conjI allI impI)
  fix ino assume "valid_ino f ino"
  then show "Inode_is_dir (inode_of h ino) = Inode_is_dir (inode_of f ino)"
    using assms by (simp add: inode_kept_def valid_ino_def)
next
  fix ino assume *: "valid_ino f ino \<and> refs h ino \<noteq> {}"
  then have "valid_ino g ino" using assms(3) by (simp add: valid_ino_def)
  with * assms(2) obtain l where l: "refs g ino \<noteq> {}" "inode_of h ino = (inode_of g ino)\<lparr>i_links_count := l\<rparr>"
    unfolding inode_kept_def by blast
  with * assms(1) obtain m where "refs f ino \<noteq> {}" "inode_of g ino = (inode_of f ino)\<lparr>i_links_count := m\<rparr>"
    unfolding inode_kept_def by blast
  with l show "refs f ino \<noteq> {}" "\<exists>l. inode_of h ino = (inode_of f ino)\<lparr>i_links_count := l\<rparr>" by auto
qed

lemma removal_kept:
  assumes rm: "removal f f' i"
  shows "inode_kept f f'"
  unfolding inode_kept_def
proof (intro conjI allI impI)
  show "Inode_is_dir (inode_of f' ino) = Inode_is_dir (inode_of f ino)" if "valid_ino f ino" for ino
    by (rule removal_dirs [OF rm that])
next
  fix ino assume v: "valid_ino f ino \<and> refs f' ino \<noteq> {}"
  note I = image_invD [OF removalD(1) [OF rm]] and R = entry_removedD [OF removalD(4) [OF rm]]
  define tg where "tg = target (nodes_of f ! i)"
  have sub: "refs f' ino = refs f ino - {i}" by (rule removal_refs [OF rm])
  have "\<exists>l. inode_of f' ino = (inode_of f ino)\<lparr>i_links_count := l\<rparr>"
  proof (cases "ino = tg")
    case False
    then have "inode_of f' ino = inode_of f ino \<or>
        inode_of f' ino = (inode_of f ino)\<lparr>i_links_count := i_links_count (inode_of f ino) - 1\<rparr>"
      using R(5) v by (auto simp: links_released_def tg_def)
    then show ?thesis by auto
  next
    case True
    have "i_links_count (inode_of f tg) - 1 \<noteq> 0"
    proof
      assume z: "i_links_count (inode_of f tg) - 1 = 0"
      then have "\<not> Inode_is_dir (inode_of f tg)" using removal_cleared [OF rm] by (simp add: tg_def)
      then have "card (refs f tg) = 1" using removalD(8) [OF rm] z by (simp add: link_ok_def tg_def)
      moreover have "i \<in> refs f tg" using removalD(9) [OF rm] by (simp add: tg_def)
      ultimately have "refs f tg = {i}" by (auto simp: card_1_singleton_iff)
      then show False using sub v True by simp
    qed
    then show ?thesis using R(5) True by (auto simp: links_released_def tg_def)
  qed
  then show "refs f ino \<noteq> {}" "\<exists>l. inode_of f' ino = (inode_of f ino)\<lparr>i_links_count := l\<rparr>"
    using sub v by auto
qed

text \<open>The paths of \<open>cut\<close> are gone, every other path leads where it did.\<close>

definition pruned :: "Formatter \<Rightarrow> Formatter \<Rightarrow> (string list \<Rightarrow> bool) \<Rightarrow> bool" where
  "pruned f f' gone \<longleftrightarrow>
     image_inv f' \<and> same_store f f' \<and> prunes (f_tree f) (f_tree f') \<and> inode_kept f f' \<and>
     (\<forall>ms. tree.walk (f_tree f') 0 ms = (if gone ms then None else tree.walk (f_tree f) 0 ms))"

lemma prunedD:
  assumes "pruned f f' gone"
  shows "image_inv f'" "same_store f f'" "prunes (f_tree f) (f_tree f')" "inode_kept f f'"
    "tree.walk (f_tree f') 0 ms = (if gone ms then None else tree.walk (f_tree f) 0 ms)"
  using assms by (simp_all add: pruned_def)

lemma pruned_refl: "image_inv f \<Longrightarrow> (\<And>ms. gone ms \<Longrightarrow> tree.walk (f_tree f) 0 ms = None) \<Longrightarrow> pruned f f gone"
  by (simp add: pruned_def)

lemma pruned_trans:
  assumes "pruned f g gone" "pruned g h gone'"
  shows "pruned f h (\<lambda>ms. gone ms \<or> gone' ms)"
  using assms same_store_trans prunes_trans inode_kept_trans unfolding pruned_def
  by (auto simp: same_store_def)

lemma pruned_cong:
  assumes "pruned f f' gone" "\<And>ms i. tree.walk (f_tree f) 0 ms = Some i \<Longrightarrow> gone ms \<longleftrightarrow> gone' ms"
  shows "pruned f f' gone'"
proof -
  have "tree.walk (f_tree f') 0 ms = (if gone' ms then None else tree.walk (f_tree f) 0 ms)" for ms
    using prunedD(5) [OF assms(1), of ms] assms(2) [of ms] by (cases "tree.walk (f_tree f) 0 ms") auto
  then show ?thesis using assms(1) by (simp add: pruned_def)
qed

lemma unlink_entry_wp:
  assumes inv: "image_inv f" and plain: "list_all plain_name (ps @ [n])"
    and i: "tree.walk (f_tree f) 0 (ps @ [n]) = Some i" and leaf: "\<And>m. child (f_tree f) i m = None"
  shows "act_wp (act_seq (detach_from_parent (abs_path (ps @ [n])) (node_is_directory f i))
      (release_target now (target (nodes_of f ! i)) i)) (\<lambda>_ f'. pruned f f' (prefix (ps @ [n]))) E f"
proof -
  note I = image_invD [OF inv]
  obtain p where p: "tree.walk (f_tree f) 0 ps = Some p" "child (f_tree f) p n = Some i"
    using i by (auto simp: tree.walk_append split: option.splits)
  obtain t1 where rm: "remove_child (f_tree f) p n = Some t1"
    using tree.rm_total [OF I(3), of p n] walk_bound [OF I(3) p(1)] by blast
  note U = entry_unlinked(1) [OF inv p leaf rm, where now = now] entry_unlinked(2) [OF inv p leaf rm]
  define f1 where "f1 = drop_parent_link f (n_inode (nodes_of f ! p)) (node_is_directory f i)\<lparr>f_tree := t1\<rparr>"
  define f2 where "f2 = drop_target_link now f1 (target (nodes_of f ! i)) i"
  have r: "removal f f2 i" and pos: "0 < i_links_count (inode_of f1 (target (nodes_of f ! i)))"
    using U by (simp_all add: f1_def f2_def)
  have v: "valid_ino f1 (target (nodes_of f ! i))" "i < length (nodes_of f1)"
    using removalD(5, 6) [OF r] remove_child_nodes(2) [OF I(3) rm] by (simp_all add: valid_ino_def f1_def)
  have walk: "tree.walk (f_tree f2) 0 ms = (if prefix (ps @ [n]) ms then None else tree.walk (f_tree f) 0 ms)" for ms
    using walk_remove_child [OF I(3) rm p(1)] by (simp add: f2_def f1_def drop_target_link_fields)
  have "pruned f f2 (prefix (ps @ [n]))"
    unfolding pruned_def
    using removal_inv [OF r] entry_removedD(1, 2) [OF removalD(4) [OF r]] removal_kept [OF r] walk by simp
  then show ?thesis
    unfolding act_wp_simps(5) detach_wp [OF inv plain p(1) rm] f1_def [symmetric]
      release_wp [OF v(1) removalD(7) [OF r] v(2) pos] f2_def [symmetric] .
qed

lemma those_nodes:
  assumes "wf_tree t" "i < length (t_nodes t)"
  shows "those (map (node t) (n_children (t_nodes t ! i))) = Some (map ((!) (t_nodes t)) (n_children (t_nodes t ! i)))"
proof -
  have "those (map (node t) cs) = Some (map ((!) (t_nodes t)) cs)" if "\<forall>c \<in> set cs. c < length (t_nodes t)" for cs
    using that by (induction cs) (auto simp: node_def)
  then show ?thesis using children_bounded [OF assms] by blast
qed

text \<open>The loop of \<open>unlink\<close> over the entries of node \<open>i\<close>, when each call does its part.\<close>

lemma unlink_children_wp:
  assumes step: "\<And>g a. image_inv g \<Longrightarrow> tree.walk (f_tree g) 0 (ns @ [a]) \<noteq> None \<Longrightarrow>
      prunes (f_tree f) (f_tree g) \<Longrightarrow> a \<in> set (map n_name nds) \<Longrightarrow>
      (\<And>b. tree.walk (f_tree g) 0 (ns @ [a]) = Some b \<Longrightarrow> tree.walk (f_tree f) 0 (ns @ [a]) = Some b) \<Longrightarrow>
      act_wp (body a) (\<lambda>_ g'. pruned g g' (prefix (ns @ [a]))) E g"
    and "\<And>a. a \<in> set (map n_name nds) \<Longrightarrow> tree.walk (f_tree f) 0 (ns @ [a]) \<noteq> None"
    and "distinct (map n_name nds)" "set (map n_name nds) \<inter> A = {}"
    and "pruned f g (\<lambda>ms. \<exists>a \<in> A. prefix (ns @ [a]) ms)"
  shows "act_wp (act_each (\<lambda>nd. body (n_name nd)) nds)
    (\<lambda>_ g'. pruned f g' (\<lambda>ms. \<exists>a \<in> A \<union> set (map n_name nds). prefix (ns @ [a]) ms)) E g"
  using assms
proof (induction nds arbitrary: A g)
  case Nil
  then show ?case by (simp add: wp)
next
  case (Cons nd nds)
  define a where "a = n_name nd"
  note P = prunedD [OF Cons.prems(5)]
  have "a \<notin> A" using Cons.prems(4) by (simp add: a_def)
  then have "\<not> (\<exists>b \<in> A. prefix (ns @ [b]) (ns @ [a]))" by auto
  then have same: "tree.walk (f_tree g) 0 (ns @ [a]) = tree.walk (f_tree f) 0 (ns @ [a])" using P(5) by simp
  have "act_wp (body a) (\<lambda>_ g'. pruned g g' (prefix (ns @ [a]))) E g"
  proof (rule Cons.prems(1) [OF P(1) _ P(3)])
    show "tree.walk (f_tree g) 0 (ns @ [a]) \<noteq> None" using same Cons.prems(2) [of a] by (simp add: a_def)
    show "a \<in> set (map n_name (nd # nds))" by (simp add: a_def)
    show "tree.walk (f_tree f) 0 (ns @ [a]) = Some b" if "tree.walk (f_tree g) 0 (ns @ [a]) = Some b" for b
      using that same by simp
  qed
  then show ?case
    unfolding act_each.simps act_wp_simps(5) a_def [symmetric]
  proof (rule act_wp_mono)
    fix x g' assume "pruned g g' (prefix (ns @ [a]))"
    from pruned_trans [OF Cons.prems(5) this]
    have pr: "pruned f g' (\<lambda>ms. \<exists>b \<in> insert a A. prefix (ns @ [b]) ms)"
      by (rule pruned_cong) auto
    have "act_wp (act_each (\<lambda>nd. body (n_name nd)) nds)
        (\<lambda>_ g''. pruned f g'' (\<lambda>ms. \<exists>b \<in> insert a A \<union> set (map n_name nds). prefix (ns @ [b]) ms)) E g'"
      using Cons.prems(1-4) pr by (intro Cons.IH) (auto simp: a_def)
    then show "act_wp (act_each (\<lambda>nd. body (n_name nd)) nds)
        (\<lambda>_ g''. pruned f g'' (\<lambda>ms. \<exists>b \<in> A \<union> set (map n_name (nd # nds)). prefix (ns @ [b]) ms)) E g'"
      by (simp add: a_def Un_insert_right)
  qed
qed

lemma pruned_directory:
  assumes inv: "image_inv f" and pr: "pruned f g gone" and i: "tree.walk (f_tree g) 0 ns = Some i"
  shows "node_is_directory g i = node_is_directory f i" "target (nodes_of g ! i) = target (nodes_of f ! i)"
proof -
  note P = prunedD [OF pr] and I = image_invD [OF inv]
  have wf': "wf_tree (f_tree g)" using image_invD(3) [OF P(1)] .
  have "tree.walk (f_tree f) 0 ns = Some i" using i P(5) [of ns] by (simp split: if_splits)
  then have ib: "i < length (nodes_of f)" by (rule walk_bound [OF I(3)])
  note D = prunesD(3, 6) [OF P(3) ib]
  show t: "target (nodes_of g ! i) = target (nodes_of f ! i)" by (rule prunes_target [OF P(3) ib])
  have "attached (f_tree g) i" using attached_iff_walk [OF wf'] i by blast
  then have "i \<in> refs g (target (nodes_of g ! i))" by (simp add: refs_def)
  moreover have "valid_ino f (n_inode (nodes_of f ! i))" by (rule nodes_invD(4) [OF I(5) ib])
  ultimately have "n_link (nodes_of f ! i) = None \<Longrightarrow>
      \<exists>l. inode_of g (n_inode (nodes_of f ! i)) = (inode_of f (n_inode (nodes_of f ! i)))\<lparr>i_links_count := l\<rparr>"
    using P(4) t unfolding inode_kept_def by (metis empty_iff target_def option.case(1))
  then show "node_is_directory g i = node_is_directory f i" using D by (auto simp: node_is_directory_def)
qed

lemma nodes_inv_cong:
  assumes N: "nodes_inv f" and wf: "wf_tree (f_tree f)" and t: "f_tree g = f_tree f"
    and v: "\<And>ino. valid_ino f ino \<Longrightarrow> valid_ino g ino"
    and dirs: "\<And>ino. valid_ino f ino \<Longrightarrow> Inode_is_dir (inode_of g ino) = Inode_is_dir (inode_of f ino)"
  shows "nodes_inv g"
  unfolding nodes_inv_def t
proof (intro conjI allI impI, goal_cases)
  case (8 i q)
  then have i: "i < length (nodes_of f)" "n_parent (nodes_of f ! i) = Some q" by simp_all
  have "Inode_is_dir (inode_of f (n_inode (nodes_of f ! i)))" using 8 dirs [OF nodes_invD(4) [OF N i(1)]] by simp
  then have "Inode_is_dir (inode_of f (n_inode (nodes_of f ! q)))" using nodes_invD(7) [OF N i] 8 by simp
  then show ?case using dirs [OF nodes_invD(4) [OF N parent_bound [OF wf i]]] by simp
qed (use nodes_invD(1, 2) [OF N] nodes_invD(3-6) [OF N] v in \<open>auto\<close>)

lemma drop_root_link:
  assumes inv: "image_inv f"
  shows "pruned f (drop_parent_link f ROOT_INODE d) (\<lambda>_. False)"
proof -
  define g where "g = drop_parent_link f ROOT_INODE d"
  note I = image_invD [OF inv]
  have l: "length (f_inodes f) < 2 ^ 32" "10 \<le> length (f_inodes f)" "list_all wf_Inode (f_inodes f)"
    "Inode_is_dir (inode_of f ROOT_INODE)" using I(6) by (simp_all add: inodes_inv_def)
  have vr: "valid_ino f ROOT_INODE" using l by (simp add: valid_ino_def ROOT_INODE_def)
  have len: "length (f_inodes g) = length (f_inodes f)" "f_tree g = f_tree f" by (simp_all add: g_def)
  have v: "valid_ino g ino = valid_ino f ino" for ino by (simp add: valid_ino_def len)
  have io: "\<exists>l. inode_of g ino = (inode_of f ino)\<lparr>i_links_count := l\<rparr>" if "valid_ino f ino" for ino
    using drop_parent_link_inode [OF vr that, of d] by (auto simp: g_def)
  have big: "inode_of g ino = inode_of f ino" if "valid_ino f ino" "10 < ino" for ino
    using drop_parent_link_inode [OF vr that(1), of d] that(2) by (auto simp: g_def ROOT_INODE_def)
  have dirs: "Inode_is_dir (inode_of g ino) = Inode_is_dir (inode_of f ino)" if "valid_ino f ino" for ino
    using io [OF that] by auto
  have refs: "refs g ino = refs f ino" for ino by (simp add: refs_def len)
  have "nodes_inv g"
    by (rule nodes_inv_cong [OF I(5, 3) len(2)]) (simp_all add: v dirs)
  moreover have "list_all wf_Inode (f_inodes g)"
    using all_inodes [OF l(1)] all_inodes [of g wf_Inode] l(1, 3) io len v by (metis wf_Inode_update(1))
  then have "inodes_inv g" using l dirs [OF vr] len by (simp add: inodes_inv_def)
  moreover have "link_inv g"
    using I(7) big unfolding link_inv_def v link_ok_def refs len by auto
  moreover have "owns g x = owns f x" for x
  proof (cases x)
    case (OXattr k)
    have "i_xattr_block_lo (f_inodes g ! k) = i_xattr_block_lo (f_inodes f ! k)" if "k < length (f_inodes f)"
      using io [OF index_ino(1) [OF that l(1)]] index_ino(2, 3) [OF that l(1)] by (auto simp: inode_of_def)
    then show ?thesis using OXattr len by auto
  qed (simp_all add: g_def)
  then have "own_inv g"
    using I(8) same_store_area [of f g] drop_parent_link_simps(5) [of f ROOT_INODE d]
    by (simp add: own_inv_def g_def same_store_def)
  ultimately have "image_inv g"
    using I(1-4) drop_parent_link_simps(5) [of f ROOT_INODE d] len by (simp add: image_inv_def g_def same_store_def)
  moreover have "inode_kept f g" using io dirs by (simp add: inode_kept_def refs)
  ultimately show ?thesis
    using drop_parent_link_simps(5) [of f ROOT_INODE d] by (simp add: pruned_def g_def)
qed
lemma remove_child_absent:
  assumes wf: "wf_tree t" and none: "child t p n = None" and rm: "remove_child t p n = Some t'"
  shows "t' = t"
proof (rule remove_child_cases [OF wf rm])
  fix pos
  assume "pos < length (n_children (t_nodes t ! p))" "n_name (t_nodes t ! (n_children (t_nodes t ! p) ! pos)) = n"
  then show ?thesis using child_name [OF wf remove_child_bound [OF rm] nth_mem] none by fastforce
qed

lemma detach_root_wp:
  assumes inv: "image_inv f"
  shows "act_wp (act_seq (detach_from_parent ''/'' d) (release_target now ROOT_INODE 0)) (\<lambda>_ f'. pruned f f' (\<lambda>_. False)) E f"
proof -
  note I = image_invD [OF inv] and N = nodes_invD [OF image_invD(5) [OF inv]]
  have z: "0 < length (nodes_of f)" by (rule wf_treeD(2) [OF I(3)])
  have "child (f_tree f) 0 ''/'' = None"
  proof (rule ccontr)
    assume "child (f_tree f) 0 ''/'' \<noteq> None"
    then obtain c where c: "child (f_tree f) 0 ''/'' = Some c" by blast
    then show False
      using child_SomeD(3) [OF c] child_bounds [OF I(3) c] I(4) by (auto simp: plain_tree_def plain_name_def)
  qed
  moreover obtain t1 where t1: "remove_child (f_tree f) 0 ''/'' = Some t1"
    using tree.rm_total [OF I(3)] z by blast
  ultimately have "t1 = f_tree f" using remove_child_absent [OF I(3) _ t1] by blast
  moreover have "lookup (f_tree f) ''/'' = Some (Some 0)"
    using lookup_abs_path [OF I(3), of "[]"] by (simp add: abs_path_root)
  moreover have "unat (ROOT_INODE - 1) < length (f_inodes f)"
    using I(6) by (simp add: inodes_inv_def ROOT_INODE_def)
  ultimately show ?thesis
    using t1 z N(2) drop_root_link [OF inv, of d]
    by (auto simp: detach_from_parent_def release_target_def wp drop_parent_link_def inode_of_def
        ROOT_INODE_def FIRST_INODE_def)
qed

lemma children_cut:
  assumes wf: "wf_tree t" and i: "tree.walk t 0 ns = Some i" and j: "tree.walk t 0 ms = Some j"
  shows "(\<exists>a \<in> set (map n_name (map ((!) (t_nodes t)) (n_children (t_nodes t ! i)))). prefix (ns @ [a]) ms)
    = (prefix ns ms \<and> ms \<noteq> ns)"
proof
  assume "prefix ns ms \<and> ms \<noteq> ns"
  then obtain a ks where ms: "ms = ns @ a # ks" by (metis append_Nil2 list.exhaust prefixE)
  then obtain c where "child t i a = Some c" using i j by (auto simp: tree.walk_append split: option.splits)
  from child_SomeD [OF this] ms
  show "\<exists>a \<in> set (map n_name (map ((!) (t_nodes t)) (n_children (t_nodes t ! i)))). prefix (ns @ [a]) ms" by force
qed (auto simp: prefix_def)

text \<open>The end of \<open>unlink\<close>, when the entries of node \<open>i\<close> are gone.\<close>

lemma unlink_finish_wp:
  assumes inv: "image_inv f" and plain: "list_all plain_name ns" and i: "tree.walk (f_tree f) 0 ns = Some i"
    and pr: "pruned f g (\<lambda>ms. prefix ns ms \<and> ms \<noteq> ns)"
  shows "act_wp (act_seq (detach_from_parent (abs_path ns) (node_is_directory f i))
      (release_target now (target (nodes_of f ! i)) i))
    (\<lambda>_ f'. pruned f f' (\<lambda>ms. prefix ns ms \<and> (ns \<noteq> [] \<or> ms \<noteq> ns))) E g"
proof (cases "ns = []")
  case True
  then have "i = 0" "target (nodes_of f ! i) = ROOT_INODE"
    using i nodes_invD(1, 2) [OF image_invD(5) [OF inv]] by (simp_all add: target_def)
  with True have "act_wp (act_seq (detach_from_parent (abs_path ns) (node_is_directory f i))
      (release_target now (target (nodes_of f ! i)) i)) (\<lambda>_ f'. pruned g f' (\<lambda>_. False)) E g"
    using detach_root_wp [OF prunedD(1) [OF pr]] by (simp add: abs_path_root)
  then show ?thesis
    by (rule act_wp_mono) (auto intro: pruned_cong [OF pruned_trans [OF pr]] simp: True)
next
  case False
  then obtain ps b where ns: "ns = ps @ [b]" by (metis rev_exhaust)
  have wi: "tree.walk (f_tree g) 0 ns = Some i" using prunedD(5) [OF pr, of ns] i by simp
  have leaf: "child (f_tree g) i m = None" for m
    using prunedD(5) [OF pr, of "ns @ [m]"] wi by (simp add: tree.walk_append split: option.splits)
  note same = pruned_directory [OF inv pr wi]
  have "act_wp (act_seq (detach_from_parent (abs_path (ps @ [b])) (node_is_directory g i))
      (release_target now (target (nodes_of g ! i)) i)) (\<lambda>_ f'. pruned g f' (prefix (ps @ [b]))) E g"
    using unlink_entry_wp [OF prunedD(1) [OF pr], of ps b i] plain wi leaf ns by simp
  then show ?thesis
    unfolding same ns [symmetric]
    by (rule act_wp_mono) (auto intro: pruned_cong [OF pruned_trans [OF pr]] simp: False)
qed

lemma unlink_depth_ok:
  assumes "image_inv f" "list_all plain_name ns"
    and "case tree.walk (f_tree f) 0 ns of None \<Rightarrow> 0 < n | Some i \<Rightarrow> length (nodes_of f) - i < n"
  shows "act_wp (unlink_depth n now (abs_path ns) wo)
    (\<lambda>_ f'. pruned f f' (\<lambda>ms. prefix ns ms \<and> (\<not> wo \<and> ns \<noteq> [] \<or> ms \<noteq> ns)))
    (\<lambda>e f'. wo \<and> f' = f \<and> e = F_NotDirectory (abs_path ns) \<and>
       (\<exists>i. tree.walk (f_tree f) 0 ns = Some i \<and> \<not> node_is_directory f i)) f"
  using assms
proof (induction n arbitrary: f ns wo)
  case 0
  then show ?case by (simp split: option.splits)
next
  case (Suc n)
  note inv = Suc.prems(1) and plain = Suc.prems(2)
  note I = image_invD [OF inv] and N = nodes_invD [OF image_invD(5) [OF inv]]
  have look: "lookup (f_tree f) (abs_path ns) = Some (tree.walk (f_tree f) 0 ns)" by (rule lookup_abs_path [OF I(3) plain])
  show ?case
  proof (cases "tree.walk (f_tree f) 0 ns")
    case None
    have "pruned f f (\<lambda>ms. prefix ns ms \<and> (\<not> wo \<and> ns \<noteq> [] \<or> ms \<noteq> ns))"
      by (rule pruned_refl [OF inv]) (auto simp: prefix_def tree.walk_append None)
    then show ?thesis using look None by (simp add: wp)
  next
    case (Some i)
    define nd where "nd = nodes_of f ! i"
    define cs where "cs = n_children nd"
    define nds where "nds = map ((!) (nodes_of f)) cs"
    define d where "d = node_is_directory f i"
    have ib: "i < length (nodes_of f)" by (rule walk_bound [OF I(3) Some])
    have kids: "those (map (node (f_tree f)) (n_children nd)) = Some nds"
      using those_nodes [OF I(3) ib] by (simp add: nd_def nds_def cs_def)
    have idx: "unat (n_inode nd - 1) < length (f_inodes f)"
      using valid_ino_index [OF N(4) [OF ib]] by (simp add: nd_def)
    have names: "distinct (map n_name nds)"
      using wf_treeD(5) [OF I(3) ib] by (simp add: nds_def cs_def nd_def comp_def)
    have entry: "tree.walk (f_tree f) 0 (ns @ [a]) = child (f_tree f) i a" for a
      using Some by (simp add: tree.walk_append split: option.splits)
    have known: "child (f_tree f) i a \<noteq> None" if "a \<in> set (map n_name nds)" for a
      using that child_name [OF I(3) ib] by (auto simp: nds_def cs_def nd_def)
    have plain_a: "plain_name a" if "child (f_tree f) i a = Some c" for a c
      using walk_names [OF I(3, 4), of "ns @ [a]" c] entry that by simp
    have loop: "act_wp (act_each (\<lambda>c. unlink_depth n now (child_path (abs_path ns) (n_name c)) False) nds)
        (\<lambda>_ g. pruned f g (\<lambda>ms. prefix ns ms \<and> ms \<noteq> ns)) E f" for E
    proof -
      have "act_wp (act_each (\<lambda>c. unlink_depth n now (child_path (abs_path ns) (n_name c)) False) nds)
          (\<lambda>_ g. pruned f g (\<lambda>ms. \<exists>a \<in> {} \<union> set (map n_name nds). prefix (ns @ [a]) ms)) E f"
      proof (rule unlink_children_wp [where body = "\<lambda>a. unlink_depth n now (child_path (abs_path ns) a) False"])
        fix g a
        assume g: "image_inv g" "tree.walk (f_tree g) 0 (ns @ [a]) \<noteq> None" "prunes (f_tree f) (f_tree g)"
          and same: "\<And>b. tree.walk (f_tree g) 0 (ns @ [a]) = Some b \<Longrightarrow> tree.walk (f_tree f) 0 (ns @ [a]) = Some b"
        then obtain c where c: "tree.walk (f_tree g) 0 (ns @ [a]) = Some c" "child (f_tree f) i a = Some c"
          using entry by fastforce
        have "i < c" "c < length (nodes_of f)" using child_bounds [OF I(3) c(2)] by simp_all
        then have fuel: "length (nodes_of g) - c < n"
          using Suc.prems(3) Some prunesD(1) [OF g(3)] by simp
        have pa: "plain_name a" using plain_a [OF c(2)] .
        have "act_wp (unlink_depth n now (abs_path (ns @ [a])) False)
            (\<lambda>_ g'. pruned g g' (\<lambda>ms. prefix (ns @ [a]) ms \<and> (\<not> False \<and> ns @ [a] \<noteq> [] \<or> ms \<noteq> ns @ [a])))
            (\<lambda>e g'. False \<and> g' = g \<and> e = F_NotDirectory (abs_path (ns @ [a])) \<and>
              (\<exists>i. tree.walk (f_tree g) 0 (ns @ [a]) = Some i \<and> \<not> node_is_directory g i)) g"
          using Suc.IH [OF g(1), of "ns @ [a]" False] plain pa c(1) fuel by simp
        then show "act_wp (unlink_depth n now (child_path (abs_path ns) a) False)
            (\<lambda>_ g'. pruned g g' (prefix (ns @ [a]))) E g"
          unfolding child_path_abs [OF plain pa] by (rule act_wp_mono) (auto elim: pruned_cong)
      next
        show "pruned f f (\<lambda>ms. \<exists>a \<in> {}. prefix (ns @ [a]) ms)" by (rule pruned_refl [OF inv]) simp
      qed (use names known entry in auto)
      then show ?thesis
      proof (rule act_wp_mono)
        fix x g assume "pruned f g (\<lambda>ms. \<exists>a \<in> {} \<union> set (map n_name nds). prefix (ns @ [a]) ms)"
        then show "pruned f g (\<lambda>ms. prefix ns ms \<and> ms \<noteq> ns)"
        proof (rule pruned_cong)
          fix ms j assume "tree.walk (f_tree f) 0 ms = Some j"
          from children_cut [OF I(3) Some this]
          show "(\<exists>a \<in> {} \<union> set (map n_name nds). prefix (ns @ [a]) ms) = (prefix ns ms \<and> ms \<noteq> ns)"
            by (simp add: nds_def cs_def nd_def)
        qed
      qed
    qed
    show ?thesis
    proof (cases "wo \<and> \<not> d")
      case True
      then show ?thesis
        using look Some ib idx by (auto simp: wp nd_def [symmetric] d_def node_is_directory_def inode_of_def split: option.split)
    next
      case False
      have "act_wp (act_seq (act_each (\<lambda>c. unlink_depth n now (child_path (abs_path ns) (n_name c)) False) nds)
          (if wo then act_return () else act_seq (detach_from_parent (abs_path ns) d) (release_target now (target nd) i)))
        (\<lambda>_ f'. pruned f f' (\<lambda>ms. prefix ns ms \<and> (\<not> wo \<and> ns \<noteq> [] \<or> ms \<noteq> ns)))
        (\<lambda>e f'. wo \<and> f' = f \<and> e = F_NotDirectory (abs_path ns) \<and>
           (\<exists>i. tree.walk (f_tree f) 0 ns = Some i \<and> \<not> node_is_directory f i)) f"
        unfolding act_wp_simps(5)
      proof (rule act_wp_mono [OF loop])
        fix x g assume "pruned f g (\<lambda>ms. prefix ns ms \<and> ms \<noteq> ns)"
        from unlink_finish_wp [OF inv plain Some this, of now, folded d_def nd_def] this
        show "act_wp (if wo then act_return () else act_seq (detach_from_parent (abs_path ns) d) (release_target now (target nd) i))
          (\<lambda>_ f'. pruned f f' (\<lambda>ms. prefix ns ms \<and> (\<not> wo \<and> ns \<noteq> [] \<or> ms \<noteq> ns)))
          (\<lambda>e f'. wo \<and> f' = f \<and> e = F_NotDirectory (abs_path ns) \<and>
             (\<exists>i. tree.walk (f_tree f) 0 ns = Some i \<and> \<not> node_is_directory f i)) g"
          by (cases wo) (simp_all add: act_wp_simps(1))
      qed
      then show ?thesis
        using look Some ib idx False kids
        by (auto simp: wp nd_def [symmetric] d_def node_is_directory_def inode_of_def target_def split: option.splits)
    qed
  qed
qed

lemma unlink_ok:
  assumes "image_inv f" "list_all plain_name ns"
  shows "act_wp (unlink now (abs_path ns) wo)
    (\<lambda>_ f'. pruned f f' (\<lambda>ms. prefix ns ms \<and> (\<not> wo \<and> ns \<noteq> [] \<or> ms \<noteq> ns)))
    (\<lambda>e f'. wo \<and> f' = f \<and> e = F_NotDirectory (abs_path ns) \<and>
       (\<exists>i. tree.walk (f_tree f) 0 ns = Some i \<and> \<not> node_is_directory f i)) f"
proof -
  have "case tree.walk (f_tree f) 0 ns of None \<Rightarrow> 0 < Suc (length (nodes_of f))
      | Some i \<Rightarrow> length (nodes_of f) - i < Suc (length (nodes_of f))"
    by (auto split: option.splits)
  from unlink_depth_ok [OF assms this, of now wo] show ?thesis unfolding unlink_def act_wp_def .
qed

end
