(* ===== verification/Ext4_Create.thy ===== *)
theory Ext4_Create
  imports Ext4_Image
begin

text \<open>
  The pieces of \<open>create\<close> and \<open>link\<close> of \<open>common/ext4/src/formatter.rs\<close>, for images of at most 16 GiB:
  storing attributes, contents and extents, with what reading them back gives, and what adding one
  entry does to the invariant of \<open>Ext4_Image\<close>.  \<open>Ext4_Operations\<close> puts them together.
\<close>

section \<open>Reading back\<close>

definition extent_blocks :: "(u32 \<times> u32) list \<Rightarrow> nat list" where
  "extent_blocks ranges = concat (map (\<lambda>(a, b). [unat a..<unat b]) ranges)"

text \<open>
  The inode leads to the blocks \<open>bl\<close>, one for every 4096 bytes, which hold \<open>data\<close>.  The inode and the
  first \<open>p\<close> bytes of the file determine this: whatever is written behind position \<open>p\<close> does not change it.
\<close>

definition readable :: "nat \<Rightarrow> File \<Rightarrow> Inode \<Rightarrow> nat list \<Rightarrow> bytes \<Rightarrow> bool" where
  "readable p file inode bl data \<longleftrightarrow>
     length bl = (length data + 4095) div 4096 \<and>
     (\<forall>g. keeps_bytes p file g \<longrightarrow>
        (\<exists>ranges. parse_extents inode 4096 g = Some (Ok ranges) \<and> extent_blocks ranges = bl \<and>
           payload_at g bl (length data) = data))"

lemma readable_advance:
  assumes "readable (fl_pos (f_file f)) (f_file f) inode bl data" "advance f f'"
  shows "readable (fl_pos (f_file f')) (f_file f') inode bl data"
proof -
  have "fl_pos (f_file f) \<le> fl_pos (f_file f')" using assms(2) by (simp add: advance_def)
  then show ?thesis
    using assms(1) keeps_bytes_trans [OF advance_keeps [OF assms(2)]] by (auto simp: readable_def)
qed

section \<open>Storing\<close>

abbreviation room :: "Formatter \<Rightarrow> nat \<Rightarrow> bool" where
  "room f n \<equiv> payload_room f n (2 ^ 34)"

lemma advance_refl: "fl_pos (f_file f) mod 4096 = 0 \<Longrightarrow> advance f f"
  by (simp add: advance_def)

lemma advanceD:
  assumes "advance f f'"
  shows "f_block_size f' = f_block_size f" "f_inodes f' = f_inodes f" "f_tree f' = f_tree f"
    "f_deleted_blocks f' = f_deleted_blocks f" "f_deferred_blocks f' = f_deferred_blocks f"
    "group_descriptor_blocks f' = group_descriptor_blocks f" "fl_pos (f_file f) \<le> fl_pos (f_file f')"
    "fl_pos (f_file f') mod 4096 = 0" "f_uuid f' = f_uuid f" "f_label f' = f_label f"
proof -
  have e: "f' = f\<lparr>f_file := f_file f', f_size := f_size f'\<rparr>" using assms by (simp add: advance_def payload_only_def)
  show "f_block_size f' = f_block_size f" "f_inodes f' = f_inodes f" "f_tree f' = f_tree f"
    "f_deleted_blocks f' = f_deleted_blocks f" "f_deferred_blocks f' = f_deferred_blocks f"
    "f_uuid f' = f_uuid f" "f_label f' = f_label f"
    by (subst e, simp)+
qed (use assms in \<open>simp_all add: advance_def\<close>)

lemma room_position: "room f n \<Longrightarrow> fl_pos (f_file f) \<le> 2 ^ 34"
proof -
  assume "room f n"
  moreover have "(fl_pos (f_file f) + 4095) div 4096 \<le> budget (fl_pos (f_file f)) n" by (simp add: budget_def Let_def)
  ultimately have "4096 * ((fl_pos (f_file f) + 4095) div 4096) \<le> 2 ^ 34" by (simp add: payload_room_def)
  then show ?thesis by linarith
qed

lemma room_move:
  assumes "room f n" "group_descriptor_blocks f' = group_descriptor_blocks f" "f_block_size f' = f_block_size f"
    "f_size f' = f_size f" "budget (fl_pos (f_file f')) n' \<le> budget (fl_pos (f_file f)) n"
  shows "room f' n'"
proof -
  have "area_stable f' (2 ^ 34) = area_stable f (2 ^ 34)"
    using assms(2-4) group_descriptor_blocks_cong [of "f'\<lparr>f_size := s\<rparr>" "f\<lparr>f_size := s\<rparr>" for s]
    by (simp add: area_stable_def)
  then show ?thesis using assms(1, 5) by (auto simp: payload_room_def)
qed

text \<open>An image of at most 16 GiB has at most 128 block groups, so its files have at most 256 leaves.\<close>

lemma stored_leaves:
  assumes st: "stored f0 f ranges data" and pos: "fl_pos (f_file f) \<le> 2 ^ 34"
  shows "length (fill_extent_leaves_from_ranges ranges) \<le> 256"
    "length (concat (map range_blocks ranges)) \<le> 2 ^ 22"
proof -
  define G where "G = unat (group_descriptor_blocks f0)"
  have s: "ranges_ok ranges" "successively (gap G) ranges" "sorted_wrt (<) (ranges_blocks ranges)"
    "\<forall>b \<in> set (ranges_blocks ranges). \<not> reserved G b \<and> 4096 * b < fl_pos (f_file f)"
    using st by (auto simp: stored_def Let_def G_def list_all_iff)
  have b: "\<forall>b \<in> set (ranges_blocks ranges). b < 32768 * 128" using s(4) pos by fastforce
  then have n: "length ranges \<le> 128" using s by (intro few_ranges [of G]) auto
  have "distinct (ranges_blocks ranges)" using s(3) strict_sorted_iff by blast
  then have "length (ranges_blocks ranges) = card (set (ranges_blocks ranges))" by (simp add: distinct_card)
  also have "\<dots> \<le> card {..<32768 * 128 :: nat}" using b by (intro card_mono) auto
  finally show l: "length (concat (map range_blocks ranges)) \<le> 2 ^ 22" by (simp add: ranges_blocks_def)
  then have "length (concat (map range_blocks ranges)) div 32768 \<le> 2 ^ 22 div 32768" by (rule div_le_mono)
  then show "length (fill_extent_leaves_from_ranges ranges) \<le> 256"
    using extent_leaves_length [OF ranges_ok_range_ok [OF s(1)]] n by simp
qed

text \<open>Skipping reserved blocks from an aligned position.\<close>

lemma skip_advance:
  assumes bs: "f_block_size f = 4096" and pos: "fl_pos (f_file f) mod 4096 = 0" and room: "room f (4096 + m)"
  obtains u f1 where "skip_reserved_metadata_blocks f = Some f1" "f1 = f\<lparr>f_file := seek_start (4096 * u) (f_file f)\<rparr>"
    "advance f f1" "room f1 m" "current_block f1 = of_nat u" "u + 2 < 2 ^ 32"
    "budget (4096 * (u + 1)) m \<le> budget (fl_pos (f_file f)) (4096 + m)"
    "budget (4096 * u) m \<le> budget (fl_pos (f_file f)) (4096 + m)"
proof -
  define G b where "G = unat (group_descriptor_blocks f)" and "b = fl_pos (f_file f) div 4096"
  define u f1 where "u = first_usable G b" and "f1 = f\<lparr>f_file := seek_start (4096 * u) (f_file f)\<rparr>"
  have G: "G \<le> 1024" using descriptor_area_bounds(2) [OF bs] by (simp add: G_def)
  have b: "fl_pos (f_file f) = 4096 * b" using pos by (simp add: b_def mod_eq_0_iff_dvd)
  have "b \<le> 2 ^ 22" using room_position [OF room] by (simp add: b)
  note B = budget_new_block [OF G, of 4096 "4096 + m" b, folded u_def]
  have "u \<le> 2 ^ 22" using B(2) room by (simp add: payload_room_def b)
  have bu: "budget (4096 * (u + 1)) m \<le> budget (fl_pos (f_file f)) (4096 + m)"
    using B(1) by (simp add: b algebra_simps)
  have "skip_reserved_metadata_blocks f = Some f1"
    using skip_aligned_ok [OF bs b] \<open>b \<le> 2 ^ 22\<close> by (simp add: f1_def u_def G_def)
  moreover have G1: "group_descriptor_blocks f1 = group_descriptor_blocks f"
    by (rule group_descriptor_blocks_cong) (simp_all add: f1_def)
  have "b \<le> u" using first_usable_bounds(1) [OF G] by (simp add: u_def)
  then have "advance f f1" using G1 by (simp add: advance_def f1_def b)
  moreover have bs': "budget (4096 * u) m \<le> budget (fl_pos (f_file f)) (4096 + m)"
    using budget_skip [OF G, of b m] budget_mono [of m "4096 + m" "4096 * b"] by (simp add: u_def b)
  then have "room f1 m" using room_move [OF room G1] by (simp add: f1_def)
  moreover have "current_block f1 = of_nat u"
    using pos_block(1) [of f1 u 0] \<open>u \<le> 2 ^ 22\<close> bs by (simp add: f1_def)
  ultimately show ?thesis using that [OF _ f1_def] \<open>u \<le> 2 ^ 22\<close> bu bs' by simp
qed

lemma stored_nonempty:
  assumes "stored f0 f ranges data"
  shows "concat (map range_blocks ranges) \<noteq> [] \<longleftrightarrow> data \<noteq> []" "data = [] \<Longrightarrow> ranges = []"
proof -
  have l: "length (concat (map range_blocks ranges)) = (length data + 4095) div 4096" "ranges_ok ranges"
    using assms by (simp_all add: stored_def Let_def ranges_blocks_def)
  then have "length (concat (map range_blocks ranges)) = 0 \<longleftrightarrow> length data = 0" by (cases data) simp_all
  then show "concat (map range_blocks ranges) \<noteq> [] \<longleftrightarrow> data \<noteq> []" by (simp only: length_0_conv)
  show "data = [] \<Longrightarrow> ranges = []"
    using l ranges_blocks_last(1) [OF l(2)] by (auto simp: ranges_blocks_def)
qed

lemma empty_extents [simp]:
  "i_block inode = i_block Inode_default \<Longrightarrow> parse_extents inode bs g = Some (Ok [])"
proof -
  assume e: "i_block inode = i_block Inode_default"
  have "map_option (\<lambda>h. eh_magic h = EXTENT_HEADER_MAGIC) (ExtentHeader_read_from (i_block Inode_default)) = Some False"
    by code_simp
  then show ?thesis by (auto simp: parse_extents_def e)
qed

lemma stored_keeps:
  assumes st: "stored f0 f ranges data" and g: "keeps_bytes (fl_pos (f_file f)) (f_file f) g"
  shows "payload_at g (ranges_blocks ranges) (length data) = data"
proof -
  define f'' where "f'' = f\<lparr>f_file := seek_start (fl_pos (f_file f)) g\<rparr>"
  have "group_descriptor_blocks f'' = group_descriptor_blocks f"
    by (rule group_descriptor_blocks_cong) (simp_all add: f''_def)
  then have "advance f f''"
    using st g by (auto simp: f''_def advance_def keeps_bytes_def stored_def)
  from stored_advance [OF st this] show ?thesis by (simp add: stored_def Let_def f''_def)
qed

text \<open>\<open>store_extents\<close> after the payload: the inode leads to the stored bytes.\<close>

lemma store_extents_wp:
  assumes st: "stored f0 f ranges data" and bs: "f_block_size f = 4096" and room: "room f (4096 + m)"
    and blank: "i_block inode = i_block Inode_default"
  shows "act_wp (store_extents inode ranges)
    (\<lambda>inode' f'. advance f f' \<and> extent_update inode inode' \<and> room f' m \<and>
       readable (fl_pos (f_file f')) (f_file f') inode' (ranges_blocks ranges) data) E f"
proof -
  have pos: "fl_pos (f_file f) mod 4096 = 0" using st by (simp add: stored_def advance_def)
  obtain u f1 where 1: "skip_reserved_metadata_blocks f = Some f1" "f1 = f\<lparr>f_file := seek_start (4096 * u) (f_file f)\<rparr>"
    "advance f f1" "room f1 m" "current_block f1 = of_nat u" "u + 2 < 2 ^ 32"
    "budget (4096 * (u + 1)) m \<le> budget (fl_pos (f_file f)) (4096 + m)"
    "budget (4096 * u) m \<le> budget (fl_pos (f_file f)) (4096 + m)"
    by (rule skip_advance [OF bs pos room])
  have bs1: "f_block_size f1 = 4096" using 1(2) bs by simp
  show ?thesis
  proof (cases "data = []")
    case True
    then have "write_extents inode ranges 4096 (f_file f1) (of_nat u) = Some (inode, f_file f1, of_nat u)"
      using stored_nonempty(2) [OF st] by (simp add: write_extents_def data_blocks_of_def)
    then show ?thesis
      using True blank 1(1, 3, 4, 5) bs1
      by (auto simp: store_extents_def skip_reserved_def wp readable_def payload_at_def extent_blocks_def
          ranges_blocks_def stored_nonempty(2) [OF st])
  next
    case False
    have l: "length (fill_extent_leaves_from_ranges ranges) \<le> 256" "length (concat (map range_blocks ranges)) \<le> 2 ^ 22"
      using stored_leaves [OF st room_position [OF room]] by simp_all
    have c: "unat (of_nat u :: u32) = u" using 1(6) by (simp add: unat_of_nat_small)
    have "u + 4 < 2 ^ 32" using room_position [OF 1(4)] 1(2) by simp
    have ok: "list_all range_ok ranges" using st by (simp add: stored_def Let_def ranges_ok_range_ok)
    obtain inode' f' cur' rs where w: "write_extents inode ranges 4096 (f_file f1) (of_nat u) = Some (inode', f', cur')"
      and parse: "\<forall>g. keeps_bytes (unat cur' * 4096) f' g \<longrightarrow> parse_extents inode' 4096 g = Some (Ok rs)"
      and rs: "concat (map (\<lambda>(a, b). [unat a..<unat b]) rs) = concat (map range_blocks ranges)"
      and upd: "extent_update inode inode'" and cur: "u \<le> unat cur'" "fl_len (f_file f1) \<le> fl_len f'"
      and leaf: "\<forall>j. u + j < unat cur' \<longrightarrow> j * 340 < length (fill_extent_leaves_from_ranges ranges)"
      and p': "fl_pos f' = (if cur' = of_nat u then 4096 * u else unat cur' * 4096)"
      and frame: "\<forall>off n. off + n \<le> u * 4096 \<or> unat cur' * 4096 \<le> off \<longrightarrow> file_bytes f' off n = file_bytes (f_file f1) off n"
      using write_extents_ok [OF ok, of 4096 "of_nat u" inode "f_file f1"] False l \<open>u + 4 < 2 ^ 32\<close>
        stored_nonempty(1) [OF st] 1(2) c by (auto cong: if_cong)
    have pu: "fl_pos f' = unat cur' * 4096" using p' c by auto
    have "unat cur' \<le> u + 1" using leaf [rule_format, of 1] l(1) by (cases "unat cur' \<le> u + 1") auto
    have data: "fl_data f' i = fl_data (f_file f1) i" if "i < 4096 * u" for i
      using frame [rule_format, of i 1] that by (simp add: file_bytes_def)
    define f2 where "f2 = f1\<lparr>f_file := f'\<rparr>"
    have G2: "group_descriptor_blocks f2 = group_descriptor_blocks f1"
      by (rule group_descriptor_blocks_cong) (simp_all add: f2_def)
    have adv: "advance f1 f2"
      using G2 cur data pu payload_only_seek [of f1 f'] unfolding f2_def [symmetric]
      by (simp add: advance_def) (simp add: f2_def 1(2))
    have "unat cur' = u \<or> unat cur' = u + 1" using cur(1) \<open>unat cur' \<le> u + 1\<close> by linarith
    then have "budget (fl_pos f') m \<le> budget (fl_pos (f_file f)) (4096 + m)"
      using 1(7, 8) pu by (auto simp: algebra_simps)
    then have r2: "room f2 m" by (intro room_move [OF room]) (simp_all add: f2_def 1(2) G2)
    have "readable (fl_pos f') f' inode' (ranges_blocks ranges) data"
      unfolding readable_def
    proof (intro allI impI exI [of _ rs] conjI)
      show "length (ranges_blocks ranges) = (length data + 4095) div 4096" using st by (simp add: stored_def Let_def)
      fix g assume g: "keeps_bytes (fl_pos f') f' g"
      then show "parse_extents inode' 4096 g = Some (Ok rs)" using parse pu by simp
      have "stored f0 f2 ranges data" using stored_advance [OF st advance_trans [OF 1(3) adv]] .
      from stored_keeps [OF this, of g] g rs
      show "extent_blocks rs = ranges_blocks ranges" "payload_at g (ranges_blocks ranges) (length data) = data"
        by (simp_all add: extent_blocks_def f2_def ranges_blocks_def)
    qed
    then show ?thesis
      using 1(1, 5) bs1 w upd r2 advance_trans [OF 1(3) adv]
      by (auto simp: store_extents_def skip_reserved_def wp f2_def)
  qed
qed

definition fresh_block :: "Formatter \<Rightarrow> Formatter \<Rightarrow> nat \<Rightarrow> bool" where
  "fresh_block f f' b \<longleftrightarrow> fl_pos (f_file f) \<le> 4096 * b \<and> 4096 * b < fl_pos (f_file f') \<and> b < 2 ^ 32 - 1 \<and>
     \<not> reserved (unat (group_descriptor_blocks f)) b"

lemma stored_fresh: "stored f f' ranges data \<Longrightarrow> b \<in> set (ranges_blocks ranges) \<Longrightarrow> fresh_block f f' b"
  by (auto simp: stored_def Let_def list_all_iff fresh_block_def)

lemma fresh_advance:
  "fresh_block g g' b \<Longrightarrow> advance f g \<Longrightarrow> fl_pos (f_file g') \<le> fl_pos (f_file h) \<Longrightarrow> fresh_block f h b"
  by (auto simp: fresh_block_def advance_def)

definition xattr_values_ok :: "(string \<times> bytes) list option \<Rightarrow> bool" where
  "xattr_values_ok xattrs \<longleftrightarrow> list_all (\<lambda>(name, value). length value < 2 ^ 31) (case xattrs of None \<Rightarrow> [] | Some m \<Rightarrow> m)"

text \<open>What attributes do to a new inode.\<close>

definition xattrs_set :: "Formatter \<Rightarrow> Formatter \<Rightarrow> Inode \<Rightarrow> Inode \<Rightarrow> bool" where
  "xattrs_set f f' inode inode' \<longleftrightarrow>
     inode' = inode\<lparr>i_inline_xattrs := i_inline_xattrs inode', i_xattr_block_lo := i_xattr_block_lo inode',
       i_blocks_lo := i_blocks_lo inode'\<rparr> \<and> (wf_Inode inode \<longrightarrow> wf_Inode inode') \<and>
     (i_xattr_block_lo inode' = i_xattr_block_lo inode \<or> fresh_block f f' (unat (i_xattr_block_lo inode')))"

lemma store_xattr_block_wp:
  assumes bs: "f_block_size f = 4096" and room: "room f (4096 + 8192 + m)"
    and blk: "length blk = 4096" and set1: "\<And>g'. xattrs_set f g' inode inode1"
  shows "act_wp (store_xattr_block blk inode1) (\<lambda>inode' f'. advance f f' \<and> room f' m \<and> xattrs_set f f' inode inode') E f"
proof -
  have "room f (length blk + 8192 + m)" using room blk by simp
  from aligned_payload_ok [OF bs this] obtain f' ranges where
    p: "write_aligned_payload_bytes f blk = Some (f', ranges)" "stored f f' ranges blk" "room f' m" by blast
  have "blk \<noteq> []" using blk by auto
  then obtain r rs where r: "ranges = r # rs" using stored_nonempty(1) [OF p(2)] by (cases ranges) auto
  moreover have "ranges_ok ranges" using p(2) by (simp add: stored_def Let_def)
  ultimately have "unat (br_start r) \<in> set (ranges_blocks ranges)"
    by (simp add: ranges_ok_def ranges_blocks_def range_blocks_def word_less_nat_alt)
  then have fr: "fresh_block f f' (unat (br_start r))" by (rule stored_fresh [OF p(2)])
  obtain a b c where "inode1 = inode\<lparr>i_inline_xattrs := a, i_xattr_block_lo := b, i_blocks_lo := c\<rparr>"
    "wf_Inode inode \<longrightarrow> wf_Inode inode1" using set1 unfolding xattrs_set_def by metis
  with fr have "xattrs_set f f' inode (inode1\<lparr>i_xattr_block_lo := br_start r, i_blocks_lo := n\<rparr>)" for n
    by (simp add: xattrs_set_def wf_Inode_def)
  moreover have "advance f f'" using p(2) by (simp add: stored_def)
  ultimately show ?thesis using p(1, 3) by (simp add: store_xattr_block_def wp payload_aligned_def r)
qed

lemma create_xattrs_wp:
  assumes bs: "f_block_size f = 4096" and pos: "fl_pos (f_file f) mod 4096 = 0" and room: "room f (4096 + 8192 + m)"
    and ok: "xattr_values_ok xattrs" and wf: "wf_Inode inode"
  shows "act_wp (create_xattrs xattrs inode) (\<lambda>inode' f'. advance f f' \<and> room f' m \<and> xattrs_set f f' inode inode')
    (\<lambda>_ f'. f' = f \<and> xattrs \<noteq> None) f"
proof -
  have r0: "room f m" by (rule payload_room_mono [OF room]) simp
  have same: "advance f f" "xattrs_set f f inode inode" using pos by (simp_all add: advance_refl xattrs_set_def)
  show ?thesis
  proof (cases "xattrs = None \<or> xattrs = Some []")
    case True
    then show ?thesis using r0 same by (auto simp: create_xattrs_def wp)
  next
    case False
    then obtain xattr_map where x: "xattrs = Some xattr_map" "xattr_map \<noteq> []" by auto
    define added where "added = child_xattr_state (of_nat (length (f_inodes f)) + 1) (f_block_size f) xattr_map"
    show ?thesis
    proof (cases added)
      case (Inl e)
      then show ?thesis using x by (simp add: create_xattrs_def wp added_def)
    next
      case (Inr st)
      have "\<forall>a \<in> set (ExtendedAttribute_new ''system.data'' [] # map (\<lambda>(n, v). ExtendedAttribute_new n v) xattr_map).
          length (xa_value a) < 2 ^ 31"
        using ok x by (auto simp: xattr_values_ok_def list_all_iff ExtendedAttribute_new_def Let_def split: prod.splits)
      from xattr_areas_written [OF this, of INODE_EXTRA_SIZE 4096 "of_nat (length (f_inodes f)) + 1" st] Inr bs
      obtain inl blk where w: "write_inline st = Some (Ok inl)" "length inl = 96" "write_block st = Some (Ok blk)"
        "length blk = 4096" by (auto simp: added_def child_xattr_state_def INODE_EXTRA_SIZE_def)
      define inode1 where "inode1 = (if has_inline st then inode\<lparr>i_inline_xattrs := inl\<rparr> else inode)"
      have set1: "xattrs_set f g' inode inode1" for g' using wf w(2) by (simp add: inode1_def xattrs_set_def wf_Inode_def)
      have "act_wp (create_xattrs xattrs inode) Q E f
          = (if has_block st then act_wp (store_xattr_block blk inode1) Q E f else Q inode1 f)" for Q E
        using x Inr w wf by (simp add: create_xattrs_def wp added_def inode1_def wf_Inode_def)
      then show ?thesis
        using store_xattr_block_wp [OF bs room w(4) set1] r0 same(1) set1 by simp
    qed
  qed
qed

section \<open>Contents\<close>

lemma act_wp_return_fun [wp]: "act_wp (act_return x) Q E = Q x"
  by (simp add: wp fun_eq_iff)

text \<open>What storing the contents of a new inode promises, whatever the kind of file.\<close>

definition owner_of :: "Inode \<Rightarrow> u32 \<times> u32" where
  "owner_of inode = (uid_full inode, gid_full inode)"

definition child_stored :: "Formatter \<Rightarrow> Formatter \<Rightarrow> Inode \<Rightarrow> Inode \<Rightarrow> BlockRange list \<Rightarrow> bool" where
  "child_stored f f' inode inode' ranges \<longleftrightarrow>
     advance f f' \<and> (wf_Inode inode \<longrightarrow> wf_Inode inode') \<and> i_links_count inode' = i_links_count inode \<and>
     i_xattr_block_lo inode' = i_xattr_block_lo inode \<and> Inode_is_dir inode' = Inode_is_dir inode \<and>
     owner_of inode' = owner_of inode \<and> ranges_ok ranges \<and> (\<forall>b \<in> set (ranges_blocks ranges). fresh_block f f' b)"

lemma stored_nil: "fl_pos (f_file f) mod 4096 = 0 \<Longrightarrow> stored f f [] []"
  by (simp add: stored_def Let_def advance_refl ranges_ok_def ranges_blocks_def payload_at_def)

lemma Inode_is_dir_size [simp]:
  "Inode_is_dir (set_file_size inode sz) = Inode_is_dir inode" "Inode_is_dir (inode\<lparr>i_flags := fl\<rparr>) = Inode_is_dir inode"
  "Inode_is_dir (inode\<lparr>i_mode := i_mode inode OR 0x1FF\<rparr>) = Inode_is_dir inode"
  by (simp_all add: Inode_is_dir_def is_dir_def set_file_size_def mode_defs bit.conj_disj_distrib2)

lemma set_file_size_fields [simp]:
  "i_links_count (set_file_size inode sz) = i_links_count inode"
  "i_xattr_block_lo (set_file_size inode sz) = i_xattr_block_lo inode"
  "i_block (set_file_size inode sz) = i_block inode" "i_mode (set_file_size inode sz) = i_mode inode"
  "i_inline_xattrs (set_file_size inode sz) = i_inline_xattrs inode"
  by (simp_all add: set_file_size_def)

lemma owner_of_extents: "extent_update inode inode' \<Longrightarrow> owner_of inode' = owner_of inode"
proof -
  assume "extent_update inode inode'"
  then obtain b n fl where "inode' = inode\<lparr>i_block := b, i_blocks_lo := n, i_flags := fl\<rparr>"
    unfolding extent_update_def by metis
  then show ?thesis by (simp add: owner_of_def uid_full_def gid_full_def)
qed

lemma owner_of_size [simp]: "owner_of (set_file_size inode sz) = owner_of inode"
  by (simp add: owner_of_def uid_full_def gid_full_def set_file_size_def)

lemma child_stored_extents:
  assumes st: "stored f f1 ranges data" and adv: "advance f1 f'" and upd: "extent_update inode1 inode'"
    and "i_links_count inode1 = i_links_count inode" "i_xattr_block_lo inode1 = i_xattr_block_lo inode"
    "Inode_is_dir inode1 = Inode_is_dir inode" "wf_Inode inode \<Longrightarrow> wf_Inode inode1" "owner_of inode1 = owner_of inode"
  shows "child_stored f f' inode inode' ranges"
proof -
  have "stored f f' ranges data" by (rule stored_advance [OF st adv])
  then show ?thesis
    using assms(4-8) extent_updateD [OF upd] owner_of_extents [OF upd] stored_fresh by (auto simp: child_stored_def stored_def Let_def)
qed

lemma room_size:
  assumes "room f n" "fl_pos (f_file f) mod 4096 = 0"
  shows "n \<le> 2 ^ 34"
proof -
  obtain b where b: "fl_pos (f_file f) = 4096 * b" using assms(2) by (auto elim: dvdE)
  have "(n + 4095) div 4096 \<le> budget (fl_pos (f_file f)) n" by (simp add: budget_def Let_def b)
  then have "4096 * ((n + 4095) div 4096) \<le> 2 ^ 34" using assms(1) by (auto simp: payload_room_def)
  then show ?thesis by linarith
qed

definition file_data :: "bytes list option \<Rightarrow> bytes" where
  "file_data data = (case data of None \<Rightarrow> [] | Some reader \<Rightarrow> reader_data reader)"

lemma create_regular_wp:
  assumes bs: "f_block_size f = 4096" and pos: "fl_pos (f_file f) mod 4096 = 0"
    and room: "room f (length (file_data data) + 8192 + (4096 + m))" and blank: "i_block inode = i_block Inode_default"
  shows "act_wp (create_regular data inode) (\<lambda>(inode', ranges) f'.
      child_stored f f' inode inode' ranges \<and> room f' m \<and> i_mode inode' = i_mode inode \<and>
      file_size inode' = of_nat (length (file_data data)) \<and>
      readable (fl_pos (f_file f')) (f_file f') inode' (ranges_blocks ranges) (file_data data)) E f"
proof -
  have finish: "act_wp (store_extents (set_file_size inode (of_nat (length (file_data data)))) ranges)
      (\<lambda>inode' f'. child_stored f f' inode inode' ranges \<and> room f' m \<and> i_mode inode' = i_mode inode \<and>
         file_size inode' = of_nat (length (file_data data)) \<and>
         readable (fl_pos (f_file f')) (f_file f') inode' (ranges_blocks ranges) (file_data data)) E f1"
    if st: "stored f f1 ranges (file_data data)" and r1: "room f1 (4096 + m)" for f1 ranges
  proof (rule act_wp_mono [OF store_extents_wp [OF st _ r1]], goal_cases)
    case 1
    then show ?case using advanceD(1) [of f f1] st bs by (simp add: stored_def)
  next
    case 2
    then show ?case using blank by simp
  next
    case (3 inode' f')
    then show ?case
      using child_stored_extents [OF st, of f' _ inode' inode] extent_updateD(1, 4)
      by (fastforce simp: wf_Inode_def)
  qed
  show ?thesis
  proof (cases data)
    case None
    have "room f (4096 + m)" by (rule payload_room_mono [OF room]) simp
    then show ?thesis
      using finish [of f "[]"] stored_nil [OF pos] None by (simp add: create_regular_def wp file_data_def)
  next
    case (Some reader)
    then have d: "file_data data = reader_data reader" by (simp add: file_data_def)
    obtain u where 1: "skip_reserved_metadata_blocks (align_to_block f)
        = Some (f\<lparr>f_file := seek_start (4096 * u) (f_file f)\<rparr>)"
      "payload_inv (unat (group_descriptor_blocks f)) (4096 * u) (fl_data (f_file f))
        (f\<lparr>f_file := seek_start (4096 * u) (f_file f)\<rparr>) [] []"
      "room (f\<lparr>f_file := seek_start (4096 * u) (f_file f)\<rparr>) (length (reader_data reader) + (4096 + (4096 + m)))"
      "fl_pos (f_file f) \<le> 4096 * u"
      using aligned_start [OF bs, of "length (reader_data reader)" "4096 + m"] room d by auto
    have "length (reader_data reader) \<le> 2 ^ 34" using room_size [OF room pos] d by simp
    then have "unat (0 :: u64) + length (reader_data reader) \<le> unat MAX_FILE_SIZE" by (simp add: MAX_FILE_SIZE_def)
    from write_payload_chunks_ok [OF 1(2, 3) this] obtain f2 ranges where
      2: "write_payload_chunks (f\<lparr>f_file := seek_start (4096 * u) (f_file f)\<rparr>) reader 0 []
          = Some (Ok (of_nat (length (reader_data reader))), f2, ranges)"
      "payload_inv (unat (group_descriptor_blocks f)) (4096 * u) (fl_data (f_file f)) f2 ranges (reader_data reader)"
      "room f2 (4096 + (4096 + m))" "payload_only (f\<lparr>f_file := seek_start (4096 * u) (f_file f)\<rparr>) f2" by auto
    have "payload_only f f2" by (rule payload_only_trans [OF payload_only_seek 2(4)]) simp
    note 3 = aligned_finish [OF 2(2, 3) this 1(4)]
    have "act_wp (payload_from_reader reader) Q E (f\<lparr>f_file := seek_start (4096 * u) (f_file f)\<rparr>)
        = Q (of_nat (length (reader_data reader)), ranges) f2" for Q
      using 2(1) by (simp add: act_wp_def payload_from_reader_def write_payload_from_reader_def)
    then show ?thesis
      using finish [of "align_to_block f2" ranges] 1(1) 3 Some d
      by (simp add: create_regular_def skip_reserved_def wp)
  qed
qed

definition link_content :: "File \<Rightarrow> Inode \<Rightarrow> nat list \<Rightarrow> bytes \<Rightarrow> bool" where
  "link_content file inode bl bytes \<longleftrightarrow>
     (if length bytes < 60 then take (length bytes) (i_block inode) = bytes \<and> bl = []
      else readable (fl_pos file) file inode bl bytes)"

lemma symlink_inode:
  fixes inode :: Inode and sz :: u64
  defines "inode1 \<equiv> (set_file_size inode sz)\<lparr>i_mode := i_mode inode OR 0x1FF, i_flags := 0\<rparr>"
  shows "i_links_count inode1 = i_links_count inode" "i_xattr_block_lo inode1 = i_xattr_block_lo inode"
    "Inode_is_dir inode1 = Inode_is_dir inode" "wf_Inode inode \<Longrightarrow> wf_Inode inode1" "i_block inode1 = i_block inode"
    "file_size inode1 = sz" "owner_of inode1 = owner_of inode"
  using Inode_is_dir_size(3) [of inode] file_size_set [of inode sz] owner_of_size [of inode sz]
  by (simp_all add: inode1_def wf_Inode_def Inode_is_dir_def file_size_def owner_of_def uid_full_def gid_full_def)

lemma create_symlink_wp:
  assumes bs: "f_block_size f = 4096" and pos: "fl_pos (f_file f) mod 4096 = 0" and wf: "wf_Inode inode"
    and room: "room f (length link_target + 8192 + (4096 + m))" and blank: "i_block inode = i_block Inode_default"
  shows "act_wp (create_symlink link_target inode) (\<lambda>(inode', ranges) f'.
      child_stored f f' inode inode' ranges \<and> room f' m \<and> file_size inode' = of_nat (length link_target) \<and>
      link_content (f_file f') inode' (ranges_blocks ranges) (str_bytes link_target)) E f"
proof (cases "length link_target < 60")
  case True
  have "room f m" by (rule payload_room_mono [OF room]) simp
  moreover have "take (length link_target) (put_bytes (i_block inode) 0 (str_bytes link_target)) = str_bytes link_target"
    "wf_Inode (inode\<lparr>i_block := put_bytes (i_block inode) 0 (str_bytes link_target)\<rparr>)"
    using True wf by (simp_all add: wf_Inode_def put_bytes_splice)
  ultimately show ?thesis
    using True pos symlink_inode [of "inode\<lparr>i_block := put_bytes (i_block inode) 0 (str_bytes link_target)\<rparr>" "of_nat (length link_target)"]
    by (simp add: create_symlink_def Let_def wp child_stored_def advance_refl ranges_ok_def link_content_def
        wf_Inode_def Inode_is_dir_def file_size_def owner_of_def uid_full_def gid_full_def)
next
  case False
  define inode1 where "inode1 = (set_file_size inode (of_nat (length link_target)))
    \<lparr>i_mode := i_mode inode OR 0x1FF, i_flags := 0\<rparr>"
  have in1: "i_links_count inode1 = i_links_count inode" "i_xattr_block_lo inode1 = i_xattr_block_lo inode"
    "Inode_is_dir inode1 = Inode_is_dir inode" "wf_Inode inode \<Longrightarrow> wf_Inode inode1" "i_block inode1 = i_block Inode_default"
    "file_size inode1 = of_nat (length link_target)" "owner_of inode1 = owner_of inode"
    using symlink_inode [of inode "of_nat (length link_target)"] blank by (simp_all add: inode1_def)
  have "room f (length (str_bytes link_target) + 8192 + (4096 + m))" using room by simp
  from aligned_payload_ok [OF bs this] obtain f1 ranges where
    p: "write_aligned_payload_bytes f (str_bytes link_target) = Some (f1, ranges)"
    "stored f f1 ranges (str_bytes link_target)" "room f1 (4096 + m)" by blast
  have "f_block_size f1 = 4096" using p(2) advanceD(1) [of f f1] bs by (simp add: stored_def)
  from store_extents_wp [OF p(2) this p(3) in1(5), of E]
  have "act_wp (store_extents inode1 ranges) (\<lambda>inode' f'. child_stored f f' inode inode' ranges \<and> room f' m \<and>
      file_size inode' = of_nat (length link_target) \<and> link_content (f_file f') inode' (ranges_blocks ranges) (str_bytes link_target)) E f1"
    by (rule act_wp_mono)
      (use child_stored_extents [OF p(2)] in1 False extent_updateD(4) in \<open>auto simp: link_content_def\<close>)
  then show ?thesis
    using False p(1) by (simp add: create_symlink_def Let_def wp payload_aligned_def inode1_def)
qed

section \<open>Adding one entry\<close>

text \<open>The new node is the last one; the store only grows.\<close>

definition grown :: "Formatter \<Rightarrow> Formatter \<Rightarrow> nat \<Rightarrow> FileTreeNode \<Rightarrow> bool" where
  "grown f f' p nd \<longleftrightarrow>
     image_inv f \<and> attached (f_tree f) p \<and> plain_name (n_name nd) \<and> n_children nd = [] \<and>
     child (f_tree f) p (n_name nd) = None \<and>
     add_child (f_tree f) p nd = Some (f_tree f', length (nodes_of f)) \<and>
     f_block_size f' = f_block_size f \<and> group_descriptor_blocks f' = group_descriptor_blocks f \<and>
     fl_pos (f_file f) \<le> fl_pos (f_file f') \<and> fl_pos (f_file f') mod 4096 = 0 \<and>
     f_deleted_blocks f' = f_deleted_blocks f \<and> f_deferred_blocks f' = f_deferred_blocks f"

text \<open>A hard link: one more link for an existing file.\<close>

definition linked :: "Formatter \<Rightarrow> Formatter \<Rightarrow> FileTreeNode \<Rightarrow> bool" where
  "linked f f' nd \<longleftrightarrow>
     (\<exists>tg. n_link nd = Some tg \<and> valid_ino f tg \<and> 10 < tg \<and> \<not> Inode_is_dir (inode_of f tg) \<and>
        unat (i_links_count (inode_of f tg)) < 65535 \<and>
        (\<forall>ino. valid_ino f ino \<longrightarrow> inode_of f' ino = (if ino = tg
           then (inode_of f ino)\<lparr>i_links_count := i_links_count (inode_of f ino) + 1\<rparr> else inode_of f ino))) \<and>
     n_inode nd = ROOT_INODE \<and> node_block_ranges nd = [] \<and> length (f_inodes f') = length (f_inodes f)"

text \<open>A new inode \<open>inode\<close>, with the blocks it owns; a new directory is one more link for its parent.\<close>

definition created :: "Formatter \<Rightarrow> Formatter \<Rightarrow> nat \<Rightarrow> FileTreeNode \<Rightarrow> Inode \<Rightarrow> bool" where
  "created f f' p nd inode \<longleftrightarrow>
     n_link nd = None \<and> n_inode nd = of_nat (Suc (length (f_inodes f))) \<and>
     length (f_inodes f') = Suc (length (f_inodes f)) \<and> Suc (length (f_inodes f)) < 2 ^ 32 \<and>
     f_inodes f' ! length (f_inodes f) = inode \<and> wf_Inode inode \<and>
     i_links_count inode = (if Inode_is_dir inode then 2 else 1) \<and>
     (Inode_is_dir inode \<longrightarrow> Inode_is_dir (inode_of f (n_inode (nodes_of f ! p)))) \<and>
     (\<forall>b \<in> set (ranges_blocks (node_block_ranges nd)). fresh_block f f' b \<and> b \<noteq> unat (i_xattr_block_lo inode)) \<and>
     (i_xattr_block_lo inode \<noteq> 0 \<longrightarrow> fresh_block f f' (unat (i_xattr_block_lo inode))) \<and>
     (\<forall>ino. valid_ino f ino \<longrightarrow>
        inode_of f' ino = inode_of f ino \<or>
        Inode_is_dir (inode_of f ino) \<and> unat (i_links_count (inode_of f ino)) < 65535 \<and>
        inode_of f' ino = (inode_of f ino)\<lparr>i_links_count := i_links_count (inode_of f ino) + 1\<rparr>)"

lemma grownD:
  assumes "grown f f' p nd"
  defines "i \<equiv> length (nodes_of f)"
  shows "image_inv f" "p < i" "plain_name (n_name nd)" "wf_tree (f_tree f')" "length (nodes_of f') = Suc i"
    "nodes_of f' ! i = nd\<lparr>n_parent := Some p\<rparr>" "\<And>j. j < i \<Longrightarrow> \<exists>cs. nodes_of f' ! j = (nodes_of f ! j)\<lparr>n_children := cs\<rparr>"
    "\<And>ps ms. tree.walk (f_tree f) 0 ps = Some p \<Longrightarrow>
       tree.walk (f_tree f') 0 ms = (if ms = ps @ [n_name nd] then Some i else tree.walk (f_tree f) 0 ms)"
    "\<And>j. attached (f_tree f') j \<longleftrightarrow> attached (f_tree f) j \<or> j = i"
    "f_deleted_blocks f' = f_deleted_blocks f" "f_deferred_blocks f' = f_deferred_blocks f"
proof -
  have G: "image_inv f" "attached (f_tree f) p" "plain_name (n_name nd)" "n_children nd = []"
    "child (f_tree f) p (n_name nd) = None" "add_child (f_tree f) p nd = Some (f_tree f', i)"
    using assms by (simp_all add: grown_def)
  note wf = image_invD(3) [OF G(1)]
  show "image_inv f" "plain_name (n_name nd)" using G by simp_all
  show p: "p < i" using attached_bounds [OF G(2) wf] by (simp add: i_def)
  note pl = p [unfolded i_def]
  note A = add_childD [OF G(6) pl]
  show wf': "wf_tree (f_tree f')" by (rule wf_add_child [OF wf pl G(4-6)])
  show "length (nodes_of f') = Suc i" "nodes_of f' ! i = nd\<lparr>n_parent := Some p\<rparr>" using A(3, 4) by simp_all
  show "\<exists>cs. nodes_of f' ! j = (nodes_of f ! j)\<lparr>n_children := cs\<rparr>" if "j < i" for j
    using A(5) [OF that] by (cases "j = p") auto
  have z: "0 < length (nodes_of f)" by (rule le_less_trans [OF le0 pl])
  show walk: "tree.walk (f_tree f') 0 ms = (if ms = ps @ [n_name nd] then Some i else tree.walk (f_tree f) 0 ms)"
    if ps: "tree.walk (f_tree f) 0 ps = Some p" for ps ms
  proof (cases "tree.walk (f_tree f') 0 ms")
    case None
    then show ?thesis
      using tree.walk_add_new [OF wf pl G(4-6) z ps] tree.walk_add_old [OF wf pl G(4-6) z, of ms]
      by (cases "tree.walk (f_tree f) 0 ms") auto
  next
    case (Some j)
    from tree.walk_add_only [OF wf pl G(4-6) z this] show ?thesis
    proof
      assume "tree.walk (f_tree f) 0 ms = Some j"
      then show ?thesis using Some ps G(5) by (auto simp: tree.walk_append)
    next
      assume "j = i \<and> (\<exists>ks. ms = ks @ [n_name nd] \<and> tree.walk (f_tree f) 0 ks = Some p)"
      then show ?thesis using Some walk_inj [OF wf _ ps] by auto
    qed
  qed
  obtain ps where ps: "tree.walk (f_tree f) 0 ps = Some p" using G(2) attached_iff_walk [OF wf] by blast
  have "tree.walk (f_tree f) 0 (ps @ [n_name nd]) = None" using ps G(5) by (simp add: tree.walk_append)
  then show "attached (f_tree f') j \<longleftrightarrow> attached (f_tree f) j \<or> j = i" for j
    unfolding attached_iff_walk [OF wf] attached_iff_walk [OF wf'] walk [OF ps]
    by (metis option.distinct(1) option.inject)
  show "f_deleted_blocks f' = f_deleted_blocks f" "f_deferred_blocks f' = f_deferred_blocks f"
    using assms by (simp_all add: grown_def)
qed

definition addition :: "Formatter \<Rightarrow> Formatter \<Rightarrow> nat \<Rightarrow> FileTreeNode \<Rightarrow> bool" where
  "addition f f' p nd \<longleftrightarrow> grown f f' p nd \<and> (linked f f' nd \<or> (\<exists>inode. created f f' p nd inode))"

lemma addition_cases:
  assumes "addition f f' p nd"
  obtains (linked) tg where "grown f f' p nd" "linked f f' nd" "n_link nd = Some tg" "valid_ino f tg" "10 < tg"
      "\<not> Inode_is_dir (inode_of f tg)"
    | (created) inode where "grown f f' p nd" "created f f' p nd inode"
  using assms by (auto simp: addition_def linked_def)

text \<open>The inodes of before keep everything but their link count.\<close>

lemma addition_inodes:
  assumes "addition f f' p nd"
  shows "valid_ino f ino \<Longrightarrow> \<exists>l. inode_of f' ino = (inode_of f ino)\<lparr>i_links_count := l\<rparr>"
    "valid_ino f ino \<Longrightarrow> valid_ino f' ino" "length (f_inodes f) \<le> length (f_inodes f')" "length (f_inodes f') < 2 ^ 32"
proof -
  have "inodes_inv f" using assms by (auto simp: addition_def grown_def image_inv_def)
  then show "valid_ino f ino \<Longrightarrow> \<exists>l. inode_of f' ino = (inode_of f ino)\<lparr>i_links_count := l\<rparr>"
    and l: "length (f_inodes f) \<le> length (f_inodes f')" "length (f_inodes f') < 2 ^ 32"
    using assms by (auto simp: addition_def linked_def created_def inodes_inv_def)
  then show "valid_ino f ino \<Longrightarrow> valid_ino f' ino" by (auto simp: valid_ino_def)
qed

lemma addition_dir:
  assumes "addition f f' p nd" "valid_ino f ino"
  shows "Inode_is_dir (inode_of f' ino) = Inode_is_dir (inode_of f ino)"
  using addition_inodes(1) [OF assms] by auto

lemma created_inode:
  assumes "created f f' p nd inode"
  shows "valid_ino f' (n_inode nd)" "inode_of f' (n_inode nd) = inode" "\<not> valid_ino f (n_inode nd)"
    "unat (n_inode nd) = Suc (length (f_inodes f))"
proof -
  have c: "n_inode nd = of_nat (Suc (length (f_inodes f)))" "length (f_inodes f') = Suc (length (f_inodes f))"
    "Suc (length (f_inodes f)) < 2 ^ 32" "f_inodes f' ! length (f_inodes f) = inode"
    using assms by (simp_all add: created_def)
  then show u: "unat (n_inode nd) = Suc (length (f_inodes f))"
    by (simp only: c(1)) (rule unat_of_nat_small, simp)
  show "valid_ino f' (n_inode nd)" "inode_of f' (n_inode nd) = inode"
    using index_ino(1, 2) [of "length (f_inodes f)" f'] c by simp_all
  show "\<not> valid_ino f (n_inode nd)" using u by (simp add: valid_ino_def)
qed

lemma addition_target:
  assumes ad: "addition f f' p nd"
  shows "valid_ino f' (target nd)" "10 < target nd"
proof -
  have i: "10 \<le> length (f_inodes f)" using ad by (simp add: addition_def grown_def image_inv_def inodes_inv_def)
  from ad have "valid_ino f' (target nd) \<and> 10 < target nd"
  proof (cases rule: addition_cases)
    case (linked tg)
    then show ?thesis using addition_inodes(2) [OF ad] by (simp add: target_def)
  next
    case (created inode)
    then show ?thesis
      using created_inode [OF created(2)] i by (simp add: target_def created_def word_less_nat_alt)
  qed
  then show "valid_ino f' (target nd)" "10 < target nd" by simp_all
qed

lemma old_target:
  assumes "image_inv f" "j < length (nodes_of f)"
  shows "valid_ino f (target (nodes_of f ! j))"
  using nodes_invD(1, 4, 5) [OF image_invD(5) [OF assms(1)]] assms(2) by (cases "j = 0") (simp_all add: target_def)

lemma grown_node:
  assumes "grown f f' p nd" "j < length (nodes_of f)"
  shows "n_inode (nodes_of f' ! j) = n_inode (nodes_of f ! j)" "n_link (nodes_of f' ! j) = n_link (nodes_of f ! j)"
    "n_parent (nodes_of f' ! j) = n_parent (nodes_of f ! j)" "n_name (nodes_of f' ! j) = n_name (nodes_of f ! j)"
    "node_block_ranges (nodes_of f' ! j) = node_block_ranges (nodes_of f ! j)"
    "target (nodes_of f' ! j) = target (nodes_of f ! j)"
  using grownD(7) [OF assms] by (auto simp: node_block_ranges_def target_def split: option.split)

lemma grown_refs:
  assumes g: "grown f f' p nd"
  shows "refs f' ino = refs f ino \<union> (if ino = target nd then {length (nodes_of f)} else {})"
proof -
  have "target (nodes_of f' ! length (nodes_of f)) = target nd" using grownD(6) [OF g] by (simp add: target_def split: option.split)
  moreover have "target (nodes_of f' ! j) = target (nodes_of f ! j)" if "attached (f_tree f) j" for j
    using grown_node(6) [OF g] attached_bounds [OF that image_invD(3) [OF grownD(1) [OF g]]] by simp
  moreover have "\<not> attached (f_tree f) (length (nodes_of f))"
    using attached_bounds [OF _ image_invD(3) [OF grownD(1) [OF g]]] by blast
  ultimately show ?thesis unfolding refs_def grownD(9) [OF g] by auto
qed

lemma addition_nodes:
  assumes ad: "addition f f' p nd"
  shows "nodes_inv f'"
proof -
  have g: "grown f f' p nd" using ad by (simp add: addition_def)
  define i where "i = length (nodes_of f)"
  note I = image_invD [OF grownD(1) [OF g]] and G = grownD [OF g, folded i_def] and T = addition_target [OF ad]
  note N = nodes_invD [OF I(5), folded i_def] and O = grown_node [OF g, folded i_def] and V = addition_inodes(2) [OF ad]
  have new: "n_inode (nodes_of f' ! i) = n_inode nd" "n_link (nodes_of f' ! i) = n_link nd"
    "n_parent (nodes_of f' ! i) = Some p" "target (nodes_of f' ! i) = target nd"
    using G(6) by (simp_all add: target_def split: option.split)
  have root: "valid_ino f ROOT_INODE" using N(2) N(4) [of 0] G(2) by simp
  have kind: "n_link nd \<noteq> None \<and> n_inode nd = ROOT_INODE \<or>
      n_link nd = None \<and> \<not> valid_ino f (n_inode nd) \<and> valid_ino f' (n_inode nd) \<and>
      (Inode_is_dir (inode_of f' (n_inode nd)) \<longrightarrow> Inode_is_dir (inode_of f (n_inode (nodes_of f ! p))))"
    using ad
  proof (cases rule: addition_cases)
    case (created inode)
    then show ?thesis using created_inode [OF created(2)] by (simp add: created_def)
  qed (simp add: linked_def)
  have old: "j < i" if "j < length (nodes_of f')" "j \<noteq> i" for j using that G(5) by simp
  have uniq: False if "k < i" "n_link nd = None" "n_inode nd = n_inode (nodes_of f ! k)" for k
    using kind N(4) [OF that(1)] that(2, 3) by simp
  show ?thesis
    unfolding nodes_inv_def
  proof (intro conjI allI impI, goal_cases)
    case 1
    then show ?case using N(1) O(2) [of 0] G(2) by simp
  next
    case 2
    then show ?case using N(2) O(1) [of 0] G(2) by simp
  next
    case (3 j)
    then show ?case using old [of j] N(3) [of j] O(1, 2) [of j] new kind by (cases "j = i") auto
  next
    case (4 j)
    then show ?case using old [of j] N(4) [of j] O(1) [of j] new kind V root by (cases "j = i") auto
  next
    case (5 j)
    then show ?case using old [of j] N(5) [of j] O(6) [of j] new(4) T(1) V by (cases "j = i") auto
  next
    case (6 j)
    then show ?case using old [of j] N(5) [of j] O(6) [of j] new(4) T(2) by (cases "j = i") auto
  next
    case (7 j k)
    show ?case
    proof (cases "j = i \<or> k = i")
      case True
      then show ?thesis using 7 uniq [of j] uniq [of k] old [of j] old [of k] new(1, 2) O(1) [of j] O(1) [of k] by metis
    next
      case False
      then show ?thesis using 7 old [of j] old [of k] N(6) [of j k] O(1, 2) [of j] O(1, 2) [of k] by simp
    qed
  next
    case (8 j q)
    show ?case
    proof (cases "j = i")
      case True
      then show ?thesis
        using 8 new kind O(1) [of p] G(2) addition_dir [OF ad N(4) [of p]] by auto
    next
      case False
      then have j: "j < i" "n_parent (nodes_of f ! j) = Some q" using 8 old [of j] O(3) [of j] by auto
      have q: "q < i" using parent_bound [OF I(3)] j by (simp add: i_def)
      show ?thesis
        using 8 j q N(7) [of j q] O(1, 2) [OF j(1)] O(1) [OF q] addition_dir [OF ad N(4) [OF j(1)]]
          addition_dir [OF ad N(4) [OF q]] by auto
    qed
  qed
qed

lemma addition_links:
  assumes ad: "addition f f' p nd"
  shows "link_inv f'"
  unfolding link_inv_def
proof (intro allI impI)
  fix ino assume v: "valid_ino f' ino \<and> 10 < ino"
  have g: "grown f f' p nd" using ad by (simp add: addition_def)
  define i where "i = length (nodes_of f)"
  note I = image_invD [OF grownD(1) [OF g]] and G = grownD [OF g, folded i_def]
  note R = grown_refs [OF g, of ino, folded i_def]
  have iref: "i \<notin> refs f ino" using attached_bounds [OF _ I(3)] by (auto simp: refs_def i_def)
  have lk: "n_link (nodes_of f' ! j) = n_link (nodes_of f ! j)" if "j \<in> refs f ino" for j
    using grown_node(2) [OF g] attached_bounds [OF _ I(3)] that by (auto simp: refs_def)
  note fin = finite_refs [OF I(3), of ino]
  from ad show "link_ok f' ino"
  proof (cases rule: addition_cases)
    case (linked tg)
    then have vf: "valid_ino f ino" using v by (simp add: linked_def valid_ino_def)
    have l: "inode_of f' ino = (if ino = tg then (inode_of f ino)\<lparr>i_links_count := i_links_count (inode_of f ino) + 1\<rparr>
        else inode_of f ino)" "unat (i_links_count (inode_of f tg)) < 65535"
      using linked(2, 3) vf by (auto simp: linked_def)
    have "target nd = tg" using linked(3) by (simp add: target_def)
    then show ?thesis
      using link_okD [OF I(7) vf] v linked(6) l R lk iref fin
      by (auto simp: link_ok_def unat_add_small)
  next
    case (created inode)
    note C = created_inode [OF created(2)]
    have t: "target nd = n_inode nd" using created(2) by (simp add: created_def target_def)
    show ?thesis
    proof (cases "valid_ino f ino")
      case True
      then have "ino \<noteq> target nd" using C(3) t by auto
      moreover have "inode_of f' ino = inode_of f ino \<or>
          Inode_is_dir (inode_of f ino) \<and> unat (i_links_count (inode_of f ino)) < 65535 \<and>
          inode_of f' ino = (inode_of f ino)\<lparr>i_links_count := i_links_count (inode_of f ino) + 1\<rparr>"
        using created(2) True by (simp add: created_def)
      ultimately show ?thesis
        using link_okD [OF I(7) True] v R lk by (auto simp: link_ok_def word_le_nat_alt unat_add_small)
    next
      case False
      have "unat ino \<le> Suc (length (f_inodes f))" using v created(2) by (simp add: valid_ino_def created_def)
      then have "unat ino = Suc (length (f_inodes f))" using False v by (auto simp: valid_ino_def word_less_nat_alt)
      then have e: "ino = n_inode nd" using C(4) by (simp add: word_unat_eq_iff)
      have "refs f ino = {}"
        using False old_target [OF G(1)] attached_bounds [OF _ I(3)] by (auto simp: refs_def)
      then show ?thesis
        using R t e C(2) created(2) G(6) by (auto simp: link_ok_def created_def)
    qed
  qed
qed

text \<open>Ownership is kept when every new block is fresh and has one owner.\<close>

lemma own_grow:
  assumes own: "own_inv f" and G: "group_descriptor_blocks f' = group_descriptor_blocks f"
    and pos: "fl_pos (f_file f) \<le> fl_pos (f_file f')"
    and sub: "\<And>x. owns f' x \<subseteq> owns f x \<union> N x" and fresh: "\<And>x b. b \<in> N x \<Longrightarrow> fresh_block f f' b"
    and disj: "\<And>x y. x \<noteq> y \<Longrightarrow> N x \<inter> N y = {}"
  shows "own_inv f'"
proof -
  have o: "\<And>x y. x \<noteq> y \<Longrightarrow> owns f x \<inter> owns f y = {}"
    "\<And>x b. b \<in> owns f x \<Longrightarrow> 4096 * b < fl_pos (f_file f) \<and> b < 2 ^ 32 - 1 \<and> \<not> reserved (unat (group_descriptor_blocks f)) b"
    using own unfolding own_inv_def by blast+
  have new: "b \<notin> owns f y" if "b \<in> N x" for b x y
    using fresh [OF that] o(2) [of b y] by (auto simp: fresh_block_def)
  have "owns f' x \<inter> owns f' y = {}" if "x \<noteq> y" for x y
    using sub [of x] sub [of y] o(1) [OF that] disj [OF that] new by blast
  moreover have "4096 * b < fl_pos (f_file f') \<and> b < 2 ^ 32 - 1 \<and> \<not> reserved (unat (group_descriptor_blocks f')) b"
    if b: "b \<in> owns f' x" for x b
  proof -
    consider "b \<in> owns f x" | "b \<in> N x" using sub b by blast
    then show ?thesis using o(2) [of b x] fresh [of b x] G pos by cases (auto simp: fresh_block_def)
  qed
  ultimately show ?thesis unfolding own_inv_def by blast
qed

definition new_blocks :: "nat \<Rightarrow> nat \<Rightarrow> FileTreeNode \<Rightarrow> Inode \<Rightarrow> owner \<Rightarrow> nat set" where
  "new_blocks i k nd inode x =
     (if x = ONode i then set (ranges_blocks (node_block_ranges nd))
      else if x = OXattr k \<and> i_xattr_block_lo inode \<noteq> 0 then {unat (i_xattr_block_lo inode)} else {})"

lemma addition_own:
  assumes ad: "addition f f' p nd"
  shows "own_inv f'"
proof -
  have g: "grown f f' p nd" using ad by (simp add: addition_def)
  define i k where "i = length (nodes_of f)" and "k = length (f_inodes f)"
  note I = image_invD [OF grownD(1) [OF g]] and G = grownD [OF g, folded i_def]
  have gr: "group_descriptor_blocks f' = group_descriptor_blocks f" "fl_pos (f_file f) \<le> fl_pos (f_file f')"
    using g by (simp_all add: grown_def)
  have idx: "length (f_inodes f) < 2 ^ 32" using I(6) by (simp add: inodes_inv_def)
  have node: "owns f' (ONode j) = (if j = i then set (ranges_blocks (node_block_ranges nd)) else owns f (ONode j))" for j
    using G(6, 9) grown_node(5) [OF g, of j] attached_bounds [OF _ I(3), of j]
    by (auto simp: i_def node_block_ranges_def)
  have xat: "i_xattr_block_lo (f_inodes f' ! j) = i_xattr_block_lo (f_inodes f ! j)" if "j < k" for j
  proof -
    have j: "j < length (f_inodes f)" "j < length (f_inodes f')" using that addition_inodes(3) [OF ad] by (simp_all add: k_def)
    note A = index_ino [OF j(1) idx] and B = index_ino [OF j(2) addition_inodes(4) [OF ad]]
    from addition_inodes(1) [OF ad A(1)] obtain l where
      "inode_of f' (of_nat (Suc j)) = (inode_of f (of_nat (Suc j)))\<lparr>i_links_count := l\<rparr>" by blast
    then have "f_inodes f' ! j = (f_inodes f ! j)\<lparr>i_links_count := l\<rparr>" using A(2) B(2) by simp
    then show ?thesis by simp
  qed
  from ad show ?thesis
  proof (cases rule: addition_cases)
    case (linked tg)
    then have l: "length (f_inodes f') = k" "node_block_ranges nd = []" by (simp_all add: linked_def k_def)
    have "owns f' x = owns f x" for x
    proof (cases x)
      case (ONode j)
      have "owns f (ONode i) = {}" using attached_bounds [OF _ I(3), of i] by (auto simp: i_def)
      then show ?thesis using ONode node l(2) by (cases "j = i") (simp_all del: owns.simps)
    qed (use G(10, 11) l(1) xat in \<open>auto simp: k_def\<close>)
    then show ?thesis
      using own_grow [OF I(8) gr, of "\<lambda>_. {}"] by simp
  next
    case (created inode)
    then have c: "length (f_inodes f') = Suc k" "f_inodes f' ! k = inode" by (simp_all add: created_def k_def)
    have fr: "\<forall>b \<in> set (ranges_blocks (node_block_ranges nd)). fresh_block f f' b \<and> b \<noteq> unat (i_xattr_block_lo inode)"
      "i_xattr_block_lo inode \<noteq> 0 \<longrightarrow> fresh_block f f' (unat (i_xattr_block_lo inode))"
      using created(2) by (simp_all add: created_def)
    show ?thesis
    proof (rule own_grow [OF I(8) gr, of "new_blocks i k nd inode"])
      show "owns f' x \<subseteq> owns f x \<union> new_blocks i k nd inode x" for x
      proof (cases x)
        case (ONode j)
        then show ?thesis using node [of j] by (simp add: new_blocks_def del: owns.simps)
      next
        case (OXattr j)
        then show ?thesis using xat [of j] c by (auto simp: new_blocks_def k_def less_Suc_eq)
      qed (use G(10, 11) in \<open>auto\<close>)
      show "fresh_block f f' b" if "b \<in> new_blocks i k nd inode x" for x b
        using that fr by (auto simp: new_blocks_def split: if_splits)
      show "new_blocks i k nd inode x \<inter> new_blocks i k nd inode y = {}" if "x \<noteq> y" for x y
        using that fr(1) by (auto simp: new_blocks_def)
    qed
  qed
qed

lemma addition_inv:
  assumes ad: "addition f f' p nd"
  shows "image_inv f'"
proof -
  have g: "grown f f' p nd" using ad by (simp add: addition_def)
  note I = image_invD [OF grownD(1) [OF g]] and G = grownD [OF g]
  note N = grown_node(4) [OF g] and A = addition_inodes [OF ad]
  have z: "0 < length (nodes_of f)" using G(2) by (rule le_less_trans [OF le0])
  have "plain_name (n_name (nodes_of f' ! j))" if "j < Suc (length (nodes_of f))" "0 < j" for j
    using that I(4) N [of j] G(3, 6) by (cases "j = length (nodes_of f)") (auto simp: plain_tree_def)
  then have "plain_tree (f_tree f')" using I(4) N [OF z] G(5) by (simp add: plain_tree_def)
  moreover have "inodes_inv f'"
  proof -
    have i: "length (f_inodes f) < 2 ^ 32" "10 \<le> length (f_inodes f)" "list_all wf_Inode (f_inodes f)"
      "Inode_is_dir (inode_of f ROOT_INODE)" using I(6) by (simp_all add: inodes_inv_def)
    have r: "valid_ino f ROOT_INODE" using nodes_invD(2, 4) [OF I(5)] z by metis
    have "wf_Inode (inode_of f' ino)" if v: "valid_ino f' ino" for ino
    proof (cases "valid_ino f ino")
      case True
      have "wf_Inode (inode_of f ino)" using i(3) all_inodes [OF i(1)] True by blast
      then show ?thesis using A(1) [OF True] by auto
    next
      case False
      from ad show ?thesis
      proof (cases rule: addition_cases)
        case (linked tg)
        then show ?thesis using False v by (simp add: linked_def valid_ino_def)
      next
        case (created inode)
        have "unat ino = Suc (length (f_inodes f))" using False v created(2) by (auto simp: valid_ino_def created_def)
        then have "ino = n_inode nd" using created_inode(4) [OF created(2)] by (simp add: word_unat_eq_iff)
        then show ?thesis using created_inode(2) [OF created(2)] created(2) by (simp add: created_def)
      qed
    qed
    then have "list_all wf_Inode (f_inodes f')" using all_inodes [OF A(4)] by blast
    then show ?thesis using i A(3, 4) addition_dir [OF ad r] by (simp add: inodes_inv_def)
  qed
  ultimately show ?thesis
    using I(1) g G(4) addition_nodes [OF ad] addition_links [OF ad] addition_own [OF ad]
    by (simp add: image_inv_def grown_def)
qed

end
