(* ===== verification/Ext4_Operations.thy ===== *)
theory Ext4_Operations
  imports Ext4_Create
begin

text \<open>
  \<open>create\<close>, \<open>link\<close> and \<open>unlink\<close> of \<open>common/ext4/src/formatter.rs\<close> on canonical paths: they return, keep the
  invariant of an image under construction, and do to the name space what their names say.  A file
  that was created reads back, now and after later operations that do not remove it.
\<close>

section \<open>A new inode\<close>

lemma new_child_inode_fields:
  fixes mode :: u16 and uid gid :: "u32 option" and parent :: Inode
  defines "inode \<equiv> new_child_inode mode uid gid parent"
  shows "i_mode inode = mode" "i_block inode = i_block Inode_default" "i_xattr_block_lo inode = 0" "wf_Inode inode"
    "Inode_is_dir inode = is_dir mode"
    "owner_of inode = (case uid of Some u \<Rightarrow> u | None \<Rightarrow> uid_full parent, case gid of Some g \<Rightarrow> g | None \<Rightarrow> gid_full parent)"
proof -
  show "i_mode inode = mode" "i_block inode = i_block Inode_default" "i_xattr_block_lo inode = 0" "wf_Inode inode"
    "Inode_is_dir inode = is_dir mode"
    by (simp_all add: inode_def new_child_inode_def Let_def set_uid_def set_gid_def wf_Inode_def Inode_default_def
        Inode_is_dir_def split: option.splits)
  show "owner_of inode = (case uid of Some u \<Rightarrow> u | None \<Rightarrow> uid_full parent, case gid of Some g \<Rightarrow> g | None \<Rightarrow> gid_full parent)"
    using uid_full_set [of Inode_default] gid_full_set [of Inode_default]
    by (simp add: inode_def new_child_inode_def Let_def set_uid_def set_gid_def owner_of_def uid_full_def gid_full_def
        split: option.splits)
qed

lemma stamp_inode_fields [simp]:
  "i_mode (stamp_inode ts inode) = i_mode inode" "i_block (stamp_inode ts inode) = i_block inode"
  "i_xattr_block_lo (stamp_inode ts inode) = i_xattr_block_lo inode" "wf_Inode (stamp_inode ts inode) = wf_Inode inode"
  "Inode_is_dir (stamp_inode ts inode) = Inode_is_dir inode" "owner_of (stamp_inode ts inode) = owner_of inode"
  "i_links_count (stamp_inode ts inode) = 1"
  by (simp_all add: stamp_inode_def wf_Inode_def Inode_is_dir_def owner_of_def uid_full_def gid_full_def)

lemma xattrs_set_fields:
  assumes "xattrs_set f f' inode inode'"
  shows "i_mode inode' = i_mode inode" "i_block inode' = i_block inode" "wf_Inode inode \<Longrightarrow> wf_Inode inode'"
    "Inode_is_dir inode' = Inode_is_dir inode" "owner_of inode' = owner_of inode"
    "i_xattr_block_lo inode' = i_xattr_block_lo inode \<or> fresh_block f f' (unat (i_xattr_block_lo inode'))"
proof -
  obtain a b c where e: "inode' = inode\<lparr>i_inline_xattrs := a, i_xattr_block_lo := b, i_blocks_lo := c\<rparr>"
    and w: "wf_Inode inode \<Longrightarrow> wf_Inode inode'"
    "i_xattr_block_lo inode' = i_xattr_block_lo inode \<or> fresh_block f f' (unat (i_xattr_block_lo inode'))"
    using assms unfolding xattrs_set_def by metis
  show "i_mode inode' = i_mode inode" "i_block inode' = i_block inode" "Inode_is_dir inode' = Inode_is_dir inode"
    "owner_of inode' = owner_of inode"
    by (simp_all add: e Inode_is_dir_def owner_of_def uid_full_def gid_full_def)
  show "wf_Inode inode \<Longrightarrow> wf_Inode inode'"
    "i_xattr_block_lo inode' = i_xattr_block_lo inode \<or> fresh_block f f' (unat (i_xattr_block_lo inode'))"
    using w by simp_all
qed

lemma node_ranges_assign:
  "ranges_ok ranges \<Longrightarrow> node_block_ranges (assign_node_ranges nd ranges) = ranges"
  by (cases ranges) (auto simp: node_block_ranges_def assign_node_ranges_def ranges_ok_def)

lemma assign_fields [simp]:
  "n_name (assign_node_ranges nd ranges) = n_name nd" "n_children (assign_node_ranges nd ranges) = n_children nd"
  "n_link (assign_node_ranges nd ranges) = n_link nd" "n_inode (assign_node_ranges nd ranges) = n_inode nd"
  by (simp_all add: assign_node_ranges_def)

lemma payload_room_update [simp]:
  "payload_room (f\<lparr>f_inodes := ins\<rparr>) n lim = payload_room f n lim"
  "payload_room (f\<lparr>f_tree := t\<rparr>) n lim = payload_room f n lim"
proof -
  have "area_stable (f\<lparr>f_inodes := ins\<rparr>) lim = area_stable f lim" "area_stable (f\<lparr>f_tree := t\<rparr>) lim = area_stable f lim"
    by (simp_all add: area_stable_def group_descriptor_blocks_cong [of "f\<lparr>f_inodes := ins, f_size := s\<rparr>" "f\<lparr>f_size := s\<rparr>" for s]
        group_descriptor_blocks_cong [of "f\<lparr>f_tree := t, f_size := s\<rparr>" "f\<lparr>f_size := s\<rparr>" for s]
        group_descriptor_blocks_cong [of "f\<lparr>f_inodes := ins\<rparr>" f] group_descriptor_blocks_cong [of "f\<lparr>f_tree := t\<rparr>" f])
  then show "payload_room (f\<lparr>f_inodes := ins\<rparr>) n lim = payload_room f n lim"
    "payload_room (f\<lparr>f_tree := t\<rparr>) n lim = payload_room f n lim" by (simp_all add: payload_room_def)
qed

section \<open>create_child\<close>

text \<open>Bytes that a call of \<open>create\<close> may take for attributes, contents, an extent leaf and alignment.\<close>

definition create_cost :: "string option \<Rightarrow> bytes list option \<Rightarrow> nat" where
  "create_cost lnk data = (case lnk of Some t \<Rightarrow> length t | None \<Rightarrow> length (file_data data)) + 24576"

text \<open>What the inode of a new entry says and leads to.\<close>

definition content_ok :: "File \<Rightarrow> Inode \<Rightarrow> nat list \<Rightarrow> u16 \<Rightarrow> string option \<Rightarrow> bytes list option \<Rightarrow> bool" where
  "content_ok file inode bl mode lnk data \<longleftrightarrow>
     (if is_dir mode then i_mode inode = mode \<and> bl = []
      else case lnk of
        Some t \<Rightarrow> file_size inode = of_nat (length t) \<and> link_content file inode bl (str_bytes t)
      | None \<Rightarrow> i_mode inode = mode \<and> file_size inode = of_nat (length (file_data data)) \<and>
          readable (fl_pos file) file inode bl (file_data data))"

definition new_node :: "u32 \<Rightarrow> string \<Rightarrow> BlockRange list \<Rightarrow> FileTreeNode" where
  "new_node ino n ranges = assign_node_ranges
     \<lparr>n_inode = ino, n_name = n, n_children = [], n_parent = None, n_blocks = None, n_additional_blocks = [],
      n_link = None\<rparr> ranges"

lemma new_node_ranges: "ranges_ok ranges \<Longrightarrow> node_block_ranges (new_node ino n ranges) = ranges"
  by (simp add: new_node_def node_ranges_assign)

lemma new_node_fields [simp]:
  "n_inode (new_node ino n ranges) = ino" "n_name (new_node ino n ranges) = n"
  "n_children (new_node ino n ranges) = []" "n_link (new_node ino n ranges) = None"
  by (simp_all add: new_node_def)

text \<open>The inodes after a new directory became one more link of the parent.\<close>

definition bump :: "Formatter \<Rightarrow> u32 \<Rightarrow> bool \<Rightarrow> Inode list" where
  "bump f pin d =
     (if d then (f_inodes f)[unat (pin - 1) := (inode_of f pin)\<lparr>i_links_count := i_links_count (inode_of f pin) + 1\<rparr>]
      else f_inodes f)"

lemma length_bump [simp]: "length (bump f pin d) = length (f_inodes f)"
  by (simp add: bump_def)

lemma register_wp:
  assumes "list_all plain_name (ps @ [n])" "p < length (nodes_of f)" "wf_tree (f_tree f)"
  shows "act_wp (register_child (abs_path (ps @ [n])) p inode ranges) Q E f =
    (\<exists>t'. add_child (f_tree f) p (new_node (of_nat (Suc (length (f_inodes f)))) n ranges) = Some (t', length (nodes_of f)) \<and>
       Q () (f\<lparr>f_inodes := f_inodes f @ [inode], f_tree := t'\<rparr>))"
proof -
  obtain t' where t: "add_child (f_tree f) p (new_node (of_nat (Suc (length (f_inodes f)))) n ranges) = Some (t', length (nodes_of f))"
    using tree.add_total [OF assms(3, 2)] add_childD(1) [OF _ assms(2)] by metis
  then show ?thesis
    by (simp add: register_child_def wp basename_snoc [OF assms(1)] new_node_def)
qed

lemma registered_addition:
  assumes inv: "image_inv f" and p: "tree.walk (f_tree f) 0 ps = Some p" and new: "tree.walk (f_tree f) 0 (ps @ [n]) = None"
    and n: "plain_name n" and adv: "advance f g" and room: "Suc (length (f_inodes f)) < 2 ^ 32"
    and d: "d \<longrightarrow> Inode_is_dir (inode_of f (n_inode (nodes_of f ! p))) \<and>
      unat (i_links_count (inode_of f (n_inode (nodes_of f ! p)))) < 65535"
    and wf: "wf_Inode inode" and l: "i_links_count inode = (if Inode_is_dir inode then 2 else 1)" "Inode_is_dir inode = d"
    and ok: "ranges_ok ranges"
    and fr: "\<forall>b \<in> set (ranges_blocks ranges). fresh_block f g b \<and> b \<noteq> unat (i_xattr_block_lo inode)"
    and xa: "i_xattr_block_lo inode \<noteq> 0 \<longrightarrow> fresh_block f g (unat (i_xattr_block_lo inode))"
    and t: "add_child (f_tree f) p (new_node (of_nat (Suc (length (f_inodes f)))) n ranges) = Some (t', length (nodes_of f))"
  defines "f' \<equiv> g\<lparr>f_inodes := bump f (n_inode (nodes_of f ! p)) d @ [inode], f_tree := t'\<rparr>"
    and "nd \<equiv> new_node (of_nat (Suc (length (f_inodes f)))) n ranges"
  shows "grown f f' p nd" "created f f' p nd inode"
proof -
  note I = image_invD [OF inv] and A = advanceD [OF adv]
  define pin where "pin = n_inode (nodes_of f ! p)"
  have G: "group_descriptor_blocks f' = group_descriptor_blocks f"
    using A(6) group_descriptor_blocks_cong [of f' g] by (simp add: f'_def)
  have att: "attached (f_tree f) p" using p attached_iff_walk [OF I(3)] by blast
  have "child (f_tree f) p n = None" using p new by (simp add: tree.walk_append split: option.splits)
  then show "grown f f' p nd"
    using inv att n t A G by (simp add: grown_def f'_def nd_def)
  have pv: "valid_ino f pin" using nodes_invD(4) [OF I(5)] attached_bounds [OF att I(3)] by (simp add: pin_def)
  have br: "node_block_ranges nd = ranges" using ok by (simp add: nd_def new_node_def node_ranges_assign)
  have fresh: "fresh_block f g b \<Longrightarrow> fresh_block f f' b" for b by (simp add: fresh_block_def f'_def)
  have old: "inode_of f' ino = inode_of f ino \<or>
      Inode_is_dir (inode_of f ino) \<and> unat (i_links_count (inode_of f ino)) < 65535 \<and>
      inode_of f' ino = (inode_of f ino)\<lparr>i_links_count := i_links_count (inode_of f ino) + 1\<rparr>"
    if v: "valid_ino f ino" for ino
  proof -
    have "inode_of f' ino = (bump f pin d) ! unat (ino - 1)"
      using valid_ino_index [OF v] by (simp add: f'_def pin_def inode_of_def nth_append)
    moreover have "(bump f pin d) ! unat (ino - 1) = (if d \<and> ino = pin
        then (inode_of f pin)\<lparr>i_links_count := i_links_count (inode_of f pin) + 1\<rparr> else inode_of f ino)"
      using valid_ino_index [OF pv] valid_ino_inj [OF v pv] by (auto simp: bump_def inode_of_def nth_list_update)
    ultimately show ?thesis using d by (auto simp: pin_def)
  qed
  have "f_inodes f' ! length (f_inodes f) = inode" "length (f_inodes f') = Suc (length (f_inodes f))"
    by (simp_all add: f'_def nth_append)
  then show "created f f' p nd inode"
    unfolding created_def br using old fresh fr xa room wf l d by (auto simp: nd_def)
qed

text \<open>
  The outcome of \<open>create_child\<close>: the entry \<open>n\<close> of node \<open>p\<close> is new, has a new inode with the mode, owner
  and contents asked for, and nothing else changed.
\<close>

definition child_created ::
  "Formatter \<Rightarrow> Formatter \<Rightarrow> nat \<Rightarrow> string \<Rightarrow> u16 \<Rightarrow> string option \<Rightarrow> bytes list option \<Rightarrow> u32 option \<Rightarrow> u32 option \<Rightarrow> bool" where
  "child_created f f' p n mode lnk data uid gid \<longleftrightarrow>
     (\<exists>nd inode. grown f f' p nd \<and> created f f' p nd inode \<and> n_name nd = n \<and> Inode_is_dir inode = is_dir mode \<and>
        keeps_bytes (fl_pos (f_file f)) (f_file f) (f_file f') \<and> content_ok (f_file f') inode (ranges_blocks (node_block_ranges nd)) mode lnk data \<and>
        owner_of inode = (let parent = inode_of f (n_inode (nodes_of f ! p)) in
          (case uid of Some u \<Rightarrow> u | None \<Rightarrow> uid_full parent, case gid of Some g \<Rightarrow> g | None \<Rightarrow> gid_full parent)))"

text \<open>The step of \<open>create_child\<close> between the attributes and the registration of the entry.\<close>

definition content_step ::
  "u32 \<Rightarrow> u16 \<Rightarrow> string option \<Rightarrow> bytes list option \<Rightarrow> Inode \<Rightarrow> (Inode \<times> BlockRange list) fmt" where
  "content_step pin mode lnk data inode =
     (if is_dir mode then
        act_seq (inode_update pin (\<lambda>inode. inode\<lparr>i_links_count := i_links_count inode + 1\<rparr>))
          (act_return (inode\<lparr>i_links_count := 2\<rparr>, []))
      else case lnk of
        Some link_target \<Rightarrow> create_symlink link_target inode
      | None \<Rightarrow> if is_reg mode then create_regular data inode else act_throw F_UnsupportedFiletype)"

lemma content_step_wp:
  assumes bs: "f_block_size f = 4096" and pos: "fl_pos (f_file f) mod 4096 = 0"
    and room: "room f ((case lnk of Some t \<Rightarrow> length t | None \<Rightarrow> length (file_data data)) + 8192 + (4096 + m))"
    and pv: "valid_ino f pin"
    and wf: "wf_Inode inode" and blank: "i_block inode = i_block Inode_default" and l1: "i_links_count inode = 1"
    and mode: "i_mode inode = mode" "Inode_is_dir inode = is_dir mode"
  shows "act_wp (content_step pin mode lnk data inode)
    (\<lambda>(inode', ranges) f'. \<exists>g. f' = g\<lparr>f_inodes := bump f pin (is_dir mode)\<rparr> \<and> room f' m \<and>
       child_stored f g (inode\<lparr>i_links_count := if is_dir mode then 2 else 1\<rparr>) inode' ranges \<and>
       content_ok (f_file f') inode' (ranges_blocks ranges) mode lnk data)
    (\<lambda>e f'. f' = f \<and> e = F_UnsupportedFiletype \<and> \<not> is_dir mode \<and> lnk = None \<and> \<not> is_reg mode) f"
proof (cases "is_dir mode")
  case True
  have "room f m" by (rule payload_room_mono [OF room]) simp
  then show ?thesis
    using True pos wf mode valid_ino_index [OF pv]
    by (auto simp: content_step_def wp bump_def child_stored_def advance_refl ranges_ok_def content_ok_def inode_of_def
        wf_Inode_def Inode_is_dir_def owner_of_def uid_full_def gid_full_def intro!: exI [of _ f])
next
  case False
  have same: "g\<lparr>f_inodes := bump f pin (is_dir mode)\<rparr> = g" if "advance f g" for g
    using advanceD(2) [OF that] False by (simp add: bump_def)
  have li: "inode\<lparr>i_links_count := if is_dir mode then 2 else 1\<rparr> = inode" using False l1 by simp
  have fin: "\<exists>g. f' = g\<lparr>f_inodes := bump f pin (is_dir mode)\<rparr> \<and> room f' m \<and>
      child_stored f g (inode\<lparr>i_links_count := if is_dir mode then 2 else 1\<rparr>) inode' ranges \<and>
      content_ok (f_file f') inode' (ranges_blocks ranges) mode lnk data"
    if "child_stored f f' inode inode' ranges" "room f' m" "content_ok (f_file f') inode' (ranges_blocks ranges) mode lnk data"
    for f' inode' ranges
    using that same [of f'] unfolding li by (intro exI [of _ f']) (simp add: child_stored_def)
  show ?thesis
  proof (cases lnk)
    case (Some t)
    from create_symlink_wp [OF bs pos wf _ blank, of t m] room Some
    have base: "act_wp (create_symlink t inode) (\<lambda>(inode', ranges) f'. child_stored f f' inode inode' ranges \<and> room f' m \<and>
        file_size inode' = of_nat (length t) \<and> link_content (f_file f') inode' (ranges_blocks ranges) (str_bytes t)) (\<lambda>_ _. False) f" by simp
    have st: "content_step pin mode lnk data inode = create_symlink t inode"
      using False Some by (simp add: content_step_def)
    show ?thesis
      unfolding st
    proof (rule act_wp_mono [OF base], goal_cases)
      case (1 r f')
      then show ?case using fin [of f' "fst r" "snd r"] False Some by (simp add: content_ok_def split_beta)
    qed simp
  next
    case None
    have base: "act_wp (create_regular data inode) (\<lambda>(inode', ranges) f'. child_stored f f' inode inode' ranges \<and> room f' m \<and>
        i_mode inode' = i_mode inode \<and> file_size inode' = of_nat (length (file_data data)) \<and>
        readable (fl_pos (f_file f')) (f_file f') inode' (ranges_blocks ranges) (file_data data)) (\<lambda>_ _. False) f"
      using create_regular_wp [OF bs pos _ blank, of data m] room None by simp
    have st: "content_step pin mode lnk data inode =
        (if is_reg mode then create_regular data inode else act_throw F_UnsupportedFiletype)"
      using False None by (simp add: content_step_def)
    show ?thesis
    proof (cases "is_reg mode")
      case True
      show ?thesis
        unfolding st if_P [OF True]
      proof (rule act_wp_mono [OF base], goal_cases)
        case (1 r f')
        then show ?case using fin [of f' "fst r" "snd r"] False None mode by (simp add: content_ok_def split_beta)
      qed simp
    qed (use False None in \<open>simp add: content_step_def wp\<close>)
  qed
qed

lemma fresh_nonzero: "fresh_block f g b \<Longrightarrow> b \<noteq> 0"
  by (cases "b = 0") (simp_all add: fresh_block_def reserved_def has_sparse_super_def)

lemma register_created:
  assumes inv: "image_inv f" and plain: "list_all plain_name (ps @ [n])" and p: "tree.walk (f_tree f) 0 ps = Some p"
    and new: "tree.walk (f_tree f) 0 (ps @ [n]) = None" and few: "Suc (length (f_inodes f)) < 2 ^ 32"
    and dir: "is_dir mode \<Longrightarrow> Inode_is_dir (inode_of f (n_inode (nodes_of f ! p))) \<and>
      unat (i_links_count (inode_of f (n_inode (nodes_of f ! p)))) < 65535"
    and adv: "advance f f1"
    and xa: "i_xattr_block_lo inode2 = 0 \<or> fresh_block f f1 (unat (i_xattr_block_lo inode2))"
    and in2: "wf_Inode inode2" "Inode_is_dir inode2 = is_dir mode"
      "owner_of inode2 = (case uid of Some u \<Rightarrow> u | None \<Rightarrow> uid_full (inode_of f (n_inode (nodes_of f ! p))),
         case gid of Some g \<Rightarrow> g | None \<Rightarrow> gid_full (inode_of f (n_inode (nodes_of f ! p))))"
    and st: "child_stored f1 g (inode2\<lparr>i_links_count := if is_dir mode then 2 else 1\<rparr>) inode3 ranges"
    and content: "content_ok (f_file g) inode3 (ranges_blocks ranges) mode lnk data" and room: "room g m"
  shows "act_wp (register_child (abs_path (ps @ [n])) p inode3 ranges)
    (\<lambda>_ f'. child_created f f' p n mode lnk data uid gid \<and> room f' m) E
    (g\<lparr>f_inodes := bump f1 (n_inode (nodes_of f ! p)) (is_dir mode)\<rparr>)"
proof -
  note I = image_invD [OF inv] and A1 = advanceD [OF adv]
  define pin where "pin = n_inode (nodes_of f ! p)"
  have s: "advance f1 g" "wf_Inode inode3" "i_links_count inode3 = (if is_dir mode then 2 else 1)"
    "i_xattr_block_lo inode3 = i_xattr_block_lo inode2" "Inode_is_dir inode3 = is_dir mode"
    "owner_of inode3 = owner_of inode2" "ranges_ok ranges" "\<forall>b \<in> set (ranges_blocks ranges). fresh_block f1 g b"
    using st in2 by (auto simp: child_stored_def wf_Inode_def owner_of_def uid_full_def gid_full_def)
  have ag: "advance f g" using advance_trans [OF adv s(1)] .
  note A = advanceD [OF ag]
  have b: "bump f1 pin d = bump f pin d" for d using A1(2) by (simp add: bump_def inode_of_def)
  have pb: "p < length (nodes_of f)" using walk_bound [OF I(3) p] .
  obtain t' where t: "add_child (f_tree f) p (new_node (of_nat (Suc (length (f_inodes f)))) n ranges) = Some (t', length (nodes_of f))"
    using tree.add_total [OF I(3) pb] add_childD(1) [OF _ pb] by metis
  have fr: "\<forall>b \<in> set (ranges_blocks ranges). fresh_block f g b \<and> b \<noteq> unat (i_xattr_block_lo inode3)"
  proof
    fix b assume "b \<in> set (ranges_blocks ranges)"
    then have "fresh_block f1 g b" using s(8) by simp
    moreover have "b \<noteq> unat (i_xattr_block_lo inode2)"
      using xa calculation fresh_nonzero [OF calculation] by (auto simp: fresh_block_def)
    ultimately show "fresh_block f g b \<and> b \<noteq> unat (i_xattr_block_lo inode3)"
      using fresh_advance [OF _ adv, of g b g] s(4) by simp
  qed
  have xf: "i_xattr_block_lo inode3 \<noteq> 0 \<longrightarrow> fresh_block f g (unat (i_xattr_block_lo inode3))"
    using xa s(1, 4) by (auto simp: fresh_block_def advance_def)
  have d: "is_dir mode \<longrightarrow> Inode_is_dir (inode_of f pin) \<and> unat (i_links_count (inode_of f pin)) < 65535"
    using dir by (simp add: pin_def)
  have pn: "plain_name n" using plain by simp
  have l3: "i_links_count inode3 = (if Inode_is_dir inode3 then 2 else 1)" using s(3, 5) by simp
  note R = registered_addition [OF inv p new pn ag few d [unfolded pin_def] s(2) l3 s(5, 7) fr xf t]
  define f' where "f' = g\<lparr>f_inodes := bump f pin (is_dir mode) @ [inode3], f_tree := t'\<rparr>"
  have "child_created f f' p n mode lnk data uid gid"
    unfolding child_created_def
    using R s(5, 6) in2(3) content advance_keeps [OF ag]
    by (intro exI [of _ "new_node (of_nat (Suc (length (f_inodes f)))) n ranges"] exI [of _ inode3])
      (simp add: f'_def pin_def Let_def new_node_ranges [OF s(7)])
  moreover have "room f' m" using room by (simp add: f'_def)
  ultimately show ?thesis
    using register_wp [OF plain, of p "g\<lparr>f_inodes := bump f1 pin (is_dir mode)\<rparr>" inode3 ranges] pb t I(3) A(2, 3) A1(2) b
    by (simp add: pin_def f'_def)
qed

lemma act_wp_bind_fun:
  "act_wp (act_bind m k) Q E = act_wp m (\<lambda>x. act_wp (k x) Q E) E"
  "act_wp (act_seq m1 m2) R E = act_wp m1 (\<lambda>_. act_wp m2 R E) E"
  "act_wp (if b then m3 else m4) Q E = (if b then act_wp m3 Q E else act_wp m4 Q E)"
  by (simp_all add: wp fun_eq_iff)

lemma create_child_run:
  assumes inv: "image_inv f" and plain: "list_all plain_name (ps @ [n])" and p: "tree.walk (f_tree f) 0 ps = Some p"
  defines "pin \<equiv> n_inode (nodes_of f ! p)"
  shows "act_wp (create_child now (abs_path (ps @ [n])) mode lnk ts data uid gid xattrs) Q E f =
    (if 65000 \<le> unat (i_links_count (inode_of f pin)) then E (F_MaximumLinksExceeded (abs_path ps)) f
     else act_wp (create_xattrs xattrs (new_child_inode mode uid gid (inode_of f pin)))
       (\<lambda>inode. act_wp (content_step pin mode lnk data
            (stamp_inode (case ts of Some t \<Rightarrow> t | None \<Rightarrow> FileTimestamps_default now) inode))
          (\<lambda>(inode, ranges). act_wp (register_child (abs_path (ps @ [n])) p inode ranges) Q E) E) E f)"
proof -
  note I = image_invD [OF inv]
  have pb: "p < length (nodes_of f)" using walk_bound [OF I(3) p] .
  have pv: "valid_ino f pin" using nodes_invD(4) [OF I(5) pb] by (simp add: pin_def)
  have look: "lookup (f_tree f) (parent_of (abs_path (ps @ [n]))) = Some (Some p)"
    using lookup_abs_path [OF I(3), of ps] plain p by (simp add: parent_of_snoc)
  have max: "(MAX_LINKS \<le> (ucast (i_links_count (inode_of f pin)) :: u32)) = (65000 \<le> unat (i_links_count (inode_of f pin)))"
    using unsigned_less [of "i_links_count (inode_of f pin)", where 'a = nat]
    by (simp add: MAX_LINKS_def word_le_nat_alt unat_ucast_small)
  show ?thesis
    unfolding create_child_def
    using look pb valid_ino_index [OF pv] max
    by (simp add: wp parent_of_snoc [OF plain] pin_def [symmetric] inode_of_def [symmetric]
        content_step_def Let_def case_prod_beta' act_wp_bind_fun cong: if_cong)
qed

lemma create_child_wp:
  assumes inv: "image_inv f" and plain: "list_all plain_name (ps @ [n])" and p: "tree.walk (f_tree f) 0 ps = Some p"
    and new: "tree.walk (f_tree f) 0 (ps @ [n]) = None" and room: "room f (create_cost lnk data + m)"
    and few: "Suc (length (f_inodes f)) < 2 ^ 32" and xok: "xattr_values_ok xattrs"
    and dir: "is_dir mode \<Longrightarrow> Inode_is_dir (inode_of f (n_inode (nodes_of f ! p)))"
  shows "act_wp (create_child now (abs_path (ps @ [n])) mode lnk ts data uid gid xattrs)
    (\<lambda>_ f'. child_created f f' p n mode lnk data uid gid \<and> room f' m)
    (\<lambda>e f'. advance f f' \<and>
       (e = F_MaximumLinksExceeded (abs_path ps) \<and> 65000 \<le> unat (i_links_count (inode_of f (n_inode (nodes_of f ! p)))) \<or>
        xattrs \<noteq> None \<or> e = F_UnsupportedFiletype \<and> \<not> is_dir mode \<and> lnk = None \<and> \<not> is_reg mode)) f"
proof -
  note I = image_invD [OF inv]
  define pin where "pin = n_inode (nodes_of f ! p)"
  define inode0 where "inode0 = new_child_inode mode uid gid (inode_of f pin)"
  define ts' where "ts' = (case ts of Some t \<Rightarrow> t | None \<Rightarrow> FileTimestamps_default now)"
  have pb: "p < length (nodes_of f)" using walk_bound [OF I(3) p] .
  have pv: "valid_ino f pin" using nodes_invD(4) [OF I(5) pb] by (simp add: pin_def)
  note F0 = new_child_inode_fields [of mode uid gid "inode_of f pin", folded inode0_def]
  define m1 where "m1 = (case lnk of Some t \<Rightarrow> length t | None \<Rightarrow> length (file_data data)) + 8192 + (4096 + m)"
  have r1: "room f (4096 + 8192 + m1)" using room by (simp add: create_cost_def m1_def add.commute add.left_commute)
  note run = create_child_run [OF inv plain p, folded pin_def, where mode = mode and uid = uid and gid = gid
      and lnk = lnk and data = data and ts = ts and now = now and xattrs = xattrs, folded inode0_def ts'_def]
  show ?thesis
  proof (cases "65000 \<le> unat (i_links_count (inode_of f pin))")
    case True
    then show ?thesis unfolding run using I(2) by (simp add: advance_refl pin_def)
  next
    case False
    show ?thesis
      unfolding run if_not_P [OF False]
    proof (rule act_wp_mono [OF create_xattrs_wp [OF I(1, 2) r1 xok F0(4)]], goal_cases)
      case (1 inode1 f1)
      then have x: "advance f f1" "room f1 m1" "xattrs_set f f1 inode0 inode1" by simp_all
      define inode2 where "inode2 = stamp_inode ts' inode1"
      note F1 = xattrs_set_fields [OF x(3)] and A1 = advanceD [OF x(1)]
      have pv1: "valid_ino f1 pin" using pv A1(2) by (simp add: valid_ino_def)
      have 2: "wf_Inode inode2" "i_block inode2 = i_block Inode_default" "i_links_count inode2 = 1" "i_mode inode2 = mode"
        "Inode_is_dir inode2 = is_dir mode" using F0 F1 by (simp_all add: inode2_def)
      show ?case
        unfolding inode2_def [symmetric]
      proof (rule act_wp_mono [OF content_step_wp [OF _ A1(8) x(2) [unfolded m1_def] pv1 2]], goal_cases)
        case 1
        then show ?case using A1(1) I(1) by simp
      next
        case (2 r f2)
        obtain inode3 ranges where r: "r = (inode3, ranges)" by (cases r)
        from 2 obtain g where g: "f2 = g\<lparr>f_inodes := bump f1 pin (is_dir mode)\<rparr>" "room f2 m"
          "child_stored f1 g (inode2\<lparr>i_links_count := if is_dir mode then 2 else 1\<rparr>) inode3 ranges"
          "content_ok (f_file f2) inode3 (ranges_blocks ranges) mode lnk data" by (auto simp: r)
        have lim: "unat (i_links_count (inode_of f (n_inode (nodes_of f ! p)))) < 65535" using False by (simp add: pin_def)
        have xa2: "i_xattr_block_lo inode2 = 0 \<or> fresh_block f f1 (unat (i_xattr_block_lo inode2))"
          using F0(3) F1(6) by (simp add: inode2_def)
        have ow2: "owner_of inode2 = (case uid of Some u \<Rightarrow> u | None \<Rightarrow> uid_full (inode_of f (n_inode (nodes_of f ! p))),
            case gid of Some g \<Rightarrow> g | None \<Rightarrow> gid_full (inode_of f (n_inode (nodes_of f ! p))))"
          using F0(6) F1(5) unfolding pin_def by (simp add: inode2_def)
        have g': "content_ok (f_file g) inode3 (ranges_blocks ranges) mode lnk data" "room g m" using g by simp_all
        have dl: "is_dir mode \<Longrightarrow> Inode_is_dir (inode_of f (n_inode (nodes_of f ! p))) \<and>
            unat (i_links_count (inode_of f (n_inode (nodes_of f ! p)))) < 65535" using dir lim by simp
        show ?case
          unfolding r prod.case g(1) pin_def
          by (rule act_wp_mono [OF register_created [OF inv plain p new few dl x(1) xa2 \<open>wf_Inode inode2\<close>
                \<open>Inode_is_dir inode2 = is_dir mode\<close> ow2 g(3) g']]) simp_all
      next
        case (3 e f2)
        then show ?case using x(1) by simp
      qed
    qed (use I(2) in \<open>simp add: advance_refl\<close>)
  qed
qed

section \<open>What persists\<close>

text \<open>
  Nodes are never reused: an attached node of \<open>f'\<close> that existed in \<open>f\<close> was attached there, stands for the
  same inode, and the inode has the same contents.
\<close>

definition same_content :: "Inode \<Rightarrow> Inode \<Rightarrow> bool" where
  "same_content a b \<longleftrightarrow> i_block b = i_block a \<and> file_size b = file_size a \<and> Inode_is_dir b = Inode_is_dir a"

definition persists :: "Formatter \<Rightarrow> Formatter \<Rightarrow> bool" where
  "persists f f' \<longleftrightarrow>
     length (nodes_of f) \<le> length (nodes_of f') \<and> length (f_inodes f) \<le> length (f_inodes f') \<and>
     fl_pos (f_file f) \<le> fl_pos (f_file f') \<and> keeps_bytes (fl_pos (f_file f)) (f_file f) (f_file f') \<and>
     (\<forall>i < length (nodes_of f). target (nodes_of f' ! i) = target (nodes_of f ! i) \<and>
        (attached (f_tree f') i \<longrightarrow> attached (f_tree f) i \<and>
           same_content (inode_of f (target (nodes_of f ! i))) (inode_of f' (target (nodes_of f ! i)))))"

lemma same_content_refl [simp]: "same_content a a"
  by (simp add: same_content_def)

lemma persists_refl [simp]: "persists f f"
  by (simp add: persists_def)

lemma persistsD:
  assumes "persists f f'"
  shows "length (nodes_of f) \<le> length (nodes_of f')" "length (f_inodes f) \<le> length (f_inodes f')"
    "fl_pos (f_file f) \<le> fl_pos (f_file f')" "keeps_bytes (fl_pos (f_file f)) (f_file f) (f_file f')"
    "i < length (nodes_of f) \<Longrightarrow> target (nodes_of f' ! i) = target (nodes_of f ! i)"
    "i < length (nodes_of f) \<Longrightarrow> attached (f_tree f') i \<Longrightarrow> attached (f_tree f) i"
    "i < length (nodes_of f) \<Longrightarrow> attached (f_tree f') i \<Longrightarrow>
       same_content (inode_of f (target (nodes_of f ! i))) (inode_of f' (target (nodes_of f ! i)))"
  using assms unfolding persists_def by blast+

lemma same_content_trans: "same_content a b \<Longrightarrow> same_content b c \<Longrightarrow> same_content a c"
  by (simp add: same_content_def)

lemma persists_trans:
  assumes "persists f g" "persists g h"
  shows "persists f h"
proof -
  have "keeps_bytes (fl_pos (f_file f)) (f_file f) (f_file h)"
    using assms keeps_bytes_trans unfolding persists_def by blast
  moreover have "target (nodes_of h ! i) = target (nodes_of f ! i) \<and>
      (attached (f_tree h) i \<longrightarrow> attached (f_tree f) i \<and>
         same_content (inode_of f (target (nodes_of f ! i))) (inode_of h (target (nodes_of f ! i))))"
    if i: "i < length (nodes_of f)" for i
  proof -
    have j: "i < length (nodes_of g)" using persistsD(1) [OF assms(1)] i by simp
    show ?thesis
      using persistsD(5-7) [OF assms(1) i] persistsD(5-7) [OF assms(2) j] same_content_trans by auto
  qed
  ultimately show ?thesis using assms unfolding persists_def by auto
qed

lemma same_content_links [simp]: "same_content a (a\<lparr>i_links_count := l\<rparr>)"
  by (simp add: same_content_def file_size_def)

lemma pruned_persists:
  assumes inv: "image_inv f" and pr: "pruned f f' gone"
  shows "persists f f'"
proof -
  note I = image_invD [OF inv] and P = prunedD [OF pr] and Q = prunesD [OF prunedD(3) [OF pr]]
  have s: "f_file f' = f_file f" "length (f_inodes f') = length (f_inodes f)" using P(2) by (simp_all add: same_store_def)
  have "attached (f_tree f) i \<and> same_content (inode_of f (target (nodes_of f ! i))) (inode_of f' (target (nodes_of f ! i)))"
    if i: "i < length (nodes_of f)" "attached (f_tree f') i" for i
  proof
    obtain ms where "tree.walk (f_tree f') 0 ms = Some i" using i(2) attached_iff_walk [OF image_invD(3) [OF P(1)]] by blast
    then have "tree.walk (f_tree f) 0 ms = Some i" using P(5) [of ms] by (simp split: if_splits)
    then show "attached (f_tree f) i" using attached_iff_walk [OF I(3)] by blast
    have "refs f' (target (nodes_of f ! i)) \<noteq> {}" using i prunes_target [OF P(3) i(1)] by (auto simp: refs_def)
    then obtain l where "inode_of f' (target (nodes_of f ! i)) = (inode_of f (target (nodes_of f ! i)))\<lparr>i_links_count := l\<rparr>"
      using P(4) old_target [OF inv i(1)] unfolding inode_kept_def by blast
    then show "same_content (inode_of f (target (nodes_of f ! i))) (inode_of f' (target (nodes_of f ! i)))" by simp
  qed
  then show ?thesis using s Q(1) prunes_target [OF P(3)] by (simp add: persists_def)
qed

lemma addition_persists:
  assumes ad: "addition f f' p nd" and keep: "keeps_bytes (fl_pos (f_file f)) (f_file f) (f_file f')"
  shows "persists f f'"
proof -
  have g: "grown f f' p nd" using ad by (simp add: addition_def)
  note G = grownD [OF g]
  have "same_content (inode_of f (target (nodes_of f ! i))) (inode_of f' (target (nodes_of f ! i)))"
    if i: "i < length (nodes_of f)" for i
    using addition_inodes(1) [OF ad old_target [OF G(1) i]] by auto
  moreover have "fl_pos (f_file f) \<le> fl_pos (f_file f')" using g by (simp add: grown_def)
  ultimately show ?thesis
    unfolding persists_def using G(5, 9) keep grown_node(6) [OF g] addition_inodes(3) [OF ad] by auto
qed

lemma advance_persists: "image_inv f \<Longrightarrow> advance f f' \<Longrightarrow> persists f f'"
  using advanceD [of f f'] advance_keeps by (simp add: persists_def inode_of_def)

lemma image_inv_advance:
  assumes "image_inv f" "advance f f'"
  shows "image_inv f'"
proof -
  note A = advanceD [OF assms(2)] and I = image_invD [OF assms(1)]
  have v: "valid_ino f' = valid_ino f" "inode_of f' = inode_of f" "refs f' = refs f"
    using A(2, 3) by (simp_all add: valid_ino_def inode_of_def refs_def fun_eq_iff)
  have "owns f' x = owns f x" for x using A(2-5) by (cases x) (simp_all cong: option.case_cong)
  then have "own_inv f'" using own_grow [OF I(8) A(6, 7), of "\<lambda>_. {}"] by simp
  moreover have "nodes_inv f'" using I(5) A(3) by (simp add: nodes_inv_def v)
  moreover have "link_inv f'" using I(7) A(3) by (simp add: link_inv_def link_ok_def v)
  moreover have "inodes_inv f'" using I(6) A(2) by (simp add: inodes_inv_def v)
  ultimately show ?thesis using I A by (simp add: image_inv_def)
qed

section \<open>Attributes of an inode\<close>

lemma inode_of_update:
  assumes "valid_ino f ino" "valid_ino f k"
  shows "inode_of (f\<lparr>f_inodes := (f_inodes f)[unat (ino - 1) := a]\<rparr>) k = (if k = ino then a else inode_of f k)"
  using valid_ino_index [OF assms(1)] valid_ino_inj [OF assms] by (auto simp: inode_of_def nth_list_update)

lemma image_inv_attributes:
  assumes inv: "image_inv f" and v: "valid_ino f ino"
    and a: "i_links_count a = i_links_count (inode_of f ino)" "Inode_is_dir a = Inode_is_dir (inode_of f ino)"
      "wf_Inode a" "i_xattr_block_lo a = i_xattr_block_lo (inode_of f ino)"
  shows "image_inv (f\<lparr>f_inodes := (f_inodes f)[unat (ino - 1) := a]\<rparr>)" (is "image_inv ?f")
proof -
  note I = image_invD [OF inv] and U = inode_of_update [OF v]
  have v': "valid_ino ?f = valid_ino f" "refs ?f = refs f" by (simp_all add: valid_ino_def refs_def fun_eq_iff)
  have "owns ?f x = owns f x" for x
    using a(4) valid_ino_index [OF v]
    by (cases x) (auto simp: nth_list_update inode_of_def cong: option.case_cong split: if_splits)
  moreover have "group_descriptor_blocks ?f = group_descriptor_blocks f" by (rule group_descriptor_blocks_cong) simp_all
  ultimately have "own_inv ?f" using I(8) by (simp add: own_inv_def)
  moreover have dir: "Inode_is_dir (inode_of ?f k) = Inode_is_dir (inode_of f k)" if "valid_ino f k" for k
    using U [OF that] a(2) by simp
  have "nodes_inv ?f"
  proof -
    note N = nodes_invD [OF I(5)]
    have "Inode_is_dir (inode_of ?f (n_inode (nodes_of f ! p)))"
      if "i < length (nodes_of f)" "n_parent (nodes_of f ! i) = Some p" "n_link (nodes_of f ! i) = None"
        "Inode_is_dir (inode_of ?f (n_inode (nodes_of f ! i)))" for i p
      using N(7) [OF that(1-3)] that(4) dir [OF N(4) [OF that(1)]] dir [OF N(4) [OF parent_bound [OF I(3) that(1, 2)]]]
      by simp
    then show ?thesis using I(5) by (auto simp: nodes_inv_def v')
  qed
  moreover have "link_ok ?f k" if "valid_ino f k" "10 < k" for k
  proof -
    have "link_ok f k" using link_okD [OF I(7) that] .
    then show ?thesis using U [OF that(1)] a(1, 2) by (cases "k = ino") (simp_all add: link_ok_def v')
  qed
  then have "link_inv ?f" by (simp add: link_inv_def v')
  moreover have "inodes_inv ?f"
  proof -
    have "valid_ino f ROOT_INODE" using nodes_invD(2, 4) [OF I(5)] wf_treeD(2) [OF I(3)] by metis
    from dir [OF this] show ?thesis
      using I(6) a(3) valid_ino_index [OF v] by (auto simp: inodes_inv_def list_all_length nth_list_update)
  qed
  ultimately show ?thesis using I by (simp add: image_inv_def)
qed

lemma persists_attributes:
  assumes inv: "image_inv f" and v: "valid_ino f ino" and a: "same_content (inode_of f ino) a"
  shows "persists f (f\<lparr>f_inodes := (f_inodes f)[unat (ino - 1) := a]\<rparr>)"
  using inode_of_update [OF v old_target [OF inv]] a by (auto simp: persists_def)

definition chown :: "u32 option \<Rightarrow> u32 option \<Rightarrow> Inode \<Rightarrow> Inode" where
  "chown uid gid inode =
     (let inode = (case uid of Some u \<Rightarrow> set_uid inode u | None \<Rightarrow> inode)
      in case gid of Some g \<Rightarrow> set_gid inode g | None \<Rightarrow> inode)"

lemma chown_fields [simp]:
  "i_links_count (chown uid gid inode) = i_links_count inode" "Inode_is_dir (chown uid gid inode) = Inode_is_dir inode"
  "wf_Inode (chown uid gid inode) = wf_Inode inode" "i_xattr_block_lo (chown uid gid inode) = i_xattr_block_lo inode"
  "i_mode (chown uid gid inode) = i_mode inode" "same_content inode (chown uid gid inode)"
  "same_content a (chown uid gid inode) = same_content a inode"
  by (simp_all add: chown_def Let_def set_uid_def set_gid_def wf_Inode_def Inode_is_dir_def same_content_def file_size_def
      split: option.splits)

lemma mode_update_fields [simp]:
  "wf_Inode (inode\<lparr>i_mode := mo\<rparr>) = wf_Inode inode" "Inode_is_dir (inode\<lparr>i_mode := mo\<rparr>) = is_dir mo"
  "same_content inode (inode\<lparr>i_mode := mo\<rparr>) = (is_dir mo = Inode_is_dir inode)"
  by (simp_all add: wf_Inode_def Inode_is_dir_def same_content_def file_size_def)

section \<open>create\<close>

lemma room_same_store: "same_store f f' \<Longrightarrow> payload_room f' n lim = payload_room f n lim"
proof -
  assume s: "same_store f f'"
  have "area_stable f' lim = area_stable f lim"
    using s group_descriptor_blocks_cong [of "f'\<lparr>f_size := x\<rparr>" "f\<lparr>f_size := x\<rparr>" for x] same_store_area [OF s]
    by (simp add: area_stable_def same_store_def)
  then show ?thesis using s by (simp add: payload_room_def same_store_def)
qed

text \<open>The name space outside the path \<open>ns\<close>: paths that neither lead to \<open>ns\<close> nor start with it are untouched.\<close>

definition only_path :: "Formatter \<Rightarrow> Formatter \<Rightarrow> string list \<Rightarrow> bool" where
  "only_path f f' ns \<longleftrightarrow>
     (\<forall>ms. \<not> prefix ms ns \<and> \<not> prefix ns ms \<longrightarrow> tree.walk (f_tree f') 0 ms = tree.walk (f_tree f) 0 ms) \<and>
     (\<forall>ms i. strict_prefix ms ns \<and> tree.walk (f_tree f) 0 ms = Some i \<longrightarrow> tree.walk (f_tree f') 0 ms = Some i)"

text \<open>A directory in the eyes of \<open>create\<close>, which follows the inode field of the node.\<close>

definition seems_dir :: "Formatter \<Rightarrow> nat \<Rightarrow> bool" where
  "seems_dir f i \<longleftrightarrow> Inode_is_dir (inode_of f (n_inode (nodes_of f ! i)))"

lemma walk_name:
  assumes "wf_tree t" "plain_tree t" "list_all plain_name ns" "tree.walk t 0 ns = Some i"
  shows "n_name (t_nodes t ! i) = basename (abs_path ns)"
proof (cases ns rule: rev_exhaust)
  case Nil
  then show ?thesis using assms(2, 4) by (simp add: plain_tree_def abs_path_root)
next
  case (snoc ps n)
  then obtain p where "child t p n = Some i"
    using assms(4) by (auto simp: tree.walk_append split: option.splits)
  then show ?thesis using child_SomeD [of t p n i] assms(3) snoc by (simp add: basename_snoc)
qed

lemma unlinked_only_path:
  assumes "image_inv f" "pruned f f' (\<lambda>ms. prefix ns ms \<and> (ns \<noteq> [] \<or> ms \<noteq> ns))" "ns \<noteq> []"
  shows "image_inv f'" "persists f f'" "same_store f f'" "only_path f f' ns" "tree.walk (f_tree f') 0 ns = None"
proof -
  note P = prunedD [OF assms(2)]
  show "image_inv f'" "persists f f'" "same_store f f'" "tree.walk (f_tree f') 0 ns = None"
    using P pruned_persists [OF assms(1, 2)] assms(3) by simp_all
  have "\<not> prefix ns ms" if "strict_prefix ms ns" for ms
    using that by (meson prefix_order.less_le_not_le)
  then show "only_path f f' ns" using P(5) by (simp add: only_path_def)
qed

lemma over_existing_wp:
  assumes inv: "image_inv f" and plain: "list_all plain_name ns" and root: "ns = [] \<longrightarrow> is_dir mode"
  shows "act_wp (create_over_existing now (abs_path ns) mode uid gid)
    (\<lambda>finished f'. image_inv f' \<and> persists f f' \<and> same_store f f' \<and> only_path f f' ns \<and>
       (if finished then \<exists>i. is_dir mode \<and> f_tree f' = f_tree f \<and> tree.walk (f_tree f) 0 ns = Some i \<and> seems_dir f i \<and> seems_dir f' i \<and>
           (uid = None \<and> gid = None \<longrightarrow> f' = f)
        else tree.walk (f_tree f') 0 ns = None \<and> (is_dir mode \<longrightarrow> f' = f)))
    (\<lambda>e f'. f' = f \<and> (\<exists>i. tree.walk (f_tree f) 0 ns = Some i \<and>
       (e = F_NotDirectory (abs_path ns) \<and> is_dir mode \<and> \<not> seems_dir f i \<or>
        e = F_NotFile (abs_path ns) \<and> \<not> is_dir mode \<and> seems_dir f i))) f"
proof -
  note I = image_invD [OF inv]
  have look: "lookup (f_tree f) (abs_path ns) = Some (tree.walk (f_tree f) 0 ns)" by (rule lookup_abs_path [OF I(3) plain])
  show ?thesis
  proof (cases "tree.walk (f_tree f) 0 ns")
    case None
    then show ?thesis using look inv by (simp add: create_over_existing_def wp only_path_def)
  next
    case (Some i)
    define nd where "nd = nodes_of f ! i"
    have ib: "i < length (nodes_of f)" using walk_bound [OF I(3) Some] .
    have v: "valid_ino f (n_inode nd)" using nodes_invD(4) [OF I(5) ib] by (simp add: nd_def)
    note k = valid_ino_index [OF v]
    have name: "n_name nd = basename (abs_path ns)"
      using walk_name [OF I(3, 4) plain Some] by (simp add: nd_def)
    define upd where "upd = f\<lparr>f_inodes := (f_inodes f)[unat (n_inode nd - 1) :=
      chown uid gid ((inode_of f (n_inode nd))\<lparr>i_mode := mode\<rparr>)]\<rparr>"
    have run: "act_wp (create_over_existing now (abs_path ns) mode uid gid) Q E f =
      (if is_dir mode then
         if seems_dir f i then if uid = None \<and> gid = None then Q True f else Q True upd
         else E (F_NotDirectory (abs_path ns)) f
       else if n_link nd = None \<and> seems_dir f i \<and> \<not> is_link mode then E (F_NotFile (abs_path ns)) f
       else act_wp (unlink now (abs_path ns) False) (\<lambda>_. Q False) E f)" for Q E
      unfolding create_over_existing_def using look Some ib k name
      by (simp add: wp nd_def [symmetric] seems_dir_def inode_of_def upd_def chown_def Let_def cong: if_cong)
    show ?thesis
    proof (cases "is_dir mode")
      case True
      define a where "a = chown uid gid ((inode_of f (n_inode nd))\<lparr>i_mode := mode\<rparr>)"
      have sd: "seems_dir f i = Inode_is_dir (inode_of f (n_inode nd))" by (simp add: seems_dir_def nd_def)
      have wf: "wf_Inode (inode_of f (n_inode nd))"
        using I(6) v all_inodes [of f wf_Inode] by (auto simp: inodes_inv_def)
      have a: "i_links_count a = i_links_count (inode_of f (n_inode nd))" "Inode_is_dir a" "wf_Inode a"
        "i_xattr_block_lo a = i_xattr_block_lo (inode_of f (n_inode nd))"
        "seems_dir f i \<Longrightarrow> same_content (inode_of f (n_inode nd)) a"
        using True wf by (simp_all add: a_def sd)
      have "image_inv upd" "persists f upd" if "seems_dir f i"
        using image_inv_attributes [OF inv v a(1) _ a(3, 4)] persists_attributes [OF inv v a(5) [OF that]] a(2) that
        by (simp_all add: upd_def a_def [symmetric] sd)
      moreover have "seems_dir upd i" using inode_of_update [OF v v] a(2) by (simp add: seems_dir_def upd_def nd_def a_def)
      moreover have "same_store f upd" "f_tree upd = f_tree f" by (simp_all add: upd_def same_store_def)
      ultimately show ?thesis unfolding run using True Some inv by (auto simp: only_path_def)
    next
      case False
      have ne: "ns \<noteq> []" using root False by blast
      have "act_wp (unlink now (abs_path ns) False)
          (\<lambda>_ f'. image_inv f' \<and> persists f f' \<and> same_store f f' \<and> only_path f f' ns \<and> tree.walk (f_tree f') 0 ns = None)
          (\<lambda>_ _. False) f"
        by (rule act_wp_mono [OF unlink_ok [OF inv plain]])
          (use unlinked_only_path [OF inv _ ne] in auto)
      then have "act_wp (unlink now (abs_path ns) False)
          (\<lambda>_ f'. image_inv f' \<and> persists f f' \<and> same_store f f' \<and> only_path f f' ns \<and> tree.walk (f_tree f') 0 ns = None) E f" for E
        by (rule act_wp_mono) simp_all
      then show ?thesis unfolding run using False Some by auto
    qed
  qed
qed

text \<open>Creating a directory takes no path away, and adds only paths that lead to it.\<close>

definition adds_path :: "Formatter \<Rightarrow> Formatter \<Rightarrow> string list \<Rightarrow> bool" where
  "adds_path f f' ns \<longleftrightarrow>
     (\<forall>ms i. tree.walk (f_tree f) 0 ms = Some i \<longrightarrow> tree.walk (f_tree f') 0 ms = Some i) \<and>
     (\<forall>ms. \<not> prefix ms ns \<longrightarrow> tree.walk (f_tree f') 0 ms = tree.walk (f_tree f) 0 ms)"

text \<open>What holds of the state after \<open>create\<close>, whether it succeeded or not.\<close>

definition create_frame :: "Formatter \<Rightarrow> Formatter \<Rightarrow> string list \<Rightarrow> u16 \<Rightarrow> bool" where
  "create_frame f f' ns mode \<longleftrightarrow>
     image_inv f' \<and> persists f f' \<and> only_path f f' ns \<and> (is_dir mode \<longrightarrow> adds_path f f' ns)"

text \<open>The entry that \<open>create\<close> was asked for.\<close>

definition entry_made ::
  "Formatter \<Rightarrow> string list \<Rightarrow> u16 \<Rightarrow> string option \<Rightarrow> bytes list option \<Rightarrow> u32 option \<Rightarrow> u32 option \<Rightarrow> bool" where
  "entry_made f ns mode lnk data uid gid \<longleftrightarrow>
     (case tree.walk (f_tree f) 0 ns of
        None \<Rightarrow> False
      | Some i \<Rightarrow>
          if is_dir mode then seems_dir f i
          else
            let inode = inode_of f (n_inode (nodes_of f ! i)) in
            n_link (nodes_of f ! i) = None \<and> \<not> Inode_is_dir inode \<and> content_ok (f_file f) inode (ranges_blocks (node_block_ranges (nodes_of f ! i))) mode lnk data \<and>
            (case uid of Some u \<Rightarrow> uid_full inode = u | None \<Rightarrow> True) \<and>
            (case gid of Some g \<Rightarrow> gid_full inode = g | None \<Rightarrow> True))"

lemma adds_path_refl [simp]: "adds_path f f ns"
  by (simp add: adds_path_def)

lemma adds_path_only: "adds_path f f' ps \<Longrightarrow> only_path f f' (ps @ ks)"
  unfolding adds_path_def only_path_def using prefix_order.trans by (metis prefixI)

lemma only_path_trans: "only_path f g ns \<Longrightarrow> only_path g h ns \<Longrightarrow> only_path f h ns"
  unfolding only_path_def by metis

lemma adds_path_trans:
  assumes "adds_path f g ps" "adds_path g h (ps @ ks)"
  shows "adds_path f h (ps @ ks)"
proof -
  have "\<not> prefix ms (ps @ ks) \<Longrightarrow> \<not> prefix ms ps" for ms by auto
  then show ?thesis using assms unfolding adds_path_def by metis
qed

lemma child_created_addition:
  assumes cc: "child_created f f' p n mode lnk data uid gid" and p: "tree.walk (f_tree f) 0 ps = Some p"
  shows "image_inv f'" "persists f f'" "adds_path f f' (ps @ [n])" "entry_made f' (ps @ [n]) mode lnk data uid gid"
    "length (f_inodes f') = Suc (length (f_inodes f))"
proof -
  obtain nd inode where c: "grown f f' p nd" "created f f' p nd inode" "n_name nd = n" "Inode_is_dir inode = is_dir mode"
    "keeps_bytes (fl_pos (f_file f)) (f_file f) (f_file f')" "content_ok (f_file f') inode (ranges_blocks (node_block_ranges nd)) mode lnk data"
    "owner_of inode = (let parent = inode_of f (n_inode (nodes_of f ! p)) in
       (case uid of Some u \<Rightarrow> u | None \<Rightarrow> uid_full parent, case gid of Some g \<Rightarrow> g | None \<Rightarrow> gid_full parent))"
    using cc unfolding child_created_def by blast
  have ad: "addition f f' p nd" using c(1, 2) by (auto simp: addition_def)
  note G = grownD [OF c(1)] and C = created_inode [OF c(2)]
  show "image_inv f'" "persists f f'" using addition_inv [OF ad] addition_persists [OF ad c(5)] by simp_all
  show "length (f_inodes f') = Suc (length (f_inodes f))" using c(2) by (simp add: created_def)
  have w: "tree.walk (f_tree f') 0 ms = (if ms = ps @ [n] then Some (length (nodes_of f)) else tree.walk (f_tree f) 0 ms)" for ms
    using G(8) [OF p] c(3) by simp
  have "child (f_tree f) p n = None" using c(1, 3) by (simp add: grown_def)
  then have "tree.walk (f_tree f) 0 (ps @ [n]) = None" using p by (simp add: tree.walk_append)
  then show "adds_path f f' (ps @ [n])" unfolding adds_path_def w by auto
  have nd: "n_inode (nodes_of f' ! length (nodes_of f)) = n_inode nd" "n_link (nodes_of f' ! length (nodes_of f)) = None"
    "node_block_ranges (nodes_of f' ! length (nodes_of f)) = node_block_ranges nd"
    using G(6) c(2) by (simp_all add: created_def node_block_ranges_def)
  show "entry_made f' (ps @ [n]) mode lnk data uid gid"
    using C(2) c(4, 6, 7) by (simp add: entry_made_def w nd seems_dir_def Let_def owner_of_def split: option.splits)
qed

lemma create_unfold:
  assumes "short_names ns"
  shows "act_wp (create now (abs_path ns) mode lnk ts data uid gid xattrs) Q E f =
    act_wp (create_over_existing now (abs_path ns) mode uid gid)
      (\<lambda>finished. if finished then Q () else
         act_wp (if parent_of (abs_path ns) \<noteq> abs_path ns
                 then create now (parent_of (abs_path ns)) (make_mode S_IFDIR 0x1ED) None None None None None None
                 else act_return ())
           (\<lambda>_. act_wp (create_child now (abs_path ns) mode lnk ts data uid gid xattrs) Q E) E) E f"
  by (subst create.simps) (simp add: act_wp_bind_fun wp validate_short [OF assms] cong: if_cong)

lemma is_dir_make [simp]: "is_dir (make_mode S_IFDIR 0x1ED)"
  by code_simp

lemma abs_path_inj_parent: "list_all plain_name (ps @ [n]) \<Longrightarrow> abs_path ps \<noteq> abs_path (ps @ [n])"
  using abs_path_not_root [of "ps @ [n]"] by (cases "ps = []") (auto simp: abs_path_snoc abs_path_root)

lemma child_step_wp:
  assumes fr: "image_inv g" "persists f g" "only_path f g (ps @ [n])" "is_dir mode \<longrightarrow> adds_path f g (ps @ [n])"
    and plain: "list_all plain_name (ps @ [n])" and p: "tree.walk (f_tree g) 0 ps = Some p" "seems_dir g p"
    and new: "tree.walk (f_tree g) 0 (ps @ [n]) = None" and room: "room g (create_cost lnk data + m)"
    and few: "Suc (length (f_inodes g)) < 2 ^ 32" "length (f_inodes g) \<le> l" and xok: "xattr_values_ok xattrs"
  shows "act_wp (create_child now (abs_path (ps @ [n])) mode lnk ts data uid gid xattrs)
    (\<lambda>_ f'. create_frame f f' (ps @ [n]) mode \<and> entry_made f' (ps @ [n]) mode lnk data uid gid \<and> room f' m \<and>
       length (f_inodes f') \<le> Suc l)
    (\<lambda>_ f'. create_frame f f' (ps @ [n]) mode) g"
proof (rule act_wp_mono [OF create_child_wp [OF fr(1) plain p(1) new room few(1) xok]], goal_cases)
  case 1
  then show ?case using p(2) by (simp add: seems_dir_def)
next
  case (2 x f')
  then have cc: "child_created g f' p n mode lnk data uid gid" and "room f' m" by simp_all
  note C = child_created_addition [OF cc p(1)]
  have "adds_path f f' (ps @ [n])" if "is_dir mode"
    using fr(4) that C(3) adds_path_trans [of f g "ps @ [n]" f' "[]"] by simp
  moreover have "only_path f f' (ps @ [n])"
    using only_path_trans [OF fr(3)] adds_path_only [OF C(3), of "[]"] by simp
  ultimately show ?case
    using C persists_trans [OF fr(2) C(2)] \<open>room f' m\<close> few(2) by (simp add: create_frame_def)
next
  case (3 e f')
  then have a: "advance g f'" by simp
  have "f_tree f' = f_tree g" using advanceD(3) [OF a] .
  then show ?case
    using fr image_inv_advance [OF fr(1) a] persists_trans [OF fr(2) advance_persists [OF fr(1) a]]
    by (simp add: create_frame_def only_path_def adds_path_def)
qed

lemma parent_frame:
  assumes "persists f f1" "only_path f f1 (ps @ [n])" "is_dir mode \<longrightarrow> f1 = f"
    and "create_frame f1 g ps (make_mode S_IFDIR 0x1ED)"
  shows "image_inv g" "persists f g" "only_path f g (ps @ [n])" "is_dir mode \<longrightarrow> adds_path f g (ps @ [n])"
proof -
  have g: "image_inv g" "persists f1 g" "adds_path f1 g ps" using assms(4) by (simp_all add: create_frame_def)
  show "image_inv g" "persists f g" using g persists_trans [OF assms(1)] by simp_all
  show "only_path f g (ps @ [n])" by (rule only_path_trans [OF assms(2) adds_path_only [OF g(3)]])
  show "is_dir mode \<longrightarrow> adds_path f g (ps @ [n])"
    using assms(3) adds_path_trans [OF g(3), of g "[n]"] by auto
qed

lemma create_wp:
  assumes "image_inv f" "short_names ns" "ns = [] \<longrightarrow> is_dir mode" "room f (create_cost lnk data + 24576 * length ns + m)"
    and "length (f_inodes f) + length ns < 2 ^ 32" "xattr_values_ok xattrs"
  shows "act_wp (create now (abs_path ns) mode lnk ts data uid gid xattrs)
    (\<lambda>_ f'. create_frame f f' ns mode \<and> entry_made f' ns mode lnk data uid gid \<and> room f' m \<and>
       length (f_inodes f') \<le> length (f_inodes f) + length ns)
    (\<lambda>_ f'. create_frame f f' ns mode) f"
  using assms
proof (induction ns arbitrary: f mode lnk ts data uid gid xattrs m rule: rev_induct)
  case Nil
  have fin: "list_all plain_name []" by simp
  show ?case
    unfolding create_unfold [OF Nil.prems(2)]
  proof (rule act_wp_mono [OF over_existing_wp [OF Nil.prems(1) fin Nil.prems(3)]], goal_cases)
    case (1 finished f')
    then have "finished" by (cases finished) simp_all
    with 1 obtain i where f': "image_inv f'" "persists f f'" "same_store f f'" "only_path f f' []" "f_tree f' = f_tree f"
      "seems_dir f' 0" "is_dir mode" by (auto split: if_splits)
    have "room f m" by (rule payload_room_mono [OF Nil.prems(4)]) simp
    then show ?case
      using f' \<open>finished\<close> room_same_store [OF f'(3)]
      by (simp add: create_frame_def adds_path_def entry_made_def same_store_def)
  next
    case (2 e f')
    then show ?case using Nil.prems(1) by (simp add: create_frame_def only_path_def)
  qed
next
  case (snoc n ps)
  note plain = short_names_plain [OF snoc.prems(2)]
  have ps: "short_names ps" using snoc.prems(2) by (simp add: short_names_def)
  have par: "parent_of (abs_path (ps @ [n])) = abs_path ps" "abs_path ps \<noteq> abs_path (ps @ [n])"
    using parent_of_snoc [OF plain] abs_path_inj_parent [OF plain] by simp_all
  have rt: "ps @ [n] = [] \<longrightarrow> is_dir mode" by simp
  show ?case
    unfolding create_unfold [OF snoc.prems(2)] par(1) if_P [OF par(2)]
  proof (rule act_wp_mono [OF over_existing_wp [OF snoc.prems(1) plain rt]], goal_cases)
    case (1 finished f1)
    show ?case
    proof (cases finished)
      case True
      have "room f m" by (rule payload_room_mono [OF snoc.prems(4)]) simp
      then show ?thesis
        using 1 True room_same_store [of f f1]
        by (auto simp: create_frame_def adds_path_def entry_made_def same_store_def split: option.split)
    next
      case False
      with 1 have f1: "image_inv f1" "persists f f1" "same_store f f1" "only_path f f1 (ps @ [n])"
        "tree.walk (f_tree f1) 0 (ps @ [n]) = None" "is_dir mode \<longrightarrow> f1 = f" by simp_all
      have r1: "room f1 (create_cost None None + 24576 * length ps + (create_cost lnk data + m))"
        using snoc.prems(4) room_same_store [OF f1(3)]
        by (simp add: create_cost_def file_data_def add.commute add.left_commute)
      have l1: "length (f_inodes f1) = length (f_inodes f)" using f1(3) by (simp add: same_store_def)
      have "act_wp (create now (abs_path ps) (make_mode S_IFDIR 0x1ED) None None None None None None)
          (\<lambda>_ g. create_frame f1 g ps (make_mode S_IFDIR 0x1ED) \<and> entry_made g ps (make_mode S_IFDIR 0x1ED) None None None None \<and>
             room g (create_cost lnk data + m) \<and> length (f_inodes g) \<le> length (f_inodes f1) + length ps)
          (\<lambda>_ g. create_frame f1 g ps (make_mode S_IFDIR 0x1ED)) f1"
        using snoc.prems(5) l1 by (intro snoc.IH [OF f1(1) ps _ r1]) (simp_all add: xattr_values_ok_def)
      then show ?thesis
        unfolding if_not_P [OF False]
      proof (rule act_wp_mono, goal_cases)
        case (1 x g)
        then have g: "create_frame f1 g ps (make_mode S_IFDIR 0x1ED)" "room g (create_cost lnk data + m)"
          "length (f_inodes g) \<le> length (f_inodes f) + length ps" and made: "entry_made g ps (make_mode S_IFDIR 0x1ED) None None None None"
          using l1 by simp_all
        from made obtain p where p: "tree.walk (f_tree g) 0 ps = Some p" "seems_dir g p"
          by (auto simp: entry_made_def split: option.splits)
        note F = parent_frame [OF f1(2, 4, 6) g(1)]
        have "tree.walk (f_tree g) 0 (ps @ [n]) = None"
          using g(1) f1(5) by (auto simp: create_frame_def adds_path_def)
        moreover have "Suc (length (f_inodes g)) < 2 ^ 32" using g(3) snoc.prems(5) by simp
        ultimately show ?case
          using child_step_wp [OF F plain p _ g(2) _ g(3) snoc.prems(6)] by simp
      next
        case (2 e g)
        from parent_frame [OF f1(2, 4, 6) this] show ?case by (simp add: create_frame_def)
      qed
    qed
  next
    case (2 e f')
    then show ?case using snoc.prems(1) by (simp add: create_frame_def only_path_def)
  qed
qed

section \<open>link\<close>

lemma pruned_refs:
  assumes "image_inv f" "pruned f f' gone"
  shows "refs f' ino \<subseteq> refs f ino"
proof
  fix i assume i: "i \<in> refs f' ino"
  then have b: "i < length (nodes_of f)" "attached (f_tree f') i" "target (nodes_of f' ! i) = ino"
    using attached_bounds [OF _ image_invD(3) [OF prunedD(1) [OF assms(2)]]] prunesD(1) [OF prunedD(3) [OF assms(2)]]
    by (auto simp: refs_def)
  then show "i \<in> refs f ino"
    using persistsD(5, 6) [OF pruned_persists [OF assms] b(1)] by (simp add: refs_def)
qed

text \<open>The links of a file that may have lost entries.\<close>

lemma pruned_links:
  assumes inv: "image_inv f" and pr: "pruned f f' gone" and v: "valid_ino f ino" "10 < ino" "\<not> Inode_is_dir (inode_of f ino)"
  shows "unat (i_links_count (inode_of f' ino)) \<le> unat (i_links_count (inode_of f ino))" "\<not> Inode_is_dir (inode_of f' ino)"
proof -
  show d: "\<not> Inode_is_dir (inode_of f' ino)" using prunedD(4) [OF pr] v by (simp add: inode_kept_def)
  have v': "valid_ino f' ino" using prunedD(2) [OF pr] v(1) by (simp add: same_store_def valid_ino_def)
  have "card (refs f' ino) \<le> card (refs f ino)"
    by (intro card_mono pruned_refs [OF inv pr] finite_refs image_invD(3) [OF inv])
  then show "unat (i_links_count (inode_of f' ino)) \<le> unat (i_links_count (inode_of f ino))"
    using link_okD [OF image_invD(7) [OF inv] v(1, 2)] link_okD [OF image_invD(7) [OF prunedD(1) [OF pr]] v' v(2)] d v(3)
    by (simp add: link_ok_def)
qed

definition link_node :: "string \<Rightarrow> u32 \<Rightarrow> FileTreeNode" where
  "link_node n tg = \<lparr>n_inode = ROOT_INODE, n_name = n, n_children = [], n_parent = None, n_blocks = None,
     n_additional_blocks = [], n_link = Some tg\<rparr>"

definition bump_target :: "Formatter \<Rightarrow> u32 \<Rightarrow> Formatter" where
  "bump_target f tg = f\<lparr>f_inodes := (f_inodes f)[unat (tg - 1) :=
     (inode_of f tg)\<lparr>i_links_count := i_links_count (inode_of f tg) + 1\<rparr>]\<rparr>"

lemma linked_addition:
  assumes inv: "image_inv f" and p: "tree.walk (f_tree f) 0 ps = Some p" and new: "tree.walk (f_tree f) 0 (ps @ [n]) = None"
    and n: "plain_name n" and v: "valid_ino f tg" "10 < tg" "\<not> Inode_is_dir (inode_of f tg)"
      "unat (i_links_count (inode_of f tg)) < 65535"
    and t: "add_child (f_tree f) p (link_node n tg) = Some (t', length (nodes_of f))"
  shows "addition f (bump_target f tg\<lparr>f_tree := t'\<rparr>) p (link_node n tg)"
proof -
  note I = image_invD [OF inv]
  define f' where "f' = bump_target f tg\<lparr>f_tree := t'\<rparr>"
  have G: "group_descriptor_blocks f' = group_descriptor_blocks f"
    by (rule group_descriptor_blocks_cong) (simp_all add: f'_def bump_target_def)
  have "child (f_tree f) p n = None" using p new by (simp add: tree.walk_append split: option.splits)
  moreover have "attached (f_tree f) p" using p attached_iff_walk [OF I(3)] by blast
  ultimately have "grown f f' p (link_node n tg)"
    using inv n t I(2) G by (simp add: grown_def f'_def link_node_def bump_target_def)
  moreover have "inode_of f' ino = (if ino = tg
      then (inode_of f ino)\<lparr>i_links_count := i_links_count (inode_of f ino) + 1\<rparr> else inode_of f ino)" if "valid_ino f ino" for ino
    using inode_of_update [OF v(1) that] by (simp add: f'_def bump_target_def inode_of_def)
  then have "linked f f' (link_node n tg)"
    unfolding linked_def using v by (auto simp: link_node_def node_block_ranges_def f'_def bump_target_def)
  ultimately show ?thesis by (simp add: addition_def f'_def)
qed

lemma link_finish_wp:
  assumes inv: "image_inv f" and plain: "list_all plain_name (ps @ [n])" and p: "tree.walk (f_tree f) 0 ps = Some p"
    and new: "tree.walk (f_tree f) 0 (ps @ [n]) = None" and v: "valid_ino f tg" "10 < tg" "\<not> Inode_is_dir (inode_of f tg)"
      "unat (i_links_count (inode_of f tg)) < 65535"
  shows "act_wp (act_seq (inode_update tg (\<lambda>inode. inode\<lparr>i_links_count := i_links_count inode + 1\<rparr>))
      (tree_add_child p (link_node n tg)))
    (\<lambda>_ f'. image_inv f' \<and> persists f f' \<and> same_store f f' \<and> adds_path f f' (ps @ [n]) \<and>
       (\<exists>i. tree.walk (f_tree f') 0 (ps @ [n]) = Some i \<and> target (nodes_of f' ! i) = tg \<and> n_link (nodes_of f' ! i) = Some tg)) E f"
proof -
  note I = image_invD [OF inv]
  have pb: "p < length (nodes_of f)" using walk_bound [OF I(3) p] .
  obtain t' where t: "add_child (f_tree f) p (link_node n tg) = Some (t', length (nodes_of f))"
    using tree.add_total [OF I(3) pb] add_childD(1) [OF _ pb] by metis
  have pn: "plain_name n" using plain by simp
  define f' where "f' = bump_target f tg\<lparr>f_tree := t'\<rparr>"
  have ad: "addition f f' p (link_node n tg)" using linked_addition [OF inv p new pn v t] by (simp add: f'_def)
  have g: "grown f f' p (link_node n tg)" using ad by (simp add: addition_def)
  note G = grownD [OF g]
  have s: "same_store f f'" "f_file f' = f_file f" by (simp_all add: f'_def bump_target_def same_store_def)
  have nm: "n_name (link_node n tg) = n" by (simp add: link_node_def)
  have w: "tree.walk (f_tree f') 0 ms = (if ms = ps @ [n] then Some (length (nodes_of f)) else tree.walk (f_tree f) 0 ms)" for ms
    using G(8) [OF p] nm by simp
  have "adds_path f f' (ps @ [n])" unfolding adds_path_def w using new by auto
  moreover have "target (nodes_of f' ! length (nodes_of f)) = tg \<and> n_link (nodes_of f' ! length (nodes_of f)) = Some tg" using G(6) by (simp add: link_node_def target_def)
  moreover have "persists f f'" using addition_persists [OF ad] s(2) by simp
  moreover have "unat (tg - 1) < length (f_inodes f)" by (rule valid_ino_index [OF v(1)])
  ultimately show ?thesis
    using addition_inv [OF ad] s(1) w [of "ps @ [n]"] t
    by (auto simp: wp f'_def bump_target_def inode_of_def)
qed

text \<open>The end of \<open>link\<close>: what is at the path goes, the new entry comes.\<close>

definition link_place :: "stamp \<Rightarrow> string list \<Rightarrow> string \<Rightarrow> u32 \<Rightarrow> nat \<Rightarrow> bool \<Rightarrow> unit fmt" where
  "link_place now ps n tg p existing =
     act_seq (act_when existing (unlink now (abs_path (ps @ [n])) False))
       (act_seq (inode_update tg (\<lambda>inode. inode\<lparr>i_links_count := i_links_count inode + 1\<rparr>))
         (tree_add_child p (link_node n tg)))"

lemma link_place_unfold:
  "act_wp (link_place now ps n tg p b) Q E f =
    (let rest = act_wp (act_seq (inode_update tg (\<lambda>inode. inode\<lparr>i_links_count := i_links_count inode + 1\<rparr>))
         (tree_add_child p (link_node n tg))) Q E
     in if b then act_wp (unlink now (abs_path (ps @ [n])) False) (\<lambda>_. rest) E f else rest f)"
  by (simp add: link_place_def act_when_def act_wp_bind_fun(2) [of "unlink now (abs_path (ps @ [n])) False"]
      act_wp_bind_fun(2) [of "act_return ()"] act_wp_return_fun Let_def)

lemma link_run:
  assumes inv: "image_inv f" and short: "short_names (ps @ [n])" and ts: "list_all plain_name ts"
    and j: "tree.walk (f_tree f) 0 ts = Some j" and nd: "\<not> seems_dir f j"
  shows "act_wp (link now (abs_path (ps @ [n])) (abs_path ts)) Q E f =
    (if \<exists>i. tree.walk (f_tree f) 0 (ps @ [n]) = Some i \<and> target (nodes_of f ! i) = n_inode (nodes_of f ! j) then Q () f
     else case tree.walk (f_tree f) 0 ps of
       None \<Rightarrow> E (F_NotFound (abs_path ps)) f
     | Some p \<Rightarrow>
         if (ucast (i_links_count (inode_of f (n_inode (nodes_of f ! p)))) :: u32) \<ge> MAX_LINKS
         then E (F_MaximumLinksExceeded (abs_path ps)) f
         else act_wp (link_place now ps n (n_inode (nodes_of f ! j)) p (tree.walk (f_tree f) 0 (ps @ [n]) \<noteq> None)) Q E f)"
proof -
  note I = image_invD [OF inv] and plain = short_names_plain [OF short] and N = nodes_invD(4) [OF image_invD(5) [OF inv]]
  have look: "lookup (f_tree f) (abs_path ts) = Some (Some j)"
    "lookup (f_tree f) (abs_path (ps @ [n])) = Some (tree.walk (f_tree f) 0 (ps @ [n]))"
    "lookup (f_tree f) (abs_path ps) = Some (tree.walk (f_tree f) 0 ps)"
    using lookup_abs_path [OF I(3)] ts plain j by simp_all
  have jb: "j < length (nodes_of f)" using walk_bound [OF I(3) j] .
  have b: "i < length (nodes_of f) \<and> unat (n_inode (nodes_of f ! i) - 1) < length (f_inodes f)"
    if "tree.walk (f_tree f) 0 ms = Some i" for ms i
    using walk_bound [OF I(3) that] valid_ino_index [OF N] by blast
  note P = parent_of_snoc [OF plain] basename_snoc [OF plain] validate_short [OF short]
  have nd': "\<not> Inode_is_dir (f_inodes f ! unat (n_inode (nodes_of f ! j) - 1))"
    using nd by (simp add: seems_dir_def inode_of_def)
  show ?thesis
    unfolding link_def
    using look jb b [OF j] nd' b [of "ps @ [n]"] b [of ps]
    by (cases "tree.walk (f_tree f) 0 (ps @ [n])"; cases "tree.walk (f_tree f) 0 ps")
      (simp_all add: wp P inode_of_def link_place_def link_node_def target_def)
qed

lemma link_place_wp:
  assumes inv: "image_inv f" and plain: "list_all plain_name (ps @ [n])" and p: "tree.walk (f_tree f) 0 ps = Some p"
    and v: "valid_ino f tg" "10 < tg" "\<not> Inode_is_dir (inode_of f tg)" "unat (i_links_count (inode_of f tg)) < 65535"
  shows "act_wp (link_place now ps n tg p (tree.walk (f_tree f) 0 (ps @ [n]) \<noteq> None))
    (\<lambda>_ f'. image_inv f' \<and> persists f f' \<and> same_store f f' \<and> only_path f f' (ps @ [n]) \<and>
       (\<exists>i. tree.walk (f_tree f') 0 (ps @ [n]) = Some i \<and> target (nodes_of f' ! i) = tg \<and> n_link (nodes_of f' ! i) = Some tg)) E f"
proof (cases "tree.walk (f_tree f) 0 (ps @ [n])")
  case None
  then have "act_wp (link_place now ps n tg p (tree.walk (f_tree f) 0 (ps @ [n]) \<noteq> None)) Q E f =
      act_wp (act_seq (inode_update tg (\<lambda>inode. inode\<lparr>i_links_count := i_links_count inode + 1\<rparr>))
        (tree_add_child p (link_node n tg))) Q E f" for Q
    unfolding link_place_unfold by simp
  then show ?thesis
    by (simp only:) (rule act_wp_mono [OF link_finish_wp [OF inv plain p None v, of E]],
      use adds_path_only [of f _ "ps @ [n]" "[]"] in auto)
next
  case (Some i)
  have ne: "ps @ [n] \<noteq> []" by simp
  have "act_wp (unlink now (abs_path (ps @ [n])) False)
      (\<lambda>_. act_wp (act_seq (inode_update tg (\<lambda>inode. inode\<lparr>i_links_count := i_links_count inode + 1\<rparr>))
          (tree_add_child p (link_node n tg)))
        (\<lambda>_ f'. image_inv f' \<and> persists f f' \<and> same_store f f' \<and> only_path f f' (ps @ [n]) \<and>
           (\<exists>i. tree.walk (f_tree f') 0 (ps @ [n]) = Some i \<and> target (nodes_of f' ! i) = tg \<and> n_link (nodes_of f' ! i) = Some tg)) E) E f"
  proof (rule act_wp_mono [OF unlink_ok [OF inv plain]], goal_cases)
    case (1 x g)
    then have pr: "pruned f g (\<lambda>ms. prefix (ps @ [n]) ms \<and> (ps @ [n] \<noteq> [] \<or> ms \<noteq> ps @ [n]))" by simp
    note U = unlinked_only_path [OF inv pr ne]
    have pg: "tree.walk (f_tree g) 0 ps = Some p" using U(4) p by (auto simp: only_path_def strict_prefix_def)
    have vg: "valid_ino g tg" using U(3) v(1) by (simp add: same_store_def valid_ino_def)
    note L = pruned_links [OF inv pr v(1-3)]
    have "act_wp (act_seq (inode_update tg (\<lambda>inode. inode\<lparr>i_links_count := i_links_count inode + 1\<rparr>))
        (tree_add_child p (link_node n tg)))
      (\<lambda>_ f'. image_inv f' \<and> persists g f' \<and> same_store g f' \<and> adds_path g f' (ps @ [n]) \<and>
         (\<exists>i. tree.walk (f_tree f') 0 (ps @ [n]) = Some i \<and> target (nodes_of f' ! i) = tg \<and> n_link (nodes_of f' ! i) = Some tg)) E g"
      using link_finish_wp [OF U(1) plain pg U(5) vg v(2) L(2)] L(1) v(4) by simp
    then show ?case
    proof (rule act_wp_mono, goal_cases)
      case (1 x f')
      then show ?case
        using persists_trans [OF U(2)] same_store_trans [OF U(3)] only_path_trans [OF U(4)]
          adds_path_only [of g f' "ps @ [n]" "[]"] by auto
    qed simp
  qed simp
  then show ?thesis unfolding link_place_unfold using Some by simp
qed

lemma link_wp:
  assumes inv: "image_inv f" and short: "short_names (ps @ [n])" and ts: "list_all plain_name ts"
    and guard: "\<And>j. tree.walk (f_tree f) 0 ts = Some j \<Longrightarrow> unat (i_links_count (inode_of f (target (nodes_of f ! j)))) < 65535"
  shows "act_wp (link now (abs_path (ps @ [n])) (abs_path ts))
    (\<lambda>_ f'. image_inv f' \<and> persists f f' \<and> same_store f f' \<and> only_path f f' (ps @ [n]) \<and>
       (\<exists>j i. tree.walk (f_tree f) 0 ts = Some j \<and> tree.walk (f_tree f') 0 (ps @ [n]) = Some i \<and>
          target (nodes_of f' ! i) = target (nodes_of f ! j)))
    (\<lambda>_ f'. f' = f) f"
proof (cases "tree.walk (f_tree f) 0 ts")
  case None
  then show ?thesis
    using lookup_abs_path [OF image_invD(3) [OF inv] ts] validate_short [OF short] by (simp add: link_def wp)
next
  case (Some j)
  note I = image_invD [OF inv]
  have jb: "j < length (nodes_of f)" using walk_bound [OF I(3) Some] .
  have v: "valid_ino f (n_inode (nodes_of f ! j))" using nodes_invD(4) [OF I(5) jb] .
  show ?thesis
  proof (cases "seems_dir f j")
    case True
    then show ?thesis
      using lookup_abs_path [OF I(3) ts] validate_short [OF short] Some jb valid_ino_index [OF v]
      by (simp add: link_def wp seems_dir_def inode_of_def)
  next
    case False
    have nl: "n_link (nodes_of f ! j) = None"
    proof (rule ccontr)
      assume "n_link (nodes_of f ! j) \<noteq> None"
      then have "n_inode (nodes_of f ! j) = ROOT_INODE" using nodes_invD(3) [OF I(5) jb] by simp
      then show False using False I(6) by (simp add: seems_dir_def inodes_inv_def)
    qed
    then have tg: "target (nodes_of f ! j) = n_inode (nodes_of f ! j)" by (simp add: target_def)
    have "j \<noteq> 0" using False nodes_invD(2) [OF I(5)] I(6) by (cases "j = 0") (simp_all add: seems_dir_def inodes_inv_def)
    then have ten: "10 < n_inode (nodes_of f ! j)" using nodes_invD(5) [OF I(5) jb] tg by simp
    have "\<not> Inode_is_dir (inode_of f (n_inode (nodes_of f ! j)))" using False by (simp add: seems_dir_def)
    note place = link_place_wp [OF inv short_names_plain [OF short] _ v ten this]
    have cnt: "unat (i_links_count (inode_of f (n_inode (nodes_of f ! j)))) < 65535" using guard [OF Some] tg by simp
    show ?thesis
      unfolding link_run [OF inv short ts Some False]
    proof (auto simp: inv Some tg only_path_def split: option.split, goal_cases)
      case (1 p)
      show ?case
        by (rule act_wp_mono [OF place [OF 1(1) cnt, of now "\<lambda>_ f'. f' = f", unfolded not_None_eq only_path_def]]) auto
    qed
  qed
qed

section \<open>Permissions and owners\<close>

lemma set_permissions_wp:
  assumes inv: "image_inv f" and plain: "list_all plain_name ns"
  shows "act_wp (set_permissions (abs_path ns) mode)
    (\<lambda>_ f'. image_inv f' \<and> persists f f' \<and> same_store f f' \<and> f_tree f' = f_tree f) (\<lambda>e f'. f' = f) f"
proof (cases "tree.walk (f_tree f) 0 ns")
  case None
  then show ?thesis
    using lookup_abs_path [OF image_invD(3) [OF inv] plain] by (simp add: set_permissions_def wp)
next
  case (Some i)
  note I = image_invD [OF inv]
  define ino where "ino = n_inode (nodes_of f ! i)"
  have ib: "i < length (nodes_of f)" using walk_bound [OF I(3) Some] .
  have v: "valid_ino f ino" using nodes_invD(4) [OF I(5) ib] by (simp add: ino_def)
  define a where "a = (inode_of f ino)\<lparr>i_mode := (i_mode (inode_of f ino) AND TYPE_MASK) OR (mode AND NOT TYPE_MASK)\<rparr>"
  have "((i_mode (inode_of f ino) AND TYPE_MASK) OR (mode AND NOT TYPE_MASK)) AND TYPE_MASK = i_mode (inode_of f ino) AND TYPE_MASK"
    by (rule bit_eqI) (auto simp: bit_simps)
  then have d: "Inode_is_dir a = Inode_is_dir (inode_of f ino)" by (simp add: a_def Inode_is_dir_def is_dir_def)
  have wf: "wf_Inode (inode_of f ino)" using I(6) v all_inodes [of f wf_Inode] by (auto simp: inodes_inv_def)
  have a: "i_links_count a = i_links_count (inode_of f ino)" "wf_Inode a" "i_xattr_block_lo a = i_xattr_block_lo (inode_of f ino)"
    "same_content (inode_of f ino) a" using wf d by (simp_all add: a_def)
  show ?thesis
    using lookup_abs_path [OF I(3) plain] Some ib valid_ino_index [OF v] image_inv_attributes [OF inv v a(1) d a(2, 3)]
      persists_attributes [OF inv v a(4)]
    by (simp add: set_permissions_def wp ino_def [symmetric] inode_of_def [symmetric] a_def [symmetric])
      (simp add: same_store_def)
qed

lemma set_owner_wp:
  assumes inv: "image_inv f" and plain: "list_all plain_name ns"
  shows "act_wp (set_owner (abs_path ns) uid gid)
    (\<lambda>_ f'. image_inv f' \<and> persists f f' \<and> same_store f f' \<and> f_tree f' = f_tree f) (\<lambda>e f'. f' = f) f"
proof (cases "tree.walk (f_tree f) 0 ns")
  case None
  then show ?thesis
    using lookup_abs_path [OF image_invD(3) [OF inv] plain] by (simp add: set_owner_def wp)
next
  case (Some i)
  note I = image_invD [OF inv]
  define ino where "ino = n_inode (nodes_of f ! i)"
  have ib: "i < length (nodes_of f)" using walk_bound [OF I(3) Some] .
  have v: "valid_ino f ino" using nodes_invD(4) [OF I(5) ib] by (simp add: ino_def)
  define a where "a = chown (Some uid) (Some gid) (inode_of f ino)"
  have wf: "wf_Inode (inode_of f ino)" using I(6) v all_inodes [of f wf_Inode] by (auto simp: inodes_inv_def)
  have a: "i_links_count a = i_links_count (inode_of f ino)" "Inode_is_dir a = Inode_is_dir (inode_of f ino)" "wf_Inode a"
    "i_xattr_block_lo a = i_xattr_block_lo (inode_of f ino)" "same_content (inode_of f ino) a"
    using wf by (simp_all add: a_def)
  have e: "set_gid (set_uid (inode_of f ino) uid) gid = a" by (simp add: a_def chown_def)
  show ?thesis
    using lookup_abs_path [OF I(3) plain] Some ib valid_ino_index [OF v] image_inv_attributes [OF inv v a(1-4)]
      persists_attributes [OF inv v a(5)]
    by (simp add: set_owner_def wp ino_def [symmetric] inode_of_def [symmetric] e) (simp add: same_store_def)
qed

end
