(* ===== verification/Ext4_Sessions.thy ===== *)
theory Ext4_Sessions
  imports Ext4_Operations
begin

text \<open>
  A session with the formatter of \<open>common/ext4/src/formatter.rs\<close>: \<open>with_options\<close> and then any sequence of
  \<open>create\<close>, \<open>link\<close>, \<open>unlink\<close>, \<open>set_permissions\<close> and \<open>set_owner\<close>, as a step relation.  What every session
  keeps: the invariant, the contents of the files that are still there, the link counts, and that no
  block has two owners.
\<close>

section \<open>The start\<close>

definition start_formatter :: "stamp \<Rightarrow> FormatOptions \<Rightarrow> Formatter" where
  "start_formatter now opts =
     (let fmt = fresh_formatter now opts in seek_to_block (group_descriptor_blocks fmt + 1) fmt)"

lemma start_fields:
  assumes "fo_block_size opts = 4096" "0 < fo_size opts" "fo_size opts \<le> 2 ^ 34"
  shows "start_formatter now opts =
    (fresh_formatter now opts)\<lparr>f_file := seek_start (4096 * 33) (set_len (unat (fo_size opts)) empty_file)\<rparr>"
proof -
  have bs: "f_block_size (fresh_formatter now opts) = 4096" "f_size (fresh_formatter now opts) = fo_size opts"
    "f_file (fresh_formatter now opts) = set_len (unat (fo_size opts)) empty_file"
    using assms(1) by (simp_all add: fresh_formatter_def)
  have "group_descriptor_blocks (fresh_formatter now opts) = 32" using small_area [OF bs(1)] assms bs(2) by simp
  then show ?thesis
    using seek_to_block_pos [OF bs(1), of 33] bs(3) by (simp add: start_formatter_def Let_def)
qed

lemma fresh_image_inv:
  assumes bs: "fo_block_size opts = 4096" and p: "p mod 4096 = 0" and f: "f = (fresh_formatter now opts)\<lparr>f_file := seek_start p file\<rparr>"
  shows "image_inv f"
proof -
  have t: "nodes_of f = [\<lparr>n_inode = ROOT_INODE, n_name = ''/'', n_children = [], n_parent = None, n_blocks = None,
      n_additional_blocks = [], n_link = None\<rparr>]" "t_root (f_tree f) = 0"
    by (simp_all add: f fresh_formatter_def FileTree_new_def)
  have ins: "f_inodes f = [Inode_default, root_inode now] @ replicate 8 Inode_default" by (simp add: f fresh_formatter_def)
  have wf: "wf_tree (f_tree f)" using t by (simp add: wf_tree_def)
  have root: "inode_of f ROOT_INODE = root_inode now" by (simp add: inode_of_def ROOT_INODE_def ins)
  have dir: "Inode_is_dir (root_inode now)" by (simp add: root_inode_def Inode_is_dir_def is_dir_def mode_defs split: prod.split)
  have "valid_ino f ROOT_INODE" by (simp add: valid_ino_def ROOT_INODE_def ins)
  then have "nodes_inv f" using t by (simp add: nodes_inv_def target_def)
  moreover have "inodes_inv f" using dir root by (simp add: inodes_inv_def ins list_all_iff)
  moreover have "link_inv f" by (auto simp: link_inv_def valid_ino_def ins word_less_nat_alt)
  moreover have "owns f x = {}" for x
  proof (cases x)
    case (ONode i)
    then show ?thesis using t attached_bounds [OF _ wf, of i] by (auto simp: node_block_ranges_def)
  next
    case (OXattr k)
    have "i_xattr_block_lo (f_inodes f ! k) = 0" if "k < 10"
      using that by (auto simp: ins nth_append nth_Cons' Inode_default_def root_inode_def split: prod.split)
    then show ?thesis using OXattr ins by simp
  qed (simp_all add: f fresh_formatter_def)
  then have "own_inv f" by (simp add: own_inv_def)
  moreover have "plain_tree (f_tree f)" using t by (simp add: plain_tree_def)
  ultimately show ?thesis using wf bs p by (simp add: image_inv_def f fresh_formatter_def)
qed

section \<open>A new entry in an existing directory\<close>

lemma over_existing_new:
  assumes "image_inv f" "list_all plain_name ns" "tree.walk (f_tree f) 0 ns = None"
  shows "act_wp (create_over_existing now (abs_path ns) mode uid gid) Q E f = Q False f"
  using lookup_abs_path [OF image_invD(3) [OF assms(1)] assms(2)] assms(3) by (simp add: create_over_existing_def wp)

lemma create_existing_dir:
  assumes inv: "image_inv f" and short: "short_names ps" and p: "tree.walk (f_tree f) 0 ps = Some p" "seems_dir f p"
    and q: "Q () f"
  shows "act_wp (create now (abs_path ps) (make_mode S_IFDIR 0x1ED) None None None None None None) Q E f"
  unfolding create_unfold [OF short]
proof (rule act_wp_mono [OF over_existing_wp [OF inv short_names_plain [OF short]]], goal_cases)
  case (2 finished f')
  then show ?case using p q by (cases finished) auto
next
  case (3 e f')
  then show ?case using p by auto
qed simp

lemma create_new_wp:
  assumes inv: "image_inv f" and short: "short_names (ps @ [n])" and p: "tree.walk (f_tree f) 0 ps = Some p" "seems_dir f p"
    and new: "tree.walk (f_tree f) 0 (ps @ [n]) = None"
    and links: "unat (i_links_count (inode_of f (n_inode (nodes_of f ! p)))) < 65000"
    and room: "room f (create_cost lnk data + m)" and few: "Suc (length (f_inodes f)) < 2 ^ 32"
    and kind: "is_dir mode \<or> lnk \<noteq> None \<or> is_reg mode"
  shows "act_wp (create now (abs_path (ps @ [n])) mode lnk ts data uid gid None)
    (\<lambda>_ f'. child_created f f' p n mode lnk data uid gid \<and> room f' m) E f"
proof -
  note plain = short_names_plain [OF short]
  have ps: "short_names ps" using short by (simp add: short_names_def)
  have xok: "xattr_values_ok None" by (simp add: xattr_values_ok_def)
  have dir: "is_dir mode \<Longrightarrow> Inode_is_dir (inode_of f (n_inode (nodes_of f ! p)))" using p(2) by (simp add: seems_dir_def)
  have "act_wp (create_child now (abs_path (ps @ [n])) mode lnk ts data uid gid None)
      (\<lambda>_ f'. child_created f f' p n mode lnk data uid gid \<and> room f' m) E f"
    by (rule act_wp_mono [OF create_child_wp [OF inv plain p(1) new room few xok dir]]) (use links kind in auto)
  then have "act_wp (create now (abs_path ps) (make_mode S_IFDIR 0x1ED) None None None None None None)
      (\<lambda>_. act_wp (create_child now (abs_path (ps @ [n])) mode lnk ts data uid gid None)
         (\<lambda>_ f'. child_created f f' p n mode lnk data uid gid \<and> room f' m) E) E f"
    by (rule create_existing_dir [OF inv ps p])
  then show ?thesis
    using parent_of_snoc [OF plain] abs_path_inj_parent [OF plain]
    unfolding create_unfold [OF short] over_existing_new [OF inv plain new] by simp
qed

section \<open>with_options\<close>

lemma start_room:
  assumes "fo_block_size opts = 4096" "0 < fo_size opts" "fo_size opts \<le> 2 ^ 34" "n + 2 ^ 23 \<le> 2 ^ 33"
  shows "room (start_formatter now opts) n"
  unfolding start_fields [OF assms(1-3)]
  by (rule small_room) (use assms in \<open>simp_all add: fresh_formatter_def\<close>)

lemma with_options_wp:
  assumes bs: "fo_block_size opts = 4096" and sz: "0 < fo_size opts" "fo_size opts \<le> 2 ^ 34"
    and label: "case fo_label opts of None \<Rightarrow> True | Some l \<Rightarrow> validate_label l = Ok ()" and m: "24576 + m + 2 ^ 23 \<le> 2 ^ 33"
  shows "\<exists>f. with_options now opts = Some (Ok f) \<and> image_inv f \<and> room f m \<and> length (f_inodes f) = 11 \<and>
    (\<forall>ns. tree.walk (f_tree f) 0 ns = (if ns = [] then Some 0 else if ns = [''lost+found''] then Some 1 else None)) \<and>
    seems_dir f 0 \<and> seems_dir f 1 \<and> unat (i_links_count (inode_of f ROOT_INODE)) \<le> 3 \<and> n_inode (nodes_of f ! 0) = ROOT_INODE \<and>
    length (nodes_of f) = 2 \<and> n_link (nodes_of f ! 1) = None"
proof -
  define f0 where "f0 = start_formatter now opts"
  note f0 = start_fields [OF bs sz, of now, folded f0_def]
  have inv: "image_inv f0" by (rule fresh_image_inv [OF bs _ f0]) simp
  have nd: "nodes_of f0 = [\<lparr>n_inode = ROOT_INODE, n_name = ''/'', n_children = [], n_parent = None, n_blocks = None,
      n_additional_blocks = [], n_link = None\<rparr>]" by (simp add: f0 fresh_formatter_def FileTree_new_def)
  have walk: "tree.walk (f_tree f0) 0 ns = (if ns = [] then Some 0 else None)" for ns
    using nd by (cases ns) (simp_all add: child_def)
  have ch: "child (f_tree f0) 0 n = None" for n using nd by (simp add: child_def)
  have root: "inode_of f0 ROOT_INODE = root_inode now" "length (f_inodes f0) = 10"
    by (simp_all add: f0 fresh_formatter_def inode_of_def ROOT_INODE_def)
  have r: "room f0 (create_cost None None + m)"
    unfolding f0_def by (rule start_room [OF bs sz]) (use m in \<open>simp add: create_cost_def file_data_def\<close>)
  have sd: "seems_dir f0 0" using root(1) nd
    by (simp add: seems_dir_def root_inode_def Inode_is_dir_def is_dir_def mode_defs split: prod.split)
  have l2: "unat (i_links_count (inode_of f0 ROOT_INODE)) = 2" by (simp add: root(1) root_inode_def split: prod.split)
  have d7: "is_dir (make_mode S_IFDIR 0x1C0)" by code_simp
  have "act_wp (create now (abs_path ([] @ [''lost+found''])) (make_mode S_IFDIR 0x1C0) None None None None None None)
      (\<lambda>_ f'. child_created f0 f' 0 ''lost+found'' (make_mode S_IFDIR 0x1C0) None None None None \<and> room f' m) (\<lambda>_ _. False) f0"
    by (rule create_new_wp [OF inv _ _ sd _ _ r])
      (use ch nd l2 root(2) d7 in \<open>simp_all add: short_names_def plain_name_def EXT4_NAME_LEN_def\<close>)
  from act_wp_OkD [OF this] obtain f where
    f: "create now ''/lost+found'' (make_mode S_IFDIR 0x1C0) None None None None None None f0 = Some (Ok (), f)"
    and cc: "child_created f0 f 0 ''lost+found'' (make_mode S_IFDIR 0x1C0) None None None None" and rf: "room f m" by auto
  have w0: "tree.walk (f_tree f0) 0 [] = Some 0" by simp
  note C = child_created_addition [OF cc w0]
  obtain nd' inode where g: "grown f0 f 0 nd'" "created f0 f 0 nd' inode" "n_name nd' = ''lost+found''"
    "Inode_is_dir inode = is_dir (make_mode S_IFDIR 0x1C0)"
    using cc unfolding child_created_def by blast
  note G = grownD [OF g(1)] and CI = created_inode [OF g(2)]
  have ad: "addition f0 f 0 nd'" using g(1, 2) by (auto simp: addition_def)
  have vr: "valid_ino f0 ROOT_INODE" using root(2) by (simp add: valid_ino_def ROOT_INODE_def)
  have w: "tree.walk (f_tree f) 0 ns = (if ns = [] then Some 0 else if ns = [''lost+found''] then Some 1 else None)" for ns
    using G(8) [OF w0, of ns] walk [of ns] g(3) nd by simp
  have n0: "n_inode (nodes_of f ! 0) = ROOT_INODE" using grown_node(1) [OF g(1), of 0] nd by simp
  have s: "seems_dir f 0" "seems_dir f 1"
    using n0 addition_dir [OF ad vr] sd nd G(6) CI(2) g(4) d7 by (simp_all add: seems_dir_def)
  have "unat (i_links_count (inode_of f ROOT_INODE)) \<le> 3"
    using g(2) vr l2 by (auto simp: created_def unat_add_small)
  moreover have "with_options now opts = Some (Ok f)"
    using f label bs by (simp add: with_options_def f0_def start_formatter_def Let_def split: option.splits)
  ultimately show ?thesis using C(1, 5) rf root(2) w n0 s G(5, 6) g(2) nd by (auto simp: created_def)
qed

section \<open>Steps\<close>

text \<open>
  One call, whether it succeeds or returns an error.  Names are ordinary names of at most 255 bytes;
  the guards say that the image stays within 16 GiB, that inode numbers do not run out, and that a
  file does not get more than 65535 links, which \<open>link\<close> does not check.
\<close>

inductive fmt_step :: "Formatter \<Rightarrow> Formatter \<Rightarrow> bool" where
  step_create:
    "create now (abs_path ns) mode lnk ts data uid gid xattrs f = Some (r, f') \<Longrightarrow> short_names ns \<Longrightarrow>
     ns \<noteq> [] \<or> is_dir mode \<Longrightarrow> xattr_values_ok xattrs \<Longrightarrow> room f (create_cost lnk data + 24576 * length ns) \<Longrightarrow>
     length (f_inodes f) + length ns < 2 ^ 32 \<Longrightarrow> fmt_step f f'"
| step_link:
    "link now (abs_path ns) (abs_path ts) f = Some (r, f') \<Longrightarrow> short_names ns \<Longrightarrow> ns \<noteq> [] \<Longrightarrow> list_all plain_name ts \<Longrightarrow>
     \<forall>j. tree.walk (f_tree f) 0 ts = Some j \<longrightarrow> unat (i_links_count (inode_of f (target (nodes_of f ! j)))) < 65535 \<Longrightarrow>
     fmt_step f f'"
| step_unlink:
    "unlink now (abs_path ns) wo f = Some (r, f') \<Longrightarrow> list_all plain_name ns \<Longrightarrow> fmt_step f f'"
| step_permissions:
    "set_permissions (abs_path ns) mode f = Some (r, f') \<Longrightarrow> list_all plain_name ns \<Longrightarrow> fmt_step f f'"
| step_owner:
    "set_owner (abs_path ns) uid gid f = Some (r, f') \<Longrightarrow> list_all plain_name ns \<Longrightarrow> fmt_step f f'"

lemma act_wp_outcome:
  assumes "act_wp m (\<lambda>_ f'. P f') (\<lambda>_ f'. P f') f" "m f = Some (r, f')"
  shows "P f'"
  using assms by (cases r) (simp_all add: act_wp_def)

lemma fmt_step_ok:
  assumes "fmt_step f f'" "image_inv f"
  shows "image_inv f' \<and> persists f f'"
  using assms
proof (induction rule: fmt_step.induct)
  case (step_create now ns mode lnk ts data uid gid xattrs f r f')
  have "act_wp (create now (abs_path ns) mode lnk ts data uid gid xattrs)
      (\<lambda>_ f'. image_inv f' \<and> persists f f') (\<lambda>_ f'. image_inv f' \<and> persists f f') f"
    by (rule act_wp_mono [OF create_wp [of f ns mode lnk data 0 xattrs]])
      (use step_create in \<open>auto simp: create_frame_def\<close>)
  from act_wp_outcome [OF this step_create(1)] show ?case .
next
  case (step_link now ns ts f r f')
  then obtain ps n where ns: "ns = ps @ [n]" by (cases ns rule: rev_exhaust) auto
  have "act_wp (link now (abs_path ns) (abs_path ts))
      (\<lambda>_ f'. image_inv f' \<and> persists f f') (\<lambda>_ f'. image_inv f' \<and> persists f f') f"
    unfolding ns by (rule act_wp_mono [OF link_wp]) (use step_link ns in auto)
  from act_wp_outcome [OF this step_link(1)] show ?case .
next
  case (step_unlink now ns wo f r f')
  have "act_wp (unlink now (abs_path ns) wo)
      (\<lambda>_ f'. image_inv f' \<and> persists f f') (\<lambda>_ f'. image_inv f' \<and> persists f f') f"
    by (rule act_wp_mono [OF unlink_ok]) (use step_unlink prunedD(1) pruned_persists in auto)
  from act_wp_outcome [OF this step_unlink(1)] show ?case .
next
  case (step_permissions ns mode f r f')
  have "act_wp (set_permissions (abs_path ns) mode)
      (\<lambda>_ f'. image_inv f' \<and> persists f f') (\<lambda>_ f'. image_inv f' \<and> persists f f') f"
    by (rule act_wp_mono [OF set_permissions_wp]) (use step_permissions in auto)
  from act_wp_outcome [OF this step_permissions(1)] show ?case .
next
  case (step_owner ns uid gid f r f')
  have "act_wp (set_owner (abs_path ns) uid gid)
      (\<lambda>_ f'. image_inv f' \<and> persists f f') (\<lambda>_ f'. image_inv f' \<and> persists f f') f"
    by (rule act_wp_mono [OF set_owner_wp]) (use step_owner in auto)
  from act_wp_outcome [OF this step_owner(1)] show ?case .
qed

lemma fmt_steps_ok: "fmt_step\<^sup>*\<^sup>* f f' \<Longrightarrow> image_inv f \<Longrightarrow> image_inv f' \<and> persists f f'"
proof (induction rule: rtranclp_induct)
  case (step g h)
  then show ?case using fmt_step_ok [of g h] persists_trans by blast
qed simp

section \<open>Properties of sessions\<close>

text \<open>A state of a session that began with options for an image of at most 16 GiB.\<close>

definition session :: "stamp \<Rightarrow> FormatOptions \<Rightarrow> Formatter \<Rightarrow> bool" where
  "session now opts f \<longleftrightarrow>
     fo_block_size opts = 4096 \<and> 0 < fo_size opts \<and> fo_size opts \<le> 2 ^ 34 \<and>
     (\<exists>f0. with_options now opts = Some (Ok f0) \<and> fmt_step\<^sup>*\<^sup>* f0 f)"

lemma with_options_inv:
  assumes "with_options now opts = Some (Ok f)" "fo_block_size opts = 4096" "0 < fo_size opts" "fo_size opts \<le> 2 ^ 34"
  shows "image_inv f"
proof -
  have "case fo_label opts of None \<Rightarrow> True | Some l \<Rightarrow> validate_label l = Ok ()"
    using assms(1) by (auto simp: with_options_def split: option.splits sum.splits if_splits)
  from with_options_wp [OF assms(2-4) this, of 0 now] assms(1) show ?thesis by auto
qed

lemma session_inv: "session now opts f \<Longrightarrow> image_inv f"
  using with_options_inv fmt_steps_ok unfolding session_def by blast

text \<open>
  C30: \<open>Formatter::with_options\<close> succeeds for every valid label and size up to 16 GiB with 4096 byte
  blocks.  The new image satisfies the invariant and has exactly two paths, the root and
  \<open>/lost+found\<close>, both directories.
\<close>

theorem with_options_starts:
  assumes "fo_block_size opts = 4096" "0 < fo_size opts" "fo_size opts \<le> 2 ^ 34"
    and "case fo_label opts of None \<Rightarrow> True | Some l \<Rightarrow> validate_label l = Ok ()"
  shows "\<exists>f. with_options now opts = Some (Ok f) \<and> image_inv f \<and>
    (\<forall>ns. tree.walk (f_tree f) 0 ns = (if ns = [] then Some 0 else if ns = [''lost+found''] then Some 1 else None)) \<and>
    seems_dir f 0 \<and> seems_dir f 1"
proof -
  have "24576 + 0 + 2 ^ 23 \<le> (2 :: nat) ^ 33" by simp
  from with_options_wp [OF assms this, of now] show ?thesis by blast
qed

theorem with_options_starts_witness:
  "\<exists>f. with_options (1, 0) (FormatOptions_new 1048576) = Some (Ok f) \<and> image_inv f \<and>
     tree.walk (f_tree f) 0 [''lost+found''] = Some 1 \<and> tree.walk (f_tree f) 0 [''etc''] = None"
proof -
  have "\<exists>f. with_options (1, 0) (FormatOptions_new 1048576) = Some (Ok f) \<and> image_inv f \<and>
      (\<forall>ns. tree.walk (f_tree f) 0 ns = (if ns = [] then Some 0 else if ns = [''lost+found''] then Some 1 else None)) \<and>
      seems_dir f 0 \<and> seems_dir f 1"
    by (rule with_options_starts) (simp_all add: FormatOptions_new_def)
  then obtain f where f: "with_options (1, 0) (FormatOptions_new 1048576) = Some (Ok f)" "image_inv f"
    and w: "\<And>ns. tree.walk (f_tree f) 0 ns = (if ns = [] then Some 0 else if ns = [''lost+found''] then Some 1 else None)"
    by blast
  show ?thesis by (rule exI [of _ f]) (use f w [of "[''lost+found'']"] w [of "[''etc'']"] in simp)
qed

text \<open>
  A session in which \<open>/a\<close> was created with the contents 1, 2, 3; the witnesses below go on from it.
\<close>

lemma sample_session:
  "\<exists>f. session (1, 0) (FormatOptions_new 1048576) f \<and> room f (10 * 2 ^ 20) \<and> length (f_inodes f) = 12 \<and>
     tree.walk (f_tree f) 0 [''a''] = Some 2 \<and> tree.walk (f_tree f) 0 [''b''] = None \<and> seems_dir f 0 \<and>
     tree.walk (f_tree f) 0 [''lost+found''] = Some 1 \<and> seems_dir f 1 \<and> n_link (nodes_of f ! 1) = None \<and>
     n_inode (nodes_of f ! 2) = 12 \<and> n_link (nodes_of f ! 2) = None \<and> \<not> seems_dir f 2 \<and>
     unat (i_links_count (inode_of f 12)) = 1 \<and> unat (i_links_count (inode_of f (n_inode (nodes_of f ! 0)))) \<le> 4 \<and>
     file_size (inode_of f 12) = 3 \<and> readable (fl_pos (f_file f)) (f_file f) (inode_of f 12) (ranges_blocks (node_block_ranges (nodes_of f ! 2))) [1, 2, 3]"
proof -
  define opts where "opts = FormatOptions_new 1048576"
  have o: "fo_block_size opts = 4096" "0 < fo_size opts" "fo_size opts \<le> 2 ^ 34"
    "case fo_label opts of None \<Rightarrow> True | Some l \<Rightarrow> validate_label l = Ok ()" by (simp_all add: opts_def FormatOptions_new_def)
  obtain f where f: "with_options (1, 0) opts = Some (Ok f)" "image_inv f" "room f (11 * 2 ^ 20)" "length (f_inodes f) = 11"
    and w: "\<And>ns. tree.walk (f_tree f) 0 ns = (if ns = [] then Some 0 else if ns = [''lost+found''] then Some 1 else None)"
    and s: "seems_dir f 0" "seems_dir f 1" "unat (i_links_count (inode_of f ROOT_INODE)) \<le> 3" "n_inode (nodes_of f ! 0) = ROOT_INODE"
      "length (nodes_of f) = 2" "n_link (nodes_of f ! 1) = None"
  proof -
    have "24576 + 11 * 2 ^ 20 + 2 ^ 23 \<le> (2 :: nat) ^ 33" by simp
    from with_options_wp [OF o this, of "(1, 0)"] show thesis using that by blast
  qed
  define mode where "mode = make_mode S_IFREG 0x1A4"
  have md: "is_reg mode" "\<not> is_dir mode" by (simp_all add: mode_def, code_simp+)
  have r0: "room f (create_cost None (Some [[1, 2, 3]]) + 10 * 2 ^ 20)"
    by (rule payload_room_mono [OF f(3)]) (simp add: create_cost_def file_data_def)
  have r1: "room f (create_cost None (Some [[1, 2, 3]]) + 24576 * length [''a''])"
    by (rule payload_room_mono [OF f(3)]) (simp add: create_cost_def file_data_def)
  have ch: "child (f_tree f) 0 ''a'' = None" using w [of "[''a'']"] by (simp split: option.splits)
  have "act_wp (create (1, 0) (abs_path ([] @ [''a''])) mode None None (Some [[1, 2, 3]]) None None None)
      (\<lambda>_ f'. child_created f f' 0 ''a'' mode None (Some [[1, 2, 3]]) None None \<and> room f' (10 * 2 ^ 20)) (\<lambda>_ _. False) f"
    by (rule create_new_wp [OF f(2) _ _ s(1) _ _ r0])
      (use ch s(3, 4) f(4) md in \<open>simp_all add: short_names_def plain_name_def EXT4_NAME_LEN_def\<close>)
  from act_wp_OkD [OF this] obtain f' where
    c: "create (1, 0) (abs_path [''a'']) mode None None (Some [[1, 2, 3]]) None None None f = Some (Ok (), f')"
    and cc: "child_created f f' 0 ''a'' mode None (Some [[1, 2, 3]]) None None" and r: "room f' (10 * 2 ^ 20)" by auto
  have "fmt_step f f'"
    by (rule step_create [OF c _ _ _ r1]) (use f(4) in \<open>simp_all add: short_names_def plain_name_def EXT4_NAME_LEN_def
      xattr_values_ok_def\<close>)
  then have "session (1, 0) opts f'" using f(1) o by (auto simp: session_def)
  moreover obtain nd inode where g: "grown f f' 0 nd" "created f f' 0 nd inode" "n_name nd = ''a''" "Inode_is_dir inode = is_dir mode"
    "content_ok (f_file f') inode (ranges_blocks (node_block_ranges nd)) mode None (Some [[1, 2, 3]])" using cc unfolding child_created_def by blast
  note G = grownD [OF g(1)] and CI = created_inode [OF g(2)]
  have ad: "addition f f' 0 nd" using g(1, 2) by (auto simp: addition_def)
  have w0: "tree.walk (f_tree f) 0 [] = Some 0" by simp
  have w': "tree.walk (f_tree f') 0 ns = (if ns = [''a''] then Some 2 else tree.walk (f_tree f) 0 ns)" for ns
    using G(8) [OF w0, of ns] g(3) s(5) by simp
  have nd: "n_inode nd = 12" "n_link nd = None" "unat (i_links_count inode) = 1"
    using g(2, 4) f(4) md(2) by (simp_all add: created_def)
  have nodes: "nodes_of f' ! 2 = nd\<lparr>n_parent := Some 0\<rparr>" "n_inode (nodes_of f' ! 0) = ROOT_INODE" "n_inode (nodes_of f' ! 1) = n_inode (nodes_of f ! 1)"
    "n_link (nodes_of f' ! 1) = None"
    using G(6) s(4, 5, 6) grown_node(1) [OF g(1), of 0] grown_node(1, 2) [OF g(1), of 1] by simp_all
  have v: "valid_ino f ROOT_INODE" "valid_ino f (n_inode (nodes_of f ! 1))"
    using nodes_invD(4) [OF image_invD(5) [OF f(2)]] s(4, 5) by (metis zero_less_numeral, metis one_less_numeral_iff semiring_norm(76))
  have d: "seems_dir f' 0" "seems_dir f' 1" "\<not> seems_dir f' 2"
    using nodes addition_dir [OF ad v(1)] addition_dir [OF ad v(2)] s(1, 2, 4) CI(2) g(4) md(2) nd(1)
    by (simp_all add: seems_dir_def)
  have "unat (i_links_count (inode_of f' ROOT_INODE)) \<le> 4"
    using g(2) v(1) s(3) by (auto simp: created_def unat_add_small)
  moreover have "file_size inode = 3" "readable (fl_pos (f_file f')) (f_file f') inode (ranges_blocks (node_block_ranges (nodes_of f' ! 2))) [1, 2, 3]"
    using g(5) md(2) nodes(1) by (simp_all add: content_ok_def file_data_def node_block_ranges_def)
  ultimately show ?thesis
    unfolding opts_def
    by (intro exI [of _ f']) (use r f(4) g(2) w' [of "[''a'']"] w' [of "[''b'']"] w' [of "[''lost+found'']"]
      w [of "[''b'']"] w [of "[''lost+found'']"] d nodes nd CI(2) in \<open>simp add: created_def\<close>)
qed

text \<open>
  C13: In every session each file has as many links as there are entries that stand for it: the
  \<open>links_count\<close> of an inode that is not a directory is the number of attached nodes whose target it
  is, after any sequence of successful and failing calls.
\<close>

theorem session_link_counts:
  assumes "session now opts f" "valid_ino f ino" "10 < ino" "\<not> Inode_is_dir (inode_of f ino)"
  shows "unat (i_links_count (inode_of f ino)) = card {i. attached (f_tree f) i \<and> target (nodes_of f ! i) = ino}"
  using link_okD [OF image_invD(7) [OF session_inv [OF assms(1)]] assms(2, 3)] assms(4)
  by (simp add: link_ok_def refs_def)

theorem session_link_counts_witness:
  "\<exists>f. session (1, 0) (FormatOptions_new 1048576) f \<and> tree.walk (f_tree f) 0 [''a''] = Some 2 \<and>
     card {i. attached (f_tree f) i \<and> target (nodes_of f ! i) = 12} = 1"
proof -
  from sample_session obtain f where f: "session (1, 0) (FormatOptions_new 1048576) f" "tree.walk (f_tree f) 0 [''a''] = Some 2"
    "length (f_inodes f) = 12" "n_inode (nodes_of f ! 2) = 12" "\<not> seems_dir f 2" "unat (i_links_count (inode_of f 12)) = 1"
    by blast
  have "unat (i_links_count (inode_of f 12)) = card {i. attached (f_tree f) i \<and> target (nodes_of f ! i) = 12}"
    by (rule session_link_counts [OF f(1)]) (use f in \<open>simp_all add: valid_ino_def seems_dir_def\<close>)
  then show ?thesis using f by auto
qed



text \<open>
  C1: Contents persist.  When a path leads to the same node before and after any sequence of calls,
  the inode behind it has the same size and still leads to the blocks that hold the same bytes: no
  later call overwrites or frees the blocks of a file that is still there.
\<close>

theorem session_contents_persist:
  assumes "session now opts f" "fmt_step\<^sup>*\<^sup>* f f'"
    and "tree.walk (f_tree f) 0 ns = Some i" "tree.walk (f_tree f') 0 ns = Some i"
    and "readable (fl_pos (f_file f)) (f_file f) (inode_of f (target (nodes_of f ! i))) bl data"
  shows "target (nodes_of f' ! i) = target (nodes_of f ! i) \<and>
    file_size (inode_of f' (target (nodes_of f ! i))) = file_size (inode_of f (target (nodes_of f ! i))) \<and>
    readable (fl_pos (f_file f')) (f_file f') (inode_of f' (target (nodes_of f ! i))) bl data"
proof -
  have inv: "image_inv f" by (rule session_inv [OF assms(1)])
  have inv': "image_inv f'" "persists f f'" using fmt_steps_ok [OF assms(2) inv] by simp_all
  have i: "i < length (nodes_of f)" "attached (f_tree f') i"
    using walk_bound [OF image_invD(3) [OF inv] assms(3)] attached_iff_walk [OF image_invD(3) [OF inv'(1)]] assms(4) by blast+
  note P = persistsD [OF inv'(2)]
  have sc: "same_content (inode_of f (target (nodes_of f ! i))) (inode_of f' (target (nodes_of f ! i)))"
    using P(7) [OF i] .
  have "parse_extents (inode_of f' (target (nodes_of f ! i))) bs g = parse_extents (inode_of f (target (nodes_of f ! i))) bs g" for bs g
  proof -
    have e: "i_block (inode_of f' (target (nodes_of f ! i))) = i_block (inode_of f (target (nodes_of f ! i)))"
      using sc by (simp add: same_content_def)
    show ?thesis unfolding parse_extents_def e ..
  qed
  then have "readable (fl_pos (f_file f')) (f_file f') (inode_of f' (target (nodes_of f ! i))) bl data"
    using assms(5) keeps_bytes_trans [OF P(4) _ P(3)] by (simp add: readable_def)
  then show ?thesis using P(5) [OF i(1)] sc by (simp add: same_content_def)
qed

theorem session_contents_persist_witness:
  "\<exists>f f'. session (1, 0) (FormatOptions_new 1048576) f \<and> fmt_step\<^sup>*\<^sup>* f f' \<and> tree.walk (f_tree f') 0 [''lost+found''] = None \<and>
     file_size (inode_of f' 12) = 3 \<and>
     readable (fl_pos (f_file f')) (f_file f') (inode_of f' 12) (ranges_blocks (node_block_ranges (nodes_of f ! 2))) [1, 2, 3]"
proof -
  from sample_session obtain f where f: "session (1, 0) (FormatOptions_new 1048576) f" "tree.walk (f_tree f) 0 [''a''] = Some 2"
    "n_inode (nodes_of f ! 2) = 12" "n_link (nodes_of f ! 2) = None" "file_size (inode_of f 12) = 3"
    "readable (fl_pos (f_file f)) (f_file f) (inode_of f 12) (ranges_blocks (node_block_ranges (nodes_of f ! 2))) [1, 2, 3]"
    by blast
  have tg: "target (nodes_of f ! 2) = 12" using f(3, 4) by (simp add: target_def)
  have pl: "list_all plain_name [''lost+found'']" by (simp add: plain_name_def)
  from act_wp_OkD [OF unlink_ok [OF session_inv [OF f(1)] pl, of "(2, 0)" False]] obtain f' where
    u: "unlink (2, 0) (abs_path [''lost+found'']) False f = Some (Ok (), f')"
    "pruned f f' (\<lambda>ms. prefix [''lost+found''] ms \<and> (\<not> False \<and> [''lost+found''] \<noteq> [] \<or> ms \<noteq> [''lost+found'']))"
    by auto
  have st: "fmt_step\<^sup>*\<^sup>* f f'" using step_unlink [OF u(1) pl] by blast
  have w: "tree.walk (f_tree f') 0 [''lost+found''] = None" "tree.walk (f_tree f') 0 [''a''] = Some 2"
    using prunedD(5) [OF u(2), of "[''lost+found'']"] prunedD(5) [OF u(2), of "[''a'']"] f(2) by simp_all
  have r: "readable (fl_pos (f_file f)) (f_file f) (inode_of f (target (nodes_of f ! 2)))
      (ranges_blocks (node_block_ranges (nodes_of f ! 2))) [1, 2, 3]" using f(6) tg by simp
  have "file_size (inode_of f' 12) = 3" "readable (fl_pos (f_file f')) (f_file f') (inode_of f' 12) (ranges_blocks (node_block_ranges (nodes_of f ! 2))) [1, 2, 3]"
    using session_contents_persist [OF f(1) st f(2) w(2) r] tg f(5) by simp_all
  then show ?thesis using f(1) st w(1) by blast
qed

section \<open>Properties of the operations\<close>

text \<open>
  C6: Creating a file reads back.  In an existing directory with room, \<open>create\<close> of a new regular file
  succeeds; the path then leads to a new inode with the mode asked for, whose size is the number of
  bytes the reader delivered and whose extents lead to the blocks of the entry, which hold exactly
  those bytes.  No other path changes, and the invariant holds.
\<close>

theorem create_file_reads_back:
  assumes "image_inv f" "short_names (ps @ [n])" "tree.walk (f_tree f) 0 ps = Some p" "seems_dir f p"
    and "tree.walk (f_tree f) 0 (ps @ [n]) = None" "unat (i_links_count (inode_of f (n_inode (nodes_of f ! p)))) < 65000"
    and "room f (create_cost None (Some reader))" "Suc (length (f_inodes f)) < 2 ^ 32" "is_reg mode" "\<not> is_dir mode"
  shows "\<exists>f' i inode. create now (abs_path (ps @ [n])) mode None ts (Some reader) uid gid None f = Some (Ok (), f') \<and> image_inv f' \<and>
    (\<forall>ms. tree.walk (f_tree f') 0 ms = (if ms = ps @ [n] then Some i else tree.walk (f_tree f) 0 ms)) \<and>
    inode = inode_of f' (target (nodes_of f' ! i)) \<and> i_mode inode = mode \<and> i_links_count inode = 1 \<and>
    file_size inode = of_nat (length (reader_data reader)) \<and>
    readable (fl_pos (f_file f')) (f_file f') inode (ranges_blocks (node_block_ranges (nodes_of f' ! i))) (reader_data reader)"
proof -
  have r: "room f (create_cost None (Some reader) + 0)" using assms(7) by simp
  have "act_wp (create now (abs_path (ps @ [n])) mode None ts (Some reader) uid gid None)
      (\<lambda>_ f'. child_created f f' p n mode None (Some reader) uid gid \<and> room f' 0) (\<lambda>_ _. False) f"
    by (rule create_new_wp [OF assms(1-6) r assms(8)]) (use assms(9) in simp)
  from act_wp_OkD [OF this] obtain f' where
    c: "create now (abs_path (ps @ [n])) mode None ts (Some reader) uid gid None f = Some (Ok (), f')"
    and cc: "child_created f f' p n mode None (Some reader) uid gid" by auto
  obtain nd inode where g: "grown f f' p nd" "created f f' p nd inode" "n_name nd = n" "Inode_is_dir inode = is_dir mode"
    "content_ok (f_file f') inode (ranges_blocks (node_block_ranges nd)) mode None (Some reader)"
    using cc unfolding child_created_def by blast
  define i where "i = length (nodes_of f)"
  note G = grownD [OF g(1), folded i_def]
  have t: "target (nodes_of f' ! i) = n_inode nd" "node_block_ranges (nodes_of f' ! i) = node_block_ranges nd"
    using G(6) g(2) by (simp_all add: target_def created_def node_block_ranges_def)
  have l: "i_links_count inode = 1" using g(2, 4) assms(10) by (simp add: created_def)
  show ?thesis
    using c child_created_addition(1) [OF cc assms(3)] G(8) [OF assms(3)] g(3, 5) l created_inode(2) [OF g(2)] assms(10)
    by (intro exI [of _ f'] exI [of _ i] exI [of _ inode]) (simp add: t content_ok_def file_data_def)
qed

theorem create_file_reads_back_witness:
  "\<exists>f f' i. session (1, 0) (FormatOptions_new 1048576) f \<and>
     create (2, 0) ''/b'' 0x81A4 None None (Some [[7], [8, 9]]) (Some 5) None None f = Some (Ok (), f') \<and>
     tree.walk (f_tree f') 0 [''b''] = Some i \<and> tree.walk (f_tree f') 0 [''a''] = Some 2 \<and>
     readable (fl_pos (f_file f')) (f_file f') (inode_of f' (target (nodes_of f' ! i)))
       (ranges_blocks (node_block_ranges (nodes_of f' ! i))) [7, 8, 9]"
proof -
  from sample_session obtain f where f: "session (1, 0) (FormatOptions_new 1048576) f" "room f (10 * 2 ^ 20)" "length (f_inodes f) = 12"
    "tree.walk (f_tree f) 0 [''a''] = Some 2" "tree.walk (f_tree f) 0 [''b''] = None" "seems_dir f 0"
    "unat (i_links_count (inode_of f (n_inode (nodes_of f ! 0)))) \<le> 4" by blast
  have r: "room f (create_cost None (Some [[7], [8, 9]]))"
    by (rule payload_room_mono [OF f(2)]) (simp add: create_cost_def file_data_def)
  have m: "is_reg 0x81A4" "\<not> is_dir 0x81A4" by code_simp+
  have "\<exists>f' i inode. create (2, 0) (abs_path ([] @ [''b''])) 0x81A4 None None (Some [[7], [8, 9]]) (Some 5) None None f = Some (Ok (), f') \<and>
      image_inv f' \<and> (\<forall>ms. tree.walk (f_tree f') 0 ms = (if ms = [] @ [''b''] then Some i else tree.walk (f_tree f) 0 ms)) \<and>
      inode = inode_of f' (target (nodes_of f' ! i)) \<and> i_mode inode = 0x81A4 \<and> i_links_count inode = 1 \<and>
      file_size inode = of_nat (length (reader_data [[7], [8, 9]])) \<and>
      readable (fl_pos (f_file f')) (f_file f') inode (ranges_blocks (node_block_ranges (nodes_of f' ! i))) (reader_data [[7], [8, 9]])"
    by (rule create_file_reads_back [OF session_inv [OF f(1)] _ _ f(6) _ _ r _ m])
      (use f(3, 5, 7) in \<open>simp_all add: short_names_def plain_name_def EXT4_NAME_LEN_def\<close>)
  then obtain f' i where f': "create (2, 0) ''/b'' 0x81A4 None None (Some [[7], [8, 9]]) (Some 5) None None f = Some (Ok (), f')"
    "\<And>ms. tree.walk (f_tree f') 0 ms = (if ms = [''b''] then Some i else tree.walk (f_tree f) 0 ms)"
    "readable (fl_pos (f_file f')) (f_file f') (inode_of f' (target (nodes_of f' ! i)))
      (ranges_blocks (node_block_ranges (nodes_of f' ! i))) [7, 8, 9]" by auto
  show ?thesis
    by (rule exI [of _ f], rule exI [of _ f'], rule exI [of _ i])
      (use f(1, 4) f'(1, 3) f'(2) [of "[''b'']"] f'(2) [of "[''a'']"] in simp)
qed



text \<open>
  C18: \<open>unlink\<close> removes exactly the entry and what is below it.  It always succeeds; afterwards the given
  path and every path that starts with it is gone and every other path leads where it did, the bytes
  of the image are untouched, inodes that still have an entry differ at most in their link count, and
  the invariant holds.  For the root only the entries below it go.
\<close>

theorem unlink_prunes:
  assumes "image_inv f" "list_all plain_name ns"
  shows "\<exists>f'. unlink now (abs_path ns) False f = Some (Ok (), f') \<and> image_inv f' \<and> f_file f' = f_file f \<and>
    (\<forall>ms. tree.walk (f_tree f') 0 ms = (if prefix ns ms \<and> ms \<noteq> [] then None else tree.walk (f_tree f) 0 ms)) \<and>
    (\<forall>ino. valid_ino f ino \<and> refs f' ino \<noteq> {} \<longrightarrow> (\<exists>l. inode_of f' ino = (inode_of f ino)\<lparr>i_links_count := l\<rparr>))"
proof -
  from act_wp_OkD [OF unlink_ok [OF assms, of now False]] obtain f' where
    u: "unlink now (abs_path ns) False f = Some (Ok (), f')"
    "pruned f f' (\<lambda>ms. prefix ns ms \<and> (\<not> False \<and> ns \<noteq> [] \<or> ms \<noteq> ns))" by auto
  note P = prunedD [OF u(2)]
  have "(prefix ns ms \<and> (\<not> False \<and> ns \<noteq> [] \<or> ms \<noteq> ns)) = (prefix ns ms \<and> ms \<noteq> [])" for ms by auto
  then show ?thesis using u(1) P(1, 2, 4) P(5) by (auto simp: same_store_def inode_kept_def)
qed

theorem unlink_prunes_witness:
  "\<exists>f f'. session (1, 0) (FormatOptions_new 1048576) f \<and> tree.walk (f_tree f) 0 [''a''] = Some 2 \<and>
     unlink (3, 0) ''/a'' False f = Some (Ok (), f') \<and> tree.walk (f_tree f') 0 [''a''] = None \<and>
     tree.walk (f_tree f') 0 [''lost+found''] = Some 1"
proof -
  from sample_session obtain f where f: "session (1, 0) (FormatOptions_new 1048576) f" "tree.walk (f_tree f) 0 [''a''] = Some 2"
    "tree.walk (f_tree f) 0 [''lost+found''] = Some 1" by blast
  have p: "list_all plain_name [''a'']" "abs_path [''a''] = ''/a''" by (simp_all add: plain_name_def)
  from unlink_prunes [OF session_inv [OF f(1)] p(1), of "(3, 0)"] obtain f' where
    f': "unlink (3, 0) ''/a'' False f = Some (Ok (), f')"
    "\<And>ms. tree.walk (f_tree f') 0 ms = (if prefix [''a''] ms \<and> ms \<noteq> [] then None else tree.walk (f_tree f) 0 ms)"
    using p(2) by auto
  show ?thesis
    by (rule exI [of _ f], rule exI [of _ f']) (use f f'(1) f'(2) [of "[''a'']"] f'(2) [of "[''lost+found'']"] in simp)
qed

text \<open>
  C19: A hard link shares the inode.  When \<open>link\<close> succeeds, the new path leads to an entry whose target is
  the target of the old path; an error leaves the formatter as it was.  Either way the call returns,
  the invariant holds, and paths that neither lead to the link nor start with it are unchanged.
\<close>

theorem link_shares_inode:
  assumes "image_inv f" "short_names (ps @ [n])" "list_all plain_name ts"
    and "\<forall>j. tree.walk (f_tree f) 0 ts = Some j \<longrightarrow> unat (i_links_count (inode_of f (target (nodes_of f ! j)))) < 65535"
  shows "\<exists>r f'. link now (abs_path (ps @ [n])) (abs_path ts) f = Some (r, f') \<and> image_inv f' \<and>
    (case r of Inl e \<Rightarrow> f' = f
     | Inr u \<Rightarrow> persists f f' \<and> only_path f f' (ps @ [n]) \<and>
         (\<exists>i j. tree.walk (f_tree f) 0 ts = Some j \<and> tree.walk (f_tree f') 0 (ps @ [n]) = Some i \<and>
            target (nodes_of f' ! i) = target (nodes_of f ! j)))"
  using link_wp [OF assms(1-3), of now] assms(1, 4)
  by (auto simp: act_wp_def split: option.splits prod.splits sum.splits)

theorem link_shares_inode_witness:
  "\<exists>f r f'. session (1, 0) (FormatOptions_new 1048576) f \<and> link (4, 0) ''/b'' ''/a'' f = Some (r, f') \<and> image_inv f' \<and>
     (case r of Inl e \<Rightarrow> f' = f
      | Inr u \<Rightarrow> \<exists>i. tree.walk (f_tree f') 0 [''b''] = Some i \<and> target (nodes_of f' ! i) = 12)"
proof -
  from sample_session obtain f where f: "session (1, 0) (FormatOptions_new 1048576) f" "tree.walk (f_tree f) 0 [''a''] = Some 2"
    "n_inode (nodes_of f ! 2) = 12" "n_link (nodes_of f ! 2) = None" "unat (i_links_count (inode_of f 12)) = 1" by blast
  have tg: "target (nodes_of f ! 2) = 12" using f(3, 4) by (simp add: target_def)
  have s: "short_names ([] @ [''b''])" "list_all plain_name [''a'']"
    by (simp_all add: short_names_def plain_name_def EXT4_NAME_LEN_def)
  have g: "\<forall>j. tree.walk (f_tree f) 0 [''a''] = Some j \<longrightarrow> unat (i_links_count (inode_of f (target (nodes_of f ! j)))) < 65535"
    using f(2, 5) tg by simp
  from link_shares_inode [OF session_inv [OF f(1)] s g, of "(4, 0)"] obtain r f' where
    l: "link (4, 0) ''/b'' ''/a'' f = Some (r, f')" "image_inv f'"
    "case r of Inl e \<Rightarrow> f' = f | Inr u \<Rightarrow> persists f f' \<and> only_path f f' ([] @ [''b'']) \<and>
      (\<exists>i j. tree.walk (f_tree f) 0 [''a''] = Some j \<and> tree.walk (f_tree f') 0 ([] @ [''b'']) = Some i \<and>
         target (nodes_of f' ! i) = target (nodes_of f ! j))" by auto
  have "case r of Inl e \<Rightarrow> f' = f | Inr u \<Rightarrow> \<exists>i. tree.walk (f_tree f') 0 [''b''] = Some i \<and> target (nodes_of f' ! i) = 12"
    using l(3) f(2) tg by (cases r) (auto simp del: tree.walk.simps)
  then show ?thesis using f(1) l(1, 2) by blast
qed

section \<open>Defects the model shows\<close>

text \<open>The session goes on with a hard link \<open>/b\<close> to \<open>/a\<close>.\<close>

lemma sample_link:
  "\<exists>f i. session (1, 0) (FormatOptions_new 1048576) f \<and> tree.walk (f_tree f) 0 [''b''] = Some i \<and>
     n_link (nodes_of f ! i) = Some 12 \<and> valid_ino f 12"
proof -
  from sample_session obtain f where f: "session (1, 0) (FormatOptions_new 1048576) f" "tree.walk (f_tree f) 0 [''a''] = Some 2"
    "n_inode (nodes_of f ! 2) = 12" "n_link (nodes_of f ! 2) = None" "\<not> seems_dir f 2" "unat (i_links_count (inode_of f 12)) = 1"
    "tree.walk (f_tree f) 0 [''b''] = None" "unat (i_links_count (inode_of f (n_inode (nodes_of f ! 0)))) \<le> 4" "length (f_inodes f) = 12"
    by blast
  note inv = session_inv [OF f(1)]
  have s: "short_names ([] @ [''b''])" "list_all plain_name ([] @ [''b''])" "list_all plain_name [''a'']"
    by (simp_all add: short_names_def plain_name_def EXT4_NAME_LEN_def)
  have v: "valid_ino f 12" "10 < (12 :: u32)" "\<not> Inode_is_dir (inode_of f 12)" "unat (i_links_count (inode_of f 12)) < 65535"
    using f(3, 5, 6, 9) by (simp_all add: valid_ino_def seems_dir_def)
  have lim: "\<not> MAX_LINKS \<le> (ucast (i_links_count (inode_of f (n_inode (nodes_of f ! 0)))) :: u32)"
    using f(8) by (simp add: MAX_LINKS_def word_le_nat_alt unat_ucast_small)
  have w: "tree.walk (f_tree f) 0 [] = Some 0" "tree.walk (f_tree f) 0 ([] @ [''b'']) = None" using f(7) by simp_all
  have pl: "act_wp (link_place (4, 0) [] ''b'' 12 0 (tree.walk (f_tree f) 0 ([] @ [''b'']) \<noteq> None))
      (\<lambda>_ f'. \<exists>i. tree.walk (f_tree f') 0 ([] @ [''b'']) = Some i \<and> n_link (nodes_of f' ! i) = Some 12 \<and> persists f f')
      (\<lambda>_ _. False) f"
    by (rule act_wp_mono [OF link_place_wp [OF inv s(2) w(1) v, of "(4, 0)" "\<lambda>_ _. False"]]) blast+
  have "act_wp (link (4, 0) (abs_path ([] @ [''b''])) (abs_path [''a'']))
      (\<lambda>_ f'. \<exists>i. tree.walk (f_tree f') 0 ([] @ [''b'']) = Some i \<and> n_link (nodes_of f' ! i) = Some 12 \<and> persists f f')
      (\<lambda>_ _. False) f"
    unfolding link_run [OF inv s(1, 3) f(2, 5)] w(1) option.case if_not_P [OF lim]
    using pl w(2) f(3) by simp
  from act_wp_OkD [OF this] obtain f' i where
    l: "link (4, 0) (abs_path [''b'']) (abs_path [''a'']) f = Some (Ok (), f')"
    "tree.walk (f_tree f') 0 [''b''] = Some i" "n_link (nodes_of f' ! i) = Some 12" "persists f f'"
    by (auto simp del: tree.walk.simps)
  have st: "fmt_step f f'"
    by (rule step_link [OF l(1)]) (use s f(2, 3, 4, 6) in \<open>auto simp: target_def\<close>)
  have se: "session (1, 0) (FormatOptions_new 1048576) f'" using f(1) st by (auto simp: session_def)
  show ?thesis using se l(2, 3) persistsD(2) [OF l(4)] f(9) by (auto simp: target_def valid_ino_def)
qed

text \<open>
  C33: \<open>unlink\<close> of a directory takes one of its at least two links, so it never clears the inode: the
  inode of the removed directory stays a directory inode although no entry leads to it any more.
\<close>

theorem unlink_leaves_directory_inode:
  assumes "image_inv f" "list_all plain_name ns" "ns \<noteq> []" "tree.walk (f_tree f) 0 ns = Some i" "node_is_directory f i"
  shows "\<exists>f'. unlink now (abs_path ns) False f = Some (Ok (), f') \<and> refs f' (n_inode (nodes_of f ! i)) = {} \<and>
    Inode_is_dir (inode_of f' (n_inode (nodes_of f ! i)))"
proof -
  from act_wp_OkD [OF unlink_ok [OF assms(1, 2), of now False]] obtain f' where
    u: "unlink now (abs_path ns) False f = Some (Ok (), f')"
    "pruned f f' (\<lambda>ms. prefix ns ms \<and> (\<not> False \<and> ns \<noteq> [] \<or> ms \<noteq> ns))" by auto
  note P = prunedD [OF u(2)] and I = image_invD [OF assms(1)]
  have ib: "i < length (nodes_of f)" using walk_bound [OF I(3) assms(4)] .
  have d: "n_link (nodes_of f ! i) = None" "Inode_is_dir (inode_of f (n_inode (nodes_of f ! i)))"
    using assms(5) by (simp_all add: node_is_directory_def)
  define ino where "ino = n_inode (nodes_of f ! i)"
  have v: "valid_ino f ino" using nodes_invD(4) [OF I(5) ib] by (simp add: ino_def)
  have tg: "target (nodes_of f ! i) = ino" using d(1) by (simp add: target_def ino_def)
  have i0: "0 < i" using assms(3, 4) tree.walk_increasing [OF I(3) assms(4)] by auto
  then have ten: "10 < ino" using nodes_invD(5) [OF I(5) ib] tg by simp
  have uniq: "j = i" if "j \<in> refs f ino" for j
  proof -
    have j: "j < length (nodes_of f)" "target (nodes_of f ! j) = ino"
      using that attached_bounds [OF _ I(3)] by (auto simp: refs_def)
    have "n_link (nodes_of f ! j) = None"
      using link_okD [OF I(7) v ten] d(2) that by (simp add: link_ok_def ino_def)
    then show ?thesis using nodes_invD(6) [OF I(5) j(1) ib _ d(1)] j(2) by (simp add: target_def ino_def)
  qed
  have "tree.walk (f_tree f') 0 ns = None" using P(5) [of ns] assms(3) by simp
  moreover have "tree.walk (f_tree f') 0 ms = Some i \<Longrightarrow> ms = ns" for ms
    using P(5) [of ms] walk_inj [OF I(3) _ assms(4)] by (auto split: if_splits)
  ultimately have "\<not> attached (f_tree f') i"
    unfolding attached_iff_walk [OF image_invD(3) [OF P(1)]] by (metis option.distinct(1))
  moreover have "refs f' ino \<subseteq> refs f ino" by (rule pruned_refs [OF assms(1) u(2)])
  ultimately have "refs f' ino = {}" using uniq by (auto simp: refs_def)
  moreover have "Inode_is_dir (inode_of f' ino)" using P(4) v d(2) by (simp add: inode_kept_def ino_def)
  ultimately show ?thesis using u(1) by (auto simp: ino_def)
qed

theorem unlink_leaves_directory_inode_witness:
  "\<exists>f f'. session (1, 0) (FormatOptions_new 1048576) f \<and> unlink (5, 0) ''/lost+found'' False f = Some (Ok (), f') \<and>
     refs f' (n_inode (nodes_of f ! 1)) = {} \<and> Inode_is_dir (inode_of f' (n_inode (nodes_of f ! 1)))"
proof -
  from sample_session obtain f where f: "session (1, 0) (FormatOptions_new 1048576) f"
    "tree.walk (f_tree f) 0 [''lost+found''] = Some 1" "seems_dir f 1" "n_link (nodes_of f ! 1) = None" by blast
  have p: "list_all plain_name [''lost+found'']" by (simp add: plain_name_def)
  have d: "node_is_directory f 1" using f(3, 4) by (simp add: node_is_directory_def seems_dir_def)
  show ?thesis
    using unlink_leaves_directory_inode [OF session_inv [OF f(1)] p _ f(2) d, of "(5, 0)"] f(1) by auto
qed

lemma uid_set_gid [simp]: "uid_full (set_gid x g) = uid_full x"
  by (simp add: uid_full_def set_gid_def)

text \<open>
  C34: The node of a hard link carries the root's inode number: setting the owner of a hard link changes the
  owner of the root directory and leaves the file alone.
\<close>

theorem set_owner_of_link_hits_root:
  assumes "image_inv f" "list_all plain_name ns" "tree.walk (f_tree f) 0 ns = Some i" "n_link (nodes_of f ! i) = Some tg" "tg \<noteq> ROOT_INODE"
  shows "\<exists>f'. set_owner (abs_path ns) uid gid f = Some (Ok (), f') \<and> owner_of (inode_of f' ROOT_INODE) = (uid, gid) \<and>
    (valid_ino f tg \<longrightarrow> inode_of f' tg = inode_of f tg)"
proof -
  note I = image_invD [OF assms(1)]
  have ib: "i < length (nodes_of f)" using walk_bound [OF I(3) assms(3)] .
  have r: "n_inode (nodes_of f ! i) = ROOT_INODE" using nodes_invD(3) [OF I(5) ib] assms(4) by simp
  have v: "valid_ino f ROOT_INODE" using nodes_invD(4) [OF I(5) ib] r by simp
  define f' where "f' = f\<lparr>f_inodes := (f_inodes f)[unat (ROOT_INODE - 1) := set_gid (set_uid (inode_of f ROOT_INODE) uid) gid]\<rparr>"
  have "set_owner (abs_path ns) uid gid f = Some (Ok (), f')"
    using lookup_abs_path [OF I(3) assms(2)] assms(3) ib r valid_ino_index [OF v]
    by (simp add: set_owner_def act_bind_def tree_lookup_def tree_node_def node_def inode_update_def f'_def inode_of_def Let_def)
  moreover have "owner_of (inode_of f' ROOT_INODE) = (uid, gid)"
    using inode_of_update [OF v v, of "set_gid (set_uid (inode_of f ROOT_INODE) uid) gid"]
      uid_full_set [of "inode_of f ROOT_INODE" uid]
    by (simp add: f'_def owner_of_def uid_set_gid)
  moreover have "valid_ino f tg \<longrightarrow> inode_of f' tg = inode_of f tg"
    using inode_of_update [OF v, of tg] assms(5) by (simp add: f'_def)
  ultimately show ?thesis by blast
qed

theorem set_owner_of_link_hits_root_witness:
  "\<exists>f f'. session (1, 0) (FormatOptions_new 1048576) f \<and> valid_ino f 12 \<and> set_owner ''/b'' 1000 1000 f = Some (Ok (), f') \<and>
     owner_of (inode_of f' ROOT_INODE) = (1000, 1000) \<and> inode_of f' 12 = inode_of f 12"
proof -
  obtain f i where f: "session (1, 0) (FormatOptions_new 1048576) f" "tree.walk (f_tree f) 0 [''b''] = Some i"
    "n_link (nodes_of f ! i) = Some 12" "valid_ino f 12" using sample_link by blast
  have p: "list_all plain_name [''b'']" by (simp add: plain_name_def)
  show ?thesis
    using set_owner_of_link_hits_root [OF session_inv [OF f(1)] p f(2, 3), of 1000 1000] f(1, 4)
    by (auto simp: ROOT_INODE_def)
qed

end
