(* ===== verification/Rust_Text.thy ===== *)
theory Rust_Text
  imports Rust_Str "HOL-Library.Char_ord"
begin

text \<open>
  Text functions of the Rust standard library that the host tools use: trimming, the case of ASCII
  text, hexadecimal and decimal printing, and their values.  A message that the source formats is the
  format string with its arguments.
\<close>

type_synonym msg = "string \<times> string list"

abbreviation msg :: "string \<Rightarrow> msg" where "msg s \<equiv> (s, [])"

text \<open>The text that a message prints.\<close>

fun render_msg :: "string \<Rightarrow> string list \<Rightarrow> string" where
  "render_msg [] args = []"
| "render_msg (c # cs) args =
     (if c = CHR 0x7B \<and> cs \<noteq> [] \<and> hd cs = CHR 0x7D \<and> args \<noteq> [] then hd args @ render_msg (tl cs) (tl args)
      else c # render_msg cs args)"

section \<open>Text\<close>

text \<open>The white space of Unicode in UTF-8, which \<open>str::trim\<close> removes from both ends of a text.\<close>

definition white_space :: "string list" where
  "white_space =
     [[CHR '' ''], [CHR 0x09], [CHR 0x0A], [CHR 0x0B], [CHR 0x0C], [CHR 0x0D], [CHR 0xC2, CHR 0x85], [CHR 0xC2, CHR 0xA0],
      [CHR 0xE1, CHR 0x9A, CHR 0x80], [CHR 0xE2, CHR 0x80, CHR 0xA8], [CHR 0xE2, CHR 0x80, CHR 0xA9], [CHR 0xE2, CHR 0x80, CHR 0xAF],
      [CHR 0xE2, CHR 0x81, CHR 0x9F], [CHR 0xE3, CHR 0x80, CHR 0x80]] @
     map (\<lambda>i. [CHR 0xE2, CHR 0x80, char_of (0x80 + i)]) [0..<11::nat]"

function strip_left :: "string list \<Rightarrow> string \<Rightarrow> string" where
  "strip_left seqs s =
     (case find (\<lambda>p. p \<noteq> [] \<and> starts_with s p) seqs of
        Some p \<Rightarrow> strip_left seqs (drop (length p) s)
      | None \<Rightarrow> s)"
  by pat_completeness auto

termination
proof (relation "measure (\<lambda>(_, s). length s)")
  fix seqs s p assume "find (\<lambda>p. p \<noteq> [] \<and> starts_with s p) seqs = Some p"
  then have "p \<noteq> []" "take (length p) s = p" by (auto simp: find_Some_iff starts_with_def)
  then have "0 < length p" "0 < length s" by auto
  then show "((seqs, drop (length p) s), (seqs, s)) \<in> measure (\<lambda>(_, s). length s)" by simp
qed simp

declare strip_left.simps [simp del]

definition trim_start :: "string \<Rightarrow> string" where
  "trim_start s = strip_left white_space s"

definition trim_end :: "string \<Rightarrow> string" where
  "trim_end s = rev (strip_left (map rev white_space) (rev s))"

definition trim :: "string \<Rightarrow> string" where
  "trim s = trim_end (trim_start s)"

definition is_digit :: "char \<Rightarrow> bool" where
  "is_digit c \<longleftrightarrow> CHR ''0'' \<le> c \<and> c \<le> CHR ''9''"

definition digits_value :: "string \<Rightarrow> int" where
  "digits_value s = foldl (\<lambda>n c. 10 * n + (of_char c - 48)) 0 s"

definition to_ascii_lower :: "char \<Rightarrow> char" where
  "to_ascii_lower c = (if CHR ''A'' \<le> c \<and> c \<le> CHR ''Z'' then char_of (of_char c + 32 :: nat) else c)"

text \<open>\<open>str::lines\<close>: the lines without their terminators, a trailing empty line dropped.\<close>

definition lines :: "string \<Rightarrow> string list" where
  "lines s =
     (let ls = split_char (CHR 0x0A) s in
      map (\<lambda>l. if ends_with l [CHR 0x0D] then butlast l else l) (butlast ls) @
      (if last ls = [] then [] else [last ls]))"

section \<open>Numbers as text\<close>

definition hex_digit :: "nat \<Rightarrow> char" where
  "hex_digit n = ''0123456789abcdef'' ! n"

definition hex_lower :: "nat \<Rightarrow> 'a::len word \<Rightarrow> string" where
  "hex_lower k w = map (\<lambda>i. hex_digit (unat (drop_bit (4 * (k - 1 - i)) w) mod 16)) [0..<k]"

definition is_lower_hex :: "char \<Rightarrow> bool" where
  "is_lower_hex c \<longleftrightarrow> c \<in> set ''0123456789abcdef''"

definition is_ascii_hexdigit :: "char \<Rightarrow> bool" where
  "is_ascii_hexdigit c \<longleftrightarrow> c \<in> set ''0123456789abcdefABCDEF''"

fun decimal :: "nat \<Rightarrow> string" where
  "decimal n = (if n < 10 then [hex_digit n] else decimal (n div 10) @ [hex_digit (n mod 10)])"

declare decimal.simps [simp del]

definition hex_value :: "char \<Rightarrow> nat" where
  "hex_value c = (if c \<le> CHR ''9'' then of_char c - 48 else of_char c - 87)"

definition of_hex :: "string \<Rightarrow> nat" where
  "of_hex s = foldl (\<lambda>n c. 16 * n + hex_value c) 0 s"

lemma hex_digit_lower: "n < 16 \<Longrightarrow> is_lower_hex (hex_digit n)"
  unfolding is_lower_hex_def hex_digit_def by (intro nth_mem) simp

lemma hex_lower_all: "list_all is_lower_hex (hex_lower k w)"
  by (auto simp: hex_lower_def list_all_iff intro: hex_digit_lower)

lemma length_hex_lower [simp]: "length (hex_lower k w) = k"
  by (simp add: hex_lower_def)

lemma hex_value_digit: "n < 16 \<Longrightarrow> hex_value (hex_digit n) = n"
proof -
  have "list_all (\<lambda>n. hex_value (hex_digit n) = n) [0..<16]" by code_simp
  then show "n < 16 \<Longrightarrow> ?thesis" by (simp add: list_all_iff del: upt.simps)
qed

lemma hex_lower_Suc: "hex_lower (Suc k) w = hex_lower k (drop_bit 4 w) @ [hex_digit (unat w mod 16)]"
proof -
  have "4 * (k - i) = 4 * (k - Suc i) + 4" if "i < k" for i using that by simp
  then show ?thesis by (auto simp: hex_lower_def drop_bit_drop_bit)
qed

lemma of_hex_lower: "of_hex (hex_lower k w) = unat w mod 16 ^ k"
proof (induction k arbitrary: w)
  case 0
  then show ?case by (simp add: hex_lower_def of_hex_def)
next
  case (Suc k)
  have "of_hex (hex_lower (Suc k) w) = 16 * of_hex (hex_lower k (drop_bit 4 w)) + unat w mod 16"
    by (simp add: hex_lower_Suc of_hex_def hex_value_digit)
  also have "\<dots> = 16 * (unat w div 16 mod 16 ^ k) + unat w mod 16"
    unfolding Suc unat_drop_bit_eq by (simp add: drop_bit_eq_div)
  also have "\<dots> = unat w mod 16 ^ Suc k" by (simp add: mod_mult2_eq)
  finally show ?case .
qed

lemma digit_facts:
  assumes "n < 10"
  shows "is_digit (hex_digit n)" "(of_char (hex_digit n) :: int) = 48 + int n"
proof -
  have "list_all (\<lambda>n. is_digit (hex_digit n) \<and> (of_char (hex_digit n) :: int) = 48 + int n) [0..<10]"
    by code_simp
  then show "is_digit (hex_digit n)" "(of_char (hex_digit n) :: int) = 48 + int n"
    using assms by (simp_all add: list_all_iff del: upt.simps)
qed

lemma decimal_digits: "list_all is_digit (decimal n)" "decimal n \<noteq> []" "digits_value (decimal n) = int n"
proof (induction n rule: decimal.induct)
  case (1 n)
  {
    case 1
    from "1.IH"(1) show ?case by (subst decimal.simps) (simp add: digit_facts)
  next
    case 2
    show ?case by (subst decimal.simps) simp
  next
    case 3
    show ?case
    proof (cases "n < 10")
      case True
      then show ?thesis by (subst decimal.simps) (simp add: digits_value_def digit_facts)
    next
      case False
      with "1.IH"(3) have "digits_value (decimal (n div 10)) = int (n div 10)" by simp
      then have "digits_value (decimal n) = 10 * int (n div 10) + int (n mod 10)"
        using False by (subst decimal.simps) (simp add: digits_value_def digit_facts)
      then show ?thesis by presburger
    qed
  }
qed

text \<open>Trimming stops at visible ASCII characters.\<close>

definition visible :: "char \<Rightarrow> bool" where
  "visible c \<longleftrightarrow> (32::nat) < of_char c \<and> of_char c < (128::nat)"

lemma digit_visible: "is_digit c \<Longrightarrow> visible c"
  by (simp add: is_digit_def visible_def less_eq_char_def)

lemma white_space_chars: "p \<in> set white_space \<Longrightarrow> c \<in> set p \<Longrightarrow> \<not> visible c"
  by (auto simp: white_space_def visible_def of_char_of)

lemma strip_left_visible:
  assumes "\<And>p c. p \<in> set seqs \<Longrightarrow> c \<in> set p \<Longrightarrow> \<not> visible c" "s = [] \<or> visible (hd s)"
  shows "strip_left seqs s = s"
proof -
  have "\<not> (p \<noteq> [] \<and> starts_with s p)" if "p \<in> set seqs" for p
    using assms(1) [OF that] assms(2) by (cases p; cases s) (auto simp: starts_with_def)
  then have "find (\<lambda>p. p \<noteq> [] \<and> starts_with s p) seqs = None" by (auto simp: find_None_iff)
  then show ?thesis by (simp add: strip_left.simps)
qed

lemma trim_start_visible: "s = [] \<or> visible (hd s) \<Longrightarrow> trim_start s = s"
  unfolding trim_start_def by (rule strip_left_visible) (use white_space_chars in blast)

lemma trim_visible:
  assumes "s \<noteq> []" "visible (hd s)" "visible (last s)"
  shows "trim s = s"
proof -
  have "strip_left (map rev white_space) (rev s) = rev s"
    by (rule strip_left_visible) (use assms white_space_chars in \<open>auto simp: hd_rev\<close>)
  then show ?thesis using assms by (simp add: trim_def trim_end_def trim_start_visible)
qed

end
