(* ===== verification/Utils.thy ===== *)
theory Utils
  imports Rust_Text
begin

text \<open>
  Sizes with a unit and MAC addresses as text (\<open>common/utils/src/lib.rs\<close>).
\<close>

section \<open>Sizes\<close>

datatype HumanSizeUnit = Mb | Gb | Mib | Gib

record HumanSize =
  quantity :: u64
  unit_of :: HumanSizeUnit

definition BYTES_PER_MB :: u64 where "BYTES_PER_MB = 1000000"
definition BYTES_PER_GB :: u64 where "BYTES_PER_GB = 1000000000"
definition BYTES_PER_MIB :: u64 where "BYTES_PER_MIB = 1024 * 1024"
definition BYTES_PER_GIB :: u64 where "BYTES_PER_GIB = 1024 * 1024 * 1024"

definition checked_mul :: "u64 \<Rightarrow> u64 \<Rightarrow> u64 option" where
  "checked_mul a b = (if unat a * unat b < 2 ^ 64 then Some (a * b) else None)"

fun bytes_multiplier :: "HumanSizeUnit \<Rightarrow> u64" where
  "bytes_multiplier Mb = BYTES_PER_MB"
| "bytes_multiplier Gb = BYTES_PER_GB"
| "bytes_multiplier Mib = BYTES_PER_MIB"
| "bytes_multiplier Gib = BYTES_PER_GIB"

fun storage_bytes_multiplier :: "HumanSizeUnit \<Rightarrow> u64" where
  "storage_bytes_multiplier Mb = BYTES_PER_MIB"
| "storage_bytes_multiplier Mib = BYTES_PER_MIB"
| "storage_bytes_multiplier Gb = BYTES_PER_GIB"
| "storage_bytes_multiplier Gib = BYTES_PER_GIB"

fun memory_mib_multiplier :: "HumanSizeUnit \<Rightarrow> u64" where
  "memory_mib_multiplier Mb = 1"
| "memory_mib_multiplier Mib = 1"
| "memory_mib_multiplier Gb = 1024"
| "memory_mib_multiplier Gib = 1024"

definition HumanSize_bytes :: "HumanSize \<Rightarrow> msg + u64" where
  "HumanSize_bytes s =
     (case checked_mul (quantity s) (bytes_multiplier (unit_of s)) of
        None \<Rightarrow> Err (msg ''size is too large'') | Some n \<Rightarrow> Ok n)"

definition storage_bytes :: "HumanSize \<Rightarrow> msg + u64" where
  "storage_bytes s =
     (case checked_mul (quantity s) (storage_bytes_multiplier (unit_of s)) of
        None \<Rightarrow> Err (msg ''size is too large'') | Some n \<Rightarrow> Ok n)"

definition memory_mib :: "HumanSize \<Rightarrow> msg + u32" where
  "memory_mib s =
     (case checked_mul (quantity s) (memory_mib_multiplier (unit_of s)) of
        None \<Rightarrow> Err (msg ''memory size is too large'')
      | Some mib \<Rightarrow>
          if mib = 0 then Err (msg ''memory size must be greater than 0'')
          else if unat mib < 2 ^ 32 then Ok (ucast mib) else Err (msg ''memory size is too large''))"

definition HumanSizeUnit_parse :: "string \<Rightarrow> msg + HumanSizeUnit" where
  "HumanSizeUnit_parse input =
     (let s = map to_ascii_lower input in
      if s = ''m'' \<or> s = ''mb'' then Ok Mb
      else if s = ''g'' \<or> s = ''gb'' then Ok Gb
      else if s = ''mib'' then Ok Mib
      else if s = ''gib'' then Ok Gib
      else Err (msg ''invalid size unit; use m, mb, mib, g, gb, or gib''))"

definition is_ascii_alphabetic :: "char \<Rightarrow> bool" where
  "is_ascii_alphabetic c \<longleftrightarrow> (CHR ''a'' \<le> c \<and> c \<le> CHR ''z'') \<or> (CHR ''A'' \<le> c \<and> c \<le> CHR ''Z'')"

text \<open>\<open>parse::<u64>\<close> on a non-empty run of digits.\<close>

definition parse_u64 :: "string \<Rightarrow> u64 option" where
  "parse_u64 ds = (if digits_value ds < 2 ^ 64 then Some (of_int (digits_value ds)) else None)"

definition HumanSize_from_str :: "string \<Rightarrow> msg + HumanSize" where
  "HumanSize_from_str input0 =
     (let input = trim input0; digits = takeWhile is_digit input in
      if input = [] then Err (msg ''size is required'')
      else if digits = [] then Err (msg ''invalid size, expected an integer followed by m, mb, mib, g, gb, or gib'')
      else case parse_u64 digits of
        None \<Rightarrow> Err (msg ''invalid size quantity: {}'')
      | Some q \<Rightarrow>
          let u = trim_start (drop (length digits) input) in
          if u = [] then Err (msg ''invalid size, missing unit; use m, mb, mib, g, gb, or gib'')
          else if \<not> list_all is_ascii_alphabetic u then Err (msg ''invalid size unit; use m, mb, mib, g, gb, or gib'')
          else
            bind_result (HumanSizeUnit_parse u) (\<lambda>u'.
              let size = \<lparr>quantity = q, unit_of = u'\<rparr> in
              bind_result (storage_bytes size) (\<lambda>_. Ok size)))"

fun HumanSizeUnit_fmt :: "HumanSizeUnit \<Rightarrow> string" where
  "HumanSizeUnit_fmt Mb = ''mb''"
| "HumanSizeUnit_fmt Gb = ''gb''"
| "HumanSizeUnit_fmt Mib = ''mib''"
| "HumanSizeUnit_fmt Gib = ''gib''"

definition HumanSize_fmt :: "HumanSize \<Rightarrow> string" where
  "HumanSize_fmt s = decimal (unat (quantity s)) @ HumanSizeUnit_fmt (unit_of s)"

text \<open>The hundredths are computed in \<open>u128\<close>, where nothing wraps.\<close>

definition format_binary_unit :: "u64 \<Rightarrow> u64 \<Rightarrow> string \<Rightarrow> string" where
  "format_binary_unit bytes unit suffix =
     (let whole = unat (bytes div unit);
          remainder = unat (bytes mod unit) in
      if remainder = 0 then decimal whole @ suffix
      else
        let h = (remainder * 100 + unat unit div 2) div unat unit in
        if h = 100 then decimal (whole + 1) @ suffix
        else if h mod 10 = 0 then decimal whole @ ''.'' @ decimal (h div 10) @ suffix
        else decimal whole @ ''.'' @ decimal (h div 10) @ decimal (h mod 10) @ suffix)"

definition format_storage_size :: "u64 \<Rightarrow> string" where
  "format_storage_size bytes =
     (if BYTES_PER_GIB \<le> bytes then format_binary_unit bytes BYTES_PER_GIB ''GiB''
      else if BYTES_PER_MIB \<le> bytes then format_binary_unit bytes BYTES_PER_MIB ''MiB''
      else decimal (unat bytes) @ ''B'')"

section \<open>MAC addresses\<close>

definition format_mac :: "u8 list \<Rightarrow> string" where
  "format_mac mac =
     hex_lower 2 (mac ! 0) @ '':'' @ hex_lower 2 (mac ! 1) @ '':'' @ hex_lower 2 (mac ! 2) @ '':'' @
     hex_lower 2 (mac ! 3) @ '':'' @ hex_lower 2 (mac ! 4) @ '':'' @ hex_lower 2 (mac ! 5)"

text \<open>
  \<open>u8::from_str_radix(_, 16)\<close> on a part of two bytes: a leading \<open>+\<close> is a sign, every other character must
  be a digit.
\<close>

definition hex_char :: "char \<Rightarrow> nat option" where
  "hex_char c =
     (let c' = to_ascii_lower c in if is_lower_hex c' then Some (hex_value c') else None)"

fun from_str_radix_16 :: "string \<Rightarrow> u8 option" where
  "from_str_radix_16 [a, b] =
     (case hex_char b of
        None \<Rightarrow> None
      | Some y \<Rightarrow>
          if a = CHR ''+'' then Some (of_nat y)
          else case hex_char a of None \<Rightarrow> None | Some x \<Rightarrow> Some (of_nat (16 * x + y)))"
| "from_str_radix_16 _ = None"

fun parse_mac_bytes :: "string list \<Rightarrow> msg + u8 list" where
  "parse_mac_bytes [] = Ok []"
| "parse_mac_bytes (part # parts) =
     (if length part \<noteq> 2 then Err (''invalid MAC byte {}: expected two hex digits'', [part])
      else case from_str_radix_16 part of
        None \<Rightarrow> Err (''invalid MAC byte {}'', [part])
      | Some b \<Rightarrow> bind_result (parse_mac_bytes parts) (\<lambda>bs. Ok (b # bs)))"

definition parse_mac :: "string \<Rightarrow> msg + u8 list" where
  "parse_mac input =
     (let parts = split_char (CHR '':'') input in
      if length parts \<noteq> 6 then Err (msg ''expected MAC as xx:xx:xx:xx:xx:xx'')
      else
        bind_result (parse_mac_bytes parts) (\<lambda>mac.
          if (mac ! 0) AND 0x01 \<noteq> 0 then Err (msg ''MAC address cannot be multicast'') else Ok mac))"

section \<open>Round trips\<close>

lemma unit_text:
  "list_all is_ascii_alphabetic (HumanSizeUnit_fmt u)" "HumanSizeUnit_fmt u \<noteq> []"
  "\<not> is_digit (hd (HumanSizeUnit_fmt u))" "visible (hd (HumanSizeUnit_fmt u))"
  "visible (last (HumanSizeUnit_fmt u))" "HumanSizeUnit_parse (HumanSizeUnit_fmt u) = Ok u"
  by (cases u; simp; code_simp)+

lemma parse_u64_decimal: "parse_u64 (decimal (unat q)) = Some q"
proof -
  have "int (unat q) < int (2 ^ 64)" using unat_below [of q] unfolding of_nat_less_iff by simp
  then have "digits_value (decimal (unat q)) < 2 ^ 64" unfolding decimal_digits by simp
  then show ?thesis unfolding parse_u64_def by (simp add: decimal_digits)
qed

text \<open>
  C40: A size that is printed reads back as itself, provided that its number of storage bytes fits in 64
  bits; otherwise reading it reports that error.
\<close>

theorem size_text_roundtrip: "HumanSize_from_str (HumanSize_fmt s) = bind_result (storage_bytes s) (\<lambda>_. Ok s)"
proof -
  have [simp]: "\<lparr>quantity = quantity s, unit_of = unit_of s\<rparr> = s" by simp
  let ?d = "decimal (unat (quantity s))" and ?u = "HumanSizeUnit_fmt (unit_of s)"
  note d = decimal_digits [of "unat (quantity s)"]
  have hd: "is_digit (hd ?d)" using d(1,2) by (cases ?d) simp_all
  have "trim (?d @ ?u) = ?d @ ?u"
    using d(2) unit_text(2,5) digit_visible [OF hd] by (intro trim_visible) simp_all
  moreover have "takeWhile is_digit (?d @ ?u) = ?d"
    using d(1) unit_text(2,3) [of "unit_of s"] by (cases ?u) (simp_all add: list_all_iff takeWhile_append2)
  moreover have "trim_start ?u = ?u" using unit_text(4) [of "unit_of s"] by (intro trim_start_visible) simp
  ultimately show ?thesis
    using d(2) unit_text(1,2,6) [of "unit_of s"]
    by (simp add: HumanSize_from_str_def HumanSize_fmt_def parse_u64_decimal Let_def)
qed

lemma from_str_radix_hex: "from_str_radix_16 (hex_lower 2 (b :: u8)) = Some b"
proof -
  have *: "hex_char (hex_digit n) = Some n \<and> hex_digit n \<noteq> CHR ''+''" if "n < 16" for n
  proof -
    have "list_all (\<lambda>n. hex_char (hex_digit n) = Some n \<and> hex_digit n \<noteq> CHR ''+'') [0..<16]" by code_simp
    then show ?thesis using that by (simp add: list_all_iff del: upt.simps)
  qed
  have "unat b < 256" using unat_below [of b] by simp
  then have div: "unat (drop_bit 4 b) mod 16 = unat b div 16" unfolding unat_drop_bit_eq by (simp add: drop_bit_eq_div)
  have "hex_lower 2 b = [hex_digit (unat b div 16), hex_digit (unat b mod 16)]"
    unfolding numeral_2_eq_2 hex_lower_Suc by (simp add: hex_lower_def div)
  moreover have "unat b div 16 < 16" using \<open>unat b < 256\<close> by simp
  ultimately show ?thesis using * [of "unat b div 16"] * [of "unat b mod 16"] by simp
qed

lemma hex_no_colon: "CHR '':'' \<notin> set (hex_lower k w)"
proof -
  have "\<not> is_lower_hex (CHR '':'')" by code_simp
  then show ?thesis using hex_lower_all [of k w] by (auto simp: list_all_iff)
qed

lemma split_char_append:
  assumes "c \<notin> set s"
  shows "split_char c (s @ c # t) = s # split_char c t" "split_char c s = [s]"
  using assms by (induction s) (auto split: list.splits)

lemma parse_format_mac:
  assumes "length mac = 6"
  shows "parse_mac (format_mac mac) =
    (if mac ! 0 AND 1 \<noteq> 0 then Err (msg ''MAC address cannot be multicast'') else Ok mac)"
proof -
  obtain a b c d e f where mac: "mac = [a, b, c, d, e, f]"
    using assms by (auto simp: length_Suc_conv numeral_eq_Suc)
  have "split_char (CHR '':'') (format_mac mac) = map (hex_lower 2) mac"
    by (simp add: format_mac_def mac split_char_append hex_no_colon)
  then show ?thesis by (simp add: parse_mac_def mac from_str_radix_hex)
qed

text \<open>
  A MAC address that is printed reads back as itself, unless its multicast bit is set, which the
  parser refuses.
\<close>

theorem mac_text_roundtrip:
  assumes "length mac = 6"
  shows "parse_mac (format_mac mac) =
    (if mac ! 0 AND 1 \<noteq> 0 then Err (msg ''MAC address cannot be multicast'') else Ok mac)"
  by (rule parse_format_mac [OF assms])

theorem mac_text_roundtrip_witness:
  "parse_mac (format_mac [2, 0x94, 0xEF, 0xE4, 0x0C, 0xEE]) = Ok [2, 0x94, 0xEF, 0xE4, 0x0C, 0xEE]"
  using mac_text_roundtrip [of "[2, 0x94, 0xEF, 0xE4, 0x0C, 0xEE]"] by simp

text \<open>
  The parser accepts bytes that are not two hex digits: a sign counts as the first one.
\<close>

lemma mac_sign_accepted: "parse_mac ''+2:94:ef:e4:0c:+e'' = Ok [2, 0x94, 0xEF, 0xE4, 0x0C, 0x0E]"
  by code_simp

end
