(* ===== verification/Vm_Models.thy ===== *)
theory Vm_Models
  imports Rust_Text
begin

text \<open>
  The data of \<open>libvm\<close> (\<open>runtime/libvm/src\<close>): machine identifiers and references, the machine
  specification of \<open>specs/vm-spec\<close>, the persisted configuration and runtime state, the errors, and
  the pure functions on them: name validation, reference parsing, name generation and memory sizes.

  \<^item> A \<open>MachineId\<close> is the 128-bit value of a UUID.  \<open>Uuid::parse_str\<close> belongs to the \<open>uuid\<close> crate and
    is the parameter \<open>uuid\<close>; \<open>uuid_spec\<close> is what its documentation promises.
  \<^item> \<open>i32\<close> and \<open>i64\<close> values are integers; the one subtraction that can leave the range saturates and
    says so.
  \<^item> A message that the source formats is the format string with its arguments.
\<close>

section \<open>Machine identifiers\<close>

type_synonym MachineId = "128 word"

definition MachineId_to_string :: "MachineId \<Rightarrow> string" where
  "MachineId_to_string mid = hex_lower 32 mid"

definition looks_like_id_prefix :: "string \<Rightarrow> bool" where
  "looks_like_id_prefix input \<longleftrightarrow> 3 \<le> length input \<and> length input \<le> 32 \<and> list_all is_ascii_hexdigit input"

text \<open>
  \<open>Uuid::parse_str\<close> reads back what \<open>simple()\<close> prints, and accepts the simple, hyphenated, braced and
  URN forms only, of 32, 36, 38 and 45 characters.
\<close>

definition uuid_spec :: "(string \<Rightarrow> MachineId option) \<Rightarrow> bool" where
  "uuid_spec uuid \<longleftrightarrow>
     (\<forall>mid. uuid (MachineId_to_string mid) = Some mid) \<and>
     (\<forall>s mid. uuid s = Some mid \<longrightarrow> length s \<in> {32, 36, 38, 45})"

section \<open>The machine specification\<close>

datatype GuestOs = Linux

record Guest =
  g_os :: "GuestOs option"

record Kernel =
  k_path :: "string option"
  k_cmdline :: "string list"
  k_initramfs :: "string option"

record Boot =
  b_kernel :: "Kernel option"
  b_userdata :: "string option"

record Hardware =
  hw_cpus :: "u8 option"
  hw_memory :: "u32 option"
  hw_nested_virtualization :: "bool option"
  hw_rosetta :: "bool option"

record Disk =
  d_path :: string
  d_read_only :: bool

record Storage =
  st_disks :: "Disk list"

record Mount =
  m_source :: string
  m_tag :: string
  m_read_only :: bool

datatype VsockEndpointMode = Connect | Listen

datatype RestartPolicy = Never | OnFailure | Always

record Backoff =
  bo_initial :: u64
  bo_max :: u64

record Lifecycle =
  lc_autostart :: bool
  lc_startup_timeout_ms :: u64
  lc_restart :: RestartPolicy
  lc_backoff_ms :: Backoff

definition Backoff_default :: Backoff where
  "Backoff_default = \<lparr>bo_initial = 200, bo_max = 5000\<rparr>"

definition Lifecycle_default :: Lifecycle where
  "Lifecycle_default =
     \<lparr>lc_autostart = True, lc_startup_timeout_ms = 5000, lc_restart = OnFailure, lc_backoff_ms = Backoff_default\<rparr>"

text \<open>The plugin configuration is a JSON value, which is kept as its text.\<close>

record Plugin =
  pl_command :: string
  pl_args :: "string list"
  pl_env :: "(string \<times> string) list"
  pl_working_dir :: "string option"
  pl_config :: "string option"

record VsockEndpoint =
  ve_name :: string
  ve_port :: u32
  ve_mode :: VsockEndpointMode
  ve_plugin :: Plugin
  ve_lifecycle :: Lifecycle

record Vsock =
  vs_endpoints :: "VsockEndpoint list"

record VmSpec =
  spec_version :: "u64 \<times> u64 \<times> u64"
  sp_guest :: "Guest option"
  sp_boot :: "Boot option"
  sp_hardware :: "Hardware option"
  sp_storage :: "Storage option"
  sp_mounts :: "Mount list"
  sp_vsock :: "Vsock option"
  sp_annotations :: "(string \<times> string) list"

definition VmSpec_current :: VmSpec where
  "VmSpec_current =
     \<lparr>spec_version = (0, 1, 0), sp_guest = None, sp_boot = None, sp_hardware = None, sp_storage = None,
      sp_mounts = [], sp_vsock = None, sp_annotations = []\<rparr>"

definition empty_hardware :: Hardware where
  "empty_hardware =
     \<lparr>hw_cpus = None, hw_memory = None, hw_nested_virtualization = None, hw_rosetta = None\<rparr>"

section \<open>Persisted machine records\<close>

datatype MachineRuntimeState = Stopped | Starting | Running | Stopping | Error

definition as_str :: "MachineRuntimeState \<Rightarrow> string" where
  "as_str st =
     (case st of Stopped \<Rightarrow> ''stopped'' | Starting \<Rightarrow> ''starting'' | Running \<Rightarrow> ''running''
      | Stopping \<Rightarrow> ''stopping'' | Error \<Rightarrow> ''error'')"

definition MachineRuntimeState_parse :: "string \<Rightarrow> msg + MachineRuntimeState" where
  "MachineRuntimeState_parse v =
     (if v = ''stopped'' then Ok Stopped
      else if v = ''starting'' then Ok Starting
      else if v = ''running'' then Ok Running
      else if v = ''stopping'' then Ok Stopping
      else if v = ''error'' then Ok Error
      else Err (''unknown machine runtime state {}'', [v]))"

definition is_running :: "MachineRuntimeState \<Rightarrow> bool" where
  "is_running st \<longleftrightarrow> st = Running"

record MachineState =
  ms_machine_id :: MachineId
  ms_status :: MachineRuntimeState
  ms_vmmon_pid :: "int option"
  ms_started_at :: "int option"
  ms_run_id :: "string option"
  ms_last_error :: "msg option"
  ms_updated_at :: int

datatype MachineNetworkConfig =
    NetPrivate (policy_ref: "string option")
  | NetNone
  | NetNamed (net_name: string)

record MachineConfig =
  mc_id :: MachineId
  mc_lock_id :: u32
  mc_name :: string
  mc_spec :: VmSpec
  mc_machine_dir :: string
  mc_created_at :: int
  mc_modified_at :: int
  mc_image_ref :: string
  mc_root_disk_size :: "u64 option"
  mc_labels :: "(string \<times> string) list"
  mc_metadata :: "(string \<times> string) list"
  mc_network :: MachineNetworkConfig

section \<open>Errors\<close>

datatype LibVmError =
    DataDirUnavailable
  | ConfigDirUnavailable
  | RelativeEnvironmentPath string string
  | InvalidMachineName string msg
  | InvalidMachineIdPrefix string msg
  | MachineAlreadyExists string
  | MachineNameGenerationFailed u32
  | MachineNotFound string
  | MachineIdAlreadyExists string
  | MachineAlreadyRunning string
  | MachineNotRunning string
  | MonitorConnection string msg
  | MonitorProtocol string msg
  | MachinePreparationFailed string msg
  | NetworkRuntime string msg
  | VmMonExecutableNotFound string
  | InvalidCreateRequest string msg
  | InvalidMachineUpdate string msg
  | UnsupportedHostArchitecture string
  | CorruptState string string
  | VmSpecSerializeFailed string msg
  | VmSpecLoadFailed string string msg
  | AmbiguousIdPrefix string nat
  | StateDecode string msg
  | StateDatabaseConfigMismatch string string string
  | Database msg
  | DatabaseMigration msg
  | Io msg
  | RootDisk msg

section \<open>Names\<close>

definition identifier_char :: "char \<Rightarrow> bool" where
  "identifier_char c \<longleftrightarrow>
     (CHR ''a'' \<le> c \<and> c \<le> CHR ''z'') \<or> (CHR ''A'' \<le> c \<and> c \<le> CHR ''Z'') \<or> (CHR ''0'' \<le> c \<and> c \<le> CHR ''9'') \<or>
     c = CHR ''-'' \<or> c = CHR ''_'' \<or> c = CHR ''.''"


definition validate_identifier :: "string \<Rightarrow> string list \<Rightarrow> msg + unit" where
  "validate_identifier name reserved =
     (if name = [] then Err (msg ''name cannot be empty'')
      else if starts_with name ''-'' then Err (''name cannot start with {}'', [''-''])
      else if name \<in> set reserved then Err (''{} is reserved'', [name])
      else case dropWhile identifier_char name of
        [] \<Rightarrow> Ok ()
      | c # cs \<Rightarrow>
          Err (''unsupported character {}'',
            [take (case utf8_step (str_bytes (c # cs)) of Inl n \<Rightarrow> n | Inr n \<Rightarrow> n) (c # cs)]))"

definition validate_machine_name :: "string \<Rightarrow> LibVmError + unit" where
  "validate_machine_name name =
     (case validate_identifier name [] of
        Inl reason \<Rightarrow> Err (InvalidMachineName name reason)
      | Inr _ \<Rightarrow> Ok ())"

definition RESERVED_NETWORK_NAMES :: "string list" where
  "RESERVED_NETWORK_NAMES = [''private'', ''none'']"

definition validate_network_name :: "string \<Rightarrow> msg + unit" where
  "validate_network_name name = validate_identifier name RESERVED_NETWORK_NAMES"

section \<open>References\<close>

datatype MachineRefKind = RefId MachineId | RefIdPrefix string | RefName string

definition MachineRef_parse :: "(string \<Rightarrow> MachineId option) \<Rightarrow> string \<Rightarrow> LibVmError + MachineRefKind" where
  "MachineRef_parse uuid input =
     (case uuid input of
        Some mid \<Rightarrow> Ok (RefId mid)
      | None \<Rightarrow>
          if looks_like_id_prefix input then Ok (RefIdPrefix (map to_ascii_lower input))
          else bind_result (validate_machine_name input) (\<lambda>_. Ok (RefName input)))"

section \<open>Generated names\<close>

definition ADJECTIVES :: "string list" where
  "ADJECTIVES =
     [''amber'', ''brave'', ''bright'', ''calm'', ''cedar'', ''clever'', ''cosmic'', ''crisp'', ''daring'', ''dawn'',
      ''eager'', ''ember'', ''fabled'', ''fleet'', ''gentle'', ''golden'', ''harbor'', ''hidden'', ''honest'', ''jolly'',
      ''lively'', ''lunar'', ''mellow'', ''mighty'', ''nimble'', ''noble'', ''patient'', ''plucky'', ''proud'', ''quiet'',
      ''rapid'', ''ready'', ''remote'', ''river'', ''silver'', ''steady'', ''sunny'', ''swift'', ''tidy'', ''valiant'',
      ''velvet'', ''vivid'', ''wandering'', ''warm'', ''wild'', ''winter'', ''wise'', ''zesty'']"

definition NOUNS :: "string list" where
  "NOUNS =
     [''badger'', ''beacon'', ''bison'', ''branch'', ''brook'', ''comet'', ''coyote'', ''cricket'', ''drift'',
      ''falcon'', ''fern'', ''forge'', ''gopher'', ''grove'', ''harrier'', ''heron'', ''island'', ''juniper'', ''koala'',
      ''lantern'', ''lark'', ''maple'', ''meadow'', ''meteor'', ''otter'', ''panda'', ''pioneer'', ''quartz'',
      ''raccoon'', ''raven'', ''sable'', ''salmon'', ''sparrow'', ''spruce'', ''summit'', ''tundra'', ''valley'',
      ''violet'', ''walrus'', ''willow'', ''wombat'', ''yak'', ''zephyr'', ''zircon'', ''anchor'', ''cinder'',
      ''glacier'', ''orchid'']"

definition choose_word :: "string list \<Rightarrow> u64 \<Rightarrow> LibVmError + string" where
  "choose_word words entropy =
     (let word_count = of_nat (length words) :: u64 in
      if word_count = 0 then Err (MachineNameGenerationFailed 0)
      else let index = unat (entropy mod word_count) in
        if index < length words then Ok (words ! index) else Err (MachineNameGenerationFailed 0))"

definition name_from_entropy :: "u64 \<Rightarrow> LibVmError + string" where
  "name_from_entropy entropy =
     bind_result (choose_word ADJECTIVES entropy) (\<lambda>adjective.
     bind_result (choose_word NOUNS (word_rotl 21 entropy)) (\<lambda>noun.
     let suffix = word_rotl 42 entropy AND 0xffff in
     if 0xffff < suffix then Err (MachineNameGenerationFailed 0)
     else
       let name = adjective @ ''-'' @ noun @ ''-'' @ hex_lower 4 suffix in
       bind_result (validate_machine_name name) (\<lambda>_. Ok name)))"

section \<open>Memory sizes\<close>

record Memory =
  mem_bytes :: u64

definition BYTES_PER_MEBIBYTE :: u64 where "BYTES_PER_MEBIBYTE = 1024 * 1024"
definition BYTES_PER_GIBIBYTE :: u64 where "BYTES_PER_GIBIBYTE = 1024 * BYTES_PER_MEBIBYTE"

definition saturating_mul :: "u64 \<Rightarrow> u64 \<Rightarrow> u64" where
  "saturating_mul a b = (if unat a * unat b < 2 ^ 64 then a * b else - 1)"

definition Memory_mebibytes :: "u64 \<Rightarrow> Memory" where
  "Memory_mebibytes n = \<lparr>mem_bytes = saturating_mul n BYTES_PER_MEBIBYTE\<rparr>"

definition Memory_gibibytes :: "u64 \<Rightarrow> Memory" where
  "Memory_gibibytes n = \<lparr>mem_bytes = saturating_mul n BYTES_PER_GIBIBYTE\<rparr>"

definition div_ceil :: "u64 \<Rightarrow> u64 \<Rightarrow> u64" where
  "div_ceil a b = (if a mod b = 0 then a div b else a div b + 1)"

definition to_vm_spec_mebibytes :: "Memory \<Rightarrow> string \<Rightarrow> LibVmError + u32" where
  "to_vm_spec_mebibytes memory name =
     (if mem_bytes memory = 0 then Err (InvalidCreateRequest name (msg ''memory must be greater than 0''))
      else let mebibytes = div_ceil (mem_bytes memory) BYTES_PER_MEBIBYTE in
        if unat mebibytes < 2 ^ 32 then Ok (ucast mebibytes)
        else Err (InvalidCreateRequest name (''memory is too large: {} bytes'', [decimal (unat (mem_bytes memory))])))"

definition to_update_mebibytes :: "Memory \<Rightarrow> string \<Rightarrow> LibVmError + u32" where
  "to_update_mebibytes memory reference =
     (if mem_bytes memory = 0 then Err (InvalidMachineUpdate reference (msg ''memory must be greater than 0''))
      else let mebibytes = div_ceil (mem_bytes memory) BYTES_PER_MEBIBYTE in
        if unat mebibytes < 2 ^ 32 then Ok (ucast mebibytes)
        else Err (InvalidMachineUpdate reference (''memory is too large: {} bytes'', [decimal (unat (mem_bytes memory))])))"

section \<open>Facts\<close>

lemma as_str_parse [simp]: "MachineRuntimeState_parse (as_str st) = Ok st"
  by (cases st) (simp_all add: as_str_def MachineRuntimeState_parse_def)

lemma validate_identifier_ok:
  "validate_identifier name reserved = Ok () \<longleftrightarrow>
     name \<noteq> [] \<and> \<not> starts_with name ''-'' \<and> name \<notin> set reserved \<and> list_all identifier_char name"
proof -
  have "list_all identifier_char name \<longleftrightarrow> dropWhile identifier_char name = []" by (simp add: list_all_iff)
  then show ?thesis
    unfolding validate_identifier_def by (auto split: list.split simp del: dropWhile_eq_Nil_conv)
qed

lemma validate_machine_name_ok:
  "validate_machine_name name = Ok () \<longleftrightarrow> name \<noteq> [] \<and> \<not> starts_with name ''-'' \<and> list_all identifier_char name"
  using validate_identifier_ok [of name "[]"] by (auto simp: validate_machine_name_def split: sum.splits)

lemma lower_hex_facts:
  assumes "is_lower_hex c"
  shows "is_ascii_hexdigit c" "identifier_char c" "to_ascii_lower c = c" "c \<noteq> CHR ''-''"
proof -
  have "list_all (\<lambda>c. is_ascii_hexdigit c \<and> identifier_char c \<and> to_ascii_lower c = c \<and> c \<noteq> CHR ''-'') ''0123456789abcdef''"
    by code_simp
  then show "is_ascii_hexdigit c" "identifier_char c" "to_ascii_lower c = c" "c \<noteq> CHR ''-''"
    using assms unfolding is_lower_hex_def list_all_iff by blast+
qed

lemma hexdigit_identifier: "is_ascii_hexdigit c \<Longrightarrow> identifier_char c \<and> c \<noteq> CHR ''-''"
proof -
  have "list_all (\<lambda>c. identifier_char c \<and> c \<noteq> CHR ''-'') ''0123456789abcdefABCDEF''" by code_simp
  then show "is_ascii_hexdigit c \<Longrightarrow> ?thesis" unfolding is_ascii_hexdigit_def list_all_iff by blast
qed

lemma map_lower_hex: "list_all is_lower_hex s \<Longrightarrow> map to_ascii_lower s = s"
  by (induction s) (auto simp: lower_hex_facts)

subsection \<open>Generated names\<close>

definition short_word :: "string \<Rightarrow> bool" where
  "short_word s \<longleftrightarrow> s \<noteq> [] \<and> length s \<le> 9 \<and> list_all (\<lambda>c. CHR ''a'' \<le> c \<and> c \<le> CHR ''z'') s"

lemma words_short: "list_all short_word ADJECTIVES" "list_all short_word NOUNS"
  by code_simp+

lemma choose_word_ok:
  assumes "list_all P words" "words \<noteq> []" "length words < 2 ^ 64"
  obtains w where "choose_word words entropy = Ok w" "P w"
proof -
  have c: "unat (of_nat (length words) :: u64) = length words" using assms(3) by (intro unat_of_nat_small) simp
  then have nz: "(of_nat (length words) :: u64) \<noteq> 0" using assms(2) by (auto simp: unat_eq_0 [symmetric])
  have i: "unat (entropy mod of_nat (length words)) < length words"
    using assms(2) by (simp add: unat_mod_distrib c)
  show thesis
    by (rule that [of "words ! unat (entropy mod of_nat (length words))"])
      (use assms(1) nz i in \<open>simp_all add: choose_word_def Let_def list_all_length\<close>)
qed

lemma short_word_identifier:
  assumes "short_word s"
  shows "list_all identifier_char s" "\<not> starts_with (s @ t) ''-''"
  using assms by (cases s; auto simp: short_word_def identifier_char_def starts_with_def list_all_iff less_eq_char_def)+

lemma suffix_small: "\<not> 0xffff < (w AND 0xffff :: u64)"
  by (metis not_less word_and_le1)

lemma name_from_entropy_shape:
  obtains a n k where "name_from_entropy e = Ok (a @ ''-'' @ n @ ''-'' @ hex_lower 4 (k :: u64))" "short_word a" "short_word n"
proof -
  obtain a where a: "choose_word ADJECTIVES e = Ok a" "short_word a"
    by (rule choose_word_ok [OF words_short(1)]) (simp_all add: ADJECTIVES_def)
  obtain n where n: "choose_word NOUNS (word_rotl 21 e) = Ok n" "short_word n"
    by (rule choose_word_ok [OF words_short(2)]) (simp_all add: NOUNS_def)
  define k where "k = word_rotl 42 e AND 0xffff"
  have "list_all identifier_char (hex_lower 4 k)"
    using hex_lower_all [of 4 k] by (auto simp: list_all_iff lower_hex_facts)
  then have "validate_machine_name (a @ ''-'' @ n @ ''-'' @ hex_lower 4 k) = Ok ()"
    using short_word_identifier [OF a(2)] short_word_identifier(1) [OF n(2)] a(2)
    by (simp add: validate_machine_name_ok short_word_def) (simp add: identifier_char_def)
  then have "name_from_entropy e = Ok (a @ ''-'' @ n @ ''-'' @ hex_lower 4 k)"
    using suffix_small [of "word_rotl 42 e"] by (simp add: name_from_entropy_def a n k_def Let_def)
  then show thesis using that a n by blast
qed

text \<open>
  C38: Whatever the entropy, name generation succeeds, and the generated name is read by
  \<open>MachineRef::parse\<close> as a name, never as an identifier or an identifier prefix.
\<close>

theorem generated_name_resolves:
  assumes "uuid_spec uuid"
  shows "\<exists>name. name_from_entropy entropy = Ok name \<and> MachineRef_parse uuid name = Ok (RefName name)"
proof -
  obtain a n k where s: "name_from_entropy entropy = Ok (a @ ''-'' @ n @ ''-'' @ hex_lower 4 (k :: u64))" "short_word a" "short_word n"
    by (rule name_from_entropy_shape)
  define name where "name = a @ ''-'' @ n @ ''-'' @ hex_lower 4 k"
  have "length name \<le> 24" using s(2, 3) by (simp add: name_def short_word_def)
  then have u: "uuid name = None" using assms by (cases "uuid name") (force simp: uuid_spec_def)+
  have p: "\<not> looks_like_id_prefix name"
    by (simp add: looks_like_id_prefix_def name_def is_ascii_hexdigit_def)
  have "validate_machine_name name = Ok ()"
    using s(1) by (auto simp: name_from_entropy_def name_def Let_def split: if_splits)
  then show ?thesis using s(1) u p by (simp add: MachineRef_parse_def name_def)
qed

subsection \<open>A parser for the simple form\<close>

text \<open>\<open>simple_uuid\<close> accepts the 32 lowercase digits that \<open>simple()\<close> prints, and shows that \<open>uuid_spec\<close> can hold.\<close>

definition simple_uuid :: "string \<Rightarrow> MachineId option" where
  "simple_uuid s = (if length s = 32 \<and> list_all is_lower_hex s then Some (of_nat (of_hex s)) else None)"

lemma simple_uuid_spec: "uuid_spec simple_uuid"
proof -
  have "simple_uuid (MachineId_to_string w) = Some w" for w
  proof -
    have "unat w mod 16 ^ 32 = unat w" using unat_below [of w] by simp
    then show ?thesis by (simp add: simple_uuid_def MachineId_to_string_def hex_lower_all of_hex_lower)
  qed
  then show ?thesis by (auto simp: uuid_spec_def simple_uuid_def split: if_splits)
qed

lemma MachineId_to_string_inj [simp]: "MachineId_to_string a = MachineId_to_string b \<longleftrightarrow> a = b"
  using simple_uuid_spec unfolding uuid_spec_def by (metis option.inject)

lemma length_MachineId_to_string [simp]: "length (MachineId_to_string a) = 32"
  by (simp add: MachineId_to_string_def)

theorem generated_name_resolves_witness:
  "uuid_spec simple_uuid \<and>
   (\<exists>name. name_from_entropy 42 = Ok name \<and> MachineRef_parse simple_uuid name = Ok (RefName name))"
  using generated_name_resolves [OF simple_uuid_spec, of 42] simple_uuid_spec by blast

subsection \<open>References to identifiers\<close>

text \<open>
  A full machine identifier is parsed as that identifier, and every shorter part from its start, of
  three characters or more, as a prefix that is kept as it is, in either case of its letters.
\<close>

theorem id_reference:
  assumes "uuid_spec uuid" "3 \<le> n" "n < 32" "map to_ascii_lower s = take n (MachineId_to_string mid)"
    "list_all is_ascii_hexdigit s"
  shows "MachineRef_parse uuid (MachineId_to_string mid) = Ok (RefId mid) \<and>
    MachineRef_parse uuid s = Ok (RefIdPrefix (take n (MachineId_to_string mid)))"
proof -
  have l: "length s = n" using arg_cong [OF assms(4), of length] assms(3) by simp
  then have "uuid s = None" using assms(1, 3) by (cases "uuid s") (force simp: uuid_spec_def)+
  then show ?thesis
    using assms l by (simp add: MachineRef_parse_def looks_like_id_prefix_def uuid_spec_def)
qed

theorem id_reference_witness:
  "MachineRef_parse simple_uuid (MachineId_to_string 0xABC) = Ok (RefId 0xABC) \<and>
   MachineRef_parse simple_uuid ''0000'' = Ok (RefIdPrefix ''0000'')"
proof -
  have h: "map to_ascii_lower ''0000'' = take 4 (MachineId_to_string 0xABC)" "list_all is_ascii_hexdigit ''0000''"
    "take 4 (MachineId_to_string 0xABC) = ''0000''"
    by code_simp+
  show ?thesis
    using id_reference [OF simple_uuid_spec _ _ h(1, 2)] unfolding h(3) by simp
qed

subsection \<open>Memory sizes\<close>

lemma ceil_div:
  fixes b d k :: nat
  assumes "0 < d" "0 < k"
  defines "q \<equiv> (b + (d - 1)) div d"
  shows "b \<le> q * d" "q * d < b + d" "0 < b \<Longrightarrow> 0 < q" "q < k \<longleftrightarrow> b \<le> (k - 1) * d"
proof -
  have l: "q * d \<le> b + (d - 1)" "b + (d - 1) < q * d + d"
    using div_times_less_eq_dividend [of "b + (d - 1)" d] dividend_less_div_times [of d "b + (d - 1)"] assms(1)
    by (simp_all add: q_def add.commute)
  then show 1: "b \<le> q * d" "q * d < b + d" using assms(1) by linarith+
  show "0 < b \<Longrightarrow> 0 < q" using 1(1) by (cases q) auto
  show "q < k \<longleftrightarrow> b \<le> (k - 1) * d"
  proof
    assume "q < k"
    then have "q * d \<le> (k - 1) * d" by (intro mult_right_mono) auto
    then show "b \<le> (k - 1) * d" using 1(1) by linarith
  next
    assume "b \<le> (k - 1) * d"
    then have "q * d < (k - 1) * d + d" using 1(2) by linarith
    also have "\<dots> = k * d" using assms(2) by (cases k) auto
    finally show "q < k" by simp
  qed
qed

lemma ceil_div_Suc:
  fixes b d :: nat
  assumes "b mod d \<noteq> 0" "0 < d"
  shows "(b + (d - 1)) div d = b div d + 1"
proof -
  have "b + (d - 1) = (b mod d - 1) + (b div d + 1) * d"
    using assms div_mult_mod_eq [of b d] by (cases b) (simp_all add: algebra_simps)
  moreover have "((b mod d - 1) + (b div d + 1) * d) div d = (b div d + 1) + (b mod d - 1) div d"
    using assms(2) by (simp only: div_mult_self1)
  moreover have "(b mod d - 1) div d = 0" 
    by (rule div_less) (use assms mod_less_divisor [of d b] in linarith)
  ultimately show ?thesis by simp
qed

text \<open>
  The size in mebibytes covers the requested bytes and exceeds them by less than one mebibyte; a
  request is refused exactly when it is zero or its size in mebibytes does not fit in 32 bits.
\<close>

theorem memory_bounds:
  "(case to_vm_spec_mebibytes memory name of
      Inr m \<Rightarrow> unat (mem_bytes memory) \<le> unat m * 2 ^ 20 \<and> unat m * 2 ^ 20 < unat (mem_bytes memory) + 2 ^ 20 \<and> 0 < unat m
    | Inl _ \<Rightarrow> unat (mem_bytes memory) = 0 \<or> (2 ^ 32 - 1) * 2 ^ 20 < unat (mem_bytes memory))"
proof -
  define b where "b = unat (mem_bytes memory)"
  have u: "unat BYTES_PER_MEBIBYTE = 2 ^ 20" by (simp add: BYTES_PER_MEBIBYTE_def)
  have lt: "b < 2 ^ 64" using unat_below [of "mem_bytes memory"] by (simp add: b_def)
  have c: "unat (div_ceil (mem_bytes memory) BYTES_PER_MEBIBYTE) = (b + (2 ^ 20 - 1)) div 2 ^ 20"
  proof (cases "b mod 2 ^ 20 = 0")
    case True
    then obtain q where q: "b = 2 ^ 20 * q" by (metis mod_0_imp_dvd dvdE)
    have "mem_bytes memory mod BYTES_PER_MEBIBYTE = 0"
      using True u by (simp add: word_unat_eq_iff unat_mod_distrib b_def)
    then show ?thesis using q by (simp add: div_ceil_def unat_div_distrib u b_def [symmetric])
  next
    case False
    then have n: "mem_bytes memory mod BYTES_PER_MEBIBYTE \<noteq> 0"
      using u by (auto simp: word_unat_eq_iff unat_mod_distrib b_def)
    have "unat (mem_bytes memory div BYTES_PER_MEBIBYTE) = b div 2 ^ 20" by (simp add: unat_div_distrib u b_def)
    moreover have "b div 2 ^ 20 + 1 < 2 ^ 64" using lt by simp
    ultimately have "unat (mem_bytes memory div BYTES_PER_MEBIBYTE + 1) = b div 2 ^ 20 + 1"
      by (subst unat_add_small) simp_all
    moreover have "(b + (2 ^ 20 - 1)) div 2 ^ 20 = b div 2 ^ 20 + 1" 
      by (rule ceil_div_Suc) (use False in simp_all)
    ultimately show ?thesis using n by (simp add: div_ceil_def)
  qed
  have z: "mem_bytes memory = 0 \<longleftrightarrow> b = 0" by (simp add: b_def unat_eq_0)
  note cd = ceil_div [of "2 ^ 20" "2 ^ 32" b, simplified]
  show ?thesis
  proof (cases "b = 0 \<or> (2 ^ 32 - 1) * 2 ^ 20 < b")
    case True
    then show ?thesis using c cd(4) z by (auto simp: to_vm_spec_mebibytes_def Let_def b_def)
  next
    case False
    then obtain m where m: "to_vm_spec_mebibytes memory name = Ok m" "unat m = (b + (2 ^ 20 - 1)) div 2 ^ 20"
      using c cd(4) z by (auto simp: to_vm_spec_mebibytes_def Let_def unat_ucast_small)
    show ?thesis using False unfolding m(1) b_def [symmetric] sum.case m(2) using cd(1-3) by simp
  qed
qed

end
