(* ===== verification/Vm_Transitions.thy ===== *)
theory Vm_Transitions
  imports Vm_Models
begin

text \<open>
  The lifecycle reducer of \<open>libvm\<close> (\<open>runtime/libvm/src/runtime/transitions.rs\<close>): a pure function from
  a persisted machine state, an event and the current time to the next state or an error, one
  definition per function of the source.  The lemmas give an invariant of the persisted state that
  every event keeps, the graph of status changes the reducer allows, and the protection against events
  of an earlier run.
\<close>

datatype StartFailure = FailStopped | FailError

datatype Event =
    StartRequested string
  | MonitorReady string int int
  | MonitorObserved int int "string option"
  | StartFailed string StartFailure "msg option"
  | StopRequested int "int option" "string option"
  | StopCompleted int "int option" "string option" "msg option"
  | ExitObserved bool "msg option"
  | MonitorGone "msg option"
  | StartTimedOut

datatype TransitionError =
    AlreadyActive
  | NotRunning
  | InvalidTransition MachineRuntimeState string
  | StaleGeneration

definition START_TIMEOUT_ERROR :: msg where
  "START_TIMEOUT_ERROR = msg ''machine start did not leave a live runtime''"

definition is_active :: "MachineRuntimeState \<Rightarrow> bool" where
  "is_active st \<longleftrightarrow> st \<in> {Starting, Running, Stopping}"

definition replace_runtime ::
  "MachineState \<Rightarrow> MachineRuntimeState \<Rightarrow> int option \<Rightarrow> int option \<Rightarrow> string option \<Rightarrow> msg option \<Rightarrow> int \<Rightarrow> MachineState" where
  "replace_runtime state status vmmon_pid started_at run_id last_error now =
     state\<lparr>ms_status := status, ms_vmmon_pid := vmmon_pid, ms_started_at := started_at, ms_run_id := run_id,
       ms_last_error := last_error, ms_updated_at := now\<rparr>"

definition require_state :: "MachineRuntimeState \<Rightarrow> MachineRuntimeState \<Rightarrow> string \<Rightarrow> TransitionError + unit" where
  "require_state actual expected event =
     (if actual = expected then Ok () else Err (InvalidTransition actual event))"

definition require_run_id :: "MachineState \<Rightarrow> string option \<Rightarrow> TransitionError + unit" where
  "require_run_id state run_id =
     (case run_id of
        None \<Rightarrow> Ok ()
      | Some r \<Rightarrow> if ms_run_id state \<noteq> Some r then Err StaleGeneration else Ok ())"

definition require_generation :: "MachineState \<Rightarrow> int \<Rightarrow> int option \<Rightarrow> string option \<Rightarrow> TransitionError + unit" where
  "require_generation state pid started_at run_id =
     bind_result (require_run_id state run_id) (\<lambda>_.
       if ms_vmmon_pid state \<noteq> Some pid then Err StaleGeneration
       else if started_at \<noteq> None \<and> ms_started_at state \<noteq> started_at then Err StaleGeneration
       else Ok ())"

definition start_requested :: "MachineState \<Rightarrow> string \<Rightarrow> int \<Rightarrow> TransitionError + MachineState" where
  "start_requested state run_id now =
     (if is_active (ms_status state) then Err AlreadyActive
      else Ok (replace_runtime state Starting None None (Some run_id) None now))"

definition monitor_ready :: "MachineState \<Rightarrow> string \<Rightarrow> int \<Rightarrow> int \<Rightarrow> int \<Rightarrow> TransitionError + MachineState" where
  "monitor_ready state run_id pid started_at now =
     bind_result (require_state (ms_status state) Starting ''MonitorReady'') (\<lambda>_.
     bind_result (require_run_id state (Some run_id)) (\<lambda>_.
       Ok (replace_runtime state Running (Some pid) (Some started_at) (Some run_id) None now)))"

definition monitor_observed ::
  "MachineState \<Rightarrow> int \<Rightarrow> int \<Rightarrow> string option \<Rightarrow> int \<Rightarrow> TransitionError + MachineState" where
  "monitor_observed state pid started_at run_id now =
     (let status = (case ms_status state of Starting \<Rightarrow> Starting | Stopping \<Rightarrow> Stopping | _ \<Rightarrow> Running) in
      Ok (replace_runtime state status (Some pid) (Some started_at) run_id None now))"

definition start_failed ::
  "MachineState \<Rightarrow> string \<Rightarrow> StartFailure \<Rightarrow> msg option \<Rightarrow> int \<Rightarrow> TransitionError + MachineState" where
  "start_failed state run_id failure error now =
     bind_result (require_state (ms_status state) Starting ''StartFailed'') (\<lambda>_.
     bind_result (require_run_id state (Some run_id)) (\<lambda>_.
       let status = (case failure of FailStopped \<Rightarrow> Stopped | FailError \<Rightarrow> Error) in
       Ok (replace_runtime state status None None None error now)))"

definition stop_requested ::
  "MachineState \<Rightarrow> int \<Rightarrow> int option \<Rightarrow> string option \<Rightarrow> int \<Rightarrow> TransitionError + MachineState" where
  "stop_requested state pid started_at run_id now =
     (if ms_status state \<in> {Stopped, Error} then Err NotRunning
      else Ok (replace_runtime state Stopping (Some pid) started_at run_id None now))"

definition stop_completed ::
  "MachineState \<Rightarrow> int \<Rightarrow> int option \<Rightarrow> string option \<Rightarrow> msg option \<Rightarrow> int \<Rightarrow> TransitionError + MachineState" where
  "stop_completed state pid started_at run_id last_error now =
     bind_result (require_state (ms_status state) Stopping ''StopCompleted'') (\<lambda>_.
     bind_result (require_generation state pid started_at run_id) (\<lambda>_.
       Ok (replace_runtime state Stopped None None None last_error now)))"

definition exit_observed :: "MachineState \<Rightarrow> bool \<Rightarrow> msg option \<Rightarrow> int \<Rightarrow> TransitionError + MachineState" where
  "exit_observed state clean error now =
     (let (status, last_error) =
        (if clean then (Stopped, None)
         else (Error, Some (case error of Some e \<Rightarrow> e | None \<Rightarrow> msg ''machine runtime exited with an error'')))
      in Ok (replace_runtime state status None None None last_error now))"

definition monitor_gone :: "MachineState \<Rightarrow> msg option \<Rightarrow> int \<Rightarrow> TransitionError + MachineState" where
  "monitor_gone state last_error now =
     (let status = (case ms_status state of Error \<Rightarrow> Error | _ \<Rightarrow> Stopped) in
      Ok (replace_runtime state status None None None last_error now))"

definition start_timed_out :: "MachineState \<Rightarrow> int \<Rightarrow> TransitionError + MachineState" where
  "start_timed_out state now =
     bind_result (require_state (ms_status state) Starting ''StartTimedOut'') (\<lambda>_.
       Ok (replace_runtime state Error None None None (Some START_TIMEOUT_ERROR) now))"

definition reduce :: "MachineState \<Rightarrow> Event \<Rightarrow> int \<Rightarrow> TransitionError + MachineState" where
  "reduce state event now =
     (case event of
        StartRequested run_id \<Rightarrow> start_requested state run_id now
      | MonitorReady run_id pid started_at \<Rightarrow> monitor_ready state run_id pid started_at now
      | MonitorObserved pid started_at run_id \<Rightarrow> monitor_observed state pid started_at run_id now
      | StartFailed run_id failure error \<Rightarrow> start_failed state run_id failure error now
      | StopRequested pid started_at run_id \<Rightarrow> stop_requested state pid started_at run_id now
      | StopCompleted pid started_at run_id last_error \<Rightarrow> stop_completed state pid started_at run_id last_error now
      | ExitObserved clean error \<Rightarrow> exit_observed state clean error now
      | MonitorGone last_error \<Rightarrow> monitor_gone state last_error now
      | StartTimedOut \<Rightarrow> start_timed_out state now)"

lemmas reducer_defs = reduce_def start_requested_def monitor_ready_def monitor_observed_def start_failed_def
  stop_requested_def stop_completed_def exit_observed_def monitor_gone_def start_timed_out_def
  require_state_def require_run_id_def require_generation_def replace_runtime_def is_active_def Let_def

section \<open>The persisted state\<close>

text \<open>
  A stopped or failed machine has no run; a running or stopping one has the process of its monitor, and
  a running one also its birth time.
\<close>

definition state_wf :: "MachineState \<Rightarrow> bool" where
  "state_wf s \<longleftrightarrow>
     (ms_status s \<in> {Stopped, Error} \<longrightarrow> ms_vmmon_pid s = None \<and> ms_started_at s = None \<and> ms_run_id s = None) \<and>
     (ms_status s = Running \<longrightarrow> ms_vmmon_pid s \<noteq> None \<and> ms_started_at s \<noteq> None) \<and>
     (ms_status s = Stopping \<longrightarrow> ms_vmmon_pid s \<noteq> None)"

lemma reduce_frame:
  "reduce s e now = Ok s' \<Longrightarrow> ms_machine_id s' = ms_machine_id s \<and> ms_updated_at s' = now"
  by (cases e) (auto simp: reducer_defs split: if_splits option.splits)

lemma reduce_wf: "reduce s e now = Ok s' \<Longrightarrow> state_wf s'"
  by (cases e; auto simp: reducer_defs state_wf_def split: if_splits option.splits MachineRuntimeState.splits StartFailure.splits)

section \<open>The graph of status changes\<close>

text \<open>The specification of the lifecycle: which status an event leads to from which.\<close>

inductive lifecycle :: "MachineRuntimeState \<Rightarrow> Event \<Rightarrow> MachineRuntimeState \<Rightarrow> bool" where
  "from \<in> {Stopped, Error} \<Longrightarrow> lifecycle from (StartRequested r) Starting"
| "lifecycle Starting (MonitorReady r p t) Running"
| "from \<in> {Starting, Stopping} \<Longrightarrow> lifecycle from (MonitorObserved p t r) from"
| "from \<in> {Stopped, Running, Error} \<Longrightarrow> lifecycle from (MonitorObserved p t r) Running"
| "lifecycle Starting (StartFailed r FailStopped m) Stopped"
| "lifecycle Starting (StartFailed r FailError m) Error"
| "from \<in> {Starting, Running, Stopping} \<Longrightarrow> lifecycle from (StopRequested p t r) Stopping"
| "lifecycle Stopping (StopCompleted p t r m) Stopped"
| "lifecycle from (ExitObserved True m) Stopped"
| "lifecycle from (ExitObserved False m) Error"
| "from \<noteq> Error \<Longrightarrow> lifecycle from (MonitorGone m) Stopped"
| "lifecycle Error (MonitorGone m) Error"
| "lifecycle Starting StartTimedOut Error"

code_pred lifecycle .

inductive_simps lifecycle_event_simps:
  "lifecycle from (StartRequested r) to"
  "lifecycle from (MonitorReady r p t) to"
  "lifecycle from (MonitorObserved p t ro) to"
  "lifecycle from (StartFailed r f m) to"
  "lifecycle from (StopRequested p to' ro) to"
  "lifecycle from (StopCompleted p to' ro m) to"
  "lifecycle from (ExitObserved c m) to"
  "lifecycle from (MonitorGone m) to"
  "lifecycle from StartTimedOut to"

text \<open>The runs an event may speak for: the run of the state, where the event names one that must match.\<close>

fun event_current :: "MachineState \<Rightarrow> Event \<Rightarrow> bool" where
  "event_current s (MonitorReady r p t) \<longleftrightarrow> ms_run_id s = Some r"
| "event_current s (StartFailed r f m) \<longleftrightarrow> ms_run_id s = Some r"
| "event_current s (StopCompleted p t r m) \<longleftrightarrow>
     (r = None \<or> ms_run_id s = r) \<and> ms_vmmon_pid s = Some p \<and> (t = None \<or> ms_started_at s = t)"
| "event_current s _ \<longleftrightarrow> True"

text \<open>
  C12: The reducer refines the lifecycle graph: an event is accepted exactly when the graph has an edge for
  it from the current status and the event speaks for the current run, and the new status is the one of
  that edge.  The new state is well formed, keeps the machine and carries the time of the event.
\<close>

theorem reduce_refines_lifecycle:
  "(case reduce s e now of
      Inr s' \<Rightarrow> lifecycle (ms_status s) e (ms_status s') \<and> event_current s e \<and> state_wf s' \<and>
        ms_machine_id s' = ms_machine_id s \<and> ms_updated_at s' = now
    | Inl err \<Rightarrow> (\<nexists>to. lifecycle (ms_status s) e to) \<or> (err = StaleGeneration \<and> \<not> event_current s e))"
proof (cases "reduce s e now")
  case (Inl err)
  then show ?thesis
    by (cases e; auto simp: reducer_defs lifecycle_event_simps split: if_splits option.splits)
next
  case (Inr s')
  then have "lifecycle (ms_status s) e (ms_status s') \<and> event_current s e"
    by (cases e; cases "ms_status s";
      auto simp: reducer_defs lifecycle_event_simps split: if_splits option.splits StartFailure.splits)
  then show ?thesis using Inr reduce_wf [OF Inr] reduce_frame [OF Inr] by simp
qed

theorem reduce_refines_lifecycle_witness:
  "\<exists>s'. reduce \<lparr>ms_machine_id = 7, ms_status = Stopped, ms_vmmon_pid = None, ms_started_at = None, ms_run_id = None,
        ms_last_error = None, ms_updated_at = 1\<rparr> (StartRequested ''run-1'') 100 = Ok s' \<and>
      lifecycle Stopped (StartRequested ''run-1'') (ms_status s') \<and> state_wf s' \<and> ms_updated_at s' = 100"
  using reduce_refines_lifecycle [of "\<lparr>ms_machine_id = 7, ms_status = Stopped, ms_vmmon_pid = None, ms_started_at = None,
      ms_run_id = None, ms_last_error = None, ms_updated_at = 1\<rparr>" "StartRequested ''run-1''" 100]
  by (simp add: reduce_def start_requested_def is_active_def)

section \<open>Reports of an earlier run\<close>

text \<open>The run that an event names.\<close>

fun run_of :: "Event \<Rightarrow> string option" where
  "run_of (StartRequested r) = Some r"
| "run_of (MonitorReady r p t) = Some r"
| "run_of (MonitorObserved p t r) = r"
| "run_of (StartFailed r f m) = Some r"
| "run_of (StopRequested p t r) = r"
| "run_of (StopCompleted p t r m) = r"
| "run_of _ = None"

text \<open>The recorded state after an event: \<open>transition_current_machine_state\<close> leaves it alone when the event is refused.\<close>

definition settle :: "MachineState \<Rightarrow> Event \<times> int \<Rightarrow> MachineState" where
  "settle s = (\<lambda>(e, now). case reduce s e now of Inr s' \<Rightarrow> s' | Inl _ \<Rightarrow> s)"

text \<open>
  Histories as the runtime makes them: it takes the run that an observation or a stop request names from the
  recorded state, and never starts the run \<open>old\<close> again.
\<close>

fun never_again :: "string \<Rightarrow> MachineState \<Rightarrow> (Event \<times> int) list \<Rightarrow> bool" where
  "never_again old s [] = True"
| "never_again old s (x # xs) =
     ((case fst x of
         StartRequested r \<Rightarrow> r \<noteq> old
       | MonitorObserved p t r \<Rightarrow> r = ms_run_id s
       | StopRequested p t r \<Rightarrow> r = ms_run_id s
       | _ \<Rightarrow> True) \<and> never_again old (settle s x) xs)"

lemma settle_late:
  assumes "ms_run_id s \<noteq> Some old" "run_of (fst x) = Some old" "never_again old s (x # xs)"
  shows "settle s x = s"
  using assms by (cases x; cases "fst x") (auto simp: settle_def reducer_defs bind_result_def split: sum.split)

lemma settle_run:
  assumes "ms_run_id s \<noteq> Some old" "never_again old s (x # xs)"
  shows "ms_run_id (settle s x) \<noteq> Some old"
  using assms
  by (cases x; cases "fst x") (auto simp: settle_def reducer_defs bind_result_def split: if_splits option.splits)

text \<open>
  C21: When a run is not the recorded one and is not started again, its late reports have no effect, in whatever
  order they arrive between the events of later runs: every history ends in the same state when all events that
  name the old run are struck from it, and that run is never recorded again.  Observations and stop requests,
  whose run the reducer does not check in every state, are assumed to name the recorded run, as the runtime makes them.
\<close>

theorem late_reports_ignored:
  assumes "ms_run_id s \<noteq> Some old" "never_again old s history"
  shows "foldl settle s history = foldl settle s (filter (\<lambda>x. run_of (fst x) \<noteq> Some old) history) \<and>
    ms_run_id (foldl settle s history) \<noteq> Some old"
  using assms
proof (induction history arbitrary: s)
  case (Cons x xs)
  have rest: "ms_run_id (settle s x) \<noteq> Some old" "never_again old (settle s x) xs"
    using settle_run [OF Cons.prems] Cons.prems(2) by simp_all
  show ?case
  proof (cases "run_of (fst x) = Some old")
    case True
    then have "settle s x = s" using settle_late Cons.prems by blast
    then show ?thesis using Cons.IH [OF rest] True by auto
  next
    case False
    then show ?thesis using Cons.IH [OF rest] by auto
  qed
qed simp

text \<open>A machine that was started twice: the failure of the first start arrives during the second one.\<close>

theorem late_reports_ignored_witness:
  "ms_status (foldl settle \<lparr>ms_machine_id = 7, ms_status = Stopped, ms_vmmon_pid = None, ms_started_at = None, ms_run_id = None,
      ms_last_error = None, ms_updated_at = 1\<rparr>
    [(StartRequested ''run-2'', 10), (StartFailed ''run-1'' FailError None, 11), (MonitorReady ''run-2'' 123 12, 13)]) = Running"
proof -
  let ?s = "\<lparr>ms_machine_id = 7, ms_status = Stopped, ms_vmmon_pid = None, ms_started_at = None, ms_run_id = None,
      ms_last_error = None, ms_updated_at = 1\<rparr>"
  have "never_again ''run-1'' ?s
      [(StartRequested ''run-2'', 10), (StartFailed ''run-1'' FailError None, 11), (MonitorReady ''run-2'' 123 12, 13)]"
    by simp
  from late_reports_ignored [OF _ this] show ?thesis by (simp add: settle_def reducer_defs)
qed

end
