(* ===== verification/Vm_Store.thy ===== *)
theory Vm_Store
  imports Vm_Transitions "HOL-Library.List_Lexorder"
begin

text \<open>
  The state database of \<open>libvm\<close> (\<open>runtime/libvm/src/store\<close> with the schema of
  \<open>migrations/0001_initial.sql\<close>).  A table is the list of its rows; a statement is the function on the
  tables that its SQL text means, with the primary keys, the unique constraints, the foreign keys and
  their cascades of the schema.  A write returns the tables it leaves or the error the method reports, a
  read the decoded rows or a decoding error.  A JSON column holds the value its text decodes to.
  Failures of SQLite itself (a full disk, a busy database) are injected by the callers, in \<open>Vm_World\<close>.

  \<open>machine_store\<close> is the contract of the trait \<open>MachineStore\<close> in terms of two finite maps; the
  interpretation shows that the tables keep it.
\<close>

section \<open>Rows and tables\<close>

record MachineConfigRow =
  cr_id :: string
  cr_name :: string
  cr_config_json :: MachineConfig

record MachineStateRow =
  sr_machine_id :: string
  sr_status :: string
  sr_state_json :: MachineState

datatype VmmonNetworkAttachment =
    AttNone
  | AttVzNat "string option"
  | AttUnixDatagram string string

record NetdDriverState =
  nd_helper_pid :: int
  nd_subnet :: string
  nd_socket_path :: string
  nd_log_path :: string
  nd_pid_path :: string
  nd_pcap_path :: "string option"

datatype NetworkInstanceState = InstanceRunning

record NetworkInstance =
  ni_id :: string
  ni_driver :: string
  ni_definition_name :: "string option"
  ni_runtime_dir :: string
  ni_attachment_json :: VmmonNetworkAttachment
  ni_driver_state_json :: NetdDriverState
  ni_state :: NetworkInstanceState
  ni_created_at :: int
  ni_modified_at :: int

record NetworkAttachment =
  na_machine_id :: MachineId
  na_network_instance_id :: string
  na_guest_mac :: string
  na_created_at :: int
  na_modified_at :: int

record NetworkAttachmentRow =
  ar_machine_id :: string
  ar_network_instance_id :: string
  ar_guest_mac :: string
  ar_created_at :: int
  ar_modified_at :: int

datatype NetworkTopology = Nat | Bridge | Isolated

datatype NetworkDriverPreference = Auto | Netd | VzNat

record NetworkDefinition =
  df_name :: string
  df_topology :: NetworkTopology
  df_driver_preference :: NetworkDriverPreference
  df_created_at :: int
  df_modified_at :: int

record Store =
  machine_config_table :: "MachineConfigRow list"
  machine_state_table :: "MachineStateRow list"
  network_instances_table :: "NetworkInstance list"
  network_attachments_table :: "NetworkAttachmentRow list"
  network_definitions_table :: "NetworkDefinition list"

definition Store_empty :: Store where
  "Store_empty =
     \<lparr>machine_config_table = [], machine_state_table = [], network_instances_table = [],
      network_attachments_table = [], network_definitions_table = []\<rparr>"

section \<open>Decoding rows\<close>

definition column_decode_error :: "string \<Rightarrow> LibVmError" where
  "column_decode_error field = Database (''error occurred while decoding column {}'', [field])"

definition parse_machine_id :: "(string \<Rightarrow> MachineId option) \<Rightarrow> string \<Rightarrow> string \<Rightarrow> LibVmError + MachineId" where
  "parse_machine_id uuid value field =
     (case uuid value of Some mid \<Rightarrow> Ok mid | None \<Rightarrow> Err (column_decode_error field))"

definition DbMachineConfig_from_row ::
  "(string \<Rightarrow> MachineId option) \<Rightarrow> MachineConfigRow \<Rightarrow> LibVmError + MachineConfig" where
  "DbMachineConfig_from_row uuid row =
     bind_result (parse_machine_id uuid (cr_id row) ''machine_config.id'') (\<lambda>mid.
       if mc_id (cr_config_json row) \<noteq> mid then Err (column_decode_error ''machine_config.config_json.id'')
       else if mc_name (cr_config_json row) \<noteq> cr_name row then Err (column_decode_error ''machine_config.config_json.name'')
       else Ok (cr_config_json row))"

definition DbMachineState_from_row ::
  "(string \<Rightarrow> MachineId option) \<Rightarrow> MachineStateRow \<Rightarrow> LibVmError + MachineState" where
  "DbMachineState_from_row uuid row =
     bind_result (parse_machine_id uuid (sr_machine_id row) ''machine_state.machine_id'') (\<lambda>mid.
       case MachineRuntimeState_parse (sr_status row) of
         Inl _ \<Rightarrow> Err (column_decode_error ''machine_state.status'')
       | Inr status \<Rightarrow>
           if ms_machine_id (sr_state_json row) \<noteq> mid then Err (column_decode_error ''machine_state.state_json.machineId'')
           else if ms_status (sr_state_json row) \<noteq> status then Err (column_decode_error ''machine_state.state_json.status'')
           else Ok (sr_state_json row))"

definition DbNetworkAttachment_from_row ::
  "(string \<Rightarrow> MachineId option) \<Rightarrow> NetworkAttachmentRow \<Rightarrow> LibVmError + NetworkAttachment" where
  "DbNetworkAttachment_from_row uuid row =
     bind_result (parse_machine_id uuid (ar_machine_id row) ''network_attachments.machine_id'') (\<lambda>mid.
       Ok \<lparr>na_machine_id = mid, na_network_instance_id = ar_network_instance_id row, na_guest_mac = ar_guest_mac row,
         na_created_at = ar_created_at row, na_modified_at = ar_modified_at row\<rparr>)"

text \<open>\<open>fetch_optional\<close> decodes the first row, if any; \<open>fetch_all\<close> decodes them all or fails.\<close>

definition fetch_optional :: "('r \<Rightarrow> LibVmError + 'a) \<Rightarrow> 'r list \<Rightarrow> LibVmError + 'a option" where
  "fetch_optional decode rows =
     (case rows of [] \<Rightarrow> Ok None | r # _ \<Rightarrow> bind_result (decode r) (\<lambda>x. Ok (Some x)))"

primrec fetch_all :: "('r \<Rightarrow> LibVmError + 'a) \<Rightarrow> 'r list \<Rightarrow> LibVmError + 'a list" where
  "fetch_all decode [] = Ok []"
| "fetch_all decode (r # rs) = bind_result (decode r) (\<lambda>x. bind_result (fetch_all decode rs) (\<lambda>xs. Ok (x # xs)))"

section \<open>Machines\<close>

definition constraint_error :: "string \<Rightarrow> LibVmError" where
  "constraint_error what = Database (''{} constraint failed'', [what])"

definition add_machine :: "MachineConfig \<Rightarrow> MachineState \<Rightarrow> Store \<Rightarrow> LibVmError + Store" where
  "add_machine config initial_state s =
     (let mid = MachineId_to_string (mc_id config) in
      if ms_machine_id initial_state \<noteq> mc_id config then
        Err (InvalidCreateRequest (mc_name config) (msg ''initial machine state id does not match machine config id''))
      else if mid \<in> cr_id ` set (machine_config_table s) then Err (constraint_error ''machine_config.id'')
      else if mc_name config \<in> cr_name ` set (machine_config_table s) then Err (MachineAlreadyExists (mc_name config))
      else if mid \<in> sr_machine_id ` set (machine_state_table s) then Err (constraint_error ''machine_state.machine_id'')
      else Ok (s\<lparr>machine_config_table := machine_config_table s @
            [\<lparr>cr_id = mid, cr_name = mc_name config, cr_config_json = config\<rparr>],
          machine_state_table := machine_state_table s @
            [\<lparr>sr_machine_id = mid, sr_status = as_str (ms_status initial_state), sr_state_json = initial_state\<rparr>]\<rparr>))"

definition machine_state_row ::
  "(string \<Rightarrow> MachineId option) \<Rightarrow> MachineId \<Rightarrow> Store \<Rightarrow> LibVmError + MachineState option" where
  "machine_state_row uuid mid s =
     fetch_optional (DbMachineState_from_row uuid)
       (filter (\<lambda>r. sr_machine_id r = MachineId_to_string mid) (machine_state_table s))"

definition save_machine_state :: "MachineState \<Rightarrow> Store \<Rightarrow> LibVmError + Store" where
  "save_machine_state state s =
     (let mid = MachineId_to_string (ms_machine_id state);
          row = \<lparr>sr_machine_id = mid, sr_status = as_str (ms_status state), sr_state_json = state\<rparr> in
      if mid \<in> sr_machine_id ` set (machine_state_table s) then
        Ok (s\<lparr>machine_state_table := map (\<lambda>r. if sr_machine_id r = mid then row else r) (machine_state_table s)\<rparr>)
      else if mid \<notin> cr_id ` set (machine_config_table s) then Err (constraint_error ''FOREIGN KEY'')
      else Ok (s\<lparr>machine_state_table := machine_state_table s @ [row]\<rparr>))"

definition save_machine_config :: "MachineConfig \<Rightarrow> Store \<Rightarrow> LibVmError + Store" where
  "save_machine_config config s =
     (let mid = MachineId_to_string (mc_id config) in
      if mid \<notin> cr_id ` set (machine_config_table s) then Err (MachineNotFound mid)
      else if \<exists>r \<in> set (machine_config_table s). cr_id r \<noteq> mid \<and> cr_name r = mc_name config then
        Err (constraint_error ''UNIQUE'')
      else Ok (s\<lparr>machine_config_table := map (\<lambda>r. if cr_id r = mid
            then r\<lparr>cr_name := mc_name config, cr_config_json := config\<rparr> else r) (machine_config_table s)\<rparr>))"

definition machine_config ::
  "(string \<Rightarrow> MachineId option) \<Rightarrow> MachineId \<Rightarrow> Store \<Rightarrow> LibVmError + MachineConfig option" where
  "machine_config uuid mid s =
     fetch_optional (DbMachineConfig_from_row uuid)
       (filter (\<lambda>r. cr_id r = MachineId_to_string mid) (machine_config_table s))"

definition machine_config_by_name ::
  "(string \<Rightarrow> MachineId option) \<Rightarrow> string \<Rightarrow> Store \<Rightarrow> LibVmError + MachineConfig option" where
  "machine_config_by_name uuid name s =
     fetch_optional (DbMachineConfig_from_row uuid) (filter (\<lambda>r. cr_name r = name) (machine_config_table s))"

definition validate_machine_id_prefix :: "string \<Rightarrow> LibVmError + unit" where
  "validate_machine_id_prefix prefix =
     (let valid_length = 3 \<le> length prefix \<and> length prefix \<le> 32;
          normalized_hex = list_all is_lower_hex prefix in
      if valid_length \<and> normalized_hex then Ok ()
      else Err (InvalidMachineIdPrefix prefix
        (if length prefix < 3 then msg ''prefix must be at least 3 characters''
         else if 32 < length prefix then msg ''prefix must be at most 32 characters''
         else msg ''prefix must be normalized lowercase hex'')))"

definition machine_configs_by_id_prefix ::
  "(string \<Rightarrow> MachineId option) \<Rightarrow> string \<Rightarrow> Store \<Rightarrow> LibVmError + MachineConfig list" where
  "machine_configs_by_id_prefix uuid prefix s =
     bind_result (validate_machine_id_prefix prefix) (\<lambda>_.
       fetch_all (DbMachineConfig_from_row uuid)
         (filter (\<lambda>r. map to_ascii_lower (take (length prefix) (cr_id r)) = map to_ascii_lower prefix)
           (machine_config_table s)))"

definition list_machine_configs :: "(string \<Rightarrow> MachineId option) \<Rightarrow> Store \<Rightarrow> LibVmError + MachineConfig list" where
  "list_machine_configs uuid s = fetch_all (DbMachineConfig_from_row uuid) (sort_key cr_name (machine_config_table s))"

definition remove_machine :: "MachineConfig \<Rightarrow> Store \<Rightarrow> Store" where
  "remove_machine machine s =
     (let mid = MachineId_to_string (mc_id machine) in
      s\<lparr>machine_state_table := filter (\<lambda>r. sr_machine_id r \<noteq> mid) (machine_state_table s),
        machine_config_table := filter (\<lambda>r. cr_id r \<noteq> mid) (machine_config_table s),
        network_attachments_table := filter (\<lambda>r. ar_machine_id r \<noteq> mid) (network_attachments_table s)\<rparr>)"

section \<open>Networks\<close>

definition network_attachment ::
  "(string \<Rightarrow> MachineId option) \<Rightarrow> MachineId \<Rightarrow> Store \<Rightarrow> LibVmError + NetworkAttachment option" where
  "network_attachment uuid mid s =
     fetch_optional (DbNetworkAttachment_from_row uuid)
       (filter (\<lambda>r. ar_machine_id r = MachineId_to_string mid) (network_attachments_table s))"

definition network_instance :: "string \<Rightarrow> Store \<Rightarrow> NetworkInstance option" where
  "network_instance network_id s = List.find (\<lambda>r. ni_id r = network_id) (network_instances_table s)"

definition save_network_instance :: "NetworkInstance \<Rightarrow> Store \<Rightarrow> LibVmError + Store" where
  "save_network_instance inst s =
     (if ni_definition_name inst \<noteq> None \<and>
         (\<exists>r \<in> set (network_instances_table s). ni_id r \<noteq> ni_id inst \<and> ni_definition_name r = ni_definition_name inst)
      then Err (constraint_error ''UNIQUE'')
      else if ni_id inst \<in> ni_id ` set (network_instances_table s) then
        Ok (s\<lparr>network_instances_table := map (\<lambda>r. if ni_id r = ni_id inst
              then inst\<lparr>ni_created_at := ni_created_at r\<rparr> else r) (network_instances_table s)\<rparr>)
      else Ok (s\<lparr>network_instances_table := network_instances_table s @ [inst]\<rparr>))"

definition attach_network :: "NetworkAttachment \<Rightarrow> Store \<Rightarrow> LibVmError + Store" where
  "attach_network a s =
     (let mid = MachineId_to_string (na_machine_id a) in
      if mid \<notin> cr_id ` set (machine_config_table s) \<or> na_network_instance_id a \<notin> ni_id ` set (network_instances_table s)
      then Err (constraint_error ''FOREIGN KEY'')
      else if mid \<in> ar_machine_id ` set (network_attachments_table s) then
        Ok (s\<lparr>network_attachments_table := map (\<lambda>r. if ar_machine_id r = mid
              then r\<lparr>ar_network_instance_id := na_network_instance_id a, ar_guest_mac := na_guest_mac a,
                ar_modified_at := na_modified_at a\<rparr> else r) (network_attachments_table s)\<rparr>)
      else Ok (s\<lparr>network_attachments_table := network_attachments_table s @
            [\<lparr>ar_machine_id = mid, ar_network_instance_id = na_network_instance_id a, ar_guest_mac = na_guest_mac a,
              ar_created_at = na_created_at a, ar_modified_at = na_modified_at a\<rparr>]\<rparr>))"

definition detach_network :: "MachineId \<Rightarrow> Store \<Rightarrow> Store" where
  "detach_network mid s =
     s\<lparr>network_attachments_table := filter (\<lambda>r. ar_machine_id r \<noteq> MachineId_to_string mid) (network_attachments_table s)\<rparr>"

definition remove_network_instance :: "string \<Rightarrow> Store \<Rightarrow> Store" where
  "remove_network_instance network_id s =
     s\<lparr>network_instances_table := filter (\<lambda>r. ni_id r \<noteq> network_id) (network_instances_table s),
       network_attachments_table := filter (\<lambda>r. ar_network_instance_id r \<noteq> network_id) (network_attachments_table s)\<rparr>"

definition network_instance_by_definition :: "string \<Rightarrow> Store \<Rightarrow> NetworkInstance option" where
  "network_instance_by_definition name s =
     List.find (\<lambda>r. ni_definition_name r = Some name) (network_instances_table s)"

definition network_attachment_count :: "string \<Rightarrow> Store \<Rightarrow> LibVmError + u32" where
  "network_attachment_count network_id s =
     (let count = length (filter (\<lambda>r. ar_network_instance_id r = network_id) (network_attachments_table s)) in
      if count < 2 ^ 32 then Ok (of_nat count)
      else Err (StateDecode ''network_attachments.count'' (msg ''out of range integral type conversion attempted'')))"

definition define_network :: "int \<Rightarrow> NetworkDefinition \<Rightarrow> Store \<Rightarrow> Store" where
  "define_network now d s =
     (if df_name d \<in> df_name ` set (network_definitions_table s) then
        s\<lparr>network_definitions_table := map (\<lambda>r. if df_name r = df_name d
            then r\<lparr>df_topology := df_topology d, df_driver_preference := df_driver_preference d, df_modified_at := now\<rparr>
            else r) (network_definitions_table s)\<rparr>
      else s\<lparr>network_definitions_table := network_definitions_table s @
            [d\<lparr>df_created_at := now, df_modified_at := now\<rparr>]\<rparr>)"

definition network_definition :: "string \<Rightarrow> Store \<Rightarrow> NetworkDefinition option" where
  "network_definition name s = List.find (\<lambda>r. df_name r = name) (network_definitions_table s)"

definition list_network_definitions :: "Store \<Rightarrow> NetworkDefinition list" where
  "list_network_definitions s = sort_key df_name (network_definitions_table s)"

definition remove_network_definition :: "string \<Rightarrow> Store \<Rightarrow> Store" where
  "remove_network_definition name s =
     s\<lparr>network_definitions_table := filter (\<lambda>r. df_name r \<noteq> name) (network_definitions_table s)\<rparr>"

section \<open>Well-formed tables\<close>

text \<open>
  The indexed columns agree with the decoded values, keys and names are unique, and every state,
  attachment and instance reference points to a row.
\<close>

definition config_rows_wf :: "MachineConfigRow list \<Rightarrow> bool" where
  "config_rows_wf rs \<longleftrightarrow>
     (\<forall>r \<in> set rs. cr_id r = MachineId_to_string (mc_id (cr_config_json r)) \<and> cr_name r = mc_name (cr_config_json r)) \<and>
     distinct (map cr_id rs) \<and> distinct (map cr_name rs)"

definition state_rows_wf :: "MachineStateRow list \<Rightarrow> bool" where
  "state_rows_wf rs \<longleftrightarrow>
     (\<forall>r \<in> set rs. sr_machine_id r = MachineId_to_string (ms_machine_id (sr_state_json r)) \<and>
        sr_status r = as_str (ms_status (sr_state_json r))) \<and>
     distinct (map sr_machine_id rs)"

definition network_rows_wf :: "NetworkInstance list \<Rightarrow> NetworkAttachmentRow list \<Rightarrow> NetworkDefinition list \<Rightarrow> bool" where
  "network_rows_wf insts atts defs \<longleftrightarrow>
     distinct (map ni_id insts) \<and> distinct (filter (\<lambda>d. d \<noteq> None) (map ni_definition_name insts)) \<and>
     distinct (map ar_machine_id atts) \<and> ar_network_instance_id ` set atts \<subseteq> ni_id ` set insts \<and>
     distinct (map df_name defs)"

definition store_wf :: "Store \<Rightarrow> bool" where
  "store_wf s \<longleftrightarrow>
     config_rows_wf (machine_config_table s) \<and> state_rows_wf (machine_state_table s) \<and>
     sr_machine_id ` set (machine_state_table s) \<subseteq> cr_id ` set (machine_config_table s) \<and>
     network_rows_wf (network_instances_table s) (network_attachments_table s) (network_definitions_table s) \<and>
     ar_machine_id ` set (network_attachments_table s) \<subseteq> cr_id ` set (machine_config_table s)"

definition configs :: "Store \<Rightarrow> MachineId \<rightharpoonup> MachineConfig" where
  "configs s = map_of (map (\<lambda>r. (mc_id (cr_config_json r), cr_config_json r)) (machine_config_table s))"

definition states :: "Store \<Rightarrow> MachineId \<rightharpoonup> MachineState" where
  "states s = map_of (map (\<lambda>r. (ms_machine_id (sr_state_json r), sr_state_json r)) (machine_state_table s))"

lemma store_wfD:
  assumes "store_wf s"
  shows "\<And>r. r \<in> set (machine_config_table s) \<Longrightarrow>
      cr_id r = MachineId_to_string (mc_id (cr_config_json r)) \<and> cr_name r = mc_name (cr_config_json r)"
    "distinct (map cr_id (machine_config_table s))" "distinct (map cr_name (machine_config_table s))"
    "\<And>r. r \<in> set (machine_state_table s) \<Longrightarrow>
      sr_machine_id r = MachineId_to_string (ms_machine_id (sr_state_json r)) \<and> sr_status r = as_str (ms_status (sr_state_json r))"
    "distinct (map sr_machine_id (machine_state_table s))"
    "sr_machine_id ` set (machine_state_table s) \<subseteq> cr_id ` set (machine_config_table s)"
  using assms unfolding store_wf_def config_rows_wf_def state_rows_wf_def by - (elim conjE, (assumption | erule (1) bspec))+

lemma Store_empty_wf [simp]: "store_wf Store_empty"
  by (simp add: store_wf_def config_rows_wf_def state_rows_wf_def network_rows_wf_def Store_empty_def)

text \<open>The row of a key, in a table whose keys are unique.\<close>

lemma filter_key:
  assumes "distinct (map k rs)" "r \<in> set rs"
  shows "filter (\<lambda>x. k x = k r) rs = [r]"
  using assms
proof (induction rs)
  case (Cons x xs)
  have "filter (\<lambda>y. k y = k r) xs = []" if "x = r" using Cons.prems(1) that by (auto simp: filter_empty_conv) (metis image_eqI)
  then show ?case using Cons by (auto simp: image_iff)
qed simp

lemma map_of_key:
  assumes "\<And>r. r \<in> set rs \<Longrightarrow> k r = f (j r)" "inj f" "distinct (map k rs)"
  shows "map_of (map (\<lambda>r. (j r, v r)) rs) m =
    (case filter (\<lambda>r. k r = f m) rs of [] \<Rightarrow> None | r # _ \<Rightarrow> Some (v r))"
  using assms
proof (induction rs)
  case (Cons x xs)
  then show ?case by (auto dest: injD)
qed simp

lemma id_inj: "inj MachineId_to_string"
  by (rule injI) simp

lemma configs_filter:
  assumes "store_wf s"
  shows "configs s mid =
    (case filter (\<lambda>r. cr_id r = MachineId_to_string mid) (machine_config_table s) of [] \<Rightarrow> None | r # _ \<Rightarrow> Some (cr_config_json r))"
  unfolding configs_def by (rule map_of_key [OF _ id_inj store_wfD(2) [OF assms]]) (use store_wfD(1) [OF assms] in simp)

lemma states_filter:
  assumes "store_wf s"
  shows "states s mid =
    (case filter (\<lambda>r. sr_machine_id r = MachineId_to_string mid) (machine_state_table s) of [] \<Rightarrow> None | r # _ \<Rightarrow> Some (sr_state_json r))"
  unfolding states_def by (rule map_of_key [OF _ id_inj store_wfD(5) [OF assms]]) (use store_wfD(4) [OF assms] in simp)

lemma decode_config:
  assumes "store_wf s" "uuid_spec uuid" "r \<in> set (machine_config_table s)"
  shows "DbMachineConfig_from_row uuid r = Ok (cr_config_json r)"
  using store_wfD(1) [OF assms(1, 3)] assms(2)
  by (simp add: DbMachineConfig_from_row_def parse_machine_id_def uuid_spec_def)

lemma decode_state:
  assumes "store_wf s" "uuid_spec uuid" "r \<in> set (machine_state_table s)"
  shows "DbMachineState_from_row uuid r = Ok (sr_state_json r)"
  using store_wfD(4) [OF assms(1, 3)] assms(2)
  by (simp add: DbMachineState_from_row_def parse_machine_id_def uuid_spec_def)

lemma filter_hd_mem: "filter P rs = r # xs \<Longrightarrow> r \<in> set rs \<and> P r"
  by (metis filter_eq_ConsD in_set_conv_decomp)

lemma fetch_optional_ok:
  assumes "\<And>r. r \<in> set rows \<Longrightarrow> decode r = Ok (v r)"
  shows "fetch_optional decode (filter P rows) =
    Ok (case filter P rows of [] \<Rightarrow> None | r # _ \<Rightarrow> Some (v r))"
proof (cases "filter P rows")
  case (Cons r rs)
  then show ?thesis using filter_hd_mem [OF Cons] assms by (simp add: fetch_optional_def)
qed (simp add: fetch_optional_def)

lemma fetch_all_ok:
  assumes "\<And>r. r \<in> set rows \<Longrightarrow> decode r = Ok (v r)"
  shows "fetch_all decode rows = Ok (map v rows)"
  using assms by (induction rows) simp_all

lemma machine_config_ok:
  assumes "store_wf s" "uuid_spec uuid"
  shows "machine_config uuid mid s = Ok (configs s mid)"
  unfolding machine_config_def configs_filter [OF assms(1)]
  by (rule fetch_optional_ok) (rule decode_config [OF assms])

lemma machine_state_ok:
  assumes "store_wf s" "uuid_spec uuid"
  shows "machine_state_row uuid mid s = Ok (states s mid)"
  unfolding machine_state_row_def states_filter [OF assms(1)]
  by (rule fetch_optional_ok) (rule decode_state [OF assms])

lemma configs_iff:
  assumes "store_wf s"
  shows "configs s mid = Some c \<longleftrightarrow> (\<exists>r \<in> set (machine_config_table s). cr_config_json r = c \<and> mc_id c = mid)"
proof
  assume "configs s mid = Some c"
  then show "\<exists>r \<in> set (machine_config_table s). cr_config_json r = c \<and> mc_id c = mid"
    unfolding configs_def by (auto dest!: map_of_SomeD)
next
  assume "\<exists>r \<in> set (machine_config_table s). cr_config_json r = c \<and> mc_id c = mid"
  then obtain r where r: "r \<in> set (machine_config_table s)" "cr_config_json r = c" "mc_id c = mid" by blast
  have "filter (\<lambda>x. cr_id x = MachineId_to_string mid) (machine_config_table s) = [r]"
    using filter_key [OF store_wfD(2) [OF assms] r(1)] store_wfD(1) [OF assms r(1)] r by simp
  then show "configs s mid = Some c" using r by (simp add: configs_filter [OF assms])
qed

lemma states_iff:
  assumes "store_wf s"
  shows "states s mid = Some st \<longleftrightarrow> (\<exists>r \<in> set (machine_state_table s). sr_state_json r = st \<and> ms_machine_id st = mid)"
proof
  assume "states s mid = Some st"
  then show "\<exists>r \<in> set (machine_state_table s). sr_state_json r = st \<and> ms_machine_id st = mid"
    unfolding states_def by (auto dest!: map_of_SomeD)
next
  assume "\<exists>r \<in> set (machine_state_table s). sr_state_json r = st \<and> ms_machine_id st = mid"
  then obtain r where r: "r \<in> set (machine_state_table s)" "sr_state_json r = st" "ms_machine_id st = mid" by blast
  have "filter (\<lambda>x. sr_machine_id x = MachineId_to_string mid) (machine_state_table s) = [r]"
    using filter_key [OF store_wfD(5) [OF assms] r(1)] store_wfD(4) [OF assms r(1)] r by simp
  then show "states s mid = Some st" using r by (simp add: states_filter [OF assms])
qed

lemma configs_None:
  assumes "store_wf s"
  shows "configs s mid = None \<longleftrightarrow> MachineId_to_string mid \<notin> cr_id ` set (machine_config_table s)"
proof -
  have "configs s mid = None \<longleftrightarrow> filter (\<lambda>r. cr_id r = MachineId_to_string mid) (machine_config_table s) = []"
    by (simp add: configs_filter [OF assms] split: list.split)
  then show ?thesis by (simp add: filter_empty_conv image_iff eq_commute [of "MachineId_to_string mid"])
qed

lemma states_None:
  assumes "store_wf s"
  shows "states s mid = None \<longleftrightarrow> MachineId_to_string mid \<notin> sr_machine_id ` set (machine_state_table s)"
proof -
  have "states s mid = None \<longleftrightarrow> filter (\<lambda>r. sr_machine_id r = MachineId_to_string mid) (machine_state_table s) = []"
    by (simp add: states_filter [OF assms] split: list.split)
  then show ?thesis by (simp add: filter_empty_conv image_iff eq_commute [of "MachineId_to_string mid"])
qed

lemma machine_config_by_name_ok:
  assumes "store_wf s" "uuid_spec uuid"
  shows "\<exists>r. machine_config_by_name uuid name s = Ok r \<and>
    (\<forall>c. r = Some c \<longleftrightarrow> configs s (mc_id c) = Some c \<and> mc_name c = name)"
proof -
  define fs where "fs = filter (\<lambda>r. cr_name r = name) (machine_config_table s)"
  have e: "machine_config_by_name uuid name s = Ok (case fs of [] \<Rightarrow> None | r # _ \<Rightarrow> Some (cr_config_json r))"
    unfolding machine_config_by_name_def fs_def by (rule fetch_optional_ok) (rule decode_config [OF assms])
  have "(case fs of [] \<Rightarrow> None | r # _ \<Rightarrow> Some (cr_config_json r)) = Some c \<longleftrightarrow>
      configs s (mc_id c) = Some c \<and> mc_name c = name" for c
  proof
    assume "(case fs of [] \<Rightarrow> None | r # _ \<Rightarrow> Some (cr_config_json r)) = Some c"
    then obtain r rs where r: "fs = r # rs" "cr_config_json r = c" by (auto split: list.splits)
    then show "configs s (mc_id c) = Some c \<and> mc_name c = name"
      using filter_hd_mem [OF r(1) [unfolded fs_def]] store_wfD(1) [OF assms(1), of r]
      by (auto simp: configs_iff [OF assms(1)])
  next
    assume c: "configs s (mc_id c) = Some c \<and> mc_name c = name"
    then obtain r where r: "r \<in> set (machine_config_table s)" "cr_config_json r = c" "cr_name r = name"
      using store_wfD(1) [OF assms(1)] by (auto simp: configs_iff [OF assms(1)])
    then have "fs = [r]" using filter_key [OF store_wfD(3) [OF assms(1)] r(1)] by (simp add: fs_def)
    then show "(case fs of [] \<Rightarrow> None | r # _ \<Rightarrow> Some (cr_config_json r)) = Some c" using r by simp
  qed
  then show ?thesis using e by blast
qed

lemma prefix_match:
  assumes "store_wf s" "r \<in> set (machine_config_table s)" "list_all is_lower_hex p"
  shows "map to_ascii_lower (take (length p) (cr_id r)) = map to_ascii_lower p \<longleftrightarrow>
    take (length p) (MachineId_to_string (mc_id (cr_config_json r))) = p"
proof -
  have "list_all is_lower_hex (take (length p) (cr_id r))"
    using store_wfD(1) [OF assms(1, 2)] hex_lower_all [of 32 "mc_id (cr_config_json r)"]
    by (auto simp: MachineId_to_string_def list_all_iff dest: in_set_takeD)
  then show ?thesis using assms(3) store_wfD(1) [OF assms(1, 2)] by (simp add: map_lower_hex)
qed

lemma machine_configs_by_id_prefix_ok:
  assumes "store_wf s" "uuid_spec uuid" "validate_machine_id_prefix p = Ok ()"
  shows "\<exists>cs. machine_configs_by_id_prefix uuid p s = Ok cs \<and> distinct (map mc_id cs) \<and>
    set cs = {c. configs s (mc_id c) = Some c \<and> take (length p) (MachineId_to_string (mc_id c)) = p}"
proof -
  have hex: "list_all is_lower_hex p" using assms(3) by (simp add: validate_machine_id_prefix_def Let_def split: if_splits)
  define P where "P = (\<lambda>r :: MachineConfigRow. map to_ascii_lower (take (length p) (cr_id r)) = map to_ascii_lower p)"
  have "machine_configs_by_id_prefix uuid p s = Ok (map cr_config_json (filter P (machine_config_table s)))"
    using fetch_all_ok [of "filter P (machine_config_table s)" "DbMachineConfig_from_row uuid" cr_config_json]
      decode_config [OF assms(1, 2)] assms(3) by (simp add: machine_configs_by_id_prefix_def P_def)
  moreover have "distinct (map mc_id (map cr_config_json (filter P (machine_config_table s))))"
  proof -
    have "map cr_id (machine_config_table s) = map MachineId_to_string (map (\<lambda>r. mc_id (cr_config_json r)) (machine_config_table s))"
      using store_wfD(1) [OF assms(1)] by simp
    then have "distinct (map MachineId_to_string (map (\<lambda>r. mc_id (cr_config_json r)) (machine_config_table s)))"
      using store_wfD(2) [OF assms(1)] by metis
    then have "distinct (map (\<lambda>r. mc_id (cr_config_json r)) (machine_config_table s))"
      unfolding distinct_map [of MachineId_to_string] by blast
    then show ?thesis by (simp add: comp_def distinct_map_filter)
  qed
  moreover have "set (map cr_config_json (filter P (machine_config_table s))) =
      {c. configs s (mc_id c) = Some c \<and> take (length p) (MachineId_to_string (mc_id c)) = p}"
    using prefix_match [OF assms(1) _ hex] by (auto simp: configs_iff [OF assms(1)] P_def)
  ultimately show ?thesis by blast
qed

lemma list_machine_configs_ok:
  assumes "store_wf s" "uuid_spec uuid"
  shows "\<exists>cs. list_machine_configs uuid s = Ok cs \<and> sorted (map mc_name cs) \<and>
    set cs = {c. configs s (mc_id c) = Some c} \<and> distinct (map mc_name cs)"
proof -
  define rs where "rs = sort_key cr_name (machine_config_table s)"
  have e: "list_machine_configs uuid s = Ok (map cr_config_json rs)"
    unfolding list_machine_configs_def rs_def [symmetric]
    by (rule fetch_all_ok, rule decode_config [OF assms]) (simp add: rs_def)
  have n: "map mc_name (map cr_config_json rs) = map cr_name rs"
    using store_wfD(1) [OF assms(1)] by (simp add: rs_def)
  have "sorted (map cr_name rs)" "distinct (map cr_name rs)"
    using store_wfD(3) [OF assms(1)] by (simp_all add: rs_def distinct_map)
  moreover have "set (map cr_config_json rs) = {c. configs s (mc_id c) = Some c}"
    by (auto simp: configs_iff [OF assms(1)] rs_def)
  ultimately show ?thesis unfolding e n [symmetric] by blast
qed

subsection \<open>Writes\<close>

lemma add_machine_ok:
  assumes wf: "store_wf s"
  shows "case add_machine c st s of
      Inr s' \<Rightarrow> store_wf s' \<and> configs s' = (configs s)(mc_id c \<mapsto> c) \<and> states s' = (states s)(mc_id c \<mapsto> st) \<and>
        ms_machine_id st = mc_id c \<and> configs s (mc_id c) = None \<and> (\<nexists>c'. configs s (mc_id c') = Some c' \<and> mc_name c' = mc_name c)
    | Inl e \<Rightarrow> ms_machine_id st \<noteq> mc_id c \<or> configs s (mc_id c) \<noteq> None \<or>
        (e = MachineAlreadyExists (mc_name c) \<and> (\<exists>c'. configs s (mc_id c') = Some c' \<and> mc_name c' = mc_name c))"
proof -
  have names: "mc_name c \<in> cr_name ` set (machine_config_table s) \<longleftrightarrow>
      (\<exists>c'. configs s (mc_id c') = Some c' \<and> mc_name c' = mc_name c)"
    using store_wfD(1) [OF wf] by (auto simp: configs_iff [OF wf] image_iff) metis+
  have sub: "MachineId_to_string (mc_id c) \<in> sr_machine_id ` set (machine_state_table s) \<Longrightarrow> configs s (mc_id c) \<noteq> None"
    using store_wfD(6) [OF wf] configs_None [OF wf] by blast
  show ?thesis
  proof (cases "add_machine c st s")
    case (Inl e)
    then show ?thesis
      using names sub configs_None [OF wf] by (auto simp: add_machine_def Let_def split: if_splits)
  next
    case (Inr s')
    then have h: "ms_machine_id st = mc_id c" "MachineId_to_string (mc_id c) \<notin> cr_id ` set (machine_config_table s)"
      "mc_name c \<notin> cr_name ` set (machine_config_table s)"
      "MachineId_to_string (mc_id c) \<notin> sr_machine_id ` set (machine_state_table s)"
      and s': "s' = s\<lparr>machine_config_table := machine_config_table s @
            [\<lparr>cr_id = MachineId_to_string (mc_id c), cr_name = mc_name c, cr_config_json = c\<rparr>],
          machine_state_table := machine_state_table s @
            [\<lparr>sr_machine_id = MachineId_to_string (mc_id c), sr_status = as_str (ms_status st), sr_state_json = st\<rparr>]\<rparr>"
      by (auto simp: add_machine_def Let_def split: if_splits)
    have "config_rows_wf (machine_config_table s')" "state_rows_wf (machine_state_table s')"
      using wf h unfolding store_wf_def config_rows_wf_def state_rows_wf_def s' by auto
    then have "store_wf s'" using wf unfolding store_wf_def s' by auto
    moreover have "configs s' = (configs s)(mc_id c \<mapsto> c)" "states s' = (states s)(mc_id c \<mapsto> st)"
      using configs_None [OF wf, of "mc_id c"] states_None [OF wf, of "mc_id c"] h
      by (auto simp: configs_def states_def s' map_add_def fun_eq_iff split: option.split)
    ultimately show ?thesis using Inr h names configs_None [OF wf] by simp
  qed
qed

text \<open>Updating the row of one key changes the map at that key only.\<close>

lemma map_of_update_key:
  assumes "\<And>r. r \<in> set rs \<Longrightarrow> k r = f (j r)" "inj f" "j new = m" "\<exists>r \<in> set rs. k r = f m"
  shows "map_of (map (\<lambda>r. (j r, v r)) (map (\<lambda>r. if k r = f m then new else r) rs)) =
    (map_of (map (\<lambda>r. (j r, v r)) rs))(m \<mapsto> v new)"
proof -
  have *: "map_of (map (\<lambda>r. (j r, v r)) (map (\<lambda>r. if k r = f m then new else r) xs)) x =
      (if x = m \<and> (\<exists>r \<in> set xs. k r = f m) then Some (v new) else map_of (map (\<lambda>r. (j r, v r)) xs) x)"
    if "set xs \<subseteq> set rs" for xs x
    using that
  proof (induction xs)
    case (Cons y ys)
    then show ?case using assms(1) [of y] assms(2, 3) by (auto dest: injD)
  qed simp
  show ?thesis using * [of rs] assms(4) by (auto simp: fun_eq_iff)
qed

lemma save_machine_state_ok:
  assumes wf: "store_wf s"
  shows "case save_machine_state st s of
      Inr s' \<Rightarrow> store_wf s' \<and> configs s' = configs s \<and> states s' = (states s)(ms_machine_id st \<mapsto> st) \<and>
        configs s (ms_machine_id st) \<noteq> None \<and> s' = s\<lparr>machine_state_table := machine_state_table s'\<rparr>
    | Inl _ \<Rightarrow> configs s (ms_machine_id st) = None"
proof -
  let ?mid = "MachineId_to_string (ms_machine_id st)"
  let ?row = "\<lparr>sr_machine_id = ?mid, sr_status = as_str (ms_status st), sr_state_json = st\<rparr>"
  show ?thesis
  proof (cases "?mid \<in> sr_machine_id ` set (machine_state_table s)")
    case True
    let ?s' = "s\<lparr>machine_state_table := map (\<lambda>r. if sr_machine_id r = ?mid then ?row else r) (machine_state_table s)\<rparr>"
    have ids: "map sr_machine_id (machine_state_table ?s') = map sr_machine_id (machine_state_table s)" by (simp add: comp_def)
    then have ids': "sr_machine_id ` set (machine_state_table ?s') = sr_machine_id ` set (machine_state_table s)"
      by (metis list.set_map)
    have cols: "\<forall>r \<in> set (machine_state_table ?s'). sr_machine_id r = MachineId_to_string (ms_machine_id (sr_state_json r)) \<and>
        sr_status r = as_str (ms_status (sr_state_json r))"
      using store_wfD(4) [OF wf] by auto
    then have "state_rows_wf (machine_state_table ?s')"
      unfolding state_rows_wf_def ids using store_wfD(5) [OF wf] by (intro conjI)
    then have "store_wf ?s'" using wf ids' unfolding store_wf_def by (simp del: set_map)
    moreover have "states ?s' = (states s)(ms_machine_id st \<mapsto> st)"
    proof -
      have "map_of (map (\<lambda>r. (ms_machine_id (sr_state_json r), sr_state_json r))
            (map (\<lambda>r. if sr_machine_id r = ?mid then ?row else r) (machine_state_table s))) =
          (map_of (map (\<lambda>r. (ms_machine_id (sr_state_json r), sr_state_json r)) (machine_state_table s)))
            (ms_machine_id st \<mapsto> sr_state_json ?row)"
        by (rule map_of_update_key [OF _ id_inj]) (use True store_wfD(4) [OF wf] in \<open>auto simp: image_iff\<close>)
      then show ?thesis by (simp add: states_def)
    qed
    moreover have "configs s (ms_machine_id st) \<noteq> None" using True store_wfD(6) [OF wf] configs_None [OF wf] by blast
    moreover have "configs ?s' = configs s" by (simp add: configs_def)
    ultimately show ?thesis using True by (simp add: save_machine_state_def Let_def)
  next
    case False
    show ?thesis
    proof (cases "configs s (ms_machine_id st)")
      case None
      then show ?thesis using False configs_None [OF wf] by (simp add: save_machine_state_def Let_def)
    next
      case (Some c)
      then have c: "?mid \<in> cr_id ` set (machine_config_table s)" using configs_None [OF wf, of "ms_machine_id st"] by auto
      let ?s' = "s\<lparr>machine_state_table := machine_state_table s @ [?row]\<rparr>"
      have "state_rows_wf (machine_state_table ?s')"
        using wf False unfolding store_wf_def state_rows_wf_def by auto
      then have "store_wf ?s'" using wf c unfolding store_wf_def by auto
      moreover have "states ?s' = (states s)(ms_machine_id st \<mapsto> st)"
        using states_None [OF wf, of "ms_machine_id st"] False
        by (auto simp: states_def map_add_def fun_eq_iff split: option.split)
      moreover have "configs ?s' = configs s" by (simp add: configs_def)
      ultimately show ?thesis using False c Some by (simp add: save_machine_state_def Let_def)
    qed
  qed
qed

lemma save_machine_config_ok:
  assumes wf: "store_wf s"
  shows "case save_machine_config c s of
      Inr s' \<Rightarrow> store_wf s' \<and> configs s' = (configs s)(mc_id c \<mapsto> c) \<and> states s' = states s \<and> configs s (mc_id c) \<noteq> None
    | Inl e \<Rightarrow> (configs s (mc_id c) = None \<and> e = MachineNotFound (MachineId_to_string (mc_id c))) \<or>
        (\<exists>c'. configs s (mc_id c') = Some c' \<and> mc_id c' \<noteq> mc_id c \<and> mc_name c' = mc_name c)"
proof -
  let ?mid = "MachineId_to_string (mc_id c)"
  define upd where "upd = (\<lambda>r :: MachineConfigRow. if cr_id r = ?mid then r\<lparr>cr_name := mc_name c, cr_config_json := c\<rparr> else r)"
  let ?s' = "s\<lparr>machine_config_table := map upd (machine_config_table s)\<rparr>"
  show ?thesis
  proof (cases "save_machine_config c s")
    case (Inl e)
    then consider "?mid \<notin> cr_id ` set (machine_config_table s)" "e = MachineNotFound ?mid"
      | r where "r \<in> set (machine_config_table s)" "cr_id r \<noteq> ?mid" "cr_name r = mc_name c"
      by (auto simp: save_machine_config_def Let_def split: if_splits)
    then show ?thesis
    proof cases
      case 1
      then show ?thesis using Inl configs_None [OF wf] by simp
    next
      case (2 r)
      then have "configs s (mc_id (cr_config_json r)) = Some (cr_config_json r) \<and> mc_id (cr_config_json r) \<noteq> mc_id c \<and>
          mc_name (cr_config_json r) = mc_name c"
        using store_wfD(1) [OF wf 2(1)] by (auto simp: configs_iff [OF wf])
      then show ?thesis using Inl by auto
    qed
  next
    case (Inr s')
    then have s': "s' = ?s'" and m: "?mid \<in> cr_id ` set (machine_config_table s)"
      and u: "\<And>r. r \<in> set (machine_config_table s) \<Longrightarrow> cr_id r \<noteq> ?mid \<Longrightarrow> cr_name r \<noteq> mc_name c"
      by (auto simp: save_machine_config_def Let_def upd_def split: if_splits)
    have ids: "map cr_id (map upd (machine_config_table s)) = map cr_id (machine_config_table s)" by (simp add: comp_def upd_def)
    then have ids': "cr_id ` set (map upd (machine_config_table s)) = cr_id ` set (machine_config_table s)" by (metis list.set_map)
    have cols: "\<forall>r \<in> set (map upd (machine_config_table s)). cr_id r = MachineId_to_string (mc_id (cr_config_json r)) \<and>
        cr_name r = mc_name (cr_config_json r)"
      using store_wfD(1) [OF wf] by (auto simp: upd_def)
    have names: "distinct (map cr_name (map upd (machine_config_table s)))"
    proof -
      have "distinct (map cr_name (map upd rs))"
        if "distinct (map cr_name rs)" "distinct (map cr_id rs)" "set rs \<subseteq> set (machine_config_table s)" for rs
        using that
      proof (induction rs)
        case (Cons y ys)
        have "cr_name (upd y) \<noteq> cr_name (upd z)" if "z \<in> set ys" for z
          using Cons.prems that u [of y] u [of z] by (auto simp: upd_def image_iff)
        then show ?case using Cons by auto
      qed simp
      then show ?thesis using store_wfD(2, 3) [OF wf] by simp
    qed
    have "config_rows_wf (map upd (machine_config_table s))"
      unfolding config_rows_wf_def ids using cols names store_wfD(2) [OF wf] by (intro conjI)
    then have "store_wf ?s'" using wf ids' unfolding store_wf_def by (simp del: set_map)
    moreover have "configs ?s' = (configs s)(mc_id c \<mapsto> c)"
    proof -
      have eq1: "map (\<lambda>r. (mc_id (cr_config_json r), cr_config_json r)) (map upd (machine_config_table s)) =
          map (\<lambda>r. (mc_id (cr_config_json r), cr_config_json r))
            (map (\<lambda>r. if cr_id r = ?mid then \<lparr>cr_id = ?mid, cr_name = mc_name c, cr_config_json = c\<rparr> else r) (machine_config_table s))"
        by (simp add: upd_def)
      have eq2: "map_of (map (\<lambda>r. (mc_id (cr_config_json r), cr_config_json r))
            (map (\<lambda>r. if cr_id r = ?mid then \<lparr>cr_id = ?mid, cr_name = mc_name c, cr_config_json = c\<rparr> else r) (machine_config_table s))) =
          (map_of (map (\<lambda>r. (mc_id (cr_config_json r), cr_config_json r)) (machine_config_table s)))
            (mc_id c \<mapsto> cr_config_json \<lparr>cr_id = ?mid, cr_name = mc_name c, cr_config_json = c\<rparr>)"
        by (rule map_of_update_key [OF _ id_inj]) (use m store_wfD(1) [OF wf] in \<open>auto simp: image_iff\<close>)
      have "map_of (map (\<lambda>r. (mc_id (cr_config_json r), cr_config_json r)) (map upd (machine_config_table s))) =
          (map_of (map (\<lambda>r. (mc_id (cr_config_json r), cr_config_json r)) (machine_config_table s)))(mc_id c \<mapsto> c)"
        unfolding eq1 eq2 by simp
      then show ?thesis by (simp add: configs_def)
    qed
    moreover have "states ?s' = states s" by (simp add: states_def)
    ultimately show ?thesis using Inr s' m configs_None [OF wf] by simp
  qed
qed

lemma remove_machine_ok:
  assumes wf: "store_wf s"
  shows "store_wf (remove_machine c s) \<and> configs (remove_machine c s) = (configs s)(mc_id c := None) \<and>
    states (remove_machine c s) = (states s)(mc_id c := None)"
proof -
  let ?mid = "MachineId_to_string (mc_id c)"
  have df: "distinct (map f (filter P xs))" if "distinct (map f xs)" for f :: "'x \<Rightarrow> 'y" and P xs
    using that by (rule distinct_map_filter)
  have "store_wf (remove_machine c s)"
    using wf unfolding store_wf_def config_rows_wf_def state_rows_wf_def network_rows_wf_def remove_machine_def Let_def
    by (auto simp: df)
  moreover have "map_of (map (\<lambda>r. (mc_id (cr_config_json r), cr_config_json r)) (filter (\<lambda>r. cr_id r \<noteq> ?mid) rs)) =
      (map_of (map (\<lambda>r. (mc_id (cr_config_json r), cr_config_json r)) rs))(mc_id c := None)"
    if "set rs \<subseteq> set (machine_config_table s)" for rs
    using that by (induction rs) (use store_wfD(1) [OF wf] in \<open>auto simp: fun_eq_iff\<close>)
  moreover have "map_of (map (\<lambda>r. (ms_machine_id (sr_state_json r), sr_state_json r)) (filter (\<lambda>r. sr_machine_id r \<noteq> ?mid) rs)) =
      (map_of (map (\<lambda>r. (ms_machine_id (sr_state_json r), sr_state_json r)) rs))(mc_id c := None)"
    if "set rs \<subseteq> set (machine_state_table s)" for rs
    using that by (induction rs) (use store_wfD(4) [OF wf] in \<open>auto simp: fun_eq_iff\<close>)
  ultimately show ?thesis by (simp add: configs_def states_def remove_machine_def Let_def)
qed

section \<open>The contract of a machine store\<close>

text \<open>
  What the trait \<open>MachineStore\<close> promises, over the two maps the readers return: configurations by
  identifier with unique names, and states of configured machines.
\<close>

locale machine_store =
  fixes wf :: "'s \<Rightarrow> bool"
    and configs_of :: "'s \<Rightarrow> MachineId \<rightharpoonup> MachineConfig"
    and states_of :: "'s \<Rightarrow> MachineId \<rightharpoonup> MachineState"
    and add :: "MachineConfig \<Rightarrow> MachineState \<Rightarrow> 's \<Rightarrow> LibVmError + 's"
    and save_state :: "MachineState \<Rightarrow> 's \<Rightarrow> LibVmError + 's"
    and save_config :: "MachineConfig \<Rightarrow> 's \<Rightarrow> LibVmError + 's"
    and remove :: "MachineConfig \<Rightarrow> 's \<Rightarrow> 's"
  assumes config_key: "wf s \<Longrightarrow> configs_of s m = Some c \<Longrightarrow> mc_id c = m"
    and state_key: "wf s \<Longrightarrow> states_of s m = Some st \<Longrightarrow> ms_machine_id st = m"
    and state_config: "wf s \<Longrightarrow> states_of s m = Some st \<Longrightarrow> configs_of s m \<noteq> None"
    and name_key: "wf s \<Longrightarrow> configs_of s m = Some c \<Longrightarrow> configs_of s m' = Some c' \<Longrightarrow> mc_name c = mc_name c' \<Longrightarrow> m = m'"
    and add_law: "wf s \<Longrightarrow> case add c st s of
        Inr s' \<Rightarrow> wf s' \<and> configs_of s' = (configs_of s)(mc_id c \<mapsto> c) \<and> states_of s' = (states_of s)(mc_id c \<mapsto> st) \<and>
          ms_machine_id st = mc_id c \<and> configs_of s (mc_id c) = None \<and>
          (\<nexists>c'. configs_of s (mc_id c') = Some c' \<and> mc_name c' = mc_name c)
      | Inl e \<Rightarrow> ms_machine_id st \<noteq> mc_id c \<or> configs_of s (mc_id c) \<noteq> None \<or>
          (e = MachineAlreadyExists (mc_name c) \<and> (\<exists>c'. configs_of s (mc_id c') = Some c' \<and> mc_name c' = mc_name c))"
    and save_state_law: "wf s \<Longrightarrow> case save_state st s of
        Inr s' \<Rightarrow> wf s' \<and> configs_of s' = configs_of s \<and> states_of s' = (states_of s)(ms_machine_id st \<mapsto> st) \<and>
          configs_of s (ms_machine_id st) \<noteq> None
      | Inl _ \<Rightarrow> configs_of s (ms_machine_id st) = None"
    and save_config_law: "wf s \<Longrightarrow> case save_config c s of
        Inr s' \<Rightarrow> wf s' \<and> configs_of s' = (configs_of s)(mc_id c \<mapsto> c) \<and> states_of s' = states_of s \<and>
          configs_of s (mc_id c) \<noteq> None
      | Inl e \<Rightarrow> (configs_of s (mc_id c) = None \<and> e = MachineNotFound (MachineId_to_string (mc_id c))) \<or>
          (\<exists>c'. configs_of s (mc_id c') = Some c' \<and> mc_id c' \<noteq> mc_id c \<and> mc_name c' = mc_name c)"
    and remove_law: "wf s \<Longrightarrow> wf (remove c s) \<and> configs_of (remove c s) = (configs_of s)(mc_id c := None) \<and>
        states_of (remove c s) = (states_of s)(mc_id c := None)"
begin

text \<open>Saving the state of a configured machine succeeds and is what the next read returns.\<close>

lemma save_state_known:
  assumes "wf s" "configs_of s (ms_machine_id st) = Some c"
  obtains s' where "save_state st s = Ok s'" "wf s'" "configs_of s' = configs_of s"
    "states_of s' = (states_of s)(ms_machine_id st \<mapsto> st)"
  using save_state_law [OF assms(1), of st] assms(2) by (cases "save_state st s") auto

lemma save_state_unknown:
  assumes "wf s" "configs_of s (ms_machine_id st) = None"
  obtains e where "save_state st s = Err e"
  using save_state_law [OF assms(1), of st] assms(2) by (cases "save_state st s") auto

text \<open>A new machine with a fresh name is added; one whose name is taken is refused as such.\<close>

lemma add_fresh:
  assumes "wf s" "ms_machine_id st = mc_id c" "configs_of s (mc_id c) = None"
    "\<And>c'. configs_of s (mc_id c') = Some c' \<Longrightarrow> mc_name c' \<noteq> mc_name c"
  obtains s' where "add c st s = Ok s'" "wf s'" "configs_of s' = (configs_of s)(mc_id c \<mapsto> c)"
    "states_of s' = (states_of s)(mc_id c \<mapsto> st)"
  using add_law [OF assms(1), of st c] assms(2-) by (cases "add c st s") auto

lemma add_taken:
  assumes "wf s" "ms_machine_id st = mc_id c" "configs_of s (mc_id c) = None"
    "configs_of s (mc_id c') = Some c'" "mc_name c' = mc_name c"
  shows "add c st s = Err (MachineAlreadyExists (mc_name c))"
  using add_law [OF assms(1), of st c] assms(2-) by (cases "add c st s") auto

text \<open>Renaming a machine to a name that no other machine has succeeds; a removed machine is gone and stays gone.\<close>

lemma save_config_known:
  assumes "wf s" "configs_of s (mc_id c) = Some c0"
    "\<And>c'. configs_of s (mc_id c') = Some c' \<Longrightarrow> mc_id c' \<noteq> mc_id c \<Longrightarrow> mc_name c' \<noteq> mc_name c"
  obtains s' where "save_config c s = Ok s'" "wf s'" "configs_of s' = (configs_of s)(mc_id c \<mapsto> c)" "states_of s' = states_of s"
  using save_config_law [OF assms(1), of c] assms(2-) by (cases "save_config c s") auto

lemma remove_then_save_state:
  assumes "wf s" "ms_machine_id st = mc_id c"
  shows "\<exists>e. save_state st (remove c s) = Err e"
  using save_state_unknown [of "remove c s" st] remove_law [OF assms(1), of c] assms(2) by (metis fun_upd_same)

lemma remove_then_add:
  assumes "wf s" "configs_of s (mc_id c) = Some c" "ms_machine_id st = mc_id c"
  shows "\<exists>s'. add c st (remove c s) = Ok s' \<and> configs_of s' = configs_of s \<and> states_of s' = (states_of s)(mc_id c \<mapsto> st)"
proof -
  note R = remove_law [OF assms(1), of c]
  have "mc_name c' \<noteq> mc_name c" if "configs_of (remove c s) (mc_id c') = Some c'" for c'
    using that R name_key [OF assms(1), of "mc_id c'" c' "mc_id c" c] assms(2) by (auto split: if_splits)
  then obtain s' where "add c st (remove c s) = Ok s'" "configs_of s' = (configs_of (remove c s))(mc_id c \<mapsto> c)"
    "states_of s' = (states_of (remove c s))(mc_id c \<mapsto> st)"
    using add_fresh [of "remove c s" st c] R assms(3) by (metis fun_upd_same)
  then show ?thesis using R assms(2) by (auto simp: fun_upd_idem)
qed

end

lemma configs_name_key:
  assumes "store_wf s" "configs s m = Some c" "configs s m' = Some c'" "mc_name c = mc_name c'"
  shows "m = m'"
proof -
  obtain r r' where r: "r \<in> set (machine_config_table s)" "cr_config_json r = c" "mc_id c = m"
    "r' \<in> set (machine_config_table s)" "cr_config_json r' = c'" "mc_id c' = m'"
    using assms(2, 3) unfolding configs_iff [OF assms(1)] by blast
  have "cr_name r = cr_name r'" using assms(4) store_wfD(1) [OF assms(1)] r by simp
  then have "r = r'" using store_wfD(3) [OF assms(1)] r(1, 4) by (auto simp: distinct_map dest: inj_onD)
  then show ?thesis using r by simp
qed

interpretation ms: machine_store store_wf configs states add_machine save_machine_state save_machine_config remove_machine
proof unfold_locales
  fix s :: Store and m :: MachineId
  assume wf: "store_wf s"
  show "configs s m = Some c \<Longrightarrow> mc_id c = m" for c using configs_iff [OF wf] by blast
  show "states s m = Some st \<Longrightarrow> ms_machine_id st = m" for st using states_iff [OF wf] by blast
  show "states s m = Some st \<Longrightarrow> configs s m \<noteq> None" for st
    using states_None [OF wf, of m] configs_None [OF wf, of m] store_wfD(6) [OF wf] by auto
  show "configs s m = Some c \<Longrightarrow> configs s m' = Some c' \<Longrightarrow> mc_name c = mc_name c' \<Longrightarrow> m = m'" for c m' c'
    by (rule configs_name_key [OF wf])
  show "case save_machine_state st s of
      Inr s' \<Rightarrow> store_wf s' \<and> configs s' = configs s \<and> states s' = (states s)(ms_machine_id st \<mapsto> st) \<and>
        configs s (ms_machine_id st) \<noteq> None
    | Inl _ \<Rightarrow> configs s (ms_machine_id st) = None" for st
    using save_machine_state_ok [OF wf, of st] by (cases "save_machine_state st s") simp_all
qed (rule add_machine_ok save_machine_config_ok remove_machine_ok; assumption)+

section \<open>Networks keep the tables well formed\<close>

lemma configs_states_cong:
  "machine_config_table s' = machine_config_table s \<Longrightarrow> configs s' = configs s"
  "machine_state_table s' = machine_state_table s \<Longrightarrow> states s' = states s"
  by (simp_all add: configs_def states_def)

lemma network_wf_cong:
  assumes "store_wf s" "machine_config_table s' = machine_config_table s" "machine_state_table s' = machine_state_table s"
    "network_rows_wf (network_instances_table s') (network_attachments_table s') (network_definitions_table s')"
    "ar_machine_id ` set (network_attachments_table s') \<subseteq> cr_id ` set (machine_config_table s)"
  shows "store_wf s'"
  using assms by (simp add: store_wf_def)

lemma store_wf_network:
  assumes "store_wf s"
  shows "network_rows_wf (network_instances_table s) (network_attachments_table s) (network_definitions_table s)"
    "ar_machine_id ` set (network_attachments_table s) \<subseteq> cr_id ` set (machine_config_table s)"
  using assms by (simp_all add: store_wf_def)

lemma detach_network_wf: "store_wf s \<Longrightarrow> store_wf (detach_network mid s)"
  by (rule network_wf_cong [of s])
    (use store_wf_network [of s] in \<open>auto simp: detach_network_def network_rows_wf_def distinct_map_filter\<close>)

lemma distinct_filter_map_filter:
  "distinct (filter P (map f xs)) \<Longrightarrow> distinct (filter P (map f (filter Q xs)))"
  by (induction xs) (auto split: if_splits)

lemma remove_network_instance_wf: "store_wf s \<Longrightarrow> store_wf (remove_network_instance nid s)"
  by (rule network_wf_cong [of s])
    (use store_wf_network [of s] in \<open>auto simp: remove_network_instance_def network_rows_wf_def distinct_map_filter
        distinct_filter_map_filter\<close>)

lemma attach_network_wf: "store_wf s \<Longrightarrow> attach_network a s = Ok s' \<Longrightarrow> store_wf s'"
proof -
  assume wf: "store_wf s" and e: "attach_network a s = Ok s'"
  let ?mid = "MachineId_to_string (na_machine_id a)"
  define upd where "upd = (\<lambda>r :: NetworkAttachmentRow. if ar_machine_id r = ?mid
    then r\<lparr>ar_network_instance_id := na_network_instance_id a, ar_guest_mac := na_guest_mac a, ar_modified_at := na_modified_at a\<rparr>
    else r)"
  have g: "?mid \<in> cr_id ` set (machine_config_table s)" "na_network_instance_id a \<in> ni_id ` set (network_instances_table s)"
    using e by (auto simp: attach_network_def Let_def split: if_splits)
  have upd_id: "ar_machine_id (upd r) = ar_machine_id r" for r by (simp add: upd_def)
  note N = store_wf_network [OF wf]
  show "store_wf s'"
  proof (cases "?mid \<in> ar_machine_id ` set (network_attachments_table s)")
    case True
    then have s': "s' = s\<lparr>network_attachments_table := map upd (network_attachments_table s)\<rparr>"
      using e g by (auto simp: attach_network_def Let_def upd_def split: if_splits)
    have "map ar_machine_id (map upd (network_attachments_table s)) = map ar_machine_id (network_attachments_table s)"
      by (simp add: upd_id)
    moreover have "ar_network_instance_id ` set (map upd (network_attachments_table s)) \<subseteq> ni_id ` set (network_instances_table s)"
      using N(1) g(2) by (auto simp: network_rows_wf_def upd_def)
    moreover have "ar_machine_id ` set (map upd (network_attachments_table s)) \<subseteq> cr_id ` set (machine_config_table s)"
      using N(2) by (auto simp: upd_id)
    ultimately show ?thesis
      by (intro network_wf_cong [OF wf]) (use N in \<open>simp_all add: s' network_rows_wf_def del: map_map set_map\<close>)
  next
    case False
    then have s': "s' = s\<lparr>network_attachments_table := network_attachments_table s @
        [\<lparr>ar_machine_id = ?mid, ar_network_instance_id = na_network_instance_id a, ar_guest_mac = na_guest_mac a,
          ar_created_at = na_created_at a, ar_modified_at = na_modified_at a\<rparr>]\<rparr>"
      using e g by (auto simp: attach_network_def Let_def split: if_splits)
    show ?thesis
      by (rule network_wf_cong [OF wf]) (use N g False in \<open>auto simp: s' network_rows_wf_def\<close>)
  qed
qed

lemma save_network_instance_wf: "store_wf s \<Longrightarrow> save_network_instance i s = Ok s' \<Longrightarrow> store_wf s'"
proof -
  assume wf: "store_wf s" and e: "save_network_instance i s = Ok s'"
  define upd where "upd = (\<lambda>r :: NetworkInstance. if ni_id r = ni_id i then i\<lparr>ni_created_at := ni_created_at r\<rparr> else r)"
  have uniq: "ni_definition_name i \<noteq> None \<Longrightarrow> r \<in> set (network_instances_table s) \<Longrightarrow> ni_id r \<noteq> ni_id i \<Longrightarrow>
      ni_definition_name r \<noteq> ni_definition_name i" for r
    using e by (auto simp: save_network_instance_def split: if_splits)
  have ids: "ni_id (upd r) = ni_id r" for r by (simp add: upd_def)
  note N = store_wf_network [OF wf]
  show "store_wf s'"
  proof (cases "ni_id i \<in> ni_id ` set (network_instances_table s)")
    case True
    then have s': "s' = s\<lparr>network_instances_table := map upd (network_instances_table s)\<rparr>"
      using e by (auto simp: save_network_instance_def upd_def split: if_splits)
    have d: "distinct (filter (\<lambda>d. d \<noteq> None) (map ni_definition_name (map upd xs)))"
      if "distinct (filter (\<lambda>d. d \<noteq> None) (map ni_definition_name xs))" "distinct (map ni_id xs)" "set xs \<subseteq> set (network_instances_table s)" for xs
      using that
    proof (induction xs)
      case (Cons y ys)
      have other: "ni_definition_name (upd z) \<noteq> ni_definition_name (upd y)"
        if "z \<in> set ys" "ni_definition_name (upd y) \<noteq> None" for z
        using that Cons.prems uniq [of y] uniq [of z] by (auto simp: upd_def image_iff split: if_splits)
      then show ?case using Cons by (auto split: if_splits)
    qed simp
    have "ni_id ` set (map upd (network_instances_table s)) = ni_id ` set (network_instances_table s)"
      by (auto simp: ids image_image)
    moreover have "map ni_id (map upd (network_instances_table s)) = map ni_id (network_instances_table s)" by (simp add: ids)
    ultimately show ?thesis
      by (intro network_wf_cong [OF wf])
        (use N d [of "network_instances_table s"] in \<open>simp_all add: s' network_rows_wf_def del: map_map set_map\<close>)
  next
    case False
    then have s': "s' = s\<lparr>network_instances_table := network_instances_table s @ [i]\<rparr>"
      using e by (auto simp: save_network_instance_def split: if_splits)
    have "distinct (filter (\<lambda>d. d \<noteq> None) (map ni_definition_name (network_instances_table s @ [i])))"
    proof -
      have "ni_definition_name r \<noteq> ni_definition_name i" if "r \<in> set (network_instances_table s)" "ni_definition_name i \<noteq> None" for r
        using uniq [OF that(2, 1)] False that(1) by (metis image_eqI)
      then show ?thesis using N(1) by (fastforce simp: network_rows_wf_def)
    qed
    then show ?thesis
      by (intro network_wf_cong [OF wf]) (use N False in \<open>auto simp: s' network_rows_wf_def\<close>)
  qed
qed

lemma define_network_wf: "store_wf s \<Longrightarrow> store_wf (define_network now d s)"
proof -
  assume wf: "store_wf s"
  define upd where "upd = (\<lambda>r :: NetworkDefinition. if df_name r = df_name d
    then r\<lparr>df_topology := df_topology d, df_driver_preference := df_driver_preference d, df_modified_at := now\<rparr> else r)"
  have n: "map df_name (map upd ds) = map df_name ds" for ds by (simp add: upd_def)
  have "network_definitions_table (define_network now d s) =
      (if df_name d \<in> df_name ` set (network_definitions_table s) then map upd (network_definitions_table s)
       else network_definitions_table s @ [d\<lparr>df_created_at := now, df_modified_at := now\<rparr>])"
    by (simp add: define_network_def upd_def)
  then have "distinct (map df_name (network_definitions_table (define_network now d s)))"
    using store_wf_network(1) [OF wf] n [of "network_definitions_table s"] by (simp add: network_rows_wf_def del: map_map)
  then show "store_wf (define_network now d s)"
    by (intro network_wf_cong [OF wf]) (use store_wf_network [OF wf] in \<open>simp_all add: define_network_def network_rows_wf_def\<close>)
qed

lemma remove_network_definition_wf: "store_wf s \<Longrightarrow> store_wf (remove_network_definition n s)"
  by (rule network_wf_cong [of s])
    (use store_wf_network [of s] in \<open>auto simp: remove_network_definition_def network_rows_wf_def distinct_map_filter\<close>)

section \<open>Every history of a store\<close>

inductive store_step :: "Store \<Rightarrow> Store \<Rightarrow> bool" where
  step_add: "add_machine c st s = Ok s' \<Longrightarrow> store_step s s'"
| step_save_state: "save_machine_state st s = Ok s' \<Longrightarrow> store_step s s'"
| step_save_config: "save_machine_config c s = Ok s' \<Longrightarrow> store_step s s'"
| step_remove: "store_step s (remove_machine c s)"
| step_save_instance: "save_network_instance i s = Ok s' \<Longrightarrow> store_step s s'"
| step_attach: "attach_network a s = Ok s' \<Longrightarrow> store_step s s'"
| step_detach: "store_step s (detach_network m s)"
| step_remove_instance: "store_step s (remove_network_instance n s)"
| step_define: "store_step s (define_network now d s)"
| step_remove_definition: "store_step s (remove_network_definition n s)"

lemma store_step_wf: "store_step s s' \<Longrightarrow> store_wf s \<Longrightarrow> store_wf s'"
proof (induction rule: store_step.induct)
  case (step_add c st s s')
  then show ?case using add_machine_ok [of s st c] by simp
next
  case (step_save_state st s s')
  then show ?case using save_machine_state_ok [of s st] by simp
next
  case (step_save_config c s s')
  then show ?case using save_machine_config_ok [of s c] by simp
qed (blast intro: remove_machine_ok [THEN conjunct1] save_network_instance_wf attach_network_wf detach_network_wf
    remove_network_instance_wf define_network_wf remove_network_definition_wf)+

lemma store_history_wf: "store_step\<^sup>*\<^sup>* Store_empty s \<Longrightarrow> store_wf s"
  by (induction rule: rtranclp_induct) (simp_all add: store_step_wf)

text \<open>
  C5: The database refines a pair of finite maps: after every history of store operations, reading a
  configuration or a state returns exactly the entry of the map and never a decoding error, saving a
  state, adding a machine and removing one change the maps at that machine only, and they fail exactly
  where a key is missing or taken.
\<close>

theorem store_refines_maps:
  assumes "store_step\<^sup>*\<^sup>* Store_empty s" "uuid_spec uuid"
  shows "machine_config uuid mid s = Ok (configs s mid) \<and> machine_state_row uuid mid s = Ok (states s mid) \<and>
    (case save_machine_state st s of
       Inr s' \<Rightarrow> configs s' = configs s \<and> states s' = (states s)(ms_machine_id st \<mapsto> st) \<and> configs s (ms_machine_id st) \<noteq> None
     | Inl _ \<Rightarrow> configs s (ms_machine_id st) = None) \<and>
    (case add_machine c st s of
       Inr s' \<Rightarrow> configs s' = (configs s)(mc_id c \<mapsto> c) \<and> states s' = (states s)(mc_id c \<mapsto> st) \<and> configs s (mc_id c) = None
     | Inl e \<Rightarrow> ms_machine_id st \<noteq> mc_id c \<or> configs s (mc_id c) \<noteq> None \<or>
         (e = MachineAlreadyExists (mc_name c) \<and> (\<exists>c'. configs s (mc_id c') = Some c' \<and> mc_name c' = mc_name c))) \<and>
    configs (remove_machine c s) = (configs s)(mc_id c := None) \<and> states (remove_machine c s) = (states s)(mc_id c := None)"
proof -
  note wf = store_history_wf [OF assms(1)]
  show ?thesis
    using machine_config_ok [OF wf assms(2)] machine_state_ok [OF wf assms(2)] save_machine_state_ok [OF wf, of st]
      add_machine_ok [OF wf, of st c] remove_machine_ok [OF wf, of c]
    by (auto split: sum.splits)
qed

definition sample_config :: "MachineId \<Rightarrow> string \<Rightarrow> u32 \<Rightarrow> MachineConfig" where
  "sample_config mid name lock =
     \<lparr>mc_id = mid, mc_lock_id = lock, mc_name = name, mc_spec = VmSpec_current, mc_machine_dir = ''/machines/'' @ MachineId_to_string mid,
      mc_created_at = 1, mc_modified_at = 1, mc_image_ref = ''test-image:latest'', mc_root_disk_size = None, mc_labels = [],
      mc_metadata = [], mc_network = NetPrivate None\<rparr>"

definition sample_stopped :: "MachineId \<Rightarrow> MachineState" where
  "sample_stopped mid =
     \<lparr>ms_machine_id = mid, ms_status = Stopped, ms_vmmon_pid = None, ms_started_at = None, ms_run_id = None,
      ms_last_error = None, ms_updated_at = 1\<rparr>"

lemma sample_history:
  obtains s where "store_step\<^sup>*\<^sup>* Store_empty s" "store_wf s" "configs s = [mid \<mapsto> sample_config mid name lock]"
    "states s = [mid \<mapsto> sample_stopped mid]" "network_attachments_table s = []"
proof -
  have empty: "configs Store_empty = Map.empty" "states Store_empty = Map.empty"
    by (simp_all add: configs_def states_def Store_empty_def)
  obtain s where s: "add_machine (sample_config mid name lock) (sample_stopped mid) Store_empty = Ok s" "store_wf s"
    "configs s = (configs Store_empty)(mid \<mapsto> sample_config mid name lock)" "states s = (states Store_empty)(mid \<mapsto> sample_stopped mid)"
    by (rule ms.add_fresh [of Store_empty "sample_stopped mid" "sample_config mid name lock"])
      (simp_all add: empty sample_config_def sample_stopped_def)
  moreover have "network_attachments_table s = []"
    using s(1) by (auto simp: add_machine_def Let_def Store_empty_def split: if_splits)
  ultimately show thesis using that [of s] step_add [OF s(1)] empty by auto
qed

theorem store_refines_maps_witness:
  "\<exists>s. store_step\<^sup>*\<^sup>* Store_empty s \<and> machine_state_row simple_uuid 5 s = Ok (Some (sample_stopped 5)) \<and>
     configs (remove_machine (sample_config 5 ''devbox'' 0) s) = Map.empty"
proof -
  obtain s where s: "store_step\<^sup>*\<^sup>* Store_empty s" "configs s = [5 \<mapsto> sample_config 5 ''devbox'' 0]" "states s = [5 \<mapsto> sample_stopped 5]"
    by (rule sample_history)
  show ?thesis
    using store_refines_maps [OF s(1) simple_uuid_spec, of 5 "sample_stopped 5" "sample_config 5 ''devbox'' 0"] s
    by (auto simp: sample_config_def)
qed

section \<open>Resolving a reference\<close>

definition resolve_machine_config ::
  "(string \<Rightarrow> MachineId option) \<Rightarrow> MachineRefKind \<Rightarrow> Store \<Rightarrow> LibVmError + MachineConfig" where
  "resolve_machine_config uuid machine s =
     (case machine of
        RefId mid \<Rightarrow>
          bind_result (machine_config uuid mid s) (\<lambda>r.
            case r of Some c \<Rightarrow> Ok c | None \<Rightarrow> Err (MachineNotFound (MachineId_to_string mid)))
      | RefName name \<Rightarrow>
          bind_result (machine_config_by_name uuid name s) (\<lambda>r.
            case r of Some c \<Rightarrow> Ok c | None \<Rightarrow> Err (MachineNotFound name))
      | RefIdPrefix prefix \<Rightarrow>
          bind_result (machine_configs_by_id_prefix uuid prefix s) (\<lambda>matches.
            case matches of
              [] \<Rightarrow> Err (MachineNotFound prefix)
            | [c] \<Rightarrow> Ok c
            | _ \<Rightarrow> Err (AmbiguousIdPrefix prefix (length matches))))"

lemma resolve_by_id:
  assumes "store_wf s" "uuid_spec uuid"
  shows "resolve_machine_config uuid (RefId mid) s =
    (case configs s mid of Some c \<Rightarrow> Ok c | None \<Rightarrow> Err (MachineNotFound (MachineId_to_string mid)))"
  by (simp add: resolve_machine_config_def machine_config_ok [OF assms])

text \<open>The machines whose identifier starts with a prefix.\<close>

definition matching :: "Store \<Rightarrow> string \<Rightarrow> MachineConfig set" where
  "matching s p = {c. configs s (mc_id c) = Some c \<and> take (length p) (MachineId_to_string (mc_id c)) = p}"

lemma resolve_by_prefix:
  assumes "store_wf s" "uuid_spec uuid" "validate_machine_id_prefix p = Ok ()"
  shows "resolve_machine_config uuid (RefIdPrefix p) s = Ok c \<longleftrightarrow> matching s p = {c}"
    "finite (matching s p)"
    "2 \<le> card (matching s p) \<Longrightarrow> resolve_machine_config uuid (RefIdPrefix p) s = Err (AmbiguousIdPrefix p (card (matching s p)))"
    "matching s p = {} \<Longrightarrow> resolve_machine_config uuid (RefIdPrefix p) s = Err (MachineNotFound p)"
proof -
  obtain cs where cs: "machine_configs_by_id_prefix uuid p s = Ok cs" "distinct (map mc_id cs)" "set cs = matching s p"
    using machine_configs_by_id_prefix_ok [OF assms] unfolding matching_def by blast
  have d: "distinct cs" using cs(2) by (simp add: distinct_map)
  have card: "card (matching s p) = length cs" using distinct_card [OF d] cs(3) by simp
  have e: "resolve_machine_config uuid (RefIdPrefix p) s =
      (case cs of [] \<Rightarrow> Err (MachineNotFound p) | [c] \<Rightarrow> Ok c | _ \<Rightarrow> Err (AmbiguousIdPrefix p (length cs)))"
    by (simp add: resolve_machine_config_def cs(1))
  show "finite (matching s p)" unfolding cs(3) [symmetric] by simp
  show "resolve_machine_config uuid (RefIdPrefix p) s = Ok c \<longleftrightarrow> matching s p = {c}"
    using d unfolding e cs(3) [symmetric] by (auto split: list.splits)
  show "2 \<le> card (matching s p) \<Longrightarrow> resolve_machine_config uuid (RefIdPrefix p) s = Err (AmbiguousIdPrefix p (card (matching s p)))"
    unfolding e card by (auto split: list.splits)
  show "matching s p = {} \<Longrightarrow> resolve_machine_config uuid (RefIdPrefix p) s = Err (MachineNotFound p)"
    unfolding e using cs(3) by simp
qed

definition get_machine :: "(string \<Rightarrow> MachineId option) \<Rightarrow> MachineRefKind \<Rightarrow> Store \<Rightarrow> LibVmError + MachineId" where
  "get_machine uuid machine s =
     bind_result (resolve_machine_config uuid machine s) (\<lambda>config. Ok (mc_id config))"

definition locate :: "(string \<Rightarrow> MachineId option) \<Rightarrow> string \<Rightarrow> Store \<Rightarrow> LibVmError + MachineId" where
  "locate uuid input s = bind_result (MachineRef_parse uuid input) (\<lambda>machine. get_machine uuid machine s)"

lemma to_ascii_lower_hex:
  assumes "is_ascii_hexdigit c"
  shows "is_lower_hex (to_ascii_lower c)"
proof -
  have "list_all (\<lambda>c. is_lower_hex (to_ascii_lower c)) ''0123456789abcdefABCDEF''" by code_simp
  then show ?thesis using assms unfolding is_ascii_hexdigit_def list_all_iff by blast
qed

lemma prefix_parse:
  assumes "uuid_spec uuid" "looks_like_id_prefix input" "length input < 32"
  shows "MachineRef_parse uuid input = Ok (RefIdPrefix (map to_ascii_lower input))"
    "validate_machine_id_prefix (map to_ascii_lower input) = Ok ()"
proof -
  have "uuid input = None" using assms(1, 3) by (cases "uuid input") (force simp: uuid_spec_def)+
  then show "MachineRef_parse uuid input = Ok (RefIdPrefix (map to_ascii_lower input))"
    using assms(2) by (simp add: MachineRef_parse_def)
  show "validate_machine_id_prefix (map to_ascii_lower input) = Ok ()"
    using assms(2) by (auto simp: validate_machine_id_prefix_def looks_like_id_prefix_def Let_def list_all_iff to_ascii_lower_hex)
qed

text \<open>
  C36: A short hexadecimal reference, in either case, finds a machine exactly when one machine and no other
  has an identifier that starts with it; when several do, the error reports how many, and when none
  does the machine is not found.
\<close>

theorem prefix_resolution:
  assumes "store_step\<^sup>*\<^sup>* Store_empty s" "uuid_spec uuid" "looks_like_id_prefix input" "length input < 32"
  defines "p \<equiv> map to_ascii_lower input"
  shows "locate uuid input s =
    (if card (matching s p) = 0 then Err (MachineNotFound p)
     else if card (matching s p) = 1 then Ok (mc_id (the_elem (matching s p)))
     else Err (AmbiguousIdPrefix p (card (matching s p))))"
proof -
  note wf = store_history_wf [OF assms(1)]
  note P = prefix_parse [OF assms(2-4), folded p_def]
  note R = resolve_by_prefix [OF wf assms(2) P(2)]
  have l: "locate uuid input s = bind_result (resolve_machine_config uuid (RefIdPrefix p) s) (\<lambda>config. Ok (mc_id config))"
    by (simp add: locate_def P(1) get_machine_def)
  consider "matching s p = {}" | c where "matching s p = {c}" | "2 \<le> card (matching s p)"
    using R(2) by (metis One_nat_def Suc_1 card_1_singletonE card_eq_0_iff le_neq_implies_less less_one not_less not_less_eq_eq)
  then show ?thesis
  proof cases
    case 1
    then show ?thesis using R(4) l by simp
  next
    case (2 c)
    then show ?thesis using R(1) [of c] l by simp
  next
    case 3
    then show ?thesis using R(3) l by simp
  qed
qed

theorem prefix_resolution_witness:
  "\<exists>s. store_step\<^sup>*\<^sup>* Store_empty s \<and> locate simple_uuid ''000'' s = Ok 5"
proof -
  obtain s where s: "store_step\<^sup>*\<^sup>* Store_empty s" "configs s = [5 \<mapsto> sample_config 5 ''devbox'' 0]"
    by (rule sample_history)
  have h: "looks_like_id_prefix ''000''" "map to_ascii_lower ''000'' = ''000''" "take (length ''000'') (MachineId_to_string 5) = ''000''"
    by code_simp+
  have "matching s ''000'' = {sample_config 5 ''devbox'' 0}"
    using h(3) by (auto simp: matching_def s(2) sample_config_def split: if_splits)
  then have "locate simple_uuid ''000'' s = Ok (mc_id (sample_config 5 ''devbox'' 0))"
    using prefix_resolution [OF s(1) simple_uuid_spec h(1)] h(2) by simp
  then show ?thesis using s(1) by (auto simp: sample_config_def)
qed

text \<open>
  C35: A machine may be created under a name of three to thirty-one hexadecimal digits, but no reference by
  that name finds it: the name is read as an identifier prefix, and finds only a machine whose identifier
  starts with it.
\<close>

theorem hex_name_unreachable:
  assumes "store_step\<^sup>*\<^sup>* Store_empty s" "uuid_spec uuid" "configs s (mc_id c) = Some c"
    "looks_like_id_prefix (mc_name c)" "length (mc_name c) < 32"
    "take (length (mc_name c)) (MachineId_to_string (mc_id c)) \<noteq> map to_ascii_lower (mc_name c)"
  shows "validate_machine_name (mc_name c) = Ok () \<and> locate uuid (mc_name c) s \<noteq> Ok (mc_id c)"
proof -
  have hex: "list_all is_ascii_hexdigit (mc_name c)" "mc_name c \<noteq> []" using assms(4) by (auto simp: looks_like_id_prefix_def)
  then have v: "validate_machine_name (mc_name c) = Ok ()"
    using hexdigit_identifier by (cases "mc_name c") (auto simp: validate_machine_name_ok starts_with_def list_all_iff)
  note wf = store_history_wf [OF assms(1)]
  note P = prefix_parse [OF assms(2, 4, 5)]
  have "locate uuid (mc_name c) s \<noteq> Ok (mc_id c)"
  proof
    assume "locate uuid (mc_name c) s = Ok (mc_id c)"
    then obtain c' where c': "resolve_machine_config uuid (RefIdPrefix (map to_ascii_lower (mc_name c))) s = Ok c'" "mc_id c' = mc_id c"
      by (auto simp: locate_def P(1) get_machine_def)
    then have "c' \<in> matching s (map to_ascii_lower (mc_name c))" using resolve_by_prefix(1) [OF wf assms(2) P(2)] by blast
    then show False using assms(6) c'(2) by (simp add: matching_def)
  qed
  then show ?thesis using v by blast
qed

theorem hex_name_unreachable_witness:
  "\<exists>s. store_step\<^sup>*\<^sup>* Store_empty s \<and> configs s 5 = Some (sample_config 5 ''cafe'' 0) \<and> locate simple_uuid ''cafe'' s \<noteq> Ok 5"
proof -
  obtain s where s: "store_step\<^sup>*\<^sup>* Store_empty s" "configs s = [5 \<mapsto> sample_config 5 ''cafe'' 0]"
    by (rule sample_history)
  have h: "looks_like_id_prefix ''cafe''" "take (length ''cafe'') (MachineId_to_string 5) \<noteq> map to_ascii_lower ''cafe''" by code_simp+
  have c: "mc_id (sample_config 5 ''cafe'' 0) = 5" "mc_name (sample_config 5 ''cafe'' 0) = ''cafe''"
    by (simp_all add: sample_config_def)
  have "validate_machine_name ''cafe'' = Ok () \<and> locate simple_uuid ''cafe'' s \<noteq> Ok 5"
    using hex_name_unreachable [OF s(1) simple_uuid_spec, of "sample_config 5 ''cafe'' 0"] h unfolding c s(2) by simp
  then show ?thesis using s by auto
qed

end
