(* ===== verification/Vm_Locks.thy ===== *)
theory Vm_Locks
  imports Vm_Models
begin

text \<open>
  Machine locks (\<open>runtime/libvm/src/lock_manager.rs\<close>) and the protocol of \<open>lock_machine_config\<close>,
  \<open>remove\<close> and machine creation around them (\<open>runtime/core.rs\<close>, \<open>machine/lifecycle.rs\<close>,
  \<open>machine/builder.rs\<close>).

  A lock file is a directory entry that points to an inode; \<open>flock\<close> locks the inode, not the name, and
  removing the name leaves the inode to those who have it open.  The file system operations are
  functions on \<open>LockFs\<close>.  \<open>lock_step\<close> interleaves any number of clients at the granularity of system
  calls and database statements, with crashes at every point.  The invariant shows that the protocol
  keeps at most one client in the critical section of a machine although lock identifiers are freed and
  reused.
\<close>

datatype IoErrorKind = AlreadyExists | NotFound | OtherIo

record LockFs =
  lf_files :: "u32 \<rightharpoonup> nat"
  lf_next :: nat
  lf_owner :: "nat \<rightharpoonup> nat"

section \<open>File operations\<close>

definition create_lock_allocation :: "u32 \<Rightarrow> LockFs \<Rightarrow> IoErrorKind + LockFs" where
  "create_lock_allocation lid fs =
     (case lf_files fs lid of
        Some _ \<Rightarrow> Err AlreadyExists
      | None \<Rightarrow> Ok (fs\<lparr>lf_files := (lf_files fs)(lid \<mapsto> lf_next fs), lf_next := lf_next fs + 1\<rparr>))"

definition open_lock_file :: "u32 \<Rightarrow> LockFs \<Rightarrow> nat \<times> LockFs" where
  "open_lock_file lid fs =
     (case lf_files fs lid of
        Some i \<Rightarrow> (i, fs)
      | None \<Rightarrow> (lf_next fs, fs\<lparr>lf_files := (lf_files fs)(lid \<mapsto> lf_next fs), lf_next := lf_next fs + 1\<rparr>))"

definition free :: "u32 \<Rightarrow> LockFs \<Rightarrow> LockFs" where
  "free lid fs = fs\<lparr>lf_files := (lf_files fs)(lid := None)\<rparr>"

text \<open>
  \<open>Flock::lock\<close> with \<open>LockExclusiveNonblock\<close>, and the release when the guard is dropped.  The blocking
  form waits until the inode has no owner, and retries when a signal interrupts it.
\<close>

definition try_flock :: "nat \<Rightarrow> nat \<Rightarrow> LockFs \<Rightarrow> LockFs option" where
  "try_flock who i fs =
     (case lf_owner fs i of
        Some _ \<Rightarrow> None
      | None \<Rightarrow> Some (fs\<lparr>lf_owner := (lf_owner fs)(i \<mapsto> who)\<rparr>))"

definition drop_guard :: "nat \<Rightarrow> LockFs \<Rightarrow> LockFs" where
  "drop_guard i fs = fs\<lparr>lf_owner := (lf_owner fs)(i := None)\<rparr>"

definition try_lock :: "nat \<Rightarrow> u32 \<Rightarrow> LockFs \<Rightarrow> nat option \<times> LockFs" where
  "try_lock who lid fs =
     (let (i, fs') = open_lock_file lid fs in
      case try_flock who i fs' of Some fs'' \<Rightarrow> (Some i, fs'') | None \<Rightarrow> (None, fs'))"

function allocate_loop :: "nat \<Rightarrow> LockFs \<Rightarrow> IoErrorKind + u32 \<times> LockFs" where
  "allocate_loop raw_id fs =
     (if raw_id < 2 ^ 32 then
        (case create_lock_allocation (of_nat raw_id) fs of
           Inr fs' \<Rightarrow> Ok (of_nat raw_id, fs')
         | Inl AlreadyExists \<Rightarrow> allocate_loop (raw_id + 1) fs
         | Inl e \<Rightarrow> Err e)
      else Err OtherIo)"
  by pat_completeness auto
termination
  by (relation "measure (\<lambda>(n, _). 2 ^ 32 - n)") auto

declare allocate_loop.simps [simp del]

definition allocate :: "LockFs \<Rightarrow> IoErrorKind + u32 \<times> LockFs" where
  "allocate fs = allocate_loop 0 fs"

definition LockFs_empty :: LockFs where
  "LockFs_empty = \<lparr>lf_files = Map.empty, lf_next = 0, lf_owner = Map.empty\<rparr>"

section \<open>Allocation without interference\<close>

lemma allocate_loop_spec:
  assumes "n \<le> m" "m < 2 ^ 32" "lf_files fs (of_nat m) = None"
    "\<And>k. n \<le> k \<Longrightarrow> k < m \<Longrightarrow> lf_files fs (of_nat k) \<noteq> None"
  shows "allocate_loop n fs =
    Ok (of_nat m, fs\<lparr>lf_files := (lf_files fs)(of_nat m \<mapsto> lf_next fs), lf_next := lf_next fs + 1\<rparr>)"
  using assms
proof (induction n fs rule: allocate_loop.induct)
  case (1 n fs)
  show ?case
  proof (cases "n = m")
    case True
    then show ?thesis using 1 by (subst allocate_loop.simps) (simp add: create_lock_allocation_def)
  next
    case False
    then obtain i where i: "lf_files fs (of_nat n) = Some i" using 1(2) 1(5) [of n] by auto
    then have c: "create_lock_allocation (of_nat n) fs = Err AlreadyExists" by (simp add: create_lock_allocation_def)
    have "n < 2 ^ 32" using 1(2, 3) by linarith
    moreover have "allocate_loop (n + 1) fs =
        Ok (of_nat m, fs\<lparr>lf_files := (lf_files fs)(of_nat m \<mapsto> lf_next fs), lf_next := lf_next fs + 1\<rparr>)"
      by (rule 1(1) [OF \<open>n < 2 ^ 32\<close> c]) (use 1 False in auto)
    ultimately show ?thesis using c by (subst allocate_loop.simps) simp
  qed
qed

text \<open>
  C37: Alone, \<open>allocate\<close> reserves the lowest identifier that has no lock file, whatever files exist, creates
  exactly that file, and fails only when all identifiers are taken.
\<close>

theorem allocate_lowest:
  assumes "\<exists>lid. lf_files fs lid = None"
  shows "\<exists>lid fs'. allocate fs = Ok (lid, fs') \<and> lf_files fs lid = None \<and>
    (\<forall>k < lid. lf_files fs k \<noteq> None) \<and> lf_files fs' = (lf_files fs)(lid \<mapsto> lf_next fs) \<and> lf_owner fs' = lf_owner fs"
proof -
  define m where "m = (LEAST k. lf_files fs (of_nat k) = None)"
  obtain lid where "lf_files fs lid = None" using assms by blast
  then have ex: "lf_files fs (of_nat (unat lid)) = None" by simp
  have m: "lf_files fs (of_nat m) = None" unfolding m_def using ex by (rule LeastI)
  have least: "lf_files fs (of_nat k) \<noteq> None" if "k < m" for k using not_less_Least [of k] that unfolding m_def by blast
  have "m \<le> unat lid" unfolding m_def using ex by (rule Least_le)
  then have lt: "m < 2 ^ 32" using unat_below [of lid] by simp
  have "allocate fs = Ok (of_nat m, fs\<lparr>lf_files := (lf_files fs)(of_nat m \<mapsto> lf_next fs), lf_next := lf_next fs + 1\<rparr>)"
    unfolding allocate_def by (rule allocate_loop_spec) (use lt m least in auto)
  moreover have "lf_files fs k \<noteq> None" if "k < (of_nat m :: u32)" for k
  proof -
    have "unat k < m" using that lt by (simp add: word_less_nat_alt unat_of_nat_small)
    then show ?thesis using least [of "unat k"] by simp
  qed
  ultimately show ?thesis using m by auto
qed

theorem allocate_lowest_witness:
  "\<exists>fs'. allocate (LockFs_empty\<lparr>lf_files := [0 \<mapsto> 7]\<rparr>) = Ok (1, fs')"
proof -
  have "\<exists>lid. lf_files (LockFs_empty\<lparr>lf_files := [0 \<mapsto> 7]\<rparr>) lid = None" by (rule exI [of _ 1]) simp
  from allocate_lowest [OF this] obtain lid fs' where a: "allocate (LockFs_empty\<lparr>lf_files := [0 \<mapsto> 7]\<rparr>) = Ok (lid, fs')"
    "lid \<noteq> 0" "\<forall>k < lid. k = 0" by (auto split: if_splits)
  have "lid = 1"
  proof (rule ccontr)
    assume "lid \<noteq> 1"
    then have "1 < lid" using a(2) by (simp add: word_less_nat_alt word_unat_eq_iff)
    then show False using a(3) by (metis zero_neq_one)
  qed
  then show ?thesis using a(1) by blast
qed

section \<open>Clients\<close>

text \<open>
  What a client of \<open>libvm\<close> is doing.  \<open>Resolved\<close> to \<open>Inside\<close> are the stages of \<open>lock_machine_config\<close>:
  the configuration was read, the lock file was opened, the inode was locked, and the configuration was
  read again under the lock.  \<open>Trying\<close> is the best-effort reconciliation, which does not read again.
  \<open>Removed\<close> and \<open>Freed\<close> are inside \<open>remove_machine_records\<close>, after the records and after the lock
  file are gone; \<open>Scanning\<close> and \<open>Reserved\<close> are machine creation before the commit.
\<close>

datatype pc =
    Idle
  | Scanning nat
  | Reserved u32
  | Resolved MachineId u32
  | Opened MachineId u32 nat
  | Locked MachineId u32 nat
  | Trying MachineId u32 nat
  | Inside MachineId u32 nat
  | Removed u32 nat
  | Freed nat

record LockWorld =
  lw_fs :: LockFs
  lw_locks :: "MachineId \<rightharpoonup> u32"
  lw_used :: "MachineId set"
  lw_pc :: "nat \<Rightarrow> pc"

definition held_inode :: "pc \<Rightarrow> nat option" where
  "held_inode p =
     (case p of Locked _ _ i \<Rightarrow> Some i | Trying _ _ i \<Rightarrow> Some i | Inside _ _ i \<Rightarrow> Some i
      | Removed _ i \<Rightarrow> Some i | Freed i \<Rightarrow> Some i | _ \<Rightarrow> None)"

abbreviation goto :: "LockWorld \<Rightarrow> nat \<Rightarrow> pc \<Rightarrow> LockFs \<Rightarrow> LockWorld" where
  "goto w a p fs \<equiv> w\<lparr>lw_pc := (lw_pc w)(a := p), lw_fs := fs\<rparr>"

text \<open>The guard of a client is dropped when it leaves, and by the kernel when the client dies.\<close>

definition released :: "pc \<Rightarrow> LockFs \<Rightarrow> LockFs" where
  "released p fs = (case held_inode p of Some i \<Rightarrow> drop_guard i fs | None \<Rightarrow> fs)"

text \<open>The steps of one client, and the steps of all: a client may die at every point.\<close>

inductive client_step :: "nat \<Rightarrow> LockWorld \<Rightarrow> LockWorld \<Rightarrow> bool" where
  scan_start: "lw_pc w a = Idle \<Longrightarrow> client_step a w (goto w a (Scanning 0) (lw_fs w))"
| scan_taken: "lw_pc w a = Scanning n \<Longrightarrow> n < 2 ^ 32 \<Longrightarrow>
     create_lock_allocation (of_nat n) (lw_fs w) = Err AlreadyExists \<Longrightarrow>
     client_step a w (goto w a (Scanning (n + 1)) (lw_fs w))"
| scan_exhausted: "lw_pc w a = Scanning n \<Longrightarrow> 2 ^ 32 \<le> n \<Longrightarrow> client_step a w (goto w a Idle (lw_fs w))"
| scan_create: "lw_pc w a = Scanning n \<Longrightarrow> n < 2 ^ 32 \<Longrightarrow>
     create_lock_allocation (of_nat n) (lw_fs w) = Ok fs \<Longrightarrow> client_step a w (goto w a (Reserved (of_nat n)) fs)"
| commit: "lw_pc w a = Reserved l \<Longrightarrow> m \<notin> lw_used w \<Longrightarrow>
     client_step a w ((goto w a Idle (lw_fs w))\<lparr>lw_locks := (lw_locks w)(m \<mapsto> l), lw_used := insert m (lw_used w)\<rparr>)"
| abort: "lw_pc w a = Reserved l \<Longrightarrow> client_step a w (goto w a Idle (free l (lw_fs w)))"
| resolve: "lw_pc w a = Idle \<Longrightarrow> lw_locks w m = Some l \<Longrightarrow> client_step a w (goto w a (Resolved m l) (lw_fs w))"
| open_file: "lw_pc w a = Resolved m l \<Longrightarrow> open_lock_file l (lw_fs w) = (i, fs) \<Longrightarrow> client_step a w (goto w a (Opened m l i) fs)"
| flock: "lw_pc w a = Opened m l i \<Longrightarrow> try_flock a i (lw_fs w) = Some fs \<Longrightarrow> client_step a w (goto w a (Locked m l i) fs)"
| would_block: "lw_pc w a = Opened m l i \<Longrightarrow> try_flock a i (lw_fs w) = None \<Longrightarrow> client_step a w (goto w a Idle (lw_fs w))"
| recheck: "lw_pc w a = Locked m l i \<Longrightarrow> lw_locks w m = Some l \<Longrightarrow> client_step a w (goto w a (Inside m l i) (lw_fs w))"
| recheck_failed: "lw_pc w a = Locked m l i \<Longrightarrow> lw_locks w m \<noteq> Some l \<Longrightarrow>
     client_step a w (goto w a Idle (drop_guard i (lw_fs w)))"
| best_effort: "lw_pc w a = Locked m l i \<Longrightarrow> client_step a w (goto w a (Trying m l i) (lw_fs w))"
| leave_best_effort: "lw_pc w a = Trying m l i \<Longrightarrow> client_step a w (goto w a Idle (drop_guard i (lw_fs w)))"
| leave: "lw_pc w a = Inside m l i \<Longrightarrow> client_step a w (goto w a Idle (drop_guard i (lw_fs w)))"
| remove_records: "lw_pc w a = Inside m l i \<Longrightarrow>
     client_step a w ((goto w a (Removed l i) (lw_fs w))\<lparr>lw_locks := (lw_locks w)(m := None)\<rparr>)"
| free_lock: "lw_pc w a = Removed l i \<Longrightarrow> client_step a w (goto w a (Freed i) (free l (lw_fs w)))"
| leave_freed: "lw_pc w a = Freed i \<Longrightarrow> client_step a w (goto w a Idle (drop_guard i (lw_fs w)))"

inductive lock_step :: "LockWorld \<Rightarrow> LockWorld \<Rightarrow> bool" where
  client: "client_step a w w' \<Longrightarrow> lock_step w w'"
| crash: "lock_step w (goto w a Idle (released (lw_pc w a) (lw_fs w)))"

definition LockWorld_init :: LockWorld where
  "LockWorld_init = \<lparr>lw_fs = LockFs_empty, lw_locks = Map.empty, lw_used = {}, lw_pc = (\<lambda>_. Idle)\<rparr>"

section \<open>The invariant\<close>

definition reserves :: "pc \<Rightarrow> u32 option" where
  "reserves p = (case p of Reserved l \<Rightarrow> Some l | Removed l _ \<Rightarrow> Some l | _ \<Rightarrow> None)"

text \<open>The machine a client works for, the lock it read and the inode it opened.\<close>

definition works_for :: "pc \<Rightarrow> (MachineId \<times> u32 \<times> nat option) option" where
  "works_for p =
     (case p of Resolved m l \<Rightarrow> Some (m, l, None) | Opened m l i \<Rightarrow> Some (m, l, Some i) | Locked m l i \<Rightarrow> Some (m, l, Some i)
      | Trying m l i \<Rightarrow> Some (m, l, Some i) | Inside m l i \<Rightarrow> Some (m, l, Some i) | _ \<Rightarrow> None)"

definition reserved_inv :: "LockWorld \<Rightarrow> bool" where
  "reserved_inv w \<longleftrightarrow>
     (\<forall>m l. lw_locks w m = Some l \<longrightarrow> lf_files (lw_fs w) l \<noteq> None) \<and>
     (\<forall>a l. reserves (lw_pc w a) = Some l \<longrightarrow> lf_files (lw_fs w) l \<noteq> None) \<and>
     (\<forall>m m' l. lw_locks w m = Some l \<longrightarrow> lw_locks w m' = Some l \<longrightarrow> m = m') \<and>
     (\<forall>m a l. lw_locks w m = Some l \<longrightarrow> reserves (lw_pc w a) \<noteq> Some l) \<and>
     (\<forall>a b l. reserves (lw_pc w a) = Some l \<longrightarrow> reserves (lw_pc w b) = Some l \<longrightarrow> a = b)"

definition clients_inv :: "LockWorld \<Rightarrow> bool" where
  "clients_inv w \<longleftrightarrow>
     dom (lw_locks w) \<subseteq> lw_used w \<and>
     (\<forall>a m l io. works_for (lw_pc w a) = Some (m, l, io) \<longrightarrow> m \<in> lw_used w \<and>
        (lw_locks w m = None \<or> lw_locks w m = Some l \<and> (\<forall>i. io = Some i \<longrightarrow> lf_files (lw_fs w) l = Some i))) \<and>
     (\<forall>a m l i. lw_pc w a = Inside m l i \<longrightarrow> lw_locks w m = Some l)"

definition owners_inv :: "LockWorld \<Rightarrow> bool" where
  "owners_inv w \<longleftrightarrow> (\<forall>a i. lf_owner (lw_fs w) i = Some a \<longleftrightarrow> held_inode (lw_pc w a) = Some i)"

definition inodes_inv :: "LockWorld \<Rightarrow> bool" where
  "inodes_inv w \<longleftrightarrow>
     (\<forall>l i. lf_files (lw_fs w) l = Some i \<longrightarrow> i < lf_next (lw_fs w)) \<and>
     (\<forall>l l' i. lf_files (lw_fs w) l = Some i \<longrightarrow> lf_files (lw_fs w) l' = Some i \<longrightarrow> l = l')"

lemmas pc_defs = reserves_def works_for_def held_inode_def

lemma init_invs: "reserved_inv LockWorld_init" "clients_inv LockWorld_init" "owners_inv LockWorld_init" "inodes_inv LockWorld_init"
  by (simp_all add: LockWorld_init_def LockFs_empty_def reserved_inv_def clients_inv_def owners_inv_def inodes_inv_def pc_defs)

lemma create_ok:
  "create_lock_allocation l fs = Ok fs' \<longleftrightarrow>
     lf_files fs l = None \<and> fs' = fs\<lparr>lf_files := (lf_files fs)(l \<mapsto> lf_next fs), lf_next := lf_next fs + 1\<rparr>"
  by (auto simp: create_lock_allocation_def split: option.split)

lemma open_cases:
  assumes "open_lock_file l fs = (i, fs')"
  obtains "lf_files fs l = Some i" "fs' = fs"
  | "lf_files fs l = None" "i = lf_next fs" "fs' = fs\<lparr>lf_files := (lf_files fs)(l \<mapsto> i), lf_next := i + 1\<rparr>"
  using assms by (auto simp: open_lock_file_def split: option.splits)

lemma flock_ok:
  "try_flock a i fs = Some fs' \<longleftrightarrow> lf_owner fs i = None \<and> fs' = fs\<lparr>lf_owner := (lf_owner fs)(i \<mapsto> a)\<rparr>"
  by (auto simp: try_flock_def split: option.split)

text \<open>Owners change with the client that locks or releases, and with no other.\<close>

lemma held_simps [simp]:
  "held_inode Idle = None" "held_inode (Scanning n) = None" "held_inode (Reserved l) = None" "held_inode (Resolved m l) = None"
  "held_inode (Opened m l i) = None" "held_inode (Locked m l i) = Some i" "held_inode (Trying m l i) = Some i"
  "held_inode (Inside m l i) = Some i" "held_inode (Removed l i) = Some i" "held_inode (Freed i) = Some i"
  by (simp_all add: held_inode_def)

lemma owners_same:
  assumes "owners_inv w" "lf_owner (lw_fs w') = lf_owner (lw_fs w)" "\<And>b. held_inode (lw_pc w' b) = held_inode (lw_pc w b)"
  shows "owners_inv w'"
  using assms by (simp add: owners_inv_def)

lemma owners_acquire:
  assumes "owners_inv w" "held_inode (lw_pc w a) = None" "held_inode p = Some i" "lf_owner (lw_fs w) i = None"
    "lf_owner (lw_fs w') = (lf_owner (lw_fs w))(i \<mapsto> a)" "lw_pc w' = (lw_pc w)(a := p)"
  shows "owners_inv w'"
  unfolding owners_inv_def
proof (intro allI)
  fix b j
  have "(lf_owner (lw_fs w) j = Some b) = (held_inode (lw_pc w b) = Some j)" using assms(1) by (simp add: owners_inv_def)
  then show "(lf_owner (lw_fs w') j = Some b) = (held_inode (lw_pc w' b) = Some j)"
    using assms(2-) by auto
qed

lemma owners_release:
  assumes "owners_inv w" "held_inode (lw_pc w a) = Some i" "held_inode p = None"
    "lf_owner (lw_fs w') = (lf_owner (lw_fs w))(i := None)" "lw_pc w' = (lw_pc w)(a := p)"
  shows "owners_inv w'"
  unfolding owners_inv_def
proof (intro allI)
  fix b j
  have *: "(lf_owner (lw_fs w) j = Some b) = (held_inode (lw_pc w b) = Some j)" "lf_owner (lw_fs w) i = Some a"
    using assms(1, 2) by (simp_all add: owners_inv_def)
  then show "(lf_owner (lw_fs w') j = Some b) = (held_inode (lw_pc w' b) = Some j)"
    using assms(2-) by auto
qed

lemma client_owners:
  "client_step a w w' \<Longrightarrow> owners_inv w \<Longrightarrow> owners_inv w'"
proof (induction rule: client_step.induct)
  case (open_file w a m l i fs)
  have "lf_owner fs = lf_owner (lw_fs w)" using open_file(2) by (rule open_cases) simp_all
  then show ?case using open_file by - (rule owners_same [of w]; simp)
next
  case (flock w a m l i fs)
  then show ?case by - (rule owners_acquire [of w a "Locked m l i" i]; simp add: flock_ok)
next
  case (recheck_failed w a m l i)
  then show ?case by - (rule owners_release [of w a i Idle]; simp add: drop_guard_def)
next
  case (leave_best_effort w a m l i)
  then show ?case by - (rule owners_release [of w a i Idle]; simp add: drop_guard_def)
next
  case (leave w a m l i)
  then show ?case by - (rule owners_release [of w a i Idle]; simp add: drop_guard_def)
next
  case (leave_freed w a i)
  then show ?case by - (rule owners_release [of w a i Idle]; simp add: drop_guard_def)
qed (erule owners_same; auto simp: create_ok free_def)+

lemma crash_owners:
  assumes I: "owners_inv w"
  shows "owners_inv (goto w a Idle (released (lw_pc w a) (lw_fs w)))"
proof (cases "held_inode (lw_pc w a)")
  case None
  then show ?thesis using I by - (rule owners_same [of w]; simp add: released_def)
next
  case (Some i)
  then show ?thesis using I by - (rule owners_release [of w a i Idle]; simp add: released_def drop_guard_def)
qed

lemma step_owners: "lock_step w w' \<Longrightarrow> owners_inv w \<Longrightarrow> owners_inv w'"
  by (erule lock_step.cases) (blast intro: client_owners, simp add: crash_owners)

lemma client_inodes:
  "client_step a w w' \<Longrightarrow> inodes_inv w \<Longrightarrow> inodes_inv w'"
proof (induction rule: client_step.induct)
  case (open_file w a m l i fs)
  then show ?case by (elim open_cases) (auto simp: inodes_inv_def less_Suc_eq split: if_splits)
qed (auto simp: inodes_inv_def create_ok flock_ok free_def drop_guard_def less_Suc_eq split: if_splits)

lemma crash_inodes:
  assumes I: "inodes_inv w"
  shows "inodes_inv (goto w a Idle (released (lw_pc w a) (lw_fs w)))"
  using I by (auto simp: inodes_inv_def released_def drop_guard_def split: option.split)

lemma step_inodes: "lock_step w w' \<Longrightarrow> inodes_inv w \<Longrightarrow> inodes_inv w'"
  by (erule lock_step.cases) (blast intro: client_inodes, simp add: crash_inodes)

text \<open>A lock identifier is used by one machine, by one creation or by one removal, and its file exists.\<close>

lemma reserves_simps [simp]:
  "reserves Idle = None" "reserves (Scanning n) = None" "reserves (Reserved l) = Some l" "reserves (Resolved m l) = None"
  "reserves (Opened m l i) = None" "reserves (Locked m l i) = None" "reserves (Trying m l i) = None"
  "reserves (Inside m l i) = None" "reserves (Removed l i) = Some l" "reserves (Freed i) = None"
  by (simp_all add: reserves_def)

lemma reserved_invD:
  assumes "reserved_inv w"
  shows "lw_locks w m = Some l \<Longrightarrow> lf_files (lw_fs w) l \<noteq> None"
    "reserves (lw_pc w a) = Some l \<Longrightarrow> lf_files (lw_fs w) l \<noteq> None"
    "lw_locks w m = Some l \<Longrightarrow> lw_locks w m' = Some l \<Longrightarrow> m = m'"
    "lw_locks w m = Some l \<Longrightarrow> reserves (lw_pc w a) \<noteq> Some l"
    "reserves (lw_pc w a) = Some l \<Longrightarrow> reserves (lw_pc w b) = Some l \<Longrightarrow> a = b"
  using assms unfolding reserved_inv_def by blast+

lemma reserved_less:
  assumes "reserved_inv w" "\<And>m l. lw_locks w' m = Some l \<Longrightarrow> lw_locks w m = Some l"
    "\<And>b l. reserves (lw_pc w' b) = Some l \<Longrightarrow> reserves (lw_pc w b) = Some l"
    "\<And>l. lf_files (lw_fs w) l \<noteq> None \<Longrightarrow> lf_files (lw_fs w') l \<noteq> None"
  shows "reserved_inv w'"
  unfolding reserved_inv_def
proof (intro conjI allI impI)
  note I = reserved_invD [OF assms(1)]
  show "lw_locks w' m = Some l \<Longrightarrow> lf_files (lw_fs w') l \<noteq> None" for m l using I(1) assms(2, 4) by blast
  show "reserves (lw_pc w' a) = Some l \<Longrightarrow> lf_files (lw_fs w') l \<noteq> None" for a l using I(2) assms(3, 4) by blast
  show "lw_locks w' m = Some l \<Longrightarrow> lw_locks w' m' = Some l \<Longrightarrow> m = m'" for m m' l using I(3) assms(2) by blast
  show "lw_locks w' m = Some l \<Longrightarrow> reserves (lw_pc w' a) \<noteq> Some l" for m a l using I(4) assms(2, 3) by blast
  show "reserves (lw_pc w' a) = Some l \<Longrightarrow> reserves (lw_pc w' b) = Some l \<Longrightarrow> a = b" for a b l using I(5) assms(3) by blast
qed

text \<open>The lock of a client passes to a machine, from a machine, or is freed.\<close>

lemma reserved_move:
  assumes I: "reserved_inv w" and old: "reserves (lw_pc w a) = r" and new: "lw_pc w' = (lw_pc w)(a := p)"
    and move: "\<And>m l. lw_locks w' m = Some l \<Longrightarrow> lw_locks w m = Some l \<or> (r = Some l \<and> m = mv \<and> reserves p = None)"
    "\<And>l. reserves p = Some l \<Longrightarrow> r = Some l \<or> (lw_locks w mv = Some l \<and> lw_locks w' mv = None)"
    and files: "\<And>l. lf_files (lw_fs w) l \<noteq> None \<Longrightarrow> lf_files (lw_fs w') l \<noteq> None \<or> (r = Some l \<and> reserves p = None \<and> lw_locks w' = lw_locks w)"
  shows "reserved_inv w'"
  unfolding reserved_inv_def
proof (intro conjI allI impI)
  note D = reserved_invD [OF I]
  have b: "reserves (lw_pc w' b) = Some l \<Longrightarrow> b \<noteq> a \<Longrightarrow> reserves (lw_pc w b) = Some l" for b l by (simp add: new)
  have a: "reserves (lw_pc w' a) = reserves p" by (simp add: new)
  show "lw_locks w' m = Some l \<Longrightarrow> lf_files (lw_fs w') l \<noteq> None" for m l
    using D(1) [of m l] D(2) [of a l] D(4) [of m l a] move(1) [of m l] files [of l] old by auto
  show "reserves (lw_pc w' c) = Some l \<Longrightarrow> lf_files (lw_fs w') l \<noteq> None" for c l
    using D(1) [of mv l] D(2) [of a l] D(2) [of c l] D(5) [of a l c] move(2) [of l] files [of l] old a b [of c l]
    by (cases "c = a") auto
  show "lw_locks w' m = Some l \<Longrightarrow> lw_locks w' m' = Some l \<Longrightarrow> m = m'" for m m' l
    using D(3) [of m l m'] D(4) [of m l a] D(4) [of m' l a] move(1) [of m l] move(1) [of m' l] old by auto
  show "lw_locks w' m = Some l \<Longrightarrow> reserves (lw_pc w' c) \<noteq> Some l" for m c l
    using D(4) [of m l a] D(4) [of m l c] D(3) [of m l mv] D(5) [of a l c] move(1) [of m l] move(2) [of l] old a b [of c l]
    by (cases "c = a") auto
  show "reserves (lw_pc w' c) = Some l \<Longrightarrow> reserves (lw_pc w' d) = Some l \<Longrightarrow> c = d" for c d l
    using D(5) [of c l d] D(5) [of a l c] D(5) [of a l d] D(4) [of mv l c] D(4) [of mv l d] move(2) [of l] old a b [of c l] b [of d l]
    by (cases "c = a"; cases "d = a") auto
qed

lemma works_for_simps [simp]:
  "works_for Idle = None" "works_for (Scanning n) = None" "works_for (Reserved l) = None"
  "works_for (Resolved m l) = Some (m, l, None)" "works_for (Opened m l i) = Some (m, l, Some i)"
  "works_for (Locked m l i) = Some (m, l, Some i)" "works_for (Trying m l i) = Some (m, l, Some i)"
  "works_for (Inside m l i) = Some (m, l, Some i)" "works_for (Removed l i) = None" "works_for (Freed i) = None"
  by (simp_all add: works_for_def)

lemma clients_invD:
  assumes "clients_inv w"
  shows "lw_locks w m = Some l \<Longrightarrow> m \<in> lw_used w"
    "works_for (lw_pc w a) = Some (m, l, io) \<Longrightarrow> m \<in> lw_used w"
    "works_for (lw_pc w a) = Some (m, l, io) \<Longrightarrow> lw_locks w m = None \<or> lw_locks w m = Some l"
    "works_for (lw_pc w a) = Some (m, l, Some i) \<Longrightarrow> lw_locks w m \<noteq> None \<Longrightarrow> lf_files (lw_fs w) l = Some i"
    "lw_pc w a = Inside m l i \<Longrightarrow> lw_locks w m = Some l"
  using assms unfolding clients_inv_def by (blast, blast, blast, fastforce, blast)

lemma client_reserved:
  "client_step a w w' \<Longrightarrow> reserved_inv w \<Longrightarrow> clients_inv w \<Longrightarrow> reserved_inv w'"
proof (induction rule: client_step.induct)
  case (scan_create w a n fs)
  then have f: "lf_files (lw_fs w) (of_nat n) = None" "lf_files fs = (lf_files (lw_fs w))(of_nat n \<mapsto> lf_next (lw_fs w))"
    by (auto simp: create_ok)
  have fresh: "lw_locks w m \<noteq> Some (of_nat n)" "reserves (lw_pc w b) \<noteq> Some (of_nat n)" for m b
    using reserved_invD(1, 2) [OF scan_create(4)] f(1) by blast+
  show ?case
    using scan_create(4) f fresh unfolding reserved_inv_def by (auto split: if_splits)
next
  case (commit w a l m)
  then show ?case by - (rule reserved_move [of w a "Some l" _ Idle m]; auto split: if_splits)
next
  case (abort w a l)
  then show ?case by - (rule reserved_move [of w a "Some l" _ Idle]; auto simp: free_def split: if_splits)
next
  case (free_lock w a l i)
  then show ?case by - (rule reserved_move [of w a "Some l" _ "Freed i"]; auto simp: free_def split: if_splits)
next
  case (remove_records w a m l i)
  have "lw_locks w m = Some l" by (rule clients_invD(5) [OF remove_records(3, 1)])
  then show ?case using remove_records(1, 2) by - (rule reserved_move [of w a None _ "Removed l i" m]; auto split: if_splits)
next
  case (open_file w a m l i fs)
  have "lf_files (lw_fs w) k \<noteq> None \<Longrightarrow> lf_files fs k \<noteq> None" for k using open_file(2) by (rule open_cases) simp_all
  then show ?case by (intro reserved_less [OF open_file(3)]) (use open_file in \<open>auto split: if_splits\<close>)
qed (erule reserved_less; auto simp: drop_guard_def flock_ok split: if_splits)+

lemma crash_reserved:
  assumes I: "reserved_inv w" "clients_inv w"
  shows "reserved_inv (goto w a Idle (released (lw_pc w a) (lw_fs w)))"
  by (rule reserved_less [OF I(1)]) (auto simp: released_def drop_guard_def split: if_splits option.splits)

lemma step_reserved: "lock_step w w' \<Longrightarrow> reserved_inv w \<Longrightarrow> clients_inv w \<Longrightarrow> reserved_inv w'"
  by (erule lock_step.cases) (blast intro: client_reserved, simp add: crash_reserved)

text \<open>
  While its machine exists, the lock file a client opened is the one the name still points to: the name is
  freed only by the removal of its machine, and identifiers of machines do not come back.
\<close>

lemma clients_keep:
  assumes C: "clients_inv w"
    and locks: "\<And>m l. lw_locks w' m = Some l \<Longrightarrow> lw_locks w m = Some l \<or> (m \<notin> lw_used w \<and> m \<in> lw_used w')"
    and used: "lw_used w \<subseteq> lw_used w'"
    and files: "\<And>m l i. lw_locks w' m = Some l \<Longrightarrow> lf_files (lw_fs w) l = Some i \<Longrightarrow> lf_files (lw_fs w') l = Some i"
    and pcs: "\<And>b m l io. works_for (lw_pc w' b) = Some (m, l, io) \<Longrightarrow> works_for (lw_pc w b) = Some (m, l, io) \<or>
      (m \<in> lw_used w \<and> (lw_locks w' m = None \<or> lw_locks w' m = Some l \<and> (\<forall>i. io = Some i \<longrightarrow> lf_files (lw_fs w') l = Some i)))"
    and inside: "\<And>b m l i. lw_pc w' b = Inside m l i \<Longrightarrow> lw_locks w' m = Some l"
  shows "clients_inv w'"
  unfolding clients_inv_def
proof (intro conjI allI impI)
  show "dom (lw_locks w') \<subseteq> lw_used w'" using locks clients_invD(1) [OF C] used by blast
  fix a m l io
  assume p: "works_for (lw_pc w' a) = Some (m, l, io)"
  show "m \<in> lw_used w'" using pcs [OF p] clients_invD(2) [OF C] used by blast
  show "lw_locks w' m = None \<or> lw_locks w' m = Some l \<and> (\<forall>i. io = Some i \<longrightarrow> lf_files (lw_fs w') l = Some i)"
  proof (cases "works_for (lw_pc w a) = Some (m, l, io)")
    case True
    show ?thesis
    proof (cases "lw_locks w' m")
      case (Some l')
      then have o: "lw_locks w m = Some l'" using locks clients_invD(2) [OF C True] by blast
      then have "l' = l" using clients_invD(3) [OF C True] by simp
      moreover have "lf_files (lw_fs w') l = Some i" if "io = Some i" for i
        using clients_invD(4) [OF C, of a m l i] True that o files [of m l i] Some \<open>l' = l\<close> by simp
      ultimately show ?thesis using Some by simp
    qed simp
  qed (use pcs [OF p] in blast)
qed (use inside in blast)

lemma client_clients:
  "client_step a w w' \<Longrightarrow> reserved_inv w \<Longrightarrow> clients_inv w \<Longrightarrow> owners_inv w \<Longrightarrow> clients_inv w'"
proof (induction rule: client_step.induct)
  case (scan_create w a n fs)
  note C = clients_invD(5) [OF scan_create(5)] and R = reserved_invD(1) [OF scan_create(4)]
  show ?case
    by (rule clients_keep [OF scan_create(5)]) (use scan_create(1, 3) C R in \<open>auto simp: create_ok split: if_splits\<close>)
next
  case (commit w a l m)
  note C = clients_invD [OF commit(4)]
  show ?case
    by (rule clients_keep [OF commit(4)]) (use commit(1, 2) C in \<open>auto split: if_splits\<close>)
next
  case (abort w a l)
  note C = clients_invD(5) [OF abort(3)] and R = reserved_invD(4) [OF abort(2), of _ l a]
  show ?case
    by (rule clients_keep [OF abort(3)]) (use abort(1) C R in \<open>auto simp: free_def split: if_splits\<close>)
next
  case (free_lock w a l i)
  note C = clients_invD(5) [OF free_lock(3)] and R = reserved_invD(4) [OF free_lock(2), of _ l a]
  show ?case
    by (rule clients_keep [OF free_lock(3)]) (use free_lock(1) C R in \<open>auto simp: free_def split: if_splits\<close>)
next
  case (remove_records w a m l i)
  note C = clients_invD [OF remove_records(3)]
  have "lw_pc w b \<noteq> Inside m l' i'" if "b \<noteq> a" for b l' i'
  proof
    assume b: "lw_pc w b = Inside m l' i'"
    then have "l' = l" "lf_files (lw_fs w) l = Some i" "lf_files (lw_fs w) l' = Some i'"
      using C(5) [OF b] C(5) [OF remove_records(1)] C(4) [of b m l' i'] C(4) [of a m l i] remove_records(1) by simp_all
    then have "i' = i" by simp
    then show False
      using remove_records(1, 4) b that unfolding owners_inv_def by (metis held_simps(8) option.inject)
  qed
  then show ?case
    by (intro clients_keep [OF remove_records(3)]) (use C(5) in \<open>auto split: if_splits\<close>)
next
  case (resolve w a m l)
  note C = clients_invD [OF resolve(4)]
  show ?case by (rule clients_keep [OF resolve(4)]) (use resolve(2) C in \<open>auto split: if_splits\<close>)
next
  case (open_file w a m l i fs)
  note C = clients_invD [OF open_file(4)] and R = reserved_invD(1) [OF open_file(3)]
  have f: "lf_files (lw_fs w) k = Some j \<Longrightarrow> lf_files fs k = Some j" for k j using open_file(2) by (rule open_cases) auto
  have o: "lw_locks w m = Some l \<Longrightarrow> lf_files fs l = Some i" using open_file(2) by (rule open_cases) auto
  have "lw_locks w m = None \<or> lw_locks w m = Some l" "m \<in> lw_used w"
    using C(2, 3) [of a m l None] open_file(1) by simp_all
  then show ?case
    by (intro clients_keep [OF open_file(4)]) (use f o C(5) in \<open>auto split: if_splits\<close>)
next
  case (recheck w a m l i)
  note C = clients_invD [OF recheck(4)]
  show ?case by (rule clients_keep [OF recheck(4)]) (use recheck(1, 2) C(5) in \<open>auto split: if_splits\<close>)
next
  case (flock w a m l i fs)
  note C = clients_invD [OF flock(4)]
  show ?case by (rule clients_keep [OF flock(4)]) (use flock(1, 2) C(5) in \<open>auto simp: flock_ok split: if_splits\<close>)
next
  case (best_effort w a m l i)
  note C = clients_invD [OF best_effort(3)]
  show ?case by (rule clients_keep [OF best_effort(3)]) (use best_effort(1) C(5) in \<open>auto split: if_splits\<close>)
qed ((rule clients_keep, assumption); auto simp: drop_guard_def dest: clients_invD(5) split: if_splits)+

lemma crash_clients:
  assumes I: "reserved_inv w" "clients_inv w" "owners_inv w"
  shows "clients_inv (goto w a Idle (released (lw_pc w a) (lw_fs w)))"
proof -
  have "lf_files (released (lw_pc w a) (lw_fs w)) = lf_files (lw_fs w)"
    by (simp add: released_def drop_guard_def split: option.split)
  then show ?thesis
    by (intro clients_keep [OF I(2)]) (use clients_invD(5) [OF I(2)] in \<open>auto split: if_splits\<close>)
qed

lemma step_clients: "lock_step w w' \<Longrightarrow> reserved_inv w \<Longrightarrow> clients_inv w \<Longrightarrow> owners_inv w \<Longrightarrow> clients_inv w'"
  by (erule lock_step.cases) (blast intro: client_clients, simp add: crash_clients)

section \<open>Mutual exclusion\<close>

lemma lock_reachable_invs:
  assumes "lock_step\<^sup>*\<^sup>* LockWorld_init w"
  shows "reserved_inv w \<and> clients_inv w \<and> owners_inv w \<and> inodes_inv w"
  using assms
  by (induction rule: rtranclp_induct) (simp_all add: init_invs, blast intro: step_reserved step_clients step_owners step_inodes)

text \<open>Two clients at work: one creates a machine and holds its lock, the other has opened the lock file and waits.\<close>

lemma sample_lock_run:
  "\<exists>w. lock_step\<^sup>*\<^sup>* LockWorld_init w \<and> lw_pc w 0 = Inside 7 0 0 \<and> lw_pc w 1 = Opened 7 0 0 \<and> lf_owner (lw_fs w) 0 = Some 0"
proof -
  define fs1 where "fs1 = LockFs_empty\<lparr>lf_files := [0 \<mapsto> 0], lf_next := 1\<rparr>"
  define fs2 where "fs2 = fs1\<lparr>lf_owner := [0 \<mapsto> 0]\<rparr>"
  define w1 where "w1 = goto LockWorld_init 0 (Scanning 0) LockFs_empty"
  define w2 where "w2 = goto w1 0 (Reserved 0) fs1"
  define w3 where "w3 = (goto w2 0 Idle fs1)\<lparr>lw_locks := [7 \<mapsto> 0], lw_used := {7}\<rparr>"
  define w4 where "w4 = goto w3 0 (Resolved 7 0) fs1"
  define w5 where "w5 = goto w4 0 (Opened 7 0 0) fs1"
  define w6 where "w6 = goto w5 0 (Locked 7 0 0) fs2"
  define w7 where "w7 = goto w6 0 (Inside 7 0 0) fs2"
  define w8 where "w8 = goto w7 1 (Resolved 7 0) fs2"
  define w9 where "w9 = goto w8 1 (Opened 7 0 0) fs2"
  note W = w9_def w8_def w7_def w6_def w5_def w4_def w3_def w2_def w1_def LockWorld_init_def
  have "client_step 0 LockWorld_init w1"
    using scan_start [of LockWorld_init 0] by (simp add: W)
  moreover have "client_step 0 w1 w2"
    using scan_create [of w1 0 0 fs1] by (simp add: W create_ok fs1_def LockFs_empty_def)
  moreover have "client_step 0 w2 w3" using commit [of w2 0 0 7] by (simp add: W)
  moreover have "client_step 0 w3 w4" using resolve [of w3 0 7 0] by (simp add: W)
  moreover have "client_step 0 w4 w5" using open_file [of w4 0 7 0 0 fs1] by (simp add: W open_lock_file_def fs1_def)
  moreover have "client_step 0 w5 w6" using flock [of w5 0 7 0 0 fs2] by (simp add: W flock_ok fs1_def fs2_def LockFs_empty_def)
  moreover have "client_step 0 w6 w7" using recheck [of w6 0 7 0 0] by (simp add: W)
  moreover have "client_step 1 w7 w8" using resolve [of w7 1 7 0] by (simp add: W)
  moreover have "client_step 1 w8 w9" using open_file [of w8 1 7 0 0 fs2] by (simp add: W open_lock_file_def fs1_def fs2_def)
  ultimately have "lock_step\<^sup>*\<^sup>* LockWorld_init w9" by (meson client converse_rtranclp_into_rtranclp rtranclp.rtrancl_refl)
  then show ?thesis by (intro exI [of _ w9]) (simp add: W fs2_def)
qed

text \<open>
  C3: Whatever the interleaving of creations, operations, removals and crashes, at most one client is in
  the critical section of a machine, also against a best-effort reconciliation while the machine exists.
  Machines have different locks, and the lock file of every machine exists.
\<close>

theorem machine_mutual_exclusion:
  assumes "lock_step\<^sup>*\<^sup>* LockWorld_init w" "lw_pc w a = Inside m l i"
    "lw_pc w b = Inside m l' i' \<or> lw_pc w b = Trying m l' i'"
  shows "a = b \<and> lf_files (lw_fs w) l = Some i \<and> (\<forall>m'. lw_locks w m' = Some l \<longrightarrow> m' = m)"
proof -
  have I: "reserved_inv w" "clients_inv w" "owners_inv w" using lock_reachable_invs [OF assms(1)] by blast+
  note C = clients_invD [OF I(2)]
  have l: "lw_locks w m = Some l" by (rule C(5) [OF assms(2)])
  have wb: "works_for (lw_pc w b) = Some (m, l', Some i')" "held_inode (lw_pc w b) = Some i'" using assms(3) by auto
  have "l' = l" "lf_files (lw_fs w) l = Some i" "lf_files (lw_fs w) l' = Some i'"
    using C(3) [OF wb(1)] C(4) [OF wb(1)] C(4) [of a m l i] assms(2) l by auto
  then have "i' = i" by simp
  moreover have "held_inode (lw_pc w a) = Some i" using assms(2) by simp
  ultimately have "a = b" using wb(2) I(3) unfolding owners_inv_def by (metis option.inject)
  moreover have "m' = m" if "lw_locks w m' = Some l" for m' using reserved_invD(3) [OF I(1) that l] .
  ultimately show ?thesis using \<open>lf_files (lw_fs w) l = Some i\<close> by blast
qed

theorem machine_mutual_exclusion_witness:
  "\<exists>w. lock_step\<^sup>*\<^sup>* LockWorld_init w \<and> lw_pc w 0 = Inside 7 0 0 \<and> lf_files (lw_fs w) 0 = Some 0 \<and>
     (\<forall>b. lw_pc w b = Inside 7 0 0 \<longrightarrow> b = 0)"
proof -
  obtain w where w: "lock_step\<^sup>*\<^sup>* LockWorld_init w" "lw_pc w 0 = Inside 7 0 0" using sample_lock_run by blast
  show ?thesis
    using machine_mutual_exclusion [OF w(1, 2), of 0 0 0] machine_mutual_exclusion [OF w(1, 2)] w by blast
qed

section \<open>Handing a lock over\<close>












end
