(* ===== verification/Agent_Spec.thy ===== *)
theory Agent_Spec
  imports Rust_Text
begin

text \<open>
  The configuration that the host passes to the guest agent (\<open>specs/agent-spec/src/lib.rs\<close>).  The wrappers
  with one field, \<open>ResizeRootfsConfig\<close>, \<open>NetworkConfig\<close> and \<open>AgentUdsForwardConfig\<close>, are their field.
\<close>

record AgentForwardConfig =
  af_enabled :: bool
  af_port :: u32
  af_uds :: "string list"

record UserConfig =
  us_name :: string
  us_uid :: u32
  us_gecos :: string
  us_home :: string
  us_shell :: string
  us_sudo :: string
  us_lock_passwd :: bool
  us_ssh_authorized_keys :: "string list"

record CertificateAuthorityConfig =
  ca_path :: string
  ca_pem :: string
  ca_update_trust :: bool

record NetworkMatchConfig =
  nm_driver :: "string option"
  nm_mac_address :: "string option"

record NetworkInterfaceConfig =
  nf_name :: string
  nf_matches :: NetworkMatchConfig
  nf_dhcp4 :: bool
  nf_dhcp6 :: bool

record AgentRosettaConfig =
  ar_enabled :: bool
  ar_mount_tag :: string
  ar_mount_path :: string

record MountConfig =
  mo_tag :: string
  mo_path :: string
  mo_fstype :: string
  mo_options :: "string list"

datatype UserdataContentType = ShellScript | CloudConfig | PlainText
datatype UserdataRunPolicy = RunOnce | RunAlways

record UserdataConfig =
  ud_content :: string
  ud_content_type :: UserdataContentType
  ud_run :: UserdataRunPolicy

record ProvisionConfig =
  pv_enabled :: bool
  pv_hostname :: "string option"
  pv_timezone :: "string option"
  pv_locale :: "string option"
  pv_resize_rootfs :: bool
  pv_users :: "UserConfig list"
  pv_certificate_authority :: "CertificateAuthorityConfig option"
  pv_interfaces :: "NetworkInterfaceConfig list"
  pv_rosetta :: AgentRosettaConfig
  pv_mounts :: "MountConfig list"
  pv_userdata :: "UserdataConfig option"

record AgentConfig =
  ag_forward :: AgentForwardConfig
  ag_provision :: ProvisionConfig

definition AgentForwardConfig_default :: AgentForwardConfig where
  "AgentForwardConfig_default = \<lparr>af_enabled = False, af_port = 0, af_uds = []\<rparr>"

definition AgentRosettaConfig_default :: AgentRosettaConfig where
  "AgentRosettaConfig_default =
     \<lparr>ar_enabled = False, ar_mount_tag = ''bento-rosetta'', ar_mount_path = ''/mnt/bento-rosetta''\<rparr>"

end
