(* ===== verification/Vm_World.thy ===== *)
theory Vm_World
  imports Vm_Store Vm_Locks Rust_Effect Agent_Spec
begin

text \<open>
  The host that \<open>libvm\<close> acts on, as one record: the state database, the lock directory, the clock, the
  process table, the signals sent so far, and the files the runtime reads and writes.  An operation of
  the runtime is an action on it.

  Every database statement and every file operation may fail: \<open>w_faults\<close> tells, call by call, which ones
  do, and the theorems hold for every list.  What other programs do is in \<open>Env\<close>: the platform, the
  \<open>uuid\<close> crate, random identifiers, and what starting or asking a monitor does.
\<close>

datatype Signal = SIGINT | SIGKILL | SIGTERM

datatype VmmonExitOutcome = ExitClean | ExitError

record VmmonExitStatus =
  es_run_id :: "string option"
  es_pid :: "int option"
  es_exited_at :: int
  es_outcome :: VmmonExitOutcome
  es_error :: "msg option"

datatype NetLink = LinkTo string | LinkDir

record World =
  w_store :: Store
  w_locks :: LockFs
  w_now :: int
  w_drawn :: nat
  w_procs :: "int \<rightharpoonup> int option"
  w_signals :: "(int \<times> Signal) list"
  w_pid_files :: "MachineId \<rightharpoonup> string \<times> int"
  w_exit_files :: "MachineId \<rightharpoonup> VmmonExitStatus option"
  w_net_links :: "MachineId \<rightharpoonup> NetLink"
  w_dirs :: "string set"
  w_disks :: "string \<rightharpoonup> u64"
  w_specs :: "string \<rightharpoonup> VmSpec"
  w_agent_configs :: "string \<rightharpoonup> AgentConfig"
  w_faults :: "bool list"

type_synonym 'a vm = "(World, LibVmError, 'a) act"

text \<open>
  What other programs change on the host while the runtime starts a monitor or waits: the processes, the
  files that the monitor of a machine writes, and the time; and whether a deadline passes meanwhile.
\<close>

record HostChange =
  ch_procs :: "int \<rightharpoonup> int option"
  ch_pid_file :: "(string \<times> int) option"
  ch_exit_file :: "VmmonExitStatus option option"
  ch_elapsed :: nat
  ch_deadline :: bool

definition apply_change :: "MachineId \<Rightarrow> HostChange \<Rightarrow> World \<Rightarrow> World" where
  "apply_change mid ch w =
     w\<lparr>w_procs := ch_procs ch, w_pid_files := (w_pid_files w)(mid := ch_pid_file ch),
       w_exit_files := (w_exit_files w)(mid := ch_exit_file ch), w_now := w_now w + int (ch_elapsed ch)\<rparr>"

text \<open>
  How the start of a monitor ends: the program is not found or fails to daemonize, its report does not
  arrive in time, or what it writes to its pipe.
\<close>

datatype SpawnOutcome = SpawnError LibVmError | NoReport | Reported string

record InspectResponse =
  in_vm_state :: int
  in_guest_state :: int
  in_ready :: bool
  in_summary :: string

text \<open>
  The environment: the \<open>uuid\<close> crate; \<open>e_linux\<close> is the Linux build, whose process identities carry no
  birth time; the n-th random identifier; starting a monitor with its arguments; what happens while the
  runtime sleeps before it looks again; and the answer of a running monitor.
\<close>

record Env =
  e_uuid :: "string \<Rightarrow> MachineId option"
  e_linux :: bool
  e_random :: "nat \<Rightarrow> MachineId"
  e_spawn :: "string list \<Rightarrow> World \<Rightarrow> SpawnOutcome \<times> HostChange"
  e_poll :: "World \<Rightarrow> HostChange"
  e_inspect :: "MachineId \<Rightarrow> World \<Rightarrow> msg + InspectResponse"

definition draw_random :: "Env \<Rightarrow> World \<Rightarrow> (World \<times> MachineId) option" where
  "draw_random env w = Some (w\<lparr>w_drawn := Suc (w_drawn w)\<rparr>, e_random env (w_drawn w))"

text \<open>The text of a UUID with hyphens, as its \<open>Display\<close> prints it.\<close>

definition uuid_hyphenated :: "MachineId \<Rightarrow> string" where
  "uuid_hyphenated u =
     (let s = hex_lower 32 u in
      take 8 s @ ''-'' @ take 4 (drop 8 s) @ ''-'' @ take 4 (drop 12 s) @ ''-'' @ take 4 (drop 16 s) @ ''-'' @ drop 20 s)"

section \<open>Calls that may fail\<close>

definition may_fail :: "LibVmError \<Rightarrow> unit vm" where
  "may_fail e w =
     (case w_faults w of
        [] \<Rightarrow> Some (Ok (), w)
      | b # bs \<Rightarrow> Some (if b then Err e else Ok (), w\<lparr>w_faults := bs\<rparr>))"

definition db_read :: "(Store \<Rightarrow> LibVmError + 'a) \<Rightarrow> 'a vm" where
  "db_read f =
     act_seq (may_fail (Database (msg ''database unavailable'')))
       (act_bind (act_gets w_store) (\<lambda>s. act_result (f s)))"

definition db_write :: "(Store \<Rightarrow> LibVmError + Store) \<Rightarrow> unit vm" where
  "db_write f =
     act_seq (may_fail (Database (msg ''database unavailable'')))
       (act_bind (act_gets w_store) (\<lambda>s. act_bind (act_result (f s)) (\<lambda>s'. act_modify (\<lambda>w. w\<lparr>w_store := s'\<rparr>))))"

definition io :: "(World \<Rightarrow> World) \<Rightarrow> unit vm" where
  "io f = act_seq (may_fail (Io (msg ''input/output error''))) (act_modify f)"

definition io_get :: "(World \<Rightarrow> 'a) \<Rightarrow> 'a vm" where
  "io_get f = act_seq (may_fail (Io (msg ''input/output error''))) (act_gets f)"

text \<open>\<open>let _ = ...\<close>: the call runs and its error is dropped.\<close>

definition ignore :: "'a vm \<Rightarrow> unit vm" where
  "ignore m w = map_option (\<lambda>(_, w'). (Ok (), w')) (m w)"

lemma act_wp_may_fail:
  "act_wp (may_fail e) Q E w =
     (case w_faults w of [] \<Rightarrow> Q () w | b # bs \<Rightarrow> if b then E e (w\<lparr>w_faults := bs\<rparr>) else Q () (w\<lparr>w_faults := bs\<rparr>))"
  by (simp add: act_wp_def may_fail_def split: list.split)

lemma act_wp_ignore [wp]: "act_wp (ignore m) Q E w = act_wp m (\<lambda>_. Q ()) (\<lambda>_. Q ()) w"
  by (auto simp: act_wp_def ignore_def split: option.splits prod.splits sum.splits)

text \<open>
  Rules for the calls: the condition must hold after the call and after its failure, whatever is left of
  the faults; without faults to come there are none afterwards, and only the call itself can fail.
\<close>

lemma may_fail_wp:
  assumes "\<And>bs. (w_faults w = [] \<Longrightarrow> bs = []) \<Longrightarrow> Q () (w\<lparr>w_faults := bs\<rparr>)"
    "\<And>bs. w_faults w \<noteq> [] \<Longrightarrow> E e (w\<lparr>w_faults := bs\<rparr>)"
  shows "act_wp (may_fail e) Q E w"
  using assms(1) [of "w_faults w"] assms by (auto simp: act_wp_may_fail split: list.split)

lemma db_read_wp:
  assumes "\<And>bs x. (w_faults w = [] \<Longrightarrow> bs = []) \<Longrightarrow> f (w_store w) = Ok x \<Longrightarrow> Q x (w\<lparr>w_faults := bs\<rparr>)"
    "\<And>bs e. (w_faults w = [] \<Longrightarrow> bs = []) \<Longrightarrow>
      f (w_store w) = Err e \<or> e = Database (msg ''database unavailable'') \<and> w_faults w \<noteq> [] \<Longrightarrow> E e (w\<lparr>w_faults := bs\<rparr>)"
  shows "act_wp (db_read f) Q E w"
  unfolding db_read_def act_wp_simps(5)
  by (rule may_fail_wp) (use assms in \<open>auto simp: wp split: sum.split\<close>)

lemma db_write_wp:
  assumes "\<And>bs s'. (w_faults w = [] \<Longrightarrow> bs = []) \<Longrightarrow> f (w_store w) = Ok s' \<Longrightarrow> Q () (w\<lparr>w_faults := bs, w_store := s'\<rparr>)"
    "\<And>bs e. (w_faults w = [] \<Longrightarrow> bs = []) \<Longrightarrow>
      f (w_store w) = Err e \<or> e = Database (msg ''database unavailable'') \<and> w_faults w \<noteq> [] \<Longrightarrow> E e (w\<lparr>w_faults := bs\<rparr>)"
  shows "act_wp (db_write f) Q E w"
  unfolding db_write_def act_wp_simps(5)
  by (rule may_fail_wp) (use assms in \<open>auto simp: wp split: sum.split\<close>)

lemma io_wp:
  assumes "\<And>bs. (w_faults w = [] \<Longrightarrow> bs = []) \<Longrightarrow> Q () (f (w\<lparr>w_faults := bs\<rparr>))"
    "\<And>bs. w_faults w \<noteq> [] \<Longrightarrow> E (Io (msg ''input/output error'')) (w\<lparr>w_faults := bs\<rparr>)"
  shows "act_wp (io f) Q E w"
  unfolding io_def act_wp_simps(5) by (rule may_fail_wp) (use assms in \<open>auto simp: wp\<close>)

lemma io_get_wp:
  assumes "\<And>bs. (w_faults w = [] \<Longrightarrow> bs = []) \<Longrightarrow> Q (f (w\<lparr>w_faults := bs\<rparr>)) (w\<lparr>w_faults := bs\<rparr>)"
    "\<And>bs. w_faults w \<noteq> [] \<Longrightarrow> E (Io (msg ''input/output error'')) (w\<lparr>w_faults := bs\<rparr>)"
  shows "act_wp (io_get f) Q E w"
  unfolding io_get_def act_wp_simps(5) by (rule may_fail_wp) (use assms in \<open>auto simp: wp\<close>)

text \<open>Conditions that survive the use of one entry of the faults to come.\<close>

definition fault_free :: "(World \<Rightarrow> bool) \<Rightarrow> bool" where
  "fault_free I \<longleftrightarrow> (\<forall>w. I w \<longrightarrow> I (w\<lparr>w_faults := tl (w_faults w)\<rparr>))"

lemma keeps_may_fail [keep]:
  assumes "fault_free I"
  shows "keeps I (may_fail e)"
proof (rule keepsI)
  fix w assume "I w"
  with assms have "I (w\<lparr>w_faults := tl (w_faults w)\<rparr>)" by (simp add: fault_free_def)
  with \<open>I w\<close> show "act_wp (may_fail e) (\<lambda>_. I) (\<lambda>_. I) w" by (auto simp: act_wp_may_fail split: list.split)
qed

lemma keeps_db_read [keep]: "fault_free I \<Longrightarrow> keeps I (db_read f)"
  unfolding db_read_def by (intro keeps_seq keeps_bind keeps_may_fail keeps_simple)

lemma keeps_db_write [keep]:
  assumes "fault_free I" "\<And>w s'. I w \<Longrightarrow> f (w_store w) = Ok s' \<Longrightarrow> I (w\<lparr>w_store := s'\<rparr>)"
  shows "keeps I (db_write f)"
  unfolding db_write_def
  by (rule keeps_seq [OF keeps_may_fail [OF assms(1)]], rule keepsI) (use assms(2) in \<open>auto simp: wp split: sum.split\<close>)

lemma keeps_io [keep]: "fault_free I \<Longrightarrow> (\<And>w. I w \<Longrightarrow> I (f w)) \<Longrightarrow> keeps I (io f)"
  unfolding io_def by (intro keeps_seq keeps_may_fail keeps_modify)

lemma keeps_io_get [keep]: "fault_free I \<Longrightarrow> keeps I (io_get f)"
  unfolding io_get_def by (intro keeps_seq keeps_may_fail keeps_simple)

lemma keeps_ignore [keep]: "keeps I m \<Longrightarrow> keeps I (ignore m)"
  by (rule keepsI) (auto simp: wp intro: keeps_wp)

section \<open>Processes\<close>

record ProcessIdentity =
  pi_pid :: int
  pi_started_at :: "int option"

definition for_pid :: "Env \<Rightarrow> int \<Rightarrow> World \<Rightarrow> ProcessIdentity option" where
  "for_pid env pid w =
     (if pid \<le> 0 then None
      else case w_procs w pid of
        None \<Rightarrow> None
      | Some birth \<Rightarrow> Some \<lparr>pi_pid = pid, pi_started_at = (if e_linux env then None else birth)\<rparr>)"

definition matches_started_at :: "Env \<Rightarrow> ProcessIdentity \<Rightarrow> int option \<Rightarrow> bool" where
  "matches_started_at env identity expected \<longleftrightarrow>
     e_linux env \<or> expected = None \<or> pi_started_at identity = expected"

definition interrupt_monitor :: "int \<Rightarrow> bool vm" where
  "interrupt_monitor pid =
     act_seq (may_fail (Io (msg ''kill'')))
       (act_bind (act_gets (\<lambda>w. w_procs w pid \<noteq> None)) (\<lambda>alive.
         act_seq (act_when alive (act_modify (\<lambda>w. w\<lparr>w_signals := w_signals w @ [(pid, SIGINT)]\<rparr>)))
           (act_return alive)))"

definition kill_monitor_process_group :: "int \<Rightarrow> bool vm" where
  "kill_monitor_process_group pid =
     (if pid \<le> 0 then act_return False
      else
        act_seq (may_fail (Io (msg ''kill'')))
          (act_bind (act_gets (\<lambda>w. w_procs w pid \<noteq> None)) (\<lambda>alive.
            act_seq (act_when alive (act_modify (\<lambda>w. w\<lparr>w_signals := w_signals w @ [(- pid, SIGKILL)]\<rparr>)))
              (act_return alive))))"

section \<open>Monitor files\<close>

text \<open>\<open>parse::<i32>\<close>.\<close>

definition parse_i32 :: "string \<Rightarrow> int option" where
  "parse_i32 s =
     (let (neg, ds) = (case s of c # cs \<Rightarrow> if c = CHR ''-'' then (True, cs) else if c = CHR ''+'' then (False, cs) else (False, s)
                       | [] \<Rightarrow> (False, []));
          v = (if neg then - digits_value ds else digits_value ds) in
      if ds \<noteq> [] \<and> list_all is_digit ds \<and> - (2 ^ 31) \<le> v \<and> v < 2 ^ 31 then Some v else None)"

definition read_monitor_pid :: "MachineId \<Rightarrow> World \<Rightarrow> IoErrorKind + int" where
  "read_monitor_pid mid w =
     (case w_pid_files w mid of
        None \<Rightarrow> Err NotFound
      | Some (raw, _) \<Rightarrow>
          (case parse_i32 (trim raw) of
             None \<Rightarrow> Err OtherIo
           | Some pid \<Rightarrow> if pid \<le> 0 then Err OtherIo else Ok pid))"

definition pid_file_mtime :: "MachineId \<Rightarrow> World \<Rightarrow> int" where
  "pid_file_mtime mid w = (case w_pid_files w mid of Some (_, mtime) \<Rightarrow> mtime | None \<Rightarrow> 0)"

definition exit_status_read :: "MachineId \<Rightarrow> World \<Rightarrow> LibVmError + VmmonExitStatus option" where
  "exit_status_read mid w =
     (case w_exit_files w mid of
        None \<Rightarrow> Ok None
      | Some None \<Rightarrow> Err (Io (msg ''parse vmmon exit status''))
      | Some (Some status) \<Rightarrow> Ok (Some status))"

end
