(* ===== verification/Vm_Network.thy ===== *)
theory Vm_Network
  imports Vm_World Utils
begin

text \<open>
  Network attachments of machines (\<open>runtime/libvm/src/network\<close>): policy references, MAC addresses,
  reconciling an attachment with the helper process behind it, and preparing the network of a machine
  that is about to start, with the drivers \<open>netd\<close> and \<open>vznat\<close> and the rollback of a failed start of the
  helper.  What the helper process does is a parameter (\<open>NetEnv\<close>).
\<close>

section \<open>Paths\<close>

record LocalRoots =
  lr_data_root :: string
  lr_run_root :: string
  lr_image_root :: string

definition machines_dir :: "LocalRoots \<Rightarrow> string" where
  "machines_dir roots = path_push (lr_data_root roots) ''machines''"

definition net_dir :: "LocalRoots \<Rightarrow> string" where
  "net_dir roots = path_push (lr_run_root roots) ''net''"

definition machine_path :: "LocalRoots \<Rightarrow> MachineId \<Rightarrow> string" where
  "machine_path roots mid = path_push (machines_dir roots) (MachineId_to_string mid)"

definition secret_store_path :: "LocalRoots \<Rightarrow> string" where
  "secret_store_path roots = path_push (lr_data_root roots) ''secrets.json''"

definition network_path :: "LocalRoots \<Rightarrow> string \<Rightarrow> string" where
  "network_path roots network_id = path_push (net_dir roots) network_id"

section \<open>Configuration\<close>

datatype NetworkDriverKind = DriverNetd | DriverVzNat

record NetdRuntimeConfig =
  nr_subnet :: string
  nr_pcap :: bool
  nr_tls_ca_cert :: "string option"
  nr_tls_ca_key :: "string option"

record RuntimeNetworkingConfig =
  rn_private_driver :: NetworkDriverKind
  rn_policy_config_dir :: "string option"
  rn_netd :: NetdRuntimeConfig

text \<open>
  Starting the helper with its arguments: \<open>None\<close> when the program cannot be spawned, and otherwise its
  process and whether its socket appeared in time, with the reason and its standard error if it did not,
  and the processes afterwards.
  \<open>ne_record\<close> decodes a JSON line of it.  \<open>ne_authority\<close> is the certificate authority of the host.
\<close>

record NetdStartupErrorRecord =
  er_message :: string
  er_detail :: string
  er_file :: "string option"
  er_line :: "u32 option"
  er_column :: "u32 option"

record NetEnv =
  ne_spawn :: "string list \<Rightarrow> World \<Rightarrow> (int \<times> (string \<times> string list) option) option \<times> (int \<rightharpoonup> int option)"
  ne_record :: "string \<Rightarrow> NetdStartupErrorRecord option"
  ne_authority :: "LibVmError + string \<times> string"

section \<open>Policy references\<close>

definition file_name :: "string \<Rightarrow> string option" where
  "file_name path =
     (let cs = components path in
      if cs = [] \<or> last cs \<in> {''/'', ''..'', ''.''} then None else Some (last cs))"

definition extension :: "string \<Rightarrow> string option" where
  "extension path =
     (case file_name path of
        None \<Rightarrow> None
      | Some name \<Rightarrow>
          (case rfind (CHR ''.'') name of
             None \<Rightarrow> None
           | Some i \<Rightarrow> if i = 0 then None else Some (drop (Suc i) name)))"

definition validate_absolute_policy_path :: "string \<Rightarrow> msg + unit" where
  "validate_absolute_policy_path path =
     (if extension path \<noteq> Some ''hcl'' then Err (''network policy path must point to a .hcl file: {}'', [path]) else Ok ())"

definition validate_policy_name :: "string \<Rightarrow> msg + unit" where
  "validate_policy_name value =
     (if trim value = [] then Err (msg ''network policy_ref cannot be empty'')
      else if CHR ''/'' \<in> set value \<or> CHR 0x5C \<in> set value then
        Err (''relative network policy paths are not supported: {}'', [value])
      else if value \<in> {''.'', ''..''} then Err (''invalid network policy name {}'', [value])
      else Ok ())"

definition NetworkPolicyRef_new :: "string \<Rightarrow> msg + string" where
  "NetworkPolicyRef_new value =
     bind_result (if starts_with value ''/'' then validate_absolute_policy_path value else validate_policy_name value)
       (\<lambda>_. Ok value)"

definition NetworkPolicyRef_resolve :: "string \<Rightarrow> string option \<Rightarrow> msg + string" where
  "NetworkPolicyRef_resolve value config_dir =
     (if starts_with value ''/'' then bind_result (validate_absolute_policy_path value) (\<lambda>_. Ok value)
      else
        bind_result (validate_policy_name value) (\<lambda>_.
          case config_dir of
            None \<Rightarrow> Err (''could not resolve named network policy {} because HOME is unavailable'', [value])
          | Some dir \<Rightarrow> Ok (path_push (path_push dir ''policies'') (value @ ''.hcl''))))"

section \<open>MAC addresses\<close>

definition hex_nibble :: "u8 \<Rightarrow> u8 option" where
  "hex_nibble v =
     (if 0x30 \<le> v \<and> v \<le> 0x39 then Some (v - 0x30)
      else if 0x61 \<le> v \<and> v \<le> 0x66 then Some (v - 0x61 + 10)
      else if 0x41 \<le> v \<and> v \<le> 0x46 then Some (v - 0x41 + 10)
      else None)"

definition hex_byte :: "u8 option \<Rightarrow> u8 option \<Rightarrow> u8" where
  "hex_byte high low =
     (let h = (case high of None \<Rightarrow> 0 | Some v \<Rightarrow> case hex_nibble v of Some n \<Rightarrow> n | None \<Rightarrow> 0);
          l = (case low of None \<Rightarrow> 0 | Some v \<Rightarrow> case hex_nibble v of Some n \<Rightarrow> n | None \<Rightarrow> 0)
      in push_bit 4 h OR l)"

definition mac_from_machine_id :: "MachineId \<Rightarrow> u8 list" where
  "mac_from_machine_id mid =
     (let bytes = str_bytes (MachineId_to_string mid);
          byte = (\<lambda>i. if i < length bytes then Some (bytes ! i) else None) in
      0x02 # map (\<lambda>index. let offset = (index - 1) * 2 in hex_byte (byte offset) (byte (offset + 1))) [1..<6])"

section \<open>Links, helpers and runtime directories\<close>

definition remove_instance_network_link :: "MachineId \<Rightarrow> unit vm" where
  "remove_instance_network_link mid =
     act_bind (io_get (\<lambda>w. w_net_links w mid)) (\<lambda>metadata.
       case metadata of
         None \<Rightarrow> act_return ()
       | Some _ \<Rightarrow> io (\<lambda>w. w\<lparr>w_net_links := (w_net_links w)(mid := None)\<rparr>))"

definition ensure_instance_network_link :: "MachineId \<Rightarrow> string \<Rightarrow> unit vm" where
  "ensure_instance_network_link mid runtime_dir =
     act_seq (remove_instance_network_link mid)
       (io (\<lambda>w. w\<lparr>w_net_links := (w_net_links w)(mid \<mapsto> LinkTo runtime_dir)\<rparr>))"

definition remove_runtime_dir :: "string \<Rightarrow> unit vm" where
  "remove_runtime_dir path = io (\<lambda>w. w\<lparr>w_dirs := w_dirs w - {path}\<rparr>)"

definition process_is_alive :: "int \<Rightarrow> World \<Rightarrow> bool" where
  "process_is_alive pid w \<longleftrightarrow> w_procs w pid \<noteq> None"

definition terminate_helper :: "int \<Rightarrow> unit vm" where
  "terminate_helper pid =
     act_bind (act_gets (process_is_alive pid)) (\<lambda>alive.
       if pid \<le> 0 \<or> \<not> alive then act_return ()
       else act_modify (\<lambda>w. w\<lparr>w_signals := w_signals w @ [(- pid, SIGTERM)]\<rparr>))"

definition network_instance_is_alive :: "NetworkInstance \<Rightarrow> World \<Rightarrow> bool" where
  "network_instance_is_alive inst w \<longleftrightarrow>
     ni_driver inst = ''netd'' \<and> process_is_alive (nd_helper_pid (ni_driver_state_json inst)) w"

definition terminate_network_instance :: "NetworkInstance \<Rightarrow> unit vm" where
  "terminate_network_instance inst =
     act_when (ni_driver inst = ''netd'') (terminate_helper (nd_helper_pid (ni_driver_state_json inst)))"

section \<open>Reconciling\<close>

text \<open>The last machine that leaves an instance ends it.\<close>

definition release_instance :: "NetworkInstance \<Rightarrow> unit vm" where
  "release_instance inst =
     act_bind (db_read (network_attachment_count (ni_id inst))) (\<lambda>count.
       act_when (count = 0)
         (act_seq (terminate_network_instance inst)
           (act_seq (db_write (\<lambda>s. Ok (remove_network_instance (ni_id inst) s)))
             (remove_runtime_dir (ni_runtime_dir inst)))))"

definition reconcile_network_runtime :: "Env \<Rightarrow> MachineConfig \<Rightarrow> bool \<Rightarrow> unit vm" where
  "reconcile_network_runtime env metadata monitor_running =
     act_bind (db_read (network_attachment (e_uuid env) (mc_id metadata))) (\<lambda>attachment.
     case attachment of
       None \<Rightarrow> act_return ()
     | Some a \<Rightarrow>
         act_bind (db_read (\<lambda>s. Ok (network_instance (na_network_instance_id a) s))) (\<lambda>found.
         case found of
           None \<Rightarrow>
             act_seq (remove_instance_network_link (mc_id metadata))
               (db_write (\<lambda>s. Ok (detach_network (mc_id metadata) s)))
         | Some inst \<Rightarrow>
             act_bind (act_gets (network_instance_is_alive inst)) (\<lambda>alive.
             if monitor_running \<and> alive then ensure_instance_network_link (mc_id metadata) (ni_runtime_dir inst)
             else
               act_seq (db_write (\<lambda>s. Ok (detach_network (mc_id metadata) s)))
                 (act_seq (remove_instance_network_link (mc_id metadata)) (release_instance inst)))))"

definition remove_attached_network :: "Env \<Rightarrow> MachineId \<Rightarrow> unit vm" where
  "remove_attached_network env mid =
     act_bind (db_read (network_attachment (e_uuid env) mid)) (\<lambda>attachment.
     case attachment of
       None \<Rightarrow> remove_instance_network_link mid
     | Some a \<Rightarrow>
         act_bind (db_read (\<lambda>s. Ok (network_instance (na_network_instance_id a) s))) (\<lambda>found.
         act_seq (db_write (\<lambda>s. Ok (detach_network mid s)))
           (act_seq (remove_instance_network_link mid)
             (case found of None \<Rightarrow> act_return () | Some inst \<Rightarrow> release_instance inst))))"

section \<open>Preparing a network\<close>

datatype NetworkAttachmentTarget = TargetPrivate "string option" | TargetNamed string

definition request_policy_ref :: "NetworkAttachmentTarget \<Rightarrow> string option" where
  "request_policy_ref t = (case t of TargetPrivate p \<Rightarrow> p | TargetNamed _ \<Rightarrow> None)"

definition request_definition_name :: "NetworkAttachmentTarget \<Rightarrow> string option" where
  "request_definition_name t = (case t of TargetPrivate _ \<Rightarrow> None | TargetNamed n \<Rightarrow> Some n)"

definition driver_supports :: "NetworkDriverKind \<Rightarrow> string \<Rightarrow> NetworkAttachmentTarget \<Rightarrow> LibVmError + unit" where
  "driver_supports driver reference request =
     (case driver of
        DriverNetd \<Rightarrow> Ok ()
      | DriverVzNat \<Rightarrow>
          if request_policy_ref request \<noteq> None
          then Err (NetworkRuntime reference (msg ''vznat does not support network policy_ref'')) else Ok ())"

definition network_attachment_from_instance :: "NetworkInstance \<Rightarrow> string \<Rightarrow> VmmonNetworkAttachment" where
  "network_attachment_from_instance inst mac =
     (case ni_attachment_json inst of AttUnixDatagram path _ \<Rightarrow> AttUnixDatagram path mac | a \<Rightarrow> a)"

definition attach_existing_runtime :: "MachineConfig \<Rightarrow> NetworkInstance \<Rightarrow> VmmonNetworkAttachment vm" where
  "attach_existing_runtime metadata inst =
     act_seq (ensure_instance_network_link (mc_id metadata) (ni_runtime_dir inst))
       (act_bind (act_gets w_now) (\<lambda>now.
         let mac = format_mac (mac_from_machine_id (mc_id metadata)) in
         act_seq
           (db_write (attach_network
             \<lparr>na_machine_id = mc_id metadata, na_network_instance_id = ni_id inst, na_guest_mac = mac,
              na_created_at = now, na_modified_at = now\<rparr>))
           (act_return (network_attachment_from_instance inst mac))))"

text \<open>
  The guard of a helper that is being started: unless it is committed, dropping it stops the helper and
  removes the link and the directory.  Stopping waits for the process, which is gone afterwards.
\<close>

definition stop_helper :: "int option \<Rightarrow> unit vm" where
  "stop_helper child =
     (case child of
        None \<Rightarrow> act_return ()
      | Some pid \<Rightarrow>
          act_seq (terminate_helper pid)
            (act_seq
              (act_bind (act_gets (process_is_alive pid)) (\<lambda>alive.
                act_when alive (act_modify (\<lambda>w. w\<lparr>w_signals := w_signals w @ [(pid, SIGKILL)]\<rparr>))))
              (act_modify (\<lambda>w. w\<lparr>w_procs := (w_procs w)(pid := None)\<rparr>))))"

definition rollback_files :: "MachineId \<Rightarrow> string \<Rightarrow> unit vm" where
  "rollback_files mid runtime_dir =
     act_seq (ignore (remove_instance_network_link mid)) (ignore (remove_runtime_dir runtime_dir))"

definition with_startup_guard :: "MachineId \<Rightarrow> string \<Rightarrow> int option \<Rightarrow> 'a vm \<Rightarrow> 'a vm" where
  "with_startup_guard mid runtime_dir child body =
     act_catch body (\<lambda>e. act_seq (stop_helper child) (act_seq (rollback_files mid runtime_dir) (act_throw e)))"

definition resolve_certificate_authority_paths :: "NetEnv \<Rightarrow> NetdRuntimeConfig \<Rightarrow> string \<Rightarrow> LibVmError + string \<times> string" where
  "resolve_certificate_authority_paths ne config reference =
     (case (nr_tls_ca_cert config, nr_tls_ca_key config) of
        (Some c, Some k) \<Rightarrow> Ok (c, k)
      | (None, None) \<Rightarrow>
          (case ne_authority ne of
             Inr a \<Rightarrow> Ok a
           | Inl _ \<Rightarrow> Err (NetworkRuntime reference (msg ''ensure certificate authority'')))
      | _ \<Rightarrow> Err (NetworkRuntime reference
               (msg ''certificate authority certificate and private key must be configured together'')))"

record NetworkHelperCommandConfig =
  hc_socket_path :: string
  hc_subnet :: string
  hc_log_path :: string
  hc_pid_path :: string
  hc_pcap_path :: "string option"
  hc_machine_id :: MachineId
  hc_network_id :: string
  hc_policy_path :: "string option"
  hc_secret_store_path :: string
  hc_tls_ca_cert_path :: "string option"
  hc_tls_ca_key_path :: "string option"

definition opt_arg :: "string \<Rightarrow> string option \<Rightarrow> string list" where
  "opt_arg flag value = (case value of None \<Rightarrow> [] | Some v \<Rightarrow> [flag, v])"

definition configure_network_helper_command :: "NetworkHelperCommandConfig \<Rightarrow> string list" where
  "configure_network_helper_command config =
     [''--listen-vfkit'', ''unixgram://'' @ hc_socket_path config, ''--ssh-port'', ''-1'',
      ''--subnet'', hc_subnet config, ''--log-file'', hc_log_path config, ''--pid-file'', hc_pid_path config] @
     opt_arg ''--pcap'' (hc_pcap_path config) @
     [''--vm-id'', MachineId_to_string (hc_machine_id config), ''--network-id'', hc_network_id config] @
     opt_arg ''--policy-file'' (hc_policy_path config) @
     [''--secret-store-file'', hc_secret_store_path config] @
     opt_arg ''--tls-ca-cert'' (hc_tls_ca_cert_path config) @
     opt_arg ''--tls-ca-key'' (hc_tls_ca_key_path config)"

text \<open>What a failed start reports: the decoded records first, then the other lines, or else the reason.\<close>

definition render_netd_startup_error_record :: "NetdStartupErrorRecord \<Rightarrow> string" where
  "render_netd_startup_error_record r =
     (case er_file r of
        None \<Rightarrow> []
      | Some file \<Rightarrow>
          if file = [] then []
          else
            file @
            (case er_line r of
               None \<Rightarrow> []
             | Some l \<Rightarrow>
                 if l = 0 then []
                 else
                   '':'' @ decimal (unat l) @
                   (case er_column r of None \<Rightarrow> [] | Some c \<Rightarrow> if c = 0 then [] else '':'' @ decimal (unat c))) @
            '': '') @
     trim (er_message r) @
     concat (map (\<lambda>line. CHR 0x0A # ''  '' @ line) (lines (trim (er_detail r))))"

definition render_netd_startup_stderr :: "(string \<Rightarrow> NetdStartupErrorRecord option) \<Rightarrow> string list \<Rightarrow> string option" where
  "render_netd_startup_stderr parse ls =
     (let trimmed = filter (\<lambda>l. l \<noteq> []) (map trim ls);
          records = List.map_filter parse trimmed;
          raw_lines = filter (\<lambda>l. parse l = None) trimmed in
      if records = [] \<and> raw_lines = [] then None
      else
        let output = fold (\<lambda>r out. (if out \<noteq> [] then out @ [CHR 0x0A] else out) @ render_netd_startup_error_record r) records [] in
        Some (fold (\<lambda>l out. (if out \<noteq> [] then out @ [CHR 0x0A] else out) @ l) raw_lines output))"

definition format_netd_startup_failure ::
  "(string \<Rightarrow> NetdStartupErrorRecord option) \<Rightarrow> string \<Rightarrow> string list \<Rightarrow> string \<Rightarrow> string" where
  "format_netd_startup_failure parse reason stderr_lines log_path =
     (let nl = [CHR 0x0A, CHR 0x0A] in
      ''netd failed during startup'' @
      (case render_netd_startup_stderr parse stderr_lines of
         Some stderr \<Rightarrow> nl @ stderr
       | None \<Rightarrow> if trim reason \<noteq> [] then nl @ trim reason else []) @
      nl @ ''netd log: '' @ log_path)"

definition register_instance ::
  "MachineConfig \<Rightarrow> NetworkAttachmentTarget \<Rightarrow> NetdRuntimeConfig \<Rightarrow> string \<Rightarrow> string \<Rightarrow> int \<Rightarrow> VmmonNetworkAttachment vm" where
  "register_instance metadata request config network_id runtime_dir pid =
     act_bind (act_gets w_now) (\<lambda>now.
     let mac = format_mac (mac_from_machine_id (mc_id metadata));
         socket_path = path_push runtime_dir ''netd.sock'';
         network = AttUnixDatagram socket_path mac in
     act_seq
       (db_write (save_network_instance
         \<lparr>ni_id = network_id, ni_driver = ''netd'', ni_definition_name = request_definition_name request,
          ni_runtime_dir = runtime_dir, ni_attachment_json = network,
          ni_driver_state_json =
            \<lparr>nd_helper_pid = pid, nd_subnet = nr_subnet config, nd_socket_path = socket_path,
             nd_log_path = path_push runtime_dir ''netd.log'', nd_pid_path = path_push runtime_dir ''netd.pid'',
             nd_pcap_path = (if nr_pcap config then Some (path_push runtime_dir ''capture.pcap'') else None)\<rparr>,
          ni_state = InstanceRunning, ni_created_at = now, ni_modified_at = now\<rparr>))
       (act_seq
         (act_catch
           (db_write (attach_network
             \<lparr>na_machine_id = mc_id metadata, na_network_instance_id = network_id, na_guest_mac = mac,
              na_created_at = now, na_modified_at = now\<rparr>))
           (\<lambda>err.
             act_seq
               (act_catch (db_write (\<lambda>s. Ok (remove_network_instance network_id s)))
                 (\<lambda>_. act_throw (NetworkRuntime (mc_name metadata)
                   (''attach userspace network runtime failed; rollback of runtime record {} also failed'', [network_id]))))
               (act_throw err)))
         (act_return network)))"

definition resolve_network_policy_path :: "MachineConfig \<Rightarrow> string option \<Rightarrow> string option \<Rightarrow> LibVmError + string option" where
  "resolve_network_policy_path metadata reference config_dir =
     (case reference of
        None \<Rightarrow> Ok None
      | Some p \<Rightarrow>
          (case NetworkPolicyRef_resolve p config_dir of
             Inl m \<Rightarrow> Err (NetworkRuntime (mc_name metadata) m)
           | Inr path \<Rightarrow> Ok (Some path)))"

definition helper_command ::
  "LocalRoots \<Rightarrow> MachineConfig \<Rightarrow> NetdRuntimeConfig \<Rightarrow> string \<Rightarrow> string \<Rightarrow> string option \<Rightarrow> string \<times> string \<Rightarrow> string list" where
  "helper_command roots metadata config network_id runtime_dir policy_path ca =
     configure_network_helper_command
       \<lparr>hc_socket_path = path_push runtime_dir ''netd.sock'', hc_subnet = nr_subnet config,
        hc_log_path = path_push runtime_dir ''netd.log'', hc_pid_path = path_push runtime_dir ''netd.pid'',
        hc_pcap_path = (if nr_pcap config then Some (path_push runtime_dir ''capture.pcap'') else None),
        hc_machine_id = mc_id metadata, hc_network_id = network_id, hc_policy_path = policy_path,
        hc_secret_store_path = secret_store_path roots,
        hc_tls_ca_cert_path = Some (fst ca), hc_tls_ca_key_path = Some (snd ca)\<rparr>"

definition spawn_helper ::
  "NetEnv \<Rightarrow> LocalRoots \<Rightarrow> MachineConfig \<Rightarrow> RuntimeNetworkingConfig \<Rightarrow> NetworkAttachmentTarget \<Rightarrow> string \<Rightarrow> string \<Rightarrow>
     (int \<times> (string \<times> string list) option) vm" where
  "spawn_helper ne roots metadata config request network_id runtime_dir =
     act_bind (act_result (resolve_network_policy_path metadata (request_policy_ref request) (rn_policy_config_dir config)))
       (\<lambda>policy_path.
     act_bind (act_result (resolve_certificate_authority_paths ne (rn_netd config) (mc_name metadata))) (\<lambda>ca.
     act_seq (may_fail (Io (msg ''input/output error'')))
       (act_bind
         (act_state (\<lambda>w.
           let (r, procs) = ne_spawn ne (helper_command roots metadata (rn_netd config) network_id runtime_dir policy_path ca) w
           in Some (w\<lparr>w_procs := procs\<rparr>, r)))
         (\<lambda>spawned.
           case spawned of
             None \<Rightarrow> act_throw (NetworkRuntime (mc_name metadata) (msg ''spawn userspace network helper: {}''))
           | Some child \<Rightarrow> act_return child))))"

definition start_new_runtime ::
  "Env \<Rightarrow> NetEnv \<Rightarrow> LocalRoots \<Rightarrow> MachineConfig \<Rightarrow> RuntimeNetworkingConfig \<Rightarrow> NetworkAttachmentTarget \<Rightarrow> VmmonNetworkAttachment vm" where
  "start_new_runtime env ne roots metadata config request =
     act_bind (act_state (draw_random env)) (\<lambda>rid.
     let network_id = MachineId_to_string rid;
         runtime_dir = network_path roots network_id in
     act_seq (io (\<lambda>w. w\<lparr>w_dirs := insert runtime_dir (w_dirs w)\<rparr>))
       (act_seq (ensure_instance_network_link (mc_id metadata) runtime_dir)
         (act_bind
           (with_startup_guard (mc_id metadata) runtime_dir None
             (spawn_helper ne roots metadata config request network_id runtime_dir))
           (\<lambda>(pid, failure).
             with_startup_guard (mc_id metadata) runtime_dir (Some pid)
               (case failure of
                  Some (reason, stderr_lines) \<Rightarrow>
                    act_throw (NetworkRuntime (mc_name metadata)
                      (msg (format_netd_startup_failure (ne_record ne) reason stderr_lines (path_push runtime_dir ''netd.log''))))
                | None \<Rightarrow> register_instance metadata request (rn_netd config) network_id runtime_dir pid)))))"

definition prepare_netd_runtime ::
  "Env \<Rightarrow> NetEnv \<Rightarrow> LocalRoots \<Rightarrow> MachineConfig \<Rightarrow> RuntimeNetworkingConfig \<Rightarrow> NetworkAttachmentTarget \<Rightarrow> VmmonNetworkAttachment vm" where
  "prepare_netd_runtime env ne roots metadata config request =
     (case request_definition_name request of
        None \<Rightarrow> start_new_runtime env ne roots metadata config request
      | Some name \<Rightarrow>
          act_bind (db_read (\<lambda>s. Ok (network_instance_by_definition name s))) (\<lambda>found.
          case found of
            None \<Rightarrow> start_new_runtime env ne roots metadata config request
          | Some inst \<Rightarrow>
              act_bind (act_gets (network_instance_is_alive inst)) (\<lambda>alive.
              if alive then attach_existing_runtime metadata inst
              else
                act_seq (db_write (\<lambda>s. Ok (remove_network_instance (ni_id inst) s)))
                  (act_seq (remove_runtime_dir (ni_runtime_dir inst))
                    (start_new_runtime env ne roots metadata config request)))))"

definition prepare_vznat :: "Env \<Rightarrow> MachineConfig \<Rightarrow> VmmonNetworkAttachment vm" where
  "prepare_vznat env metadata =
     act_seq (remove_attached_network env (mc_id metadata))
       (act_seq (io (\<lambda>w. w\<lparr>w_net_links := (w_net_links w)(mc_id metadata \<mapsto> LinkDir)\<rparr>))
         (act_return (AttVzNat None)))"

definition prepare_with_driver ::
  "Env \<Rightarrow> NetEnv \<Rightarrow> LocalRoots \<Rightarrow> MachineConfig \<Rightarrow> RuntimeNetworkingConfig \<Rightarrow> NetworkDriverKind \<Rightarrow> NetworkAttachmentTarget \<Rightarrow>
     VmmonNetworkAttachment vm" where
  "prepare_with_driver env ne roots metadata config driver request =
     act_bind (act_result (driver_supports driver (mc_name metadata) request)) (\<lambda>_.
       case driver of
         DriverNetd \<Rightarrow> prepare_netd_runtime env ne roots metadata config request
       | DriverVzNat \<Rightarrow> prepare_vznat env metadata)"

definition resolve_named_network ::
  "Env \<Rightarrow> NetEnv \<Rightarrow> LocalRoots \<Rightarrow> MachineConfig \<Rightarrow> NetworkDefinition \<Rightarrow> RuntimeNetworkingConfig \<Rightarrow> VmmonNetworkAttachment vm" where
  "resolve_named_network env ne roots metadata d config =
     (case df_topology d of
        Nat \<Rightarrow>
          prepare_with_driver env ne roots metadata config
            (case df_driver_preference d of Auto \<Rightarrow> DriverNetd | Netd \<Rightarrow> DriverNetd | VzNat \<Rightarrow> DriverVzNat)
            (TargetNamed (df_name d))
      | Bridge \<Rightarrow> act_throw (NetworkRuntime (mc_name metadata)
          (''named network {} uses bridge mode, which is not implemented yet'', [df_name d]))
      | Isolated \<Rightarrow> act_throw (NetworkRuntime (mc_name metadata)
          (''named network {} uses isolated mode, which is not implemented yet'', [df_name d])))"

definition prepare_network_runtime ::
  "Env \<Rightarrow> NetEnv \<Rightarrow> LocalRoots \<Rightarrow> MachineConfig \<Rightarrow> RuntimeNetworkingConfig \<Rightarrow> VmmonNetworkAttachment vm" where
  "prepare_network_runtime env ne roots metadata config =
     act_seq (reconcile_network_runtime env metadata False)
       (case mc_network metadata of
          NetNone \<Rightarrow> act_seq (remove_attached_network env (mc_id metadata)) (act_return AttNone)
        | NetPrivate p \<Rightarrow>
            prepare_with_driver env ne roots metadata config (rn_private_driver config) (TargetPrivate p)
        | NetNamed name \<Rightarrow>
            act_bind (db_read (\<lambda>s. Ok (network_definition name s))) (\<lambda>d.
            case d of
              None \<Rightarrow> act_throw (NetworkRuntime (mc_name metadata) (''named network {} is not defined'', [name]))
            | Some d' \<Rightarrow> resolve_named_network env ne roots metadata d' config))"

section \<open>Captured standard error\<close>

text \<open>
  The last lines that the helper wrote, within a limit.  A line holds the bytes of a Rust string; its
  length is far from \<open>usize::MAX\<close>, so that the saturating operations are those of the naturals.
\<close>

definition STDERR_CAPTURE_LIMIT :: nat where
  "STDERR_CAPTURE_LIMIT = 64 * 1024"

record CapturedStderrLines =
  cs_lines :: "bytes list"
  cs_byte_len :: nat

definition captured_empty :: CapturedStderrLines where
  "captured_empty = \<lparr>cs_lines = [], cs_byte_len = 0\<rparr>"

fun evict_lines :: "nat \<Rightarrow> bytes list \<Rightarrow> nat \<Rightarrow> bytes list \<times> nat" where
  "evict_lines line_len [] byte_len = ([], if byte_len + line_len > STDERR_CAPTURE_LIMIT then 0 else byte_len)"
| "evict_lines line_len (removed # rest) byte_len =
     (if byte_len + line_len > STDERR_CAPTURE_LIMIT then evict_lines line_len rest (byte_len - length removed)
      else (removed # rest, byte_len))"

definition bound_line :: "bytes \<Rightarrow> bytes" where
  "bound_line line =
     (if length line > STDERR_CAPTURE_LIMIT then utf8_lossy (drop (length line - STDERR_CAPTURE_LIMIT) line) else line)"

definition append_bounded_stderr_line :: "CapturedStderrLines \<Rightarrow> bytes \<Rightarrow> CapturedStderrLines" where
  "append_bounded_stderr_line captured line0 =
     (let line = bound_line line0;
          (kept, byte_len) = evict_lines (length line) (cs_lines captured) (cs_byte_len captured) in
      \<lparr>cs_lines = kept @ [line], cs_byte_len = byte_len + length line\<rparr>)"

subsection \<open>What is kept\<close>

definition captured_ok :: "CapturedStderrLines \<Rightarrow> bool" where
  "captured_ok c \<longleftrightarrow>
     cs_byte_len c = sum_list (map length (cs_lines c)) \<and> cs_byte_len c \<le> STDERR_CAPTURE_LIMIT + 6"

lemma evict_lines_ok:
  assumes "evict_lines n ls b = (kept, b')" "b = sum_list (map length ls)" "n \<le> STDERR_CAPTURE_LIMIT + 6"
  shows "b' = sum_list (map length kept) \<and> b' + n \<le> STDERR_CAPTURE_LIMIT + 6 \<and> (\<exists>pre. ls = pre @ kept)"
  using assms by (induction n ls b arbitrary: kept rule: evict_lines.induct) (fastforce split: if_splits)+

lemma bound_line_length: "utf8_valid line \<Longrightarrow> length (bound_line line) \<le> STDERR_CAPTURE_LIMIT + 6"
  using utf8_lossy_suffix [of line "length line - STDERR_CAPTURE_LIMIT"] by (auto simp: bound_line_def)

lemma append_bounded_ok:
  assumes "captured_ok c" "utf8_valid line"
  shows "captured_ok (append_bounded_stderr_line c line)"
    "\<exists>pre kept. cs_lines c = pre @ kept \<and> cs_lines (append_bounded_stderr_line c line) = kept @ [bound_line line]"
proof -
  obtain kept b' where e: "evict_lines (length (bound_line line)) (cs_lines c) (cs_byte_len c) = (kept, b')" by force
  then have eq: "append_bounded_stderr_line c line = \<lparr>cs_lines = kept @ [bound_line line], cs_byte_len = b' + length (bound_line line)\<rparr>"
    by (simp add: append_bounded_stderr_line_def Let_def)
  have ok: "b' = sum_list (map length kept) \<and> b' + length (bound_line line) \<le> STDERR_CAPTURE_LIMIT + 6 \<and> (\<exists>pre. cs_lines c = pre @ kept)"
    using evict_lines_ok [OF e _ bound_line_length [OF assms(2)]] assms(1) unfolding captured_ok_def by blast
  then show "captured_ok (append_bounded_stderr_line c line)" unfolding eq captured_ok_def by simp
  from ok show "\<exists>pre kept. cs_lines c = pre @ kept \<and> cs_lines (append_bounded_stderr_line c line) = kept @ [bound_line line]"
    unfolding eq by auto
qed

text \<open>
  C39: After any number of lines, what is kept is the most recent of them, each cut to its last 64 KiB; the
  recorded size is their total size, and it exceeds 64 KiB by 6 bytes at most.
\<close>

theorem stderr_capture_bounded:
  assumes "list_all utf8_valid ls"
  shows "let c = foldl append_bounded_stderr_line captured_empty ls in
    cs_byte_len c = sum_list (map length (cs_lines c)) \<and> cs_byte_len c \<le> STDERR_CAPTURE_LIMIT + 6 \<and>
    (\<exists>pre. map bound_line ls = pre @ cs_lines c) \<and> (cs_lines c = [] \<longleftrightarrow> ls = [])"
  using assms
proof (induction ls rule: rev_induct)
  case Nil
  then show ?case by (simp add: captured_empty_def)
next
  case (snoc line ls)
  define c where "c = foldl append_bounded_stderr_line captured_empty ls"
  have c: "captured_ok c" "\<exists>pre. map bound_line ls = pre @ cs_lines c"
    using snoc by (simp_all add: captured_ok_def c_def Let_def)
  then obtain pre pre' kept where "map bound_line ls = pre @ cs_lines c" "cs_lines c = pre' @ kept"
    "cs_lines (append_bounded_stderr_line c line) = kept @ [bound_line line]"
    using append_bounded_ok(2) [OF c(1), of line] snoc.prems by auto
  then have "map bound_line (ls @ [line]) = (pre @ pre') @ cs_lines (append_bounded_stderr_line c line)"
    "cs_lines (append_bounded_stderr_line c line) \<noteq> []" by simp_all
  then show ?case
    using append_bounded_ok(1) [OF c(1), of line] snoc.prems
    unfolding foldl_append foldl.simps c_def [symmetric] by (auto simp: Let_def captured_ok_def)
qed

theorem stderr_capture_bounded_witness:
  "list_all utf8_valid [[0x61], [0x62, 0x63]] \<and>
   cs_byte_len (foldl append_bounded_stderr_line captured_empty [[0x61], [0x62, 0x63]]) \<le> STDERR_CAPTURE_LIMIT + 6"
proof -
  have "list_all utf8_valid [[0x61 :: u8], [0x62, 0x63]]" by (simp add: utf8_valid_ascii)
  then show ?thesis using stderr_capture_bounded [of "[[0x61], [0x62, 0x63]]"] by (simp add: Let_def)
qed

text \<open>The 6 bytes are used: a long line that is cut inside a character of four bytes is captured with three replacements.\<close>

lemma stderr_capture_exceeds:
  "\<exists>line. utf8_valid line \<and>
     cs_byte_len (append_bounded_stderr_line captured_empty line) = STDERR_CAPTURE_LIMIT + 6"
proof (intro exI conjI)
  let ?a = "replicate (STDERR_CAPTURE_LIMIT - 3) (0x61 :: u8)"
  have a: "utf8_valid ?a" by (rule utf8_valid_ascii) simp
  have "utf8_step ([0xF0, 0x9F, 0x98, 0x80] @ ?a) = Inr 4" by (simp add: utf8_step_def byte_at_def utf8_cont_def)
  then show "utf8_valid ([0xF0, 0x9F, 0x98, 0x80] @ ?a)" using a by (subst utf8_valid.simps) simp
  have "utf8_lossy ([0x9F, 0x98, 0x80] @ ?a) = concat (replicate 3 utf8_replacement) @ ?a"
    using utf8_lossy_conts [of "[0x9F, 0x98, 0x80]" ?a] a by (simp add: utf8_cont_def utf8_lossy_valid numeral_3_eq_3)
  then have "length (utf8_lossy ([0x9F, 0x98, 0x80] @ ?a)) = STDERR_CAPTURE_LIMIT + 6"
    by (simp add: utf8_replacement_def STDERR_CAPTURE_LIMIT_def length_concat sum_list_replicate)
  then show "cs_byte_len (append_bounded_stderr_line captured_empty ([0xF0, 0x9F, 0x98, 0x80] @ ?a)) = STDERR_CAPTURE_LIMIT + 6"
    by (simp add: append_bounded_stderr_line_def bound_line_def captured_empty_def STDERR_CAPTURE_LIMIT_def Let_def)
qed

section \<open>What network operations leave alone\<close>

definition net_frame :: "World \<Rightarrow> World \<Rightarrow> bool" where
  "net_frame w0 w \<longleftrightarrow>
     store_wf (w_store w) \<and> machine_config_table (w_store w) = machine_config_table (w_store w0) \<and>
     machine_state_table (w_store w) = machine_state_table (w_store w0) \<and> w_now w = w_now w0 \<and> w_locks w = w_locks w0 \<and>
     w_pid_files w = w_pid_files w0 \<and> w_exit_files w = w_exit_files w0 \<and> w_disks w = w_disks w0 \<and> w_specs w = w_specs w0 \<and>
     (w_faults w0 = [] \<longrightarrow> w_faults w = [])"

lemma net_frame_fault_free [simp, intro]: "fault_free (net_frame w0)"
  by (simp add: fault_free_def net_frame_def)

lemma net_frame_refl: "store_wf (w_store w) \<Longrightarrow> net_frame w w"
  by (simp add: net_frame_def)

lemma network_tables:
  "machine_config_table (detach_network m s) = machine_config_table s"
  "machine_state_table (detach_network m s) = machine_state_table s"
  "machine_config_table (remove_network_instance n s) = machine_config_table s"
  "machine_state_table (remove_network_instance n s) = machine_state_table s"
  by (simp_all add: detach_network_def remove_network_instance_def)

lemma attach_network_tables:
  "attach_network a s = Ok s' \<Longrightarrow> machine_config_table s' = machine_config_table s \<and> machine_state_table s' = machine_state_table s"
  unfolding attach_network_def Let_def by (auto split: if_splits)

lemma save_network_instance_tables:
  "save_network_instance i s = Ok s' \<Longrightarrow> machine_config_table s' = machine_config_table s \<and> machine_state_table s' = machine_state_table s"
proof -
  have "case save_network_instance i s of
      Inr s' \<Rightarrow> machine_config_table s' = machine_config_table s \<and> machine_state_table s' = machine_state_table s | Inl _ \<Rightarrow> True"
    by (simp add: save_network_instance_def)
  then show "save_network_instance i s = Ok s' \<Longrightarrow> ?thesis" by simp
qed

lemma net_frame_store:
  "net_frame w0 w \<Longrightarrow> net_frame w0 (w\<lparr>w_store := detach_network m (w_store w)\<rparr>)"
  "net_frame w0 w \<Longrightarrow> net_frame w0 (w\<lparr>w_store := remove_network_instance n (w_store w)\<rparr>)"
  "net_frame w0 w \<Longrightarrow> attach_network a (w_store w) = Ok s' \<Longrightarrow> net_frame w0 (w\<lparr>w_store := s'\<rparr>)"
  "net_frame w0 w \<Longrightarrow> save_network_instance i (w_store w) = Ok s' \<Longrightarrow> net_frame w0 (w\<lparr>w_store := s'\<rparr>)"
  subgoal by (simp add: net_frame_def network_tables detach_network_wf)
  subgoal by (simp add: net_frame_def network_tables remove_network_instance_wf)
  subgoal using attach_network_tables [of a "w_store w" s'] attach_network_wf [of "w_store w" a s'] by (simp add: net_frame_def)
  subgoal using save_network_instance_tables [of i "w_store w" s'] save_network_instance_wf [of "w_store w" i s'] by (simp add: net_frame_def)
  done

lemma net_frame_world:
  "net_frame w0 (w\<lparr>w_net_links := l\<rparr>) = net_frame w0 w" "net_frame w0 (w\<lparr>w_dirs := d\<rparr>) = net_frame w0 w"
  "net_frame w0 (w\<lparr>w_signals := g\<rparr>) = net_frame w0 w" "net_frame w0 (w\<lparr>w_procs := p\<rparr>) = net_frame w0 w"
  "net_frame w0 (w\<lparr>w_drawn := n\<rparr>) = net_frame w0 w"
  by (simp_all add: net_frame_def)

lemmas net_frame_rules = net_frame_store net_frame_world [THEN iffD2]

lemma keeps_links [keep]:
  "keeps (net_frame w0) (remove_instance_network_link m)" "keeps (net_frame w0) (ensure_instance_network_link m d)"
  "keeps (net_frame w0) (remove_runtime_dir d)" "keeps (net_frame w0) (terminate_helper pid)"
  "keeps (net_frame w0) (terminate_network_instance i)" "keeps (net_frame w0) (stop_helper ch)"
  "keeps (net_frame w0) (rollback_files m d)"
  unfolding remove_instance_network_link_def ensure_instance_network_link_def remove_runtime_dir_def terminate_helper_def
    terminate_network_instance_def stop_helper_def rollback_files_def
  by (intro keep net_frame_fault_free; simp add: net_frame_world)+

lemma keeps_network_writes [keep]:
  "keeps (net_frame w0) (db_write (\<lambda>s. Ok (detach_network m s)))" "keeps (net_frame w0) (db_write (\<lambda>s. Ok (remove_network_instance n s)))"
  "keeps (net_frame w0) (db_write (attach_network a))" "keeps (net_frame w0) (db_write (save_network_instance i))"
  by (intro keep net_frame_fault_free; auto intro: net_frame_store)+

lemma keeps_reconcile [keep]:
  "keeps (net_frame w0) (release_instance i)" "keeps (net_frame w0) (reconcile_network_runtime env c b)"
  "keeps (net_frame w0) (remove_attached_network env m)"
  unfolding release_instance_def reconcile_network_runtime_def remove_attached_network_def
  by (intro keep net_frame_fault_free)+

lemma keeps_guard [keep]: "keeps (net_frame w0) body \<Longrightarrow> keeps (net_frame w0) (with_startup_guard m d ch body)"
  unfolding with_startup_guard_def by (intro keep)

lemma keeps_prepare [keep]:
  "keeps (net_frame w0) (attach_existing_runtime c i)" "keeps (net_frame w0) (register_instance c req ncfg nid d pid)"
  "keeps (net_frame w0) (spawn_helper ne roots c cfg req nid d)"
  unfolding attach_existing_runtime_def register_instance_def spawn_helper_def
  by (intro keep net_frame_fault_free; auto simp: net_frame_world split: prod.split)+

lemma keeps_start_new_runtime [keep]: "keeps (net_frame w0) (start_new_runtime env ne roots c cfg req)"
  unfolding start_new_runtime_def by (intro keep net_frame_fault_free; auto simp: net_frame_world draw_random_def)

lemma keeps_prepare_with_driver [keep]: "keeps (net_frame w0) (prepare_with_driver env ne roots c cfg driver req)"
  unfolding prepare_with_driver_def prepare_netd_runtime_def prepare_vznat_def
  by (cases driver; simp; intro keep net_frame_fault_free; (simp add: net_frame_world)?)

lemma keeps_resolve_named_network [keep]: "keeps (net_frame w0) (resolve_named_network env ne roots c d cfg)"
  unfolding resolve_named_network_def by (cases "df_topology d"; simp; intro keep)

lemma keeps_prepare_network_runtime [keep]: "keeps (net_frame w0) (prepare_network_runtime env ne roots c cfg)"
  unfolding prepare_network_runtime_def by (cases "mc_network c"; simp; intro keep net_frame_fault_free)

section \<open>Machines that share a network\<close>

text \<open>
  \<open>spares m w0 w\<close>: the attachments of the machines other than \<open>m\<close> and their instances are those of \<open>w0\<close>,
  and every signal sent since then is a SIGTERM to the helper of an instance none of them uses.
\<close>

definition others :: "MachineId \<Rightarrow> Store \<Rightarrow> NetworkAttachmentRow list" where
  "others m s = filter (\<lambda>r. ar_machine_id r \<noteq> MachineId_to_string m) (network_attachments_table s)"

definition used_by_others :: "MachineId \<Rightarrow> Store \<Rightarrow> string set" where
  "used_by_others m s = ar_network_instance_id ` set (others m s)"

definition spares :: "MachineId \<Rightarrow> World \<Rightarrow> World \<Rightarrow> bool" where
  "spares m w0 w \<longleftrightarrow>
     others m (w_store w) = others m (w_store w0) \<and>
     (\<forall>n \<in> used_by_others m (w_store w0). network_instance n (w_store w) = network_instance n (w_store w0)) \<and>
     (\<exists>sent. w_signals w = w_signals w0 @ sent \<and>
       (\<forall>(target, sig) \<in> set sent. sig = SIGTERM \<and>
         (\<exists>i \<in> set (network_instances_table (w_store w0)).
            ni_id i \<notin> used_by_others m (w_store w0) \<and> target = - nd_helper_pid (ni_driver_state_json i))))"

lemma spares_faults [simp]: "spares m w0 (w\<lparr>w_faults := bs\<rparr>) = spares m w0 w"
  by (simp add: spares_def)

lemma spares_fault_free [simp, intro]: "fault_free (spares m w0)"
  by (simp add: fault_free_def)

lemma spares_world:
  "spares m w0 (w\<lparr>w_net_links := l\<rparr>) = spares m w0 w" "spares m w0 (w\<lparr>w_dirs := d\<rparr>) = spares m w0 w"
  by (simp_all add: spares_def)

lemma spares_detach: "spares m w0 w \<Longrightarrow> spares m w0 (w\<lparr>w_store := detach_network m (w_store w)\<rparr>)"
  by (simp add: spares_def others_def detach_network_def network_instance_def)

lemma spares_terminate:
  assumes "spares m w0 w" "i \<in> set (network_instances_table (w_store w0))" "ni_id i \<notin> used_by_others m (w_store w0)"
  shows "spares m w0 (w\<lparr>w_signals := w_signals w @ [(- nd_helper_pid (ni_driver_state_json i), SIGTERM)]\<rparr>)"
proof -
  from assms(1) obtain sent where "w_signals w = w_signals w0 @ sent" "\<forall>(target, sig) \<in> set sent. sig = SIGTERM \<and>
      (\<exists>i \<in> set (network_instances_table (w_store w0)). ni_id i \<notin> used_by_others m (w_store w0) \<and> target = - nd_helper_pid (ni_driver_state_json i))"
    by (auto simp: spares_def)
  with assms(2, 3) show ?thesis
    using assms(1) unfolding spares_def
    by (intro conjI exI [of _ "sent @ [(- nd_helper_pid (ni_driver_state_json i), SIGTERM)]"]) auto
qed

lemma find_filter_other: "n \<noteq> n' \<Longrightarrow> List.find (\<lambda>r. f r = n) (filter (\<lambda>r. f r \<noteq> n') xs) = List.find (\<lambda>r. f r = n) xs"
  by (induction xs) auto

lemma spares_remove:
  assumes "spares m w0 w" "n \<notin> used_by_others m (w_store w0)"
  shows "spares m w0 (w\<lparr>w_store := remove_network_instance n (w_store w)\<rparr>)"
proof -
  have o: "others m (w_store w) = others m (w_store w0)" using assms(1) by (simp add: spares_def)
  then have "\<forall>r \<in> set (others m (w_store w)). ar_network_instance_id r \<noteq> n"
    using assms(2) by (auto simp: used_by_others_def)
  then have "filter (\<lambda>r. ar_network_instance_id r \<noteq> n) (others m (w_store w)) = others m (w_store w)" by simp
  then have "others m (remove_network_instance n (w_store w)) = others m (w_store w)"
    by (simp add: others_def remove_network_instance_def conj_commute)
  moreover have "network_instance n' (remove_network_instance n (w_store w)) = network_instance n' (w_store w)"
    if "n' \<in> used_by_others m (w_store w0)" for n'
    using that assms(2) find_filter_other [of n' n ni_id]
    by (auto simp: network_instance_def remove_network_instance_def)
  ultimately show ?thesis using assms(1) unfolding spares_def by simp
qed

lemma keeps_spares_links [keep]:
  "keeps (spares m w0) (remove_instance_network_link m')" "keeps (spares m w0) (ensure_instance_network_link m' d)"
  "keeps (spares m w0) (remove_runtime_dir d)" "keeps (spares m w0) (db_write (\<lambda>s. Ok (detach_network m s)))"
  unfolding remove_instance_network_link_def ensure_instance_network_link_def remove_runtime_dir_def
  by (intro keep spares_fault_free; auto simp: spares_world intro: spares_detach)+

lemma keeps_spares_release:
  assumes "i \<in> set (network_instances_table (w_store w0))" "ni_id i \<notin> used_by_others m (w_store w0)"
  shows "keeps (spares m w0) (act_seq (terminate_network_instance i)
    (act_seq (db_write (\<lambda>s. Ok (remove_network_instance (ni_id i) s))) (remove_runtime_dir d)))"
  unfolding terminate_network_instance_def terminate_helper_def
  by (intro keep spares_fault_free) (use assms in \<open>auto intro: spares_terminate spares_remove\<close>)

lemma release_spares:
  assumes "spares m w0 w" "network_attachments_table (w_store w) = others m (w_store w0)"
    "i \<in> set (network_instances_table (w_store w0))"
  shows "act_wp (release_instance i) (\<lambda>_. spares m w0) (\<lambda>_. spares m w0) w"
  unfolding release_instance_def act_wp_simps(4)
proof (rule db_read_wp)
  fix bs count
  assume c: "network_attachment_count (ni_id i) (w_store w) = Ok count"
  have w: "spares m w0 (w\<lparr>w_faults := bs\<rparr>)" using assms(1) by simp
  show "act_wp (act_when (count = 0) (act_seq (terminate_network_instance i)
      (act_seq (db_write (\<lambda>s. Ok (remove_network_instance (ni_id i) s))) (remove_runtime_dir (ni_runtime_dir i)))))
      (\<lambda>_. spares m w0) (\<lambda>_. spares m w0) (w\<lparr>w_faults := bs\<rparr>)"
  proof (cases "count = 0")
    case True
    define k where "k = length (filter (\<lambda>r. ar_network_instance_id r = ni_id i) (others m (w_store w0)))"
    have "k < 2 ^ 32" "of_nat k = (0 :: u32)"
      using c True by (auto simp: network_attachment_count_def assms(2) k_def Let_def split: if_splits)
    then have "k = 0" using unat_of_nat_small [of k, where 'a = 32] by simp
    then have "ni_id i \<notin> used_by_others m (w_store w0)" by (auto simp: k_def used_by_others_def filter_empty_conv)
    from keepsD [OF keeps_spares_release [OF assms(3) this] w] show ?thesis using True by (simp add: wp)
  next
    case False
    then show ?thesis using w by (simp add: wp)
  qed
qed (use assms(1) in auto)

lemma spares_refl: "spares m w w"
  by (simp add: spares_def)

lemma detach_release_spares:
  assumes "w_store w = w_store w0" "spares m w0 w" "i \<in> set (network_instances_table (w_store w0))"
  shows "act_wp (act_seq (db_write (\<lambda>s. Ok (detach_network m s))) (act_seq (remove_instance_network_link m) (release_instance i)))
    (\<lambda>_. spares m w0) (\<lambda>_. spares m w0) w"
proof -
  let ?I = "\<lambda>w. spares m w0 w \<and> network_attachments_table (w_store w) = others m (w_store w0)"
  have ff: "fault_free ?I" by (auto simp: fault_free_def)
  have link: "keeps ?I (remove_instance_network_link m)"
    unfolding remove_instance_network_link_def by (intro keep ff) (simp add: spares_world)
  have "act_wp (db_write (\<lambda>s. Ok (detach_network m s))) (\<lambda>_. ?I) (\<lambda>_. spares m w0) w"
  proof (rule db_write_wp)
    fix bs s'
    assume s': "Ok (detach_network m (w_store w)) = Ok s'"
    have "spares m w0 (w\<lparr>w_faults := bs, w_store := detach_network m (w_store w)\<rparr>)"
      using spares_detach [of m w0 "w\<lparr>w_faults := _\<rparr>"] assms(2) by simp
    moreover have "s' = detach_network m (w_store w)" using s' by simp
    ultimately show "?I (w\<lparr>w_faults := bs, w_store := s'\<rparr>)"
      using assms(1) by (simp add: detach_network_def others_def)
  qed (use assms(2) in auto)
  then show ?thesis
    unfolding act_wp_simps(5)
    by (rule act_wp_mono) (auto intro!: keeps_wp [OF link] release_spares [OF _ _ assms(3)])
qed

lemma db_read_spares:
  assumes "w_store w = w_store w0" "spares m w0 w"
    "\<And>x w'. f (w_store w0) = Ok x \<Longrightarrow> w_store w' = w_store w0 \<Longrightarrow> spares m w0 w' \<Longrightarrow> act_wp (k x) (\<lambda>_. spares m w0) (\<lambda>_. spares m w0) w'"
  shows "act_wp (act_bind (db_read f) k) (\<lambda>_. spares m w0) (\<lambda>_. spares m w0) w"
  unfolding act_wp_simps(4)
proof (rule db_read_wp)
  fix bs x
  assume "f (w_store w) = Ok x"
  then show "act_wp (k x) (\<lambda>_. spares m w0) (\<lambda>_. spares m w0) (w\<lparr>w_faults := bs\<rparr>)"
    using assms(1, 2) by (intro assms(3)) simp_all
qed (use assms(2) in simp)

lemma network_instance_in: "network_instance n s = Some i \<Longrightarrow> i \<in> set (network_instances_table s)"
  by (auto simp: network_instance_def find_Some_iff)

lemma reconcile_spares:
  "act_wp (reconcile_network_runtime env c running) (\<lambda>_. spares (mc_id c) w) (\<lambda>_. spares (mc_id c) w) w"
  unfolding reconcile_network_runtime_def
proof (rule db_read_spares [OF refl spares_refl], split option.split, intro conjI allI impI)
  fix w' a
  assume w': "w_store w' = w_store w" "spares (mc_id c) w w'"
  show "act_wp (act_bind (db_read (\<lambda>s. Ok (network_instance (na_network_instance_id a) s))) (\<lambda>found.
      case found of
        None \<Rightarrow> act_seq (remove_instance_network_link (mc_id c)) (db_write (\<lambda>s. Ok (detach_network (mc_id c) s)))
      | Some inst \<Rightarrow> act_bind (act_gets (network_instance_is_alive inst)) (\<lambda>alive.
          if running \<and> alive then ensure_instance_network_link (mc_id c) (ni_runtime_dir inst)
          else act_seq (db_write (\<lambda>s. Ok (detach_network (mc_id c) s)))
            (act_seq (remove_instance_network_link (mc_id c)) (release_instance inst)))))
      (\<lambda>_. spares (mc_id c) w) (\<lambda>_. spares (mc_id c) w) w'"
    by (rule db_read_spares [OF w'], split option.split)
      (auto simp: act_wp_simps(4, 6) intro: detach_release_spares network_instance_in keepsD [OF keeps_spares_links(2)]
        keepsD [OF keeps_seq [OF keeps_spares_links(1, 4)]])
qed (simp add: wp)

lemma remove_attached_spares:
  "act_wp (remove_attached_network env m) (\<lambda>_. spares m w) (\<lambda>_. spares m w) w"
  unfolding remove_attached_network_def
proof (rule db_read_spares [OF refl spares_refl], split option.split, intro conjI allI impI)
  fix w' a
  assume w': "w_store w' = w_store w" "spares m w w'"
  show "act_wp (act_bind (db_read (\<lambda>s. Ok (network_instance (na_network_instance_id a) s))) (\<lambda>found.
      act_seq (db_write (\<lambda>s. Ok (detach_network m s))) (act_seq (remove_instance_network_link m)
        (case found of None \<Rightarrow> act_return () | Some inst \<Rightarrow> release_instance inst))))
      (\<lambda>_. spares m w) (\<lambda>_. spares m w) w'"
  proof (rule db_read_spares [OF w'])
    fix f w''
    assume f: "Ok (network_instance (na_network_instance_id a) (w_store w)) = Ok f" "w_store w'' = w_store w" "spares m w w''"
    show "act_wp (act_seq (db_write (\<lambda>s. Ok (detach_network m s))) (act_seq (remove_instance_network_link m)
        (case f of None \<Rightarrow> act_return () | Some inst \<Rightarrow> release_instance inst))) (\<lambda>_. spares m w) (\<lambda>_. spares m w) w''"
      using f by (cases f)
        (auto intro: detach_release_spares network_instance_in
          keepsD [OF keeps_seq [OF keeps_spares_links(4) keeps_seq [OF keeps_spares_links(1) keeps_simple(1)]]])
  qed
qed (auto intro!: keepsD [where I = "spares m w"] keep)

text \<open>
  C22: Reconciling or removing the network of a machine returns, whatever fails on the way, and does not
  touch another machine: the attachments of the others and the instances they use stay as they are, and a
  helper is only told to end when no other machine uses its instance.
\<close>

theorem network_spares_others:
  "act_wp (reconcile_network_runtime env c running) (\<lambda>_. spares (mc_id c) w) (\<lambda>_. spares (mc_id c) w) w \<and>
   act_wp (remove_attached_network env (mc_id c)) (\<lambda>_. spares (mc_id c) w) (\<lambda>_. spares (mc_id c) w) w"
  using reconcile_spares remove_attached_spares by blast

end
