(* ===== verification/Vm_Launch.thy ===== *)
theory Vm_Launch
  imports Vm_Network
begin

text \<open>
  What \<open>libvm\<close> prepares for a monitor before it starts one: the files of a machine
  (\<open>paths/machine.rs\<close>), the launch specification (\<open>vmmon/launch_spec.rs\<close>, \<open>machine/mounts.rs\<close>), the
  configuration of the guest agent (\<open>guest_agent.rs\<close>, \<open>specs/agent-spec\<close>), the command line and the
  message the monitor reports back (\<open>vmmon/launch.rs\<close>).

  The host is \<open>LaunchEnv\<close>: the home and current directories, which paths are files, the canonical form of
  an existing path, the user, keys and certificate, and \<open>serde_json\<close> on the configuration of the forward
  plugin.
\<close>

section \<open>Files of a machine\<close>

definition vm_spec_path_in :: "string \<Rightarrow> string" where "vm_spec_path_in dir = path_push dir ''config.json''"
definition metadata_config_path_in :: "string \<Rightarrow> string" where "metadata_config_path_in dir = path_push dir ''metadata.json''"
definition vmmon_trace_log_path_in :: "string \<Rightarrow> string" where "vmmon_trace_log_path_in dir = path_push dir ''vm.trace.log''"
definition root_disk_path :: "string \<Rightarrow> string" where "root_disk_path dir = path_push dir ''rootfs.img''"
definition vmmon_pid_path :: "string \<Rightarrow> string" where "vmmon_pid_path dir = path_push dir ''vm.pid''"
definition vmmon_socket_path :: "string \<Rightarrow> string" where "vmmon_socket_path dir = path_push dir ''vm.sock''"
definition vmmon_exit_status_path :: "string \<Rightarrow> string" where "vmmon_exit_status_path dir = path_push dir ''vm.exit.json''"
definition serial_log_path :: "string \<Rightarrow> string" where "serial_log_path dir = path_push dir ''serial.log''"
definition root_disk_relative_path :: string where "root_disk_relative_path = ''rootfs.img''"

section \<open>The host\<close>

record HostUser =
  hu_name :: string
  hu_uid :: u32
  hu_gecos :: string

record GuestAgentHostContext =
  ho_user :: HostUser
  ho_ssh_public_key_openssh :: string
  ho_certificate_authority_pem :: string
  ho_timezone :: string
  ho_locale :: string

record LaunchEnv =
  le_home :: "string option"
  le_cwd :: "msg + string"
  le_is_file :: "string \<Rightarrow> bool"
  le_canonicalize :: "string \<Rightarrow> string option"
  le_host :: "msg + GuestAgentHostContext"
  le_forward_uds :: "string \<Rightarrow> string list option"

section \<open>The launch specification\<close>

definition resolve_mount_location :: "string option \<Rightarrow> string \<Rightarrow> msg + string" where
  "resolve_mount_location home raw =
     (if raw = ''~'' then
        (case home of None \<Rightarrow> Err (msg ''failed to resolve home directory for '~' mount'') | Some h \<Rightarrow> Ok h)
      else if starts_with raw ''~/'' then
        (case home of
           None \<Rightarrow> Err (msg ''failed to resolve home directory for '~' mount'')
         | Some h \<Rightarrow> let rest = drop 2 raw in Ok (if rest = [] then h else path_push h rest))
      else if starts_with raw ''~'' then Err (''invalid mount path '{}': only '~' and '~/...' are supported'', [raw])
      else Ok raw)"

fun normalize_mounts :: "string option \<Rightarrow> string \<Rightarrow> Mount list \<Rightarrow> msg + Mount list" where
  "normalize_mounts home base [] = Ok []"
| "normalize_mounts home base (mount # mounts) =
     bind_result (resolve_mount_location home (m_source mount)) (\<lambda>resolved.
     bind_result (normalize_mounts home base mounts) (\<lambda>rest.
       Ok (mount\<lparr>m_source := (if starts_with resolved ''/'' then resolved else path_push base resolved)\<rparr> # rest)))"

definition normalize_mount_sources :: "string option \<Rightarrow> VmSpec \<Rightarrow> string \<Rightarrow> msg + VmSpec" where
  "normalize_mount_sources home spec base =
     bind_result (normalize_mounts home base (sp_mounts spec)) (\<lambda>mounts. Ok (spec\<lparr>sp_mounts := mounts\<rparr>))"

definition spec_kernel :: "VmSpec \<Rightarrow> Kernel option" where
  "spec_kernel spec = (case sp_boot spec of None \<Rightarrow> None | Some boot \<Rightarrow> b_kernel boot)"

definition spec_initramfs :: "VmSpec \<Rightarrow> string option" where
  "spec_initramfs spec = (case spec_kernel spec of None \<Rightarrow> None | Some k \<Rightarrow> k_initramfs k)"

definition spec_kernel_mut :: "(Kernel \<Rightarrow> Kernel) \<Rightarrow> VmSpec \<Rightarrow> VmSpec" where
  "spec_kernel_mut f spec =
     (let boot = (case sp_boot spec of Some boot \<Rightarrow> boot | None \<Rightarrow> \<lparr>b_kernel = None, b_userdata = None\<rparr>);
          kern = (case b_kernel boot of Some k \<Rightarrow> k | None \<Rightarrow> \<lparr>k_path = None, k_cmdline = [], k_initramfs = None\<rparr>)
      in spec\<lparr>sp_boot := Some (boot\<lparr>b_kernel := Some (f kern)\<rparr>)\<rparr>)"

definition assets_dir :: "LocalRoots \<Rightarrow> string" where
  "assets_dir roots = path_push (lr_data_root roots) ''assets''"

definition prepare_default_initramfs :: "LaunchEnv \<Rightarrow> LocalRoots \<Rightarrow> VmSpec \<Rightarrow> msg + VmSpec" where
  "prepare_default_initramfs le roots spec =
     (if spec_initramfs spec \<noteq> None then Ok spec
      else
        let initramfs = path_push (assets_dir roots) ''initramfs'' in
        if le_is_file le initramfs then Ok (spec_kernel_mut (\<lambda>k. k\<lparr>k_initramfs := Some initramfs\<rparr>) spec)
        else Err (''missing boot asset: expected {} at {}; build or copy it there before starting the VM'',
          [''guest initramfs'', initramfs]))"

definition prepare_launch_spec :: "LaunchEnv \<Rightarrow> LocalRoots \<Rightarrow> string \<Rightarrow> VmSpec \<Rightarrow> msg + VmSpec" where
  "prepare_launch_spec le roots relative_mount_base spec =
     bind_result (normalize_mount_sources (le_home le) spec relative_mount_base) (prepare_default_initramfs le roots)"

section \<open>The guest agent\<close>

definition build_forward_config :: "LaunchEnv \<Rightarrow> VmSpec \<Rightarrow> msg + AgentForwardConfig" where
  "build_forward_config le spec =
     (case (case sp_vsock spec of None \<Rightarrow> None | Some vsock \<Rightarrow> List.find (\<lambda>e. ve_name e = ''forward'') (vs_endpoints vsock)) of
        None \<Rightarrow> Ok AgentForwardConfig_default
      | Some endpoint \<Rightarrow>
          (case pl_config (ve_plugin endpoint) of
             None \<Rightarrow> Ok \<lparr>af_enabled = True, af_port = ve_port endpoint, af_uds = []\<rparr>
           | Some json \<Rightarrow>
               (case le_forward_uds le json of
                  None \<Rightarrow> Err (msg ''decode forward endpoint plugin config'')
                | Some uds \<Rightarrow> Ok \<lparr>af_enabled = True, af_port = ve_port endpoint, af_uds = uds\<rparr>)))"

definition build_provision_network_config :: "VmmonNetworkAttachment \<Rightarrow> msg + NetworkInterfaceConfig list" where
  "build_provision_network_config network =
     (case network of
        AttNone \<Rightarrow> Ok []
      | AttVzNat _ \<Rightarrow>
          Ok [\<lparr>nf_name = ''en'', nf_matches = \<lparr>nm_driver = Some ''virtio_net'', nm_mac_address = None\<rparr>,
               nf_dhcp4 = True, nf_dhcp6 = False\<rparr>]
      | AttUnixDatagram _ mac \<Rightarrow>
          (case parse_mac mac of
             Inl e \<Rightarrow> Err (''parse MAC address {}'', [mac])
           | Inr parsed \<Rightarrow>
               Ok [\<lparr>nf_name = ''bento'', nf_matches = \<lparr>nm_driver = None, nm_mac_address = Some (format_mac parsed)\<rparr>,
                    nf_dhcp4 = True, nf_dhcp6 = False\<rparr>]))"

definition provision_mount_entries :: "VmSpec \<Rightarrow> MountConfig list" where
  "provision_mount_entries spec =
     map (\<lambda>mount. \<lparr>mo_tag = m_tag mount, mo_path = m_source mount, mo_fstype = ''virtiofs'',
       mo_options = (if m_read_only mount then [''ro'', ''nofail''] else [''rw'', ''nofail''])\<rparr>) (sp_mounts spec)"

definition detect_userdata_content_type :: "string \<Rightarrow> string" where
  "detect_userdata_content_type user_data =
     (let trimmed = trim_start user_data in
      if starts_with trimmed ''#cloud-config'' then ''text/cloud-config''
      else if starts_with trimmed ''#!'' then ''text/x-shellscript''
      else ''text/plain'')"

definition provision_userdata :: "VmSpec \<Rightarrow> msg + UserdataConfig option" where
  "provision_userdata spec =
     (case (case sp_boot spec of None \<Rightarrow> None | Some boot \<Rightarrow> b_userdata boot) of
        None \<Rightarrow> Ok None
      | Some user_data \<Rightarrow>
          let content_type = detect_userdata_content_type user_data in
          if content_type = ''text/x-shellscript''
          then Ok (Some \<lparr>ud_content = user_data, ud_content_type = ShellScript, ud_run = RunOnce\<rparr>)
          else Err (''guest provisioning only supports shell-script userdata right now; got {}'', [content_type]))"

definition pem_with_trailing_newline :: "string \<Rightarrow> string" where
  "pem_with_trailing_newline pem = trim_end pem @ [CHR 0x0A]"

definition build_provision_config ::
  "string \<Rightarrow> VmSpec \<Rightarrow> VmmonNetworkAttachment \<Rightarrow> GuestAgentHostContext \<Rightarrow> msg + ProvisionConfig" where
  "build_provision_config machine_name spec network ctx =
     (let user = \<lparr>us_name = hu_name (ho_user ctx), us_uid = hu_uid (ho_user ctx), us_gecos = hu_gecos (ho_user ctx),
            us_home = ''/home/'' @ hu_name (ho_user ctx), us_shell = ''/bin/bash'', us_sudo = ''ALL=(ALL) NOPASSWD:ALL'',
            us_lock_passwd = True, us_ssh_authorized_keys = [trim (ho_ssh_public_key_openssh ctx)]\<rparr>;
          authority = \<lparr>ca_path = ''/usr/local/share/ca-certificates/bento-ca.crt'',
            ca_pem = pem_with_trailing_newline (ho_certificate_authority_pem ctx), ca_update_trust = True\<rparr> in
      bind_result (build_provision_network_config network) (\<lambda>interfaces.
      bind_result (provision_userdata spec) (\<lambda>userdata.
        Ok \<lparr>pv_enabled = True, pv_hostname = Some machine_name, pv_timezone = Some (ho_timezone ctx),
            pv_locale = Some (ho_locale ctx), pv_resize_rootfs = True, pv_users = [user],
            pv_certificate_authority = Some authority, pv_interfaces = interfaces,
            pv_rosetta = AgentRosettaConfig_default\<lparr>ar_enabled :=
              (case sp_hardware spec of None \<Rightarrow> False | Some hw \<Rightarrow> (case hw_rosetta hw of None \<Rightarrow> False | Some b \<Rightarrow> b))\<rparr>,
            pv_mounts = provision_mount_entries spec, pv_userdata = userdata\<rparr>)))"

definition build_agent_config :: "LaunchEnv \<Rightarrow> string \<Rightarrow> VmSpec \<Rightarrow> VmmonNetworkAttachment \<Rightarrow> msg + AgentConfig" where
  "build_agent_config le machine_name spec network =
     bind_result (le_host le) (\<lambda>ctx.
     bind_result (build_forward_config le spec) (\<lambda>forward.
     bind_result (build_provision_config machine_name spec network ctx) (\<lambda>provision.
       Ok \<lparr>ag_forward = forward, ag_provision = provision\<rparr>)))"

section \<open>The command line of the monitor\<close>

definition to_vmmon_arg :: "VmmonNetworkAttachment \<Rightarrow> string" where
  "to_vmmon_arg network =
     (case network of
        AttNone \<Rightarrow> ''none''
      | AttVzNat None \<Rightarrow> ''vznat''
      | AttVzNat (Some mac) \<Rightarrow> ''vznat,mac='' @ mac
      | AttUnixDatagram path mac \<Rightarrow> ''unixdg,'' @ path @ '',mac='' @ mac)"

record MachineExitCommand =
  ec_command :: string
  ec_args :: "string list"

definition append_exit_command_args :: "MachineExitCommand \<Rightarrow> string list" where
  "append_exit_command_args c =
     [''--exit-command'', ec_command c] @ concat (map (\<lambda>arg. [''--exit-command-arg'', arg]) (ec_args c))"

definition DEFAULT_GUEST_READINESS_TIMEOUT :: nat where "DEFAULT_GUEST_READINESS_TIMEOUT = 300"

text \<open>The files all lie in the directory of the machine; the specification names it \<open>machine_dir\<close>.\<close>

definition vmmon_command ::
  "string \<Rightarrow> MachineConfig \<Rightarrow> VmmonNetworkAttachment \<Rightarrow> string \<Rightarrow> MachineExitCommand option \<Rightarrow> string list" where
  "vmmon_command dir config network run_id exit_command =
     [''--id'', MachineId_to_string (mc_id config), ''--name'', mc_name config, ''--data-dir'', mc_machine_dir config,
      ''--pidfile'', vmmon_pid_path dir, ''--exit-status'', vmmon_exit_status_path dir, ''--config'', vm_spec_path_in dir,
      ''--socket'', vmmon_socket_path dir, ''--serial-log'', serial_log_path dir, ''--trace-log'', vmmon_trace_log_path_in dir,
      ''--network'', to_vmmon_arg network, ''--metadata-config'', metadata_config_path_in dir, ''--run-id'', run_id,
      ''--wait-for-registration'', decimal DEFAULT_GUEST_READINESS_TIMEOUT] @
     (case exit_command of None \<Rightarrow> [] | Some c \<Rightarrow> append_exit_command_args c)"

section \<open>The report of the monitor\<close>

datatype StartupResult = Started | Failed string

definition read_line :: "string \<Rightarrow> string" where
  "read_line s = (let l = takeWhile (\<lambda>c. c \<noteq> CHR 0x0A) s in if length l < length s then l @ [CHR 0x0A] else l)"

definition read_syncpipe :: "string \<Rightarrow> msg + StartupResult" where
  "read_syncpipe piped =
     (let input = read_line piped in
      if input = ''started'' @ [CHR 0x0A] then Ok Started
      else if starts_with input (''failed'' @ [CHR 0x09]) then
        Ok (Failed (trim_end (drop (length (''failed'' @ [CHR 0x09])) input)))
      else if input = [] then Err (msg ''vmmon exited before reporting syncpipe result'')
      else Err (''unexpected vmmon syncpipe message: {}'', [input]))"

end
