(* ===== verification/Vm_Runtime.thy ===== *)
theory Vm_Runtime
  imports Vm_Launch
begin

text \<open>
  The runtime of \<open>libvm\<close> (\<open>runtime/libvm/src/runtime/core.rs\<close>): observing a machine through its pid file,
  its process and its exit file, reconciling the persisted state with what is observed, the transitions
  that the lifecycle operations request, machine locks around an operation, and inspection.
\<close>

section \<open>The runtime handle\<close>

record Runtime =
  rt_env :: Env
  rt_net :: NetEnv
  rt_launch :: LaunchEnv
  rt_roots :: LocalRoots
  rt_networking :: RuntimeNetworkingConfig

record RuntimeStatus =
  rs_state :: MachineRuntimeState
  rs_pid :: "int option"
  rs_started_at :: "int option"
  rs_run_id :: "string option"
  rs_last_error :: "msg option"

definition from_machine_state :: "MachineState \<Rightarrow> RuntimeStatus" where
  "from_machine_state s =
     \<lparr>rs_state = ms_status s, rs_pid = ms_vmmon_pid s, rs_started_at = ms_started_at s, rs_run_id = ms_run_id s,
      rs_last_error = ms_last_error s\<rparr>"

definition RuntimeStatus_is_active :: "RuntimeStatus \<Rightarrow> bool" where
  "RuntimeStatus_is_active s \<longleftrightarrow> rs_state s \<in> {Starting, Running, Stopping}"

record VmmonRunIdentity =
  vr_pid :: int
  vr_started_at :: "int option"
  vr_run_id :: "string option"

definition stopped_machine_state :: "MachineId \<Rightarrow> msg option \<Rightarrow> int \<Rightarrow> MachineState" where
  "stopped_machine_state mid last_error now =
     \<lparr>ms_machine_id = mid, ms_status = Stopped, ms_vmmon_pid = None, ms_started_at = None, ms_run_id = None,
      ms_last_error = last_error, ms_updated_at = now\<rparr>"

definition stored_machine_state :: "Runtime \<Rightarrow> MachineId \<Rightarrow> MachineState option vm" where
  "stored_machine_state rt mid = db_read (machine_state_row (e_uuid (rt_env rt)) mid)"

definition machine_state :: "Runtime \<Rightarrow> MachineId \<Rightarrow> MachineState vm" where
  "machine_state rt mid =
     act_bind (stored_machine_state rt mid) (\<lambda>stored.
       case stored of
         Some state \<Rightarrow> act_return state
       | None \<Rightarrow> act_gets (\<lambda>w. stopped_machine_state mid None (w_now w)))"

section \<open>Observing\<close>

definition probe :: "Env \<Rightarrow> int option \<Rightarrow> int \<Rightarrow> World \<Rightarrow> ProcessIdentity option" where
  "probe env expected pid w =
     (case for_pid env pid w of
        None \<Rightarrow> None
      | Some identity \<Rightarrow> if matches_started_at env identity expected then Some identity else None)"

definition live_monitor_identity :: "Env \<Rightarrow> int option \<Rightarrow> int option \<Rightarrow> int option \<Rightarrow> World \<Rightarrow> ProcessIdentity option" where
  "live_monitor_identity env pid_from_file stored_pid expected_started_at w =
     (let stored = (case stored_pid of
            None \<Rightarrow> None
          | Some pid \<Rightarrow> if pid_from_file = Some pid then None else probe env expected_started_at pid w) in
      case pid_from_file of
        None \<Rightarrow> stored
      | Some pid \<Rightarrow> (case probe env expected_started_at pid w of Some identity \<Rightarrow> Some identity | None \<Rightarrow> stored))"

definition runtime_exit_matches :: "VmmonExitStatus \<Rightarrow> MachineState option \<Rightarrow> bool" where
  "runtime_exit_matches status state =
     (case state of
        None \<Rightarrow> True
      | Some st \<Rightarrow>
          (case es_run_id status of
             Some run_id \<Rightarrow> ms_run_id st = Some run_id
           | None \<Rightarrow> (case es_pid status of Some pid \<Rightarrow> ms_vmmon_pid st = Some pid | None \<Rightarrow> True)))"

definition exit_observed_event :: "VmmonExitStatus \<Rightarrow> Event" where
  "exit_observed_event status =
     (case es_outcome status of ExitClean \<Rightarrow> ExitObserved True None | ExitError \<Rightarrow> ExitObserved False (es_error status))"

definition STALE_STARTING_TIMEOUT :: int where "STALE_STARTING_TIMEOUT = 60"

definition saturating_sub_i64 :: "int \<Rightarrow> int \<Rightarrow> int" where
  "saturating_sub_i64 a b = max (- (2 ^ 63)) (min (2 ^ 63 - 1) (a - b))"

definition state_is_older_than :: "MachineState \<Rightarrow> int \<Rightarrow> int \<Rightarrow> bool" where
  "state_is_older_than state age now \<longleftrightarrow> age \<le> saturating_sub_i64 now (ms_updated_at state)"

definition transition_error :: "TransitionError \<Rightarrow> LibVmError" where
  "transition_error e =
     Io (case e of
           AlreadyActive \<Rightarrow> msg ''machine is already active''
         | NotRunning \<Rightarrow> msg ''machine is not running''
         | InvalidTransition st event \<Rightarrow> (''invalid transition from {} for event {}'', [as_str st, event])
         | StaleGeneration \<Rightarrow> msg ''event belongs to a stale runtime generation'')"

definition reduced :: "MachineState \<Rightarrow> Event \<Rightarrow> int \<Rightarrow> LibVmError + MachineState" where
  "reduced state event now = (case reduce state event now of Inl e \<Rightarrow> Err (transition_error e) | Inr s \<Rightarrow> Ok s)"

definition observed_event :: "Env \<Rightarrow> MachineId \<Rightarrow> MachineState option \<Rightarrow> int option \<Rightarrow> VmmonExitStatus option \<Rightarrow> World \<Rightarrow> Event option" where
  "observed_event env mid runtime pid_from_file exit_status w =
     (let current = (case runtime of Some st \<Rightarrow> ms_status st | None \<Rightarrow> Stopped);
          stored_started = (case runtime of Some st \<Rightarrow> ms_started_at st | None \<Rightarrow> None);
          live = live_monitor_identity env pid_from_file (case runtime of Some st \<Rightarrow> ms_vmmon_pid st | None \<Rightarrow> None) stored_started w;
          matching = (case exit_status of Some e \<Rightarrow> if runtime_exit_matches e runtime \<and> live = None then Some e else None | None \<Rightarrow> None);
          stale = (case runtime of Some st \<Rightarrow> state_is_older_than st STALE_STARTING_TIMEOUT (w_now w) | None \<Rightarrow> False) in
      case matching of
        Some e \<Rightarrow> Some (exit_observed_event e)
      | None \<Rightarrow>
          (case live of
             Some identity \<Rightarrow>
               Some (MonitorObserved (pi_pid identity)
                 (case pi_started_at identity of
                    Some t \<Rightarrow> t
                  | None \<Rightarrow> (case stored_started of Some t \<Rightarrow> t | None \<Rightarrow> pid_file_mtime mid w))
                 (case runtime of Some st \<Rightarrow> ms_run_id st | None \<Rightarrow> None))
           | None \<Rightarrow>
               if current = Starting then (if stale then Some StartTimedOut else None)
               else Some (MonitorGone (case runtime of Some st \<Rightarrow> ms_last_error st | None \<Rightarrow> None))))"

definition observe :: "Env \<Rightarrow> MachineId \<Rightarrow> MachineState option \<Rightarrow> World \<Rightarrow> LibVmError + MachineState" where
  "observe env mid runtime w =
     (case read_monitor_pid mid w of
        Inl OtherIo \<Rightarrow> Err (Io (msg ''parse monitor pid''))
      | Inl AlreadyExists \<Rightarrow> Err (Io (msg ''parse monitor pid''))
      | pid \<Rightarrow>
          let pid_from_file = (case pid of Inr p \<Rightarrow> Some p | Inl _ \<Rightarrow> None);
              stored_state = (case runtime of Some st \<Rightarrow> st | None \<Rightarrow> stopped_machine_state mid None (w_now w)) in
          bind_result (exit_status_read mid w) (\<lambda>exit_status.
            case observed_event env mid runtime pid_from_file exit_status w of
              Some event \<Rightarrow> reduced stored_state event (w_now w)
            | None \<Rightarrow> Ok (stored_state\<lparr>ms_vmmon_pid := None, ms_started_at := None, ms_last_error := None, ms_updated_at := w_now w\<rparr>)))"

text \<open>Reading the files and probing the process may fail.\<close>

definition observe_machine_state :: "Runtime \<Rightarrow> MachineConfig \<Rightarrow> MachineState option \<Rightarrow> MachineState vm" where
  "observe_machine_state rt metadata runtime =
     act_bind (io_get (observe (rt_env rt) (mc_id metadata) runtime)) act_result"

definition machine_state_needs_writeback :: "MachineState option \<Rightarrow> MachineState \<Rightarrow> bool" where
  "machine_state_needs_writeback persisted observed =
     (case persisted of
        None \<Rightarrow> True
      | Some p \<Rightarrow>
          ms_status p \<noteq> ms_status observed \<or> ms_vmmon_pid p \<noteq> ms_vmmon_pid observed \<or>
          ms_started_at p \<noteq> ms_started_at observed \<or> ms_run_id p \<noteq> ms_run_id observed \<or>
          ms_last_error p \<noteq> ms_last_error observed)"

section \<open>Reconciling\<close>

definition reconcile_machine_runtime_locked :: "Runtime \<Rightarrow> MachineConfig \<Rightarrow> RuntimeStatus vm" where
  "reconcile_machine_runtime_locked rt metadata =
     act_bind (stored_machine_state rt (mc_id metadata)) (\<lambda>persisted.
     act_bind (observe_machine_state rt metadata persisted) (\<lambda>observed.
     act_seq (act_when (machine_state_needs_writeback persisted observed) (db_write (save_machine_state observed)))
       (act_return (from_machine_state observed))))"

section \<open>Locks\<close>

text \<open>
  Waiting for a lock returns when no other process holds it; until then the call does not return, and
  \<open>Vm_Locks\<close> shows what other processes do meanwhile.  This process is number 0.
\<close>

definition acquire_machine_lock :: "u32 \<Rightarrow> nat vm" where
  "acquire_machine_lock lid =
     act_seq (may_fail (Io (msg ''input/output error'')))
       (act_state (\<lambda>w.
         let (i, fs) = open_lock_file lid (w_locks w) in
         map_option (\<lambda>fs'. (w\<lparr>w_locks := fs'\<rparr>, i)) (try_flock 0 i fs)))"

definition try_acquire_machine_lock :: "u32 \<Rightarrow> nat option vm" where
  "try_acquire_machine_lock lid =
     act_seq (may_fail (Io (msg ''input/output error'')))
       (act_state (\<lambda>w. let (r, fs) = try_lock 0 lid (w_locks w) in Some (w\<lparr>w_locks := fs\<rparr>, r)))"

definition release_machine_lock :: "nat \<Rightarrow> World \<Rightarrow> World" where
  "release_machine_lock i w = w\<lparr>w_locks := drop_guard i (w_locks w)\<rparr>"

definition resolve_by_id :: "Runtime \<Rightarrow> MachineId \<Rightarrow> MachineConfig vm" where
  "resolve_by_id rt mid = db_read (resolve_machine_config (e_uuid (rt_env rt)) (RefId mid))"

text \<open>The body runs with the lock, which is released when it returns.\<close>

definition with_locked_machine :: "Runtime \<Rightarrow> MachineId \<Rightarrow> (MachineConfig \<Rightarrow> 'a vm) \<Rightarrow> 'a vm" where
  "with_locked_machine rt mid body =
     act_bind (resolve_by_id rt mid) (\<lambda>initial.
     act_bind (acquire_machine_lock (mc_lock_id initial)) (\<lambda>lock.
       act_finally
         (act_bind (resolve_by_id rt mid) (\<lambda>config.
           if mc_lock_id config \<noteq> mc_lock_id initial then
             act_throw (Io (''machine {} lock id changed from {} to {} while acquiring lock'',
               [MachineId_to_string mid, decimal (unat (mc_lock_id initial)), decimal (unat (mc_lock_id config))]))
           else body config))
         (release_machine_lock lock)))"

definition reconcile_machine_runtime_best_effort :: "Runtime \<Rightarrow> MachineConfig \<Rightarrow> RuntimeStatus vm" where
  "reconcile_machine_runtime_best_effort rt metadata =
     act_bind (stored_machine_state rt (mc_id metadata)) (\<lambda>persisted.
     act_bind (observe_machine_state rt metadata persisted) (\<lambda>observed.
     if machine_state_needs_writeback persisted observed then
       act_bind (try_acquire_machine_lock (mc_lock_id metadata)) (\<lambda>lock.
         case lock of
           None \<Rightarrow> act_bind (machine_state rt (mc_id metadata)) (\<lambda>state. act_return (from_machine_state state))
         | Some i \<Rightarrow> act_finally (reconcile_machine_runtime_locked rt metadata) (release_machine_lock i))
     else act_return (from_machine_state observed)))"

definition refresh_active_machine_states :: "Runtime \<Rightarrow> unit vm" where
  "refresh_active_machine_states rt =
     act_bind (db_read (list_machine_configs (e_uuid (rt_env rt)))) (\<lambda>configs.
       act_each (\<lambda>config.
         act_bind (machine_state rt (mc_id config)) (\<lambda>state.
           if \<not> RuntimeStatus_is_active (from_machine_state state) then act_return ()
           else
             act_bind (try_acquire_machine_lock (mc_lock_id config)) (\<lambda>lock.
               case lock of
                 None \<Rightarrow> act_return ()
               | Some i \<Rightarrow>
                   act_finally
                     (act_bind (reconcile_machine_runtime_locked rt config) (\<lambda>status.
                       reconcile_network_runtime (rt_env rt) config (RuntimeStatus_is_active status)))
                     (release_machine_lock i)))) configs)"

definition list_reconciled_configs :: "Runtime \<Rightarrow> MachineConfig list vm" where
  "list_reconciled_configs rt =
     act_bind (db_read (list_machine_configs (e_uuid (rt_env rt)))) (\<lambda>machines.
       act_seq (act_each (\<lambda>config. act_bind (reconcile_machine_runtime_best_effort rt config) (\<lambda>_. act_return ())) machines)
         (act_return machines))"

section \<open>Transitions\<close>

definition set_machine_state ::
  "MachineId \<Rightarrow> MachineRuntimeState \<Rightarrow> int option \<Rightarrow> int option \<Rightarrow> string option \<Rightarrow> msg option \<Rightarrow> unit vm" where
  "set_machine_state mid status vmmon_pid started_at run_id last_error =
     act_bind (act_gets w_now) (\<lambda>now.
       db_write (save_machine_state
         \<lparr>ms_machine_id = mid, ms_status = status, ms_vmmon_pid = vmmon_pid, ms_started_at = started_at, ms_run_id = run_id,
          ms_last_error = last_error, ms_updated_at = now\<rparr>))"

definition transition_machine_state :: "MachineState \<Rightarrow> Event \<Rightarrow> MachineState vm" where
  "transition_machine_state state event =
     act_bind (act_gets w_now) (\<lambda>now.
     act_bind (act_result (reduced state event now)) (\<lambda>next.
       act_seq (db_write (save_machine_state next)) (act_return next)))"

definition transition_current_machine_state :: "Runtime \<Rightarrow> MachineId \<Rightarrow> Event \<Rightarrow> unit vm" where
  "transition_current_machine_state rt mid event =
     act_bind (machine_state rt mid) (\<lambda>state. act_bind (transition_machine_state state event) (\<lambda>_. act_return ()))"

definition request_machine_start :: "Runtime \<Rightarrow> MachineId \<Rightarrow> string \<Rightarrow> unit vm" where
  "request_machine_start rt mid run_id = transition_current_machine_state rt mid (StartRequested run_id)"

definition mark_machine_monitor_ready :: "Runtime \<Rightarrow> MachineId \<Rightarrow> string \<Rightarrow> int \<Rightarrow> int \<Rightarrow> unit vm" where
  "mark_machine_monitor_ready rt mid run_id pid started_at =
     transition_current_machine_state rt mid (MonitorReady run_id pid started_at)"

definition mark_machine_start_failed :: "Runtime \<Rightarrow> MachineId \<Rightarrow> string \<Rightarrow> StartFailure \<Rightarrow> msg option \<Rightarrow> unit vm" where
  "mark_machine_start_failed rt mid run_id failure error =
     transition_current_machine_state rt mid (StartFailed run_id failure error)"

definition mark_machine_stopped :: "MachineId \<Rightarrow> msg option \<Rightarrow> unit vm" where
  "mark_machine_stopped mid last_error = set_machine_state mid Stopped None None None last_error"

definition request_machine_stop :: "Runtime \<Rightarrow> MachineId \<Rightarrow> VmmonRunIdentity \<Rightarrow> unit vm" where
  "request_machine_stop rt mid generation =
     transition_current_machine_state rt mid (StopRequested (vr_pid generation) (vr_started_at generation) (vr_run_id generation))"

definition vmmon_run_identity_matches :: "MachineState \<Rightarrow> VmmonRunIdentity \<Rightarrow> bool" where
  "vmmon_run_identity_matches state generation \<longleftrightarrow>
     (vr_run_id generation \<noteq> None \<longrightarrow> ms_run_id state = vr_run_id generation) \<and>
     ms_vmmon_pid state = Some (vr_pid generation) \<and>
     (vr_started_at generation \<noteq> None \<longrightarrow> ms_started_at state = vr_started_at generation)"

definition vmmon_run_is_alive :: "Env \<Rightarrow> VmmonRunIdentity \<Rightarrow> World \<Rightarrow> bool" where
  "vmmon_run_is_alive env generation w \<longleftrightarrow> probe env (vr_started_at generation) (vr_pid generation) w \<noteq> None"

definition cleanup_machine_resources_locked :: "Runtime \<Rightarrow> MachineConfig \<Rightarrow> unit vm" where
  "cleanup_machine_resources_locked rt config = reconcile_network_runtime (rt_env rt) config False"

definition complete_stop_locked :: "Runtime \<Rightarrow> MachineConfig \<Rightarrow> VmmonRunIdentity \<Rightarrow> msg option \<Rightarrow> unit vm" where
  "complete_stop_locked rt config generation last_error =
     act_bind (machine_state rt (mc_id config)) (\<lambda>state.
     if \<not> vmmon_run_identity_matches state generation then act_return ()
     else
       act_bind (io_get (vmmon_run_is_alive (rt_env rt) generation)) (\<lambda>alive.
       if alive then act_return ()
       else
         act_bind (act_gets w_now) (\<lambda>now.
         case reduce state (StopCompleted (vr_pid generation) (vr_started_at generation) (vr_run_id generation) last_error) now of
           Inl StaleGeneration \<Rightarrow> act_return ()
         | Inl err \<Rightarrow> act_throw (transition_error err)
         | Inr next \<Rightarrow> act_seq (db_write (save_machine_state next)) (cleanup_machine_resources_locked rt config))))"

section \<open>Records, networks and launch inputs\<close>

definition validate_machine_network_config :: "MachineNetworkConfig \<Rightarrow> unit vm" where
  "validate_machine_network_config network =
     (case network of
        NetNamed name \<Rightarrow>
          act_bind (act_result (case validate_network_name name of Inl m \<Rightarrow> Err (NetworkRuntime name m) | Inr u \<Rightarrow> Ok u)) (\<lambda>_.
          act_bind (db_read (\<lambda>s. Ok (network_definition name s))) (\<lambda>d.
            if d = None then act_throw (NetworkRuntime name (''named network {} is not defined'', [name])) else act_return ()))
      | _ \<Rightarrow> act_return ())"

text \<open>
  Removing the directory of a machine: the directory and every file below it.  The monitor files and the
  network link of a machine lie there too.
\<close>

definition below :: "string \<Rightarrow> string \<Rightarrow> bool" where
  "below dir path \<longleftrightarrow> starts_with path (dir @ ''/'')"

definition remove_dir_all :: "MachineId \<Rightarrow> string \<Rightarrow> World \<Rightarrow> World" where
  "remove_dir_all mid dir w =
     w\<lparr>w_dirs := {d \<in> w_dirs w. d \<noteq> dir \<and> \<not> below dir d},
       w_disks := (\<lambda>p. if below dir p then None else w_disks w p),
       w_specs := (\<lambda>p. if below dir p then None else w_specs w p),
       w_agent_configs := (\<lambda>p. if below dir p then None else w_agent_configs w p),
       w_pid_files := (w_pid_files w)(mid := None), w_exit_files := (w_exit_files w)(mid := None),
       w_net_links := (w_net_links w)(mid := None)\<rparr>"

definition remove_machine_records :: "MachineConfig \<Rightarrow> unit vm" where
  "remove_machine_records config =
     act_seq (db_write (\<lambda>s. Ok (remove_machine config s)))
       (io (\<lambda>w. w\<lparr>w_locks := free (mc_lock_id config) (w_locks w)\<rparr>))"

definition prepare_vmmon_launch_inputs :: "Runtime \<Rightarrow> MachineConfig \<Rightarrow> VmmonNetworkAttachment \<Rightarrow> unit vm" where
  "prepare_vmmon_launch_inputs rt config network =
     (let fail = (\<lambda>m. MachinePreparationFailed (mc_name config) m);
          dir = machine_path (rt_roots rt) (mc_id config);
          prepared =
            bind_result (le_cwd (rt_launch rt)) (\<lambda>base.
            bind_result (prepare_launch_spec (rt_launch rt) (rt_roots rt) base (mc_spec config)) (\<lambda>spec.
            bind_result (build_agent_config (rt_launch rt) (mc_name config) spec network) (\<lambda>agent. Ok (spec, agent)))) in
      case prepared of
        Inl m \<Rightarrow> act_throw (fail m)
      | Inr (spec, agent) \<Rightarrow>
          act_catch
            (act_seq (io (\<lambda>w. w\<lparr>w_specs := (w_specs w)(vm_spec_path_in dir \<mapsto> spec)\<rparr>))
              (io (\<lambda>w. w\<lparr>w_agent_configs := (w_agent_configs w)(metadata_config_path_in dir \<mapsto> agent)\<rparr>)))
            (\<lambda>_. act_throw (fail (msg ''write launch inputs''))))"

definition remove_vmmon_exit_status :: "MachineConfig \<Rightarrow> unit vm" where
  "remove_vmmon_exit_status config = io (\<lambda>w. w\<lparr>w_exit_files := (w_exit_files w)(mc_id config := None)\<rparr>)"

definition write_machine_config :: "string \<Rightarrow> VmSpec \<Rightarrow> unit vm" where
  "write_machine_config machine_dir spec = io (\<lambda>w. w\<lparr>w_specs := (w_specs w)(vm_spec_path_in machine_dir \<mapsto> spec)\<rparr>)"

section \<open>Inspection\<close>

datatype MachineStatus =
    StatusStopped
  | StatusStarting "string option"
  | StatusRunning bool "string option"
  | StatusStopping "string option"
  | StatusError "string option"

definition non_empty_message :: "string option \<Rightarrow> string option" where
  "non_empty_message m = (case m of None \<Rightarrow> None | Some s \<Rightarrow> let t = trim s in if t = [] then None else Some t)"

definition render :: "msg \<Rightarrow> string" where
  "render m = render_msg (fst m) (snd m)"

definition MachineStatus_from_machine_state :: "MachineRuntimeState \<Rightarrow> msg option \<Rightarrow> MachineStatus" where
  "MachineStatus_from_machine_state state last_error =
     (case state of
        Stopped \<Rightarrow> StatusStopped
      | Starting \<Rightarrow> StatusStarting None
      | Running \<Rightarrow> StatusRunning False None
      | Stopping \<Rightarrow> StatusStopping None
      | Error \<Rightarrow> StatusError (non_empty_message (map_option render last_error)))"

text \<open>The lifecycle states of the protocol: 0 unspecified, 1 starting, 2 running, 3 stopping, 4 stopped, 5 error.\<close>

definition MachineStatus_from_protocol :: "InspectResponse \<Rightarrow> MachineStatus" where
  "MachineStatus_from_protocol response =
     (let message = non_empty_message (Some (in_summary response));
          guest_ready = (in_ready response \<and> in_guest_state response = 2) in
      if in_vm_state response = 4 then StatusStopped
      else if in_vm_state response = 1 then StatusStarting message
      else if in_vm_state response = 3 then StatusStopping message
      else if in_vm_state response = 5 then StatusError message
      else StatusRunning guest_ready message)"

definition running_with_message :: "string \<Rightarrow> MachineStatus" where
  "running_with_message message = StatusRunning False (non_empty_message (Some message))"

record MachineData =
  md_config :: MachineConfig
  md_status :: MachineStatus
  md_started_at :: "int option"
  md_last_error :: "msg option"
  md_updated_at :: int

definition machine_inspect_data :: "Runtime \<Rightarrow> MachineConfig \<Rightarrow> MachineData vm" where
  "machine_inspect_data rt config =
     act_bind (reconcile_machine_runtime_best_effort rt config) (\<lambda>runtime_status.
     act_bind (machine_state rt (mc_id config)) (\<lambda>state.
     act_bind (act_gets (\<lambda>w.
       if is_running (rs_state runtime_status) then
         (case e_inspect (rt_env rt) (mc_id config) w of
            Inr response \<Rightarrow> MachineStatus_from_protocol response
          | Inl message \<Rightarrow> running_with_message (''vmmon inspect failed: '' @ render message))
       else MachineStatus_from_machine_state (ms_status state) (ms_last_error state))) (\<lambda>status.
       act_return \<lparr>md_config = config, md_status = status, md_started_at = ms_started_at state,
         md_last_error = ms_last_error state, md_updated_at = ms_updated_at state\<rparr>)))"

end
