(* ===== verification/Vm_Lifecycle.thy ===== *)
theory Vm_Lifecycle
  imports Vm_Runtime
begin

text \<open>
  The operations on a machine (\<open>runtime/libvm/src/machine/lifecycle.rs\<close>): start, stop, wait, kill, cleanup
  and remove, with the locking, the reconciliation and the error paths of the source.
\<close>

section \<open>Exits\<close>

datatype MachineExitOutcome = OutcomeClean | OutcomeError "msg option" | AlreadyStopped | Forced | Unknown

record MachineExit =
  me_machine :: MachineData
  me_run_id :: "string option"
  me_exited_at :: "nat option"
  me_outcome :: MachineExitOutcome

definition exit_status_matches_generation :: "VmmonExitStatus \<Rightarrow> VmmonRunIdentity \<Rightarrow> bool" where
  "exit_status_matches_generation status generation =
     (case es_run_id status of
        Some run_id \<Rightarrow> vr_run_id generation = Some run_id
      | None \<Rightarrow> (case es_pid status of Some pid \<Rightarrow> vr_pid generation = pid | None \<Rightarrow> True))"

definition unix_time :: "int \<Rightarrow> nat option" where
  "unix_time timestamp = (if timestamp < 0 then None else Some (nat timestamp))"

definition machine_exit :: "MachineData \<Rightarrow> VmmonRunIdentity \<Rightarrow> bool \<Rightarrow> VmmonExitStatus option \<Rightarrow> MachineExit" where
  "machine_exit machine generation forced exit_status =
     (let matching = (case exit_status of
            Some status \<Rightarrow> if exit_status_matches_generation status generation then Some status else None
          | None \<Rightarrow> None);
          (exited_at, outcome) = (case matching of
            Some status \<Rightarrow>
              (unix_time (es_exited_at status),
               (case es_outcome status of ExitClean \<Rightarrow> OutcomeClean | ExitError \<Rightarrow> OutcomeError (es_error status)))
          | None \<Rightarrow> (None, if forced then Forced else Unknown)) in
      \<lparr>me_machine = machine, me_run_id = vr_run_id generation, me_exited_at = exited_at, me_outcome = outcome\<rparr>)"

record WaitTarget =
  wt_config :: MachineConfig
  wt_generation :: VmmonRunIdentity
  wt_stop_requested :: bool
  wt_forced :: bool

definition generation_of :: "MachineId \<Rightarrow> int \<Rightarrow> int option \<Rightarrow> string option \<Rightarrow> World \<Rightarrow> VmmonRunIdentity" where
  "generation_of mid pid started_at run_id w =
     \<lparr>vr_pid = pid, vr_started_at = Some (case started_at of Some t \<Rightarrow> t | None \<Rightarrow> pid_file_mtime mid w), vr_run_id = run_id\<rparr>"

section \<open>Root disks\<close>

definition resize_raw_disk :: "string \<Rightarrow> u64 \<Rightarrow> unit vm" where
  "resize_raw_disk path size_bytes =
     act_bind (io_get (\<lambda>w. w_disks w path)) (\<lambda>found.
       case found of
         None \<Rightarrow> act_throw (RootDisk (msg ''I/O failure''))
       | Some current_size \<Rightarrow>
           if size_bytes < current_size then
             act_throw (RootDisk (''refusing to shrink raw disk {} from {} to {}'',
               [path, format_storage_size current_size, format_storage_size size_bytes]))
           else io (\<lambda>w. w\<lparr>w_disks := (w_disks w)(path \<mapsto> size_bytes)\<rparr>))"

definition reconcile_root_disk_size :: "MachineConfig \<Rightarrow> unit vm" where
  "reconcile_root_disk_size config =
     (case mc_root_disk_size config of
        None \<Rightarrow> act_return ()
      | Some desired_size \<Rightarrow> resize_raw_disk (root_disk_path (mc_machine_dir config)) desired_size)"

section \<open>Start\<close>

definition Vmmon_spawn :: "Runtime \<Rightarrow> MachineConfig \<Rightarrow> VmmonNetworkAttachment \<Rightarrow> string \<Rightarrow> MachineExitCommand option \<Rightarrow> unit vm" where
  "Vmmon_spawn rt config network run_id exit_command =
     act_bind
       (act_state (\<lambda>w.
         let args = vmmon_command (machine_path (rt_roots rt) (mc_id config)) config network run_id exit_command;
             (outcome, change) = e_spawn (rt_env rt) args w in
         Some (apply_change (mc_id config) change w, outcome)))
       (\<lambda>outcome.
         case outcome of
           SpawnError e \<Rightarrow> act_throw e
         | NoReport \<Rightarrow> act_throw (Io (msg ''vmmon syncpipe did not report readiness''))
         | Reported text \<Rightarrow>
             (case read_syncpipe text of
                Inl m \<Rightarrow> act_throw (Io m)
              | Inr Started \<Rightarrow> act_return ()
              | Inr (Failed message) \<Rightarrow> act_throw (Io (msg message))))"

text \<open>The text of an error, as its \<open>Display\<close> prints it.\<close>

fun error_text :: "LibVmError \<Rightarrow> msg" where
  "error_text DataDirUnavailable = msg ''could not resolve Bento data directory from XDG_DATA_HOME or HOME''"
| "error_text ConfigDirUnavailable = msg ''could not resolve Bento config directory from XDG_CONFIG_HOME or HOME''"
| "error_text (RelativeEnvironmentPath n p) = (''environment variable {} must be an absolute path, got {}'', [n, p])"
| "error_text (InvalidMachineName n m) = (''invalid machine name {:?}: {}'', [n, render m])"
| "error_text (InvalidMachineIdPrefix p m) = (''invalid machine id prefix {:?}: {}'', [p, render m])"
| "error_text (MachineAlreadyExists n) = (''machine {:?} already exists'', [n])"
| "error_text (MachineNameGenerationFailed k) =
     (''failed to generate a unique machine name after {} attempts'', [decimal (unat k)])"
| "error_text (MachineNotFound r) = (''machine {} not found'', [r])"
| "error_text (MachineIdAlreadyExists i) = (''machine {} already exists'', [i])"
| "error_text (MachineAlreadyRunning r) = (''machine {} is already running'', [r])"
| "error_text (MachineNotRunning r) = (''machine {} is not running'', [r])"
| "error_text (MonitorConnection r m) = (''monitor connection for {} failed: {}'', [r, render m])"
| "error_text (MonitorProtocol r m) = (''monitor protocol for {} failed: {}'', [r, render m])"
| "error_text (MachinePreparationFailed r m) = (''machine preparation for {} failed: {}'', [r, render m])"
| "error_text (NetworkRuntime r m) = (''network runtime for {} failed: {}'', [r, render m])"
| "error_text (VmMonExecutableNotFound p) = (''vmmon executable not found. Expected a sibling binary at {} or `vmmon` in PATH. Build it with `cargo build -p vmmon` (or `cargo build --release -p vmmon`).'', [p])"
| "error_text (InvalidCreateRequest n m) = (''invalid create request for machine {:?}: {}'', [n, render m])"
| "error_text (InvalidMachineUpdate r m) = (''invalid update for machine {:?}: {}'', [r, render m])"
| "error_text (UnsupportedHostArchitecture a) = (''unsupported host architecture {:?}'', [a])"
| "error_text (CorruptState i f) = (''machine {} metadata is missing required field {}'', [i, f])"
| "error_text (VmSpecSerializeFailed n m) = (''failed to serialize VmSpec for machine {:?}'', [n])"
| "error_text (VmSpecLoadFailed i p m) = (''failed to load VmSpec for machine {} from {}'', [i, p])"
| "error_text (AmbiguousIdPrefix p k) = (''ambiguous machine id prefix {:?} matched {} machines'', [p, decimal k])"
| "error_text (StateDecode f m) = (''failed to decode state field {}: {}'', [f, render m])"
| "error_text (StateDatabaseConfigMismatch f e a) =
     (''state database config mismatch for {}: expected {:?}, found {:?}'', [f, e, a])"
| "error_text (Database m) = m"
| "error_text (DatabaseMigration m) = m"
| "error_text (Io m) = m"
| "error_text (RootDisk m) = (''root disk operation failed: {}'', [render m])"

definition monitor_started_at :: "Env \<Rightarrow> int \<Rightarrow> MachineConfig \<Rightarrow> World \<Rightarrow> LibVmError + int" where
  "monitor_started_at env pid config w =
     (case for_pid env pid w of
        None \<Rightarrow> Err (MonitorConnection (mc_name config) (msg ''vmmon pid is not running''))
      | Some identity \<Rightarrow>
          Ok (case pi_started_at identity of Some t \<Rightarrow> t | None \<Rightarrow> pid_file_mtime (mc_id config) w))"

text \<open>After the monitor reported: an error of a call, whatever its cause, is recorded with \<open>mark_machine_start_error\<close> first.\<close>

definition marking_error :: "Runtime \<Rightarrow> MachineConfig \<Rightarrow> string \<Rightarrow> 'a vm \<Rightarrow> 'a vm" where
  "marking_error rt config run_id m =
     act_catch m (\<lambda>err.
       act_seq (mark_machine_start_failed rt (mc_id config) run_id FailError (Some (error_text err))) (act_throw err))"

definition finish_start :: "Runtime \<Rightarrow> MachineConfig \<Rightarrow> string \<Rightarrow> unit vm" where
  "finish_start rt config run_id =
     act_bind (marking_error rt config run_id
       (act_bind (io_get (read_monitor_pid (mc_id config))) (\<lambda>read.
         case read of Inl _ \<Rightarrow> act_throw (Io (msg ''read monitor pid'')) | Inr pid \<Rightarrow> act_return pid))) (\<lambda>pid.
     act_bind (marking_error rt config run_id
       (act_bind (io_get (monitor_started_at (rt_env rt) pid config)) act_result)) (\<lambda>started_at.
     mark_machine_monitor_ready rt (mc_id config) run_id pid started_at))"

definition launch_machine :: "Runtime \<Rightarrow> MachineConfig \<Rightarrow> MachineExitCommand option \<Rightarrow> unit vm" where
  "launch_machine rt config exit_command =
     act_bind (act_state (draw_random (rt_env rt))) (\<lambda>u.
     let run_id = uuid_hyphenated u in
     act_bind (prepare_network_runtime (rt_env rt) (rt_net rt) (rt_roots rt) config (rt_networking rt)) (\<lambda>resolved_network.
     act_seq (prepare_vmmon_launch_inputs rt config resolved_network)
       (act_seq (request_machine_start rt (mc_id config) run_id)
         (act_seq
           (act_catch (Vmmon_spawn rt config resolved_network run_id exit_command)
             (\<lambda>err.
               act_seq (mark_machine_start_failed rt (mc_id config) run_id FailStopped (Some (error_text err)))
                 (act_throw err)))
           (finish_start rt config run_id)))))"

definition start_locked :: "Runtime \<Rightarrow> MachineExitCommand option \<Rightarrow> MachineConfig \<Rightarrow> MachineConfig vm" where
  "start_locked rt exit_command config =
     act_bind (reconcile_machine_runtime_locked rt config) (\<lambda>status.
     act_seq (reconcile_network_runtime (rt_env rt) config (RuntimeStatus_is_active status))
       (if RuntimeStatus_is_active status then act_throw (MachineAlreadyRunning (mc_name config))
        else
          act_seq (reconcile_root_disk_size config)
            (act_seq (remove_vmmon_exit_status config)
              (act_seq (launch_machine rt config exit_command) (act_return config)))))"

definition start_with :: "Runtime \<Rightarrow> MachineId \<Rightarrow> MachineExitCommand option \<Rightarrow> MachineData vm" where
  "start_with rt mid exit_command =
     act_bind (with_locked_machine rt mid (start_locked rt exit_command)) (machine_inspect_data rt)"

section \<open>Waiting for the monitor\<close>

text \<open>
  A process handle: on Linux a pidfd names one process, elsewhere the birth time tells it apart.  Between
  two looks the runtime sleeps 200 ms, so that a deadline passes after at most \<open>polls\<close> of them.
\<close>

definition handle_is_alive :: "Env \<Rightarrow> int \<Rightarrow> int option \<Rightarrow> World \<Rightarrow> bool" where
  "handle_is_alive env pid birth w \<longleftrightarrow>
     (if e_linux env then w_procs w pid = Some birth
      else (case w_procs w pid of None \<Rightarrow> False | Some b \<Rightarrow> birth = None \<or> b = birth))"

definition sleep_poll :: "Env \<Rightarrow> MachineId \<Rightarrow> bool vm" where
  "sleep_poll env mid = act_state (\<lambda>w. let ch = e_poll env w in Some (apply_change mid ch w, ch_deadline ch))"

text \<open>The text of a timeout, without the duration it names.\<close>

definition wait_timed_out :: "MachineConfig \<Rightarrow> int \<Rightarrow> LibVmError" where
  "wait_timed_out config pid =
     Io (''timed out waiting for machine {:?} monitor pid {} to stop'', [mc_name config, decimal (nat pid)])"

fun wait_for_exit :: "Env \<Rightarrow> MachineConfig \<Rightarrow> int \<Rightarrow> int option \<Rightarrow> nat \<Rightarrow> bool \<Rightarrow> unit vm" where
  "wait_for_exit env config pid birth polls expired =
     act_bind (io_get (handle_is_alive env pid birth)) (\<lambda>alive.
       if \<not> alive then act_return ()
       else if expired then act_throw (wait_timed_out config pid)
       else case polls of
         0 \<Rightarrow> act_throw (wait_timed_out config pid)
       | Suc n \<Rightarrow> act_bind (sleep_poll env (mc_id config)) (wait_for_exit env config pid birth n))"

declare wait_for_exit.simps [simp del]

definition wait_for_monitor_stop :: "Env \<Rightarrow> MachineConfig \<Rightarrow> VmmonRunIdentity \<Rightarrow> nat \<Rightarrow> unit vm" where
  "wait_for_monitor_stop env config generation polls =
     act_bind (io_get (\<lambda>w. (probe env (vr_started_at generation) (vr_pid generation) w, w_procs w (vr_pid generation)))) (\<lambda>(found, birth).
       case found of
         None \<Rightarrow> act_return ()
       | Some _ \<Rightarrow> wait_for_exit env config (vr_pid generation) (case birth of Some b \<Rightarrow> b | None \<Rightarrow> None) polls False)"

definition wait_for_target_exit :: "Runtime \<Rightarrow> WaitTarget \<Rightarrow> nat \<Rightarrow> MachineExit vm" where
  "wait_for_target_exit rt target polls =
     act_seq (wait_for_monitor_stop (rt_env rt) (wt_config target) (wt_generation target) polls)
       (act_seq
         (with_locked_machine rt (mc_id (wt_config target)) (\<lambda>_.
           if wt_stop_requested target then complete_stop_locked rt (wt_config target) (wt_generation target) None
           else
             act_bind (reconcile_machine_runtime_locked rt (wt_config target)) (\<lambda>status.
               act_when (\<not> RuntimeStatus_is_active status) (cleanup_machine_resources_locked rt (wt_config target)))))
         (act_bind (act_bind (io_get (exit_status_read (mc_id (wt_config target)))) act_result) (\<lambda>exit_status.
          act_bind (machine_inspect_data rt (wt_config target)) (\<lambda>machine.
            act_return (machine_exit machine (wt_generation target) (wt_forced target) exit_status)))))"

section \<open>Stop and kill\<close>

datatype 'a stop_phase = Done 'a | Await WaitTarget

definition mark_stopped_and_clean :: "Runtime \<Rightarrow> MachineConfig \<Rightarrow> unit vm" where
  "mark_stopped_and_clean rt config =
     act_seq (mark_machine_stopped (mc_id config) None) (cleanup_machine_resources_locked rt config)"

definition request_stop_of :: "Runtime \<Rightarrow> MachineConfig \<Rightarrow> int \<Rightarrow> RuntimeStatus \<Rightarrow> bool \<Rightarrow> 'a stop_phase vm" where
  "request_stop_of rt config pid status forced =
     act_bind (act_gets (generation_of (mc_id config) pid (rs_started_at status) (rs_run_id status))) (\<lambda>generation.
     act_seq (request_machine_stop rt (mc_id config) generation)
       (act_return (Await \<lparr>wt_config = config, wt_generation = generation, wt_stop_requested = True, wt_forced = forced\<rparr>)))"

definition stop_locked :: "Runtime \<Rightarrow> MachineConfig \<Rightarrow> MachineData stop_phase vm" where
  "stop_locked rt config =
     act_bind (machine_state rt (mc_id config)) (\<lambda>previous_state.
     act_bind (reconcile_machine_runtime_locked rt config) (\<lambda>status.
     let inspect = act_bind (machine_inspect_data rt config) (\<lambda>d. act_return (Done d)) in
     if rs_state status \<in> {Stopped, Error} then
       (if ms_status previous_state = Stopping then act_seq (cleanup_machine_resources_locked rt config) inspect
        else act_throw (MachineNotRunning (mc_name config)))
     else case rs_pid status of
       None \<Rightarrow> act_seq (mark_stopped_and_clean rt config) inspect
     | Some pid \<Rightarrow>
         if rs_state status = Stopping then request_stop_of rt config pid status False
         else
           act_bind (interrupt_monitor pid) (\<lambda>sent.
             if sent then request_stop_of rt config pid status False
             else act_seq (mark_stopped_and_clean rt config) inspect)))"

definition stop_with :: "Runtime \<Rightarrow> MachineId \<Rightarrow> nat \<Rightarrow> MachineData vm" where
  "stop_with rt mid polls =
     act_bind (with_locked_machine rt mid (stop_locked rt)) (\<lambda>phase.
       case phase of
         Done d \<Rightarrow> act_return d
       | Await target \<Rightarrow> act_bind (wait_for_target_exit rt target polls) (\<lambda>exit. act_return (me_machine exit)))"

definition kill_locked :: "Runtime \<Rightarrow> MachineConfig \<Rightarrow> MachineExit stop_phase vm" where
  "kill_locked rt config =
     act_bind (reconcile_machine_runtime_locked rt config) (\<lambda>status.
     if rs_state status \<in> {Stopped, Error} then act_throw (MachineNotRunning (mc_name config))
     else case rs_pid status of
       None \<Rightarrow>
         act_seq (mark_stopped_and_clean rt config)
           (act_bind (machine_inspect_data rt config) (\<lambda>machine.
             act_return (Done \<lparr>me_machine = machine, me_run_id = rs_run_id status, me_exited_at = None, me_outcome = Unknown\<rparr>)))
     | Some pid \<Rightarrow>
         act_bind (act_gets (generation_of (mc_id config) pid (rs_started_at status) (rs_run_id status))) (\<lambda>generation.
         act_bind (kill_monitor_process_group pid) (\<lambda>killed.
           if \<not> killed then
             act_seq (mark_stopped_and_clean rt config)
               (act_bind (act_bind (io_get (exit_status_read (mc_id config))) act_result) (\<lambda>exit_status.
                act_bind (machine_inspect_data rt config) (\<lambda>machine.
                  act_return (Done (machine_exit machine generation False exit_status)))))
           else
             act_seq (request_machine_stop rt (mc_id config) generation)
               (act_return (Await
                 \<lparr>wt_config = config, wt_generation = generation, wt_stop_requested = True, wt_forced = True\<rparr>)))))"

definition kill_with :: "Runtime \<Rightarrow> MachineId \<Rightarrow> nat \<Rightarrow> MachineExit vm" where
  "kill_with rt mid polls =
     act_bind (with_locked_machine rt mid (kill_locked rt)) (\<lambda>phase.
       case phase of Done e \<Rightarrow> act_return e | Await target \<Rightarrow> wait_for_target_exit rt target polls)"

section \<open>Wait\<close>

definition active_wait_target :: "Runtime \<Rightarrow> MachineId \<Rightarrow> WaitTarget option vm" where
  "active_wait_target rt mid =
     with_locked_machine rt mid (\<lambda>config.
       act_bind (machine_state rt (mc_id config)) (\<lambda>state.
       act_bind (act_gets (\<lambda>w.
         if ms_status state \<in> {Starting, Running, Stopping} then
           map_option (\<lambda>pid. \<lparr>wt_config = config,
               wt_generation = generation_of (mc_id config) pid (ms_started_at state) (ms_run_id state) w,
               wt_stop_requested = False, wt_forced = False\<rparr>) (ms_vmmon_pid state)
         else None)) (\<lambda>stored_target.
       act_bind (reconcile_machine_runtime_locked rt config) (\<lambda>status.
         if \<not> RuntimeStatus_is_active status then act_return stored_target
         else case rs_pid status of
           None \<Rightarrow> act_return None
         | Some pid \<Rightarrow>
             act_gets (\<lambda>w. Some \<lparr>wt_config = config,
               wt_generation = generation_of (mc_id config) pid (rs_started_at status) (rs_run_id status) w,
               wt_stop_requested = False, wt_forced = False\<rparr>)))))"

text \<open>One round of \<open>wait_with\<close>: an exit, or another round after a sleep, during which the lock is still held.\<close>

definition wait_round :: "Runtime \<Rightarrow> MachineId \<Rightarrow> bool \<Rightarrow> (MachineExit + bool) vm" where
  "wait_round rt mid expired =
     with_locked_machine rt mid (\<lambda>config.
       act_bind (reconcile_machine_runtime_locked rt config) (\<lambda>status.
       act_bind (machine_inspect_data rt config) (\<lambda>machine.
         if \<not> RuntimeStatus_is_active status then
           act_return (Inl \<lparr>me_machine = machine, me_run_id = None, me_exited_at = None, me_outcome = AlreadyStopped\<rparr>)
         else if expired then
           act_return (Inl \<lparr>me_machine = machine, me_run_id = rs_run_id status, me_exited_at = None, me_outcome = Unknown\<rparr>)
         else act_bind (sleep_poll (rt_env rt) mid) (\<lambda>e. act_return (Inr e)))))"

fun wait_with :: "Runtime \<Rightarrow> MachineId \<Rightarrow> nat \<Rightarrow> bool \<Rightarrow> MachineExit vm" where
  "wait_with rt mid polls expired =
     act_bind (active_wait_target rt mid) (\<lambda>target.
       case target of
         Some t \<Rightarrow> wait_for_target_exit rt t polls
       | None \<Rightarrow>
           act_bind (wait_round rt mid (expired \<or> polls = 0)) (\<lambda>r.
             case r of
               Inl exit \<Rightarrow> act_return exit
             | Inr e \<Rightarrow> (case polls of 0 \<Rightarrow> act_panic | Suc n \<Rightarrow> wait_with rt mid n e)))"

declare wait_with.simps [simp del]

section \<open>Cleanup and removal\<close>

definition cleanup :: "Runtime \<Rightarrow> MachineId \<Rightarrow> MachineData vm" where
  "cleanup rt mid =
     with_locked_machine rt mid (\<lambda>config.
       act_bind (reconcile_machine_runtime_locked rt config) (\<lambda>status.
         if RuntimeStatus_is_active status then machine_inspect_data rt config
         else
           act_seq (act_when (rs_state status = Stopping) (mark_machine_stopped (mc_id config) None))
             (act_seq (cleanup_machine_resources_locked rt config) (machine_inspect_data rt config))))"

definition remove_locked :: "Runtime \<Rightarrow> MachineConfig \<Rightarrow> unit vm" where
  "remove_locked rt config =
     act_bind (reconcile_machine_runtime_locked rt config) (\<lambda>status.
     act_seq (reconcile_network_runtime (rt_env rt) config (RuntimeStatus_is_active status))
       (if RuntimeStatus_is_active status then act_throw (MachineAlreadyRunning (mc_name config))
        else
          act_seq (io (remove_dir_all (mc_id config) (mc_machine_dir config))) (remove_machine_records config)))"

definition remove :: "Runtime \<Rightarrow> MachineId \<Rightarrow> unit vm" where
  "remove rt mid = with_locked_machine rt mid (remove_locked rt)"

end
