(* ===== verification/Vm_Config.thy ===== *)
theory Vm_Config
  imports Vm_Lifecycle
begin

text \<open>
  Creating a machine (\<open>runtime/libvm/src/machine/builder.rs\<close>) and changing the settings of a stopped one
  (\<open>machine/config.rs\<close>, \<open>machine/update.rs\<close>).  A guard undoes a creation that fails after the directory or
  the lock was taken; a settings change that cannot be recorded writes the previous specification back.
  Disks are modelled by their sizes.
\<close>

section \<open>Settings\<close>

record MachineUpdate =
  up_name :: "string option"
  up_cpus :: "u8 option"
  up_memory :: "Memory option"
  up_root_disk_size :: "u64 option"
  up_nested_virtualization :: "bool option"
  up_rosetta :: "bool option"
  up_network :: "MachineNetworkConfig option"

definition update_is_empty :: "MachineUpdate \<Rightarrow> bool" where
  "update_is_empty u \<longleftrightarrow>
     up_name u = None \<and> up_cpus u = None \<and> up_memory u = None \<and> up_root_disk_size u = None \<and>
     up_nested_virtualization u = None \<and> up_rosetta u = None \<and> up_network u = None"

definition validate_root_disk_growth :: "MachineConfig \<Rightarrow> u64 \<Rightarrow> unit vm" where
  "validate_root_disk_growth config desired_size =
     act_bind (io_get (\<lambda>w. w_disks w (root_disk_path (mc_machine_dir config)))) (\<lambda>found.
       case found of
         None \<Rightarrow> act_throw (Io (msg ''No such file or directory''))
       | Some current_size \<Rightarrow>
           if desired_size < current_size then
             act_throw (InvalidMachineUpdate (mc_name config)
               (''root disk cannot be shrunk from {} to {}'', [format_storage_size current_size, format_storage_size desired_size]))
           else act_return ())"

definition refuse_active :: "Runtime \<Rightarrow> MachineConfig \<Rightarrow> unit vm" where
  "refuse_active rt config =
     act_bind (reconcile_machine_runtime_locked rt config) (\<lambda>status.
       if RuntimeStatus_is_active status then act_throw (MachineAlreadyRunning (mc_name config)) else act_return ())"

text \<open>Recording a changed configuration, with the specification file when it changed.\<close>

definition save_machine_settings :: "MachineConfig \<Rightarrow> bool \<Rightarrow> VmSpec \<Rightarrow> unit vm" where
  "save_machine_settings config spec_changed previous_spec =
     act_seq (act_when spec_changed (write_machine_config (mc_machine_dir config) (mc_spec config)))
       (act_catch (db_write (save_machine_config config))
         (\<lambda>err.
           act_seq (act_when spec_changed (ignore (write_machine_config (mc_machine_dir config) previous_spec)))
             (act_throw err)))"

definition replace_config :: "Runtime \<Rightarrow> MachineId \<Rightarrow> VmSpec \<Rightarrow> MachineData vm" where
  "replace_config rt mid spec =
     with_locked_machine rt mid (\<lambda>config.
       act_seq (refuse_active rt config)
         (act_bind (act_gets w_now) (\<lambda>now.
          let config' = config\<lparr>mc_spec := spec, mc_modified_at := now\<rparr> in
          act_seq (save_machine_settings config' True (mc_spec config)) (machine_inspect_data rt config'))))"

definition set_network :: "Runtime \<Rightarrow> MachineId \<Rightarrow> MachineNetworkConfig \<Rightarrow> MachineData vm" where
  "set_network rt mid network =
     act_seq (validate_machine_network_config network)
       (with_locked_machine rt mid (\<lambda>config.
         act_seq (refuse_active rt config)
           (act_bind (act_gets w_now) (\<lambda>now.
            let config' = config\<lparr>mc_network := network, mc_modified_at := now\<rparr> in
            act_seq (db_write (save_machine_config config')) (machine_inspect_data rt config')))))"

text \<open>The checks of \<open>update\<close> before it takes the lock; the result is the new memory size in mebibytes.\<close>

definition validate_update :: "MachineId \<Rightarrow> MachineUpdate \<Rightarrow> u32 option vm" where
  "validate_update mid update =
     (let reference = MachineId_to_string mid;
          reject = (\<lambda>text. act_throw (InvalidMachineUpdate reference (msg text))) in
      act_seq (case up_network update of None \<Rightarrow> act_return () | Some network \<Rightarrow> validate_machine_network_config network)
        (act_bind (act_result (case up_name update of None \<Rightarrow> Ok () | Some name \<Rightarrow> validate_machine_name name)) (\<lambda>_.
         if update_is_empty update then reject ''at least one setting is required''
         else if up_cpus update = Some 0 then reject ''cpus must be greater than 0''
         else
           act_bind (act_result (case up_memory update of
               None \<Rightarrow> Ok None
             | Some memory \<Rightarrow> bind_result (to_update_mebibytes memory reference) (\<lambda>m. Ok (Some m)))) (\<lambda>memory.
           if up_root_disk_size update = Some 0 then reject ''root disk size must be greater than 0''
           else act_return memory))))"

definition rename_to :: "Runtime \<Rightarrow> MachineConfig \<Rightarrow> string option \<Rightarrow> MachineConfig vm" where
  "rename_to rt config name =
     (case name of
        None \<Rightarrow> act_return config
      | Some new_name \<Rightarrow>
          if new_name = mc_name config then act_return config
          else
            act_bind (db_read (machine_config_by_name (e_uuid (rt_env rt)) new_name)) (\<lambda>existing.
              case existing of
                Some other \<Rightarrow>
                  if mc_id other \<noteq> mc_id config then
                    act_throw (InvalidMachineUpdate (mc_name config) (''machine name {:?} already exists'', [new_name]))
                  else act_return (config\<lparr>mc_name := new_name\<rparr>)
              | None \<Rightarrow> act_return (config\<lparr>mc_name := new_name\<rparr>)))"

definition update_root_disk :: "MachineConfig \<Rightarrow> u64 option \<Rightarrow> MachineConfig vm" where
  "update_root_disk config desired =
     (case desired of
        None \<Rightarrow> act_return config
      | Some size_bytes \<Rightarrow>
          act_seq (validate_root_disk_growth config size_bytes) (act_return (config\<lparr>mc_root_disk_size := Some size_bytes\<rparr>)))"

definition or_else :: "'a option \<Rightarrow> 'a option \<Rightarrow> 'a option" where
  "or_else a b = (case a of Some _ \<Rightarrow> a | None \<Rightarrow> b)"

definition update_hardware :: "MachineUpdate \<Rightarrow> u32 option \<Rightarrow> Hardware option \<Rightarrow> Hardware" where
  "update_hardware update memory hardware =
     (let hw = (case hardware of Some h \<Rightarrow> h | None \<Rightarrow> empty_hardware) in
      \<lparr>hw_cpus = or_else (up_cpus update) (hw_cpus hw), hw_memory = or_else memory (hw_memory hw),
       hw_nested_virtualization = or_else (up_nested_virtualization update) (hw_nested_virtualization hw),
       hw_rosetta = or_else (up_rosetta update) (hw_rosetta hw)\<rparr>)"

definition changes_spec :: "MachineUpdate \<Rightarrow> u32 option \<Rightarrow> bool" where
  "changes_spec update memory \<longleftrightarrow>
     up_cpus update \<noteq> None \<or> memory \<noteq> None \<or> up_nested_virtualization update \<noteq> None \<or> up_rosetta update \<noteq> None"

definition update_machine :: "Runtime \<Rightarrow> MachineId \<Rightarrow> MachineUpdate \<Rightarrow> MachineData vm" where
  "update_machine rt mid update =
     act_bind (validate_update mid update) (\<lambda>memory.
     with_locked_machine rt mid (\<lambda>config0.
       act_seq (refuse_active rt config0)
         (act_bind (rename_to rt config0 (up_name update)) (\<lambda>config1.
          act_bind (update_root_disk config1 (up_root_disk_size update)) (\<lambda>config2.
          act_bind (act_gets w_now) (\<lambda>now.
          let spec_changed = changes_spec update memory;
              spec = (if spec_changed
                then (mc_spec config2)\<lparr>sp_hardware := Some (update_hardware update memory (sp_hardware (mc_spec config2)))\<rparr>
                else mc_spec config2);
              network = (case up_network update of Some n \<Rightarrow> n | None \<Rightarrow> mc_network config2);
              config3 = config2\<lparr>mc_spec := spec, mc_network := network, mc_modified_at := now\<rparr> in
          act_seq (save_machine_settings config3 spec_changed (mc_spec config2)) (machine_inspect_data rt config3)))))))"

section \<open>Creation\<close>

record MachineCreateRequest =
  cq_image_ref :: string
  cq_base_rootfs_path :: string
  cq_name :: "string option"
  cq_labels :: "(string \<times> string) list"
  cq_metadata :: "(string \<times> string) list"
  cq_cpus :: "u8 option"
  cq_memory :: "Memory option"
  cq_kernel :: "string option"
  cq_initramfs :: "string option"
  cq_disk_size_bytes :: "u64 option"
  cq_nested_virtualization :: bool
  cq_rosetta :: bool
  cq_userdata :: "string option"
  cq_disks :: "string list"
  cq_mounts :: "Mount list"
  cq_network :: "MachineNetworkConfig option"

record MachineCreatePlan =
  cp_name :: string
  cp_spec :: VmSpec
  cp_image_ref :: string
  cp_root_disk_size :: "u64 option"
  cp_labels :: "(string \<times> string) list"
  cp_metadata :: "(string \<times> string) list"
  cp_network :: MachineNetworkConfig

definition DEFAULT_IMAGE_CPUS :: u8 where "DEFAULT_IMAGE_CPUS = 1"
definition DEFAULT_IMAGE_MEMORY_MIB :: u32 where "DEFAULT_IMAGE_MEMORY_MIB = 512"
definition ROOT_DISK_KERNEL_ARG :: string where "ROOT_DISK_KERNEL_ARG = ''root=/dev/vda''"
definition GENERATED_NAME_ATTEMPTS :: nat where "GENERATED_NAME_ATTEMPTS = 3"

fun assign_mount_tags_from :: "nat \<Rightarrow> Mount list \<Rightarrow> Mount list" where
  "assign_mount_tags_from index [] = []"
| "assign_mount_tags_from index (mount # mounts) =
     (if trim (m_tag mount) = [] then mount\<lparr>m_tag := ''mount'' @ decimal index\<rparr> else mount)
       # assign_mount_tags_from (index + 1) mounts"

definition assign_mount_tags :: "Mount list \<Rightarrow> Mount list" where
  "assign_mount_tags mounts = assign_mount_tags_from 0 mounts"

definition canonicalize_existing_path :: "LaunchEnv \<Rightarrow> string \<Rightarrow> string \<Rightarrow> LibVmError + string" where
  "canonicalize_existing_path le path kind =
     bind_result (if starts_with path ''/'' then Ok path
                  else case le_cwd le of Inl m \<Rightarrow> Err (Io m) | Inr cwd \<Rightarrow> Ok (path_push cwd path)) (\<lambda>abs.
       case le_canonicalize le abs of
         Some canonical \<Rightarrow> Ok canonical
       | None \<Rightarrow> Err (InvalidCreateRequest kind (''{} path does not exist: {}'', [kind, abs])))"

definition canonicalize_optional_existing_path :: "LaunchEnv \<Rightarrow> string option \<Rightarrow> string \<Rightarrow> LibVmError + string option" where
  "canonicalize_optional_existing_path le path kind =
     (case path of
        None \<Rightarrow> Ok None
      | Some p \<Rightarrow> bind_result (canonicalize_existing_path le p kind) (\<lambda>c. Ok (Some c)))"

fun canonicalize_existing_paths :: "LaunchEnv \<Rightarrow> string list \<Rightarrow> string \<Rightarrow> LibVmError + string list" where
  "canonicalize_existing_paths le [] kind = Ok []"
| "canonicalize_existing_paths le (p # ps) kind =
     bind_result (canonicalize_existing_path le p kind) (\<lambda>c.
     bind_result (canonicalize_existing_paths le ps kind) (\<lambda>cs. Ok (c # cs)))"


text \<open>Everything up to the network check is computed from the request and the sizes of the files.\<close>

definition create_plan ::
  "LaunchEnv \<Rightarrow> (string \<rightharpoonup> u64) \<Rightarrow> MachineCreateRequest \<Rightarrow> string \<Rightarrow> LibVmError + string \<times> MachineCreatePlan" where
  "create_plan le sizes request name =
     (let reject = (\<lambda>text. Err (InvalidCreateRequest name (msg text))) in
      if cq_disk_size_bytes request = Some 0 then reject ''root disk size must be greater than 0''
      else
        bind_result (canonicalize_existing_path le (cq_base_rootfs_path request) ''base rootfs'') (\<lambda>base.
        let root_disk_size = or_else (cq_disk_size_bytes request) (sizes base) in
        if root_disk_size = Some 0 then reject ''root disk size must be greater than 0''
        else
          bind_result (canonicalize_optional_existing_path le (cq_kernel request) ''kernel'') (\<lambda>kernel_path.
          bind_result (canonicalize_optional_existing_path le (cq_initramfs request) ''initramfs'') (\<lambda>initramfs_path.
          if (case cq_userdata request of Some u \<Rightarrow> trim u = [] | None \<Rightarrow> False) then reject ''userdata cannot be empty''
          else
            bind_result (canonicalize_existing_paths le (cq_disks request) ''disk'') (\<lambda>disk_paths.
            bind_result (case cq_memory request of
                None \<Rightarrow> Ok DEFAULT_IMAGE_MEMORY_MIB
              | Some memory \<Rightarrow> to_vm_spec_mebibytes memory name) (\<lambda>resolved_memory.
            let resolved_cpus = (case cq_cpus request of Some c \<Rightarrow> c | None \<Rightarrow> DEFAULT_IMAGE_CPUS);
                disks = map (\<lambda>path. \<lparr>d_path = path, d_read_only = False\<rparr>) (root_disk_relative_path # disk_paths);
                spec = VmSpec_current\<lparr>sp_guest := Some \<lparr>g_os = Some Linux\<rparr>,
                  sp_boot := Some \<lparr>b_kernel = Some \<lparr>k_path = kernel_path, k_cmdline = [ROOT_DISK_KERNEL_ARG], k_initramfs = initramfs_path\<rparr>,
                    b_userdata = cq_userdata request\<rparr>,
                  sp_hardware := Some \<lparr>hw_cpus = Some resolved_cpus, hw_memory = Some resolved_memory,
                    hw_nested_virtualization = Some (cq_nested_virtualization request), hw_rosetta = Some (cq_rosetta request)\<rparr>,
                  sp_storage := Some \<lparr>st_disks = disks\<rparr>, sp_mounts := assign_mount_tags (cq_mounts request)\<rparr> in
            Ok (base, \<lparr>cp_name = name, cp_spec = spec, cp_image_ref = cq_image_ref request, cp_root_disk_size = root_disk_size,
              cp_labels = cq_labels request, cp_metadata = cq_metadata request,
              cp_network = (case cq_network request of Some n \<Rightarrow> n | None \<Rightarrow> NetPrivate None)\<rparr>)))))))"

definition allocate_machine_lock :: "u32 vm" where
  "allocate_machine_lock =
     act_seq (may_fail (Io (msg ''input/output error'')))
       (act_bind (act_gets (\<lambda>w. allocate (w_locks w))) (\<lambda>r.
         case r of
           Inl _ \<Rightarrow> act_throw (Io (msg ''no lock IDs available''))
         | Inr (lid, fs) \<Rightarrow> act_seq (act_modify (\<lambda>w. w\<lparr>w_locks := fs\<rparr>)) (act_return lid)))"

definition create_machine_dir :: "Runtime \<Rightarrow> MachineId \<Rightarrow> unit vm" where
  "create_machine_dir rt mid =
     (let dir = machine_path (rt_roots rt) mid in
      act_seq (io (\<lambda>w. w\<lparr>w_dirs := insert (machines_dir (rt_roots rt)) (w_dirs w)\<rparr>))
        (act_bind (io_get (\<lambda>w. dir \<in> w_dirs w)) (\<lambda>taken.
          if taken then act_throw (MachineIdAlreadyExists (MachineId_to_string mid))
          else act_modify (\<lambda>w. w\<lparr>w_dirs := insert dir (w_dirs w)\<rparr>))))"

text \<open>Cloning a disk and copying it both leave a file of the size of the source.\<close>

definition clone_or_copy_root_disk :: "string \<Rightarrow> string \<Rightarrow> unit vm" where
  "clone_or_copy_root_disk source destination =
     act_bind (io_get (\<lambda>w. (w_disks w source, source \<in> w_dirs w))) (\<lambda>(found, is_directory).
       case found of
         Some bytes \<Rightarrow> io (\<lambda>w. w\<lparr>w_disks := (w_disks w)(destination \<mapsto> bytes)\<rparr>)
       | None \<Rightarrow>
           act_throw (RootDisk
             (if is_directory then (''base rootfs {} is not a regular file'', [source])
              else (''base rootfs {} does not exist'', [source]))))"

definition created_config :: "MachineId \<Rightarrow> u32 \<Rightarrow> string \<Rightarrow> MachineCreatePlan \<Rightarrow> int \<Rightarrow> MachineConfig" where
  "created_config mid lid dir plan now =
     \<lparr>mc_id = mid, mc_lock_id = lid, mc_name = cp_name plan, mc_spec = cp_spec plan, mc_machine_dir = dir,
      mc_created_at = now, mc_modified_at = now, mc_image_ref = cp_image_ref plan,
      mc_root_disk_size = cp_root_disk_size plan, mc_labels = cp_labels plan, mc_metadata = cp_metadata plan,
      mc_network = cp_network plan\<rparr>"

definition commit_machine :: "MachineId \<Rightarrow> u32 \<Rightarrow> string \<Rightarrow> MachineCreatePlan \<Rightarrow> MachineConfig vm" where
  "commit_machine mid lid dir plan =
     act_bind (act_gets w_now) (\<lambda>now.
     let config = created_config mid lid dir plan now in
     act_seq (db_write (add_machine config (stopped_machine_state mid None now))) (act_return config))"

text \<open>
  \<open>Drop for MachineCreateGuard\<close>: when the creation fails, the directory goes if it was created, and then
  the lock.  Errors of the clean-up are dropped.
\<close>

definition with_create_guard :: "Runtime \<Rightarrow> MachineId \<Rightarrow> u32 \<Rightarrow> 'a vm \<Rightarrow> 'a vm" where
  "with_create_guard rt mid lid body =
     act_catch
       (act_seq (create_machine_dir rt mid)
         (act_catch body (\<lambda>err. act_seq (ignore (io (remove_dir_all mid (machine_path (rt_roots rt) mid)))) (act_throw err))))
       (\<lambda>err. act_seq (ignore (io (\<lambda>w. w\<lparr>w_locks := free lid (w_locks w)\<rparr>))) (act_throw err))"

definition create_from_plan :: "Runtime \<Rightarrow> string \<Rightarrow> MachineCreatePlan \<Rightarrow> u64 option \<Rightarrow> MachineConfig vm" where
  "create_from_plan rt base plan disk_size =
     act_bind (act_result (validate_machine_name (cp_name plan))) (\<lambda>_.
     act_bind (db_read (machine_config_by_name (e_uuid (rt_env rt)) (cp_name plan))) (\<lambda>existing.
     if existing \<noteq> None then act_throw (MachineAlreadyExists (cp_name plan))
     else
       act_bind (act_state (draw_random (rt_env rt))) (\<lambda>mid.
       act_bind allocate_machine_lock (\<lambda>lid.
       let dir = machine_path (rt_roots rt) mid in
       with_create_guard rt mid lid
         (act_seq (write_machine_config dir (cp_spec plan))
           (act_seq (clone_or_copy_root_disk base (root_disk_path dir))
             (act_seq (case disk_size of None \<Rightarrow> act_return () | Some n \<Rightarrow> resize_raw_disk (root_disk_path dir) n)
               (commit_machine mid lid dir plan))))))))"

definition create_machine_config_with_name :: "Runtime \<Rightarrow> MachineCreateRequest \<Rightarrow> string \<Rightarrow> MachineConfig vm" where
  "create_machine_config_with_name rt request name =
     act_bind (act_gets w_disks) (\<lambda>sizes.
     act_bind (act_result (create_plan (rt_launch rt) sizes request name)) (\<lambda>(base, plan).
     act_seq (validate_machine_network_config (cp_network plan))
       (create_from_plan rt base plan (cq_disk_size_bytes request))))"

definition generate_machine_name :: "Env \<Rightarrow> string vm" where
  "generate_machine_name env =
     act_seq (may_fail (MachineNameGenerationFailed 0))
       (act_bind (act_state (draw_random env)) (\<lambda>entropy. act_result (name_from_entropy (ucast entropy))))"

fun create_with_generated_name :: "Runtime \<Rightarrow> MachineCreateRequest \<Rightarrow> nat \<Rightarrow> MachineConfig vm" where
  "create_with_generated_name rt request 0 = act_throw (MachineNameGenerationFailed (of_nat GENERATED_NAME_ATTEMPTS))"
| "create_with_generated_name rt request (Suc n) =
     act_bind (generate_machine_name (rt_env rt)) (\<lambda>name.
       act_catch (create_machine_config_with_name rt request name)
         (\<lambda>err. case err of MachineAlreadyExists _ \<Rightarrow> create_with_generated_name rt request n | _ \<Rightarrow> act_throw err))"

definition create_machine_config :: "Runtime \<Rightarrow> MachineCreateRequest \<Rightarrow> MachineConfig vm" where
  "create_machine_config rt request =
     (case cq_name request of
        None \<Rightarrow> create_with_generated_name rt request GENERATED_NAME_ATTEMPTS
      | Some name \<Rightarrow> create_machine_config_with_name rt request name)"


section \<open>Named networks\<close>

definition NetworkDefinition_validate :: "NetworkDefinition \<Rightarrow> msg + unit" where
  "NetworkDefinition_validate d =
     bind_result (validate_network_name (df_name d)) (\<lambda>_.
       if df_driver_preference d = VzNat \<and> df_topology d \<noteq> Nat then Err (msg ''vznat only supports nat networks'') else Ok ())"

definition create_network_definition :: "NetworkDefinition \<Rightarrow> unit vm" where
  "create_network_definition d =
     act_bind (act_result (case NetworkDefinition_validate d of
         Inl reason \<Rightarrow> Err (InvalidCreateRequest (df_name d) reason)
       | Inr u \<Rightarrow> Ok u)) (\<lambda>_.
     act_bind (act_gets w_now) (\<lambda>now. db_write (\<lambda>s. Ok (define_network now d s))))"

definition remove_named_network :: "string \<Rightarrow> unit vm" where
  "remove_named_network name = db_write (\<lambda>s. Ok (remove_network_definition name s))"

end
