(* ===== verification/Vm_Invariants.thy ===== *)
theory Vm_Invariants
  imports Vm_Config
begin

text \<open>
  What every operation of the runtime keeps: the tables stay well formed, every persisted machine state
  stays consistent, and a lock taken by an operation is released on every path, errors included.
  \<open>keeps\<close> is total, so that the rules also show that every operation returns.
\<close>

section \<open>The invariant\<close>

text \<open>
  The tables and the states are consistent, and every machine has a lock of its own that is reserved.
  \<open>cfgs\<close> are the configurations that an operation finds, and \<open>held\<close> the locks that are taken.
\<close>

definition locks_wf :: "(MachineId \<rightharpoonup> MachineConfig) \<Rightarrow> (u32 \<rightharpoonup> nat) \<Rightarrow> bool" where
  "locks_wf cfgs files \<longleftrightarrow>
     (\<forall>mid c. cfgs mid = Some c \<longrightarrow> files (mc_lock_id c) \<noteq> None) \<and>
     (\<forall>mid c mid' c'. cfgs mid = Some c \<longrightarrow> cfgs mid' = Some c' \<longrightarrow> mc_lock_id c = mc_lock_id c' \<longrightarrow> mid = mid')"

definition vm_inv :: "(MachineId \<rightharpoonup> MachineConfig) \<Rightarrow> (nat \<rightharpoonup> nat) \<Rightarrow> World \<Rightarrow> bool" where
  "vm_inv cfgs held w \<longleftrightarrow>
     store_wf (w_store w) \<and> configs (w_store w) = cfgs \<and> (\<forall>mid st. states (w_store w) mid = Some st \<longrightarrow> state_wf st) \<and>
     lf_owner (w_locks w) = held \<and> locks_wf cfgs (lf_files (w_locks w))"

lemma vm_inv_fault_free [simp, intro]: "fault_free (vm_inv C held)"
  by (simp add: fault_free_def vm_inv_def)

lemma vm_inv_world [simp]:
  "vm_inv C held (w\<lparr>w_now := n\<rparr>) = vm_inv C held w" "vm_inv C held (w\<lparr>w_drawn := d\<rparr>) = vm_inv C held w"
  "vm_inv C held (w\<lparr>w_procs := p\<rparr>) = vm_inv C held w" "vm_inv C held (w\<lparr>w_signals := g\<rparr>) = vm_inv C held w"
  "vm_inv C held (w\<lparr>w_pid_files := pf\<rparr>) = vm_inv C held w" "vm_inv C held (w\<lparr>w_exit_files := ef\<rparr>) = vm_inv C held w"
  "vm_inv C held (w\<lparr>w_net_links := l\<rparr>) = vm_inv C held w" "vm_inv C held (w\<lparr>w_dirs := ds\<rparr>) = vm_inv C held w"
  "vm_inv C held (w\<lparr>w_disks := k\<rparr>) = vm_inv C held w" "vm_inv C held (w\<lparr>w_specs := sp\<rparr>) = vm_inv C held w"
  "vm_inv C held (w\<lparr>w_agent_configs := ac\<rparr>) = vm_inv C held w" "vm_inv C held (w\<lparr>w_faults := bs\<rparr>) = vm_inv C held w"
  "vm_inv C held (apply_change mid ch w) = vm_inv C held w" "vm_inv C held (remove_dir_all mid dir w) = vm_inv C held w"
  by (simp_all add: vm_inv_def apply_change_def remove_dir_all_def)

text \<open>Network operations do not touch the tables of machines and the locks.\<close>

lemma keeps_net: "(\<And>w0. keeps (net_frame w0) m) \<Longrightarrow> keeps (vm_inv C held) m"
proof (rule keepsI)
  fix w
  assume m: "\<And>w0. keeps (net_frame w0) m" and I: "vm_inv C held w"
  have "vm_inv C held w'" if "net_frame w w'" for w'
    using that I configs_states_cong [of "w_store w'" "w_store w"] by (simp add: vm_inv_def net_frame_def)
  moreover have "net_frame w w" using I by (simp add: vm_inv_def net_frame_refl)
  ultimately show "act_wp m (\<lambda>_. vm_inv C held) (\<lambda>_. vm_inv C held) w" using m by (blast intro: keeps_wp)
qed

lemma keeps_save_state [keep]:
  assumes "state_wf st"
  shows "keeps (vm_inv C held) (db_write (save_machine_state st))"
proof (intro keep vm_inv_fault_free)
  fix w s'
  assume I: "vm_inv C held w" and ok: "save_machine_state st (w_store w) = Ok s'"
  then have "store_wf s' \<and> configs s' = C \<and> states s' = (states (w_store w))(ms_machine_id st \<mapsto> st)"
    using save_machine_state_ok [of "w_store w" st] by (simp add: vm_inv_def)
  then show "vm_inv C held (w\<lparr>w_store := s'\<rparr>)" using I assms by (auto simp: vm_inv_def)
qed

section \<open>Observing\<close>

lemma reduced_wf: "reduced st event now = Ok next \<Longrightarrow> state_wf next"
  by (auto simp: reduced_def dest: reduce_wf split: sum.splits)

lemma reduced_id: "reduced st event now = Ok next \<Longrightarrow> ms_machine_id next = ms_machine_id st"
  by (auto simp: reduced_def dest: reduce_frame split: sum.splits)

lemma observed_event_None:
  "observed_event env mid runtime pid e w = None \<Longrightarrow> \<exists>st. runtime = Some st \<and> ms_status st = Starting"
  by (auto simp: observed_event_def Let_def split: option.splits if_splits)

text \<open>What a successful observation is based on.\<close>

lemma observe_OkE:
  assumes "observe env mid runtime w = Ok st"
  obtains pid e where "exit_status_read mid w = Ok e"
    "pid = (case read_monitor_pid mid w of Inr p \<Rightarrow> Some p | Inl _ \<Rightarrow> None)"
    "(case observed_event env mid runtime pid e w of
        Some event \<Rightarrow> reduced (case runtime of Some st \<Rightarrow> st | None \<Rightarrow> stopped_machine_state mid None (w_now w)) event (w_now w)
      | None \<Rightarrow> Ok ((case runtime of Some st \<Rightarrow> st | None \<Rightarrow> stopped_machine_state mid None (w_now w))
          \<lparr>ms_vmmon_pid := None, ms_started_at := None, ms_last_error := None, ms_updated_at := w_now w\<rparr>)) = Ok st"
proof (cases "exit_status_read mid w")
  case (Inl e)
  then show ?thesis
    using assms by (simp add: observe_def bind_result_def Let_def split: sum.splits IoErrorKind.splits)
next
  case (Inr e)
  show ?thesis
    by (rule that [OF Inr refl])
      (use assms Inr in \<open>simp add: observe_def bind_result_def Let_def split: sum.splits IoErrorKind.splits\<close>)
qed

lemma observe_wf: "observe env mid runtime w = Ok st \<Longrightarrow> state_wf st"
  by (erule observe_OkE)
    (auto dest: reduced_wf observed_event_None simp: state_wf_def split: option.splits)


section \<open>Operations of the runtime\<close>

lemma gives_observe: "gives (vm_inv C held) (observe_machine_state rt metadata runtime) state_wf"
proof (rule givesI)
  fix w assume "vm_inv C held w"
  then show "act_wp (observe_machine_state rt metadata runtime) (\<lambda>x s'. vm_inv C held s' \<and> state_wf x) (\<lambda>_. vm_inv C held) w"
    unfolding observe_machine_state_def act_wp_simps(4)
    by (intro io_get_wp) (auto simp: wp dest: observe_wf split: sum.split)
qed

lemmas keeps_observe [keep] = gives_keeps [OF gives_observe]

lemma keeps_stored [keep]: "keeps (vm_inv C held) (stored_machine_state rt mid)" "keeps (vm_inv C held) (machine_state rt mid)"
  "keeps (vm_inv C held) (resolve_by_id rt mid)"
  unfolding machine_state_def stored_machine_state_def resolve_by_id_def by (intro keep vm_inv_fault_free)+

lemma keeps_reconcile_locked [keep]: "keeps (vm_inv C held) (reconcile_machine_runtime_locked rt c)"
  unfolding reconcile_machine_runtime_locked_def
  by (intro keeps_bind [OF keeps_stored(1)] keeps_gives_bind [OF gives_observe] keep)

lemma keeps_network [keep]:
  "keeps (vm_inv C held) (reconcile_network_runtime env c b)" "keeps (vm_inv C held) (remove_attached_network env m)"
  "keeps (vm_inv C held) (prepare_network_runtime env ne roots c cfg)"
  "keeps (vm_inv C held) (cleanup_machine_resources_locked rt c)"
  unfolding cleanup_machine_resources_locked_def by (rule keeps_net, rule keep)+

subsection \<open>Locks\<close>

lemma open_lock_inv:
  assumes "open_lock_file lid (w_locks w) = (i, fs)" "vm_inv C held w"
  shows "vm_inv C held' (w\<lparr>w_faults := bs, w_locks := fs\<lparr>lf_owner := held'\<rparr>\<rparr>)" "lf_owner fs = held"
  using assms by (auto simp: vm_inv_def locks_wf_def open_lock_file_def split: option.splits)

lemma release_inv: "vm_inv C (held(i \<mapsto> 0)) w \<Longrightarrow> held i = None \<Longrightarrow> vm_inv C held (release_machine_lock i w)"
  by (auto simp: vm_inv_def release_machine_lock_def drop_guard_def fun_eq_iff)

lemma release_only: "vm_inv C [i \<mapsto> 0] w \<Longrightarrow> vm_inv C Map.empty (release_machine_lock i w)"
  by (rule release_inv) simp_all

lemma owner_same: "lf_owner fs = held \<Longrightarrow> fs\<lparr>lf_owner := held\<rparr> = fs"
  by (cases fs) simp

text \<open>A lock that is free is held by this process while the body runs, and free again afterwards.\<close>

lemma keeps_try_locked:
  assumes "\<And>held. keeps (vm_inv C held) body" "\<And>held. keeps (vm_inv C held) busy"
  shows "keeps (vm_inv C held)
    (act_bind (try_acquire_machine_lock lid) (\<lambda>lock.
      case lock of None \<Rightarrow> busy | Some i \<Rightarrow> act_finally body (release_machine_lock i)))"
proof (rule keepsI)
  fix w assume I: "vm_inv C held w"
  obtain i fs where op: "open_lock_file lid (w_locks w) = (i, fs)" by fastforce
  note own = open_lock_inv(2) [OF op I] and inv = open_lock_inv(1) [OF op I]
  have busy: "act_wp busy (\<lambda>_. vm_inv C held) (\<lambda>_. vm_inv C held) (w\<lparr>w_faults := bs, w_locks := fs\<rparr>)" for bs
    by (rule keepsD [OF assms(2)]) (use inv [of held bs] in \<open>simp add: owner_same [OF own]\<close>)
  have body: "act_wp body (\<lambda>_ w. vm_inv C held (release_machine_lock i w)) (\<lambda>_ w. vm_inv C held (release_machine_lock i w))
      (w\<lparr>w_faults := bs, w_locks := fs\<lparr>lf_owner := held(i \<mapsto> 0)\<rparr>\<rparr>)" if "held i = None" for bs
    by (rule keeps_wp [OF assms(1) inv]) (blast intro: release_inv that)+
  show "act_wp (act_bind (try_acquire_machine_lock lid) (\<lambda>lock.
      case lock of None \<Rightarrow> busy | Some i \<Rightarrow> act_finally body (release_machine_lock i))) (\<lambda>_. vm_inv C held) (\<lambda>_. vm_inv C held) w"
    unfolding try_acquire_machine_lock_def act_wp_simps(4,5)
    by (rule may_fail_wp) (use I busy body in \<open>auto simp: wp try_lock_def try_flock_def op own split: option.split\<close>)
qed

lemma resolve_wp:
  assumes "vm_inv C held w" "uuid_spec (e_uuid (rt_env rt))"
    "\<And>bs c. (w_faults w = [] \<Longrightarrow> bs = []) \<Longrightarrow> C mid = Some c \<Longrightarrow> Q c (w\<lparr>w_faults := bs\<rparr>)"
    "\<And>bs e. (w_faults w = [] \<Longrightarrow> bs = []) \<Longrightarrow> w_faults w \<noteq> [] \<or> C mid = None \<Longrightarrow> E e (w\<lparr>w_faults := bs\<rparr>)"
  shows "act_wp (resolve_by_id rt mid) Q E w"
  unfolding resolve_by_id_def
  by (rule db_read_wp) (use assms in \<open>auto simp: Vm_Store.resolve_by_id vm_inv_def split: option.splits\<close>)

text \<open>
  The rule for an operation under the lock of its machine: the body starts in the world of the caller, apart
  from the locks and the faults, with the configuration that is stored.
\<close>

definition relocked :: "World \<Rightarrow> World \<Rightarrow> bool" where
  "relocked w w' \<longleftrightarrow> (\<exists>bs fs. (w_faults w = [] \<longrightarrow> bs = []) \<and> w' = w\<lparr>w_faults := bs, w_locks := fs\<rparr>)"

lemma relocked_faults: "(w_faults w = [] \<Longrightarrow> bs = []) \<Longrightarrow> relocked w (w\<lparr>w_faults := bs\<rparr>)"
  unfolding relocked_def by (rule exI [of _ bs], rule exI [of _ "w_locks w"]) (cases w; simp)

lemma with_locked_wp:
  assumes I: "vm_inv C Map.empty w" and uuid: "uuid_spec (e_uuid (rt_env rt))"
    and body: "\<And>i c w'. C mid = Some c \<Longrightarrow> vm_inv C [i \<mapsto> 0] w' \<Longrightarrow> relocked w w' \<Longrightarrow>
      act_wp (body c) (\<lambda>x w. Q x (release_machine_lock i w)) (\<lambda>e w. E e (release_machine_lock i w)) w'"
    and err: "\<And>e w'. vm_inv C Map.empty w' \<Longrightarrow> relocked w w' \<Longrightarrow> w_faults w \<noteq> [] \<or> C mid = None \<Longrightarrow> E e w'"
  shows "act_wp (with_locked_machine rt mid body) Q E w"
  unfolding with_locked_machine_def act_wp_simps(4)
proof (rule resolve_wp [OF I uuid])
  show "E e (w\<lparr>w_faults := bs\<rparr>)" if "w_faults w = [] \<Longrightarrow> bs = []" "w_faults w \<noteq> [] \<or> C mid = None" for bs e
    by (rule err) (use I relocked_faults [OF that(1)] that(2) in auto)
next
  fix bs :: "bool list" and initial assume bs: "w_faults w = [] \<Longrightarrow> bs = []" and c: "C mid = Some initial"
  let ?w = "w\<lparr>w_faults := bs\<rparr>"
  have I': "vm_inv C Map.empty ?w" using I by simp
  obtain i fs where op: "open_lock_file (mc_lock_id initial) (w_locks ?w) = (i, fs)" by fastforce
  note own = open_lock_inv(2) [OF op I']
  have inv: "vm_inv C held' (w\<lparr>w_faults := b, w_locks := fs\<lparr>lf_owner := held'\<rparr>\<rparr>)" for held' b
    using open_lock_inv(1) [OF op I', of held' b] by simp
  let ?body = "act_bind (resolve_by_id rt mid) (\<lambda>config.
    if mc_lock_id config \<noteq> mc_lock_id initial then
      act_throw (Io (''machine {} lock id changed from {} to {} while acquiring lock'',
        [MachineId_to_string mid, decimal (unat (mc_lock_id initial)), decimal (unat (mc_lock_id config))]))
    else body config)"
  let ?l = "\<lambda>bs. w\<lparr>w_faults := bs, w_locks := fs\<lparr>lf_owner := [i \<mapsto> 0]\<rparr>\<rparr>"
  have locked: "act_wp ?body (\<lambda>x w. Q x (release_machine_lock i w)) (\<lambda>e w. E e (release_machine_lock i w)) (?l bs')"
    if bs': "w_faults w = [] \<Longrightarrow> bs' = []" for bs' :: "bool list"
    unfolding act_wp_simps(4)
  proof (rule resolve_wp [OF inv uuid])
    fix b :: "bool list" and e
    assume b: "w_faults (?l bs') = [] \<Longrightarrow> b = []" and fault: "w_faults (?l bs') \<noteq> [] \<or> C mid = None"
    have "vm_inv C [i \<mapsto> 0] (?l b)" by (rule inv)
    then have "vm_inv C Map.empty (release_machine_lock i (?l b))" by (rule release_only)
    moreover have "relocked w (release_machine_lock i (?l b))" using b bs' by (auto simp: relocked_def release_machine_lock_def)
    moreover have "(?l bs')\<lparr>w_faults := b\<rparr> = ?l b" by (cases w) simp
    moreover have "w_faults w \<noteq> [] \<or> C mid = None" using fault bs' by auto
    ultimately show "E e (release_machine_lock i ((?l bs')\<lparr>w_faults := b\<rparr>))" using err by metis
  next
    fix b :: "bool list" and c' assume b: "w_faults (?l bs') = [] \<Longrightarrow> b = []" and c': "C mid = Some c'"
    have eq: "(?l bs')\<lparr>w_faults := b\<rparr> = ?l b" by (cases w) simp
    have "relocked w (?l b)" using b bs' by (auto simp: relocked_def)
    then show "act_wp (if mc_lock_id c' \<noteq> mc_lock_id initial then
        act_throw (Io (''machine {} lock id changed from {} to {} while acquiring lock'',
          [MachineId_to_string mid, decimal (unat (mc_lock_id initial)), decimal (unat (mc_lock_id c'))]))
      else body c') (\<lambda>x w. Q x (release_machine_lock i w)) (\<lambda>e w. E e (release_machine_lock i w)) ((?l bs')\<lparr>w_faults := b\<rparr>)"
      unfolding eq using c c' body [OF c, of i "?l b"] inv [of "[i \<mapsto> 0]" b] by auto
  qed
  have "E e (w\<lparr>w_faults := b\<rparr>)" if "w_faults w = [] \<Longrightarrow> b = []" "w_faults w \<noteq> []" for b e
    by (rule err) (use I relocked_faults [of w b] that in auto)
  then show "act_wp (acquire_machine_lock (mc_lock_id initial)) (\<lambda>lock. act_wp (act_finally ?body (release_machine_lock lock)) Q E) E ?w"
    unfolding acquire_machine_lock_def act_wp_simps(5)
    by (intro may_fail_wp) (use bs op locked own in \<open>auto simp: act_wp_simps(10) act_wp_finally try_flock_def\<close>)
qed

lemma gives_with_locked:
  assumes "uuid_spec (e_uuid (rt_env rt))" "\<And>held c. gives (vm_inv C held) (body c) P"
  shows "gives (vm_inv C Map.empty) (with_locked_machine rt mid body) P"
proof (rule givesI, rule with_locked_wp [OF _ assms(1)])
  fix w i c w' assume "vm_inv C [i \<mapsto> 0] w'"
  with assms(2) show "act_wp (body c) (\<lambda>x w. vm_inv C Map.empty (release_machine_lock i w) \<and> P x)
      (\<lambda>e w. vm_inv C Map.empty (release_machine_lock i w)) w'"
    by (rule gives_wp) (blast intro: release_only)+
qed

lemma keeps_with_locked [keep]:
  "uuid_spec (e_uuid (rt_env rt)) \<Longrightarrow> (\<And>held c. keeps (vm_inv C held) (body c)) \<Longrightarrow>
   keeps (vm_inv C Map.empty) (with_locked_machine rt mid body)"
  unfolding keeps_iff_gives by (rule gives_with_locked)

subsection \<open>Reconciliation and transitions\<close>

lemma keeps_best_effort [keep]: "keeps (vm_inv C held) (reconcile_machine_runtime_best_effort rt c)"
  unfolding reconcile_machine_runtime_best_effort_def
  by (intro keeps_try_locked keep)

lemma keeps_refresh [keep]: "keeps (vm_inv C held) (refresh_active_machine_states rt)"
  unfolding refresh_active_machine_states_def
  by (intro keep vm_inv_fault_free keeps_try_locked)

lemma keeps_list [keep]: "keeps (vm_inv C held) (list_reconciled_configs rt)"
  unfolding list_reconciled_configs_def by (intro keep vm_inv_fault_free)

lemma keeps_transition [keep]:
  "keeps (vm_inv C held) (transition_machine_state state event)"
  "keeps (vm_inv C held) (transition_current_machine_state rt mid event)"
  "keeps (vm_inv C held) (request_machine_start rt mid run_id)"
  "keeps (vm_inv C held) (mark_machine_monitor_ready rt mid run_id pid started_at)"
  "keeps (vm_inv C held) (mark_machine_start_failed rt mid run_id failure error)"
  "keeps (vm_inv C held) (request_machine_stop rt mid generation)"
proof -
  have *: "keeps (vm_inv C held) (transition_machine_state state event)" for state event
    unfolding transition_machine_state_def
    by (intro keeps_bind [OF keeps_simple(3)] keeps_gives_bind [OF gives_result [of _ state_wf]] keep) (rule reduced_wf)
  have **: "keeps (vm_inv C held) (transition_current_machine_state rt mid event)" for event
    unfolding transition_current_machine_state_def by (intro keep *)
  show "keeps (vm_inv C held) (transition_machine_state state event)" by (rule *)
  show "keeps (vm_inv C held) (transition_current_machine_state rt mid event)"
    "keeps (vm_inv C held) (request_machine_start rt mid run_id)"
    "keeps (vm_inv C held) (mark_machine_monitor_ready rt mid run_id pid started_at)"
    "keeps (vm_inv C held) (mark_machine_start_failed rt mid run_id failure error)"
    "keeps (vm_inv C held) (request_machine_stop rt mid generation)"
    unfolding request_machine_start_def mark_machine_monitor_ready_def mark_machine_start_failed_def request_machine_stop_def
    by (rule **)+
qed

lemma keeps_mark_stopped [keep]: "keeps (vm_inv C held) (mark_machine_stopped mid e)"
  unfolding mark_machine_stopped_def set_machine_state_def
  by (intro keep) (simp add: state_wf_def)

lemma keeps_complete_stop [keep]: "keeps (vm_inv C held) (complete_stop_locked rt c g e)"
proof -
  have "keeps (vm_inv C held) (case reduce state event now of
      Inl StaleGeneration \<Rightarrow> act_return () | Inl err \<Rightarrow> act_throw (transition_error err)
    | Inr st \<Rightarrow> act_seq (db_write (save_machine_state st)) (cleanup_machine_resources_locked rt c))" for state event now
  proof (cases "reduce state event now")
    case (Inl err)
    then show ?thesis by (cases err) (simp_all add: keep)
  next
    case (Inr st)
    then show ?thesis by (simp add: keep reduce_wf)
  qed
  then show ?thesis
    unfolding complete_stop_locked_def
    by (intro keeps_bind keeps_if keeps_simple keeps_stored keeps_io_get vm_inv_fault_free)
qed

lemma keeps_signals [keep]:
  "keeps (vm_inv C held) (interrupt_monitor pid)" "keeps (vm_inv C held) (kill_monitor_process_group pid)"
  unfolding interrupt_monitor_def kill_monitor_process_group_def
  by (intro keep vm_inv_fault_free; simp)+

lemma keeps_launch_inputs [keep]:
  "keeps (vm_inv C held) (prepare_vmmon_launch_inputs rt c net)" "keeps (vm_inv C held) (remove_vmmon_exit_status c)"
  "keeps (vm_inv C held) (write_machine_config dir spec)" "keeps (vm_inv C held) (validate_machine_network_config n)"
  unfolding prepare_vmmon_launch_inputs_def remove_vmmon_exit_status_def write_machine_config_def validate_machine_network_config_def Let_def
  subgoal by (intro keep vm_inv_fault_free; simp)
  subgoal by (intro keep vm_inv_fault_free; simp)
  subgoal by (intro keep vm_inv_fault_free; simp)
  subgoal by (cases n; simp; intro keep vm_inv_fault_free)
  done

lemma keeps_inspect [keep]: "keeps (vm_inv C held) (machine_inspect_data rt c)"
  unfolding machine_inspect_data_def by (intro keep)


section \<open>Operations on a machine\<close>

lemma keeps_root_disk [keep]: "keeps (vm_inv C held) (reconcile_root_disk_size c)"
  unfolding reconcile_root_disk_size_def resize_raw_disk_def by (intro keep vm_inv_fault_free) simp

lemma keeps_spawn [keep]: "keeps (vm_inv C held) (Vmmon_spawn rt c net run_id ec)"
  unfolding Vmmon_spawn_def
  by (intro keep vm_inv_fault_free; auto simp: keep split: prod.split SpawnOutcome.split sum.split StartupResult.split)

lemma keeps_finish_start [keep]: "keeps (vm_inv C held) (finish_start rt c run_id)"
  unfolding finish_start_def marking_error_def by (intro keep vm_inv_fault_free)

lemma keeps_launch [keep]: "keeps (vm_inv C held) (launch_machine rt c ec)"
  unfolding launch_machine_def Let_def
  by (intro keep vm_inv_fault_free) (simp add: draw_random_def)

lemma keeps_start_locked [keep]: "keeps (vm_inv C held) (start_locked rt ec c)"
  unfolding start_locked_def by (intro keep)

lemma keeps_start [keep]: "uuid_spec (e_uuid (rt_env rt)) \<Longrightarrow> keeps (vm_inv C Map.empty) (start_with rt mid ec)"
  unfolding start_with_def by (intro keep)

lemma keeps_sleep [keep]: "keeps (vm_inv C held) (sleep_poll env mid)"
  unfolding sleep_poll_def by (intro keep) (simp add: Let_def)

lemma keeps_wait_for_exit [keep]: "keeps (vm_inv C held) (wait_for_exit env c pid birth polls expired)"
proof (induction polls arbitrary: expired)
  case 0
  show ?case unfolding wait_for_exit.simps [of _ _ _ _ 0] by (auto intro!: keep)
next
  case (Suc polls)
  show ?case unfolding wait_for_exit.simps [of _ _ _ _ "Suc polls"] by (auto intro!: keep Suc.IH)
qed

lemma keeps_wait_for_monitor_stop [keep]: "keeps (vm_inv C held) (wait_for_monitor_stop env c g polls)"
  unfolding wait_for_monitor_stop_def by (intro keep vm_inv_fault_free)

lemma keeps_wait_for_target [keep]:
  "uuid_spec (e_uuid (rt_env rt)) \<Longrightarrow> keeps (vm_inv C Map.empty) (wait_for_target_exit rt target polls)"
  unfolding wait_for_target_exit_def by (intro keep vm_inv_fault_free)

lemma keeps_stop_parts [keep]:
  "keeps (vm_inv C held) (mark_stopped_and_clean rt c)" "keeps (vm_inv C held) (request_stop_of rt c pid status forced)"
  unfolding mark_stopped_and_clean_def request_stop_of_def by (intro keep)+

lemma keeps_stop_locked [keep]: "keeps (vm_inv C held) (stop_locked rt c)" "keeps (vm_inv C held) (kill_locked rt c)"
  unfolding stop_locked_def kill_locked_def Let_def by (intro keep vm_inv_fault_free)+

lemma keeps_stop_phase [keep]:
  "(\<And>x. keeps I (f x)) \<Longrightarrow> (\<And>t. keeps I (g t)) \<Longrightarrow> keeps I (case p of Done x \<Rightarrow> f x | Await t \<Rightarrow> g t)"
  by (cases p) simp_all

lemma keeps_stop [keep]:
  assumes "uuid_spec (e_uuid (rt_env rt))"
  shows "keeps (vm_inv C Map.empty) (stop_with rt mid polls)" "keeps (vm_inv C Map.empty) (kill_with rt mid polls)"
  unfolding stop_with_def kill_with_def by (intro keep assms)+

lemma keeps_wait_target [keep]: "uuid_spec (e_uuid (rt_env rt)) \<Longrightarrow> keeps (vm_inv C Map.empty) (active_wait_target rt mid)"
  unfolding active_wait_target_def by (intro keep)

lemma keeps_wait_round [keep]: "uuid_spec (e_uuid (rt_env rt)) \<Longrightarrow> keeps (vm_inv C Map.empty) (wait_round rt mid expired)"
  unfolding wait_round_def by (intro keep)

text \<open>When the deadline has passed, the round ends the wait.\<close>

lemma gives_last_round: "uuid_spec (e_uuid (rt_env rt)) \<Longrightarrow> gives (vm_inv C Map.empty) (wait_round rt mid True) isl"
  unfolding wait_round_def by (intro gives_with_locked gives_bind gives_if gives_return keep; simp)

lemma keeps_wait [keep]:
  assumes uuid: "uuid_spec (e_uuid (rt_env rt))"
  shows "keeps (vm_inv C Map.empty) (wait_with rt mid polls expired)"
proof (induction polls arbitrary: expired)
  case 0
  have "keeps (vm_inv C Map.empty) (act_bind (wait_round rt mid True)
      (\<lambda>r. case r of Inl exit \<Rightarrow> act_return exit | Inr e \<Rightarrow> act_panic))"
    by (rule keeps_gives_bind [OF gives_last_round [OF uuid]]) (auto simp: keep split: sum.split)
  then show ?case unfolding wait_with.simps [of _ _ 0] by (auto intro!: keep uuid)
next
  case (Suc polls)
  show ?case unfolding wait_with.simps [of _ _ "Suc polls"] by (auto intro!: keep Suc.IH uuid)
qed

lemma keeps_cleanup [keep]: "uuid_spec (e_uuid (rt_env rt)) \<Longrightarrow> keeps (vm_inv C Map.empty) (cleanup rt mid)"
  unfolding cleanup_def by (intro keep)


section \<open>Operations that change configurations\<close>

definition vm_wf :: "(nat \<rightharpoonup> nat) \<Rightarrow> World \<Rightarrow> bool" where
  "vm_wf held w \<longleftrightarrow> vm_inv (configs (w_store w)) held w"

lemma vm_wfI: "vm_inv C held w \<Longrightarrow> vm_wf held w"
  by (simp add: vm_wf_def vm_inv_def)

lemma vm_wf_faults [simp]: "vm_wf held (w\<lparr>w_faults := bs\<rparr>) = vm_wf held w"
  by (simp add: vm_wf_def)

lemma vm_wfE: "vm_wf held w \<Longrightarrow> (\<And>C. vm_inv C held w \<Longrightarrow> thesis) \<Longrightarrow> thesis"
  by (auto simp: vm_wf_def)

lemma keeps_wfI:
  assumes "\<And>C. keeps (vm_inv C held) m"
  shows "keeps (vm_wf held) m"
proof (rule keepsI, erule vm_wfE)
  fix w C assume "vm_inv C held w"
  with assms show "act_wp m (\<lambda>_. vm_wf held) (\<lambda>_. vm_wf held) w" by (rule keeps_wp) (rule vm_wfI, assumption)+
qed

text \<open>\<open>leads I m J\<close>: from \<open>I\<close> the call returns and leads to \<open>J\<close>, with a value or an error.\<close>

definition leads :: "('s \<Rightarrow> bool) \<Rightarrow> ('s, 'e, 'a) act \<Rightarrow> ('s \<Rightarrow> bool) \<Rightarrow> bool" where
  "leads I m J \<longleftrightarrow> (\<forall>s. I s \<longrightarrow> act_wp m (\<lambda>_. J) (\<lambda>_. J) s)"

lemma leads_bind:
  assumes "gives I m P" "\<And>x. P x \<Longrightarrow> leads I (k x) J" "\<And>s. I s \<Longrightarrow> J s"
  shows "leads I (act_bind m k) J"
  unfolding leads_def wp
  by (intro allI impI, rule gives_wp [OF assms(1)]) (use assms(2, 3) in \<open>auto simp: leads_def\<close>)

lemma leads_seq: "keeps I m \<Longrightarrow> leads I k J \<Longrightarrow> (\<And>s. I s \<Longrightarrow> J s) \<Longrightarrow> leads I (act_seq m k) J"
  unfolding act_seq_def by (rule leads_bind [of _ _ "\<lambda>_. True"]) (simp_all add: keeps_iff_gives)

lemma leads_then: "leads I m J \<Longrightarrow> keeps J k \<Longrightarrow> leads I (act_seq m k) J"
  unfolding leads_def wp by (auto intro: act_wp_mono dest: keepsD)

lemma leads_catch: "leads I m J \<Longrightarrow> (\<And>e. keeps J (h e)) \<Longrightarrow> leads I (act_catch m h) J"
  unfolding leads_def wp keeps_def by (blast intro: act_wp_mono)

lemma leads_throw: "(\<And>s. I s \<Longrightarrow> J s) \<Longrightarrow> leads I (act_throw e) J"
  by (simp add: leads_def wp)

lemma leads_if: "(b \<Longrightarrow> leads I m J) \<Longrightarrow> (\<not> b \<Longrightarrow> leads I k J) \<Longrightarrow> leads I (if b then m else k) J"
  by simp

lemma leads_with_locked:
  assumes "uuid_spec (e_uuid (rt_env rt))" "\<And>i c. C mid = Some c \<Longrightarrow> leads (vm_inv C [i \<mapsto> 0]) (body c) (vm_wf [i \<mapsto> 0])"
  shows "leads (vm_inv C Map.empty) (with_locked_machine rt mid body) (vm_wf Map.empty)"
  unfolding leads_def
proof (intro allI impI, rule with_locked_wp [OF _ assms(1)])
  fix w i c w' assume "C mid = Some c" "vm_inv C [i \<mapsto> 0] w'"
  then have body: "act_wp (body c) (\<lambda>_. vm_wf [i \<mapsto> 0]) (\<lambda>_. vm_wf [i \<mapsto> 0]) w'" using assms(2) by (simp add: leads_def)
  have "vm_wf Map.empty (release_machine_lock i w)" if "vm_wf [i \<mapsto> 0] w" for w
    using that by (rule vm_wfE) (rule vm_wfI, erule release_only)
  with body show "act_wp (body c) (\<lambda>_ w. vm_wf Map.empty (release_machine_lock i w)) (\<lambda>_ w. vm_wf Map.empty (release_machine_lock i w)) w'"
    by (blast intro: act_wp_mono)
qed (auto intro: vm_wfI)

lemma leads_wf: "(\<And>C. leads (vm_inv C held) m (vm_wf held)) \<Longrightarrow> keeps (vm_wf held) m"
  unfolding leads_def keeps_def by (auto elim: vm_wfE)

subsection \<open>Removal\<close>

lemma leads_remove_records:
  assumes c: "C (mc_id c) = Some c"
  shows "leads (vm_inv C held) (remove_machine_records c) (vm_wf held)"
  unfolding leads_def remove_machine_records_def act_wp_simps(5)
proof (intro allI impI, rule db_write_wp)
  fix w bs s' assume I: "vm_inv C held w" and "Ok (remove_machine c (w_store w)) = (Ok s' :: LibVmError + Store)"
  then have s': "store_wf s' \<and> configs s' = C(mc_id c := None) \<and> states s' = (states (w_store w))(mc_id c := None)"
    using remove_machine_ok [of "w_store w" c] by (auto simp: vm_inv_def)
  have "locks_wf (C(mc_id c := None)) ((lf_files (w_locks w))(mc_lock_id c := None))"
    using I c unfolding vm_inv_def locks_wf_def by (auto split: if_splits)
  moreover have "locks_wf (C(mc_id c := None)) (lf_files (w_locks w))"
    using I unfolding vm_inv_def locks_wf_def by (auto split: if_splits)
  ultimately show "act_wp (io (\<lambda>w. w\<lparr>w_locks := Vm_Locks.free (mc_lock_id c) (w_locks w)\<rparr>)) (\<lambda>_. vm_wf held) (\<lambda>_. vm_wf held)
      (w\<lparr>w_faults := bs, w_store := s'\<rparr>)"
    by (intro io_wp vm_wfI [of "C(mc_id c := None)"]) (use I s' in \<open>auto simp: vm_inv_def Vm_Locks.free_def\<close>)
qed (auto intro: vm_wfI)

lemma keeps_remove:
  assumes uuid: "uuid_spec (e_uuid (rt_env rt))"
  shows "keeps (vm_wf Map.empty) (Vm_Lifecycle.remove rt mid)"
proof (rule leads_wf)
  fix C
  have "leads (vm_inv C [i \<mapsto> 0]) (remove_locked rt c) (vm_wf [i \<mapsto> 0])" if "C (mc_id c) = Some c" for i c
    unfolding remove_locked_def
    by (intro leads_bind [of _ _ "\<lambda>_. True", folded keeps_iff_gives] leads_seq leads_if leads_throw leads_remove_records that keep
        vm_inv_fault_free) (auto intro: vm_wfI)
  moreover have "C (mc_id c) = Some c" if "vm_inv C held w" "C m = Some c" for m c w held
    using that configs_iff [of "w_store w" m c] by (auto simp: vm_inv_def)
  ultimately show "leads (vm_inv C Map.empty) (Vm_Lifecycle.remove rt mid) (vm_wf Map.empty)"
    unfolding Vm_Lifecycle.remove_def by - (rule leads_with_locked [OF uuid], auto simp: leads_def)
qed


subsection \<open>Settings\<close>

text \<open>A changed configuration of the same machine with the same lock.\<close>

definition revises :: "MachineConfig \<Rightarrow> MachineConfig \<Rightarrow> bool" where
  "revises c c' \<longleftrightarrow> mc_id c' = mc_id c \<and> mc_lock_id c' = mc_lock_id c"

lemma leads_save_config:
  assumes "C (mc_id c) = Some c" "revises c c'"
  shows "leads (vm_inv C held) (db_write (save_machine_config c')) (vm_wf held)"
  unfolding leads_def
proof (intro allI impI, rule db_write_wp)
  fix w bs s' assume I: "vm_inv C held w" and "save_machine_config c' (w_store w) = Ok s'"
  then have s': "store_wf s' \<and> configs s' = C(mc_id c' \<mapsto> c') \<and> states s' = states (w_store w)"
    using save_machine_config_ok [of "w_store w" c'] by (simp add: vm_inv_def)
  have "locks_wf (C(mc_id c' \<mapsto> c')) (lf_files (w_locks w))"
    using I assms unfolding vm_inv_def locks_wf_def revises_def by (auto split: if_splits)
  then show "vm_wf held (w\<lparr>w_faults := bs, w_store := s'\<rparr>)"
    using I s' by (intro vm_wfI [of "C(mc_id c' \<mapsto> c')"]) (auto simp: vm_inv_def)
qed (auto intro: vm_wfI)

lemma keeps_refuse_active [keep]: "keeps (vm_inv C held) (refuse_active rt c)"
  unfolding refuse_active_def by (intro keep)

lemma leads_save_settings:
  assumes "C (mc_id c) = Some c" "revises c c'"
  shows "leads (vm_inv C held) (save_machine_settings c' changed old) (vm_wf held)"
proof -
  have "keeps (vm_wf held) (act_seq (act_when changed (ignore (write_machine_config d old))) (act_throw err))" for d err
    by (rule keeps_wfI) (intro keep)
  with leads_save_config [of C c c' held] assms
  have "leads (vm_inv C held) (act_catch (db_write (save_machine_config c'))
      (\<lambda>err. act_seq (act_when changed (ignore (write_machine_config (mc_machine_dir c') old))) (act_throw err))) (vm_wf held)"
    by (intro leads_catch) auto
  then show ?thesis
    unfolding save_machine_settings_def by (intro leads_seq keep) (auto intro: vm_wfI)
qed

lemmas keeps_wf_inspect = keeps_wfI [OF keeps_inspect]

lemma inv_config_key: "vm_inv C held w \<Longrightarrow> C m = Some c \<Longrightarrow> mc_id c = m"
  using configs_iff [of "w_store w" m c] by (auto simp: vm_inv_def)

lemma leads_locked_stored:
  assumes "uuid_spec (e_uuid (rt_env rt))"
    "\<And>i c. C (mc_id c) = Some c \<Longrightarrow> mc_id c = mid \<Longrightarrow> leads (vm_inv C [i \<mapsto> 0]) (body c) (vm_wf [i \<mapsto> 0])"
  shows "leads (vm_inv C Map.empty) (with_locked_machine rt mid body) (vm_wf Map.empty)"
  by (rule leads_with_locked [OF assms(1)]) (use assms(2) inv_config_key in \<open>auto simp: leads_def\<close>)

lemma gives_rename:
  "gives (vm_inv C held) (rename_to rt c name) (revises c)"
  unfolding rename_to_def
  by (cases name) (auto simp: revises_def intro!: gives_bind gives_return gives_throw keep split: option.split)

lemma keeps_replace_config:
  assumes uuid: "uuid_spec (e_uuid (rt_env rt))"
  shows "keeps (vm_wf Map.empty) (replace_config rt mid spec)"
  unfolding replace_config_def Let_def
  by (intro leads_wf leads_locked_stored uuid leads_seq leads_bind [of _ _ "\<lambda>_. True", folded keeps_iff_gives] leads_then
      leads_save_settings keeps_wf_inspect keep) (auto simp: revises_def intro: vm_wfI)


lemma keeps_set_network:
  assumes uuid: "uuid_spec (e_uuid (rt_env rt))"
  shows "keeps (vm_wf Map.empty) (set_network rt mid network)"
proof -
  have "keeps (vm_wf Map.empty) (with_locked_machine rt mid (\<lambda>config.
      act_seq (refuse_active rt config) (act_bind (act_gets w_now) (\<lambda>now.
        act_seq (db_write (save_machine_config (config\<lparr>mc_network := network, mc_modified_at := now\<rparr>)))
          (machine_inspect_data rt (config\<lparr>mc_network := network, mc_modified_at := now\<rparr>))))))"
    by (intro leads_wf leads_locked_stored uuid leads_seq leads_bind [of _ _ "\<lambda>_. True", folded keeps_iff_gives] leads_then
        leads_save_config keeps_wf_inspect keep) (auto simp: revises_def intro: vm_wfI)
  then show ?thesis
    unfolding set_network_def Let_def by (rule keeps_seq [OF keeps_wfI [OF keeps_launch_inputs(4)]])
qed

lemma keeps_validate_update [keep]: "keeps (vm_inv C held) (validate_update mid u)"
  unfolding validate_update_def Let_def by (intro keep)

lemma gives_update_root_disk: "gives (vm_inv C held) (update_root_disk c desired) (revises c)"
proof (cases desired)
  case None
  then show ?thesis by (simp add: update_root_disk_def revises_def gives_return)
next
  case (Some n)
  have "keeps (vm_inv C held) (validate_root_disk_growth c n)"
    unfolding validate_root_disk_growth_def by (intro keep vm_inv_fault_free)
  then show ?thesis using Some by (simp add: update_root_disk_def act_seq_def revises_def gives_bind gives_return)
qed

lemma revises_trans: "revises a b \<Longrightarrow> revises b c \<Longrightarrow> revises a c"
  by (simp add: revises_def)

lemma keeps_update:
  assumes uuid: "uuid_spec (e_uuid (rt_env rt))"
  shows "keeps (vm_wf Map.empty) (update_machine rt mid u)"
  unfolding update_machine_def Let_def
  by (intro keeps_bind [OF keeps_wfI [OF keeps_validate_update]] leads_wf leads_locked_stored uuid leads_seq [OF keeps_refuse_active]
      leads_bind [OF gives_rename] leads_bind [OF gives_update_root_disk]
      leads_bind [of _ "act_gets w_now" "\<lambda>_. True", folded keeps_iff_gives] leads_then leads_save_settings keeps_wf_inspect keep)
    (auto simp: revises_def intro: vm_wfI)

subsection \<open>Named networks\<close>

lemma keeps_network_definitions:
  "keeps (vm_inv C held) (create_network_definition d)" "keeps (vm_inv C held) (remove_named_network n)"
proof -
  have "vm_inv C held (w\<lparr>w_store := define_network now d (w_store w)\<rparr>)"
    "vm_inv C held (w\<lparr>w_store := remove_network_definition n (w_store w)\<rparr>)" if "vm_inv C held w" for w now
    using that define_network_wf [of "w_store w" now d] remove_network_definition_wf [of "w_store w" n]
    by (auto simp: vm_inv_def define_network_def remove_network_definition_def configs_def states_def)
  then show "keeps (vm_inv C held) (create_network_definition d)" "keeps (vm_inv C held) (remove_named_network n)"
    unfolding create_network_definition_def remove_named_network_def by (intro keep vm_inv_fault_free; auto)+
qed


subsection \<open>Creation\<close>

lemma allocate_loop_ok:
  "allocate_loop n fs = Ok (lid, fs') \<Longrightarrow>
   lf_files fs lid = None \<and> fs' = fs\<lparr>lf_files := (lf_files fs)(lid \<mapsto> lf_next fs), lf_next := lf_next fs + 1\<rparr>"
proof (induction n fs rule: allocate_loop.induct)
  case (1 n fs)
  have n: "n < 2 ^ 32" using 1(2) by (subst (asm) allocate_loop.simps) (simp split: if_splits)
  show ?case
  proof (cases "lf_files fs (of_nat n)")
    case None
    then have "allocate_loop n fs = Ok (of_nat n, fs\<lparr>lf_files := (lf_files fs)(of_nat n \<mapsto> lf_next fs), lf_next := lf_next fs + 1\<rparr>)"
      using n by (subst allocate_loop.simps) (simp add: create_lock_allocation_def)
    then show ?thesis using 1(2) None by (auto simp del: fun_upd_apply)
  next
    case (Some i)
    then have c: "create_lock_allocation (of_nat n) fs = Err AlreadyExists" by (simp add: create_lock_allocation_def)
    then have "allocate_loop (n + 1) fs = Ok (lid, fs')" using 1(2) n by (subst (asm) allocate_loop.simps) simp
    then show ?thesis using 1(1) n c by blast
  qed
qed

text \<open>While a machine is created, its lock is reserved and no stored machine has it.\<close>

definition creating :: "(MachineId \<rightharpoonup> MachineConfig) \<Rightarrow> (nat \<rightharpoonup> nat) \<Rightarrow> u32 \<Rightarrow> World \<Rightarrow> bool" where
  "creating C held lid w \<longleftrightarrow>
     vm_inv C held w \<and> lf_files (w_locks w) lid \<noteq> None \<and> (\<forall>mid c. C mid = Some c \<longrightarrow> mc_lock_id c \<noteq> lid)"

lemma creating_inv: "creating C held lid w \<Longrightarrow> vm_inv C held w"
  by (simp add: creating_def)

lemma creating_fault_free [simp, intro]: "fault_free (creating C held lid)"
  by (simp add: fault_free_def creating_def)

lemma creating_world [simp]:
  "creating C held lid (w\<lparr>w_dirs := ds\<rparr>) = creating C held lid w" "creating C held lid (w\<lparr>w_disks := k\<rparr>) = creating C held lid w"
  "creating C held lid (w\<lparr>w_specs := sp\<rparr>) = creating C held lid w" "creating C held lid (w\<lparr>w_faults := bs\<rparr>) = creating C held lid w"
  "creating C held lid (remove_dir_all mid dir w) = creating C held lid w"
  by (simp_all add: creating_def remove_dir_all_def)

lemma keeps_create_parts:
  "keeps (creating C held lid) (create_machine_dir rt mid)" "keeps (creating C held lid) (write_machine_config dir spec)"
  "keeps (creating C held lid) (clone_or_copy_root_disk base path)" "keeps (creating C held lid) (resize_raw_disk path n)"
  "keeps (creating C held lid) (ignore (io (remove_dir_all mid dir)))"
  unfolding create_machine_dir_def write_machine_config_def clone_or_copy_root_disk_def resize_raw_disk_def Let_def
  by (intro keep creating_fault_free; simp)+

lemma commit_wp:
  assumes "creating C held lid w" "\<And>c w'. vm_wf held w' \<Longrightarrow> Q c w'" "\<And>e w'. creating C held lid w' \<Longrightarrow> E e w'"
  shows "act_wp (commit_machine mid lid dir plan) Q E w"
  unfolding commit_machine_def act_wp_simps(4-6) act_wp_let
proof (rule db_write_wp)
  let ?c = "created_config mid lid dir plan (w_now w)" and ?st = "stopped_machine_state mid None (w_now w)"
  fix bs s' assume ok: "add_machine ?c ?st (w_store w) = Ok s'"
  have I: "vm_inv C held w" and f: "lf_files (w_locks w) lid \<noteq> None" "\<And>m c. C m = Some c \<Longrightarrow> mc_lock_id c \<noteq> lid"
    using assms(1) by (auto simp: creating_def)
  have c: "mc_id ?c = mid" "mc_lock_id ?c = lid" by (simp_all add: created_config_def)
  have s': "store_wf s' \<and> configs s' = C(mid \<mapsto> ?c) \<and> states s' = (states (w_store w))(mid \<mapsto> ?st)"
    using add_machine_ok [of "w_store w" ?st ?c] ok I by (simp add: vm_inv_def c)
  have "locks_wf (C(mid \<mapsto> ?c)) (lf_files (w_locks w))"
    using I f unfolding vm_inv_def locks_wf_def by (auto simp: c split: if_splits)
  then have "vm_wf held (w\<lparr>w_faults := bs, w_store := s'\<rparr>)"
    using I s' by (intro vm_wfI [of "C(mid \<mapsto> ?c)"]) (auto simp: vm_inv_def state_wf_def stopped_machine_state_def)
  then show "act_wp (act_return ?c) Q E (w\<lparr>w_faults := bs, w_store := s'\<rparr>)" using assms(2) by (simp add: wp)
qed (use assms in auto)

text \<open>A failed creation frees the lock; the guard leaves the invariant on every path.\<close>

lemma free_creating: "creating C held lid w \<Longrightarrow> vm_inv C held (w\<lparr>w_locks := Vm_Locks.free lid (w_locks w)\<rparr>)"
  by (auto simp: creating_def vm_inv_def locks_wf_def Vm_Locks.free_def)

lemma leads_create_guard:
  assumes "\<And>w. creating C held lid w \<Longrightarrow> act_wp body (\<lambda>_. vm_wf held) (\<lambda>_. creating C held lid) w"
  shows "leads (creating C held lid) (with_create_guard rt mid lid body) (vm_wf held)"
  unfolding leads_def with_create_guard_def
proof (intro allI impI)
  fix w assume I: "creating C held lid w"
  let ?undo = "\<lambda>err. act_seq (ignore (io (\<lambda>w. w\<lparr>w_locks := Vm_Locks.free lid (w_locks w)\<rparr>))) (act_throw err)"
  have undo: "act_wp (?undo err) (\<lambda>_. vm_wf held) (\<lambda>_. vm_wf held) w" if "creating C held lid w" for err :: LibVmError and w
    unfolding act_wp_simps(5) act_wp_ignore
    by (rule io_wp) (use that free_creating [of C held lid "w\<lparr>w_faults := _\<rparr>"] in
      \<open>auto simp: act_wp_simps(2) intro: vm_wfI [of C] dest: creating_inv\<close>)
  have inner: "act_wp (act_catch body (\<lambda>err. act_seq (ignore (io (remove_dir_all mid (machine_path (rt_roots rt) mid)))) (act_throw err)))
      (\<lambda>_. vm_wf held) (\<lambda>_. creating C held lid) w" if "creating C held lid w" for w
    unfolding act_wp_catch
    by (rule act_wp_mono [OF assms [OF that]]) (auto simp: act_wp_simps(2,5) intro: keeps_wp [OF keeps_create_parts(5)])
  show "act_wp (act_catch (act_seq (create_machine_dir rt mid)
      (act_catch body (\<lambda>err. act_seq (ignore (io (remove_dir_all mid (machine_path (rt_roots rt) mid)))) (act_throw err)))) ?undo)
      (\<lambda>_. vm_wf held) (\<lambda>_. vm_wf held) w"
    unfolding act_wp_catch [of _ ?undo] act_wp_simps(5) [of "create_machine_dir rt mid"]
    by (rule keeps_wp [OF keeps_create_parts(1) I]) (auto intro: undo act_wp_mono [OF inner])
qed


lemma leads_create_from_plan: "leads (vm_inv C held) (create_from_plan rt base plan bytes) (vm_wf held)"
proof -
  have guard: "leads (creating C held lid) (with_create_guard rt mid lid
      (act_seq (write_machine_config dir (cp_spec plan))
        (act_seq (clone_or_copy_root_disk base path)
          (act_seq (case bytes of None \<Rightarrow> act_return () | Some n \<Rightarrow> resize_raw_disk path n)
            (commit_machine mid lid dir plan))))) (vm_wf held)" for mid lid dir path
  proof (rule leads_create_guard)
    fix w assume I: "creating C held lid w"
    have "keeps (creating C held lid) (case bytes of None \<Rightarrow> act_return () | Some n \<Rightarrow> resize_raw_disk path n)"
      by (cases bytes) (simp_all add: keeps_create_parts keep)
    then show "act_wp (act_seq (write_machine_config dir (cp_spec plan)) (act_seq (clone_or_copy_root_disk base path)
        (act_seq (case bytes of None \<Rightarrow> act_return () | Some n \<Rightarrow> resize_raw_disk path n) (commit_machine mid lid dir plan))))
        (\<lambda>_. vm_wf held) (\<lambda>_. creating C held lid) w"
      unfolding act_wp_simps(5)
      by (intro keeps_wp [OF keeps_create_parts(2) I] keeps_wp [OF keeps_create_parts(3)] keeps_wp [of "creating C held lid" "case bytes of _ \<Rightarrow> _"]
          commit_wp)
  qed
  have alloc: "leads (vm_inv C held) (act_bind allocate_machine_lock k) (vm_wf held)"
    if k: "\<And>lid. leads (creating C held lid) (k lid) (vm_wf held)" for k :: "u32 \<Rightarrow> MachineConfig vm"
    unfolding leads_def allocate_machine_lock_def act_wp_simps(4,5)
  proof (intro allI impI may_fail_wp)
    fix w bs assume I: "vm_inv C held w"
    have "creating C held lid (w\<lparr>w_faults := bs, w_locks := fs\<rparr>)" if "allocate (w_locks w) = Ok (lid, fs)" for lid fs
    proof -
      have fs: "lf_files (w_locks w) lid = None"
        "fs = (w_locks w)\<lparr>lf_files := (lf_files (w_locks w))(lid \<mapsto> lf_next (w_locks w)), lf_next := lf_next (w_locks w) + 1\<rparr>"
        using allocate_loop_ok [of 0 "w_locks w" lid fs] that by (simp_all add: allocate_def)
      moreover have "mc_lock_id c \<noteq> lid" if "C m = Some c" for m c
        using I fs(1) that unfolding vm_inv_def locks_wf_def by metis
      ultimately show ?thesis using I by (simp add: creating_def vm_inv_def locks_wf_def)
    qed
    then show "act_wp (act_gets (\<lambda>w. allocate (w_locks w)))
        (\<lambda>x. act_wp (case x of Inl _ \<Rightarrow> act_throw (Io (msg ''no lock IDs available''))
            | Inr (lid, fs) \<Rightarrow> act_seq (act_modify (\<lambda>w. w\<lparr>w_locks := fs\<rparr>)) (act_return lid))
          (\<lambda>x. act_wp (k x) (\<lambda>_. vm_wf held) (\<lambda>_. vm_wf held)) (\<lambda>_. vm_wf held)) (\<lambda>_. vm_wf held) (w\<lparr>w_faults := bs\<rparr>)"
      using k I by (auto simp: act_wp_simps leads_def intro: vm_wfI [of C] split: sum.split)
  qed (auto intro: vm_wfI [of C])
  show ?thesis
    unfolding create_from_plan_def Let_def
    by (intro leads_bind [of _ _ "\<lambda>_. True", folded keeps_iff_gives] leads_if leads_throw alloc guard keep vm_inv_fault_free)
      (auto simp: draw_random_def intro: vm_wfI)
qed

lemma keeps_create_named: "keeps (vm_wf held) (create_machine_config_with_name rt request name)"
  unfolding create_machine_config_with_name_def
  by (rule leads_wf) (intro leads_bind [of _ _ "\<lambda>_. True", folded keeps_iff_gives] leads_seq leads_create_from_plan keep; 
    auto intro!: leads_seq leads_create_from_plan keep vm_wfI split: prod.split)

lemma keeps_create: "keeps (vm_wf held) (create_machine_config rt request)"
proof -
  have gen: "keeps (vm_wf held) (generate_machine_name env)" for env
    unfolding generate_machine_name_def by (rule keeps_wfI) (intro keep vm_inv_fault_free, simp add: draw_random_def)
  have "keeps (vm_wf held) (create_with_generated_name rt request n)" for n
    by (induction n) (auto intro!: keep gen keeps_create_named split: LibVmError.split)
  then show ?thesis by (simp add: create_machine_config_def keeps_create_named split: option.split)
qed


section \<open>Histories\<close>

text \<open>The public operations of the runtime, as a client calls them; their results are dropped.\<close>

datatype Operation =
    Open
  | Create MachineCreateRequest
  | Start MachineId "MachineExitCommand option"
  | Stop MachineId nat
  | Kill MachineId nat
  | Wait MachineId nat
  | Inspect MachineId
  | ListMachines
  | Cleanup MachineId
  | ReplaceConfig MachineId VmSpec
  | SetNetwork MachineId MachineNetworkConfig
  | Update MachineId MachineUpdate
  | Remove MachineId
  | DefineNetwork NetworkDefinition
  | RemoveNetwork string

definition forget :: "'a vm \<Rightarrow> unit vm" where
  "forget m = act_bind m (\<lambda>_. act_return ())"

fun perform :: "Runtime \<Rightarrow> Operation \<Rightarrow> unit vm" where
  "perform rt Open = refresh_active_machine_states rt"
| "perform rt (Create request) = forget (create_machine_config rt request)"
| "perform rt (Start mid exit_command) = forget (start_with rt mid exit_command)"
| "perform rt (Stop mid polls) = forget (stop_with rt mid polls)"
| "perform rt (Kill mid polls) = forget (kill_with rt mid polls)"
| "perform rt (Wait mid polls) = forget (wait_with rt mid polls False)"
| "perform rt (Inspect mid) = forget (act_bind (resolve_by_id rt mid) (machine_inspect_data rt))"
| "perform rt ListMachines = forget (list_reconciled_configs rt)"
| "perform rt (Cleanup mid) = forget (cleanup rt mid)"
| "perform rt (ReplaceConfig mid spec) = forget (replace_config rt mid spec)"
| "perform rt (SetNetwork mid network) = forget (set_network rt mid network)"
| "perform rt (Update mid update) = forget (update_machine rt mid update)"
| "perform rt (Remove mid) = Vm_Lifecycle.remove rt mid"
| "perform rt (DefineNetwork d) = create_network_definition d"
| "perform rt (RemoveNetwork name) = remove_named_network name"

lemma keeps_forget: "keeps I m \<Longrightarrow> keeps I (forget m)"
  unfolding forget_def by (intro keep)

lemma keeps_perform:
  assumes uuid: "uuid_spec (e_uuid (rt_env rt))"
  shows "keeps (vm_wf Map.empty) (perform rt op)"
  by (cases op)
    (simp_all add: keeps_forget keeps_create keeps_remove keeps_replace_config keeps_set_network keeps_update uuid
      keeps_wfI keeps_bind keeps_stored keeps_inspect keeps_refresh keeps_start keeps_stop keeps_wait keeps_list keeps_cleanup
      keeps_network_definitions)

text \<open>
  A step of a history: an operation, whatever it returns, or a change that other programs make on the
  host; the calls that are going to fail may change at any time.
\<close>

inductive vm_step :: "Runtime \<Rightarrow> World \<Rightarrow> World \<Rightarrow> bool" for rt where
  operation: "perform rt op w = Some (r, w') \<Longrightarrow> vm_step rt w w'"
| host: "vm_step rt w (apply_change mid ch w)"
| faults: "vm_step rt w (w\<lparr>w_faults := bs\<rparr>)"

lemma vm_step_wf:
  assumes "uuid_spec (e_uuid (rt_env rt))" "vm_step rt w w'" "vm_wf Map.empty w"
  shows "vm_wf Map.empty w'"
  using assms(2,3)
proof cases
  case (operation op r)
  then show ?thesis
    using keepsD [OF keeps_perform [OF assms(1)] assms(3), of op] by (auto simp: act_wp_def split: sum.splits)
next
  case (host mid ch)
  then show ?thesis using assms(3) by (simp add: vm_wf_def) (simp add: apply_change_def)
next
  case (faults bs)
  then show ?thesis using assms(3) by simp
qed

lemma vm_history_wf:
  assumes "uuid_spec (e_uuid (rt_env rt))" "(vm_step rt)\<^sup>*\<^sup>* w w'" "vm_wf Map.empty w"
  shows "vm_wf Map.empty w'"
  using assms(2,3) by (induction rule: rtranclp_induct) (auto intro: vm_step_wf [OF assms(1)])

lemma fresh_wf: "w_store w = Store_empty \<Longrightarrow> w_locks w = LockFs_empty \<Longrightarrow> vm_wf Map.empty w"
  by (intro vm_wfI [of Map.empty])
    (simp add: vm_inv_def locks_wf_def LockFs_empty_def configs_def states_def Store_empty_def Store_empty_wf [unfolded Store_empty_def])

text \<open>
  C4: After every history of operations from an empty installation, with any calls failing and whatever
  monitors and other programs do in between, every operation returns; the tables agree with each other,
  every persisted state is consistent, every machine has a reserved lock that no other machine has, and no
  lock is left taken.
\<close>

theorem history_invariant:
  assumes "uuid_spec (e_uuid (rt_env rt))" "w_store w0 = Store_empty" "w_locks w0 = LockFs_empty" "(vm_step rt)\<^sup>*\<^sup>* w0 w"
  shows "store_wf (w_store w) \<and> lf_owner (w_locks w) = Map.empty \<and>
    (\<forall>mid st. states (w_store w) mid = Some st \<longrightarrow> state_wf st) \<and>
    (\<forall>mid c. configs (w_store w) mid = Some c \<longrightarrow> lf_files (w_locks w) (mc_lock_id c) \<noteq> None \<and>
      (\<forall>mid' c'. configs (w_store w) mid' = Some c' \<longrightarrow> mc_lock_id c' = mc_lock_id c \<longrightarrow> mid' = mid)) \<and>
    (\<forall>op. \<exists>r w'. perform rt op w = Some (r, w'))"
proof -
  have wf: "vm_wf Map.empty w" by (rule vm_history_wf [OF assms(1, 4)]) (rule fresh_wf [OF assms(2, 3)])
  then have "\<exists>r w'. perform rt op w = Some (r, w')" for op
    using keepsD [OF keeps_perform [OF assms(1)] wf, of op] by (auto simp: act_wp_def split: option.splits)
  then show ?thesis using wf unfolding vm_wf_def vm_inv_def locks_wf_def by metis
qed


text \<open>A runtime on an empty host: no monitor starts, and nothing else happens.\<close>

definition sample_change :: HostChange where
  "sample_change = \<lparr>ch_procs = Map.empty, ch_pid_file = None, ch_exit_file = None, ch_elapsed = 1, ch_deadline = False\<rparr>"

definition sample_runtime :: Runtime where
  "sample_runtime =
     \<lparr>rt_env = \<lparr>e_uuid = simple_uuid, e_linux = False, e_random = (\<lambda>n. of_nat (n + 1)),
        e_spawn = (\<lambda>_ _. (NoReport, sample_change)), e_poll = (\<lambda>_. sample_change), e_inspect = (\<lambda>_ _. Err (msg ''no monitor''))\<rparr>,
      rt_net = \<lparr>ne_spawn = (\<lambda>_ _. (None, Map.empty)), ne_record = (\<lambda>_. None), ne_authority = Err (Io (msg ''no authority''))\<rparr>,
      rt_launch = \<lparr>le_home = None, le_cwd = Ok ''/work'', le_is_file = (\<lambda>_. False), le_canonicalize = Some,
        le_host = Err (msg ''no host''), le_forward_uds = (\<lambda>_. None)\<rparr>,
      rt_roots = \<lparr>lr_data_root = ''/data'', lr_run_root = ''/run'', lr_image_root = ''/data/images''\<rparr>,
      rt_networking = \<lparr>rn_private_driver = DriverNetd, rn_policy_config_dir = None,
        rn_netd = \<lparr>nr_subnet = ''192.168.127.0/24'', nr_pcap = False, nr_tls_ca_cert = None, nr_tls_ca_key = None\<rparr>\<rparr>\<rparr>"

definition sample_world :: World where
  "sample_world =
     \<lparr>w_store = Store_empty, w_locks = LockFs_empty, w_now = 100, w_drawn = 0, w_procs = Map.empty, w_signals = [],
      w_pid_files = Map.empty, w_exit_files = Map.empty, w_net_links = Map.empty, w_dirs = {}, w_disks = [''/base.img'' \<mapsto> 4096],
      w_specs = Map.empty, w_agent_configs = Map.empty, w_faults = []\<rparr>"

definition sample_request :: MachineCreateRequest where
  "sample_request =
     \<lparr>cq_image_ref = ''image'', cq_base_rootfs_path = ''/base.img'', cq_name = None, cq_labels = [], cq_metadata = [],
      cq_cpus = None, cq_memory = None, cq_kernel = None, cq_initramfs = None, cq_disk_size_bytes = Some 8192,
      cq_nested_virtualization = False, cq_rosetta = False, cq_userdata = None, cq_disks = [], cq_mounts = [], cq_network = None\<rparr>"

lemma sample_facts:
  "uuid_spec (e_uuid (rt_env sample_runtime))" "w_store sample_world = Store_empty" "w_locks sample_world = LockFs_empty"
  by (simp_all add: sample_runtime_def sample_world_def simple_uuid_spec)

theorem history_invariant_witness:
  "\<exists>r w. perform sample_runtime (Create sample_request) sample_world = Some (r, w) \<and>
     store_wf (w_store w) \<and> lf_owner (w_locks w) = Map.empty \<and> (\<exists>r' w'. perform sample_runtime ListMachines w = Some (r', w'))"
proof -
  note H = history_invariant [OF sample_facts]
  obtain r w where step: "perform sample_runtime (Create sample_request) sample_world = Some (r, w)"
    using H [OF rtranclp.rtrancl_refl] by blast
  then have "vm_step sample_runtime sample_world w" by (rule vm_step.operation)
  then have "(vm_step sample_runtime)\<^sup>*\<^sup>* sample_world w" by (rule r_into_rtranclp)
  from H [OF this] step show ?thesis by blast
qed

end
