(* ===== verification/Vm_Creation.thy ===== *)
theory Vm_Creation
  imports Vm_Invariants
begin

text \<open>
  What creating a machine leaves behind: a complete machine when it succeeds, and nothing when it fails.
\<close>

section \<open>Success\<close>

text \<open>The contents that a successful creation leaves, from the world \<open>w\<close> it started in.\<close>

definition created :: "Runtime \<Rightarrow> World \<Rightarrow> MachineId \<Rightarrow> MachineConfig \<Rightarrow> World \<Rightarrow> bool" where
  "created rt w mid c w' \<longleftrightarrow>
     configs (w_store w) mid = None \<and> configs (w_store w') = (configs (w_store w))(mid \<mapsto> c) \<and>
     states (w_store w') = (states (w_store w))(mid \<mapsto> stopped_machine_state mid None (w_now w)) \<and>
     allocate (w_locks w) = Ok (mc_lock_id c, w_locks w') \<and>
     w_specs w' = (w_specs w)(vm_spec_path_in (machine_path (rt_roots rt) mid) \<mapsto> mc_spec c)"

lemma keeps_store_undo:
  "keeps (\<lambda>w. w_store w = s) (ignore (io (remove_dir_all mid dir)))"
  "keeps (\<lambda>w. w_store w = s) (ignore (io (\<lambda>w. w\<lparr>w_locks := fs w\<rparr>)))"
  by (intro keep; simp add: fault_free_def remove_dir_all_def)+

lemma commit_success:
  "act_wp (commit_machine mid lid dir plan)
    (\<lambda>c w'. c = created_config mid lid dir plan (w_now w) \<and>
      add_machine c (stopped_machine_state mid None (w_now w)) (w_store w) = Ok (w_store w') \<and>
      w_locks w' = w_locks w \<and> w_specs w' = w_specs w \<and> w_disks w' = w_disks w)
    (\<lambda>_ w'. w_store w' = w_store w) w"
  unfolding commit_machine_def act_wp_simps(4-6) act_wp_let
  by (rule db_write_wp) (simp_all add: act_wp_simps)

lemma resize_success:
  assumes "w_disks w path = Some n"
  shows "act_wp (case bytes of None \<Rightarrow> act_return () | Some b \<Rightarrow> resize_raw_disk path b)
    (\<lambda>_ w'. w_store w' = w_store w \<and> w_now w' = w_now w \<and> w_locks w' = w_locks w \<and> w_specs w' = w_specs w \<and>
      w_disks w' = (w_disks w)(path \<mapsto> (case bytes of None \<Rightarrow> n | Some b \<Rightarrow> b)))
    (\<lambda>_ w'. w_store w' = w_store w) w"
proof (cases bytes)
  case None
  then show ?thesis using assms by (simp add: act_wp_simps fun_upd_idem)
next
  case (Some b)
  have *: "act_wp (if b < n then act_throw err else io (\<lambda>w. w\<lparr>w_disks := (w_disks w)(path \<mapsto> b)\<rparr>))
      (\<lambda>_ w'. w_store w' = w_store w \<and> w_now w' = w_now w \<and> w_locks w' = w_locks w \<and> w_specs w' = w_specs w \<and>
        w_disks w' = (w_disks w)(path \<mapsto> b)) (\<lambda>_ w'. w_store w' = w_store w) (w\<lparr>w_faults := bs\<rparr>)" for err bs
    by (simp add: act_wp_simps, rule impI, rule io_wp) simp_all
  show ?thesis
    unfolding Some option.case resize_raw_disk_def act_wp_simps(4)
    by (rule io_get_wp) (simp_all add: assms *)
qed

lemma create_body_success:
  "act_wp (act_seq (write_machine_config dir (cp_spec plan))
      (act_seq (clone_or_copy_root_disk base path)
        (act_seq (case bytes of None \<Rightarrow> act_return () | Some n \<Rightarrow> resize_raw_disk path n)
          (commit_machine mid lid dir plan))))
    (\<lambda>c w'. c = created_config mid lid dir plan (w_now w) \<and>
      add_machine c (stopped_machine_state mid None (w_now w)) (w_store w) = Ok (w_store w') \<and> w_locks w' = w_locks w \<and>
      w_specs w' = (w_specs w)(vm_spec_path_in dir \<mapsto> cp_spec plan) \<and>
      (\<exists>n. w_disks w base = Some n \<and> w_disks w' = (w_disks w)(path \<mapsto> (case bytes of None \<Rightarrow> n | Some b \<Rightarrow> b))))
    (\<lambda>_ w'. w_store w' = w_store w) w" (is "act_wp _ ?Q ?E w")
proof -
  have clone: "act_wp (clone_or_copy_root_disk base path)
      (\<lambda>_. act_wp (act_seq (case bytes of None \<Rightarrow> act_return () | Some n \<Rightarrow> resize_raw_disk path n) (commit_machine mid lid dir plan)) ?Q ?E) ?E
      (w\<lparr>w_faults := bs, w_specs := (w_specs w)(vm_spec_path_in dir \<mapsto> cp_spec plan)\<rparr>)" for bs
  proof (cases "w_disks w base")
    case None
    then show ?thesis
      unfolding clone_or_copy_root_disk_def act_wp_simps(4) by (intro io_get_wp) (simp_all add: act_wp_simps)
  next
    case (Some n)
    have rest: "act_wp (act_seq (case bytes of None \<Rightarrow> act_return () | Some n \<Rightarrow> resize_raw_disk path n) (commit_machine mid lid dir plan)) ?Q ?E w2"
      if "w_store w2 = w_store w" "w_now w2 = w_now w" "w_locks w2 = w_locks w"
        "w_specs w2 = (w_specs w)(vm_spec_path_in dir \<mapsto> cp_spec plan)" "w_disks w2 = (w_disks w)(path \<mapsto> n)" for w2
      unfolding act_wp_simps(5)
      by (rule act_wp_mono [OF resize_success [of _ path n]], simp add: that, rule act_wp_mono [OF commit_success]) (use Some that in auto)
    show ?thesis
      unfolding clone_or_copy_root_disk_def act_wp_simps(4)
      by (intro io_get_wp) (use Some in \<open>simp_all, auto intro!: io_wp rest [simplified Some, simplified]\<close>)
  qed
  show ?thesis
    unfolding write_machine_config_def act_wp_simps(5) [of "io _"] by (rule io_wp) (use clone in \<open>simp_all add: act_wp_simps(5)\<close>)
qed


text \<open>The worlds that agree on what a creation reads.\<close>

definition same_inputs :: "World \<Rightarrow> World \<Rightarrow> bool" where
  "same_inputs w w' \<longleftrightarrow>
     w_store w' = w_store w \<and> w_now w' = w_now w \<and> w_locks w' = w_locks w \<and> w_specs w' = w_specs w \<and> w_disks w' = w_disks w"

lemma guard_success:
  assumes body: "\<And>w'. same_inputs w w' \<Longrightarrow> act_wp body Q (\<lambda>_ w''. w_store w'' = w_store w) w'"
  shows "act_wp (with_create_guard rt mid lid body) Q (\<lambda>_ w'. w_store w' = w_store w) w"
proof -
  have undo: "act_wp (act_seq (ignore (io (\<lambda>w. w\<lparr>w_locks := free lid (w_locks w)\<rparr>))) (act_throw err))
      Q (\<lambda>_ w''. w_store w'' = w_store w) w'" if "w_store w' = w_store w" for err w'
    unfolding act_wp_simps(5)
    by (rule keeps_wp [OF keeps_store_undo(2) [of "w_store w" "\<lambda>w. free lid (w_locks w)"]]) (use that in \<open>simp_all add: act_wp_simps\<close>)
  have drop: "act_wp (act_seq (ignore (io (remove_dir_all mid dir))) (act_throw err))
      Q (\<lambda>_ w''. w_store w'' = w_store w) w'" if "w_store w' = w_store w" for err dir w'
    unfolding act_wp_simps(5)
    by (rule keeps_wp [OF keeps_store_undo(1) [of "w_store w"]]) (use that in \<open>simp_all add: act_wp_simps\<close>)
  have inner: "act_wp (act_catch body (\<lambda>err. act_seq (ignore (io (remove_dir_all mid (machine_path (rt_roots rt) mid)))) (act_throw err)))
      Q (\<lambda>_ w''. w_store w'' = w_store w) w'" if "same_inputs w w'" for w'
    unfolding act_wp_catch by (rule act_wp_mono [OF body [OF that]]) (auto intro: drop)
  have "act_wp (create_machine_dir rt mid) (\<lambda>_ w'. same_inputs w w') (\<lambda>_ w'. w_store w' = w_store w) w"
    unfolding create_machine_dir_def Let_def act_wp_simps(4,5)
    by (intro io_wp io_get_wp) (simp_all add: act_wp_simps same_inputs_def)
  then have "act_wp (create_machine_dir rt mid)
      (\<lambda>_. act_wp (act_catch body (\<lambda>err. act_seq (ignore (io (remove_dir_all mid (machine_path (rt_roots rt) mid)))) (act_throw err)))
        Q (\<lambda>e. act_wp (act_seq (ignore (io (\<lambda>w. w\<lparr>w_locks := free lid (w_locks w)\<rparr>))) (act_throw e)) Q (\<lambda>_ w'. w_store w' = w_store w)))
      (\<lambda>e. act_wp (act_seq (ignore (io (\<lambda>w. w\<lparr>w_locks := free lid (w_locks w)\<rparr>))) (act_throw e)) Q (\<lambda>_ w'. w_store w' = w_store w)) w"
    by (rule act_wp_mono) (auto intro: undo act_wp_mono [OF inner])
  then show ?thesis unfolding with_create_guard_def act_wp_simps(5) [of "create_machine_dir rt mid"] by (subst act_wp_catch) (simp add: act_wp_simps(5))
qed

lemma create_from_plan_success:
  assumes I: "store_wf (w_store w)" and mid_def: "mid = e_random (rt_env rt) (w_drawn w)"
    and dir_def: "dir = machine_path (rt_roots rt) mid"
  shows "act_wp (create_from_plan rt base plan bytes)
    (\<lambda>c w'. created rt w mid c w' \<and> (\<exists>lid. c = created_config mid lid dir plan (w_now w)) \<and>
      (\<exists>n. w_disks w base = Some n \<and> w_disks w' = (w_disks w)(root_disk_path dir \<mapsto> (case bytes of None \<Rightarrow> n | Some b \<Rightarrow> b))))
    (\<lambda>_ w'. w_store w' = w_store w) w" (is "act_wp _ ?Q ?E w")
proof -
  let ?body = "\<lambda>lid. act_seq (write_machine_config dir (cp_spec plan)) (act_seq (clone_or_copy_root_disk base (root_disk_path dir))
    (act_seq (case bytes of None \<Rightarrow> act_return () | Some n \<Rightarrow> resize_raw_disk (root_disk_path dir) n) (commit_machine mid lid dir plan)))"
  have guard: "act_wp (with_create_guard rt mid lid (?body lid)) ?Q ?E w1"
    if w1: "w_store w1 = w_store w" "w_now w1 = w_now w" "w_specs w1 = w_specs w" "w_disks w1 = w_disks w"
      and al: "allocate (w_locks w) = Ok (lid, w_locks w1)" for lid w1
  proof (rule act_wp_mono [OF guard_success [where Q = ?Q]])
    fix w' assume "same_inputs w1 w'"
    with I al show "act_wp (?body lid) ?Q (\<lambda>_ w''. w_store w'' = w_store w1) w'"
      using add_machine_ok [of "w_store w" "stopped_machine_state mid None (w_now w)" "created_config mid lid dir plan (w_now w)"] w1
      by (intro act_wp_mono [OF create_body_success])
        (auto simp: same_inputs_def created_def created_config_def dir_def)
  qed (use w1 in auto)
  have alloc: "act_wp (act_bind allocate_machine_lock (\<lambda>lid. with_create_guard rt mid lid (?body lid))) ?Q ?E w1"
    if "w_store w1 = w_store w" "w_now w1 = w_now w" "w_specs w1 = w_specs w" "w_disks w1 = w_disks w" "w_locks w1 = w_locks w" for w1
    unfolding allocate_machine_lock_def act_wp_simps(4,5)
    by (intro may_fail_wp) (use that guard in \<open>auto simp: act_wp_simps split: sum.split\<close>)
  have draw: "act_wp (act_bind (act_state (draw_random (rt_env rt))) k) Q E (w\<lparr>w_faults := bs\<rparr>) =
      act_wp (k mid) Q E (w\<lparr>w_faults := bs, w_drawn := Suc (w_drawn w)\<rparr>)" for k :: "MachineId \<Rightarrow> MachineConfig vm" and Q E bs
    by (simp add: act_wp_simps draw_random_def mid_def)
  have named: "act_wp (act_bind (db_read f) (\<lambda>existing. if existing \<noteq> None then act_throw err else
      act_bind (act_state (draw_random (rt_env rt))) (\<lambda>mid. act_bind allocate_machine_lock (\<lambda>lid.
        with_create_guard rt mid lid (act_seq (write_machine_config (machine_path (rt_roots rt) mid) (cp_spec plan))
          (act_seq (clone_or_copy_root_disk base (root_disk_path (machine_path (rt_roots rt) mid)))
            (act_seq (case bytes of None \<Rightarrow> act_return () | Some n \<Rightarrow> resize_raw_disk (root_disk_path (machine_path (rt_roots rt) mid)) n)
              (commit_machine mid lid (machine_path (rt_roots rt) mid) plan)))))))) ?Q ?E w" for f :: "Store \<Rightarrow> LibVmError + MachineConfig option" and err
    unfolding act_wp_simps(4) [of "db_read f"]
    by (rule db_read_wp) (auto simp: act_wp_simps(2) draw dir_def intro!: alloc [unfolded dir_def])
  show ?thesis
    unfolding create_from_plan_def Let_def act_wp_simps(4) [of "act_result _"] act_wp_simps(9)
    by (use named in \<open>auto split: sum.split\<close>)
qed


section \<open>Refusal\<close>

text \<open>When no call fails, the calls are their effects.\<close>

lemma quiet_wp:
  assumes "w_faults w = []"
  shows "act_wp (may_fail e) Q E w = Q () w"
    "act_wp (db_read f) Q' E w = (case f (w_store w) of Inl e \<Rightarrow> E e w | Inr x \<Rightarrow> Q' x w)"
    "act_wp (db_write g) Q E w = (case g (w_store w) of Inl e \<Rightarrow> E e w | Inr s \<Rightarrow> Q () (w\<lparr>w_store := s\<rparr>))"
    "act_wp (io h) Q E w = Q () (h w)"
    "act_wp (io_get k) Q'' E w = Q'' (k w) w"
  using assms by (auto simp: act_wp_may_fail db_read_def db_write_def io_def io_get_def act_wp_simps split: sum.split)

lemma hex_solid: "is_lower_hex c \<Longrightarrow> c \<noteq> CHR ''/''"
  by (auto simp: is_lower_hex_def is_digit_def)

text \<open>The directory of a machine does not end in a separator, and its files lie below it.\<close>

lemma machine_dir_open: "\<not> ends_with (machine_path roots mid) ''/'' \<and> machine_path roots mid \<noteq> []"
proof -
  have "hex_lower 32 mid \<noteq> []" by (metis length_hex_lower list.size(3) zero_neq_numeral)
  then obtain xs c where h: "MachineId_to_string mid = xs @ [c]" "is_lower_hex c"
    using hex_lower_all [of 32 mid] by (cases "hex_lower 32 mid" rule: rev_cases) (auto simp: MachineId_to_string_def)
  have "\<exists>pre. machine_path roots mid = pre @ xs @ [c]"
    unfolding machine_path_def path_push_def h(1) by (auto intro: exI [of _ "[]"] exI [of _ "machines_dir roots"] exI [of _ "machines_dir roots @ ''/''"])
  then obtain pre where "machine_path roots mid = pre @ xs @ [c]" ..
  then show ?thesis using hex_solid [OF h(2)] by (auto simp: ends_with_def)
qed

lemma machine_dir_proper: "machine_path roots mid \<noteq> machines_dir roots"
proof -
  have "\<not> starts_with (hex_lower 32 mid) ''/''"
    using hex_lower_all [of 32 mid] length_hex_lower [of 32 mid] by (cases "hex_lower 32 mid") (auto simp: starts_with_def dest: hex_solid)
  then have "length (machines_dir roots) < length (machine_path roots mid)"
    by (simp add: machine_path_def path_push_def MachineId_to_string_def)
  then show ?thesis by auto
qed

lemma below_push:
  "\<not> ends_with d ''/'' \<and> d \<noteq> [] \<Longrightarrow> \<not> starts_with n ''/'' \<Longrightarrow> below d (path_push d n)"
  by (simp add: below_def path_push_def starts_with_def)

lemma machine_files_below:
  "below (machine_path roots mid) (vm_spec_path_in (machine_path roots mid))"
  "below (machine_path roots mid) (root_disk_path (machine_path roots mid))"
  unfolding vm_spec_path_in_def root_disk_path_def
  by (rule below_push [OF machine_dir_open]; simp add: starts_with_def)+

text \<open>
  Calls that fail.  \<open>failures\<close> is the number of calls that are still going to fail; an error of the host is
  what such a call reports.  \<open>cost e\<close> is the number of failed calls that the error \<open>e\<close> accounts for.
\<close>

definition failures :: "World \<Rightarrow> nat" where
  "failures w = count_list (w_faults w) True"

definition host_error :: "LibVmError \<Rightarrow> bool" where
  "host_error e \<longleftrightarrow> e \<in> {Io (msg ''input/output error''), Database (msg ''database unavailable'')}"

definition cost :: "LibVmError \<Rightarrow> nat" where
  "cost e = (if host_error e then 1 else 0)"

lemma failures_world [simp]:
  "failures (w\<lparr>w_dirs := ds\<rparr>) = failures w" "failures (w\<lparr>w_locks := fs\<rparr>) = failures w" "failures (w\<lparr>w_specs := sp\<rparr>) = failures w"
  "failures (w\<lparr>w_disks := ks\<rparr>) = failures w" "failures (w\<lparr>w_drawn := d\<rparr>) = failures w" "failures (remove_dir_all mid dir w) = failures w"
  by (simp_all add: failures_def remove_dir_all_def)

lemma may_fail_counted:
  assumes "\<And>bs. failures (w\<lparr>w_faults := bs\<rparr>) = failures w \<Longrightarrow> Q () (w\<lparr>w_faults := bs\<rparr>)"
    "\<And>bs. Suc (failures (w\<lparr>w_faults := bs\<rparr>)) = failures w \<Longrightarrow> E e (w\<lparr>w_faults := bs\<rparr>)"
  shows "act_wp (may_fail e) Q E w"
  using assms(1) [of "w_faults w"] assms by (auto simp: act_wp_may_fail failures_def split: list.split)

text \<open>
  Assertions \<open>G n\<close> that count: \<open>n\<close> calls have failed.  An action is accounted for when it keeps \<open>G 0\<close> and ends
  with as many failed calls as its error accounts for.
\<close>

definition counting :: "(nat \<Rightarrow> World \<Rightarrow> bool) \<Rightarrow> bool" where
  "counting G \<longleftrightarrow>
     (\<forall>w bs. G 0 w \<longrightarrow> failures (w\<lparr>w_faults := bs\<rparr>) = failures w \<longrightarrow> G 0 (w\<lparr>w_faults := bs\<rparr>)) \<and>
     (\<forall>w bs. G 0 w \<longrightarrow> Suc (failures (w\<lparr>w_faults := bs\<rparr>)) = failures w \<longrightarrow> G 1 (w\<lparr>w_faults := bs\<rparr>))"

definition accounted :: "(nat \<Rightarrow> World \<Rightarrow> bool) \<Rightarrow> 'a vm \<Rightarrow> bool" where
  "accounted G m \<longleftrightarrow> (\<forall>w. G 0 w \<longrightarrow> act_wp m (\<lambda>_. G 0) (\<lambda>e. G (cost e)) w)"

lemma accounted_may_fail: "counting G \<Longrightarrow> host_error e \<Longrightarrow> accounted G (may_fail e)"
  unfolding accounted_def by (intro allI impI may_fail_counted) (auto simp: counting_def cost_def)

lemma accounted_bind: "accounted G m \<Longrightarrow> (\<And>x. accounted G (k x)) \<Longrightarrow> accounted G (act_bind m k)"
  unfolding accounted_def act_wp_simps(4) by (blast intro: act_wp_mono)

lemma accounted_seq: "accounted G m \<Longrightarrow> accounted G k \<Longrightarrow> accounted G (act_seq m k)"
  unfolding accounted_def act_wp_simps(5) by (blast intro: act_wp_mono)

lemma accounted_simple:
  "accounted G (act_return x)" "accounted G (act_gets f)" "\<not> host_error e \<Longrightarrow> accounted G (act_throw e)"
  "(\<And>w. G 0 w \<Longrightarrow> G 0 (g w)) \<Longrightarrow> accounted G (act_modify g)"
  by (simp_all add: accounted_def act_wp_simps cost_def)

lemma accounted_io:
  "counting G \<Longrightarrow> (\<And>w. G 0 w \<Longrightarrow> G 0 (g w)) \<Longrightarrow> accounted G (io g)" "counting G \<Longrightarrow> accounted G (io_get f)"
  unfolding io_def io_get_def by (intro accounted_seq accounted_may_fail accounted_simple; simp add: host_error_def)+

lemmas accounted = accounted_bind accounted_seq accounted_simple accounted_io

text \<open>What a refused request must not change.\<close>

definition untouched :: "Runtime \<Rightarrow> World \<Rightarrow> World \<Rightarrow> bool" where
  "untouched rt w w' \<longleftrightarrow>
     w_store w' = w_store w \<and> lf_files (w_locks w') = lf_files (w_locks w) \<and> w_disks w' = w_disks w \<and> w_specs w' = w_specs w \<and>
     w_dirs w \<subseteq> w_dirs w' \<and> w_dirs w' \<subseteq> insert (machines_dir (rt_roots rt)) (w_dirs w)"

text \<open>A directory that does not exist holds no files.\<close>

definition vacant :: "string \<Rightarrow> World \<Rightarrow> bool" where
  "vacant dir w \<longleftrightarrow>
     dir \<in> w_dirs w \<or>
     (\<forall>p. below dir p \<longrightarrow> w_disks w p = None \<and> w_specs w p = None \<and> w_agent_configs w p = None \<and> p \<notin> w_dirs w)"

text \<open>A world inside the guard, before the record is committed, after \<open>n\<close> calls failed.\<close>

definition inside_guard :: "Runtime \<Rightarrow> MachineId \<Rightarrow> u32 \<Rightarrow> World \<Rightarrow> nat \<Rightarrow> World \<Rightarrow> bool" where
  "inside_guard rt mid lid w n w' \<longleftrightarrow>
     failures w' + n = failures w \<and> w_store w' = w_store w \<and> (\<exists>i. lf_files (w_locks w') = (lf_files (w_locks w))(lid \<mapsto> i)) \<and>
     (\<forall>p. \<not> below (machine_path (rt_roots rt) mid) p \<longrightarrow> w_disks w' p = w_disks w p \<and> w_specs w' p = w_specs w p) \<and>
     w_dirs w \<subseteq> w_dirs w' \<and> w_dirs w' \<subseteq> insert (machine_path (rt_roots rt) mid) (insert (machines_dir (rt_roots rt)) (w_dirs w))"

lemma inside_guard_counting: "counting (inside_guard rt mid lid w)"
  by (auto simp: counting_def inside_guard_def)

lemma inside_guard_undone:
  assumes "inside_guard rt mid lid w n w'" "vacant (machine_path (rt_roots rt) mid) w" "machine_path (rt_roots rt) mid \<notin> w_dirs w"
    "lf_files (w_locks w) lid = None"
  shows "untouched rt w ((remove_dir_all mid (machine_path (rt_roots rt) mid) w')\<lparr>w_locks := free lid (w_locks w')\<rparr>)"
proof -
  let ?d = "machine_path (rt_roots rt) mid"
  have "lf_files (free lid (w_locks w')) = lf_files (w_locks w)"
    using assms(1,4) by (auto simp: inside_guard_def Vm_Locks.free_def fun_eq_iff)
  moreover have "(\<lambda>p. if below ?d p then None else w_disks w' p) = w_disks w" "(\<lambda>p. if below ?d p then None else w_specs w' p) = w_specs w"
    using assms(1-3) by (auto simp: inside_guard_def vacant_def fun_eq_iff)
  moreover have "w_dirs w \<subseteq> {e \<in> w_dirs w'. e \<noteq> ?d \<and> \<not> below ?d e}"
    using assms(1-3) by (auto simp: inside_guard_def vacant_def)
  ultimately show ?thesis
    using assms(1) unfolding untouched_def remove_dir_all_def inside_guard_def by auto
qed

lemma inside_guard_steps:
  assumes dir: "dir = machine_path (rt_roots rt) mid"
  shows "accounted (inside_guard rt mid lid w) (write_machine_config dir spec)"
    "accounted (inside_guard rt mid lid w) (clone_or_copy_root_disk base (root_disk_path dir))"
    "accounted (inside_guard rt mid lid w) (case bytes of None \<Rightarrow> act_return () | Some n \<Rightarrow> resize_raw_disk (root_disk_path dir) n)"
proof -
  note b = machine_files_below [of "rt_roots rt" mid, folded dir]
  have upd: "inside_guard rt mid lid w 0 (w'\<lparr>w_specs := (w_specs w')(vm_spec_path_in dir \<mapsto> spec)\<rparr>)"
    "inside_guard rt mid lid w 0 (w'\<lparr>w_disks := (w_disks w')(root_disk_path dir \<mapsto> n)\<rparr>)" if "inside_guard rt mid lid w 0 w'" for w' n
    using that b by (auto simp: inside_guard_def dir)
  note acc = accounted inside_guard_counting upd
  show "accounted (inside_guard rt mid lid w) (write_machine_config dir spec)"
    unfolding write_machine_config_def by (intro acc)
  show "accounted (inside_guard rt mid lid w) (clone_or_copy_root_disk base (root_disk_path dir))"
    unfolding clone_or_copy_root_disk_def
    by (intro acc) (auto simp: host_error_def intro!: acc split: option.split)
  show "accounted (inside_guard rt mid lid w) (case bytes of None \<Rightarrow> act_return () | Some n \<Rightarrow> resize_raw_disk (root_disk_path dir) n)"
    unfolding resize_raw_disk_def
    by (auto simp: host_error_def intro!: acc split: option.split)
qed

text \<open>When its error accounts for all calls that failed, a creation that fails leaves nothing behind.\<close>

definition cleaned :: "Runtime \<Rightarrow> World \<Rightarrow> LibVmError \<Rightarrow> World \<Rightarrow> bool" where
  "cleaned rt w e w' \<longleftrightarrow> failures w' + cost e \<le> failures w \<and> (failures w' + cost e = failures w \<longrightarrow> untouched rt w w')"

lemma untouched_faults [simp]: "untouched rt w (w'\<lparr>w_faults := bs\<rparr>) = untouched rt w w'"
  by (simp add: untouched_def)

lemma undo_wp:
  assumes "\<And>bs. failures (w\<lparr>w_faults := bs\<rparr>) = failures w \<Longrightarrow> E e (f (w\<lparr>w_faults := bs\<rparr>))"
    "\<And>bs. Suc (failures (w\<lparr>w_faults := bs\<rparr>)) = failures w \<Longrightarrow> E e (w\<lparr>w_faults := bs\<rparr>)"
  shows "act_wp (act_seq (ignore (io f)) (act_throw e)) Q E w"
  unfolding act_wp_simps(2,5) act_wp_ignore io_def
  by (rule may_fail_counted) (use assms in \<open>simp_all add: act_wp_simps(7)\<close>)

lemma free_cleaned:
  assumes "failures w' + cost e \<le> failures w" "failures w' + cost e = failures w \<Longrightarrow> untouched rt w (w'\<lparr>w_locks := free lid (w_locks w')\<rparr>)"
  shows "act_wp (act_seq (ignore (io (\<lambda>w. w\<lparr>w_locks := free lid (w_locks w)\<rparr>))) (act_throw e)) Q (cleaned rt w) w'"
  by (rule undo_wp) (use assms in \<open>auto simp: cleaned_def untouched_def\<close>)

lemma drop_cleaned:
  assumes J: "inside_guard rt mid lid w (cost e) w'" and v: "vacant (machine_path (rt_roots rt) mid) w"
    "machine_path (rt_roots rt) mid \<notin> w_dirs w" and l: "lf_files (w_locks w) lid = None"
  shows "act_wp (act_seq (ignore (io (remove_dir_all mid (machine_path (rt_roots rt) mid)))) (act_throw e)) Q
    (\<lambda>e. act_wp (act_seq (ignore (io (\<lambda>w. w\<lparr>w_locks := free lid (w_locks w)\<rparr>))) (act_throw e)) Q' (cleaned rt w)) w'"
proof (rule undo_wp)
  have f: "failures w' + cost e = failures w" using J by (simp add: inside_guard_def)
  fix bs
  let ?w = "w'\<lparr>w_faults := bs\<rparr>"
  let ?free = "act_seq (ignore (io (\<lambda>w. w\<lparr>w_locks := free lid (w_locks w)\<rparr>))) (act_throw e)"
  {
    assume same: "failures ?w = failures w'"
    then have "inside_guard rt mid lid w (cost e) ?w" using J by (simp add: inside_guard_def)
    from inside_guard_undone [OF this v l] show "act_wp ?free Q' (cleaned rt w) (remove_dir_all mid (machine_path (rt_roots rt) mid) ?w)"
      by (intro free_cleaned) (use f same in \<open>simp_all add: remove_dir_all_def failures_def\<close>)
  next
    assume "Suc (failures ?w) = failures w'"
    then show "act_wp ?free Q' (cleaned rt w) ?w" by (intro free_cleaned) (use f in simp_all)
  }
qed

text \<open>Before the directory of the machine is there.\<close>

definition lock_taken :: "Runtime \<Rightarrow> u32 \<Rightarrow> World \<Rightarrow> nat \<Rightarrow> World \<Rightarrow> bool" where
  "lock_taken rt lid w n w' \<longleftrightarrow>
     failures w' + n = failures w \<and> w_store w' = w_store w \<and> (\<exists>i. lf_files (w_locks w') = (lf_files (w_locks w))(lid \<mapsto> i)) \<and>
     w_disks w' = w_disks w \<and> w_specs w' = w_specs w \<and>
     w_dirs w \<subseteq> w_dirs w' \<and> w_dirs w' \<subseteq> insert (machines_dir (rt_roots rt)) (w_dirs w)"

lemma lock_taken_counting: "counting (lock_taken rt lid w)"
  by (auto simp: counting_def lock_taken_def)

lemma lock_taken_undone:
  "lock_taken rt lid w n w' \<Longrightarrow> lf_files (w_locks w) lid = None \<Longrightarrow> untouched rt w (w'\<lparr>w_locks := free lid (w_locks w')\<rparr>)"
  by (auto simp: lock_taken_def untouched_def Vm_Locks.free_def fun_eq_iff)

lemma create_dir_wp:
  assumes "lock_taken rt lid w 0 w1"
  shows "act_wp (create_machine_dir rt mid)
    (\<lambda>_ w'. inside_guard rt mid lid w 0 w' \<and> machine_path (rt_roots rt) mid \<notin> w_dirs w) (\<lambda>e. lock_taken rt lid w (cost e)) w1"
proof -
  let ?d = "machine_path (rt_roots rt) mid" and ?G = "lock_taken rt lid w"
  have mkdir: "act_wp (io (\<lambda>w. w\<lparr>w_dirs := insert (machines_dir (rt_roots rt)) (w_dirs w)\<rparr>)) (\<lambda>_. ?G 0) (\<lambda>e. ?G (cost e)) w1"
    by (rule accounted_io(1) [OF lock_taken_counting, unfolded accounted_def, rule_format]) (use assms in \<open>auto simp: lock_taken_def\<close>)
  have get: "act_wp (io_get (\<lambda>w. ?d \<in> w_dirs w)) (\<lambda>taken w'. ?G 0 w' \<and> (taken \<longleftrightarrow> ?d \<in> w_dirs w')) (\<lambda>e. ?G (cost e)) w'" if "?G 0 w'" for w'
    unfolding io_get_def act_wp_simps(5)
    by (rule may_fail_counted) (use that in \<open>auto simp: act_wp_simps(6) lock_taken_def cost_def host_error_def\<close>)
  have cont: "act_wp (if taken then act_throw (MachineIdAlreadyExists (MachineId_to_string mid)) else act_modify (\<lambda>w. w\<lparr>w_dirs := insert ?d (w_dirs w)\<rparr>))
      (\<lambda>_ w'. inside_guard rt mid lid w 0 w' \<and> ?d \<notin> w_dirs w) (\<lambda>e. ?G (cost e)) w'"
    if "?G 0 w' \<and> (taken \<longleftrightarrow> ?d \<in> w_dirs w')" for taken w'
    using that by (auto simp: act_wp_simps(2,7) cost_def host_error_def lock_taken_def inside_guard_def)
  show ?thesis
    unfolding create_machine_dir_def Let_def act_wp_simps(4,5)
    by (rule act_wp_mono [OF mkdir], rule act_wp_mono [OF get], assumption, erule cont)
qed

lemma guard_refused:
  assumes w1: "lock_taken rt lid w 0 w1" and v: "vacant (machine_path (rt_roots rt) mid) w" and l: "lf_files (w_locks w) lid = None"
    and body: "\<And>w'. inside_guard rt mid lid w 0 w' \<Longrightarrow> act_wp body (\<lambda>_ _. True) (\<lambda>e. inside_guard rt mid lid w (cost e)) w'"
  shows "act_wp (with_create_guard rt mid lid body) (\<lambda>_ _. True) (cleaned rt w) w1"
  unfolding with_create_guard_def act_wp_catch act_wp_simps(5) [of "create_machine_dir rt mid"]
proof (rule act_wp_mono [OF create_dir_wp [OF w1]])
  fix e w' assume "lock_taken rt lid w (cost e) w'"
  then show "act_wp (act_seq (ignore (io (\<lambda>w. w\<lparr>w_locks := free lid (w_locks w)\<rparr>))) (act_throw e)) (\<lambda>_ _. True) (cleaned rt w) w'"
    by (intro free_cleaned lock_taken_undone l) (auto simp: lock_taken_def)
next
  fix x w' assume J: "inside_guard rt mid lid w 0 w' \<and> machine_path (rt_roots rt) mid \<notin> w_dirs w"
  then show "act_wp body (\<lambda>_ _. True) (\<lambda>e. act_wp (act_seq (ignore (io (remove_dir_all mid (machine_path (rt_roots rt) mid)))) (act_throw e))
      (\<lambda>_ _. True) (\<lambda>e. act_wp (act_seq (ignore (io (\<lambda>w. w\<lparr>w_locks := free lid (w_locks w)\<rparr>))) (act_throw e)) (\<lambda>_ _. True) (cleaned rt w))) w'"
    by (intro act_wp_mono [OF body]) (use J v l in \<open>auto intro: drop_cleaned\<close>)
qed

lemma create_from_plan_refused:
  assumes mid: "mid = e_random (rt_env rt) (w_drawn w)" and v: "vacant (machine_path (rt_roots rt) mid) w" and bs0: "failures w0 = failures w"
    "\<exists>bs. w0 = w\<lparr>w_faults := bs\<rparr>"
  shows "act_wp (create_from_plan rt base plan bytes) (\<lambda>_ _. True) (\<lambda>e w'. failures w \<le> failures w' + cost e \<longrightarrow> untouched rt w w') w0"
    (is "act_wp _ _ ?E w0")
proof -
  let ?d = "machine_path (rt_roots rt) mid"
  have self: "untouched rt w (w\<lparr>w_faults := bs\<rparr>)" "untouched rt w (w\<lparr>w_faults := bs, w_drawn := d\<rparr>)" "untouched rt w (w\<lparr>w_drawn := d\<rparr>)" for bs d by (auto simp: untouched_def)
  have commit: "act_wp (commit_machine mid lid ?d plan) (\<lambda>_ _. True) (\<lambda>e. inside_guard rt mid lid w (cost e)) w'"
    if "inside_guard rt mid lid w 0 w'" for lid w'
  proof -
    have e: "\<not> host_error e" if "add_machine c st s = Err e" for c st s e
      using that by (auto simp: add_machine_def host_error_def constraint_error_def Let_def split: if_splits)
    have add: "act_wp (db_write (add_machine c st)) (\<lambda>_ _. True) (\<lambda>e. inside_guard rt mid lid w (cost e)) w'" for c st
      unfolding db_write_def act_wp_simps(5)
      by (rule may_fail_counted)
        (use that e in \<open>auto simp: act_wp_simps cost_def host_error_def inside_guard_def split: sum.split\<close>)
    show ?thesis
      unfolding commit_machine_def act_wp_simps(4-6) act_wp_let by (rule act_wp_mono [OF add]) (simp_all add: act_wp_simps)
  qed
  have body: "act_wp (act_seq (write_machine_config ?d (cp_spec plan)) (act_seq (clone_or_copy_root_disk base (root_disk_path ?d))
      (act_seq (case bytes of None \<Rightarrow> act_return () | Some n \<Rightarrow> resize_raw_disk (root_disk_path ?d) n) (commit_machine mid lid ?d plan))))
      (\<lambda>_ _. True) (\<lambda>e. inside_guard rt mid lid w (cost e)) w'"
    if "inside_guard rt mid lid w 0 w'" for lid w'
    unfolding act_wp_simps(5)
    by (rule act_wp_mono [OF inside_guard_steps(1) [OF refl, unfolded accounted_def, rule_format, OF that]],
        rule act_wp_mono [OF inside_guard_steps(2) [OF refl, unfolded accounted_def, rule_format]], assumption,
        rule act_wp_mono [OF inside_guard_steps(3) [OF refl, unfolded accounted_def, rule_format]], assumption) (auto intro: commit)
  have guard: "act_wp (with_create_guard rt mid lid
      (act_seq (write_machine_config ?d (cp_spec plan)) (act_seq (clone_or_copy_root_disk base (root_disk_path ?d))
        (act_seq (case bytes of None \<Rightarrow> act_return () | Some n \<Rightarrow> resize_raw_disk (root_disk_path ?d) n) (commit_machine mid lid ?d plan)))))
      (\<lambda>_ _. True) ?E (w\<lparr>w_drawn := d, w_faults := bs, w_locks := fs\<rparr>)"
    if "allocate (w_locks w) = Ok (lid, fs)" "failures (w\<lparr>w_faults := bs\<rparr>) = failures w" for lid fs d bs
    by (rule act_wp_mono [OF guard_refused [OF _ v _ body]])
      (use allocate_loop_ok [of 0 "w_locks w" lid fs] that in \<open>auto simp: allocate_def lock_taken_def cleaned_def failures_def\<close>)
  have alloc: "act_wp (act_bind allocate_machine_lock (\<lambda>lid. with_create_guard rt mid lid
      (act_seq (write_machine_config ?d (cp_spec plan)) (act_seq (clone_or_copy_root_disk base (root_disk_path ?d))
        (act_seq (case bytes of None \<Rightarrow> act_return () | Some n \<Rightarrow> resize_raw_disk (root_disk_path ?d) n) (commit_machine mid lid ?d plan))))))
      (\<lambda>_ _. True) ?E (w\<lparr>w_faults := bs, w_drawn := d\<rparr>)" if "failures (w\<lparr>w_faults := bs\<rparr>) = failures w" for bs d
    unfolding allocate_machine_lock_def act_wp_simps(4,5)
    by (rule may_fail_counted) (use self guard that in \<open>auto simp: act_wp_simps failures_def split: sum.split\<close>)
  obtain bs where w0: "w0 = w\<lparr>w_faults := bs\<rparr>" using bs0(2) by blast
  have named: "act_wp (db_read f) (\<lambda>existing. act_wp (if existing \<noteq> None then act_throw err else
      act_bind (act_state (draw_random (rt_env rt))) (\<lambda>mid. act_bind allocate_machine_lock (\<lambda>lid. with_create_guard rt mid lid
        (act_seq (write_machine_config (machine_path (rt_roots rt) mid) (cp_spec plan))
          (act_seq (clone_or_copy_root_disk base (root_disk_path (machine_path (rt_roots rt) mid)))
            (act_seq (case bytes of None \<Rightarrow> act_return () | Some n \<Rightarrow> resize_raw_disk (root_disk_path (machine_path (rt_roots rt) mid)) n)
              (commit_machine mid lid (machine_path (rt_roots rt) mid) plan))))))) (\<lambda>_ _. True) ?E) ?E w0"
    for f :: "Store \<Rightarrow> LibVmError + MachineConfig option" and err
    unfolding db_read_def act_wp_simps(5) [of "may_fail _"] w0
    by (rule may_fail_counted)
      (use bs0(1) self alloc in \<open>auto simp: act_wp_simps(2,4,6,9,10) draw_random_def mid [symmetric] w0 split: sum.split\<close>)
  show ?thesis
    unfolding create_from_plan_def Let_def act_wp_simps(4) [of "act_result _"] act_wp_simps(9) act_wp_simps(4) [of "db_read _"]
    using named self w0 by (auto split: sum.split)
qed

section \<open>All or nothing\<close>

lemma create_plan_ok:
  "create_plan le sizes request name = Ok (base, plan) \<Longrightarrow>
   cp_name plan = name \<and> cp_root_disk_size plan = or_else (cq_disk_size_bytes request) (sizes base)"
  unfolding create_plan_def Let_def bind_result_def
  by (auto split: if_splits sum.splits option.splits)

lemma validate_network_wp:
  assumes "\<And>bs. failures (w\<lparr>w_faults := bs\<rparr>) = failures w \<Longrightarrow> Q () (w\<lparr>w_faults := bs\<rparr>)" "\<And>e bs. E e (w\<lparr>w_faults := bs\<rparr>)"
  shows "act_wp (validate_machine_network_config n) Q E w"
proof (cases n)
  case (NetNamed name)
  have "act_wp (act_bind (db_read (\<lambda>s. Ok (network_definition name s))) (\<lambda>d.
      if d = None then act_throw err else act_return ())) Q E w" for err
    unfolding act_wp_simps(4) db_read_def act_wp_simps(5)
    by (rule may_fail_counted) (use assms in \<open>auto simp: act_wp_simps\<close>)
  moreover have "E e w" for e using assms(2) [of e "w_faults w"] by simp
  ultimately show ?thesis
    by (auto simp: NetNamed validate_machine_network_config_def act_wp_simps(4) [of "act_result _"] act_wp_simps(9) split: sum.split)
qed (use assms(1) [of "w_faults w"] in \<open>simp_all add: validate_machine_network_config_def act_wp_simps\<close>)

lemma create_named_success:
  assumes "store_wf (w_store w)" "mid = e_random (rt_env rt) (w_drawn w)" "dir = machine_path (rt_roots rt) mid"
  shows "act_wp (create_machine_config_with_name rt request name)
    (\<lambda>c w'. created rt w mid c w' \<and> mc_id c = mid \<and> mc_name c = name \<and> mc_machine_dir c = dir \<and>
      mc_root_disk_size c \<noteq> None \<and> w_disks w' (root_disk_path dir) = mc_root_disk_size c)
    (\<lambda>_ w'. w_store w' = w_store w) w" (is "act_wp _ ?Q ?E w")
proof -
  have "act_wp (create_from_plan rt base plan (cq_disk_size_bytes request)) ?Q ?E (w\<lparr>w_faults := bs\<rparr>)"
    if "create_plan (rt_launch rt) (w_disks w) request name = Ok (base, plan)" for base plan bs
    using create_plan_ok [OF that] assms
    by (intro act_wp_mono [OF create_from_plan_success [of "w\<lparr>w_faults := bs\<rparr>" mid rt dir]])
      (auto simp: created_def or_else_def created_config_def split: option.splits)
  then show ?thesis
    unfolding create_machine_config_with_name_def
    by (auto simp: act_wp_simps split: sum.split intro!: validate_network_wp)
qed

lemma create_named_refused:
  assumes "vacant (machine_path (rt_roots rt) (e_random (rt_env rt) (w_drawn w))) w"
  shows "act_wp (create_machine_config_with_name rt request name) (\<lambda>_ _. True)
    (\<lambda>e w'. failures w \<le> failures w' + cost e \<longrightarrow> untouched rt w w') w"
proof -
  have self: "untouched rt w (w\<lparr>w_faults := bs\<rparr>)" "untouched rt w w" for bs by (auto simp: untouched_def)
  show ?thesis
    unfolding create_machine_config_with_name_def
    by (auto simp: act_wp_simps self split: sum.split intro!: validate_network_wp create_from_plan_refused [OF refl assms])
qed

text \<open>
  C8: Creating a machine is all or nothing.  When it returns, the machine is recorded as stopped under the
  requested name and a fresh identifier, with a lock identifier that was free and is reserved now, its
  specification is in its directory, and its root disk exists with the recorded size.  When it fails, the
  database is as before, and no lock, directory or file is left, whether the request was refused or a system
  or database call failed at any point; the exception is a call of the clean-up that fails too, so that more
  calls failed than the one that the error reports.
\<close>

theorem create_all_or_nothing:
  assumes "vm_wf Map.empty w" "mid = e_random (rt_env rt) (w_drawn w)" "dir = machine_path (rt_roots rt) mid"
  shows "act_wp (create_machine_config_with_name rt request name)
    (\<lambda>c w'. configs (w_store w) mid = None \<and> configs (w_store w') = (configs (w_store w))(mid \<mapsto> c) \<and>
      states (w_store w') = (states (w_store w))(mid \<mapsto> stopped_machine_state mid None (w_now w)) \<and>
      mc_id c = mid \<and> mc_name c = name \<and> mc_machine_dir c = dir \<and>
      lf_files (w_locks w) (mc_lock_id c) = None \<and> lf_files (w_locks w') (mc_lock_id c) \<noteq> None \<and>
      w_specs w' (vm_spec_path_in dir) = Some (mc_spec c) \<and>
      mc_root_disk_size c \<noteq> None \<and> w_disks w' (root_disk_path dir) = mc_root_disk_size c)
    (\<lambda>e w'. w_store w' = w_store w \<and> (vacant dir w \<and> failures w \<le> failures w' + cost e \<longrightarrow> untouched rt w w')) w"
proof -
  have "store_wf (w_store w)" using assms(1) by (simp add: vm_wf_def vm_inv_def)
  from create_named_success [OF this assms(2,3)]
  have ok: "act_wp (create_machine_config_with_name rt request name)
      (\<lambda>c w'. created rt w mid c w' \<and> mc_id c = mid \<and> mc_name c = name \<and> mc_machine_dir c = dir \<and>
        mc_root_disk_size c \<noteq> None \<and> w_disks w' (root_disk_path dir) = mc_root_disk_size c)
      (\<lambda>_ w'. w_store w' = w_store w) w" .
  have lock: "lf_files fs lid = None" "lf_files fs' lid \<noteq> None" if "allocate fs = Ok (lid, fs')" for fs fs' lid
    using allocate_loop_ok [of 0 fs lid fs'] that by (auto simp: allocate_def)
  show ?thesis
  proof (cases "vacant dir w")
    case True
    then have "act_wp (create_machine_config_with_name rt request name) (\<lambda>_ _. True)
        (\<lambda>e w'. failures w \<le> failures w' + cost e \<longrightarrow> untouched rt w w') w"
      using assms(2,3) by (intro create_named_refused) auto
    from act_wp_conj [OF ok this] show ?thesis
      by (rule act_wp_mono) (use lock in \<open>auto simp: created_def assms(3)\<close>)
  next
    case False
    then show ?thesis by (intro act_wp_mono [OF ok]) (use lock in \<open>auto simp: created_def assms(3)\<close>)
  qed
qed

text \<open>
  C32: Lock files do not survive the directory they are in, which is the directory of the login session
  where \<open>XDG_RUNTIME_DIR\<close> names one, while machine records do.  When that directory was cleared, the next machine gets lock 0 again,
  whatever lock the stored machines have: two machines share a lock, and removing one deletes the lock file
  of the other.
\<close>

theorem cleared_locks_shared:
  assumes "store_wf (w_store w)" "configs (w_store w) m = Some c" "mc_lock_id c = 0" "w_locks w = LockFs_empty"
  shows "act_wp (create_machine_config_with_name rt request name)
    (\<lambda>c' w'. configs (w_store w') m = Some c \<and> configs (w_store w') (mc_id c') = Some c' \<and> mc_id c' \<noteq> m \<and>
      mc_lock_id c' = mc_lock_id c \<and> lf_files (free (mc_lock_id c') (w_locks w')) (mc_lock_id c) = None)
    (\<lambda>_ w'. w_store w' = w_store w) w"
proof -
  have "allocate LockFs_empty = Ok (lid, fs) \<Longrightarrow> lid = 0" for lid fs
    using allocate_loop_spec [of 0 0 LockFs_empty] by (simp add: allocate_def LockFs_empty_def)
  then show ?thesis
    by (intro act_wp_mono [OF create_named_success [OF assms(1) refl refl]])
      (use assms(2-) in \<open>auto simp: created_def Vm_Locks.free_def\<close>)
qed


text \<open>Creations that succeed: the first machine, and one beside a machine that is stored.\<close>

definition sample_store :: Store where
  "sample_store = Store_empty
     \<lparr>machine_config_table := [\<lparr>cr_id = MachineId_to_string 7, cr_name = ''old'', cr_config_json = sample_config 7 ''old'' 0\<rparr>],
      machine_state_table := [\<lparr>sr_machine_id = MachineId_to_string 7, sr_status = as_str Stopped, sr_state_json = sample_stopped 7\<rparr>]\<rparr>"

lemma sample_store_facts: "store_wf sample_store" "configs sample_store = [7 \<mapsto> sample_config 7 ''old'' 0]"
  by (simp_all add: sample_store_def Store_empty_def store_wf_def config_rows_wf_def state_rows_wf_def network_rows_wf_def configs_def
      sample_config_def sample_stopped_def)

lemma sample_creation:
  assumes "s = Store_empty \<or> s = sample_store"
  shows "act_wp (create_machine_config_with_name sample_runtime sample_request ''dev'') (\<lambda>_ _. True) (\<lambda>_ _. False) (sample_world\<lparr>w_store := s\<rparr>)"
proof -
  have name: "validate_machine_name ''dev'' = Ok ()" by code_simp
  have plan: "\<exists>p. create_plan (rt_launch sample_runtime) (w_disks sample_world) sample_request ''dev'' = Ok (''/base.img'', p) \<and>
      cp_name p = ''dev'' \<and> cp_network p = NetPrivate None"
    by (simp add: create_plan_def sample_runtime_def sample_world_def sample_request_def Let_def bind_result_def or_else_def
        canonicalize_existing_path_def canonicalize_optional_existing_path_def starts_with_def)
  have alloc: "allocate LockFs_empty = Ok (0, LockFs_empty\<lparr>lf_files := [0 \<mapsto> 0], lf_next := 1\<rparr>)"
    using allocate_loop_spec [of 0 0 LockFs_empty] by (simp add: allocate_def LockFs_empty_def)
  from plan obtain p where p: "create_plan (rt_launch sample_runtime) (w_disks sample_world) sample_request ''dev'' = Ok (''/base.img'', p)"
    "cp_name p = ''dev''" "cp_network p = NetPrivate None" by blast
  have fresh: "MachineId_to_string (e_random (rt_env sample_runtime) 0) \<noteq> MachineId_to_string 7"
    by (simp add: inj_eq [OF id_inj] sample_runtime_def)
  have store: "machine_config_by_name (e_uuid (rt_env sample_runtime)) ''dev'' s = Ok None"
    "\<exists>s'. add_machine (created_config (e_random (rt_env sample_runtime) 0) lid dir p n) (stopped_machine_state (e_random (rt_env sample_runtime) 0) None n) s = Ok s'"
    for lid dir n
    using assms p(2) fresh
    by (auto simp: machine_config_by_name_def fetch_optional_def Store_empty_def sample_store_def add_machine_def created_config_def
        stopped_machine_state_def Let_def)
  show ?thesis
    using p name alloc store(1) store(2) [THEN exE]
    by (simp add: create_machine_config_with_name_def create_from_plan_def allocate_machine_lock_def with_create_guard_def create_machine_dir_def
        write_machine_config_def clone_or_copy_root_disk_def resize_raw_disk_def commit_machine_def validate_machine_network_config_def
        act_wp_simps act_wp_catch act_wp_let quiet_wp sample_facts draw_random_def Let_def machine_dir_proper
        sample_world_def sample_request_def split: sum.split) (metis Inl_Inr_False store(2))
qed

theorem create_all_or_nothing_witness:
  "\<exists>c w'. create_machine_config_with_name sample_runtime sample_request ''dev'' sample_world = Some (Ok c, w') \<and>
     mc_name c = ''dev'' \<and> configs (w_store w') 1 = Some c \<and> lf_files (w_locks w') (mc_lock_id c) \<noteq> None"
proof -
  have wf: "vm_wf Map.empty sample_world" by (rule fresh_wf) (rule sample_facts)+
  have "act_wp (create_machine_config_with_name sample_runtime sample_request ''dev'') (\<lambda>_ _. True) (\<lambda>_ _. False) sample_world"
    using sample_creation [of Store_empty] by (simp add: sample_world_def)
  from act_wp_conj [OF create_all_or_nothing [OF wf refl refl] this]
  obtain c w' where "create_machine_config_with_name sample_runtime sample_request ''dev'' sample_world = Some (Ok c, w')"
    "configs (w_store w') (e_random (rt_env sample_runtime) (w_drawn sample_world)) = Some c" "mc_name c = ''dev''"
    "lf_files (w_locks w') (mc_lock_id c) \<noteq> None"
    by (auto dest!: act_wp_OkD)
  then show ?thesis by (simp add: sample_runtime_def sample_world_def)
qed

theorem cleared_locks_shared_witness:
  "\<exists>c w'. create_machine_config_with_name sample_runtime sample_request ''dev'' (sample_world\<lparr>w_store := sample_store\<rparr>) = Some (Ok c, w') \<and>
     mc_id c \<noteq> 7 \<and> configs (w_store w') 7 = Some (sample_config 7 ''old'' 0) \<and> mc_lock_id c = 0"
proof -
  let ?w = "sample_world\<lparr>w_store := sample_store\<rparr>"
  have w: "store_wf (w_store ?w)" "configs (w_store ?w) 7 = Some (sample_config 7 ''old'' 0)" "mc_lock_id (sample_config 7 ''old'' 0) = 0"
    "w_locks ?w = LockFs_empty"
    by (simp_all add: sample_store_facts sample_facts sample_config_def)
  have "act_wp (create_machine_config_with_name sample_runtime sample_request ''dev'') (\<lambda>_ _. True) (\<lambda>_ _. False) ?w"
    by (rule sample_creation) simp
  from act_wp_conj [OF cleared_locks_shared [OF w, of sample_runtime sample_request "''dev''"] this]
  show ?thesis using w(3) by (auto dest!: act_wp_OkD)
qed

end
