(* ===== verification/Vm_Start.thy ===== *)
theory Vm_Start
  imports Vm_Creation
begin

text \<open>
  What starting a machine leads to.  \<open>in_state\<close> is the invariant of \<open>Vm_Invariants\<close> together with what is
  recorded of one machine; \<open>quiet\<close> says that no call is going to fail.
\<close>

definition in_state ::
  "(MachineId \<rightharpoonup> MachineConfig) \<Rightarrow> (nat \<rightharpoonup> nat) \<Rightarrow> bool \<Rightarrow> MachineId \<Rightarrow> (MachineState \<Rightarrow> bool) \<Rightarrow> World \<Rightarrow> bool" where
  "in_state C held quiet mid P w \<longleftrightarrow>
     vm_inv C held w \<and> (quiet \<longrightarrow> w_faults w = []) \<and> (\<exists>st. states (w_store w) mid = Some st \<and> P st)"

abbreviation inactive :: "MachineState \<Rightarrow> bool" where
  "inactive st \<equiv> \<not> is_active (ms_status st)"

abbreviation starting :: "string \<Rightarrow> MachineState \<Rightarrow> bool" where
  "starting run_id st \<equiv> ms_status st = Starting \<and> ms_run_id st = Some run_id"

text \<open>The error of a database call that fails.\<close>

abbreviation database_down :: LibVmError where
  "database_down \<equiv> Database (msg ''database unavailable'')"

lemma in_state_fault_free [simp, intro]: "fault_free (in_state C held q mid P)"
  by (simp add: fault_free_def in_state_def)

lemma in_state_world [simp]:
  "in_state C held q mid P (w\<lparr>w_drawn := d\<rparr>) = in_state C held q mid P w"
  "in_state C held q mid P (w\<lparr>w_exit_files := ef\<rparr>) = in_state C held q mid P w"
  "in_state C held q mid P (w\<lparr>w_disks := k\<rparr>) = in_state C held q mid P w"
  "in_state C held q mid P (w\<lparr>w_specs := sp\<rparr>) = in_state C held q mid P w"
  "in_state C held q mid P (w\<lparr>w_agent_configs := ac\<rparr>) = in_state C held q mid P w"
  "in_state C held q mid P (apply_change m ch w) = in_state C held q mid P w"
  by (simp_all add: in_state_def) (simp add: apply_change_def)

lemma keeps_net_state:
  assumes m: "\<And>w0. keeps (net_frame w0) m"
  shows "keeps (in_state C held q mid P) m"
proof (rule keepsI)
  fix w assume I: "in_state C held q mid P w"
  have "in_state C held q mid P w'" if "net_frame w w'" for w'
    using that I configs_states_cong [of "w_store w'" "w_store w"]
    by (auto simp: in_state_def vm_inv_def net_frame_def)
  moreover have "net_frame w w" using I by (simp add: in_state_def vm_inv_def net_frame_refl)
  ultimately show "act_wp m (\<lambda>_. in_state C held q mid P) (\<lambda>_. in_state C held q mid P) w" using m by (blast intro: keeps_wp)
qed

lemma keeps_state_parts:
  "keeps (in_state C held q mid P) (reconcile_network_runtime env c b)"
  "keeps (in_state C held q mid P) (prepare_network_runtime env ne roots c cfg)"
  "keeps (in_state C held q mid P) (reconcile_root_disk_size c)"
  "keeps (in_state C held q mid P) (remove_vmmon_exit_status c)"
  "keeps (in_state C held q mid P) (prepare_vmmon_launch_inputs rt c net)"
  "keeps (in_state C held q mid P) (Vmmon_spawn rt c net run_id ec)"
proof -
  show "keeps (in_state C held q mid P) (reconcile_network_runtime env c b)"
    "keeps (in_state C held q mid P) (prepare_network_runtime env ne roots c cfg)"
    by (rule keeps_net_state, rule keep)+
  show "keeps (in_state C held q mid P) (reconcile_root_disk_size c)"
    "keeps (in_state C held q mid P) (remove_vmmon_exit_status c)"
    "keeps (in_state C held q mid P) (prepare_vmmon_launch_inputs rt c net)"
    unfolding reconcile_root_disk_size_def resize_raw_disk_def remove_vmmon_exit_status_def prepare_vmmon_launch_inputs_def Let_def
    by (intro keep in_state_fault_free; simp)+
  show "keeps (in_state C held q mid P) (Vmmon_spawn rt c net run_id ec)"
    unfolding Vmmon_spawn_def
    by (intro keep in_state_fault_free; auto simp: keep split: prod.split SpawnOutcome.split sum.split StartupResult.split)
qed

section \<open>Recording a transition\<close>

lemma saved_state:
  assumes I: "vm_inv C held w" and c: "C (ms_machine_id st) = Some c" and wf: "state_wf st"
  shows "\<exists>s'. save_machine_state st (w_store w) = Ok s' \<and>
    (\<forall>bs. vm_inv C held (w\<lparr>w_faults := bs, w_store := s'\<rparr>)) \<and> states s' (ms_machine_id st) = Some st"
proof (cases "save_machine_state st (w_store w)")
  case (Inl e)
  then show ?thesis using save_machine_state_ok [of "w_store w" st] I c by (simp add: vm_inv_def)
next
  case (Inr s')
  then show ?thesis using save_machine_state_ok [of "w_store w" st] I wf by (auto simp: vm_inv_def)
qed

text \<open>A transition of the recorded state of a stored machine: recorded, or refused and nothing changed.\<close>

lemma transition_wp:
  assumes uuid: "uuid_spec (e_uuid (rt_env rt))" and I: "in_state C held q mid P w" and c: "C mid = Some c"
    and red: "\<And>st now. P st \<Longrightarrow> ms_machine_id st = mid \<Longrightarrow> \<exists>st'. reduce st event now = Ok st' \<and> P' st'"
  shows "act_wp (transition_current_machine_state rt mid event)
    (\<lambda>_ w'. in_state C held q mid P' w' \<and> w_drawn w' = w_drawn w \<and> w_procs w' = w_procs w \<and> w_pid_files w' = w_pid_files w)
    (\<lambda>e w'. in_state C held q mid P w' \<and> \<not> q \<and> e = database_down) w"
proof -
  obtain st where st: "states (w_store w) mid = Some st" "P st" and V: "vm_inv C held w" "q \<Longrightarrow> w_faults w = []"
    using I by (auto simp: in_state_def)
  then have id: "ms_machine_id st = mid" using states_iff [of "w_store w" mid st] by (simp add: vm_inv_def)
  obtain st' where st': "reduce st event (w_now w) = Ok st'" "P' st'" using red [OF st(2) id] by blast
  have st'_wf: "state_wf st'" "ms_machine_id st' = mid" using reduce_wf [OF st'(1)] reduce_frame [OF st'(1)] id by simp_all
  obtain s' where s': "save_machine_state st' (w_store w) = Ok s'" "\<And>bs. vm_inv C held (w\<lparr>w_faults := bs, w_store := s'\<rparr>)"
    "states s' mid = Some st'"
    using saved_state [OF V(1) _ st'_wf(1)] c st'_wf(2) by auto
  have save: "act_wp (db_write (save_machine_state st'))
      (\<lambda>_ w'. in_state C held q mid P' w' \<and> w_drawn w' = w_drawn w \<and> w_procs w' = w_procs w \<and> w_pid_files w' = w_pid_files w)
      (\<lambda>e w'. in_state C held q mid P w' \<and> \<not> q \<and> e = database_down) (w\<lparr>w_faults := bs\<rparr>)" if "q \<Longrightarrow> bs = []" for bs
    by (rule db_write_wp) (use s' st' st V that in \<open>auto simp: in_state_def\<close>)
  have read: "machine_state_row (e_uuid (rt_env rt)) mid (w_store w) = Ok (Some st)"
    using machine_state_ok [of "w_store w" _ mid] uuid V(1) st(1) by (simp add: vm_inv_def)
  show ?thesis
    unfolding transition_current_machine_state_def machine_state_def stored_machine_state_def act_wp_simps(4)
    by (rule db_read_wp) (use read V st st' save in \<open>auto simp: act_wp_simps transition_machine_state_def reduced_def in_state_def intro!: act_wp_mono [OF save]\<close>)
qed


section \<open>The stages of a start\<close>

abbreviation run_by :: "string \<Rightarrow> int \<Rightarrow> MachineState \<Rightarrow> bool" where
  "run_by run_id pid st \<equiv> ms_status st = Running \<and> ms_run_id st = Some run_id \<and> ms_vmmon_pid st = Some pid"

lemma request_start_wp:
  assumes "uuid_spec (e_uuid (rt_env rt))" "in_state C held q mid inactive w" "C mid = Some c"
  shows "act_wp (request_machine_start rt mid run_id) (\<lambda>_. in_state C held q mid (starting run_id)) (\<lambda>_. in_state C held q mid inactive) w"
  unfolding request_machine_start_def
  by (rule act_wp_mono [OF transition_wp [OF assms, where P' = "starting run_id"]]) (auto simp: reducer_defs)

lemma start_failed_wp:
  assumes "uuid_spec (e_uuid (rt_env rt))" "in_state C held q mid (starting run_id) w" "C mid = Some c"
  shows "act_wp (mark_machine_start_failed rt mid run_id failure err) (\<lambda>_. in_state C held q mid inactive)
    (\<lambda>e w'. e = database_down \<and> \<not> q \<and> in_state C held q mid (starting run_id) w') w"
  unfolding mark_machine_start_failed_def
  by (rule act_wp_mono [OF transition_wp [OF assms, where P' = inactive]])
    (auto simp: reducer_defs bind_result_def split: StartFailure.split)

lemma for_pid_world [simp]:
  "for_pid env pid (w\<lparr>w_faults := bs\<rparr>) = for_pid env pid w" "for_pid env pid (w\<lparr>w_locks := fs\<rparr>) = for_pid env pid w"
  "pid_file_mtime mid (w\<lparr>w_faults := bs\<rparr>) = pid_file_mtime mid w" "pid_file_mtime mid (w\<lparr>w_locks := fs\<rparr>) = pid_file_mtime mid w"
  "read_monitor_pid mid (w\<lparr>w_faults := bs\<rparr>) = read_monitor_pid mid w" "read_monitor_pid mid (w\<lparr>w_locks := fs\<rparr>) = read_monitor_pid mid w"
  "exit_status_read mid (w\<lparr>w_faults := bs\<rparr>) = exit_status_read mid w" "exit_status_read mid (w\<lparr>w_locks := fs\<rparr>) = exit_status_read mid w"
  by (simp_all add: for_pid_def pid_file_mtime_def read_monitor_pid_def exit_status_read_def)

lemma in_state_faults: "in_state C held q mid P w \<Longrightarrow> (w_faults w = [] \<Longrightarrow> bs = []) \<Longrightarrow> in_state C held q mid P (w\<lparr>w_faults := bs\<rparr>)"
  by (auto simp: in_state_def)

text \<open>A start that fails after it was requested is recorded as failed, unless the database fails.\<close>

abbreviation failed_start ::
  "(MachineId \<rightharpoonup> MachineConfig) \<Rightarrow> (nat \<rightharpoonup> nat) \<Rightarrow> bool \<Rightarrow> MachineId \<Rightarrow> string \<Rightarrow> LibVmError \<Rightarrow> World \<Rightarrow> bool" where
  "failed_start C held q mid run_id e w \<equiv>
     in_state C held q mid inactive w \<or> e = database_down \<and> \<not> q \<and> in_state C held q mid (starting run_id) w"

lemma failed_wp:
  assumes "uuid_spec (e_uuid (rt_env rt))" "in_state C held q mid (starting run_id) w" "C mid = Some c"
  shows "act_wp (act_seq (mark_machine_start_failed rt mid run_id failure err) (act_throw e)) Q (failed_start C held q mid run_id) w"
  unfolding act_wp_simps(2,5) by (rule act_wp_mono [OF start_failed_wp [OF assms]]) auto

lemma finish_start_wp:
  assumes uuid: "uuid_spec (e_uuid (rt_env rt))" and I: "in_state C held q mid (starting run_id) w" and c: "C mid = Some c" "mc_id c = mid"
  shows "act_wp (finish_start rt c run_id)
    (\<lambda>_ w'. \<exists>pid. in_state C held q mid (run_by run_id pid) w' \<and> read_monitor_pid mid w' = Ok pid \<and> w_procs w' pid \<noteq> None)
    (failed_start C held q mid run_id) w" (is "act_wp _ ?Q ?E w")
proof -
  let ?S = "in_state C held q mid (starting run_id)"
  have marked: "act_wp (marking_error rt c run_id m) Q ?E w'" if "act_wp m Q (\<lambda>_. ?S) w'" for m :: "'a vm" and Q w'
    unfolding marking_error_def act_wp_catch c(2) by (rule act_wp_mono [OF that], assumption, rule failed_wp [OF uuid], assumption, rule c(1))
  have read: "act_wp (act_bind (io_get (read_monitor_pid mid)) (\<lambda>read. case read of
      Inl _ \<Rightarrow> act_throw (Io (msg ''read monitor pid'')) | Inr pid \<Rightarrow> act_return pid))
      (\<lambda>pid w'. ?S w' \<and> read_monitor_pid mid w' = Ok pid) (\<lambda>_. ?S) w"
    unfolding act_wp_simps(4) by (rule io_get_wp) (use I in \<open>auto simp: act_wp_simps(1,2) in_state_faults in_state_def split: sum.split\<close>)
  have started: "act_wp (act_bind (io_get (monitor_started_at (rt_env rt) pid c)) act_result)
      (\<lambda>_ w'. ?S w' \<and> read_monitor_pid mid w' = Ok pid \<and> w_procs w' pid \<noteq> None) (\<lambda>_. ?S) w'"
    if "?S w' \<and> read_monitor_pid mid w' = Ok pid" for pid w'
    unfolding act_wp_simps(4)
    by (rule io_get_wp) (use that in \<open>auto simp: act_wp_simps(9) monitor_started_at_def for_pid_def in_state_def split: sum.split option.splits if_splits\<close>)
  have ready: "act_wp (mark_machine_monitor_ready rt mid run_id pid t) ?Q ?E w'"
    if "?S w' \<and> read_monitor_pid mid w' = Ok pid \<and> w_procs w' pid \<noteq> None" for pid t w'
    unfolding mark_machine_monitor_ready_def
    by (rule act_wp_mono [OF transition_wp [OF uuid conjunct1 [OF that] c(1), where P' = "run_by run_id pid"]])
      (use that in \<open>auto simp: reducer_defs bind_result_def read_monitor_pid_def\<close>)
  show ?thesis
    unfolding finish_start_def act_wp_simps(4) [of "marking_error _ _ _ _"] c(2)
    by (rule marked, rule act_wp_mono [OF read], rule marked, rule act_wp_mono [OF started], assumption, erule ready) assumption+
qed

lemma launch_wp:
  assumes uuid: "uuid_spec (e_uuid (rt_env rt))" and I: "in_state C held q mid inactive w" and c: "C mid = Some c" "mc_id c = mid"
    and run_id: "run_id = uuid_hyphenated (e_random (rt_env rt) (w_drawn w))"
  shows "act_wp (launch_machine rt c ec)
    (\<lambda>_ w'. \<exists>pid. in_state C held q mid (run_by run_id pid) w' \<and> read_monitor_pid mid w' = Ok pid \<and> w_procs w' pid \<noteq> None)
    (failed_start C held q mid run_id) w" (is "act_wp _ ?Q ?E w")
proof -
  have spawn: "act_wp (act_seq (act_catch (Vmmon_spawn rt c net run_id ec)
      (\<lambda>err. act_seq (mark_machine_start_failed rt mid run_id FailStopped (Some (error_text err))) (act_throw err)))
      (finish_start rt c run_id)) ?Q ?E w'" if "in_state C held q mid (starting run_id) w'" for net w'
    unfolding act_wp_simps(5) [of "act_catch _ _"] act_wp_catch
  proof (rule keeps_wp [OF keeps_state_parts(6) that])
    fix s' assume s': "in_state C held q mid (starting run_id) s'"
    show "act_wp (finish_start rt c run_id) ?Q ?E s'" by (rule finish_start_wp [OF uuid s' c])
    fix e
    show "act_wp (act_seq (mark_machine_start_failed rt mid run_id FailStopped (Some (error_text e))) (act_throw e))
        (\<lambda>_. act_wp (finish_start rt c run_id) ?Q ?E) ?E s'"
      by (rule failed_wp [OF uuid s' c(1)])
  qed
  have start: "act_wp (act_seq (request_machine_start rt mid run_id) (act_seq (act_catch (Vmmon_spawn rt c net run_id ec)
      (\<lambda>err. act_seq (mark_machine_start_failed rt mid run_id FailStopped (Some (error_text err))) (act_throw err)))
      (finish_start rt c run_id))) ?Q ?E w'" if "in_state C held q mid inactive w'" for net w'
    unfolding act_wp_simps(5) [of "request_machine_start rt mid run_id"]
    by (rule act_wp_mono [OF request_start_wp [OF uuid that c(1)]], erule spawn, rule disjI1)
  have "act_wp (act_bind (prepare_network_runtime (rt_env rt) (rt_net rt) (rt_roots rt) c (rt_networking rt)) (\<lambda>net.
      act_seq (prepare_vmmon_launch_inputs rt c net) (act_seq (request_machine_start rt mid run_id) (act_seq (act_catch (Vmmon_spawn rt c net run_id ec)
      (\<lambda>err. act_seq (mark_machine_start_failed rt mid run_id FailStopped (Some (error_text err))) (act_throw err)))
      (finish_start rt c run_id))))) ?Q ?E w'" if "in_state C held q mid inactive w'" for w'
    unfolding act_wp_simps(4) [of "prepare_network_runtime _ _ _ _ _"] act_wp_simps(5) [of "prepare_vmmon_launch_inputs _ _ _"]
    by (rule keeps_wp [OF keeps_state_parts(2) that], rule keeps_wp [OF keeps_state_parts(5)], assumption, erule start) (rule disjI1, assumption)+
  from this [of "w\<lparr>w_drawn := Suc (w_drawn w)\<rparr>"] show ?thesis
    unfolding launch_machine_def act_wp_simps(4) [of "act_state _"] act_wp_simps(10) Let_def
    using I by (simp add: draw_random_def run_id c(2))
qed

lemma now_world: "w_now (w\<lparr>w_faults := bs\<rparr>) = w_now w" "w_now (w\<lparr>w_locks := fs\<rparr>) = w_now w"
  by simp_all

lemma probe_world [simp]:
  "probe env e pid (w\<lparr>w_faults := bs\<rparr>) = probe env e pid w" "probe env e pid (w\<lparr>w_locks := fs\<rparr>) = probe env e pid w"
  unfolding probe_def for_pid_world by (rule refl)+

lemma live_world [simp]:
  "live_monitor_identity env f s e (w\<lparr>w_faults := bs\<rparr>) = live_monitor_identity env f s e w"
  "live_monitor_identity env f s e (w\<lparr>w_locks := fs\<rparr>) = live_monitor_identity env f s e w"
  unfolding live_monitor_identity_def probe_world by (rule refl)+

lemma observed_world [simp]:
  "observed_event env mid st p e (w\<lparr>w_faults := bs\<rparr>) = observed_event env mid st p e w"
  "observed_event env mid st p e (w\<lparr>w_locks := fs\<rparr>) = observed_event env mid st p e w"
  unfolding observed_event_def live_world for_pid_world now_world by (rule refl)+

lemma observe_world [simp]:
  "observe env mid st (w\<lparr>w_faults := bs\<rparr>) = observe env mid st w" "observe env mid st (w\<lparr>w_locks := fs\<rparr>) = observe env mid st w"
  unfolding observe_def observed_world for_pid_world now_world by (rule refl)+

lemma observe_id:
  assumes "observe env mid runtime w = Ok st" "\<And>r. runtime = Some r \<Longrightarrow> ms_machine_id r = mid"
  shows "ms_machine_id st = mid"
  using assms(1)
proof (rule observe_OkE)
  fix pid e
  assume "(case observed_event env mid runtime pid e w of
      Some event \<Rightarrow> reduced (case runtime of Some st \<Rightarrow> st | None \<Rightarrow> stopped_machine_state mid None (w_now w)) event (w_now w)
    | None \<Rightarrow> Ok ((case runtime of Some st \<Rightarrow> st | None \<Rightarrow> stopped_machine_state mid None (w_now w))
        \<lparr>ms_vmmon_pid := None, ms_started_at := None, ms_last_error := None, ms_updated_at := w_now w\<rparr>)) = Ok st"
  then show ?thesis
    using assms(2) by (cases runtime) (auto dest!: reduced_id simp: stopped_machine_state_def split: option.splits)
qed

text \<open>Reconciling records what is observed.\<close>

lemma reconcile_wp:
  assumes uuid: "uuid_spec (e_uuid (rt_env rt))" and I: "vm_inv C held w" "q \<longrightarrow> w_faults w = []" and c: "C mid = Some c" "mc_id c = mid"
    and obs: "observe (rt_env rt) mid (states (w_store w) mid) w = Ok obs"
  shows "act_wp (reconcile_machine_runtime_locked rt c)
    (\<lambda>status w'. status = from_machine_state obs \<and> in_state C held q mid (\<lambda>st. ms_status st = ms_status obs) w' \<and> w_drawn w' = w_drawn w)
    (\<lambda>_ w'. \<not> q \<and> states (w_store w') mid = states (w_store w) mid) w" (is "act_wp _ ?Q ?E w")
proof -
  have st: "state_wf obs" "ms_machine_id obs = mid"
    using observe_wf [OF obs] observe_id [OF obs] states_iff [of "w_store w" mid] I(1) by (auto simp: vm_inv_def)
  obtain s' where s': "save_machine_state obs (w_store w) = Ok s'" "\<And>bs. vm_inv C held (w\<lparr>w_faults := bs, w_store := s'\<rparr>)"
    "states s' mid = Some obs"
    using saved_state [OF I(1) _ st(1)] c st(2) by auto
  have save: "act_wp (act_seq (act_when (machine_state_needs_writeback (states (w_store w) mid) obs) (db_write (save_machine_state obs)))
      (act_return (from_machine_state obs))) ?Q ?E (w\<lparr>w_faults := bs\<rparr>)" if "q \<longrightarrow> bs = []" for bs
  proof (cases "machine_state_needs_writeback (states (w_store w) mid) obs")
    case True
    then show ?thesis unfolding act_wp_simps(5) act_wp_simps(11)
      by simp (rule db_write_wp, use s' that in \<open>auto simp: act_wp_simps in_state_def\<close>)
  next
    case False
    then show ?thesis
      using that I by (auto simp: act_wp_simps machine_state_needs_writeback_def in_state_def split: option.splits)
  qed
  have read: "machine_state_row (e_uuid (rt_env rt)) mid (w_store w) = Ok (states (w_store w) mid)"
    using machine_state_ok [of "w_store w" _ mid] uuid I(1) by (simp add: vm_inv_def)
  have observed: "act_wp (act_bind (io_get (observe (rt_env rt) mid (states (w_store w) mid))) act_result)
      (\<lambda>x. act_wp (act_seq (act_when (machine_state_needs_writeback (states (w_store w) mid) x) (db_write (save_machine_state x)))
        (act_return (from_machine_state x))) ?Q ?E) ?E (w\<lparr>w_faults := bs\<rparr>)" if "q \<longrightarrow> bs = []" for bs
    unfolding act_wp_simps(4)
    by (rule io_get_wp) (use that save obs in \<open>simp_all add: act_wp_simps(9)\<close>)
  show ?thesis
    unfolding reconcile_machine_runtime_locked_def stored_machine_state_def observe_machine_state_def c(2)
      act_wp_simps(4) [of "db_read _"] act_wp_simps(4) [of "act_bind _ _"]
  proof (rule db_read_wp)
    fix bs :: "bool list" and x assume bs: "w_faults w = [] \<Longrightarrow> bs = []" and "machine_state_row (e_uuid (rt_env rt)) mid (w_store w) = Ok x"
    then have x: "x = states (w_store w) mid" using read by simp
    show "act_wp (act_bind (io_get (observe (rt_env rt) mid x)) act_result)
      (\<lambda>y. act_wp (act_seq (act_when (machine_state_needs_writeback x y) (db_write (save_machine_state y)))
        (act_return (from_machine_state y))) ?Q ?E) ?E (w\<lparr>w_faults := bs\<rparr>)"
      unfolding x by (rule observed) (use bs I(2) in simp)
  qed (use read I(2) in auto)
qed

section \<open>A whole start\<close>

lemma active_status: "RuntimeStatus_is_active (from_machine_state st) = is_active (ms_status st)"
  by (simp add: RuntimeStatus_is_active_def from_machine_state_def is_active_def)

lemma start_locked_wp:
  assumes uuid: "uuid_spec (e_uuid (rt_env rt))" and I: "vm_inv C held w" "q \<longrightarrow> w_faults w = []" and c: "C mid = Some c" "mc_id c = mid"
    and obs: "observe (rt_env rt) mid (states (w_store w) mid) w = Ok obs"
  shows "act_wp (start_locked rt ec c)
    (\<lambda>_ w'. \<not> is_active (ms_status obs) \<and> (\<exists>d pid. in_state C held q mid (run_by (uuid_hyphenated (e_random (rt_env rt) d)) pid) w' \<and>
      read_monitor_pid mid w' = Ok pid \<and> w_procs w' pid \<noteq> None))
    (\<lambda>e w'. in_state C held q mid (\<lambda>st. is_active (ms_status st) = is_active (ms_status obs)) w' \<or>
      \<not> q \<and> (states (w_store w') mid = states (w_store w) mid \<or> e = database_down \<and> \<not> is_active (ms_status obs) \<and>
        (\<exists>d. in_state C held q mid (starting (uuid_hyphenated (e_random (rt_env rt) d))) w'))) w" (is "act_wp _ ?Q ?E w")
  unfolding start_locked_def act_wp_simps(4) act_wp_simps(5) [of "reconcile_network_runtime _ _ _"]
proof (rule act_wp_mono [OF reconcile_wp [OF uuid I c obs]])
  fix status w' assume s: "status = from_machine_state obs \<and> in_state C held q mid (\<lambda>st. ms_status st = ms_status obs) w' \<and> w_drawn w' = w_drawn w"
  let ?S = "in_state C held q mid (\<lambda>st. is_active (ms_status st) = is_active (ms_status obs))"
  have S: "?S w'" using s by (auto simp: in_state_def)
  have launch: "act_wp (act_seq (launch_machine rt c ec) (act_return c)) ?Q ?E w1" if "?S w1" "\<not> is_active (ms_status obs)" for w1
  proof -
    have "in_state C held q mid inactive w1" using that by (simp add: in_state_def)
    from launch_wp [OF uuid this c refl, of ec] show ?thesis
      unfolding act_wp_simps(1,5) by (rule act_wp_mono) (use that(2) in \<open>auto simp: in_state_def\<close>)
  qed
  have "act_wp (act_seq (reconcile_root_disk_size c) (act_seq (remove_vmmon_exit_status c) (act_seq (launch_machine rt c ec) (act_return c)))) ?Q ?E w1"
    if "?S w1" "\<not> is_active (ms_status obs)" for w1
    unfolding act_wp_simps(5) [of "reconcile_root_disk_size c"] act_wp_simps(5) [of "remove_vmmon_exit_status c"]
    by (rule keeps_wp [OF keeps_state_parts(3) that(1)], rule keeps_wp [OF keeps_state_parts(4)], assumption,
        erule launch [OF _ that(2)]) (rule disjI1, assumption)+
  then show "act_wp (reconcile_network_runtime (rt_env rt) c (RuntimeStatus_is_active status)) (\<lambda>_. act_wp
      (if RuntimeStatus_is_active status then act_throw (MachineAlreadyRunning (mc_name c))
       else act_seq (reconcile_root_disk_size c) (act_seq (remove_vmmon_exit_status c) (act_seq (launch_machine rt c ec) (act_return c)))) ?Q ?E) ?E w'"
    by (intro keeps_wp [OF keeps_state_parts(1) S]) (use s in \<open>auto simp: active_status act_wp_simps(2)\<close>)
qed simp

lemma release_fields [simp]:
  "w_store (release_machine_lock i w) = w_store w" "w_procs (release_machine_lock i w) = w_procs w"
  "read_monitor_pid mid (release_machine_lock i w) = read_monitor_pid mid w"
  by (simp_all add: release_machine_lock_def)

text \<open>
  C7: Starting a machine from a well-formed state of the host ends in one of two ways, whatever calls fail.  It
  succeeds only when the monitor was observed not to run; then the machine is recorded as running under a
  freshly drawn run id, by the process that the pid file names, and that process is there.  When it fails, the
  machine is recorded as active exactly when it was observed to be: a start that fails on the way, at any
  stage, ends recorded as not active, and a start that is refused leaves the running machine recorded as active.
  Only when calls of the host may fail there are two exceptions.  The record is untouched, because the failure came
  before the record was brought up to date; or the failing call is one of the database, which then
  may keep the record of the start request.
\<close>

theorem start_outcome:
  assumes "uuid_spec (e_uuid (rt_env rt))" "vm_wf Map.empty w" "configs (w_store w) mid = Some c"
    "observe (rt_env rt) mid (states (w_store w) mid) w = Ok obs"
  shows "act_wp (with_locked_machine rt mid (start_locked rt ec))
    (\<lambda>_ w'. \<not> is_active (ms_status obs) \<and> (\<exists>st d pid. states (w_store w') mid = Some st \<and> ms_status st = Running \<and>
      ms_run_id st = Some (uuid_hyphenated (e_random (rt_env rt) d)) \<and> ms_vmmon_pid st = Some pid \<and>
      read_monitor_pid mid w' = Ok pid \<and> w_procs w' pid \<noteq> None))
    (\<lambda>e w'. (\<exists>st. states (w_store w') mid = Some st \<and> is_active (ms_status st) = is_active (ms_status obs)) \<or>
      w_faults w \<noteq> [] \<and> (states (w_store w') mid = states (w_store w) mid \<or>
        e = Database (msg ''database unavailable'') \<and> \<not> is_active (ms_status obs) \<and>
        (\<exists>st d. states (w_store w') mid = Some st \<and> ms_status st = Starting \<and>
          ms_run_id st = Some (uuid_hyphenated (e_random (rt_env rt) d))))) w" (is "act_wp _ ?Q ?E w")
proof (rule with_locked_wp [OF _ assms(1), where C = "configs (w_store w)"])
  show "vm_inv (configs (w_store w)) Map.empty w" using assms(2) by (simp add: vm_wf_def)
next
  fix i c' w' assume c: "configs (w_store w) mid = Some c'" and I: "vm_inv (configs (w_store w)) [i \<mapsto> 0] w'" and r: "relocked w w'"
  have id: "mc_id c' = mid" using c assms(2) configs_iff [of "w_store w" mid c'] by (auto simp: vm_wf_def vm_inv_def)
  have q: "w_faults w = [] \<longrightarrow> w_faults w' = []" and st: "observe (rt_env rt) mid (states (w_store w') mid) w' = Ok obs"
    and store: "w_store w' = w_store w"
    using r assms(4) by (auto simp: relocked_def)
  show "act_wp (start_locked rt ec c') (\<lambda>x w'. ?Q x (release_machine_lock i w')) (\<lambda>e w'. ?E e (release_machine_lock i w')) w'"
    by (rule act_wp_mono [OF start_locked_wp [OF assms(1) I q c id st]]) (auto simp: in_state_def store)
qed (use assms(3) in \<open>auto simp: relocked_def\<close>)

definition sample_host :: World where
  "sample_host = sample_world\<lparr>w_store := sample_store, w_locks := LockFs_empty\<lparr>lf_files := [0 \<mapsto> 0], lf_next := 1\<rparr>\<rparr>"

lemma sample_host_facts:
  "vm_wf Map.empty sample_host" "configs (w_store sample_host) 7 = Some (sample_config 7 ''old'' 0)" "w_faults sample_host = []"
  "\<exists>obs. observe (rt_env sample_runtime) 7 (states (w_store sample_host) 7) sample_host = Ok obs \<and> \<not> is_active (ms_status obs)"
proof -
  have st: "states sample_store = [7 \<mapsto> sample_stopped 7]"
    by (simp add: sample_store_def Store_empty_def states_def sample_stopped_def)
  show "vm_wf Map.empty sample_host" "configs (w_store sample_host) 7 = Some (sample_config 7 ''old'' 0)" "w_faults sample_host = []"
    by (auto simp: sample_host_def sample_world_def LockFs_empty_def vm_wf_def vm_inv_def locks_wf_def sample_store_facts st state_wf_def
        sample_stopped_def sample_config_def split: if_splits)
  show "\<exists>obs. observe (rt_env sample_runtime) 7 (states (w_store sample_host) 7) sample_host = Ok obs \<and> \<not> is_active (ms_status obs)"
    by (simp add: sample_host_def sample_world_def sample_runtime_def st observe_def read_monitor_pid_def exit_status_read_def
        observed_event_def live_monitor_identity_def sample_stopped_def bind_result_def is_active_def reduced_def reducer_defs)
qed

theorem start_outcome_witness:
  "\<exists>r w'. with_locked_machine sample_runtime 7 (start_locked sample_runtime None) sample_host = Some (r, w') \<and>
     (\<exists>st. states (w_store w') 7 = Some st \<and> (case r of Inr _ \<Rightarrow> ms_status st = Running | Inl _ \<Rightarrow> \<not> is_active (ms_status st)))"
proof -
  obtain obs where "observe (rt_env sample_runtime) 7 (states (w_store sample_host) 7) sample_host = Ok obs" "\<not> is_active (ms_status obs)"
    using sample_host_facts(4) by blast
  note outcome = start_outcome [OF sample_facts(1) sample_host_facts(1,2) this(1), of None] this(2)
  from outcome(1) obtain r w' where "with_locked_machine sample_runtime 7 (start_locked sample_runtime None) sample_host = Some (r, w')"
    by (auto simp: act_wp_def split: option.splits)
  with outcome show ?thesis
    by (cases r) (auto simp: act_wp_def sample_host_facts(3))
qed

end
