(* ===== verification/Netd_Hosts.thy ===== *)
theory Netd_Hosts
  imports Rust_Text
begin

text \<open>
  Host bindings of the network policy (\<open>net/netd/internal/policy/hostmatch/hostmatch.go\<close>): authorities,
  exact and wildcard bindings, and how they match.  Strings are the bytes of Go strings;
  \<open>strings.TrimSpace\<close> removes the same white space as \<open>trim\<close>.

  \<open>GoNet\<close> are the parsers that the source calls and that this library does not define: \<open>url.Parse\<close>, the
  address, prefix and query parsers of the Go library, and \<open>httpguts.ValidHostHeader\<close>.  Nothing is assumed of
  them.  Lowering the case is that of ASCII text, on which the Go function does the same.
\<close>

section \<open>Text\<close>

definition to_lower :: "string \<Rightarrow> string" where
  "to_lower s = map to_ascii_lower s"

definition contains_str :: "string \<Rightarrow> string \<Rightarrow> bool" where
  "contains_str s sub \<longleftrightarrow> (\<exists>i \<in> set [0..<Suc (length s)]. starts_with (drop i s) sub)"

definition trim_prefix :: "string \<Rightarrow> string \<Rightarrow> string" where
  "trim_prefix p s = (if starts_with s p then drop (length p) s else s)"

definition trim_suffix :: "string \<Rightarrow> string \<Rightarrow> string" where
  "trim_suffix p s = (if ends_with s p then take (length s - length p) s else s)"

section \<open>Addresses\<close>

text \<open>\<open>netip.Addr\<close> and \<open>netip.Prefix\<close>; an IPv6 address carries a zone, empty when there is none.\<close>

datatype Addr = IPv4 "32 word" | IPv6 "128 word" string

record Prefix =
  pf_addr :: Addr
  pf_bits :: nat

definition be_word :: "bytes \<Rightarrow> 'a::len word" where
  "be_word bs = foldl (\<lambda>w b. push_bit 8 w OR ucast b) 0 bs"

definition unmap :: "Addr \<Rightarrow> Addr" where
  "unmap a = (case a of IPv6 w zone \<Rightarrow> if drop_bit 32 w = 0xFFFF then IPv4 (ucast w) else a | IPv4 _ \<Rightarrow> a)"

definition addrFromIP :: "bytes \<Rightarrow> Addr option" where
  "addrFromIP ip =
     (if length ip = 4 then Some (unmap (IPv4 (be_word ip)))
      else if length ip = 16 then Some (unmap (IPv6 (be_word ip) []))
      else None)"

definition Prefix_contains :: "Prefix \<Rightarrow> Addr \<Rightarrow> bool" where
  "Prefix_contains p a =
     (case (pf_addr p, a) of
        (IPv4 n, IPv4 w) \<Rightarrow> pf_bits p \<le> 32 \<and> drop_bit (32 - pf_bits p) (w XOR n) = 0
      | (IPv6 n _, IPv6 w zone) \<Rightarrow> pf_bits p \<le> 128 \<and> zone = [] \<and> drop_bit (128 - pf_bits p) (w XOR n) = 0
      | _ \<Rightarrow> False)"

definition prefixesContain :: "Prefix list \<Rightarrow> Addr \<Rightarrow> bool" where
  "prefixesContain prefixes a = (\<exists>p \<in> set prefixes. Prefix_contains p (unmap a))"

section \<open>Authorities\<close>

text \<open>What the source reads of a \<open>url.URL\<close>, and \<open>Port\<close> and \<open>Hostname\<close> of it.\<close>

record Url =
  url_user :: bool
  url_path :: string
  url_raw_query :: string
  url_fragment :: string
  url_host :: string

record GoNet =
  gn_url_parse :: "string \<Rightarrow> Url option"
  gn_valid_host_header :: "string \<Rightarrow> bool"
  gn_parse_addr :: "string \<Rightarrow> Addr option"
  gn_addr_string :: "Addr \<Rightarrow> string"
  gn_parse_prefix :: "string \<Rightarrow> Prefix option"
  gn_parse_query :: "string \<Rightarrow> (string \<times> string list) list option"

definition valid_optional_port :: "string \<Rightarrow> bool" where
  "valid_optional_port port \<longleftrightarrow> port = [] \<or> hd port = CHR '':'' \<and> list_all is_digit (tl port)"

definition split_host_port :: "string \<Rightarrow> string \<times> string" where
  "split_host_port host_port =
     (let (host, port) =
        (case rfind (CHR '':'') host_port of
           Some colon \<Rightarrow>
             if valid_optional_port (drop colon host_port) then (take colon host_port, drop (colon + 1) host_port)
             else (host_port, [])
         | None \<Rightarrow> (host_port, [])) in
      (if starts_with host ''['' \<and> ends_with host '']'' then (butlast (tl host), port) else (host, port)))"

record Authority =
  au_host :: string
  au_port :: u16

record Binding =
  bi_pattern :: string
  bi_host :: string
  bi_port :: u16
  bi_wildcard :: bool

definition DefaultPort :: "string \<Rightarrow> u16" where
  "DefaultPort kind = (if kind = ''https'' then 443 else 80)"

definition isASCII :: "string \<Rightarrow> bool" where
  "isASCII value = list_all (\<lambda>c. of_char c \<le> (127::nat)) value"

definition ParsePort :: "string \<Rightarrow> msg + u16" where
  "ParsePort value =
     (let reject = Err (''port %q is out of range'', [value]) in
      if value = [] \<or> \<not> list_all is_digit value then reject
      else if digits_value value < 1 \<or> digits_value value > 65535 then reject
      else Ok (of_int (digits_value value)))"

definition hasExplicitPortSyntax :: "string \<Rightarrow> bool" where
  "hasExplicitPortSyntax host =
     (if starts_with host ''['' then
        (case rfind (CHR '']'') host of Some close \<Rightarrow> length host > close + 1 | None \<Rightarrow> False)
      else length (filter (\<lambda>c. c = CHR '':'') host) = 1)"

definition ParseAuthority :: "GoNet \<Rightarrow> string \<Rightarrow> u16 \<Rightarrow> msg + Authority" where
  "ParseAuthority go input defaultPort =
     (let raw = trim input;
          bracketed = starts_with raw ''['';
          reject = (\<lambda>text. Err (text, [raw])) in
      if raw = [] then Err (msg ''authority host must not be empty'')
      else if \<not> isASCII raw then reject ''authority %q must be ASCII/punycode''
      else if contains_str raw ''://'' then reject ''authority %q must not include a scheme''
      else case gn_url_parse go (''http://'' @ raw) of
        None \<Rightarrow> reject ''authority %q is invalid''
      | Some parsed \<Rightarrow>
          if url_user parsed then reject ''authority %q must not include credentials''
          else if url_path parsed \<noteq> [] \<or> url_raw_query parsed \<noteq> [] \<or> url_fragment parsed \<noteq> []
            then reject ''authority %q must not include a path, query, or fragment''
          else if url_host parsed = [] then Err (msg ''authority host must not be empty'')
          else if \<not> gn_valid_host_header go (url_host parsed) then reject ''authority %q is not a valid HTTP Host header''
          else if \<not> bracketed \<and> length (filter (\<lambda>c. c = CHR '':'') (url_host parsed)) > 1
            then reject ''IPv6 authority %q must be bracketed''
          else
            let (hostname, port_value) = split_host_port (url_host parsed) in
            bind_result (if port_value \<noteq> [] then ParsePort port_value else Ok defaultPort) (\<lambda>port.
            if port_value = [] \<and> hasExplicitPortSyntax (url_host parsed)
              then reject ''authority %q has invalid host/port syntax''
            else
              let host = trim_suffix ''.'' (to_lower hostname) in
              if host = [] then Err (msg ''authority host must not be empty'')
              else case gn_parse_addr go host of
                Some (IPv6 w zone) \<Rightarrow>
                  if \<not> bracketed then reject ''IPv6 authority %q must be bracketed''
                  else Ok \<lparr>au_host = gn_addr_string go (IPv6 w zone), au_port = port\<rparr>
              | Some (IPv4 w) \<Rightarrow>
                  if bracketed then reject ''bracketed authority %q must contain an IPv6 literal''
                  else Ok \<lparr>au_host = gn_addr_string go (IPv4 w), au_port = port\<rparr>
              | None \<Rightarrow>
                  if bracketed then reject ''bracketed authority %q must contain an IPv6 literal''
                  else Ok \<lparr>au_host = host, au_port = port\<rparr>))"

section \<open>Bindings\<close>

definition wildcardHostLooksLikeIPPattern :: "GoNet \<Rightarrow> string \<Rightarrow> bool" where
  "wildcardHostLooksLikeIPPattern go host \<longleftrightarrow>
     gn_parse_addr go host \<noteq> None \<or> list_all (\<lambda>label. label \<noteq> [] \<and> list_all is_digit label) (split_char (CHR ''.'') host)"

definition formatAuthorityHost :: "GoNet \<Rightarrow> string \<Rightarrow> string" where
  "formatAuthorityHost go host =
     (if CHR '':'' \<in> set host \<and> gn_parse_addr go host \<noteq> None then ''['' @ host @ '']'' else host)"

text \<open>\<open>net.JoinHostPort\<close>.\<close>

definition JoinHostPort :: "string \<Rightarrow> string \<Rightarrow> string" where
  "JoinHostPort host port = (if CHR '':'' \<in> set host then ''['' @ host @ '']:'' @ port else host @ '':'' @ port)"

definition FormatAuthority :: "GoNet \<Rightarrow> Authority \<Rightarrow> u16 \<Rightarrow> string" where
  "FormatAuthority go authority defaultPort =
     (if au_port authority = defaultPort then formatAuthorityHost go (au_host authority)
      else JoinHostPort (au_host authority) (decimal (unat (au_port authority))))"

definition ParseBinding :: "GoNet \<Rightarrow> string \<Rightarrow> u16 \<Rightarrow> msg + Binding" where
  "ParseBinding go input defaultPort =
     (let pattern = trim input;
          wildcard = starts_with pattern ''*.'';
          suffix = trim_prefix ''*.'' pattern in
      if pattern = [] then Err (msg ''host must not be empty'')
      else if CHR ''*'' \<in> set pattern \<and> \<not> wildcard then Err (''wildcard host %q is invalid'', [pattern])
      else if wildcard \<and> (suffix = [] \<or> CHR ''*'' \<in> set suffix) then Err (''wildcard host %q is invalid'', [''*.'' @ suffix])
      else
        bind_result (ParseAuthority go suffix defaultPort) (\<lambda>authority.
        if wildcard \<and> wildcardHostLooksLikeIPPattern go (au_host authority)
          then Err (''wildcard host %q cannot be an IP address'', [''*.'' @ au_host authority])
        else
          let canonical = FormatAuthority go authority defaultPort in
          Ok \<lparr>bi_pattern = (if wildcard then ''*.'' @ canonical else canonical),
              bi_host = au_host authority, bi_port = au_port authority, bi_wildcard = wildcard\<rparr>))"

definition Binding_Matches :: "Binding \<Rightarrow> Authority \<Rightarrow> bool" where
  "Binding_Matches b authority =
     (if bi_port b \<noteq> au_port authority then False
      else if \<not> bi_wildcard b then bi_host b = au_host authority
      else au_host authority \<noteq> bi_host b \<and> ends_with (au_host authority) (''.'' @ bi_host b))"

section \<open>Lemmas\<close>

lemma ends_with_iff: "ends_with s suf \<longleftrightarrow> (\<exists>t. s = t @ suf)"
proof
  assume "ends_with s suf"
  then have "s = take (length s - length suf) s @ suf" by (metis append_take_drop_id ends_with_def)
  then show "\<exists>t. s = t @ suf" by blast
qed (auto simp: ends_with_def)

lemma wildcard_descends:
  "bi_wildcard b \<Longrightarrow> Binding_Matches b a \<longleftrightarrow> bi_port b = au_port a \<and> (\<exists>s. au_host a = s @ ''.'' @ bi_host b)"
  by (auto simp: Binding_Matches_def ends_with_iff dest: arg_cong [of _ _ length])

text \<open>Wildcards of the same length that match the same authority are the same wildcard.\<close>

lemma wildcard_suffix_unique:
  assumes "bi_wildcard b" "bi_wildcard c" "Binding_Matches b a" "Binding_Matches c a" "length (bi_host b) = length (bi_host c)"
  shows "bi_host b = bi_host c \<and> bi_port b = bi_port c"
  using assms by (auto simp: wildcard_descends)

end
