(* ===== verification/Netd_Policy.thy ===== *)
theory Netd_Policy
  imports Netd_Hosts "HOL-Library.Multiset" "HOL-Library.List_Lexorder"
begin

text \<open>
  The network policy of \<open>netd\<close> (\<open>net/netd/internal/policy\<close>): the documents a policy is compiled from
  (\<open>document.go\<close>), the compiled policy and how it matches flows and hosts (\<open>model.go\<close>), the compiler
  (\<open>load.go\<close>) and the evaluation of flows and requests (\<open>eval.go\<close>).

  A Go map is the list of its entries in the order of insertion.  Where the source iterates over a map, the
  order is the argument \<open>ord\<close>, because Go leaves it open; a theorem that needs to know says that \<open>ord\<close> permutes.
  A nil policy is \<open>None\<close>.  Compiled conditions belong to the policy crate: \<open>cel\<close> evaluates the one with a given
  number on the context of a request, and \<open>None\<close> is its error.
\<close>

section \<open>Documents\<close>

text \<open>Actions, kinds and layers are strings in the source.\<close>

abbreviation ActionAllow :: string where "ActionAllow \<equiv> ''allow''"
abbreviation ActionDeny :: string where "ActionDeny \<equiv> ''deny''"

record Ref =
  rf_kind :: string
  rf_name :: string

definition Ref_String :: "Ref \<Rightarrow> string" where
  "Ref_String r = rf_kind r @ ''.'' @ rf_name r"

record PortRange =
  pr_start :: u16
  pr_end :: u16

record EndpointDecl =
  ed_kind :: string
  ed_name :: string
  ed_source :: "string list"
  ed_destination :: "string list"
  ed_protocol :: string
  ed_ports :: "PortRange list"
  ed_hosts :: "string list"

record ConditionDecl =
  cd_id :: u32
  cd_source :: string

record CredentialDecl =
  kd_kind :: string
  kd_name :: string
  kd_endpoint :: Ref
  kd_username :: string
  kd_header :: string
  kd_prefix :: string
  kd_idempotency_key :: bool
  kd_condition :: "ConditionDecl option"

record RuleDecl =
  rd_name :: string
  rd_endpoints :: "Ref list"
  rd_credential :: "Ref option"
  rd_verdict :: string
  rd_priority :: int
  rd_disabled :: bool
  rd_condition :: "ConditionDecl option"
  rd_reason :: string
  rd_order :: int

record PolicyDocument =
  do_default_action :: string
  do_endpoints :: "EndpointDecl list"
  do_credentials :: "CredentialDecl list"
  do_rules :: "RuleDecl list"

record policySnapshot =
  ps_policy_hash :: string
  ps_documents :: "PolicyDocument list"

section \<open>The compiled policy\<close>

record IPEndpoint =
  ie_name :: string
  ie_source_prefixes :: "Prefix list"
  ie_destination_prefixes :: "Prefix list"
  ie_protocol :: string
  ie_ports :: "PortRange list"

record L4Match =
  l4_protocol :: string
  l4_dest_port :: u16
  l4_port_range :: PortRange
  l4_kind :: string

record HTTPEndpoint =
  he_kind :: string
  he_name :: string
  he_transport :: string
  he_default_port :: u16
  he_hosts :: "Binding list"

record Credential =
  ce_kind :: string
  ce_name :: string
  ce_endpoint :: Ref
  ce_username :: string
  ce_header :: string
  ce_prefix :: string
  ce_idempotency_key :: bool
  ce_condition :: "ConditionDecl option"

record Rule =
  ru_name :: string
  ru_family :: string
  ru_endpoints :: "Ref list"
  ru_credential :: "Ref option"
  ru_verdict :: string
  ru_priority :: int
  ru_disabled :: bool
  ru_reason :: string
  ru_order :: int
  ru_condition :: "ConditionDecl option"

record Flow =
  fw_protocol :: string
  fw_source_ip :: bytes
  fw_source_port :: u16
  fw_dest_ip :: bytes
  fw_dest_port :: u16

record HTTPRequest =
  hr_flow :: Flow
  hr_endpoint_kind :: string
  hr_host :: string
  hr_method :: string
  hr_path :: string
  hr_query :: string
  hr_header :: "(string \<times> string list) list"

record Decision =
  dc_action :: string
  dc_layer :: string
  dc_source :: string
  dc_default_action :: string
  dc_classification_opportunity :: bool
  dc_rule_name :: string
  dc_reason :: string
  dc_endpoint_kind :: string
  dc_endpoint_name :: string
  dc_matched_l4 :: "L4Match option"
  dc_matched_flow :: Flow
  dc_matched_request :: "HTTPRequest option"
  dc_selected_credential :: "Credential option"

record Policy =
  po_native :: bool
  po_policy_hash :: string
  po_default_action :: string
  po_ip_endpoints :: "(string \<times> IPEndpoint) list"
  po_http_endpoints :: "(string \<times> HTTPEndpoint) list"
  po_https_endpoints :: "(string \<times> HTTPEndpoint) list"
  po_credentials :: "(string \<times> Credential) list"
  po_credentials_by_endpoint :: "(string \<times> Credential list) list"
  po_exact_http_bindings :: "(string \<times> Ref) list"
  po_ip_rules :: "Rule list"
  po_http_rules :: "Rule list"

definition newPolicy :: Policy where
  "newPolicy =
     \<lparr>po_native = False, po_policy_hash = [], po_default_action = ActionAllow, po_ip_endpoints = [], po_http_endpoints = [],
      po_https_endpoints = [], po_credentials = [], po_credentials_by_endpoint = [], po_exact_http_bindings = [],
      po_ip_rules = [], po_http_rules = []\<rparr>"

definition zero_flow :: Flow where
  "zero_flow = \<lparr>fw_protocol = [], fw_source_ip = [], fw_source_port = 0, fw_dest_ip = [], fw_dest_port = 0\<rparr>"

definition zero_decision :: Decision where
  "zero_decision =
     \<lparr>dc_action = [], dc_layer = [], dc_source = [], dc_default_action = [], dc_classification_opportunity = False,
      dc_rule_name = [], dc_reason = [], dc_endpoint_kind = [], dc_endpoint_name = [], dc_matched_l4 = None,
      dc_matched_flow = zero_flow, dc_matched_request = None, dc_selected_credential = None\<rparr>"

section \<open>Matching\<close>

definition matchPort :: "IPEndpoint \<Rightarrow> u16 \<Rightarrow> PortRange option" where
  "matchPort e port =
     (if ie_ports e = [] then Some \<lparr>pr_start = 0, pr_end = 0\<rparr>
      else find (\<lambda>r. pr_start r \<le> port \<and> port \<le> pr_end r) (ie_ports e))"

definition l4MatchKind :: "PortRange \<Rightarrow> string" where
  "l4MatchKind r =
     (if pr_start r = 0 \<and> pr_end r = 0 then ''protocol_only''
      else if pr_start r = pr_end r then ''exact_port'' else ''range'')"

definition matchesProtocol :: "IPEndpoint \<Rightarrow> string \<Rightarrow> bool" where
  "matchesProtocol e protocol \<longleftrightarrow> ie_protocol e = ''any'' \<or> ie_protocol e = to_lower protocol"

text \<open>An empty list of prefixes does not restrict.\<close>

definition address_allowed :: "Prefix list \<Rightarrow> bytes \<Rightarrow> bool" where
  "address_allowed prefixes ip \<longleftrightarrow>
     prefixes = [] \<or> (case addrFromIP ip of None \<Rightarrow> False | Some a \<Rightarrow> prefixesContain prefixes a)"

definition IPEndpoint_match :: "IPEndpoint \<Rightarrow> Flow \<Rightarrow> L4Match option" where
  "IPEndpoint_match e flow =
     (if \<not> matchesProtocol e (fw_protocol flow) then None
      else case matchPort e (fw_dest_port flow) of
        None \<Rightarrow> None
      | Some portRange \<Rightarrow>
          if \<not> address_allowed (ie_source_prefixes e) (fw_source_ip flow) then None
          else if \<not> address_allowed (ie_destination_prefixes e) (fw_dest_ip flow) then None
          else Some \<lparr>l4_protocol = ie_protocol e, l4_dest_port = fw_dest_port flow, l4_port_range = portRange,
                 l4_kind = l4MatchKind portRange\<rparr>)"

fun matchIPRule_refs :: "Policy \<Rightarrow> Ref list \<Rightarrow> Flow \<Rightarrow> (IPEndpoint \<times> L4Match) option" where
  "matchIPRule_refs p [] flow = None"
| "matchIPRule_refs p (ref # refs) flow =
     (case map_of (po_ip_endpoints p) (Ref_String ref) of
        None \<Rightarrow> matchIPRule_refs p refs flow
      | Some e \<Rightarrow>
          (case IPEndpoint_match e flow of
             None \<Rightarrow> matchIPRule_refs p refs flow
           | Some m \<Rightarrow> Some (e, m)))"

definition matchIPRule :: "Policy \<Rightarrow> Rule \<Rightarrow> Flow \<Rightarrow> (IPEndpoint \<times> L4Match) option" where
  "matchIPRule p rule flow = matchIPRule_refs p (ru_endpoints rule) flow"

definition binds_port :: "(string \<times> HTTPEndpoint) list \<Rightarrow> u16 \<Rightarrow> bool" where
  "binds_port endpoints port = (\<exists>e \<in> set (map snd endpoints). \<exists>b \<in> set (he_hosts e). bi_port b = port)"

definition ShouldInterceptHTTP :: "Policy \<Rightarrow> u16 \<Rightarrow> bool" where
  "ShouldInterceptHTTP p port = binds_port (po_http_endpoints p) port"

definition ShouldInterceptHTTPS :: "Policy \<Rightarrow> u16 \<Rightarrow> bool" where
  "ShouldInterceptHTTPS p port = binds_port (po_https_endpoints p) port"

definition CanClassify :: "Policy \<Rightarrow> Flow \<Rightarrow> bool" where
  "CanClassify p flow \<longleftrightarrow>
     to_lower (fw_protocol flow) = ''tcp'' \<and>
     (ShouldInterceptHTTP p (fw_dest_port flow) \<or> ShouldInterceptHTTPS p (fw_dest_port flow))"

definition httpFamilyEndpoints :: "Policy \<Rightarrow> string \<Rightarrow> (string \<times> HTTPEndpoint) list" where
  "httpFamilyEndpoints p kind =
     (if kind = ''http'' then po_http_endpoints p
      else if kind = ''https'' then po_https_endpoints p
      else if po_http_endpoints p = [] then po_https_endpoints p
      else if po_https_endpoints p = [] then po_http_endpoints p
      else filter (\<lambda>(k, _). k \<notin> fst ` set (po_https_endpoints p)) (po_http_endpoints p) @ po_https_endpoints p)"

definition endpoint_ref :: "HTTPEndpoint \<Rightarrow> Ref" where
  "endpoint_ref e = \<lparr>rf_kind = he_kind e, rf_name = he_name e\<rparr>"

text \<open>The bindings in the order of the loops; an exact one ends the search, the longest wildcard is kept.\<close>

fun scan_bindings :: "Authority \<Rightarrow> (HTTPEndpoint \<times> Binding) list \<Rightarrow> (HTTPEndpoint \<times> nat) option \<Rightarrow> HTTPEndpoint option" where
  "scan_bindings a [] wildcardMatch = map_option fst wildcardMatch"
| "scan_bindings a ((e, b) # rest) wildcardMatch =
     (if \<not> Binding_Matches b a then scan_bindings a rest wildcardMatch
      else if \<not> bi_wildcard b then Some e
      else
        let suffixLength = length (bi_host b) in
        if wildcardMatch = None \<or> suffixLength > snd (the wildcardMatch)
        then scan_bindings a rest (Some (e, suffixLength))
        else scan_bindings a rest wildcardMatch)"

definition endpoint_bindings :: "HTTPEndpoint list \<Rightarrow> (HTTPEndpoint \<times> Binding) list" where
  "endpoint_bindings es = concat (map (\<lambda>e. map (Pair e) (he_hosts e)) es)"

type_synonym map_order = "HTTPEndpoint list \<Rightarrow> HTTPEndpoint list"

definition matchHTTPFamilyHost ::
  "GoNet \<Rightarrow> map_order \<Rightarrow> Policy \<Rightarrow> string \<Rightarrow> string \<Rightarrow> u16 \<Rightarrow> (Ref \<times> HTTPEndpoint \<times> Authority) option" where
  "matchHTTPFamilyHost go ord p kind host defaultPort =
     (let endpoints = httpFamilyEndpoints p kind in
      if endpoints = [] then None
      else case ParseAuthority go host defaultPort of
        Inl _ \<Rightarrow> None
      | Inr a \<Rightarrow>
          if au_host a = [] then None
          else case scan_bindings a (endpoint_bindings (ord (map snd endpoints))) None of
            None \<Rightarrow> None
          | Some e \<Rightarrow> Some (endpoint_ref e, e, a))"

definition MatchHTTPFamilyHost :: "GoNet \<Rightarrow> map_order \<Rightarrow> Policy \<Rightarrow> string \<Rightarrow> string \<Rightarrow> (Ref \<times> HTTPEndpoint) option" where
  "MatchHTTPFamilyHost go ord p kind host =
     map_option (\<lambda>(ref, e, _). (ref, e)) (matchHTTPFamilyHost go ord p kind host (DefaultPort kind))"

definition MatchHTTPHost :: "GoNet \<Rightarrow> map_order \<Rightarrow> Policy \<Rightarrow> string \<Rightarrow> bool" where
  "MatchHTTPHost go ord p host \<longleftrightarrow> MatchHTTPFamilyHost go ord p ''http'' host \<noteq> None"

definition MatchHTTPHostForPort :: "GoNet \<Rightarrow> map_order \<Rightarrow> Policy \<Rightarrow> string \<Rightarrow> u16 \<Rightarrow> bool" where
  "MatchHTTPHostForPort go ord p host port =
     (case matchHTTPFamilyHost go ord p ''http'' host (DefaultPort ''http'') of
        None \<Rightarrow> False
      | Some (_, _, a) \<Rightarrow> au_port a = port)"

definition ResolveHTTPSHost :: "GoNet \<Rightarrow> map_order \<Rightarrow> Policy \<Rightarrow> string \<Rightarrow> u16 \<Rightarrow> (Ref \<times> string \<times> string) option" where
  "ResolveHTTPSHost go ord p host port =
     (let port = (if port = 0 then 443 else port) in
      case matchHTTPFamilyHost go ord p ''https'' host port of
        None \<Rightarrow> None
      | Some (ref, _, a) \<Rightarrow> Some (ref, FormatAuthority go a 443, au_host a))"

definition ResolveHTTPSRawIP :: "GoNet \<Rightarrow> map_order \<Rightarrow> Policy \<Rightarrow> bytes \<Rightarrow> u16 \<Rightarrow> (Ref \<times> string \<times> string) option" where
  "ResolveHTTPSRawIP go ord p destIP destPort =
     (case addrFromIP destIP of
        None \<Rightarrow> None
      | Some dest \<Rightarrow>
          (case find (\<lambda>(e, b). \<not> bi_wildcard b \<and> bi_port b = destPort \<and> map_option unmap (gn_parse_addr go (bi_host b)) = Some dest)
                  (endpoint_bindings (ord (map snd (po_https_endpoints p)))) of
             None \<Rightarrow> None
           | Some (e, b) \<Rightarrow>
               let a = \<lparr>au_host = gn_addr_string go dest, au_port = bi_port b\<rparr> in
               Some (endpoint_ref e, FormatAuthority go a 443, au_host a)))"

definition MatchHTTPSAuthority :: "GoNet \<Rightarrow> string \<Rightarrow> string \<Rightarrow> bool" where
  "MatchHTTPSAuthority go host selected =
     (case (ParseAuthority go host 443, ParseAuthority go selected 443) of
        (Inr h, Inr s) \<Rightarrow> au_host h \<noteq> [] \<and> au_host s \<noteq> [] \<and> h = s
      | _ \<Rightarrow> False)"

section \<open>Compilation\<close>

datatype PolicyError = PlainError msg | LoadError string string msg

fun fold_result :: "('a \<Rightarrow> 's \<Rightarrow> 'e + 's) \<Rightarrow> 'a list \<Rightarrow> 's \<Rightarrow> 'e + 's" where
  "fold_result f [] s = Ok s"
| "fold_result f (x # xs) s = bind_result (f x s) (fold_result f xs)"

text \<open>\<open>fmt.Errorf\<close> around another error.\<close>

definition wrap_error :: "string \<Rightarrow> string list \<Rightarrow> msg + 'a \<Rightarrow> msg + 'a" where
  "wrap_error text args r = (case r of Inl (inner, inner_args) \<Rightarrow> Err (text @ inner, args @ inner_args) | Inr x \<Rightarrow> Ok x)"

text \<open>Adjacent and overlapping ranges are merged; \<open>uint32\<close> keeps the comparison from wrapping.\<close>

fun merge_ranges :: "PortRange list \<Rightarrow> PortRange list \<Rightarrow> PortRange list" where
  "merge_ranges merged [] = merged"
| "merge_ranges merged (current # rest) =
     (if merged = [] then merge_ranges [current] rest
      else
        let l = last merged in
        if unat (pr_start current) \<le> unat (pr_end l) + 1 then
          merge_ranges (if pr_end current > pr_end l then butlast merged @ [l\<lparr>pr_end := pr_end current\<rparr>] else merged) rest
        else merge_ranges (merged @ [current]) rest)"

definition normalizePortRanges :: "PortRange list \<Rightarrow> PortRange list" where
  "normalizePortRanges ranges = merge_ranges [] (sort_key (\<lambda>r. unat (pr_start r) * 65536 + unat (pr_end r)) ranges)"

fun parse_prefixes :: "GoNet \<Rightarrow> string \<Rightarrow> string list \<Rightarrow> msg + Prefix list" where
  "parse_prefixes go text [] = Ok []"
| "parse_prefixes go text (cidr # cidrs) =
     (case gn_parse_prefix go cidr of
        None \<Rightarrow> Err (text, [cidr])
      | Some prefix \<Rightarrow> bind_result (parse_prefixes go text cidrs) (\<lambda>ps. Ok (prefix # ps)))"

definition compileIPEndpoint :: "GoNet \<Rightarrow> EndpointDecl \<Rightarrow> msg + IPEndpoint" where
  "compileIPEndpoint go raw =
     (if ed_destination raw = [] \<and> ed_source raw = []
        then Err (msg ''at least one source or destination entry is required'')
      else
        let trimmed = to_lower (trim (ed_protocol raw));
            protocol = (if trimmed = [] then ''any'' else trimmed) in
        if protocol = ''any'' \<and> ed_ports raw \<noteq> [] then Err (msg ''protocol any cannot be combined with ports'')
        else if protocol \<notin> {''any'', ''tcp'', ''udp''} then Err (''unsupported protocol %q'', [protocol])
        else
          bind_result (parse_prefixes go ''invalid source entry %q'' (ed_source raw)) (\<lambda>sources.
          bind_result (parse_prefixes go ''invalid destination entry %q'' (ed_destination raw)) (\<lambda>destinations.
          Ok \<lparr>ie_name = ed_name raw, ie_source_prefixes = sources, ie_destination_prefixes = destinations,
              ie_protocol = protocol, ie_ports = normalizePortRanges (ed_ports raw)\<rparr>)))"

definition hostBindingKey :: "string \<Rightarrow> string \<Rightarrow> u16 \<Rightarrow> bool \<Rightarrow> string" where
  "hostBindingKey transport host port wildcard =
     transport @ ''|'' @ (if wildcard then ''wildcard'' else ''exact'') @ ''|'' @ host @ ''|'' @ decimal (unat port)"

fun compile_hosts :: "GoNet \<Rightarrow> string \<Rightarrow> u16 \<Rightarrow> string list \<Rightarrow> string list \<Rightarrow> Binding list \<Rightarrow> msg + Binding list" where
  "compile_hosts go transport defaultPort [] seen bindings = Ok bindings"
| "compile_hosts go transport defaultPort (host # hosts) seen bindings =
     bind_result (ParseBinding go host defaultPort) (\<lambda>binding.
     let key = hostBindingKey transport (bi_host binding) (bi_port binding) (bi_wildcard binding) in
     if key \<in> set seen then compile_hosts go transport defaultPort hosts seen bindings
     else compile_hosts go transport defaultPort hosts (key # seen) (bindings @ [binding]))"

definition compileHTTPEndpointDecl :: "GoNet \<Rightarrow> string \<Rightarrow> string \<Rightarrow> string \<Rightarrow> u16 \<Rightarrow> string list \<Rightarrow> msg + HTTPEndpoint" where
  "compileHTTPEndpointDecl go kind name transport defaultPort hosts =
     (if hosts = [] then Err (msg ''hosts is required'')
      else
        bind_result (compile_hosts go transport defaultPort hosts [] []) (\<lambda>bindings.
        Ok \<lparr>he_kind = kind, he_name = name, he_transport = transport, he_default_port = defaultPort, he_hosts = bindings\<rparr>))"

definition add_exact_binding :: "HTTPEndpoint \<Rightarrow> Binding \<Rightarrow> Policy \<Rightarrow> msg + Policy" where
  "add_exact_binding endpoint binding p =
     (if bi_wildcard binding then Ok p
      else
        let key = hostBindingKey (he_transport endpoint) (bi_host binding) (bi_port binding) False in
        case map_of (po_exact_http_bindings p) key of
          Some existing \<Rightarrow>
            Err (''host %q:%d duplicates exact binding on %q'', [bi_host binding, decimal (unat (bi_port binding)), Ref_String existing])
        | None \<Rightarrow> Ok (p\<lparr>po_exact_http_bindings := po_exact_http_bindings p @ [(key, endpoint_ref endpoint)]\<rparr>))"

definition addHTTPEndpoint :: "HTTPEndpoint \<Rightarrow> Policy \<Rightarrow> msg + Policy" where
  "addHTTPEndpoint endpoint p = fold_result (add_exact_binding endpoint) (he_hosts endpoint) p"

definition compile_http :: "GoNet \<Rightarrow> EndpointDecl \<Rightarrow> string \<Rightarrow> u16 \<Rightarrow> Policy \<Rightarrow> msg + HTTPEndpoint \<times> Policy" where
  "compile_http go decl transport defaultPort p =
     (let key = Ref_String \<lparr>rf_kind = ed_kind decl, rf_name = ed_name decl\<rparr> in
      bind_result (wrap_error ''decode endpoint %q: '' [key]
        (compileHTTPEndpointDecl go (ed_kind decl) (ed_name decl) transport defaultPort (ed_hosts decl))) (\<lambda>endpoint.
      bind_result (wrap_error ''decode endpoint %q: '' [key] (addHTTPEndpoint endpoint p)) (\<lambda>p'. Ok (endpoint, p'))))"

definition addEndpointDecl :: "GoNet \<Rightarrow> EndpointDecl \<Rightarrow> Policy \<Rightarrow> msg + Policy" where
  "addEndpointDecl go decl p =
     (let key = Ref_String \<lparr>rf_kind = ed_kind decl, rf_name = ed_name decl\<rparr>;
          taken = Err (''Endpoint %q is already defined.'', [key]) in
      if ed_kind decl = ''ip'' then
        if map_of (po_ip_endpoints p) key \<noteq> None then taken
        else
          bind_result (wrap_error ''decode endpoint %q: '' [key] (compileIPEndpoint go decl)) (\<lambda>endpoint.
          Ok (p\<lparr>po_ip_endpoints := po_ip_endpoints p @ [(key, endpoint)]\<rparr>))
      else if ed_kind decl = ''http'' then
        if map_of (po_http_endpoints p) key \<noteq> None then taken
        else
          bind_result (compile_http go decl ''http-proxy'' 80 p) (\<lambda>(endpoint, p').
          Ok (p'\<lparr>po_http_endpoints := po_http_endpoints p' @ [(key, endpoint)]\<rparr>))
      else if ed_kind decl = ''https'' then
        if map_of (po_https_endpoints p) key \<noteq> None then taken
        else
          bind_result (compile_http go decl ''https-mitm'' 443 p) (\<lambda>(endpoint, p').
          Ok (p'\<lparr>po_https_endpoints := po_https_endpoints p' @ [(key, endpoint)]\<rparr>))
      else Err (''unsupported endpoint kind %q'', [ed_kind decl]))"

definition knownCredentialKind :: "string \<Rightarrow> bool" where
  "knownCredentialKind kind \<longleftrightarrow>
     kind \<in> {''basic_auth'', ''bearer_token'', ''header_token'', ''github_oauth'', ''openai_codex_oauth'', ''aws_credential''}"

definition append_credential :: "string \<Rightarrow> Credential \<Rightarrow> (string \<times> Credential list) list \<Rightarrow> (string \<times> Credential list) list" where
  "append_credential key credential m =
     (if map_of m key = None then m @ [(key, [credential])]
      else map (\<lambda>(k, cs). (k, if k = key then cs @ [credential] else cs)) m)"

definition addCredentialDecl :: "CredentialDecl \<Rightarrow> Policy \<Rightarrow> msg + Policy" where
  "addCredentialDecl decl p =
     (let endpoint_key = Ref_String (kd_endpoint decl);
          key = Ref_String \<lparr>rf_kind = kd_kind decl, rf_name = kd_name decl\<rparr> in
      if \<not> knownCredentialKind (kd_kind decl) then Err (''unsupported credential kind %q'', [kd_kind decl])
      else if rf_kind (kd_endpoint decl) \<noteq> ''https''
        then Err (''credential %q.%q must reference an https endpoint'', [kd_kind decl, kd_name decl])
      else if map_of (po_https_endpoints p) endpoint_key = None
        then Err (''credential %q.%q references unknown endpoint %q'', [kd_kind decl, kd_name decl, endpoint_key])
      else if map_of (po_credentials p) key \<noteq> None then Err (''duplicate credential %q'', [key])
      else
        let credential = \<lparr>ce_kind = kd_kind decl, ce_name = kd_name decl, ce_endpoint = kd_endpoint decl,
              ce_username = kd_username decl, ce_header = kd_header decl, ce_prefix = kd_prefix decl,
              ce_idempotency_key = kd_idempotency_key decl, ce_condition = kd_condition decl\<rparr> in
        Ok (p\<lparr>po_credentials := po_credentials p @ [(key, credential)],
              po_credentials_by_endpoint := append_credential endpoint_key credential (po_credentials_by_endpoint p)\<rparr>))"

definition endpointFamily :: "Policy \<Rightarrow> Ref \<Rightarrow> msg + string" where
  "endpointFamily p ref =
     (let unknown = Err (''references unknown endpoint %q'', [Ref_String ref]) in
      if rf_kind ref = ''ip'' then if map_of (po_ip_endpoints p) (Ref_String ref) = None then unknown else Ok ''ip''
      else if rf_kind ref = ''http'' then if map_of (po_http_endpoints p) (Ref_String ref) = None then unknown else Ok ''http''
      else if rf_kind ref = ''https'' then if map_of (po_https_endpoints p) (Ref_String ref) = None then unknown else Ok ''http''
      else Err (''references unsupported endpoint kind %q'', [rf_kind ref]))"

definition validateEndpointFamily :: "Policy \<Rightarrow> Ref list \<Rightarrow> msg + string" where
  "validateEndpointFamily p refs =
     (case refs of
        [] \<Rightarrow> Err (msg ''requires at least one endpoint'')
      | ref # rest \<Rightarrow>
          bind_result (endpointFamily p ref) (\<lambda>family.
            fold_result (\<lambda>r family.
              bind_result (endpointFamily p r) (\<lambda>other.
                if other \<noteq> family then Err (msg ''all endpoints in one rule must have the same family'') else Ok family))
              rest family))"

definition validateRuleCredential :: "Policy \<Rightarrow> Rule \<Rightarrow> msg + unit" where
  "validateRuleCredential p rule =
     (case ru_credential rule of
        None \<Rightarrow> Ok ()
      | Some ref \<Rightarrow>
          (case map_of (po_credentials p) (Ref_String ref) of
             None \<Rightarrow> Err (''rule %q references unknown credential %q'', [ru_name rule, Ref_String ref])
           | Some credential \<Rightarrow>
               if ru_family rule \<noteq> ''http'' then Err (''rule %q credential predicates are invalid on ip endpoints'', [ru_name rule])
               else if rf_kind (ce_endpoint credential) \<noteq> ''https''
                 then Err (''rule %q credential predicate must reference an https credential'', [ru_name rule])
               else if ce_endpoint credential \<in> set (ru_endpoints rule) then Ok ()
               else Err (''rule %q credential %q must bind to a directly referenced endpoint'', [ru_name rule, Ref_String ref])))"

definition rule_of :: "RuleDecl \<Rightarrow> string \<Rightarrow> Rule" where
  "rule_of decl family =
     \<lparr>ru_name = rd_name decl, ru_family = family, ru_endpoints = rd_endpoints decl, ru_credential = rd_credential decl,
      ru_verdict = rd_verdict decl, ru_priority = rd_priority decl, ru_disabled = rd_disabled decl, ru_reason = rd_reason decl,
      ru_order = rd_order decl, ru_condition = rd_condition decl\<rparr>"

definition addRuleDecl :: "RuleDecl \<Rightarrow> Policy \<Rightarrow> msg + Policy" where
  "addRuleDecl decl p =
     bind_result (wrap_error ''rule %q: '' [rd_name decl] (validateEndpointFamily p (rd_endpoints decl))) (\<lambda>family.
     let rule = rule_of decl family in
     bind_result (validateRuleCredential p rule) (\<lambda>_.
     if family = ''ip'' then
       if ru_condition rule \<noteq> None
         then Err (''rule %q condition is only supported for HTTP-family endpoint rules'', [rd_name decl])
       else if ru_disabled rule then Ok p
       else Ok (p\<lparr>po_ip_rules := po_ip_rules p @ [rule]\<rparr>)
     else if family = ''http'' then
       if ru_disabled rule then Ok p else Ok (p\<lparr>po_http_rules := po_http_rules p @ [rule]\<rparr>)
     else Err (''rule %q references unsupported endpoint family %q'', [rd_name decl, family])))"

text \<open>\<open>sort.SliceStable\<close> by descending priority.\<close>

definition sort_rules :: "Rule list \<Rightarrow> Rule list" where
  "sort_rules rules = sort_key (\<lambda>r. - ru_priority r) rules"

definition sortRules :: "Policy \<Rightarrow> Policy" where
  "sortRules p = p\<lparr>po_ip_rules := sort_rules (po_ip_rules p), po_http_rules := sort_rules (po_http_rules p)\<rparr>"

definition load_error :: "string \<Rightarrow> string \<Rightarrow> msg + 'a \<Rightarrow> PolicyError + 'a" where
  "load_error filename summary r = (case r of Inl m \<Rightarrow> Err (LoadError filename summary m) | Inr x \<Rightarrow> Ok x)"

definition compile_document :: "GoNet \<Rightarrow> string \<Rightarrow> PolicyDocument \<Rightarrow> Policy \<Rightarrow> PolicyError + Policy" where
  "compile_document go filename document p =
     bind_result (load_error filename ''Invalid endpoint''
       (fold_result (addEndpointDecl go) (do_endpoints document) (p\<lparr>po_default_action := do_default_action document\<rparr>))) (\<lambda>p.
     bind_result (load_error filename ''Invalid credential'' (fold_result addCredentialDecl (do_credentials document) p)) (\<lambda>p.
     load_error filename ''Invalid rule'' (fold_result addRuleDecl (do_rules document) p)))"

text \<open>
  The compiled conditions live behind a native handle that the loader has opened before it compiles, so that the handle
  is present in every compiled policy.
\<close>

definition compileSnapshot :: "GoNet \<Rightarrow> string \<Rightarrow> policySnapshot \<Rightarrow> PolicyError + Policy" where
  "compileSnapshot go filename snapshot =
     (if ps_policy_hash snapshot = [] then Err (PlainError (''policy snapshot %s missing policy_hash'', [filename]))
      else
        let compiled = newPolicy\<lparr>po_native := True, po_policy_hash := ps_policy_hash snapshot\<rparr> in
        if ps_documents snapshot = [] then Ok compiled
        else
          bind_result (fold_result (compile_document go filename) (ps_documents snapshot) compiled) (\<lambda>p. Ok (sortRules p)))"

section \<open>Evaluation\<close>

record HTTPConditionContext =
  cx_method :: string
  cx_host :: string
  cx_path :: string
  cx_query :: "string \<Rightarrow> string list option"
  cx_headers :: "string \<Rightarrow> string list option"

type_synonym cel = "u32 \<Rightarrow> HTTPConditionContext \<Rightarrow> bool option"

definition normalizedStringListMap ::
  "(string \<times> string list) list \<Rightarrow> (string \<Rightarrow> string) \<Rightarrow> string \<Rightarrow> string list option" where
  "normalizedStringListMap source key_form =
     fold (\<lambda>(key, vs) values. values(key_form key \<mapsto> (case values (key_form key) of Some old \<Rightarrow> old @ vs | None \<Rightarrow> vs)))
       (sort_key fst source) Map.empty"

definition normalizedRequestHost :: "GoNet \<Rightarrow> HTTPRequest \<Rightarrow> string" where
  "normalizedRequestHost go request =
     (case ParseAuthority go (hr_host request) (DefaultPort (hr_endpoint_kind request)) of
        Inl _ \<Rightarrow> to_lower (trim (hr_host request))
      | Inr a \<Rightarrow> au_host a)"

definition condition_context :: "GoNet \<Rightarrow> HTTPRequest \<Rightarrow> HTTPConditionContext option" where
  "condition_context go request =
     (case gn_parse_query go (hr_query request) of
        None \<Rightarrow> None
      | Some query \<Rightarrow>
          Some \<lparr>cx_method = to_lower (hr_method request), cx_host = normalizedRequestHost go request, cx_path = hr_path request,
                cx_query = normalizedStringListMap query id, cx_headers = normalizedStringListMap (hr_header request) to_lower\<rparr>)"

text \<open>\<open>httpConditionEvaluator.Evaluate\<close>; building the context again gives the same context.\<close>

definition evaluate_condition :: "GoNet \<Rightarrow> cel \<Rightarrow> Policy \<Rightarrow> HTTPRequest \<Rightarrow> ConditionDecl option \<Rightarrow> bool option" where
  "evaluate_condition go cel p request condition =
     (case condition of
        None \<Rightarrow> Some True
      | Some c \<Rightarrow>
          if cd_id c = 0 then Some True
          else if \<not> po_native p then None
          else case condition_context go request of None \<Rightarrow> None | Some context \<Rightarrow> cel (cd_id c) context)"

fun select_credential :: "(ConditionDecl option \<Rightarrow> bool option) \<Rightarrow> Credential list \<Rightarrow> Credential option \<Rightarrow> string + Credential option" where
  "select_credential holds [] selected = Ok selected"
| "select_credential holds (c # cs) selected =
     (case holds (ce_condition c) of
        None \<Rightarrow> Err ''credential_condition_error''
      | Some False \<Rightarrow> select_credential holds cs selected
      | Some True \<Rightarrow> if selected \<noteq> None then Err ''ambiguous_credentials'' else select_credential holds cs (Some c))"

definition selectedCredential :: "(ConditionDecl option \<Rightarrow> bool option) \<Rightarrow> Policy \<Rightarrow> Ref \<Rightarrow> string + Credential option" where
  "selectedCredential holds p endpoint =
     (case map_of (po_credentials_by_endpoint p) (Ref_String endpoint) of
        None \<Rightarrow> Ok None
      | Some credentials \<Rightarrow> select_credential holds credentials None)"

definition defaultReason :: "string \<Rightarrow> string" where
  "defaultReason action = ''default_'' @ action"

fun evaluate_ip_rules :: "Policy \<Rightarrow> Flow \<Rightarrow> Rule list \<Rightarrow> Decision" where
  "evaluate_ip_rules p flow [] =
     zero_decision\<lparr>dc_action := po_default_action p, dc_layer := ''flow'', dc_source := ''default'',
       dc_default_action := po_default_action p, dc_classification_opportunity := CanClassify p flow,
       dc_reason := defaultReason (po_default_action p), dc_matched_flow := flow\<rparr>"
| "evaluate_ip_rules p flow (rule # rules) =
     (case matchIPRule p rule flow of
        None \<Rightarrow> evaluate_ip_rules p flow rules
      | Some (endpoint, l4Match) \<Rightarrow>
          zero_decision\<lparr>dc_action := ru_verdict rule, dc_layer := ''flow'', dc_source := ''rule'',
            dc_default_action := po_default_action p,
            dc_classification_opportunity := (ru_verdict rule = ActionAllow \<and> CanClassify p flow),
            dc_rule_name := ru_name rule, dc_reason := ru_reason rule, dc_endpoint_kind := ''ip'',
            dc_endpoint_name := ie_name endpoint, dc_matched_l4 := Some l4Match, dc_matched_flow := flow\<rparr>)"

definition EvaluateFlow :: "Policy option \<Rightarrow> Flow \<Rightarrow> Decision" where
  "EvaluateFlow policy flow =
     (case policy of
        None \<Rightarrow>
          zero_decision\<lparr>dc_action := ActionAllow, dc_layer := ''flow'', dc_source := ''default'',
            dc_default_action := ActionAllow, dc_matched_flow := flow\<rparr>
      | Some p \<Rightarrow> evaluate_ip_rules p flow (po_ip_rules p))"

text \<open>The common part of the decisions on a request.\<close>

definition request_decision :: "Policy \<Rightarrow> HTTPRequest \<Rightarrow> string \<Rightarrow> string \<Rightarrow> string \<Rightarrow> Decision" where
  "request_decision p request source action reason =
     zero_decision\<lparr>dc_action := action, dc_layer := ''request'', dc_source := source,
       dc_default_action := po_default_action p, dc_reason := reason,
       dc_matched_flow := hr_flow request, dc_matched_request := Some request\<rparr>"

definition owned_decision :: "Policy \<Rightarrow> HTTPRequest \<Rightarrow> HTTPEndpoint \<Rightarrow> string \<Rightarrow> string \<Rightarrow> string \<Rightarrow> Decision" where
  "owned_decision p request endpoint source action reason =
     (request_decision p request source action reason)
       \<lparr>dc_endpoint_kind := he_kind endpoint, dc_endpoint_name := he_name endpoint\<rparr>"

fun evaluate_http_rules ::
  "Policy \<Rightarrow> HTTPRequest \<Rightarrow> HTTPEndpoint \<Rightarrow> (ConditionDecl option \<Rightarrow> bool option) \<Rightarrow> Credential option \<Rightarrow> Rule list \<Rightarrow> Decision" where
  "evaluate_http_rules p request endpoint holds credential [] =
     owned_decision p request endpoint ''default'' (po_default_action p) (defaultReason (po_default_action p))"
| "evaluate_http_rules p request endpoint holds credential (rule # rules) =
     (if endpoint_ref endpoint \<notin> set (ru_endpoints rule) then evaluate_http_rules p request endpoint holds credential rules
      else if ru_credential rule \<noteq> None \<and>
          map_option (\<lambda>c. \<lparr>rf_kind = ce_kind c, rf_name = ce_name c\<rparr>) credential \<noteq> ru_credential rule
        then evaluate_http_rules p request endpoint holds credential rules
      else case holds (ru_condition rule) of
        None \<Rightarrow> (owned_decision p request endpoint ''rule'' ActionDeny ''condition_error'')\<lparr>dc_rule_name := ru_name rule\<rparr>
      | Some False \<Rightarrow> evaluate_http_rules p request endpoint holds credential rules
      | Some True \<Rightarrow>
          (owned_decision p request endpoint ''rule'' (ru_verdict rule) (ru_reason rule))
            \<lparr>dc_rule_name := ru_name rule,
             dc_selected_credential := (if ru_verdict rule = ActionAllow then credential else None)\<rparr>)"

definition EvaluateHTTP :: "GoNet \<Rightarrow> cel \<Rightarrow> map_order \<Rightarrow> Policy option \<Rightarrow> HTTPRequest \<Rightarrow> Decision" where
  "EvaluateHTTP go cel ord policy request =
     (case policy of
        None \<Rightarrow>
          zero_decision\<lparr>dc_action := ActionAllow, dc_layer := ''request'', dc_source := ''default'',
            dc_default_action := ActionAllow, dc_matched_request := Some request\<rparr>
      | Some p \<Rightarrow>
          (case ParseAuthority go (hr_host request) (DefaultPort (hr_endpoint_kind request)) of
             Inl _ \<Rightarrow> request_decision p request ''default'' ActionDeny ''missing_host''
           | Inr _ \<Rightarrow>
               (case MatchHTTPFamilyHost go ord p (hr_endpoint_kind request) (hr_host request) of
                  None \<Rightarrow>
                    request_decision p request ''default'' (po_default_action p)
                      (if po_default_action p = ActionDeny then defaultReason (po_default_action p) else ''unknown_l7_endpoint'')
                | Some (endpointRef, endpoint) \<Rightarrow>
                    let request = request\<lparr>hr_endpoint_kind := he_kind endpoint\<rparr>;
                        holds = evaluate_condition go cel p request in
                    case selectedCredential holds p endpointRef of
                      Inl reason \<Rightarrow> owned_decision p request endpoint ''default'' ActionDeny reason
                    | Inr credential \<Rightarrow> evaluate_http_rules p request endpoint holds credential (po_http_rules p))))"

end
