(* ===== verification/Netd_Verdicts.thy ===== *)
theory Netd_Verdicts
  imports Netd_Policy
begin

text \<open>
  What the decisions of the network policy mean in terms of its documents: which rule decides, when a request
  may carry a credential, and how hosts are assigned to endpoints.
\<close>

section \<open>The first of the most urgent\<close>

lemma find_as_filter: "find P xs = (case filter P xs of [] \<Rightarrow> None | x # _ \<Rightarrow> Some x)"
  by (induction xs) auto

text \<open>Searching a stably sorted list finds the element with the least key, the earliest of those.\<close>

lemma find_sort_key:
  fixes k :: "'a \<Rightarrow> 'b::linorder"
  assumes "find P (sort_key k xs) = Some x"
  obtains i where "i < length xs" "xs ! i = x" "P x"
    "\<And>j. j < length xs \<Longrightarrow> P (xs ! j) \<Longrightarrow> j \<noteq> i \<Longrightarrow> k x < k (xs ! j) \<or> k x = k (xs ! j) \<and> i < j"
proof -
  let ?ys = "filter P xs" and ?q = "\<lambda>y. P y \<and> k y = k x"
  have "filter P (sort_key k xs) = sort_key k ?ys" by (rule filter_sort)
  with assms obtain zs where zs: "sort_key k ?ys = x # zs" by (auto simp: find_as_filter split: list.splits)
  have least: "k x \<le> k y" if "y \<in> set ?ys" for y
  proof -
    have "sorted (map k (x # zs))" by (metis sorted_sort_key zs)
    moreover have "y \<in> set (x # zs)" using that by (metis set_sort zs)
    ultimately show ?thesis by auto
  qed
  have "filter (\<lambda>y. k y = k x) ?ys = x # filter (\<lambda>y. k y = k x) zs"
    using sort_key_stable [of k "k x" ?ys] zs by simp
  then have q: "filter ?q xs = x # filter (\<lambda>y. k y = k x) zs" by (simp add: filter_filter conj_commute)
  then obtain us vs where uv: "xs = us @ x # vs" "\<forall>u \<in> set us. \<not> ?q u" "?q x" by (auto simp: filter_eq_Cons_iff)
  show ?thesis
  proof (rule that [of "length us"])
    fix j assume j: "j < length xs" "P (xs ! j)" "j \<noteq> length us"
    then have le: "k x \<le> k (xs ! j)" using least by auto
    have "length us < j" if "k x = k (xs ! j)"
    proof (rule ccontr)
      assume "\<not> length us < j"
      then have "j < length us" using j(3) by simp
      then have "xs ! j \<in> set us" using uv(1) by (simp add: nth_append)
      then show False using uv(2) j(2) that by auto
    qed
    then show "k x < k (xs ! j) \<or> k x = k (xs ! j) \<and> length us < j" using le by auto
  qed (use uv in auto)
qed

lemma find_sort_key_None: "find P (sort_key k xs) = None \<longleftrightarrow> (\<forall>x \<in> set xs. \<not> P x)"
  by (auto simp: find_None_iff)

section \<open>What compiling gives\<close>

lemma fold_result_keeps:
  assumes "fold_result f xs s = Ok s'" "I s" "\<And>x s s'. x \<in> set xs \<Longrightarrow> I s \<Longrightarrow> f x s = Ok s' \<Longrightarrow> I s'"
  shows "I s'"
  using assms by (induction xs arbitrary: s) (auto simp: bind_result_Inr_iff)

lemma wrap_error_Ok [simp]: "wrap_error text args r = Ok x \<longleftrightarrow> r = Ok x"
  by (auto simp: wrap_error_def split: sum.split)

lemma load_error_Ok [simp]: "load_error filename summary r = Ok x \<longleftrightarrow> r = Ok x"
  by (auto simp: load_error_def split: sum.split)

text \<open>The rules that take part in the evaluation of flows, and of requests.\<close>

definition ip_rule :: "RuleDecl \<Rightarrow> bool" where
  "ip_rule d \<longleftrightarrow> \<not> rd_disabled d \<and> rf_kind (hd (rd_endpoints d)) = ''ip''"

definition http_rule :: "RuleDecl \<Rightarrow> bool" where
  "http_rule d \<longleftrightarrow> \<not> rd_disabled d \<and> rf_kind (hd (rd_endpoints d)) \<noteq> ''ip''"

lemma endpointFamily_Ok:
  assumes "endpointFamily p ref = Ok family"
  shows "family = (if rf_kind ref = ''ip'' then ''ip'' else ''http'') \<and> rf_kind ref \<in> {''ip'', ''http'', ''https''}"
  using assms by (auto simp: endpointFamily_def Let_def split: if_splits)

definition same_family :: "Policy \<Rightarrow> Ref \<Rightarrow> string \<Rightarrow> msg + string" where
  "same_family p r family =
     bind_result (endpointFamily p r) (\<lambda>other.
       if other \<noteq> family then Err (msg ''all endpoints in one rule must have the same family'') else Ok family)"

lemma same_family_fold:
  assumes "fold_result (same_family p) rest family = Ok family'"
  shows "family' = family \<and> (\<forall>r \<in> set rest. endpointFamily p r = Ok family)"
  using assms by (induction rest) (auto simp: same_family_def bind_result_Inr_iff split: if_splits)

lemma validateEndpointFamily_Ok:
  assumes "validateEndpointFamily p refs = Ok family"
  shows "refs \<noteq> []" "\<forall>ref \<in> set refs. endpointFamily p ref = Ok family"
proof -
  obtain ref rest where refs: "refs = ref # rest" using assms by (cases refs) (auto simp: validateEndpointFamily_def)
  have "validateEndpointFamily p refs = bind_result (endpointFamily p ref) (fold_result (same_family p) rest)"
    unfolding refs validateEndpointFamily_def list.case same_family_def [abs_def] by (rule refl)
  then have "bind_result (endpointFamily p ref) (fold_result (same_family p) rest) = Ok family" using assms by (rule subst)
  then obtain family0 where "endpointFamily p ref = Ok family0" "fold_result (same_family p) rest family0 = Ok family"
    unfolding bind_result_Inr_iff by blast
  from this(1) same_family_fold [OF this(2)] show "refs \<noteq> []" "\<forall>ref \<in> set refs. endpointFamily p ref = Ok family"
    using refs by auto
qed

lemma rule_of_sel:
  "ru_condition (rule_of d f) = rd_condition d" "ru_disabled (rule_of d f) = rd_disabled d" "ru_endpoints (rule_of d f) = rd_endpoints d"
  "ru_priority (rule_of d f) = rd_priority d" "ru_verdict (rule_of d f) = rd_verdict d" "ru_name (rule_of d f) = rd_name d"
  "ru_reason (rule_of d f) = rd_reason d" "ru_credential (rule_of d f) = rd_credential d"
  by (simp_all add: rule_of_def)

lemma addRuleDecl_Ok:
  assumes "addRuleDecl d p = Ok p'"
  shows "p' = p\<lparr>po_ip_rules := po_ip_rules p @ (if ip_rule d then [rule_of d ''ip''] else []),
      po_http_rules := po_http_rules p @ (if http_rule d then [rule_of d ''http''] else [])\<rparr>"
    "\<forall>ref \<in> set (rd_endpoints d). rf_kind ref = ''ip'' \<longleftrightarrow> rf_kind (hd (rd_endpoints d)) = ''ip''" "rd_endpoints d \<noteq> []"
    "\<forall>ref \<in> set (rd_endpoints d). rf_kind ref \<in> {''ip'', ''http'', ''https''}"
proof -
  obtain family where family: "validateEndpointFamily p (rd_endpoints d) = Ok family"
    using assms by (auto simp: addRuleDecl_def bind_result_Inr_iff)
  note V = validateEndpointFamily_Ok [OF family]
  then have kinds: "rf_kind ref = ''ip'' \<longleftrightarrow> family = ''ip''" "family = ''ip'' \<or> family = ''http''" if "ref \<in> set (rd_endpoints d)" for ref
    using endpointFamily_Ok [of p ref family] that by (auto split: if_splits)
  have hd: "rf_kind (hd (rd_endpoints d)) = ''ip'' \<longleftrightarrow> family = ''ip''" "family = ''ip'' \<or> family = ''http''" using kinds [OF hd_in_set [OF V(1)]] by simp_all
  show "\<forall>ref \<in> set (rd_endpoints d). rf_kind ref = ''ip'' \<longleftrightarrow> rf_kind (hd (rd_endpoints d)) = ''ip''" "rd_endpoints d \<noteq> []"
    using kinds(1) hd(1) V(1) by blast+
  show "\<forall>ref \<in> set (rd_endpoints d). rf_kind ref \<in> {''ip'', ''http'', ''https''}" using V(2) endpointFamily_Ok by blast
  have "validateRuleCredential p (rule_of d family) = Ok ()"
    using assms family by (cases "validateRuleCredential p (rule_of d family)") (simp_all add: addRuleDecl_def wrap_error_def Let_def)
  then have "addRuleDecl d p =
      (if family = ''ip'' then
         if rd_condition d \<noteq> None then Err (''rule %q condition is only supported for HTTP-family endpoint rules'', [rd_name d])
         else if rd_disabled d then Ok p else Ok (p\<lparr>po_ip_rules := po_ip_rules p @ [rule_of d family]\<rparr>)
       else if rd_disabled d then Ok p else Ok (p\<lparr>po_http_rules := po_http_rules p @ [rule_of d family]\<rparr>))"
    using family hd(2) by (auto simp: addRuleDecl_def wrap_error_def Let_def rule_of_sel)
  then show "p' = p\<lparr>po_ip_rules := po_ip_rules p @ (if ip_rule d then [rule_of d ''ip''] else []),
      po_http_rules := po_http_rules p @ (if http_rule d then [rule_of d ''http''] else [])\<rparr>"
    using assms hd by (cases "family = ''ip''"; cases "rd_disabled d"; cases "rd_condition d") (auto simp: ip_rule_def http_rule_def)
qed

text \<open>All endpoints of a rule are of one family.\<close>

definition one_family :: "RuleDecl \<Rightarrow> bool" where
  "one_family d \<longleftrightarrow>
     rd_endpoints d \<noteq> [] \<and> (\<forall>ref \<in> set (rd_endpoints d). rf_kind ref \<in> {''ip'', ''http'', ''https''} \<and>
       (rf_kind ref = ''ip'' \<longleftrightarrow> rf_kind (hd (rd_endpoints d)) = ''ip''))"

lemma compile_rules_Ok:
  assumes "fold_result addRuleDecl ds p = Ok p'"
  shows "p' = p\<lparr>po_ip_rules := po_ip_rules p @ map (\<lambda>d. rule_of d ''ip'') (filter ip_rule ds),
      po_http_rules := po_http_rules p @ map (\<lambda>d. rule_of d ''http'') (filter http_rule ds)\<rparr>" "list_all one_family ds"
  using assms
proof (induction ds arbitrary: p)
  case (Cons d ds)
  {
    case 1
    then obtain q where q: "addRuleDecl d p = Ok q" "fold_result addRuleDecl ds q = Ok p'" by (auto simp: bind_result_Inr_iff)
    show ?case unfolding Cons.IH(1) [OF q(2)] unfolding addRuleDecl_Ok(1) [OF q(1)] by simp
  next
    case 2
    then obtain q where q: "addRuleDecl d p = Ok q" "fold_result addRuleDecl ds q = Ok p'" by (auto simp: bind_result_Inr_iff)
    have "one_family d" unfolding one_family_def using addRuleDecl_Ok(2-) [OF q(1)] by blast
    then show ?case using Cons.IH(2) [OF q(2)] by simp
  }
qed simp_all

text \<open>The endpoints of one kind, and that every exact binding belongs to one endpoint of its transport.\<close>

definition endpoints_wf :: "string \<Rightarrow> string \<Rightarrow> (string \<times> HTTPEndpoint) list \<Rightarrow> bool" where
  "endpoints_wf kind transport es \<longleftrightarrow>
     distinct (map fst es) \<and>
     (\<forall>(k, e) \<in> set es. he_kind e = kind \<and> he_transport e = transport \<and> k = Ref_String (endpoint_ref e))"

definition exact_key :: "HTTPEndpoint \<Rightarrow> Binding \<Rightarrow> string" where
  "exact_key e b = hostBindingKey (he_transport e) (bi_host b) (bi_port b) False"

definition owns_exact :: "(string \<times> Ref) list \<Rightarrow> HTTPEndpoint \<Rightarrow> bool" where
  "owns_exact table e \<longleftrightarrow> (\<forall>b \<in> set (he_hosts e). \<not> bi_wildcard b \<longrightarrow> map_of table (exact_key e b) = Some (endpoint_ref e))"

definition credentials_wf :: "(string \<times> Credential list) list \<Rightarrow> bool" where
  "credentials_wf m \<longleftrightarrow> (\<forall>(k, cs) \<in> set m. \<forall>c \<in> set cs. rf_kind (ce_endpoint c) = ''https'' \<and> Ref_String (ce_endpoint c) = k)"

definition policy_wf :: "Policy \<Rightarrow> bool" where
  "policy_wf p \<longleftrightarrow>
     (\<forall>(k, e) \<in> set (po_ip_endpoints p). \<exists>n. k = ''ip.'' @ n) \<and>
     endpoints_wf ''http'' ''http-proxy'' (po_http_endpoints p) \<and> endpoints_wf ''https'' ''https-mitm'' (po_https_endpoints p) \<and>
     (\<forall>e \<in> set (map snd (po_http_endpoints p @ po_https_endpoints p)). owns_exact (po_exact_http_bindings p) e) \<and>
     credentials_wf (po_credentials_by_endpoint p)"

lemma add_exact_binding_Ok:
  assumes "add_exact_binding e b p = Ok p'"
  shows "\<exists>table. p' = p\<lparr>po_exact_http_bindings := table\<rparr> \<and> map_of (po_exact_http_bindings p) \<subseteq>\<^sub>m map_of table \<and>
    (\<not> bi_wildcard b \<longrightarrow> map_of table (exact_key e b) = Some (endpoint_ref e))"
proof (cases "bi_wildcard b")
  case True
  then show ?thesis using assms by (intro exI [of _ "po_exact_http_bindings p"]) (simp add: add_exact_binding_def)
next
  case False
  with assms have new: "map_of (po_exact_http_bindings p) (exact_key e b) = None"
    and p': "p' = p\<lparr>po_exact_http_bindings := po_exact_http_bindings p @ [(exact_key e b, endpoint_ref e)]\<rparr>"
    by (auto simp: add_exact_binding_def exact_key_def Let_def split: option.splits)
  show ?thesis unfolding p'
    by (rule exI [of _ "po_exact_http_bindings p @ [(exact_key e b, endpoint_ref e)]"])
      (use new in \<open>auto simp: map_le_def map_add_def split: option.splits\<close>)
qed

lemma addHTTPEndpoint_Ok:
  assumes "addHTTPEndpoint e p = Ok p'"
  shows "\<exists>table. p' = p\<lparr>po_exact_http_bindings := table\<rparr> \<and> map_of (po_exact_http_bindings p) \<subseteq>\<^sub>m map_of table \<and> owns_exact table e"
proof -
  have "\<exists>table. p' = p\<lparr>po_exact_http_bindings := table\<rparr> \<and> map_of (po_exact_http_bindings p) \<subseteq>\<^sub>m map_of table \<and>
      (\<forall>b \<in> set bs. \<not> bi_wildcard b \<longrightarrow> map_of table (exact_key e b) = Some (endpoint_ref e))"
    if "fold_result (add_exact_binding e) bs p = Ok p'" for bs
    using that
  proof (induction bs arbitrary: p)
    case Nil
    then show ?case by (intro exI [of _ "po_exact_http_bindings p"]) simp
  next
    case (Cons b bs)
    then obtain q where q: "add_exact_binding e b p = Ok q" "fold_result (add_exact_binding e) bs q = Ok p'" by (auto simp: bind_result_Inr_iff)
    obtain t where t: "q = p\<lparr>po_exact_http_bindings := t\<rparr>" "map_of (po_exact_http_bindings p) \<subseteq>\<^sub>m map_of t"
      "\<not> bi_wildcard b \<longrightarrow> map_of t (exact_key e b) = Some (endpoint_ref e)"
      using add_exact_binding_Ok [OF q(1)] by blast
    obtain u where u: "p' = q\<lparr>po_exact_http_bindings := u\<rparr>" "map_of (po_exact_http_bindings q) \<subseteq>\<^sub>m map_of u"
      "\<forall>b \<in> set bs. \<not> bi_wildcard b \<longrightarrow> map_of u (exact_key e b) = Some (endpoint_ref e)"
      using Cons.IH [OF q(2)] by blast
    have tu: "map_of t \<subseteq>\<^sub>m map_of u" using u(2) t(1) by simp
    have "map_of u (exact_key e b) = Some (endpoint_ref e)" if "\<not> bi_wildcard b"
      using that t(3) tu by (auto simp: map_le_def dom_def)
    then show ?case using t(1,2) u(1,3) tu by (intro exI [of _ u]) (auto intro: map_le_trans)
  qed
  then show ?thesis using assms unfolding addHTTPEndpoint_def owns_exact_def by blast
qed

lemma owns_exact_mono: "owns_exact t e \<Longrightarrow> map_of t \<subseteq>\<^sub>m map_of u \<Longrightarrow> owns_exact u e"
  by (auto simp: owns_exact_def map_le_def dom_def)

lemma compile_http_Ok:
  assumes "compile_http go decl transport port p = Ok (e, p')"
  shows "he_kind e = ed_kind decl \<and> he_name e = ed_name decl \<and> he_transport e = transport"
    "\<exists>table. p' = p\<lparr>po_exact_http_bindings := table\<rparr> \<and> map_of (po_exact_http_bindings p) \<subseteq>\<^sub>m map_of table \<and> owns_exact table e"
proof -
  from assms have c: "compileHTTPEndpointDecl go (ed_kind decl) (ed_name decl) transport port (ed_hosts decl) = Ok e" "addHTTPEndpoint e p = Ok p'"
    by (auto simp: compile_http_def Let_def bind_result_Inr_iff)
  show "he_kind e = ed_kind decl \<and> he_name e = ed_name decl \<and> he_transport e = transport"
    using c(1) by (auto simp: compileHTTPEndpointDecl_def bind_result_Inr_iff split: if_splits)
  show "\<exists>table. p' = p\<lparr>po_exact_http_bindings := table\<rparr> \<and> map_of (po_exact_http_bindings p) \<subseteq>\<^sub>m map_of table \<and> owns_exact table e"
    by (rule addHTTPEndpoint_Ok [OF c(2)])
qed

text \<open>An endpoint of either HTTP kind, put into the table \<open>es\<close> of its kind.\<close>

lemma endpoints_wf_snoc:
  assumes "endpoints_wf kind transport es" "map_of es key = None" "key = Ref_String \<lparr>rf_kind = kind, rf_name = he_name e\<rparr>"
    "he_kind e = kind" "he_transport e = transport"
  shows "endpoints_wf kind transport (es @ [(key, e)])"
  using assms by (auto simp: endpoints_wf_def endpoint_ref_def map_of_eq_None_iff)

lemma addEndpointDecl_Ok:
  assumes "addEndpointDecl go decl p = Ok p'" "policy_wf p"
  shows "policy_wf p'" "po_ip_rules p' = po_ip_rules p" "po_http_rules p' = po_http_rules p"
    "po_default_action p' = po_default_action p" "po_native p' = po_native p"
proof -
  let ?key = "Ref_String \<lparr>rf_kind = ed_kind decl, rf_name = ed_name decl\<rparr>"
  let ?same = "\<lambda>q. po_ip_rules q = po_ip_rules p \<and> po_http_rules q = po_http_rules p \<and> po_default_action q = po_default_action p \<and>
    po_native q = po_native p"
  note decl = assms(1) [unfolded addEndpointDecl_def Let_def]
  have "ed_kind decl = ''ip'' \<or> ed_kind decl = ''http'' \<or> ed_kind decl = ''https''" using decl by (auto split: if_splits)
  then consider (ip) "ed_kind decl = ''ip''" | (http) "ed_kind decl = ''http''" | (https) "ed_kind decl = ''https''" by blast
  then have "policy_wf p' \<and> ?same p'"
  proof cases
    case ip
    then obtain e where "p' = p\<lparr>po_ip_endpoints := po_ip_endpoints p @ [(?key, e)]\<rparr>"
      using decl by (auto simp: bind_result_Inr_iff split: if_splits)
    then show ?thesis using assms(2) ip by (auto simp: policy_wf_def Ref_String_def)
  next
    case http
    then obtain e q where e: "compile_http go decl ''http-proxy'' 80 p = Ok (e, q)" "map_of (po_http_endpoints p) ?key = None"
      and p': "p' = q\<lparr>po_http_endpoints := po_http_endpoints q @ [(?key, e)]\<rparr>"
      using decl by (auto simp: bind_result_Inr_iff split: if_splits)
    note E = compile_http_Ok [OF e(1)]
    then obtain t where t: "q = p\<lparr>po_exact_http_bindings := t\<rparr>" "map_of (po_exact_http_bindings p) \<subseteq>\<^sub>m map_of t" "owns_exact t e" by blast
    have "endpoints_wf ''http'' ''http-proxy'' (po_http_endpoints p @ [(?key, e)])"
      by (rule endpoints_wf_snoc) (use assms(2) e(2) E(1) http in \<open>auto simp: policy_wf_def\<close>)
    then show ?thesis using assms(2) t(3) owns_exact_mono [OF _ t(2)] unfolding p' t(1) by (auto simp: policy_wf_def)
  next
    case https
    then obtain e q where e: "compile_http go decl ''https-mitm'' 443 p = Ok (e, q)" "map_of (po_https_endpoints p) ?key = None"
      and p': "p' = q\<lparr>po_https_endpoints := po_https_endpoints q @ [(?key, e)]\<rparr>"
      using decl by (auto simp: bind_result_Inr_iff split: if_splits)
    note E = compile_http_Ok [OF e(1)]
    then obtain t where t: "q = p\<lparr>po_exact_http_bindings := t\<rparr>" "map_of (po_exact_http_bindings p) \<subseteq>\<^sub>m map_of t" "owns_exact t e" by blast
    have "endpoints_wf ''https'' ''https-mitm'' (po_https_endpoints p @ [(?key, e)])"
      by (rule endpoints_wf_snoc) (use assms(2) e(2) E(1) https in \<open>auto simp: policy_wf_def\<close>)
    then show ?thesis using assms(2) t(3) owns_exact_mono [OF _ t(2)] unfolding p' t(1) by (auto simp: policy_wf_def)
  qed
  then show "policy_wf p'" "po_ip_rules p' = po_ip_rules p" "po_http_rules p' = po_http_rules p"
    "po_default_action p' = po_default_action p" "po_native p' = po_native p" by blast+
qed

lemma append_credential_wf:
  assumes "credentials_wf m" "rf_kind (ce_endpoint c) = ''https''" "Ref_String (ce_endpoint c) = key"
  shows "credentials_wf (append_credential key c m)"
proof -
  have "rf_kind (ce_endpoint x) = ''https'' \<and> Ref_String (ce_endpoint x) = k"
    if entry: "(k, xs) \<in> set (append_credential key c m)" and x: "x \<in> set xs" for k xs x
  proof (cases "x = c \<and> k = key")
    case False
    with entry x obtain ys where "(k, ys) \<in> set m" "x \<in> set ys"
      by (auto simp: append_credential_def split: if_splits)
    then show ?thesis using assms(1) by (auto simp: credentials_wf_def)
  qed (use assms in simp)
  then show ?thesis unfolding credentials_wf_def by blast
qed

lemma addCredentialDecl_Ok:
  assumes "addCredentialDecl decl p = Ok p'" "policy_wf p"
  shows "policy_wf p' \<and> po_ip_rules p' = po_ip_rules p \<and> po_http_rules p' = po_http_rules p \<and>
    po_default_action p' = po_default_action p \<and> po_native p' = po_native p"
proof -
  obtain m c where "p' = p\<lparr>po_credentials := m, po_credentials_by_endpoint :=
      append_credential (Ref_String (kd_endpoint decl)) c (po_credentials_by_endpoint p)\<rparr>"
    "ce_endpoint c = kd_endpoint decl" "rf_kind (kd_endpoint decl) = ''https''"
    using assms(1) by (auto simp: addCredentialDecl_def Let_def split: if_splits)
  then show ?thesis using assms(2) append_credential_wf [of "po_credentials_by_endpoint p" c] by (auto simp: policy_wf_def)
qed

text \<open>The compiled policy in terms of the declarations: the enabled rules of each family, in the order of the documents.\<close>

definition all_rules :: "policySnapshot \<Rightarrow> RuleDecl list" where
  "all_rules snapshot = concat (map do_rules (ps_documents snapshot))"

lemma compile_document_Ok:
  assumes "compile_document go filename document p = Ok p'" "policy_wf p"
  shows "policy_wf p'" "po_ip_rules p' = po_ip_rules p @ map (\<lambda>d. rule_of d ''ip'') (filter ip_rule (do_rules document))"
    "po_http_rules p' = po_http_rules p @ map (\<lambda>d. rule_of d ''http'') (filter http_rule (do_rules document))"
    "list_all one_family (do_rules document)" "po_native p' = po_native p" "po_default_action p' = do_default_action document"
proof -
  let ?p0 = "p\<lparr>po_default_action := do_default_action document\<rparr>"
  let ?I = "\<lambda>q. policy_wf q \<and> po_ip_rules q = po_ip_rules p \<and> po_http_rules q = po_http_rules p \<and>
    po_default_action q = do_default_action document \<and> po_native q = po_native p"
  obtain p1 p2 where steps: "fold_result (addEndpointDecl go) (do_endpoints document) ?p0 = Ok p1"
    "fold_result addCredentialDecl (do_credentials document) p1 = Ok p2" "fold_result addRuleDecl (do_rules document) p2 = Ok p'"
    using assms(1) by (auto simp: compile_document_def bind_result_Inr_iff)
  have "?I ?p0" using assms(2) by (simp add: policy_wf_def)
  with steps(1) have "?I p1" by (rule fold_result_keeps) (use addEndpointDecl_Ok in auto)
  with steps(2) have I: "?I p2" by (rule fold_result_keeps) (use addCredentialDecl_Ok in auto)
  note R = compile_rules_Ok [OF steps(3)]
  show "policy_wf p'" "po_ip_rules p' = po_ip_rules p @ map (\<lambda>d. rule_of d ''ip'') (filter ip_rule (do_rules document))"
    "po_http_rules p' = po_http_rules p @ map (\<lambda>d. rule_of d ''http'') (filter http_rule (do_rules document))"
    "po_native p' = po_native p" "po_default_action p' = do_default_action document"
    using I unfolding R(1) by (simp_all add: policy_wf_def)
  show "list_all one_family (do_rules document)" by (rule R(2))
qed

lemma compile_documents_Ok:
  assumes "fold_result (compile_document go filename) docs p = Ok p'" "policy_wf p"
  shows "policy_wf p'" "po_ip_rules p' = po_ip_rules p @ map (\<lambda>d. rule_of d ''ip'') (filter ip_rule (concat (map do_rules docs)))"
    "po_http_rules p' = po_http_rules p @ map (\<lambda>d. rule_of d ''http'') (filter http_rule (concat (map do_rules docs)))"
    "list_all one_family (concat (map do_rules docs))" "po_native p' = po_native p"
    "docs \<noteq> [] \<Longrightarrow> po_default_action p' = do_default_action (last docs)"
proof -
  have "policy_wf p' \<and> po_ip_rules p' = po_ip_rules p @ map (\<lambda>d. rule_of d ''ip'') (filter ip_rule (concat (map do_rules docs))) \<and>
    po_http_rules p' = po_http_rules p @ map (\<lambda>d. rule_of d ''http'') (filter http_rule (concat (map do_rules docs))) \<and>
    list_all one_family (concat (map do_rules docs)) \<and> po_native p' = po_native p \<and>
    po_default_action p' = (if docs = [] then po_default_action p else do_default_action (last docs))"
    using assms
  proof (induction docs arbitrary: p)
    case (Cons document docs)
    then obtain q where q: "compile_document go filename document p = Ok q" "fold_result (compile_document go filename) docs q = Ok p'"
      by (auto simp: bind_result_Inr_iff)
    note D = compile_document_Ok [OF q(1) Cons.prems(2)]
    from Cons.IH [OF q(2) D(1)] D(2-) show ?case by simp
  qed simp
  then show "policy_wf p'" "po_ip_rules p' = po_ip_rules p @ map (\<lambda>d. rule_of d ''ip'') (filter ip_rule (concat (map do_rules docs)))"
    "po_http_rules p' = po_http_rules p @ map (\<lambda>d. rule_of d ''http'') (filter http_rule (concat (map do_rules docs)))"
    "list_all one_family (concat (map do_rules docs))" "po_native p' = po_native p"
    "docs \<noteq> [] \<Longrightarrow> po_default_action p' = do_default_action (last docs)" by simp_all
qed

lemma compileSnapshot_Ok:
  assumes "compileSnapshot go filename snapshot = Ok p"
  shows "policy_wf p" "po_ip_rules p = sort_rules (map (\<lambda>d. rule_of d ''ip'') (filter ip_rule (all_rules snapshot)))"
    "po_http_rules p = sort_rules (map (\<lambda>d. rule_of d ''http'') (filter http_rule (all_rules snapshot)))"
    "list_all one_family (all_rules snapshot)" "po_native p"
    "po_default_action p = (if ps_documents snapshot = [] then ActionAllow else do_default_action (last (ps_documents snapshot)))"
proof -
  let ?p0 = "newPolicy\<lparr>po_native := True, po_policy_hash := ps_policy_hash snapshot\<rparr>"
  have wf: "policy_wf ?p0" by (simp add: policy_wf_def newPolicy_def endpoints_wf_def credentials_wf_def)
  have empty: "po_ip_rules ?p0 = []" "po_http_rules ?p0 = []" "po_native ?p0" "po_default_action ?p0 = ActionAllow" by (simp_all add: newPolicy_def)
  have "\<exists>q. fold_result (compile_document go filename) (ps_documents snapshot) ?p0 = Ok q \<and>
      (if ps_documents snapshot = [] then p = q else p = sortRules q)"
    using assms by (auto simp: compileSnapshot_def Let_def bind_result_Inr_iff split: if_splits)
  then obtain q where q: "fold_result (compile_document go filename) (ps_documents snapshot) ?p0 = Ok q"
    "if ps_documents snapshot = [] then p = q else p = sortRules q" by blast
  note C = compile_documents_Ok [OF q(1) wf, unfolded empty append_Nil]
  show "policy_wf p" using C(1) q(2) by (auto simp: sortRules_def policy_wf_def split: if_splits)
  show "po_ip_rules p = sort_rules (map (\<lambda>d. rule_of d ''ip'') (filter ip_rule (all_rules snapshot)))"
    "po_http_rules p = sort_rules (map (\<lambda>d. rule_of d ''http'') (filter http_rule (all_rules snapshot)))"
    "po_native p" using C(2,3,5) q(2) by (auto simp: sortRules_def all_rules_def sort_rules_def empty split: if_splits)
  show "list_all one_family (all_rules snapshot)" using C(4) by (simp add: all_rules_def)
  show "po_default_action p = (if ps_documents snapshot = [] then ActionAllow else do_default_action (last (ps_documents snapshot)))"
    using C(6) q by (auto simp: sortRules_def empty split: if_splits)
qed

section \<open>Flows\<close>

lemma sort_key_map: "sort_key k (map f xs) = map f (sort_key (k \<circ> f) xs)"
proof -
  have "insort_key k (f x) (map f ys) = map f (insort_key (k \<circ> f) x ys)" for x ys
    by (induction ys) auto
  then show ?thesis by (induction xs) simp_all
qed

lemma find_map_filter: "find P (map f (filter Q xs)) = map_option f (find (\<lambda>x. Q x \<and> P (f x)) xs)"
  by (induction xs) auto

lemma find_rule:
  "find P (sort_rules (map (\<lambda>d. rule_of d family) (filter Q ds))) =
     map_option (\<lambda>d. rule_of d family) (find (\<lambda>d. Q d \<and> P (rule_of d family)) (sort_key (\<lambda>d. - rd_priority d) ds))"
  by (simp add: sort_rules_def sort_key_map comp_def rule_of_sel filter_sort [symmetric] find_map_filter)

lemma evaluate_ip_rules_find:
  "evaluate_ip_rules p flow rules =
     (case find (\<lambda>r. matchIPRule p r flow \<noteq> None) rules of
        None \<Rightarrow> evaluate_ip_rules p flow []
      | Some r \<Rightarrow> evaluate_ip_rules p flow [r])"
  by (induction rules) (auto split: option.split)

text \<open>A declared rule matches a flow when one of its endpoints does.\<close>

definition decl_matches :: "Policy \<Rightarrow> Flow \<Rightarrow> RuleDecl \<Rightarrow> bool" where
  "decl_matches p flow d \<longleftrightarrow>
     (\<exists>ref \<in> set (rd_endpoints d). \<exists>e. map_of (po_ip_endpoints p) (Ref_String ref) = Some e \<and> IPEndpoint_match e flow \<noteq> None)"

lemma matchIPRule_iff: "matchIPRule p (rule_of d family) flow \<noteq> None \<longleftrightarrow> decl_matches p flow d"
proof -
  have "matchIPRule_refs p refs flow \<noteq> None \<longleftrightarrow>
      (\<exists>ref \<in> set refs. \<exists>e. map_of (po_ip_endpoints p) (Ref_String ref) = Some e \<and> IPEndpoint_match e flow \<noteq> None)" for refs
    by (induction refs) (auto split: option.splits)
  then show ?thesis by (simp add: matchIPRule_def decl_matches_def rule_of_sel)
qed

lemma http_rules_match_no_flow:
  assumes "policy_wf p" "one_family d" "decl_matches p flow d"
  shows "rf_kind (hd (rd_endpoints d)) = ''ip''"
proof -
  obtain ref e where r: "ref \<in> set (rd_endpoints d)" "map_of (po_ip_endpoints p) (Ref_String ref) = Some e"
    using assms(3) by (auto simp: decl_matches_def)
  obtain n where n: "Ref_String ref = ''ip.'' @ n" using assms(1) map_of_SomeD [OF r(2)] unfolding policy_wf_def by blast
  have "rf_kind ref \<in> {''ip'', ''http'', ''https''}" "rf_kind ref = ''ip'' \<longleftrightarrow> rf_kind (hd (rd_endpoints d)) = ''ip''"
    using assms(2) r(1) unfolding one_family_def by blast+
  moreover have "rf_kind ref \<noteq> ''http''" "rf_kind ref \<noteq> ''https''" using n by (auto simp: Ref_String_def)
  ultimately show ?thesis by blast
qed

text \<open>The rules that speak about a flow, by their position in the documents.\<close>

definition speaks_to :: "Policy \<Rightarrow> RuleDecl list \<Rightarrow> Flow \<Rightarrow> nat \<Rightarrow> bool" where
  "speaks_to p ds flow i \<longleftrightarrow> i < length ds \<and> \<not> rd_disabled (ds ! i) \<and> decl_matches p flow (ds ! i)"

text \<open>
  C11: A flow is decided by the enabled rule that matches it with the highest priority, the first in the
  documents among equal ones; when no rule matches, by the default action of the policy.  A flow is offered to
  classification only where the policy has an HTTP binding on its port, and not when a rule denied it.  A denial by
  default leaves classification open: the host, once read from the connection, may still be allowed.
\<close>

theorem flow_verdict:
  assumes "compileSnapshot go filename snapshot = Ok p"
  shows "(\<exists>i. speaks_to p (all_rules snapshot) flow i \<and>
      (\<forall>j. speaks_to p (all_rules snapshot) flow j \<and> j \<noteq> i \<longrightarrow>
        rd_priority (all_rules snapshot ! j) < rd_priority (all_rules snapshot ! i) \<or>
        rd_priority (all_rules snapshot ! j) = rd_priority (all_rules snapshot ! i) \<and> i < j) \<and>
      dc_source (EvaluateFlow (Some p) flow) = ''rule'' \<and>
      dc_rule_name (EvaluateFlow (Some p) flow) = rd_name (all_rules snapshot ! i) \<and>
      dc_action (EvaluateFlow (Some p) flow) = rd_verdict (all_rules snapshot ! i) \<and>
      (dc_classification_opportunity (EvaluateFlow (Some p) flow) \<longleftrightarrow>
        rd_verdict (all_rules snapshot ! i) = ActionAllow \<and> CanClassify p flow)) \<or>
    (\<forall>i. \<not> speaks_to p (all_rules snapshot) flow i) \<and>
      dc_source (EvaluateFlow (Some p) flow) = ''default'' \<and>
      dc_action (EvaluateFlow (Some p) flow) = po_default_action p \<and>
      (dc_classification_opportunity (EvaluateFlow (Some p) flow) \<longleftrightarrow> CanClassify p flow)"
proof -
  let ?ds = "all_rules snapshot"
  note C = compileSnapshot_Ok [OF assms]
  have ip: "ip_rule d \<and> decl_matches p flow d \<longleftrightarrow> \<not> rd_disabled d \<and> decl_matches p flow d" if "d \<in> set ?ds" for d
    using http_rules_match_no_flow [OF C(1), of d flow] that C(4) by (auto simp: ip_rule_def list_all_iff)
  let ?find = "find (\<lambda>d. ip_rule d \<and> decl_matches p flow d) (sort_key (\<lambda>d. - rd_priority d) ?ds)"
  have eval: "EvaluateFlow (Some p) flow =
      (case map_option (\<lambda>d. rule_of d ''ip'') ?find of None \<Rightarrow> evaluate_ip_rules p flow [] | Some r \<Rightarrow> evaluate_ip_rules p flow [r])"
    unfolding EvaluateFlow_def option.case C(2) by (subst evaluate_ip_rules_find) (simp only: find_rule matchIPRule_iff)
  show ?thesis
  proof (cases ?find)
    case None
    then have "\<not> speaks_to p ?ds flow i" for i using ip by (auto simp: find_sort_key_None speaks_to_def)
    moreover have "EvaluateFlow (Some p) flow = evaluate_ip_rules p flow []" unfolding eval None by simp
    ultimately show ?thesis by (simp add: zero_decision_def)
  next
    case (Some d)
    obtain i where i: "i < length ?ds" "?ds ! i = d" "ip_rule d \<and> decl_matches p flow d"
      and least: "\<And>j. j < length ?ds \<Longrightarrow> ip_rule (?ds ! j) \<and> decl_matches p flow (?ds ! j) \<Longrightarrow> j \<noteq> i \<Longrightarrow>
        - rd_priority d < - rd_priority (?ds ! j) \<or> - rd_priority d = - rd_priority (?ds ! j) \<and> i < j"
      using find_sort_key [OF Some] by metis
    have "EvaluateFlow (Some p) flow = evaluate_ip_rules p flow [rule_of d ''ip'']" unfolding eval Some by simp
    then have dec: "dc_source (EvaluateFlow (Some p) flow) = ''rule''" "dc_rule_name (EvaluateFlow (Some p) flow) = rd_name d"
      "dc_action (EvaluateFlow (Some p) flow) = rd_verdict d"
      "dc_classification_opportunity (EvaluateFlow (Some p) flow) \<longleftrightarrow> rd_verdict d = ActionAllow \<and> CanClassify p flow"
      using i(3) matchIPRule_iff [of p d "''ip''" flow] by (auto simp: rule_of_sel zero_decision_def)
    have "speaks_to p ?ds flow i" using i ip [of d] nth_mem [OF i(1)] by (auto simp: speaks_to_def)
    moreover have "rd_priority (?ds ! j) < rd_priority (?ds ! i) \<or> rd_priority (?ds ! j) = rd_priority (?ds ! i) \<and> i < j"
      if "speaks_to p ?ds flow j" "j \<noteq> i" for j
      using least [of j] that ip [of "?ds ! j"] i(2) by (auto simp: speaks_to_def)
    ultimately show ?thesis using dec i(2) by blast
  qed
qed

section \<open>Hosts\<close>

definition permutes_maps :: "map_order \<Rightarrow> bool" where
  "permutes_maps ord \<longleftrightarrow> (\<forall>xs. mset (ord xs) = mset xs)"

lemma permutes_set [simp]: "permutes_maps ord \<Longrightarrow> set (ord xs) = set xs"
  by (metis permutes_maps_def set_mset_mset)

lemma set_endpoint_bindings [simp]: "(e, b) \<in> set (endpoint_bindings es) \<longleftrightarrow> e \<in> set es \<and> b \<in> set (he_hosts e)"
  by (auto simp: endpoint_bindings_def)

text \<open>The search for a binding: an exact one if there is one, and otherwise a wildcard of the greatest length.\<close>

definition exact_match :: "Authority \<Rightarrow> HTTPEndpoint \<times> Binding \<Rightarrow> bool" where
  "exact_match a eb \<longleftrightarrow> Binding_Matches (snd eb) a \<and> \<not> bi_wildcard (snd eb)"

definition wildcard_match :: "Authority \<Rightarrow> HTTPEndpoint \<times> Binding \<Rightarrow> bool" where
  "wildcard_match a eb \<longleftrightarrow> Binding_Matches (snd eb) a \<and> bi_wildcard (snd eb)"

lemma scan_exact:
  assumes "\<exists>eb \<in> set ebs. exact_match a eb"
  shows "\<exists>(e, b) \<in> set ebs. exact_match a (e, b) \<and> scan_bindings a ebs w = Some e"
  using assms
proof (induction ebs arbitrary: w)
  case (Cons eb ebs)
  obtain e b where eb: "eb = (e, b)" by fastforce
  show ?case
  proof (cases "exact_match a eb")
    case True
    then show ?thesis by (intro bexI [of _ eb]) (auto simp: eb exact_match_def)
  next
    case False
    then have "\<exists>eb \<in> set ebs. exact_match a eb" using Cons.prems by auto
    from Cons.IH [OF this] False show ?thesis by (fastforce simp: eb exact_match_def Let_def)
  qed
qed simp

lemma scan_wildcard:
  assumes "\<not> (\<exists>eb \<in> set ebs. exact_match a eb)" "scan_bindings a ebs w = Some e"
  shows "\<exists>l. (w = Some (e, l) \<or> (\<exists>b. (e, b) \<in> set ebs \<and> wildcard_match a (e, b) \<and> length (bi_host b) = l)) \<and>
    (\<forall>(e', b') \<in> set ebs. wildcard_match a (e', b') \<longrightarrow> length (bi_host b') \<le> l) \<and> (\<forall>e' l'. w = Some (e', l') \<longrightarrow> l' \<le> l)"
  using assms
proof (induction ebs arbitrary: w)
  case Nil
  then show ?case by auto
next
  case (Cons eb ebs)
  obtain f b where eb: "eb = (f, b)" by fastforce
  have rest: "\<not> (\<exists>eb \<in> set ebs. exact_match a eb)" and b: "Binding_Matches b a \<Longrightarrow> bi_wildcard b"
    using Cons.prems(1) by (auto simp: eb exact_match_def)
  let ?w = "if Binding_Matches b a \<and> (w = None \<or> length (bi_host b) > snd (the w)) then Some (f, length (bi_host b)) else w"
  have "scan_bindings a ebs ?w = Some e" using Cons.prems(2) b by (auto simp: eb Let_def split: if_splits)
  from Cons.IH [OF rest this] obtain l where
    l: "?w = Some (e, l) \<or> (\<exists>b. (e, b) \<in> set ebs \<and> wildcard_match a (e, b) \<and> length (bi_host b) = l)"
    "\<forall>(e', b') \<in> set ebs. wildcard_match a (e', b') \<longrightarrow> length (bi_host b') \<le> l" "\<forall>e' l'. ?w = Some (e', l') \<longrightarrow> l' \<le> l" by blast
  have "w = Some (e, l) \<or> (\<exists>b'. (e, b') \<in> set (eb # ebs) \<and> wildcard_match a (e, b') \<and> length (bi_host b') = l)"
    using l(1) b by (auto simp: eb wildcard_match_def split: if_splits)
  moreover have "length (bi_host b) \<le> l" if "wildcard_match a eb"
    using l(3) that by (cases w) (auto simp: eb wildcard_match_def split: if_splits)
  moreover have "l' \<le> l" if "w = Some (e', l')" for e' l' using l(3) that by (auto split: if_splits)
  ultimately show ?case using l(2) by (intro exI [of _ l]) (auto simp: eb)
qed

lemma scan_None:
  assumes "scan_bindings a ebs w = None"
  shows "w = None \<and> (\<forall>eb \<in> set ebs. \<not> Binding_Matches (snd eb) a)"
  using assms
proof (induction ebs arbitrary: w)
  case (Cons eb ebs)
  obtain e b where eb: "eb = (e, b)" by fastforce
  have "\<not> Binding_Matches b a"
  proof
    assume "Binding_Matches b a"
    then obtain x where "scan_bindings a ebs (Some x) = None" using Cons.prems by (cases w) (auto simp: eb Let_def split: if_splits)
    then show False using Cons.IH by blast
  qed
  then show ?case using Cons by (auto simp: eb)
qed simp

lemma scan_in:
  assumes "scan_bindings a ebs None = Some e"
  shows "\<exists>b. (e, b) \<in> set ebs \<and> Binding_Matches b a"
proof (cases "\<exists>eb \<in> set ebs. exact_match a eb")
  case True
  then show ?thesis using scan_exact [OF True, of None] assms by (auto simp: exact_match_def)
next
  case False
  then show ?thesis using scan_wildcard [OF False assms] by (auto simp: wildcard_match_def)
qed

definition family_transport :: "string \<Rightarrow> string" where
  "family_transport kind = (if kind = ''http'' then ''http-proxy'' else ''https-mitm'')"

lemma family_wf:
  assumes "policy_wf p" "kind \<in> {''http'', ''https''}"
  shows "endpoints_wf kind (family_transport kind) (httpFamilyEndpoints p kind)"
    "\<forall>e \<in> set (map snd (httpFamilyEndpoints p kind)). owns_exact (po_exact_http_bindings p) e"
  using assms by (auto simp: policy_wf_def httpFamilyEndpoints_def family_transport_def)

lemma endpoints_wfD:
  assumes "endpoints_wf kind transport es" "(k, e) \<in> set es"
  shows "he_kind e = kind" "he_transport e = transport" "k = Ref_String (endpoint_ref e)"
  using assms unfolding endpoints_wf_def by blast+

lemma endpoints_wf_snd:
  assumes "endpoints_wf kind transport es" "e \<in> set (map snd es)"
  shows "he_kind e = kind" "he_transport e = transport"
  using assms endpoints_wfD [OF assms(1)] by auto

lemma endpoints_wf_inj:
  assumes "endpoints_wf kind transport es" "e \<in> set (map snd es)" "e' \<in> set (map snd es)" "endpoint_ref e = endpoint_ref e'"
  shows "e = e'"
proof -
  obtain k k' where k: "(k, e) \<in> set es" "(k', e') \<in> set es" using assms(2,3) by auto
  then have "k = k'" using endpoints_wfD(3) [OF assms(1)] assms(4) by metis
  moreover have "distinct (map fst es)" using assms(1) by (simp add: endpoints_wf_def)
  ultimately show ?thesis using k by (metis eq_key_imp_eq_value)
qed

lemma exact_unique:
  assumes wf: "policy_wf p" and kind: "kind \<in> {''http'', ''https''}"
    and e: "e \<in> set (map snd (httpFamilyEndpoints p kind))" "b \<in> set (he_hosts e)" "exact_match a (e, b)"
    and e': "e' \<in> set (map snd (httpFamilyEndpoints p kind))" "b' \<in> set (he_hosts e')" "exact_match a (e', b')"
  shows "e = e'"
proof -
  note F = family_wf [OF wf kind]
  have "he_transport e = he_transport e'" using endpoints_wf_snd(2) [OF F(1)] e(1) e'(1) by simp
  moreover have "bi_host b = bi_host b'" "bi_port b = bi_port b'" using e(3) e'(3) by (auto simp: exact_match_def Binding_Matches_def split: if_splits)
  ultimately have key: "exact_key e b = exact_key e' b'" by (simp add: exact_key_def)
  have "map_of (po_exact_http_bindings p) (exact_key e b) = Some (endpoint_ref e)"
    "map_of (po_exact_http_bindings p) (exact_key e' b') = Some (endpoint_ref e')"
    using F(2) e e' by (auto simp: owns_exact_def exact_match_def)
  then have "endpoint_ref e = endpoint_ref e'" unfolding key by simp
  then show ?thesis by (rule endpoints_wf_inj [OF F(1) e(1) e'(1)])
qed

text \<open>No wildcard is bound by two endpoints.\<close>

definition distinct_wildcards :: "HTTPEndpoint list \<Rightarrow> bool" where
  "distinct_wildcards es \<longleftrightarrow>
     (\<forall>e \<in> set es. \<forall>b \<in> set (he_hosts e). \<forall>e' \<in> set es. \<forall>b' \<in> set (he_hosts e').
        bi_wildcard b \<and> bi_wildcard b' \<and> bi_host b = bi_host b' \<and> bi_port b = bi_port b' \<longrightarrow> e = e')"

lemma scan_deterministic:
  assumes wf: "policy_wf p" "kind \<in> {''http'', ''https''}" and es: "es = map snd (httpFamilyEndpoints p kind)"
    and ord: "permutes_maps ord" "permutes_maps ord'" and wild: "distinct_wildcards es"
  shows "scan_bindings a (endpoint_bindings (ord es)) None = scan_bindings a (endpoint_bindings (ord' es)) None"
proof -
  let ?E = "\<lambda>f. endpoint_bindings (f es)"
  have mem: "eb \<in> set (?E ord) \<longleftrightarrow> eb \<in> set (?E ord')" for eb using ord by (cases eb) simp
  show ?thesis
  proof (cases "\<exists>eb \<in> set (?E ord). exact_match a eb")
    case True
    then have True': "\<exists>eb \<in> set (?E ord'). exact_match a eb" using mem by blast
    from scan_exact [OF True, of None] obtain e b where e: "(e, b) \<in> set (?E ord)" "exact_match a (e, b)" "scan_bindings a (?E ord) None = Some e" by blast
    from scan_exact [OF True', of None] obtain e' b' where e': "(e', b') \<in> set (?E ord')" "exact_match a (e', b')" "scan_bindings a (?E ord') None = Some e'" by blast
    have "e = e'" using exact_unique [OF wf, of e b a e' b'] e(1,2) e'(1,2) ord es by simp
    then show ?thesis using e(3) e'(3) by simp
  next
    case False
    then have False': "\<not> (\<exists>eb \<in> set (?E ord'). exact_match a eb)" using mem by blast
    show ?thesis
    proof (cases "scan_bindings a (?E ord) None")
      case None
      then have "\<forall>eb \<in> set (?E ord'). \<not> Binding_Matches (snd eb) a" using scan_None mem by blast
      then have "scan_bindings a (?E ord') None \<noteq> Some e" for e using scan_in [of a "?E ord'" e] by fastforce
      then show ?thesis using None by (cases "scan_bindings a (?E ord') None") auto
    next
      case (Some e)
      from scan_wildcard [OF False Some] obtain b where b: "(e, b) \<in> set (?E ord)" "wildcard_match a (e, b)"
        "\<And>e' b'. (e', b') \<in> set (?E ord) \<Longrightarrow> wildcard_match a (e', b') \<Longrightarrow> length (bi_host b') \<le> length (bi_host b)" by fastforce
      have "(e, b) \<in> set (?E ord')" using b(1) mem by blast
      then have "scan_bindings a (?E ord') None \<noteq> None"
        using scan_None [of a "?E ord'" None] b(2) by (metis snd_conv wildcard_match_def)
      then obtain e' where e': "scan_bindings a (?E ord') None = Some e'" by blast
      from scan_wildcard [OF False' e'] obtain b' where b': "(e', b') \<in> set (?E ord')" "wildcard_match a (e', b')"
        "\<And>e b. (e, b) \<in> set (?E ord') \<Longrightarrow> wildcard_match a (e, b) \<Longrightarrow> length (bi_host b) \<le> length (bi_host b')" by fastforce
      have "length (bi_host b) = length (bi_host b')" using b b' mem by (meson le_antisym)
      then have "bi_host b = bi_host b' \<and> bi_port b = bi_port b'"
        using wildcard_suffix_unique [of b b' a] b(2) b'(2) by (simp add: wildcard_match_def)
      then have "e = e'" using wild b(1,2) b'(1,2) ord by (auto simp: distinct_wildcards_def wildcard_match_def)
      then show ?thesis using Some e' by simp
    qed
  qed
qed

text \<open>What the search finds: a binding that matches, of the greatest precedence, or none when none matches.\<close>

lemma scan_owner:
  assumes ord: "permutes_maps ord" and s: "scan_bindings a (endpoint_bindings (ord es)) None = Some e"
  shows "\<exists>b \<in> set (he_hosts e). Binding_Matches b a \<and> (bi_wildcard b \<longrightarrow> (\<forall>e' \<in> set es. \<forall>b' \<in> set (he_hosts e').
    Binding_Matches b' a \<longrightarrow> bi_wildcard b' \<and> length (bi_host b') \<le> length (bi_host b)))"
proof (cases "\<exists>eb \<in> set (endpoint_bindings (ord es)). exact_match a eb")
  case True
  then show ?thesis using scan_exact [OF True, of None] s ord by (auto simp: exact_match_def)
next
  case False
  from scan_wildcard [OF False s] obtain b where b: "b \<in> set (he_hosts e)" "wildcard_match a (e, b)"
    "\<And>e' b'. (e', b') \<in> set (endpoint_bindings (ord es)) \<Longrightarrow> wildcard_match a (e', b') \<Longrightarrow> length (bi_host b') \<le> length (bi_host b)" by fastforce
  have "bi_wildcard b' \<and> length (bi_host b') \<le> length (bi_host b)"
    if "e' \<in> set es" "b' \<in> set (he_hosts e')" "Binding_Matches b' a" for e' b'
  proof -
    have m: "(e', b') \<in> set (endpoint_bindings (ord es))" using that(1,2) ord by simp
    then have "\<not> exact_match a (e', b')" using False by blast
    then have w: "wildcard_match a (e', b')" using that(3) by (simp add: exact_match_def wildcard_match_def)
    show ?thesis using b(3) [OF m w] w by (simp add: wildcard_match_def)
  qed
  then show ?thesis using b(1,2) by (intro bexI [of _ b]) (auto simp: wildcard_match_def)
qed

lemma scan_None_iff:
  assumes ord: "permutes_maps ord"
  shows "scan_bindings a (endpoint_bindings (ord es)) None = None \<longleftrightarrow> \<not> (\<exists>e \<in> set es. \<exists>b \<in> set (he_hosts e). Binding_Matches b a)"
proof
  assume "scan_bindings a (endpoint_bindings (ord es)) None = None"
  from scan_None [OF this] have "\<forall>eb \<in> set (endpoint_bindings (ord es)). \<not> Binding_Matches (snd eb) a" by simp
  then have "\<not> Binding_Matches b a" if "(e, b) \<in> set (endpoint_bindings (ord es))" for e b using that by fastforce
  then show "\<not> (\<exists>e \<in> set es. \<exists>b \<in> set (he_hosts e). Binding_Matches b a)" using ord by simp
next
  assume none: "\<not> (\<exists>e \<in> set es. \<exists>b \<in> set (he_hosts e). Binding_Matches b a)"
  show "scan_bindings a (endpoint_bindings (ord es)) None = None"
  proof (cases "scan_bindings a (endpoint_bindings (ord es)) None")
    case (Some e)
    then show ?thesis using scan_in [OF Some] none ord by fastforce
  qed
qed

text \<open>
  C14: Which endpoint owns a host does not depend on the order in which Go walks its maps, provided that no
  wildcard is bound by two endpoints of the kind.  A host has an owner exactly when it is an authority that a
  binding of the kind matches; the owner has an exact binding for it, or else the longest wildcard that matches.
\<close>

theorem host_owner_deterministic:
  assumes "compileSnapshot go filename snapshot = Ok p" "kind \<in> {''http'', ''https''}"
    "permutes_maps ord" "permutes_maps ord'" "distinct_wildcards (map snd (httpFamilyEndpoints p kind))"
  shows "matchHTTPFamilyHost go ord p kind host port = matchHTTPFamilyHost go ord' p kind host port \<and>
    (matchHTTPFamilyHost go ord p kind host port = None \<longleftrightarrow>
      \<not> (\<exists>a. ParseAuthority go host port = Ok a \<and> au_host a \<noteq> [] \<and>
          (\<exists>e \<in> set (map snd (httpFamilyEndpoints p kind)). \<exists>b \<in> set (he_hosts e). Binding_Matches b a))) \<and>
    (\<forall>ref e a. matchHTTPFamilyHost go ord p kind host port = Some (ref, e, a) \<longrightarrow>
      ParseAuthority go host port = Ok a \<and> ref = \<lparr>rf_kind = kind, rf_name = he_name e\<rparr> \<and>
      e \<in> set (map snd (httpFamilyEndpoints p kind)) \<and>
      (\<exists>b \<in> set (he_hosts e). Binding_Matches b a \<and>
        (bi_wildcard b \<longrightarrow> (\<forall>e' \<in> set (map snd (httpFamilyEndpoints p kind)). \<forall>b' \<in> set (he_hosts e').
          Binding_Matches b' a \<longrightarrow> bi_wildcard b' \<and> length (bi_host b') \<le> length (bi_host b)))))"
proof -
  let ?es = "map snd (httpFamilyEndpoints p kind)"
  note wf = compileSnapshot_Ok(1) [OF assms(1)]
  have scan: "scan_bindings a (endpoint_bindings (ord ?es)) None = scan_bindings a (endpoint_bindings (ord' ?es)) None" for a
    by (rule scan_deterministic [OF wf assms(2) refl assms(3-5)])
  have owner: "e \<in> set ?es \<and> he_kind e = kind" if "scan_bindings a (endpoint_bindings (ord ?es)) None = Some e" for a e
  proof -
    have "e \<in> set ?es" using scan_in [OF that] assms(3) by simp
    then show ?thesis using endpoints_wf_snd(1) [OF family_wf(1) [OF wf assms(2)]] by simp
  qed
  have result: "matchHTTPFamilyHost go ord p kind host port =
      (case ParseAuthority go host port of
         Inl _ \<Rightarrow> None
       | Inr a \<Rightarrow> if au_host a = [] then None
           else map_option (\<lambda>e. (endpoint_ref e, e, a)) (scan_bindings a (endpoint_bindings (ord ?es)) None))"
    if "permutes_maps ord" for ord
  proof (cases "httpFamilyEndpoints p kind = []")
    case True
    then have "scan_bindings a (endpoint_bindings (ord ?es)) None = None" for a using scan_None_iff [OF that, of a ?es] by simp
    then show ?thesis using True by (auto simp: matchHTTPFamilyHost_def split: sum.split)
  next
    case False
    then show ?thesis by (auto simp: matchHTTPFamilyHost_def split: sum.split option.split)
  qed
  show ?thesis
  proof (cases "\<exists>a. ParseAuthority go host port = Ok a \<and> au_host a \<noteq> []")
    case True
    then obtain a where a: "ParseAuthority go host port = Ok a" "au_host a \<noteq> []" by blast
    show ?thesis
      unfolding result [OF assms(3)] result [OF assms(4)] a(1) sum.case scan [symmetric]
      using a(2) scan_None_iff [OF assms(3), of a ?es] scan_owner [OF assms(3), of a ?es] owner [of a]
      by (cases "scan_bindings a (endpoint_bindings (ord ?es)) None") (auto simp: endpoint_ref_def)
  next
    case False
    then show ?thesis
      unfolding result [OF assms(3)] result [OF assms(4)] by (auto split: sum.split)
  qed
qed

section \<open>Requests\<close>

text \<open>
  A rule is about a request to the endpoint \<open>ref\<close> when it names the endpoint and the credential it asks for, if any,
  is the one that was selected.
\<close>

definition rule_applies :: "Ref \<Rightarrow> Credential option \<Rightarrow> RuleDecl \<Rightarrow> bool" where
  "rule_applies ref credential d \<longleftrightarrow>
     \<not> rd_disabled d \<and> ref \<in> set (rd_endpoints d) \<and>
     (rd_credential d = None \<or> rd_credential d = map_option (\<lambda>c. \<lparr>rf_kind = ce_kind c, rf_name = ce_name c\<rparr>) credential)"

definition decides :: "Ref \<Rightarrow> Credential option \<Rightarrow> (ConditionDecl option \<Rightarrow> bool option) \<Rightarrow> Rule \<Rightarrow> bool" where
  "decides ref credential holds r \<longleftrightarrow>
     ref \<in> set (ru_endpoints r) \<and>
     \<not> (ru_credential r \<noteq> None \<and> map_option (\<lambda>c. \<lparr>rf_kind = ce_kind c, rf_name = ce_name c\<rparr>) credential \<noteq> ru_credential r) \<and>
     holds (ru_condition r) \<noteq> Some False"

lemma evaluate_http_rules_find:
  "evaluate_http_rules p request e holds credential rules =
     (case find (decides (endpoint_ref e) credential holds) rules of
        None \<Rightarrow> evaluate_http_rules p request e holds credential []
      | Some r \<Rightarrow> evaluate_http_rules p request e holds credential [r])"
proof (induction rules)
  case (Cons r rules)
  have skip: "evaluate_http_rules p request e holds credential (r # rules) = evaluate_http_rules p request e holds credential rules"
    if "\<not> decides (endpoint_ref e) credential holds r"
    using that by (auto simp: decides_def split: option.split bool.split)
  have stop: "evaluate_http_rules p request e holds credential (r # rules) = evaluate_http_rules p request e holds credential [r]"
    if "decides (endpoint_ref e) credential holds r"
    using that by (auto simp: decides_def split: option.split bool.split)
  show ?case
  proof (cases "decides (endpoint_ref e) credential holds r")
    case True
    then show ?thesis unfolding stop [OF True] by simp
  next
    case False
    then show ?thesis unfolding skip [OF False] Cons.IH by simp
  qed
qed simp

lemma decided_fields:
  assumes "decides (endpoint_ref e) credential holds r"
  shows "dc_source (evaluate_http_rules p request e holds credential [r]) = ''rule''"
    "dc_rule_name (evaluate_http_rules p request e holds credential [r]) = ru_name r"
    "dc_action (evaluate_http_rules p request e holds credential [r]) = (if holds (ru_condition r) = None then ActionDeny else ru_verdict r)"
    "dc_selected_credential (evaluate_http_rules p request e holds credential [r]) =
      (if holds (ru_condition r) \<noteq> None \<and> ru_verdict r = ActionAllow then credential else None)"
  using assms by (auto simp: decides_def owned_decision_def request_decision_def zero_decision_def split: option.split bool.split)

lemma undecided_fields:
  "dc_source (evaluate_http_rules p request e holds credential []) = ''default''"
  "dc_action (evaluate_http_rules p request e holds credential []) = po_default_action p"
  "dc_selected_credential (evaluate_http_rules p request e holds credential []) = None"
  by (simp_all add: owned_decision_def request_decision_def zero_decision_def)

lemma MatchHTTPFamilyHost_in:
  assumes "MatchHTTPFamilyHost go ord p kind host = Some (ref, e)" "permutes_maps ord" "policy_wf p"
  shows "ref = endpoint_ref e" "rf_kind ref \<in> {''http'', ''https''}"
proof -
  obtain a where s: "scan_bindings a (endpoint_bindings (ord (map snd (httpFamilyEndpoints p kind)))) None = Some e" and ref: "ref = endpoint_ref e"
    using assms(1) by (auto simp: MatchHTTPFamilyHost_def matchHTTPFamilyHost_def Let_def split: sum.splits option.splits if_splits)
  then have "e \<in> set (map snd (httpFamilyEndpoints p kind))" using scan_in [OF s] assms(2) by simp
  then have "e \<in> set (map snd (po_http_endpoints p)) \<or> e \<in> set (map snd (po_https_endpoints p))"
    by (auto simp: httpFamilyEndpoints_def split: if_splits)
  then have "he_kind e \<in> {''http'', ''https''}" using assms(3) endpoints_wf_snd(1) unfolding policy_wf_def by blast
  then show "ref = endpoint_ref e" "rf_kind ref \<in> {''http'', ''https''}" using ref by (simp_all add: endpoint_ref_def)
qed

lemma http_decides_iff:
  assumes "one_family d" "rf_kind ref \<in> {''http'', ''https''}"
  shows "http_rule d \<and> decides ref credential holds (rule_of d ''http'') \<longleftrightarrow>
    rule_applies ref credential d \<and> holds (rd_condition d) \<noteq> Some False"
proof -
  have "rf_kind (hd (rd_endpoints d)) \<noteq> ''ip''" if "ref \<in> set (rd_endpoints d)"
  proof -
    have "rf_kind ref = ''ip'' \<longleftrightarrow> rf_kind (hd (rd_endpoints d)) = ''ip''" using assms(1) that unfolding one_family_def by blast
    moreover have "rf_kind ref \<noteq> ''ip''" using assms(2) by auto
    ultimately show ?thesis by simp
  qed
  then show ?thesis by (auto simp: http_rule_def decides_def rule_applies_def rule_of_sel)
qed

text \<open>
  C10: A request to a host that an endpoint owns is decided by the rule with the highest priority, the first
  among equal ones, of those that apply to the endpoint and to the selected credential and whose condition does
  not turn out false.  When that condition cannot be evaluated, the request is denied; lower rules are not
  asked.  Without such a rule the default action decides.
\<close>

theorem request_verdict:
  assumes "compileSnapshot go filename snapshot = Ok p" "permutes_maps ord"
    "ParseAuthority go (hr_host request) (DefaultPort (hr_endpoint_kind request)) = Ok a"
    "MatchHTTPFamilyHost go ord p (hr_endpoint_kind request) (hr_host request) = Some (ref, e)"
    "holds = evaluate_condition go cel p (request\<lparr>hr_endpoint_kind := he_kind e\<rparr>)" "selectedCredential holds p ref = Ok credential"
    "ds = all_rules snapshot" "live = (\<lambda>i. i < length ds \<and> rule_applies ref credential (ds ! i) \<and> holds (rd_condition (ds ! i)) \<noteq> Some False)"
    "d = EvaluateHTTP go cel ord (Some p) request"
  shows "(\<exists>i. live i \<and>
      (\<forall>j. live j \<and> j \<noteq> i \<longrightarrow> rd_priority (ds ! j) < rd_priority (ds ! i) \<or> rd_priority (ds ! j) = rd_priority (ds ! i) \<and> i < j) \<and>
      dc_source d = ''rule'' \<and> dc_rule_name d = rd_name (ds ! i) \<and>
      dc_action d = (if holds (rd_condition (ds ! i)) = None then ActionDeny else rd_verdict (ds ! i))) \<or>
    (\<forall>i. \<not> live i) \<and> dc_source d = ''default'' \<and> dc_action d = po_default_action p"
proof -
  note C = compileSnapshot_Ok [OF assms(1)]
  note ref = MatchHTTPFamilyHost_in [OF assms(4,2) C(1)]
  let ?req = "request\<lparr>hr_endpoint_kind := he_kind e\<rparr>"
  have iff: "http_rule r \<and> decides ref credential holds (rule_of r ''http'') \<longleftrightarrow>
      rule_applies ref credential r \<and> holds (rd_condition r) \<noteq> Some False" if "r \<in> set ds" for r
    by (rule http_decides_iff [OF _ ref(2)]) (use C(4) that assms(7) in \<open>auto simp: list_all_iff\<close>)
  let ?find = "find (\<lambda>r. http_rule r \<and> decides ref credential holds (rule_of r ''http'')) (sort_key (\<lambda>d. - rd_priority d) ds)"
  have eval: "d = (case map_option (\<lambda>r. rule_of r ''http'') ?find of
      None \<Rightarrow> evaluate_http_rules p ?req e holds credential [] | Some r \<Rightarrow> evaluate_http_rules p ?req e holds credential [r])"
    unfolding assms(9) EvaluateHTTP_def option.case assms(3) sum.case assms(4) Let_def prod.case
    unfolding assms(5) [symmetric] assms(6) sum.case C(3)
    by (subst evaluate_http_rules_find) (simp only: find_rule ref(1) assms(7))
  show ?thesis
  proof (cases ?find)
    case None
    then have "\<not> live i" for i using iff by (auto simp: find_sort_key_None assms(8))
    moreover have "d = evaluate_http_rules p ?req e holds credential []" unfolding eval None by simp
    ultimately show ?thesis using undecided_fields by simp
  next
    case (Some r)
    obtain i where i: "i < length ds" "ds ! i = r" "http_rule r \<and> decides ref credential holds (rule_of r ''http'')"
      and least: "\<And>j. j < length ds \<Longrightarrow> http_rule (ds ! j) \<and> decides ref credential holds (rule_of (ds ! j) ''http'') \<Longrightarrow> j \<noteq> i \<Longrightarrow>
        - rd_priority r < - rd_priority (ds ! j) \<or> - rd_priority r = - rd_priority (ds ! j) \<and> i < j"
      using find_sort_key [OF Some] by metis
    have "d = evaluate_http_rules p ?req e holds credential [rule_of r ''http'']" unfolding eval Some by simp
    then have dec: "dc_source d = ''rule''" "dc_rule_name d = rd_name r"
      "dc_action d = (if holds (rd_condition r) = None then ActionDeny else rd_verdict r)"
      using decided_fields [of e credential holds "rule_of r ''http''" p ?req] i(3) by (simp_all add: ref(1) rule_of_sel)
    have "live i" using i iff [of r] nth_mem [OF i(1)] by (auto simp: assms(8))
    moreover have "rd_priority (ds ! j) < rd_priority (ds ! i) \<or> rd_priority (ds ! j) = rd_priority (ds ! i) \<and> i < j"
      if "live j" "j \<noteq> i" for j
      using least [of j] that iff [of "ds ! j"] i(2) by (auto simp: assms(8))
    ultimately show ?thesis using dec i(2) by blast
  qed
qed

lemma select_credential_Ok:
  assumes "select_credential holds cs selected = Ok r"
  shows "(\<forall>c \<in> set cs. holds (ce_condition c) \<noteq> None) \<and>
    (case selected of
       None \<Rightarrow> filter (\<lambda>c. holds (ce_condition c) = Some True) cs = (case r of None \<Rightarrow> [] | Some c \<Rightarrow> [c])
     | Some s \<Rightarrow> r = Some s \<and> filter (\<lambda>c. holds (ce_condition c) = Some True) cs = [])"
  using assms
proof (induction cs arbitrary: selected)
  case (Cons c cs)
  show ?case
  proof (cases "holds (ce_condition c)")
    case (Some b)
    then show ?thesis using Cons by (cases b) (fastforce split: option.splits if_splits)+
  qed (use Cons.prems in simp)
qed (auto split: option.split)

lemma Ref_String_https:
  assumes "Ref_String r = Ref_String s" "rf_kind r = ''https''" "rf_kind s \<in> {''http'', ''https''}"
  shows "r = s"
  using assms by (auto simp: Ref_String_def)

lemma owned_no_credential [simp]:
  "dc_selected_credential (request_decision p request source action reason) = None"
  "dc_selected_credential (owned_decision p request e source action reason) = None"
  by (simp_all add: owned_decision_def request_decision_def zero_decision_def)

text \<open>
  C9: A decision carries a credential only when a rule allows the request: never by default, and never with a
  denial.  The credential belongs to the HTTPS endpoint that owns the host, and it is the only one of the
  endpoint whose condition holds for the request, all others having been evaluated without an error.
\<close>

theorem credential_needs_explicit_allow:
  assumes "compileSnapshot go filename snapshot = Ok p" "permutes_maps ord"
    "dc_selected_credential (EvaluateHTTP go cel ord (Some p) request) = Some c"
  shows "dc_action (EvaluateHTTP go cel ord (Some p) request) = ActionAllow \<and>
    dc_source (EvaluateHTTP go cel ord (Some p) request) = ''rule'' \<and>
    (\<exists>e credentials. MatchHTTPFamilyHost go ord p (hr_endpoint_kind request) (hr_host request) = Some (ce_endpoint c, e) \<and>
      he_kind e = ''https'' \<and> map_of (po_credentials_by_endpoint p) (Ref_String (ce_endpoint c)) = Some credentials \<and>
      filter (\<lambda>c. evaluate_condition go cel p (request\<lparr>hr_endpoint_kind := ''https''\<rparr>) (ce_condition c) = Some True) credentials = [c] \<and>
      (\<forall>c' \<in> set credentials. evaluate_condition go cel p (request\<lparr>hr_endpoint_kind := ''https''\<rparr>) (ce_condition c') \<noteq> None))"
proof -
  note wf = compileSnapshot_Ok(1) [OF assms(1)]
  let ?d = "EvaluateHTTP go cel ord (Some p) request"
  obtain a where a: "ParseAuthority go (hr_host request) (DefaultPort (hr_endpoint_kind request)) = Ok a"
    using assms(3) by (auto simp: EvaluateHTTP_def split: sum.splits)
  obtain ref e where m: "MatchHTTPFamilyHost go ord p (hr_endpoint_kind request) (hr_host request) = Some (ref, e)"
    using assms(3) a by (auto simp: EvaluateHTTP_def split: option.splits)
  let ?req = "request\<lparr>hr_endpoint_kind := he_kind e\<rparr>" and ?holds = "evaluate_condition go cel p (request\<lparr>hr_endpoint_kind := he_kind e\<rparr>)"
  obtain credential where sel: "selectedCredential ?holds p ref = Ok credential"
    using assms(3) a m by (auto simp: EvaluateHTTP_def Let_def split: sum.splits)
  have d: "?d = evaluate_http_rules p ?req e ?holds credential (po_http_rules p)"
    using a m sel by (simp add: EvaluateHTTP_def Let_def)
  note ref = MatchHTTPFamilyHost_in [OF m assms(2) wf]
  obtain r where r: "find (decides (endpoint_ref e) credential ?holds) (po_http_rules p) = Some r"
    using assms(3) undecided_fields(3) unfolding d by (subst (asm) evaluate_http_rules_find) (auto split: option.splits)
  have dr: "?d = evaluate_http_rules p ?req e ?holds credential [r]"
    unfolding d by (subst evaluate_http_rules_find) (simp add: r)
  have dec: "decides (endpoint_ref e) credential ?holds r" using r by (auto simp: find_Some_iff)
  note D = decided_fields [OF dec, of p ?req, folded dr]
  have c: "?holds (ru_condition r) \<noteq> None" "ru_verdict r = ActionAllow" "credential = Some c"
    using assms(3) unfolding D(4) by (auto split: if_splits)
  obtain cs where cs: "map_of (po_credentials_by_endpoint p) (Ref_String ref) = Some cs" "select_credential ?holds cs None = Ok (Some c)"
    using sel c(3) by (auto simp: selectedCredential_def split: option.splits)
  note S = select_credential_Ok [OF cs(2), simplified]
  then have only: "filter (\<lambda>c. ?holds (ce_condition c) = Some True) cs = [c]" and total: "\<forall>c' \<in> set cs. ?holds (ce_condition c') \<noteq> None" by auto
  have "c \<in> set (filter (\<lambda>c. ?holds (ce_condition c) = Some True) cs)" unfolding only by simp
  then have "c \<in> set cs" by simp
  then have "rf_kind (ce_endpoint c) = ''https''" "Ref_String (ce_endpoint c) = Ref_String ref"
    using wf map_of_SomeD [OF cs(1)] unfolding policy_wf_def credentials_wf_def by blast+
  then have cref: "ce_endpoint c = ref" using Ref_String_https ref(2) by blast
  then have "he_kind e = ''https''" using \<open>rf_kind (ce_endpoint c) = ''https''\<close> ref(1) by (simp add: endpoint_ref_def)
  then show ?thesis using D(1,3) c(1,2) m cs(1) only total cref by auto
qed

section \<open>A tie between wildcards\<close>

definition https_endpoint :: "string \<Rightarrow> string \<Rightarrow> EndpointDecl" where
  "https_endpoint name host =
     \<lparr>ed_kind = ''https'', ed_name = name, ed_source = [], ed_destination = [], ed_protocol = [], ed_ports = [], ed_hosts = [host]\<rparr>"

definition plain_rule :: "string \<Rightarrow> string \<Rightarrow> string \<Rightarrow> RuleDecl" where
  "plain_rule kind name verdict =
     \<lparr>rd_name = name, rd_endpoints = [\<lparr>rf_kind = kind, rf_name = name\<rparr>], rd_credential = None, rd_verdict = verdict, rd_priority = 0,
      rd_disabled = False, rd_condition = None, rd_reason = [], rd_order = 0\<rparr>"

text \<open>Two endpoints with the same wildcard; the rules allow one of them and deny the other.\<close>

definition tie_snapshot :: "string \<Rightarrow> policySnapshot" where
  "tie_snapshot pattern =
     \<lparr>ps_policy_hash = ''hash'', ps_documents =
       [\<lparr>do_default_action = ActionDeny, do_endpoints = [https_endpoint ''a'' pattern, https_endpoint ''b'' pattern],
         do_credentials = [], do_rules = [plain_rule ''https'' ''a'' ActionAllow, plain_rule ''https'' ''b'' ActionDeny]\<rparr>]\<rparr>"

definition tie_endpoint :: "string \<Rightarrow> Binding \<Rightarrow> HTTPEndpoint" where
  "tie_endpoint name b = \<lparr>he_kind = ''https'', he_name = name, he_transport = ''https-mitm'', he_default_port = 443, he_hosts = [b]\<rparr>"

definition tie_policy :: "Binding \<Rightarrow> Policy" where
  "tie_policy b =
     newPolicy\<lparr>po_native := True, po_policy_hash := ''hash'', po_default_action := ActionDeny,
       po_https_endpoints := [(''https.a'', tie_endpoint ''a'' b), (''https.b'', tie_endpoint ''b'' b)],
       po_http_rules := [rule_of (plain_rule ''https'' ''a'' ActionAllow) ''http'', rule_of (plain_rule ''https'' ''b'' ActionDeny) ''http'']\<rparr>"

lemma tie_compiles:
  assumes "ParseBinding go pattern 443 = Ok b" "bi_wildcard b"
  shows "compileSnapshot go filename (tie_snapshot pattern) = Ok (tie_policy b)"
proof -
  have compile: "compileHTTPEndpointDecl go ''https'' name ''https-mitm'' 443 [pattern] = Ok (tie_endpoint name b)" for name
    using assms(1) by (simp add: compileHTTPEndpointDecl_def tie_endpoint_def Let_def)
  have add: "addHTTPEndpoint (tie_endpoint name b) p = Ok p" for name p
    using assms(2) by (simp add: addHTTPEndpoint_def add_exact_binding_def tie_endpoint_def)
  have endpoint: "addEndpointDecl go (https_endpoint name pattern) p =
      Ok (p\<lparr>po_https_endpoints := po_https_endpoints p @ [(''https.'' @ name, tie_endpoint name b)]\<rparr>)"
    if "map_of (po_https_endpoints p) (''https.'' @ name) = None" for name p
    using that by (simp add: addEndpointDecl_def https_endpoint_def compile_http_def Ref_String_def compile add wrap_error_def)
  have rule: "addRuleDecl (plain_rule ''https'' name verdict) p =
      Ok (p\<lparr>po_http_rules := po_http_rules p @ [rule_of (plain_rule ''https'' name verdict) ''http'']\<rparr>)"
    if "map_of (po_https_endpoints p) (''https.'' @ name) \<noteq> None" for name verdict p
    using that by (auto simp: addRuleDecl_def plain_rule_def validateEndpointFamily_def endpointFamily_def Ref_String_def wrap_error_def
        rule_of_def validateRuleCredential_def)
  show ?thesis
    by (simp add: compileSnapshot_def tie_snapshot_def compile_document_def endpoint rule load_error_def tie_policy_def newPolicy_def
        sortRules_def sort_rules_def rule_of_sel) (simp add: plain_rule_def)
qed

text \<open>
  C31: Two endpoints may bind the same wildcard: the compiler rejects exact bindings that two endpoints share, and
  not wildcards.  Then the order in which Go walks its map of endpoints, which changes from one walk to the next,
  decides which endpoint owns a host, and the same policy both allows and denies the same request.
\<close>

theorem wildcard_tie_undetermined:
  assumes "ParseBinding go pattern 443 = Ok b" "bi_wildcard b" "ParseAuthority go (hr_host request) 443 = Ok a" "Binding_Matches b a"
    "hr_endpoint_kind request = ''https''"
  shows "\<exists>p. compileSnapshot go filename (tie_snapshot pattern) = Ok p \<and> permutes_maps (\<lambda>es. es) \<and> permutes_maps rev \<and>
    dc_action (EvaluateHTTP go cel (\<lambda>es. es) (Some p) request) = ActionAllow \<and>
    dc_action (EvaluateHTTP go cel rev (Some p) request) = ActionDeny"
proof -
  let ?p = "tie_policy b"
  have host: "au_host a \<noteq> []" using assms(2,4) by (auto simp: wildcard_descends)
  have fam: "httpFamilyEndpoints ?p ''https'' = [(''https.a'', tie_endpoint ''a'' b), (''https.b'', tie_endpoint ''b'' b)]"
    by (simp add: httpFamilyEndpoints_def tie_policy_def)
  have owner: "MatchHTTPFamilyHost go (\<lambda>es. es) ?p ''https'' (hr_host request) = Some (endpoint_ref (tie_endpoint ''a'' b), tie_endpoint ''a'' b)"
    "MatchHTTPFamilyHost go rev ?p ''https'' (hr_host request) = Some (endpoint_ref (tie_endpoint ''b'' b), tie_endpoint ''b'' b)"
    using assms host by (simp_all add: MatchHTTPFamilyHost_def matchHTTPFamilyHost_def fam DefaultPort_def endpoint_bindings_def tie_endpoint_def)
  have cred: "selectedCredential holds ?p ref = Ok None" for holds ref
    by (simp add: selectedCredential_def tie_policy_def newPolicy_def)
  have rules: "po_http_rules ?p = [rule_of (plain_rule ''https'' ''a'' ActionAllow) ''http'', rule_of (plain_rule ''https'' ''b'' ActionDeny) ''http'']"
    by (simp add: tie_policy_def)
  have "dc_action (EvaluateHTTP go cel (\<lambda>es. es) (Some ?p) request) = ActionAllow" "dc_action (EvaluateHTTP go cel rev (Some ?p) request) = ActionDeny"
    using assms(3,5) owner
    by (simp_all add: EvaluateHTTP_def DefaultPort_def Let_def cred rules rule_of_sel evaluate_condition_def owned_decision_def request_decision_def
        zero_decision_def)
      (simp_all add: rule_of_sel plain_rule_def endpoint_ref_def tie_endpoint_def owned_decision_def request_decision_def zero_decision_def)
  then show ?thesis using tie_compiles [OF assms(1,2)] by (auto simp: permutes_maps_def)
qed

section \<open>A sample policy\<close>

text \<open>Go's parsers on plain host names and queries without parameters, and one prefix that contains every IPv4 address.\<close>

definition sample_go :: GoNet where
  "sample_go =
     \<lparr>gn_url_parse = (\<lambda>u. Some \<lparr>url_user = False, url_path = [], url_raw_query = [], url_fragment = [], url_host = drop 7 u\<rparr>),
      gn_valid_host_header = (\<lambda>_. True), gn_parse_addr = (\<lambda>_. None), gn_addr_string = (\<lambda>_. []),
      gn_parse_prefix = (\<lambda>_. Some \<lparr>pf_addr = IPv4 0, pf_bits = 0\<rparr>), gn_parse_query = (\<lambda>_. Some [])\<rparr>"

definition sample_snapshot :: policySnapshot where
  "sample_snapshot =
     \<lparr>ps_policy_hash = ''hash'', ps_documents =
       [\<lparr>do_default_action = ActionDeny,
         do_endpoints =
           [\<lparr>ed_kind = ''ip'', ed_name = ''web'', ed_source = [], ed_destination = [''0.0.0.0/0''], ed_protocol = ''tcp'',
             ed_ports = [\<lparr>pr_start = 443, pr_end = 443\<rparr>], ed_hosts = []\<rparr>,
            https_endpoint ''api'' ''api.example.com''],
         do_credentials =
           [\<lparr>kd_kind = ''bearer_token'', kd_name = ''token'', kd_endpoint = \<lparr>rf_kind = ''https'', rf_name = ''api''\<rparr>, kd_username = [],
             kd_header = [], kd_prefix = [], kd_idempotency_key = False, kd_condition = None\<rparr>],
         do_rules = [plain_rule ''ip'' ''web'' ActionAllow, plain_rule ''https'' ''api'' ActionAllow]\<rparr>]\<rparr>"

definition sample_flow :: Flow where
  "sample_flow =
     \<lparr>fw_protocol = ''tcp'', fw_source_ip = [192, 168, 127, 2], fw_source_port = 40000, fw_dest_ip = [10, 0, 0, 1], fw_dest_port = 443\<rparr>"

definition sample_request :: HTTPRequest where
  "sample_request =
     \<lparr>hr_flow = sample_flow, hr_endpoint_kind = ''https'', hr_host = ''api.example.com'', hr_method = ''GET'', hr_path = ''/'',
      hr_query = [], hr_header = []\<rparr>"

lemma sample_trim:
  "trim ''api.example.com'' = ''api.example.com''" "trim ''example.com'' = ''example.com''"
  "trim ''*.example.com'' = ''*.example.com''"
  by (intro trim_visible; simp add: visible_def)+

lemmas sample_text = sample_go_def isASCII_def contains_str_def starts_with_def upt_rec split_host_port_def hasExplicitPortSyntax_def
  trim_suffix_def trim_prefix_def ends_with_def to_lower_def to_ascii_lower_def less_eq_char_def

lemma sample_authority:
  "ParseAuthority sample_go ''api.example.com'' 443 = Ok \<lparr>au_host = ''api.example.com'', au_port = 443\<rparr>"
  "ParseAuthority sample_go ''example.com'' 443 = Ok \<lparr>au_host = ''example.com'', au_port = 443\<rparr>"
  unfolding ParseAuthority_def Let_def sample_trim by (simp_all add: sample_text)

lemma sample_binding:
  "ParseBinding sample_go ''api.example.com'' 443 =
     Ok \<lparr>bi_pattern = ''api.example.com'', bi_host = ''api.example.com'', bi_port = 443, bi_wildcard = False\<rparr>"
  "ParseBinding sample_go ''*.example.com'' 443 =
     Ok \<lparr>bi_pattern = ''*.example.com'', bi_host = ''example.com'', bi_port = 443, bi_wildcard = True\<rparr>"
  unfolding ParseBinding_def Let_def sample_trim
  by (simp_all add: starts_with_def trim_prefix_def sample_authority FormatAuthority_def formatAuthorityHost_def
      wildcardHostLooksLikeIPPattern_def) (simp_all add: sample_go_def is_digit_def)

definition sample_endpoint :: HTTPEndpoint where
  "sample_endpoint =
     tie_endpoint ''api'' \<lparr>bi_pattern = ''api.example.com'', bi_host = ''api.example.com'', bi_port = 443, bi_wildcard = False\<rparr>"

definition sample_credential :: Credential where
  "sample_credential =
     \<lparr>ce_kind = ''bearer_token'', ce_name = ''token'', ce_endpoint = \<lparr>rf_kind = ''https'', rf_name = ''api''\<rparr>, ce_username = [],
      ce_header = [], ce_prefix = [], ce_idempotency_key = False, ce_condition = None\<rparr>"

definition sample_policy :: Policy where
  "sample_policy =
     \<lparr>po_native = True, po_policy_hash = ''hash'', po_default_action = ActionDeny,
      po_ip_endpoints =
        [(''ip.web'', \<lparr>ie_name = ''web'', ie_source_prefixes = [], ie_destination_prefixes = [\<lparr>pf_addr = IPv4 0, pf_bits = 0\<rparr>],
          ie_protocol = ''tcp'', ie_ports = [\<lparr>pr_start = 443, pr_end = 443\<rparr>]\<rparr>)],
      po_http_endpoints = [], po_https_endpoints = [(''https.api'', sample_endpoint)],
      po_credentials = [(''bearer_token.token'', sample_credential)], po_credentials_by_endpoint = [(''https.api'', [sample_credential])],
      po_exact_http_bindings = [(hostBindingKey ''https-mitm'' ''api.example.com'' 443 False, endpoint_ref sample_endpoint)],
      po_ip_rules = [rule_of (plain_rule ''ip'' ''web'' ActionAllow) ''ip''],
      po_http_rules = [rule_of (plain_rule ''https'' ''api'' ActionAllow) ''http'']\<rparr>"

lemma sample_ip_endpoint:
  "compileIPEndpoint sample_go
     \<lparr>ed_kind = ''ip'', ed_name = ''web'', ed_source = [], ed_destination = [''0.0.0.0/0''], ed_protocol = ''tcp'',
      ed_ports = [\<lparr>pr_start = 443, pr_end = 443\<rparr>], ed_hosts = []\<rparr> =
   Ok \<lparr>ie_name = ''web'', ie_source_prefixes = [], ie_destination_prefixes = [\<lparr>pf_addr = IPv4 0, pf_bits = 0\<rparr>],
      ie_protocol = ''tcp'', ie_ports = [\<lparr>pr_start = 443, pr_end = 443\<rparr>]\<rparr>"
proof -
  have "trim ''tcp'' = ''tcp''" by (rule trim_visible) (simp_all add: visible_def)
  then show ?thesis
    by (simp add: compileIPEndpoint_def Let_def to_lower_def to_ascii_lower_def less_eq_char_def normalizePortRanges_def)
      (simp add: sample_go_def)
qed

lemma sample_http_endpoint:
  "compile_http sample_go (https_endpoint ''api'' ''api.example.com'') ''https-mitm'' 443 p =
     Ok (sample_endpoint, p\<lparr>po_exact_http_bindings := po_exact_http_bindings p @
       [(hostBindingKey ''https-mitm'' ''api.example.com'' 443 False, endpoint_ref sample_endpoint)]\<rparr>)"
  if "po_exact_http_bindings p = []"
  using that by (simp add: compile_http_def https_endpoint_def compileHTTPEndpointDecl_def sample_binding Let_def wrap_error_def addHTTPEndpoint_def
      add_exact_binding_def sample_endpoint_def tie_endpoint_def)

lemma sample_compiles: "compileSnapshot sample_go ''policy'' sample_snapshot = Ok sample_policy"
proof -
  have https: "ed_kind (https_endpoint ''api'' ''api.example.com'') = ''https''" "ed_name (https_endpoint ''api'' ''api.example.com'') = ''api''"
    by (simp_all add: https_endpoint_def)
  show ?thesis
    by (simp add: compileSnapshot_def sample_snapshot_def compile_document_def addEndpointDecl_def sample_ip_endpoint sample_http_endpoint https
      wrap_error_def load_error_def newPolicy_def Ref_String_def addCredentialDecl_def knownCredentialKind_def append_credential_def Let_def
      addRuleDecl_def plain_rule_def validateEndpointFamily_def endpointFamily_def validateRuleCredential_def rule_of_def
      sortRules_def sort_rules_def sample_policy_def sample_credential_def)
qed

lemma sample_orders: "permutes_maps (\<lambda>es. es)" "permutes_maps rev"
  by (simp_all add: permutes_maps_def)

lemma sample_flow_decided: "dc_source (EvaluateFlow (Some sample_policy) sample_flow) = ''rule''"
  by (simp add: EvaluateFlow_def sample_policy_def matchIPRule_def rule_of_sel plain_rule_def Ref_String_def IPEndpoint_match_def sample_flow_def
      matchesProtocol_def to_lower_def to_ascii_lower_def less_eq_char_def matchPort_def address_allowed_def addrFromIP_def prefixesContain_def
      unmap_def Prefix_contains_def zero_decision_def)

lemma flow_verdict_witness:
  "compileSnapshot sample_go ''policy'' sample_snapshot = Ok sample_policy \<and>
   (\<exists>i. speaks_to sample_policy (all_rules sample_snapshot) sample_flow i \<and>
      dc_action (EvaluateFlow (Some sample_policy) sample_flow) = rd_verdict (all_rules sample_snapshot ! i))"
  using flow_verdict [OF sample_compiles, of sample_flow] sample_flow_decided sample_compiles by auto

lemma sample_owner:
  "matchHTTPFamilyHost sample_go (\<lambda>es. es) sample_policy ''https'' ''api.example.com'' 443 =
     Some (endpoint_ref sample_endpoint, sample_endpoint, \<lparr>au_host = ''api.example.com'', au_port = 443\<rparr>)"
  by (simp add: matchHTTPFamilyHost_def httpFamilyEndpoints_def sample_policy_def sample_authority endpoint_bindings_def
      sample_endpoint_def tie_endpoint_def Binding_Matches_def)

lemma host_owner_deterministic_witness:
  "compileSnapshot sample_go ''policy'' sample_snapshot = Ok sample_policy \<and> permutes_maps (\<lambda>es. es) \<and> permutes_maps rev \<and>
   distinct_wildcards (map snd (httpFamilyEndpoints sample_policy ''https'')) \<and>
   matchHTTPFamilyHost sample_go rev sample_policy ''https'' ''api.example.com'' 443 =
     Some (endpoint_ref sample_endpoint, sample_endpoint, \<lparr>au_host = ''api.example.com'', au_port = 443\<rparr>)"
proof -
  have d: "distinct_wildcards (map snd (httpFamilyEndpoints sample_policy ''https''))"
    by (simp add: distinct_wildcards_def httpFamilyEndpoints_def sample_policy_def)
  have "''https'' \<in> {''http'', ''https''}" by simp
  from host_owner_deterministic [OF sample_compiles this sample_orders d, of "''api.example.com''" 443, THEN conjunct1] show ?thesis
    unfolding sample_owner using d sample_orders sample_compiles by auto
qed

lemma sample_match:
  "MatchHTTPFamilyHost sample_go (\<lambda>es. es) sample_policy ''https'' ''api.example.com'' = Some (endpoint_ref sample_endpoint, sample_endpoint)"
  by (simp add: MatchHTTPFamilyHost_def DefaultPort_def sample_owner)

lemma sample_selected:
  "selectedCredential (evaluate_condition sample_go cel sample_policy request) sample_policy (endpoint_ref sample_endpoint) = Ok (Some sample_credential)"
  by (simp add: selectedCredential_def sample_policy_def Ref_String_def endpoint_ref_def sample_endpoint_def tie_endpoint_def
      evaluate_condition_def sample_credential_def)

lemma sample_decided:
  "EvaluateHTTP sample_go cel (\<lambda>es. es) (Some sample_policy) sample_request =
     (owned_decision sample_policy (sample_request\<lparr>hr_endpoint_kind := ''https''\<rparr>) sample_endpoint ''rule'' ActionAllow [])
       \<lparr>dc_rule_name := ''api'', dc_selected_credential := Some sample_credential\<rparr>"
proof -
  have rules: "po_http_rules sample_policy = [rule_of (plain_rule ''https'' ''api'' ActionAllow) ''http'']" by (simp add: sample_policy_def)
  have kind: "he_kind sample_endpoint = ''https''" "endpoint_ref sample_endpoint = \<lparr>rf_kind = ''https'', rf_name = ''api''\<rparr>"
    by (simp_all add: sample_endpoint_def tie_endpoint_def endpoint_ref_def)
  have request: "hr_host sample_request = ''api.example.com''" "hr_endpoint_kind sample_request = ''https''" by (simp_all add: sample_request_def)
  show ?thesis
    unfolding EvaluateHTTP_def option.case request DefaultPort_def
    by (simp add: sample_authority sample_match Let_def sample_selected [unfolded kind(2)] rules kind rule_of_sel plain_rule_def evaluate_condition_def)
qed

lemma request_verdict_witness:
  "compileSnapshot sample_go ''policy'' sample_snapshot = Ok sample_policy \<and>
   (\<exists>i. i < length (all_rules sample_snapshot) \<and>
     dc_action (EvaluateHTTP sample_go (\<lambda>_ _. None) (\<lambda>es. es) (Some sample_policy) sample_request) = rd_verdict (all_rules sample_snapshot ! i))"
proof -
  let ?d = "EvaluateHTTP sample_go (\<lambda>_ _. None) (\<lambda>es. es) (Some sample_policy) sample_request"
  have "ParseAuthority sample_go (hr_host sample_request) (DefaultPort (hr_endpoint_kind sample_request)) =
      Ok \<lparr>au_host = ''api.example.com'', au_port = 443\<rparr>"
    "MatchHTTPFamilyHost sample_go (\<lambda>es. es) sample_policy (hr_endpoint_kind sample_request) (hr_host sample_request) =
      Some (endpoint_ref sample_endpoint, sample_endpoint)"
    by (simp_all add: sample_request_def DefaultPort_def sample_authority sample_match)
  note v = request_verdict [OF sample_compiles sample_orders(1) this refl sample_selected refl refl refl, of "\<lambda>_ _. None"]
  have "dc_source ?d = ''rule''" "dc_action ?d = ActionAllow"
    unfolding sample_decided by (simp_all add: owned_decision_def request_decision_def zero_decision_def)
  then show ?thesis using v sample_compiles by (auto split: if_splits)
qed

lemma credential_needs_explicit_allow_witness:
  "dc_selected_credential (EvaluateHTTP sample_go (\<lambda>_ _. None) (\<lambda>es. es) (Some sample_policy) sample_request) = Some sample_credential \<and>
   dc_action (EvaluateHTTP sample_go (\<lambda>_ _. None) (\<lambda>es. es) (Some sample_policy) sample_request) = ActionAllow"
proof -
  have "dc_selected_credential (EvaluateHTTP sample_go (\<lambda>_ _. None) (\<lambda>es. es) (Some sample_policy) sample_request) = Some sample_credential"
    unfolding sample_decided by simp
  then show ?thesis using credential_needs_explicit_allow [OF sample_compiles sample_orders(1)] by blast
qed

lemma wildcard_tie_undetermined_witness:
  "\<exists>p. compileSnapshot sample_go ''policy'' (tie_snapshot ''*.example.com'') = Ok p \<and>
    dc_action (EvaluateHTTP sample_go (\<lambda>_ _. None) (\<lambda>es. es) (Some p) sample_request) = ActionAllow \<and>
    dc_action (EvaluateHTTP sample_go (\<lambda>_ _. None) rev (Some p) sample_request) = ActionDeny"
proof -
  let ?a = "\<lparr>au_host = ''api.example.com'', au_port = 443\<rparr>"
  have r: "ParseAuthority sample_go (hr_host sample_request) 443 = Ok ?a" "hr_endpoint_kind sample_request = ''https''"
    by (simp_all add: sample_request_def sample_authority)
  have m: "Binding_Matches \<lparr>bi_pattern = ''*.example.com'', bi_host = ''example.com'', bi_port = 443, bi_wildcard = True\<rparr> ?a"
    by (simp add: Binding_Matches_def ends_with_def)
  show ?thesis
    using wildcard_tie_undetermined [OF sample_binding(2) _ r(1) m r(2), of "''policy''" "\<lambda>_ _. None"] by auto
qed

end
