(* ===== verification/Spec2Isabelle.thy ===== *)
theory Spec2Isabelle
  imports Prelude Ext4_Types Ext4_Superblock Ext4_Checksum Rust_File Rust_Path Rust_Str Ext4_FileTree Ext4_Error
    Ext4_Extent Ext4_Dir Ext4_Xattr Ext4_Layout Rust_Effect Ext4_Formatter Ext4_Commit Ext4_Image Ext4_Create Ext4_Operations
    Ext4_Sessions Rust_Text Utils Vm_Models Vm_Transitions Vm_Store Vm_Locks Agent_Spec Vm_World Vm_Network Vm_Launch Vm_Runtime
    Vm_Lifecycle Vm_Config Vm_Invariants Vm_Creation Vm_Start Netd_Hosts Netd_Policy Netd_Verdicts
begin

text \<open>
  A verification library for bentobox, a runtime that starts small virtual machines from container images.

  \<^bold>\<open>The program.\<close>  The command line (\<open>app/cli\<close>) and other clients use the library \<open>libvm\<close>
  (\<open>runtime/libvm\<close>).  It keeps machines in an SQLite database, guards each with a lock file, clones the root
  disk, and starts one monitor process per machine (\<open>runtime/vmmon\<close>), which drives the hypervisor
  (\<open>virt\<close>).  Networks are given to machines by a helper in Go (\<open>net/netd\<close>), which
  filters the traffic by a policy and adds credentials to requests.  Root disks are ext4 images that
  \<open>runtime/ocidisk\<close> builds from the layers of an image with the crate \<open>common/ext4\<close>.  Inside the machine
  run an init (\<open>guest/init\<close>) and an agent (\<open>guest/agent\<close>), configured by a file that \<open>libvm\<close> writes.

  \<^bold>\<open>What is modelled.\<close>  Three parts, each from its data up to whole operations.

  The ext4 crate.  \<open>Ext4_Types\<close>, \<open>Ext4_Superblock\<close> and \<open>Ext4_Checksum\<close> are the on-disk structures of
  \<open>types.rs\<close>, \<open>constants.rs\<close> and \<open>checksum.rs\<close>: every structure is a record with its reader and its writer,
  and an instance of the locale \<open>codec\<close> of \<open>Prelude\<close>.  \<open>Ext4_FileTree\<close>, \<open>Ext4_Extent\<close>, \<open>Ext4_Dir\<close> and
  \<open>Ext4_Xattr\<close> are the files of the same names; the file tree is an instance of the locale \<open>namespace\<close>.
  \<open>formatter.rs\<close> is split in three: \<open>Ext4_Layout\<close> (block groups, reserved metadata and the payload writer),
  \<open>Ext4_Formatter\<close> (\<open>with_options\<close>, \<open>create\<close>, \<open>link\<close>, \<open>unlink\<close> and the smaller operations) and
  \<open>Ext4_Commit\<close> (\<open>close\<close>).  \<open>Ext4_Image\<close>, \<open>Ext4_Create\<close> and \<open>Ext4_Operations\<close> carry the invariant of an image
  under construction through the operations; \<open>Ext4_Sessions\<close> states what every sequence of calls keeps.

  The machine runtime.  \<open>Vm_Models\<close>, \<open>Utils\<close> and \<open>Agent_Spec\<close> are the data and the pure functions;
  \<open>Vm_Transitions\<close> is the lifecycle reducer, \<open>Vm_Store\<close> the database, \<open>Vm_Locks\<close> the lock files with the
  protocol around them.  \<open>Vm_World\<close> is the host as one record; on it act \<open>Vm_Network\<close> (\<open>network/\<close>),
  \<open>Vm_Launch\<close> (\<open>vmmon/\<close>, \<open>guest_agent.rs\<close>, \<open>paths/\<close>), \<open>Vm_Runtime\<close> (\<open>runtime/core.rs\<close>), \<open>Vm_Lifecycle\<close>
  (\<open>machine/lifecycle.rs\<close>) and \<open>Vm_Config\<close> (\<open>machine/builder.rs\<close>, \<open>config.rs\<close>, \<open>update.rs\<close>).  \<open>Vm_Invariants\<close>,
  \<open>Vm_Creation\<close> and \<open>Vm_Start\<close> prove what operations keep, leave behind and lead to.

  The network policy (\<open>net/netd/internal/policy\<close>).  \<open>Netd_Hosts\<close> is \<open>hostmatch/hostmatch.go\<close>: authorities and
  host bindings.  \<open>Netd_Policy\<close> holds the documents (\<open>document.go\<close>), the compiled policy and its matching
  (\<open>model.go\<close>), the compiler (\<open>load.go\<close>) and the evaluation of flows and requests (\<open>eval.go\<close>).
  \<open>Netd_Verdicts\<close> relates the decisions to the rules as they are written in the documents.

  \<open>Prelude\<close>, \<open>Rust_Effect\<close>, \<open>Rust_File\<close>, \<open>Rust_Path\<close>, \<open>Rust_Str\<close> and \<open>Rust_Text\<close> are the parts of Rust and of
  its standard library that the sources use.

  \<^bold>\<open>How the source is rendered.\<close>  Machine integers are words of their width, so that arithmetic wraps as it
  does in a release build; \<open>i32\<close> and \<open>i64\<close> are integers.  A \<open>Result\<close> is a sum with the error on the left;
  a panic is \<open>None\<close>.  A method that changes its receiver is an action (\<open>Rust_Effect\<close>) that passes the state
  on, also when it fails.  \<open>act_wp\<close> is total correctness: the call returns without a panic and its value or its
  error satisfies the condition; \<open>keeps\<close> is the special case of an invariant.  A message is the format string with its
  arguments.

  \<^bold>\<open>What the theorems show.\<close>  For images: the structures, extent trees, directory blocks and attribute areas
  read back what was written; in every session no block has two owners or is reserved metadata, link counts
  are the numbers of entries, and a file keeps its size and its bytes whatever calls follow.  For machines: the
  reducer refines a graph of states and late events of earlier runs change nothing; the tables behave as finite maps; the
  lock protocol excludes under every interleaving with crashes, and a lock is handed over within three steps of
  its holder; every history of operations keeps database, states and locks well-formed, releases every lock and returns; creation is all or
  nothing at every failing call, unless the clean-up fails too; a start ends in a running machine or, unless the
  database fails, in one that is recorded as active only if it was; the network of one machine
  does not disturb the others.  For the policy: the rule of highest priority decides flows and requests, an error in a
  condition denies, a host is owned by an exact binding or the longest wildcard, which does not depend on the order of map iteration unless two endpoints share a
  wildcard, and a credential is released only by a rule that allows the request.  Some theorems
  state behaviour that the code should not have, and name it: names that cannot be found, hard links that stand for the root directory, directories whose inode survives, locks
  that are shared after the runtime directory was cleared, wildcards that two endpoints share.

  \<^bold>\<open>Bounds, fuel and parameters.\<close>  The theorems on sessions are about images of at most 16 GiB with blocks of
  4096 bytes, the only block size that \<open>with_options\<close> accepts.  \<open>bfs_order\<close> is a partial function: not returning is
  \<open>None\<close>.  All other loops are structural or have a termination proof.  Waiting for a process looks at
  it at most as often as its deadline allows, and the scan of lock identifiers ends after \<open>2 ^ 32\<close> of them, as in
  the source.  Every database
  statement and every system call of the runtime may fail, as a list of faults decides that the theorems
  quantify over.  What lies outside the sources is a parameter: the \<open>uuid\<close> crate (\<open>uuid_spec\<close> is its documented
  behaviour), random numbers, the clock, the processes that are started and what they answer; for the policy, the parsers
  of the Go library, compiled conditions, and the order in which Go iterates over a map.

  \<^bold>\<open>Not modelled.\<close>  \<open>app/cli\<close>: argument parsing and terminal output.  \<open>runtime/ocidisk\<close>: registries, archives and a
  store directory, over libraries that are not part of the sources.  \<open>runtime/vmmon\<close> and \<open>runtime/plugins\<close>:
  asynchronous servers that pass bytes between sockets.  \<open>virt\<close>: bindings to hypervisors.  Of \<open>net/netd\<close>: the
  network stack, the proxies and the loading of files around the policy.  \<open>guest/init\<close> and \<open>guest/agent\<close>: system calls in the guest.
  \<open>specs/protocol\<close>: generated messages.  \<open>common/policy\<close>: a front end of an HCL parser.  \<open>xtask\<close>, \<open>scripts\<close> and
  \<open>resources\<close>: the build.  Of \<open>libvm\<close>: SSH key generation, opening and migrating the database, image pulls,
  log streams and the resolution of directories from the environment.  Of the ext4 crate: the reader and the unpacking of archives, and failures
  of the image file and of the readers that deliver the contents of files.
  Tests are not modelled.
\<close>

end
